(* ===== verification/Sylvops_Prelude.thy ===== *)
theory Sylvops_Prelude
  imports Main "HOL-Library.Word"
begin

text \<open>
  Shared vocabulary of the development: Rust's results and state passing, text as lists of
  Unicode scalar values, checked and saturating machine arithmetic, bounded sets and windows,
  and the two locales every stateful component is proved through
  (\<open>step_invariant\<close>, \<open>step_monotone\<close>).
\<close>

section \<open>Results and state passing\<close>

named_theorems result_simps "unfolding of Rust's Result plumbing"

text \<open>
  \<open>Result<A, E>\<close> is \<open>E + A\<close>: \<open>Inl\<close> is \<open>Err\<close>, \<open>Inr\<close> is \<open>Ok\<close>. A method on
  \<open>&mut self\<close> that returns a result is a function to \<open>(E + A) \<times> S\<close>: the state after the call is
  part of the outcome on both branches, as it is in Rust. \<open>and_then\<close> is the \<open>?\<close> operator
  followed by the rest of the method body.
\<close>

definition and_then ::
    "('e + 'a) \<times> 's \<Rightarrow> ('a \<Rightarrow> 's \<Rightarrow> ('e + 'b) \<times> 's) \<Rightarrow> ('e + 'b) \<times> 's" where
  "and_then r k = (case r of (Inl e, s) \<Rightarrow> (Inl e, s) | (Inr x, s) \<Rightarrow> k x s)"

lemma and_then_Inl [simp, result_simps]: "and_then (Inl e, s) k = (Inl e, s)"
  by (simp add: and_then_def)

lemma and_then_Inr [simp, result_simps]: "and_then (Inr x, s) k = k x s"
  by (simp add: and_then_def)

lemma and_then_eq_Inr:
  "and_then r k = (Inr y, t) \<longleftrightarrow> (\<exists>x s. r = (Inr x, s) \<and> k x s = (Inr y, t))"
  by (cases r; cases "fst r") auto

lemma and_then_assoc:
  "and_then (and_then r k) l = and_then r (\<lambda>x s. and_then (k x s) l)"
  by (cases r; cases "fst r") (auto simp: and_then_def split: sum.split prod.split)

text \<open>The same operator for results that carry no state.\<close>

definition bind_result :: "'e + 'a \<Rightarrow> ('a \<Rightarrow> 'e + 'b) \<Rightarrow> 'e + 'b" where
  "bind_result r k = (case r of Inl e \<Rightarrow> Inl e | Inr x \<Rightarrow> k x)"

lemma bind_result_simps [simp, result_simps]:
  "bind_result (Inl e) k = Inl e"
  "bind_result (Inr x) k = k x"
  by (simp_all add: bind_result_def)

lemma bind_result_eq_Inr:
  "bind_result r k = Inr y \<longleftrightarrow> (\<exists>x. r = Inr x \<and> k x = Inr y)"
  by (cases r) auto

lemma bind_resultE:
  "bind_result r k = Inr y \<Longrightarrow> (\<And>x. r = Inr x \<Longrightarrow> k x = Inr y \<Longrightarrow> P) \<Longrightarrow> P"
  by (auto simp: bind_result_eq_Inr)

text \<open>A guard: \<open>if b { return Err(e) }\<close>.\<close>

definition refuse_if :: "bool \<Rightarrow> 'e \<Rightarrow> 'e + unit" where
  "refuse_if b e = (if b then Inl e else Inr ())"

lemma refuse_if_simps [simp, result_simps]:
  "refuse_if True e = Inl e" "refuse_if False e = Inr ()"
  by (simp_all add: refuse_if_def)

lemma refuse_if_eq_Inr [simp]: "refuse_if b e = Inr u \<longleftrightarrow> \<not> b"
  by (simp add: refuse_if_def)

lemma refuse_if_eq_Inl [simp]: "refuse_if b e = Inl e' \<longleftrightarrow> b \<and> e' = e"
  by (auto simp: refuse_if_def)

definition is_ok :: "'e + 'a \<Rightarrow> bool" where
  "is_ok r = (case r of Inl _ \<Rightarrow> False | Inr _ \<Rightarrow> True)"

lemma is_ok_simps [simp]: "is_ok (Inr x)" "\<not> is_ok (Inl e)"
  by (simp_all add: is_ok_def)

lemma is_ok_iff: "is_ok r \<longleftrightarrow> (\<exists>x. r = Inr x)"
  by (cases r) auto

text \<open>
  Callers that mutate a clone and store it only on success keep the old state on \<open>Err\<close>.
\<close>

definition commit_on_ok :: "'s \<Rightarrow> ('e + 'a) \<times> 's \<Rightarrow> 's" where
  "commit_on_ok s r = (case r of (Inl _, _) \<Rightarrow> s | (Inr _, t) \<Rightarrow> t)"

lemma commit_on_ok_simps [simp]:
  "commit_on_ok s (Inl e, t) = s" "commit_on_ok s (Inr x, t) = t"
  by (simp_all add: commit_on_ok_def)

section \<open>Text\<close>

text \<open>
  A Rust \<open>String\<close> is a sequence of Unicode scalar values stored as UTF-8. It is modelled by
  the list of its scalar values (what \<open>chars()\<close> yields); \<open>len()\<close>, which counts bytes, is
  \<open>byte_len\<close>. Literals are written \<open>lit ''abc''\<close>.
\<close>

type_synonym str = "nat list"

definition lit :: "string \<Rightarrow> str" where
  "lit s = map of_char s"

definition utf8_width :: "nat \<Rightarrow> nat" where
  "utf8_width c = (if c < 0x80 then 1 else if c < 0x800 then 2 else if c < 0x10000 then 3 else 4)"

definition byte_len :: "str \<Rightarrow> nat" where
  "byte_len s = sum_list (map utf8_width s)"

lemma byte_len_Nil [simp]: "byte_len [] = 0"
  by (simp add: byte_len_def)

lemma byte_len_Cons [simp]: "byte_len (c # s) = utf8_width c + byte_len s"
  by (simp add: byte_len_def)

lemma byte_len_append [simp]: "byte_len (s @ t) = byte_len s + byte_len t"
  by (simp add: byte_len_def)

lemma utf8_width_bounds: "1 \<le> utf8_width c" "utf8_width c \<le> 4"
  by (simp_all add: utf8_width_def)

lemma length_le_byte_len: "length s \<le> byte_len s"
proof (induction s)
  case (Cons c s)
  then show ?case using utf8_width_bounds(1) [of c] by simp
qed simp

lemma byte_len_le: "byte_len s \<le> 4 * length s"
proof (induction s)
  case (Cons c s)
  then show ?case using utf8_width_bounds(2) [of c] by simp
qed simp

lemma byte_len_eq_0 [simp]: "byte_len s = 0 \<longleftrightarrow> s = []"
  using length_le_byte_len [of s] by auto

lemma byte_len_ascii: "list_all (\<lambda>c. c < 0x80) s \<Longrightarrow> byte_len s = length s"
  by (induction s) (auto simp: utf8_width_def)

text \<open>The UTF-8 bytes of a text (\<open>as_bytes\<close>).\<close>

definition utf8_char :: "nat \<Rightarrow> 8 word list" where
  "utf8_char c =
     (if c < 0x80 then [of_nat c]
      else if c < 0x800 then [of_nat (0xC0 + c div 64), of_nat (0x80 + c mod 64)]
      else if c < 0x10000 then [of_nat (0xE0 + c div 4096), of_nat (0x80 + c div 64 mod 64),
                                of_nat (0x80 + c mod 64)]
      else [of_nat (0xF0 + c div 262144), of_nat (0x80 + c div 4096 mod 64),
            of_nat (0x80 + c div 64 mod 64), of_nat (0x80 + c mod 64)])"

definition utf8_bytes :: "str \<Rightarrow> 8 word list" where
  "utf8_bytes s = concat (map utf8_char s)"

lemma length_utf8_bytes [simp]: "length (utf8_bytes s) = byte_len s"
  by (induction s) (simp_all add: utf8_bytes_def utf8_char_def utf8_width_def)

text \<open>Character classes: the ASCII classes of \<open>char\<close>, \<open>char::is_control\<close> (category Cc)
  and \<open>char::is_whitespace\<close> (property White_Space).\<close>

definition is_ascii_digit :: "nat \<Rightarrow> bool" where
  "is_ascii_digit c \<longleftrightarrow> 48 \<le> c \<and> c \<le> 57"

definition is_ascii_lowercase :: "nat \<Rightarrow> bool" where
  "is_ascii_lowercase c \<longleftrightarrow> 97 \<le> c \<and> c \<le> 122"

definition is_ascii_uppercase :: "nat \<Rightarrow> bool" where
  "is_ascii_uppercase c \<longleftrightarrow> 65 \<le> c \<and> c \<le> 90"

definition is_ascii_alphanumeric :: "nat \<Rightarrow> bool" where
  "is_ascii_alphanumeric c \<longleftrightarrow> is_ascii_digit c \<or> is_ascii_lowercase c \<or> is_ascii_uppercase c"

definition is_ascii_hexdigit :: "nat \<Rightarrow> bool" where
  "is_ascii_hexdigit c \<longleftrightarrow>
     is_ascii_digit c \<or> (97 \<le> c \<and> c \<le> 102) \<or> (65 \<le> c \<and> c \<le> 70)"

definition is_ascii_graphic :: "nat \<Rightarrow> bool" where
  "is_ascii_graphic c \<longleftrightarrow> 33 \<le> c \<and> c \<le> 126"

definition is_control :: "nat \<Rightarrow> bool" where
  "is_control c \<longleftrightarrow> c < 32 \<or> (127 \<le> c \<and> c \<le> 159)"

definition is_whitespace :: "nat \<Rightarrow> bool" where
  "is_whitespace c \<longleftrightarrow> (9 \<le> c \<and> c \<le> 13) \<or> c = 32 \<or> c = 133 \<or> c = 160 \<or> c = 5760
     \<or> (8192 \<le> c \<and> c \<le> 8202) \<or> c = 8232 \<or> c = 8233 \<or> c = 8239 \<or> c = 8287 \<or> c = 12288"

lemmas char_class_defs =
  is_ascii_digit_def is_ascii_lowercase_def is_ascii_uppercase_def is_ascii_alphanumeric_def
  is_ascii_hexdigit_def is_ascii_graphic_def is_control_def is_whitespace_def

definition trim :: "str \<Rightarrow> str" where
  "trim s = rev (dropWhile is_whitespace (rev (dropWhile is_whitespace s)))"

lemma trim_Nil [simp]: "trim [] = []"
  by (simp add: trim_def)

lemma set_trim_subset: "set (trim s) \<subseteq> set s"
  by (auto simp: trim_def dest!: set_dropWhileD)

lemma trim_eq_Nil_iff: "trim s = [] \<longleftrightarrow> (\<forall>c\<in>set s. is_whitespace c)"
proof
  assume "trim s = []"
  then have all: "\<forall>c \<in> set (dropWhile is_whitespace s). is_whitespace c"
    by (simp only: trim_def rev_is_Nil_conv dropWhile_eq_Nil_conv set_rev)
  have "dropWhile is_whitespace s = []"
  proof (rule ccontr)
    assume "dropWhile is_whitespace s \<noteq> []"
    then show False using all hd_dropWhile [of is_whitespace s] by (meson hd_in_set)
  qed
  then show "\<forall>c\<in>set s. is_whitespace c"
    by (simp only: dropWhile_eq_Nil_conv)
next
  assume "\<forall>c\<in>set s. is_whitespace c"
  then have "dropWhile is_whitespace s = []" by (simp only: dropWhile_eq_Nil_conv)
  then show "trim s = []" by (simp only: trim_def rev.simps dropWhile.simps)
qed

lemma length_trim_le: "length (trim s) \<le> length s"
  by (simp add: trim_def length_dropWhile_le le_trans [OF length_dropWhile_le])

section \<open>Machine integers\<close>

type_synonym u8 = "8 word"
type_synonym u16 = "16 word"
type_synonym u32 = "32 word"
type_synonym u64 = "64 word"
type_synonym uuid = "128 word"

text \<open>\<open>checked_add\<close> and \<open>saturating_add\<close> of an unsigned \<open>n\<close>-bit integer.\<close>

definition checked_add :: "'a::len word \<Rightarrow> 'a word \<Rightarrow> 'a word option" where
  "checked_add a b = (if unat a + unat b < 2 ^ LENGTH('a) then Some (a + b) else None)"

definition saturating_add :: "'a::len word \<Rightarrow> 'a word \<Rightarrow> 'a word" where
  "saturating_add a b = (if unat a + unat b < 2 ^ LENGTH('a) then a + b else - 1)"

lemma checked_add_Some: "checked_add a b = Some c \<Longrightarrow> unat c = unat a + unat b"
  by (auto simp: checked_add_def unat_word_ariths split: if_splits)

lemma unat_saturating_add:
  "unat (saturating_add a b :: 'a::len word) = min (unat a + unat b) (2 ^ LENGTH('a) - 1)"
proof (cases "unat a + unat b < 2 ^ LENGTH('a)")
  case True
  then show ?thesis by (simp add: saturating_add_def unat_word_ariths)
next
  case False
  have "unat (- 1 :: 'a word) = 2 ^ LENGTH('a) - 1"
    by (simp add: unsigned_minus_1_eq_mask mask_eq_exp_minus_1)
  with False show ?thesis by (simp add: saturating_add_def)
qed

lemma saturating_add_mono: "unat (a :: 'a::len word) \<le> unat (saturating_add a b)"
proof -
  have "unat a < 2 ^ LENGTH('a)" by (rule unsigned_less)
  then have "unat a \<le> 2 ^ LENGTH('a) - 1" by linarith
  then show ?thesis by (simp only: unat_saturating_add min.bounded_iff le_add1 simp_thms)
qed

section \<open>Hash maps\<close>

text \<open>
  A \<open>HashMap\<close> whose values are searched is an association list without duplicate keys, in an
  order no operation depends on. \<open>insert\<close> overwrites.
\<close>

type_synonym ('k, 'v) hash_map = "('k \<times> 'v) list"

definition hm_remove :: "'k \<Rightarrow> ('k, 'v) hash_map \<Rightarrow> ('k, 'v) hash_map" where
  "hm_remove k m = filter (\<lambda>p. fst p \<noteq> k) m"

definition hm_insert :: "'k \<Rightarrow> 'v \<Rightarrow> ('k, 'v) hash_map \<Rightarrow> ('k, 'v) hash_map" where
  "hm_insert k v m = (k, v) # hm_remove k m"

definition hm_values :: "('k, 'v) hash_map \<Rightarrow> 'v list" where
  "hm_values m = map snd m"

definition hm_wf :: "('k, 'v) hash_map \<Rightarrow> bool" where
  "hm_wf m \<longleftrightarrow> distinct (map fst m)"

lemma hm_wf_Nil [simp]: "hm_wf []"
  by (simp add: hm_wf_def)

lemma hm_wf_remove [simp]: "hm_wf m \<Longrightarrow> hm_wf (hm_remove k m)"
  by (simp add: hm_wf_def hm_remove_def distinct_map_filter)

lemma hm_wf_insert [simp]: "hm_wf m \<Longrightarrow> hm_wf (hm_insert k v m)"
  using hm_wf_remove [of m k] by (auto simp: hm_wf_def hm_insert_def hm_remove_def)

lemma map_of_hm_remove [simp]: "map_of (hm_remove k m) = (map_of m)(k := None)"
  by (rule ext, induction m) (auto simp: hm_remove_def)

lemma map_of_hm_insert [simp]: "map_of (hm_insert k v m) = (map_of m)(k \<mapsto> v)"
  by (simp add: hm_insert_def)

lemma set_hm_remove: "set (hm_remove k m) = {p \<in> set m. fst p \<noteq> k}"
  by (auto simp: hm_remove_def)

lemma set_hm_insert: "set (hm_insert k v m) = insert (k, v) {p \<in> set m. fst p \<noteq> k}"
  by (auto simp: hm_insert_def hm_remove_def)

lemma hm_insert_not_Nil [simp]: "hm_insert k v m \<noteq> []"
  by (simp add: hm_insert_def)

definition hm_keys :: "('k, 'v) hash_map \<Rightarrow> 'k set" where
  "hm_keys m = fst ` set m"

definition hm_range :: "('k, 'v) hash_map \<Rightarrow> 'v set" where
  "hm_range m = snd ` set m"

lemma set_hm_values [simp]: "set (hm_values m) = hm_range m"
  by (simp add: hm_values_def hm_range_def)

lemma hm_keys_simps [simp]:
  "hm_keys [] = {}" "hm_keys (hm_insert k v m) = insert k (hm_keys m)"
  "hm_keys (hm_remove k m) = hm_keys m - {k}"
  by (auto simp: hm_keys_def hm_insert_def hm_remove_def)

lemma hm_range_Nil [simp]: "hm_range m = {} \<longleftrightarrow> m = []" "hm_range [] = {}"
  by (simp_all add: hm_range_def)

lemma hm_range_remove: "hm_range (hm_remove k m) \<subseteq> hm_range m"
  by (auto simp: hm_range_def hm_remove_def)

lemma hm_range_insert: "hm_range (hm_insert k v m) \<subseteq> insert v (hm_range m)"
  by (auto simp: hm_range_def hm_insert_def hm_remove_def)

lemma hm_range_insert_new [simp]: "v \<in> hm_range (hm_insert k v m)"
  by (auto simp: hm_range_def hm_insert_def)

lemma map_of_eq_None_hm: "map_of m k = None \<longleftrightarrow> k \<notin> hm_keys m"
  by (simp add: map_of_eq_None_iff hm_keys_def)

lemma map_of_Some_hm: "map_of m k = Some v \<Longrightarrow> k \<in> hm_keys m \<and> v \<in> hm_range m"
  by (force simp: hm_keys_def hm_range_def dest: map_of_SomeD)

text \<open>Decimal rendering of an unsigned number.\<close>

fun decimal :: "nat \<Rightarrow> str" where
  "decimal n = (if n < 10 then [48 + n] else decimal (n div 10) @ [48 + n mod 10])"

declare decimal.simps [simp del]

section \<open>Counting in a list of tasks\<close>

definition tally :: "('a \<Rightarrow> bool) \<Rightarrow> 'a list \<Rightarrow> nat" where
  "tally P xs = length (filter P xs)"

lemma tally_append [simp]: "tally P (xs @ ys) = tally P xs + tally P ys"
  by (simp add: tally_def)

lemma tally_Cons [simp]: "tally P (x # xs) = (if P x then 1 else 0) + tally P xs"
  by (simp add: tally_def)

lemma tally_Nil [simp]: "tally P [] = 0"
  by (simp add: tally_def)

lemma tally_0_set: "tally P xs = 0 \<longleftrightarrow> (\<forall>x\<in>set xs. \<not> P x)"
  by (simp add: tally_def filter_empty_conv)

lemma tally_update:
  "i < length xs \<Longrightarrow>
     tally P (xs[i := y]) + (if P (xs ! i) then 1 else 0) = tally P xs + (if P y then 1 else 0)"
proof (induction xs arbitrary: i)
  case (Cons x xs)
  then show ?case by (cases i) (auto simp: tally_def)
qed simp

lemma tally_le: "tally P xs \<le> length xs"
  by (simp add: tally_def)

lemma tally_replicate [simp]: "tally P (replicate n x) = (if P x then n else 0)"
  by (simp add: tally_def)

lemma tally_pos: "i < length xs \<Longrightarrow> P (xs ! i) \<Longrightarrow> 0 < tally P xs"
  by (auto simp: tally_def filter_empty_conv)

lemma tally_0: "tally P xs = 0 \<longleftrightarrow> (\<forall>i < length xs. \<not> P (xs ! i))"
  by (auto simp: tally_def filter_empty_conv all_set_conv_all_nth)

lemma tally_less: "i < length xs \<Longrightarrow> \<not> P (xs ! i) \<Longrightarrow> tally P xs < length xs"
  unfolding tally_def by (rule length_filter_less [of "xs ! i"]) simp_all

lemma tally_mono: "(\<And>x. P x \<Longrightarrow> Q x) \<Longrightarrow> tally P xs \<le> tally Q xs"
  by (induction xs) (auto simp: tally_def)

lemma tally_two: "i < j \<Longrightarrow> j < length xs \<Longrightarrow> P (xs ! i) \<Longrightarrow> P (xs ! j) \<Longrightarrow> 2 \<le> tally P xs"
proof (induction xs arbitrary: i j)
  case (Cons x xs)
  then show ?case
  proof (cases i)
    case 0
    then obtain j' where "j = Suc j'" "j' < length xs" using Cons.prems by (cases j) auto
    then show ?thesis using 0 Cons.prems tally_pos [of j' xs P]
      by (simp add: tally_def Suc_le_eq del: length_greater_0_conv)
  next
    case (Suc i')
    then obtain j' where "j = Suc j'" using Cons.prems by (cases j) auto
    then show ?thesis using Suc Cons.prems Cons.IH [of i' j'] by (simp add: tally_def)
  qed
qed simp

lemma tally_unique:
  assumes "\<And>j. j < length xs \<Longrightarrow> P (xs ! j) \<Longrightarrow> j = f"
  shows "tally P xs \<le> 1"
proof -
  have "{j. j < length xs \<and> P (xs ! j)} \<subseteq> {f}" using assms by blast
  then have "card {j. j < length xs \<and> P (xs ! j)} \<le> card {f}" by (rule card_mono [rotated]) simp
  then show ?thesis by (simp add: tally_def length_filter_conv_card)
qed

lemma tally_at_most_one:
  "tally P xs \<le> 1 \<Longrightarrow> i < length xs \<Longrightarrow> j < length xs \<Longrightarrow> P (xs ! i) \<Longrightarrow> P (xs ! j) \<Longrightarrow> i = j"
  using tally_two [of i j xs P] tally_two [of j i xs P] by (cases i j rule: linorder_cases) auto

section \<open>Contracts of stateful components\<close>

text \<open>
  A component is a state, a total step function over its operations and an invariant that
  every operation keeps. The invariant then holds after every sequence of operations.
\<close>

locale step_invariant =
  fixes step :: "'s \<Rightarrow> 'op \<Rightarrow> 's"
    and inv :: "'s \<Rightarrow> bool"
  assumes step_inv: "inv s \<Longrightarrow> inv (step s a)"
begin

lemma run_inv: "inv s \<Longrightarrow> inv (foldl step s as)"
  by (induction as arbitrary: s) (auto intro: step_inv)

end

text \<open>
  A component whose operations only move forward in some preorder on its states: later states
  are above earlier ones, whatever happens in between.
\<close>

locale step_ordered = step_invariant +
  fixes le :: "'s \<Rightarrow> 's \<Rightarrow> bool"
  assumes le_refl: "le s s"
    and le_trans: "le s t \<Longrightarrow> le t u \<Longrightarrow> le s u"
    and step_le: "inv s \<Longrightarrow> le s (step s a)"
begin

lemma run_le: "inv s \<Longrightarrow> le s (foldl step s as)"
proof (induction as arbitrary: s)
  case Nil
  show ?case by (simp add: le_refl)
next
  case (Cons a as)
  have "le s (step s a)" using Cons.prems by (rule step_le)
  moreover have "le (step s a) (foldl step (step s a) as)"
    using Cons.prems by (intro Cons.IH step_inv)
  ultimately show ?case by (auto intro: le_trans)
qed

lemma run_le_append: "inv s \<Longrightarrow> le (foldl step s as) (foldl step s (as @ bs))"
  by (simp add: run_le run_inv)

end

text \<open>
  The common case: a counter (an event identity, a sequence number, a revision) that no
  operation lowers.
\<close>

locale step_monotone = step_invariant +
  fixes level :: "'s \<Rightarrow> nat"
  assumes step_level: "inv s \<Longrightarrow> level s \<le> level (step s a)"

sublocale step_monotone \<subseteq> by_level: step_ordered step inv "\<lambda>s t. level s \<le> level t"
  by unfold_locales (auto intro: step_level)

text \<open>
  A component that several tasks drive concurrently is a relation between its states: any task
  may take its next atomic action. An invariant of the initial states that every action keeps
  holds in every reachable state.
\<close>

locale transition_system =
  fixes initial :: "'s \<Rightarrow> bool"
    and step :: "'s \<Rightarrow> 's \<Rightarrow> bool"
    and inv :: "'s \<Rightarrow> bool"
  assumes initial_inv: "initial s \<Longrightarrow> inv s"
    and step_inv: "inv s \<Longrightarrow> step s t \<Longrightarrow> inv t"
begin

lemma steps_inv: "step\<^sup>*\<^sup>* s t \<Longrightarrow> inv s \<Longrightarrow> inv t"
  by (induction rule: rtranclp_induct) (auto intro: step_inv)

lemma reachable_inv: "initial s \<Longrightarrow> step\<^sup>*\<^sup>* s t \<Longrightarrow> inv t"
  by (rule steps_inv [OF _ initial_inv])

end

text \<open>
  A phase in which every action uses up some of a finite potential: however the tasks are
  scheduled, no run of it is longer than the potential it starts with.
\<close>

locale draining =
  fixes step :: "'s \<Rightarrow> 's \<Rightarrow> bool"
    and inv :: "'s \<Rightarrow> bool"
    and potential :: "'s \<Rightarrow> nat"
  assumes drain_inv: "inv s \<Longrightarrow> step s t \<Longrightarrow> inv t"
    and drain_less: "inv s \<Longrightarrow> step s t \<Longrightarrow> potential t < potential s"
begin

lemma run_bounded: "(step ^^ n) s t \<Longrightarrow> inv s \<Longrightarrow> inv t \<and> n + potential t \<le> potential s"
proof (induction n arbitrary: t)
  case (Suc n)
  then obtain u where u: "(step ^^ n) s u" "step u t" by auto
  with Suc show ?case using drain_inv [of u t] drain_less [of u t] by fastforce
qed simp

end

section \<open>Contracts of textual types\<close>

text \<open>
  A checked newtype or a string enumeration: \<open>parse\<close> (\<open>TryFrom<String>\<close>, \<open>FromStr\<close>) refuses
  or builds a value that \<open>show\<close> (\<open>Display\<close>, \<open>Into<String>\<close>) prints back as it was read.
\<close>

locale textual =
  fixes parse :: "str \<Rightarrow> 'e + 'a" and show_text :: "'a \<Rightarrow> str"
  assumes show_parse: "parse s = Inr x \<Longrightarrow> show_text x = s"
begin

lemma parse_inj: "parse s = Inr x \<Longrightarrow> parse t = Inr x \<Longrightarrow> s = t"
  using show_parse [of s x] show_parse [of t x] by simp

lemma reparse: "parse s = Inr x \<Longrightarrow> parse (show_text x) = Inr x"
  by (simp add: show_parse)

end

text \<open>An enumeration also reads back each of its values.\<close>

locale textual_enum = textual +
  assumes parse_show: "parse (show_text x) = Inr x"
begin

lemma show_inj: "show_text x = show_text y \<longleftrightarrow> x = y"
  by (metis parse_show sum.inject(2))

lemma parse_iff: "parse s = Inr x \<longleftrightarrow> s = show_text x"
  using show_parse parse_show by blast

end

section \<open>Walks along a partial function\<close>

text \<open>
  A bounded \<open>for _ in 0..=n\<close> loop that follows a map until it leaves its domain. Along an
  acyclic map with at most \<open>n\<close> entries the bound is never the reason to stop.
\<close>

fun follow :: "('a \<Rightarrow> 'a option) \<Rightarrow> nat \<Rightarrow> 'a \<Rightarrow> 'a option" where
  "follow f 0 x = None"
| "follow f (Suc n) x = (case f x of None \<Rightarrow> Some x | Some y \<Rightarrow> follow f n y)"

definition map_graph :: "('a \<Rightarrow> 'a option) \<Rightarrow> ('a \<times> 'a) set" where
  "map_graph f = {(x, y). f x = Some y}"

lemma map_graph_iff [simp]: "(x, y) \<in> map_graph f \<longleftrightarrow> f x = Some y"
  by (simp add: map_graph_def)

lemma reachable_avoids_start:
  assumes "acyclic (map_graph f)" "f x = Some y" "(y, z) \<in> (map_graph f)\<^sup>*"
  shows "z \<noteq> x"
proof
  assume "z = x"
  have "(x, y) \<in> map_graph f" using assms(2) by simp
  then have "(x, x) \<in> (map_graph f)\<^sup>+"
    using assms(3) \<open>z = x\<close> by (auto intro: rtrancl_into_trancl2)
  then show False using assms(1) by (simp add: acyclic_def)
qed

lemma follow_reaches_end_aux:
  assumes "acyclic (map_graph f)"
  shows "finite D \<Longrightarrow> card D \<le> n \<Longrightarrow>
     (\<forall>z. (x, z) \<in> (map_graph f)\<^sup>* \<longrightarrow> z \<in> dom f \<longrightarrow> z \<in> D) \<Longrightarrow>
     \<exists>z. follow f (Suc n) x = Some z \<and> f z = None \<and> (x, z) \<in> (map_graph f)\<^sup>*"
proof (induction n arbitrary: x D)
  case 0
  then have "f x = None" by auto
  then show ?case by simp
next
  case (Suc n)
  show ?case
  proof (cases "f x")
    case None
    then show ?thesis by simp
  next
    case (Some y)
    then have "x \<in> D" using Suc.prems(3) by auto
    then have D: "finite (D - {x})" "card (D - {x}) \<le> n"
      using Suc.prems(1,2) by simp_all
    have from_x: "(x, z) \<in> (map_graph f)\<^sup>*" if "(y, z) \<in> (map_graph f)\<^sup>*" for z
      using Some that by (intro converse_rtrancl_into_rtrancl [of x y]) simp_all
    have "\<forall>z. (y, z) \<in> (map_graph f)\<^sup>* \<longrightarrow> z \<in> dom f \<longrightarrow> z \<in> D - {x}"
      using Suc.prems(3) from_x reachable_avoids_start [OF assms Some] by blast
    from Suc.IH [OF D this] obtain z where
      "follow f (Suc n) y = Some z" "f z = None" "(y, z) \<in> (map_graph f)\<^sup>*" by blast
    then show ?thesis using Some from_x
      by (metis follow.simps(2) option.simps(5))
  qed
qed

lemma follow_reaches_end:
  assumes "acyclic (map_graph f)" "finite (dom f)" "card (dom f) \<le> n"
  shows "\<exists>z. follow f (Suc n) x = Some z \<and> f z = None \<and> (x, z) \<in> (map_graph f)\<^sup>*"
  by (rule follow_reaches_end_aux [OF assms(1), of "dom f"]) (use assms in auto)

lemma follow_Some:
  "follow f n x = Some z \<Longrightarrow> f z = None \<and> (x, z) \<in> (map_graph f)\<^sup>*"
  by (induction n arbitrary: x)
    (auto split: option.splits intro: converse_rtrancl_into_rtrancl)

end
