(* ===== verification/Session_State.thy ===== *)
theory Session_State
  imports Sylvops_Prelude
begin

text \<open>
  \<open>crates/sylvops-core/src/session_state.rs\<close>: the process lifecycle of a Session, the activity
  its Provider reports, the one retained attention event, and the boundary check
  (\<open>SessionStatus::validate\<close>) that rejects impossible combinations of the three.
\<close>

section \<open>Data\<close>

datatype session_lifecycle =
  Fresh | Starting | Running | Exited | Failed | Terminated | Disconnected

text \<open>\<open>ProviderActivity::None\<close> is \<open>NoActivity\<close>; its \<open>RecoverableFailure\<close> shares the name of an
  attention reason and is \<open>ActivityRecoverableFailure\<close>.\<close>

datatype provider_activity =
  NoActivity | Working | AwaitingInput | Completed | Interrupted | ActivityRecoverableFailure

datatype attention_reason =
  InputRequested | SuccessfulCompletion | RecoverableFailure | TerminalFailure

datatype attention_acknowledgement = Pending | Acknowledged | Resolved

datatype attention_event_id = AttentionEventId (event_number: u64)

record attention_event =
  ev_id :: attention_event_id
  ev_reason :: attention_reason
  ev_ack :: attention_acknowledgement
  ev_occurred_at :: int

record session_status =
  st_lifecycle :: session_lifecycle
  st_activity :: provider_activity
  st_attention :: "attention_event option"

text \<open>The messages of the \<open>&'static str\<close> errors.\<close>

datatype status_error =
    EventIdOutOfRange
  | ActivityRequiresRunning
  | UnstartedCarriesAttention
  | ConditionAttentionDisagree
  | InvalidAttentionTimestamp
  | AttentionDoesNotMatch
  | ConditionRequiresAttention
  | InputRequiresRunning
  | InvalidFailureCategory

definition default_status :: session_status where
  "default_status = \<lparr>st_lifecycle = Fresh, st_activity = NoActivity, st_attention = None\<rparr>"

section \<open>Operations\<close>

definition lifecycle_is_active :: "session_lifecycle \<Rightarrow> bool" where
  "lifecycle_is_active l \<longleftrightarrow> l = Starting \<or> l = Running"

definition lifecycle_allows_resume :: "session_lifecycle \<Rightarrow> bool" where
  "lifecycle_allows_resume l \<longleftrightarrow>
     l = Exited \<or> l = Failed \<or> l = Terminated \<or> l = Disconnected"

definition lifecycle_allows_deletion :: "session_lifecycle \<Rightarrow> bool" where
  "lifecycle_allows_deletion l = lifecycle_allows_resume l"

text \<open>\<open>AttentionEventId::try_from\<close>: positive and inside the positive range of an \<open>i64\<close>.\<close>

definition event_id_try_from :: "u64 \<Rightarrow> status_error + attention_event_id" where
  "event_id_try_from v =
     (if v = 0 \<or> \<not> unat v < 2 ^ 63 then Inl EventIdOutOfRange else Inr (AttentionEventId v))"

definition effective_reason :: "session_status \<Rightarrow> attention_reason option" where
  "effective_reason s = (case st_attention s of
       None \<Rightarrow> None
     | Some e \<Rightarrow> if ev_ack e \<noteq> Resolved then Some (ev_reason e) else None)"

definition expected_reason :: "provider_activity \<Rightarrow> attention_reason option" where
  "expected_reason a = (case a of
       AwaitingInput \<Rightarrow> Some InputRequested
     | Completed \<Rightarrow> Some SuccessfulCompletion
     | ActivityRecoverableFailure \<Rightarrow> Some RecoverableFailure
     | _ \<Rightarrow> None)"

definition reason_matches :: "session_status \<Rightarrow> attention_reason \<Rightarrow> bool" where
  "reason_matches s r = (case r of
       InputRequested \<Rightarrow> st_activity s = AwaitingInput \<or> st_lifecycle s = Disconnected
     | RecoverableFailure \<Rightarrow>
         st_activity s = ActivityRecoverableFailure \<or> st_lifecycle s = Disconnected
     | TerminalFailure \<Rightarrow> st_lifecycle s = Failed \<or> st_lifecycle s = Disconnected
     | SuccessfulCompletion \<Rightarrow> st_activity s = Completed
         \<or> (st_lifecycle s = Exited \<or> st_lifecycle s = Disconnected))"

definition validate :: "session_status \<Rightarrow> status_error + unit" where
  "validate s =
     (if st_lifecycle s \<noteq> Running \<and> st_activity s \<noteq> NoActivity
      then Inl ActivityRequiresRunning
      else if (st_lifecycle s = Fresh \<or> st_lifecycle s = Starting) \<and> st_attention s \<noteq> None
      then Inl UnstartedCarriesAttention
      else if st_lifecycle s = Running \<and> effective_reason s \<noteq> expected_reason (st_activity s)
      then Inl ConditionAttentionDisagree
      else case st_attention s of
        Some e \<Rightarrow>
          if ev_occurred_at e < 0 then Inl InvalidAttentionTimestamp
          else if ev_ack e \<noteq> Resolved \<and> \<not> reason_matches s (ev_reason e)
          then Inl AttentionDoesNotMatch
          else Inr ()
      | None \<Rightarrow>
          if st_activity s = AwaitingInput \<or> st_activity s = Completed
             \<or> st_activity s = ActivityRecoverableFailure
          then Inl ConditionRequiresAttention
          else Inr ())"

text \<open>\<open>SessionStatus::try_from(SessionStatusWire)\<close>: the wire shape has the same three fields.\<close>

definition status_try_from_wire ::
    "session_lifecycle \<Rightarrow> provider_activity \<Rightarrow> attention_event option
       \<Rightarrow> status_error + session_status" where
  "status_try_from_wire l a e =
     (let s = \<lparr>st_lifecycle = l, st_activity = a, st_attention = e\<rparr>
      in bind_result (validate s) (\<lambda>_. Inr s))"

text \<open>\<open>SessionStatus::apply_attention_acknowledgement\<close>: the flag it returns and the new status.\<close>

definition apply_attention_acknowledgement ::
    "session_status \<Rightarrow> session_status \<Rightarrow> bool \<times> session_status" where
  "apply_attention_acknowledgement s reviewed = (case st_attention reviewed of
       None \<Rightarrow> (False, s)
     | Some e \<Rightarrow>
         if ev_ack e \<noteq> Acknowledged
            \<or> \<not> (case st_attention s of
                   None \<Rightarrow> False
                 | Some c \<Rightarrow> ev_id c = ev_id e \<and> ev_reason c = ev_reason e \<and> ev_ack c = Pending)
         then (False, s)
         else (True, s\<lparr>st_attention := Some e\<rparr>))"

definition pending_review :: "session_status \<Rightarrow> attention_event option" where
  "pending_review s = (case st_attention s of
       None \<Rightarrow> None
     | Some e \<Rightarrow>
         if ev_ack e = Pending
            \<and> (ev_reason e = InputRequested \<or> ev_reason e = SuccessfulCompletion
               \<or> ev_reason e = TerminalFailure)
         then Some e else None)"

section \<open>What the check accepts\<close>

text \<open>
  A specification of a consistent status, organised by lifecycle instead of by check: outside
  Running nothing is active; before the process starts there is no event; while it runs the
  outstanding reason is exactly the one the activity calls for; afterwards an outstanding
  event is one the final lifecycle explains.
\<close>

definition outstanding_allowed :: "session_lifecycle \<Rightarrow> attention_reason \<Rightarrow> bool" where
  "outstanding_allowed l r = (case l of
       Exited \<Rightarrow> r = SuccessfulCompletion
     | Failed \<Rightarrow> r = TerminalFailure
     | Disconnected \<Rightarrow> True
     | _ \<Rightarrow> False)"

definition status_consistent :: "session_status \<Rightarrow> bool" where
  "status_consistent s \<longleftrightarrow>
     (\<forall>e. st_attention s = Some e \<longrightarrow> 0 \<le> ev_occurred_at e) \<and>
     (case st_lifecycle s of
        Running \<Rightarrow> effective_reason s = expected_reason (st_activity s)
      | Fresh \<Rightarrow> st_activity s = NoActivity \<and> st_attention s = None
      | Starting \<Rightarrow> st_activity s = NoActivity \<and> st_attention s = None
      | l \<Rightarrow> st_activity s = NoActivity
             \<and> (\<forall>r. effective_reason s = Some r \<longrightarrow> outstanding_allowed l r))"

definition valid_status :: "session_status \<Rightarrow> bool" where
  "valid_status s \<longleftrightarrow> validate s = Inr ()"

lemma effective_reason_None [simp]: "st_attention s = None \<Longrightarrow> effective_reason s = None"
  by (simp add: effective_reason_def)

lemma effective_reason_Some [simp]:
  "st_attention s = Some e \<Longrightarrow>
     effective_reason s = (if ev_ack e = Resolved then None else Some (ev_reason e))"
  by (simp add: effective_reason_def)

lemma expected_reason_simps [simp]:
  "expected_reason NoActivity = None" "expected_reason Working = None"
  "expected_reason AwaitingInput = Some InputRequested"
  "expected_reason Completed = Some SuccessfulCompletion"
  "expected_reason Interrupted = None"
  "expected_reason ActivityRecoverableFailure = Some RecoverableFailure"
  by (simp_all add: expected_reason_def)

lemma expected_reason_eq_Some:
  "expected_reason a = Some r \<longleftrightarrow>
     (a = AwaitingInput \<and> r = InputRequested) \<or> (a = Completed \<and> r = SuccessfulCompletion)
     \<or> (a = ActivityRecoverableFailure \<and> r = RecoverableFailure)"
  by (cases a) auto

lemma valid_status_iff_consistent: "valid_status s \<longleftrightarrow> status_consistent s"
proof (cases "st_attention s")
  case None
  then show ?thesis
    by (cases "st_lifecycle s"; cases "st_activity s")
      (simp_all add: valid_status_def validate_def status_consistent_def)
next
  case (Some e)
  then show ?thesis
    by (cases "st_lifecycle s"; cases "st_activity s"; cases "ev_reason e"; cases "ev_ack e")
      (simp_all add: valid_status_def validate_def status_consistent_def reason_matches_def
        outstanding_allowed_def linorder_not_less)
qed

lemma valid_default [simp]: "valid_status default_status"
  by (simp add: valid_status_def validate_def default_status_def)

lemma status_try_from_wire_Ok:
  "status_try_from_wire l a e = Inr s \<Longrightarrow>
     valid_status s \<and> st_lifecycle s = l \<and> st_activity s = a \<and> st_attention s = e"
  by (auto simp: status_try_from_wire_def Let_def bind_result_eq_Inr valid_status_def)

lemma event_id_try_from_Ok:
  "event_id_try_from v = Inr i \<longleftrightarrow> i = AttentionEventId v \<and> 0 < unat v \<and> unat v < 2 ^ 63"
  by (auto simp: event_id_try_from_def unat_gt_0)

lemma lifecycle_cases_disjoint:
  "\<not> (lifecycle_is_active l \<and> lifecycle_allows_resume l)"
  "l = Fresh \<or> lifecycle_is_active l \<or> lifecycle_allows_resume l"
  by (cases l; simp add: lifecycle_is_active_def lifecycle_allows_resume_def)+

section \<open>Acknowledgement and review\<close>

lemma acknowledgement_frame:
  "apply_attention_acknowledgement s r = (b, s') \<Longrightarrow>
     st_lifecycle s' = st_lifecycle s \<and> st_activity s' = st_activity s"
  by (auto simp: apply_attention_acknowledgement_def split: option.splits if_splits)

lemma acknowledgement_refused:
  "apply_attention_acknowledgement s r = (False, s') \<Longrightarrow> s' = s"
  by (auto simp: apply_attention_acknowledgement_def split: option.splits if_splits)

lemma acknowledgement_applied:
  "apply_attention_acknowledgement s r = (True, s') \<Longrightarrow>
     \<exists>c e. st_attention s = Some c \<and> ev_ack c = Pending \<and> st_attention r = Some e
        \<and> st_attention s' = Some e \<and> ev_ack e = Acknowledged
        \<and> ev_id e = ev_id c \<and> ev_reason e = ev_reason c"
  by (auto simp: apply_attention_acknowledgement_def split: option.splits if_splits)

lemma acknowledgement_valid:
  assumes "valid_status s" "valid_status r"
  shows "valid_status (snd (apply_attention_acknowledgement s r))"
proof (cases "fst (apply_attention_acknowledgement s r)")
  case False
  then have "snd (apply_attention_acknowledgement s r) = s"
    using acknowledgement_refused [of s r] by (metis prod.collapse)
  then show ?thesis using assms by simp
next
  case True
  define s' where "s' = snd (apply_attention_acknowledgement s r)"
  have eq: "apply_attention_acknowledgement s r = (True, s')"
    using True by (simp add: s'_def prod_eq_iff)
  obtain c e where ce: "st_attention s = Some c" "ev_ack c = Pending" "st_attention r = Some e"
      "st_attention s' = Some e" "ev_ack e = Acknowledged" "ev_reason e = ev_reason c"
    using acknowledgement_applied [OF eq] by blast
  have same: "effective_reason s' = effective_reason s" using ce by simp
  have "0 \<le> ev_occurred_at e" using assms(2) ce(3)
    by (simp add: valid_status_iff_consistent status_consistent_def)
  then show ?thesis
    using assms(1) acknowledgement_frame [OF eq] same ce(1,4)
    unfolding s'_def [symmetric] valid_status_iff_consistent status_consistent_def
    by (cases "st_lifecycle s") auto
qed

lemma acknowledgement_idempotent:
  "apply_attention_acknowledgement s r = (True, s') \<Longrightarrow>
     apply_attention_acknowledgement s' r' = (False, s')"
  by (auto simp: apply_attention_acknowledgement_def split: option.splits if_splits)

lemma pending_review_Some:
  "pending_review s = Some e \<longleftrightarrow>
     st_attention s = Some e \<and> ev_ack e = Pending \<and> ev_reason e \<noteq> RecoverableFailure"
  by (cases "st_attention s"; cases "ev_reason e")
     (auto simp: pending_review_def split: if_splits)

end
