(* ===== verification/Status_Machine.thy ===== *)
theory Status_Machine
  imports Session_State
begin

text \<open>
  \<open>crates/sylvops-core/src/status.rs\<close>: provider identifiers, the normalized provider events and
  \<open>SessionStatusMachine\<close>, the reducer that turns provider events and the process exit into the
  lifecycle, activity and attention of a Session. Its three contracts are proved below: every
  call on a valid machine succeeds and keeps it valid, attention identities only grow, and the
  bounded set of subagents never lets a turn complete that an unbounded one would keep working.
\<close>

section \<open>Provider identifiers\<close>

definition MAX_PROVIDER_CONVERSATION_ID_LENGTH :: nat where
  "MAX_PROVIDER_CONVERSATION_ID_LENGTH = 200"

definition MAX_TURN_FAILURE_CATEGORY_LENGTH :: nat where
  "MAX_TURN_FAILURE_CATEGORY_LENGTH = 64"

definition MAX_TRACKED_ACTIVE_SUBAGENTS :: nat where
  "MAX_TRACKED_ACTIVE_SUBAGENTS = 256"

datatype provider_conversation_id = ProviderConversationId (conversation_str: str)

datatype conversation_id_error = ConversationIdLength | ConversationIdCharacters

definition conversation_id_try_from ::
    "str \<Rightarrow> conversation_id_error + provider_conversation_id" where
  "conversation_id_try_from v =
     (if v = [] \<or> byte_len v > MAX_PROVIDER_CONVERSATION_ID_LENGTH then Inl ConversationIdLength
      else if \<not> list_all (\<lambda>c. is_ascii_alphanumeric c \<or> c = of_char CHR ''-''
                                \<or> c = of_char CHR ''_'') v
      then Inl ConversationIdCharacters
      else Inr (ProviderConversationId v))"

datatype turn_failure_category = TurnFailureCategory (category_str: str)

datatype failure_category_error = CategoryLength | CategoryCharacters

definition failure_category_try_from ::
    "str \<Rightarrow> failure_category_error + turn_failure_category" where
  "failure_category_try_from v =
     (if v = [] \<or> byte_len v > MAX_TURN_FAILURE_CATEGORY_LENGTH then Inl CategoryLength
      else if \<not> list_all (\<lambda>c. is_ascii_lowercase c \<or> is_ascii_digit c \<or> c = of_char CHR ''-''
                                \<or> c = of_char CHR ''_'') v
      then Inl CategoryCharacters
      else Inr (TurnFailureCategory v))"

section \<open>Events and the machine\<close>

datatype conversation_transition = Established | Cleared | Resumed

record conversation_identity =
  conv_id :: provider_conversation_id
  conv_transition :: conversation_transition

record remaining_work =
  active_subagents :: bool
  background_tasks :: bool
  scheduled_tasks :: bool

definition no_remaining_work :: remaining_work where
  "no_remaining_work =
     \<lparr>active_subagents = False, background_tasks = False, scheduled_tasks = False\<rparr>"

definition remaining_work_is_empty :: "remaining_work \<Rightarrow> bool" where
  "remaining_work_is_empty w \<longleftrightarrow>
     \<not> active_subagents w \<and> \<not> background_tasks w \<and> \<not> scheduled_tasks w"

datatype provider_event =
    PromptSubmitted
  | TurnStarted "conversation_identity option"
  | PermissionRequested
  | PermissionCheckStarted
  | UserInputRequested
  | InputRequestOpened
  | InputRequestsResolved
  | ToolStarted
  | ToolCompleted
  | SubagentStarted str
  | SubagentStopped str
  | TurnStopped remaining_work
  | TurnFailed turn_failure_category
  | TurnInterrupted
  | SessionEnded

record status_machine =
  m_status :: session_status
  m_failure :: "turn_failure_category option"
  m_subagents :: "str set"
  m_exhausted :: bool
  m_remaining :: remaining_work

record status_transition =
  tr_status :: session_status
  tr_failure :: "turn_failure_category option"

definition machine_new :: "session_lifecycle \<Rightarrow> status_machine" where
  "machine_new l =
     \<lparr>m_status = default_status\<lparr>st_lifecycle := l\<rparr>, m_failure = None, m_subagents = {},
      m_exhausted = False, m_remaining = no_remaining_work\<rparr>"

definition from_persisted ::
    "session_status \<Rightarrow> turn_failure_category option \<Rightarrow> status_machine" where
  "from_persisted s f =
     \<lparr>m_status = s, m_failure = f, m_subagents = {}, m_exhausted = False,
      m_remaining = no_remaining_work\<rparr>"

definition transition :: "status_machine \<Rightarrow> status_transition" where
  "transition m = \<lparr>tr_status = m_status m, tr_failure = m_failure m\<rparr>"

text \<open>Assignments to a field of \<open>self.status\<close>.\<close>

definition set_lifecycle :: "session_lifecycle \<Rightarrow> status_machine \<Rightarrow> status_machine" where
  "set_lifecycle l m = m\<lparr>m_status := (m_status m)\<lparr>st_lifecycle := l\<rparr>\<rparr>"

definition set_activity :: "provider_activity \<Rightarrow> status_machine \<Rightarrow> status_machine" where
  "set_activity a m = m\<lparr>m_status := (m_status m)\<lparr>st_activity := a\<rparr>\<rparr>"

definition put_attention :: "attention_event option \<Rightarrow> status_machine \<Rightarrow> status_machine" where
  "put_attention e m = m\<lparr>m_status := (m_status m)\<lparr>st_attention := e\<rparr>\<rparr>"

definition acknowledge_attention ::
    "attention_event_id \<Rightarrow> attention_reason \<Rightarrow> status_machine \<Rightarrow> bool \<times> status_machine" where
  "acknowledge_attention i r m = (case st_attention (m_status m) of
       None \<Rightarrow> (False, m)
     | Some e \<Rightarrow>
         if ev_id e \<noteq> i \<or> ev_reason e \<noteq> r \<or> ev_ack e \<noteq> Pending then (False, m)
         else (True, put_attention (Some (e\<lparr>ev_ack := Acknowledged\<rparr>)) m))"

definition resolve_attention :: "status_machine \<Rightarrow> status_machine" where
  "resolve_attention m = (case st_attention (m_status m) of
       None \<Rightarrow> m
     | Some e \<Rightarrow> put_attention (Some (e\<lparr>ev_ack := Resolved\<rparr>)) m)"

text \<open>
  The mutating helpers return a result and leave the machine in whatever state the failing
  statement found it, as \<open>?\<close> does. \<open>next_event_number\<close> is the \<open>map_or(Some(1), ..checked_add(1))\<close>.
\<close>

type_synonym 'a machine_result = "(status_error + 'a) \<times> status_machine"

definition next_event_number :: "status_machine \<Rightarrow> u64 option" where
  "next_event_number m = (case st_attention (m_status m) of
       None \<Rightarrow> Some 1
     | Some e \<Rightarrow> checked_add (event_number (ev_id e)) 1)"

definition outstanding_with :: "attention_reason \<Rightarrow> status_machine \<Rightarrow> bool" where
  "outstanding_with r m \<longleftrightarrow> (case st_attention (m_status m) of
       None \<Rightarrow> False
     | Some e \<Rightarrow> ev_reason e = r \<and> ev_ack e \<noteq> Resolved)"

definition set_attention_condition ::
    "attention_reason \<Rightarrow> int \<Rightarrow> bool \<Rightarrow> status_machine \<Rightarrow> unit machine_result" where
  "set_attention_condition r t materially_new m =
     (if \<not> materially_new \<and> outstanding_with r m then (Inr (), m)
      else case next_event_number m of
        None \<Rightarrow> (Inl EventIdOutOfRange, m)
      | Some n \<Rightarrow> (case event_id_try_from n of
            Inl e \<Rightarrow> (Inl e, m)
          | Inr i \<Rightarrow> (Inr (), put_attention
              (Some \<lparr>ev_id = i, ev_reason = r, ev_ack = Pending, ev_occurred_at = t\<rparr>) m)))"

definition set_attention ::
    "attention_reason \<Rightarrow> int \<Rightarrow> status_machine \<Rightarrow> unit machine_result" where
  "set_attention r t m = set_attention_condition r t False m"

definition validated :: "status_machine \<Rightarrow> unit machine_result" where
  "validated m = (validate (m_status m), m)"

definition set_live_condition ::
    "provider_activity \<Rightarrow> attention_reason option \<Rightarrow> int \<Rightarrow> status_machine
       \<Rightarrow> unit machine_result" where
  "set_live_condition a r t m =
     (let m1 = set_activity a m;
          m2 = (if a \<noteq> ActivityRecoverableFailure then m1\<lparr>m_failure := None\<rparr> else m1)
      in and_then
           (case r of Some reason \<Rightarrow> set_attention reason t m2
                    | None \<Rightarrow> (Inr (), resolve_attention m2))
           (\<lambda>_ m3. validated m3))"

definition renew_input_attention :: "int \<Rightarrow> status_machine \<Rightarrow> unit machine_result" where
  "renew_input_attention t m =
     (if st_lifecycle (m_status m) \<noteq> Running then (Inl InputRequiresRunning, m)
      else and_then (set_attention_condition InputRequested t True (set_activity AwaitingInput m))
             (\<lambda>_ m1. validated m1))"

definition resolve_input_attention ::
    "attention_event_id \<Rightarrow> int \<Rightarrow> status_machine \<Rightarrow> unit machine_result" where
  "resolve_input_attention i t m =
     (if st_activity (m_status m) = AwaitingInput
         \<and> (case st_attention (m_status m) of None \<Rightarrow> False | Some e \<Rightarrow> ev_id e = i)
      then set_live_condition Working None t m
      else (Inr (), m))"

text \<open>The \<open>match event\<close> of \<open>apply\<close>, arm by arm; \<open>m\<close> is already Running.\<close>

definition start_subagent :: "str \<Rightarrow> status_machine \<Rightarrow> status_machine" where
  "start_subagent a m =
     (if a \<notin> m_subagents m
      then if card (m_subagents m) < MAX_TRACKED_ACTIVE_SUBAGENTS
           then m\<lparr>m_subagents := insert a (m_subagents m)\<rparr>
           else m\<lparr>m_exhausted := True\<rparr>
      else m)"

definition no_work_left :: "remaining_work \<Rightarrow> status_machine \<Rightarrow> bool" where
  "no_work_left w m \<longleftrightarrow> m_subagents m = {} \<and> \<not> m_exhausted m \<and> remaining_work_is_empty w"

fun apply_live :: "provider_event \<Rightarrow> int \<Rightarrow> status_machine \<Rightarrow> unit machine_result" where
  "apply_live InputRequestOpened t m = renew_input_attention t m"
| "apply_live InputRequestsResolved t m =
     (if st_activity (m_status m) = AwaitingInput then set_live_condition Working None t m
      else (Inr (), m))"
| "apply_live ToolStarted t m = (Inr (), m)"
| "apply_live ToolCompleted t m = (Inr (), m)"
| "apply_live PermissionCheckStarted t m = set_live_condition Working None t m"
| "apply_live PromptSubmitted t m = set_live_condition Working None t
     (m\<lparr>m_subagents := {}, m_exhausted := False, m_remaining := no_remaining_work\<rparr>)"
| "apply_live (TurnStarted c) t m = set_live_condition Working None t
     (m\<lparr>m_subagents := {}, m_exhausted := False, m_remaining := no_remaining_work\<rparr>)"
| "apply_live PermissionRequested t m =
     set_live_condition AwaitingInput (Some InputRequested) t m"
| "apply_live UserInputRequested t m =
     set_live_condition AwaitingInput (Some InputRequested) t m"
| "apply_live (TurnFailed category) t m =
     (let materially_new = (case m_failure m of None \<Rightarrow> False | Some c \<Rightarrow> c \<noteq> category);
          m1 = set_activity ActivityRecoverableFailure (m\<lparr>m_failure := Some category\<rparr>)
      in and_then (set_attention_condition RecoverableFailure t materially_new m1)
           (\<lambda>_ m2. validated m2))"
| "apply_live (SubagentStarted a) t m =
     (let m1 = start_subagent a m
      in if st_activity (m_status m1) \<noteq> AwaitingInput
         then set_live_condition Working None t m1 else (Inr (), m1))"
| "apply_live (SubagentStopped a) t m = (Inr (), m\<lparr>m_subagents := m_subagents m - {a}\<rparr>)"
| "apply_live (TurnStopped w) t m =
     (let m1 = m\<lparr>m_remaining := w\<rparr>
      in if no_work_left w m1
         then set_live_condition Completed (Some SuccessfulCompletion) t m1
         else set_live_condition Working None t m1)"
| "apply_live TurnInterrupted t m = set_live_condition Interrupted None t m"
| "apply_live SessionEnded t m =
     (if st_activity (m_status m) \<notin>
           {Completed, Interrupted, AwaitingInput, ActivityRecoverableFailure}
         \<and> no_work_left (m_remaining m) m
      then set_live_condition Completed (Some SuccessfulCompletion) t m
      else (Inr (), m))"

definition apply_event ::
    "provider_event \<Rightarrow> int \<Rightarrow> status_machine \<Rightarrow> status_transition machine_result" where
  "apply_event ev t m =
     (if st_lifecycle (m_status m) \<in> {Exited, Failed, Terminated, Disconnected}
      then (Inr (transition m), m)
      else and_then (apply_live ev t (set_lifecycle Running m))
             (\<lambda>_ m1. (Inr (transition m1), m1)))"

text \<open>The exit code of the process, \<open>Option<i32>\<close>, is an \<open>int option\<close>.\<close>

definition exit_failure_category :: "int option \<Rightarrow> str" where
  "exit_failure_category code =
     (if (case code of None \<Rightarrow> False | Some c \<Rightarrow> c \<noteq> 0) then lit ''process_exit_nonzero''
      else lit ''process_exit_without_completion'')"

definition apply_process_exit ::
    "bool \<Rightarrow> int option \<Rightarrow> bool \<Rightarrow> int \<Rightarrow> status_machine
       \<Rightarrow> status_transition machine_result" where
  "apply_process_exit plain_shell code stop_requested t m =
     (if stop_requested then
        and_then (validated
            (resolve_attention ((set_activity NoActivity (set_lifecycle Terminated m))
               \<lparr>m_failure := None\<rparr>)))
          (\<lambda>_ m1. (Inr (transition m1), m1))
      else
        and_then
          (if (plain_shell \<and> code = Some 0) \<or> outstanding_with SuccessfulCompletion m then
             set_attention SuccessfulCompletion t
               ((set_activity NoActivity (set_lifecycle Exited m))\<lparr>m_failure := None\<rparr>)
           else if st_activity (m_status m) = Interrupted \<and> code = Some 0 then
             (Inr (), resolve_attention
               ((set_activity NoActivity (set_lifecycle Exited m))\<lparr>m_failure := None\<rparr>))
           else
             (let m1 = set_activity NoActivity (set_lifecycle Failed m)
              in case failure_category_try_from (exit_failure_category code) of
                   Inl _ \<Rightarrow> (Inl InvalidFailureCategory, m1)
                 | Inr c \<Rightarrow> set_attention TerminalFailure t (m1\<lparr>m_failure := Some c\<rparr>)))
          (\<lambda>_ m2. and_then (validated m2) (\<lambda>_ m3. (Inr (transition m3), m3))))"

section \<open>The invariant of the machine\<close>

text \<open>
  \<open>event_level\<close> is the number of the latest attention event, 0 before the first one. The
  invariant: the status passes the boundary check, the identity of the event is in range, and
  the set of subagents is within its bound.
\<close>

definition status_level :: "session_status \<Rightarrow> nat" where
  "status_level s = (case st_attention s of
       None \<Rightarrow> 0 | Some e \<Rightarrow> unat (event_number (ev_id e)))"

definition event_level :: "status_machine \<Rightarrow> nat" where
  "event_level m = status_level (m_status m)"

definition ids_in_range :: "session_status \<Rightarrow> bool" where
  "ids_in_range s \<longleftrightarrow> (case st_attention s of
       None \<Rightarrow> True
     | Some e \<Rightarrow> 0 < unat (event_number (ev_id e)) \<and> unat (event_number (ev_id e)) < 2 ^ 63)"

definition machine_inv :: "status_machine \<Rightarrow> bool" where
  "machine_inv m \<longleftrightarrow> valid_status (m_status m) \<and> ids_in_range (m_status m)
     \<and> finite (m_subagents m) \<and> card (m_subagents m) \<le> MAX_TRACKED_ACTIVE_SUBAGENTS"

lemma status_level_simps [simp]:
  "st_attention s = None \<Longrightarrow> status_level s = 0"
  "st_attention s = Some e \<Longrightarrow> status_level s = unat (event_number (ev_id e))"
  by (simp_all add: status_level_def)

lemma ids_in_range_simps [simp]:
  "st_attention s = None \<Longrightarrow> ids_in_range s"
  "st_attention s = Some e \<Longrightarrow> ids_in_range s \<longleftrightarrow>
     0 < unat (event_number (ev_id e)) \<and> unat (event_number (ev_id e)) < 2 ^ 63"
  by (simp_all add: ids_in_range_def)

lemma status_level_less: "ids_in_range s \<Longrightarrow> status_level s < 2 ^ 63"
  by (cases "st_attention s") auto

lemma status_level_0: "ids_in_range s \<Longrightarrow> status_level s = 0 \<longleftrightarrow> st_attention s = None"
  by (cases "st_attention s") auto

text \<open>Posting a fresh event, and what \<open>set_attention_condition\<close> does when there is room.\<close>

definition post :: "attention_reason \<Rightarrow> int \<Rightarrow> status_machine \<Rightarrow> status_machine" where
  "post r t m = put_attention (Some \<lparr>ev_id = AttentionEventId (of_nat (event_level m + 1)),
     ev_reason = r, ev_ack = Pending, ev_occurred_at = t\<rparr>) m"

lemma checked_add_1:
  "unat n + 1 < 2 ^ LENGTH('a) \<Longrightarrow>
     checked_add n 1 = Some (of_nat (unat n + 1) :: 'a::len word)"
  by (simp add: checked_add_def add.commute)

lemma next_event_number_level:
  assumes "ids_in_range (m_status m)"
  shows "next_event_number m = Some (of_nat (event_level m + 1))"
proof (cases "st_attention (m_status m)")
  case None
  then show ?thesis by (simp add: next_event_number_def event_level_def)
next
  case (Some e)
  have "unat (event_number (ev_id e)) < 2 ^ 63" using assms Some by simp
  then have "unat (event_number (ev_id e)) + 1 < 2 ^ LENGTH(64)" by simp
  from checked_add_1 [OF this] Some show ?thesis
    by (simp only: next_event_number_def event_level_def option.case
        status_level_simps(2) [OF Some])
qed

lemma unat_of_nat_level: "n < 2 ^ 64 \<Longrightarrow> unat (of_nat n :: u64) = n"
  by (simp add: unsigned_of_nat take_bit_nat_eq_self_iff)

lemma set_attention_condition_eq:
  assumes "ids_in_range (m_status m)"
  shows "set_attention_condition r t b m =
     (if \<not> b \<and> outstanding_with r m then (Inr (), m)
      else if event_level m < 2 ^ 63 - 1 then (Inr (), post r t m)
      else (Inl EventIdOutOfRange, m))"
proof -
  have lt: "event_level m < 2 ^ 63"
    using status_level_less [OF assms] by (simp add: event_level_def)
  have u: "unat (of_nat (event_level m + 1) :: u64) = event_level m + 1"
    by (rule unat_of_nat_level) (use lt in simp)
  have tf: "event_id_try_from (of_nat (event_level m + 1)) =
      (if event_level m < 2 ^ 63 - 1
       then Inr (AttentionEventId (of_nat (event_level m + 1))) else Inl EventIdOutOfRange)"
  proof -
    have "(of_nat (event_level m + 1) :: u64) \<noteq> 0"
      using u by (metis add_is_0 unsigned_0 zero_neq_one)
    then show ?thesis unfolding event_id_try_from_def u by auto
  qed
  show ?thesis
    unfolding set_attention_condition_def next_event_number_level [OF assms]
    by (auto simp only: option.case tf sum.case post_def split: if_splits)
qed


text \<open>Field access through the setters.\<close>

lemmas setter_defs [simp] = set_lifecycle_def set_activity_def put_attention_def

lemma post_simps [simp]:
  "st_lifecycle (m_status (post r t m)) = st_lifecycle (m_status m)"
  "st_activity (m_status (post r t m)) = st_activity (m_status m)"
  "st_attention (m_status (post r t m)) = Some \<lparr>ev_id = AttentionEventId
     (of_nat (event_level m + 1)), ev_reason = r, ev_ack = Pending, ev_occurred_at = t\<rparr>"
  "m_failure (post r t m) = m_failure m"
  "m_subagents (post r t m) = m_subagents m"
  "m_exhausted (post r t m) = m_exhausted m"
  "m_remaining (post r t m) = m_remaining m"
  by (simp_all add: post_def)

lemma effective_reason_post [simp]: "effective_reason (m_status (post r t m)) = Some r"
  by (simp add: effective_reason_def)

lemma event_level_post:
  "event_level m < 2 ^ 63 - 1 \<Longrightarrow> event_level (post r t m) = event_level m + 1"
proof -
  assume "event_level m < 2 ^ 63 - 1"
  then have "unat (of_nat (event_level m + 1) :: u64) = event_level m + 1"
    by (intro unat_of_nat_level) simp
  then show ?thesis
    by (simp only: event_level_def status_level_def post_simps option.case
        attention_event.select_convs attention_event_id.sel)
qed

lemma ids_in_range_post:
  "event_level m < 2 ^ 63 - 1 \<Longrightarrow> ids_in_range (m_status (post r t m))"
  using event_level_post [of m r t]
  by (simp only: event_level_def status_level_def ids_in_range_def post_simps option.case) linarith

lemma resolve_attention_simps [simp]:
  "st_lifecycle (m_status (resolve_attention m)) = st_lifecycle (m_status m)"
  "st_activity (m_status (resolve_attention m)) = st_activity (m_status m)"
  "st_attention (m_status (resolve_attention m)) =
     map_option (\<lambda>e. e\<lparr>ev_ack := Resolved\<rparr>) (st_attention (m_status m))"
  "m_failure (resolve_attention m) = m_failure m"
  "m_subagents (resolve_attention m) = m_subagents m"
  "m_exhausted (resolve_attention m) = m_exhausted m"
  "m_remaining (resolve_attention m) = m_remaining m"
  by (simp_all add: resolve_attention_def split: option.split)

lemma effective_reason_resolve [simp]:
  "effective_reason (m_status (resolve_attention m)) = None"
  by (cases "st_attention (m_status m)") simp_all

lemma event_level_resolve [simp]: "event_level (resolve_attention m) = event_level m"
  by (cases "st_attention (m_status m)") (simp_all add: event_level_def status_level_def)

lemma ids_in_range_resolve [simp]:
  "ids_in_range (m_status (resolve_attention m)) = ids_in_range (m_status m)"
  by (cases "st_attention (m_status m)") (simp_all add: ids_in_range_def)

lemma outstanding_with_iff:
  "outstanding_with r m \<longleftrightarrow> effective_reason (m_status m) = Some r"
  by (cases "st_attention (m_status m)") (auto simp: outstanding_with_def)

text \<open>
  The shape of every helper's outcome: it refuses with the exhausted identity, leaves the event
  as it is, resolves it or posts a new one.
\<close>

definition event_kept :: "session_status \<Rightarrow> session_status \<Rightarrow> bool" where
  "event_kept s s' \<longleftrightarrow> st_attention s' = st_attention s
     \<or> st_attention s' = map_option (\<lambda>e. e\<lparr>ev_ack := Resolved\<rparr>) (st_attention s)"

definition event_posted :: "int \<Rightarrow> session_status \<Rightarrow> session_status \<Rightarrow> bool" where
  "event_posted t s s' \<longleftrightarrow> (\<exists>e. st_attention s' = Some e \<and> ev_ack e = Pending
     \<and> ev_occurred_at e = t \<and> unat (event_number (ev_id e)) = status_level s + 1
     \<and> status_level s + 1 < 2 ^ 63)"

text \<open>A timestamp a helper is given is only ever stored in the event it posts.\<close>

definition attention_step :: "int \<Rightarrow> session_status \<Rightarrow> session_status \<Rightarrow> bool" where
  "attention_step t s s' \<longleftrightarrow> event_kept s s' \<or> event_posted t s s'"

lemma attention_step_refl [simp]: "attention_step t s s"
  by (simp add: attention_step_def event_kept_def)

lemma attention_step_cong:
  "st_attention s = st_attention u \<Longrightarrow> attention_step t s s' = attention_step t u s'"
  by (simp add: attention_step_def event_kept_def event_posted_def status_level_def)

lemma attention_step_level:
  "attention_step t s s' \<Longrightarrow>
     status_level s \<le> status_level s' \<and> status_level s' \<le> status_level s + 1"
  by (cases "st_attention s")
    (auto simp: attention_step_def event_kept_def event_posted_def status_level_def)

lemma attention_step_ids:
  "attention_step t s s' \<Longrightarrow> ids_in_range s \<Longrightarrow> ids_in_range s'"
  by (cases "st_attention s")
    (auto simp: attention_step_def event_kept_def event_posted_def ids_in_range_def)

lemma attention_step_post:
  assumes "event_level m < 2 ^ 63 - 1"
  shows "attention_step t (m_status m) (m_status (post r t m))"
proof -
  have "unat (of_nat (event_level m + 1) :: u64) = event_level m + 1"
    by (rule unat_of_nat_level) (use assms in simp)
  then have "event_posted t (m_status m) (m_status (post r t m))"
    using assms by (simp add: event_posted_def event_level_def)
  then show ?thesis by (simp add: attention_step_def)
qed

lemma attention_step_resolve: "attention_step t (m_status m) (m_status (resolve_attention m))"
  by (simp add: attention_step_def event_kept_def)

section \<open>Every call succeeds, up to the last identity\<close>

definition timestamps_ok :: "session_status \<Rightarrow> bool" where
  "timestamps_ok s \<longleftrightarrow> (\<forall>e. st_attention s = Some e \<longrightarrow> 0 \<le> ev_occurred_at e)"

lemma valid_timestamps: "valid_status s \<Longrightarrow> timestamps_ok s"
  by (simp add: valid_status_iff_consistent status_consistent_def timestamps_ok_def)

lemma attention_step_timestamps:
  "attention_step t s s' \<Longrightarrow> timestamps_ok s \<Longrightarrow> 0 \<le> t \<Longrightarrow> timestamps_ok s'"
  by (auto simp: attention_step_def event_kept_def event_posted_def timestamps_ok_def)

lemma valid_running:
  "st_lifecycle s = Running \<Longrightarrow>
     valid_status s \<longleftrightarrow> timestamps_ok s \<and> effective_reason s = expected_reason (st_activity s)"
  by (simp add: valid_status_iff_consistent status_consistent_def timestamps_ok_def)

lemma valid_finished:
  "lifecycle_allows_resume (st_lifecycle s) \<Longrightarrow>
     valid_status s \<longleftrightarrow> timestamps_ok s \<and> st_activity s = NoActivity
       \<and> (\<forall>r. effective_reason s = Some r \<longrightarrow> outstanding_allowed (st_lifecycle s) r)"
  by (cases "st_lifecycle s")
    (auto simp: valid_status_iff_consistent status_consistent_def timestamps_ok_def
      lifecycle_allows_resume_def)

text \<open>
  \<open>settles t m r\<close>: started from \<open>m\<close>, the call ended with the result and machine \<open>r\<close>; it failed
  only for want of an identity, otherwise the new status is valid; the event moved by at most
  one step and the work tracking was not touched.
\<close>

definition same_tracking :: "status_machine \<Rightarrow> status_machine \<Rightarrow> bool" where
  "same_tracking m m' \<longleftrightarrow> m_subagents m' = m_subagents m \<and> m_exhausted m' = m_exhausted m
     \<and> m_remaining m' = m_remaining m"

definition settles :: "int \<Rightarrow> status_machine \<Rightarrow> unit machine_result \<Rightarrow> bool" where
  "settles t m r \<longleftrightarrow>
     (case fst r of
        Inl e \<Rightarrow> e = EventIdOutOfRange \<and> event_level m = 2 ^ 63 - 1
      | Inr _ \<Rightarrow> valid_status (m_status (snd r)))
     \<and> st_lifecycle (m_status (snd r)) = st_lifecycle (m_status m)
     \<and> attention_step t (m_status m) (m_status (snd r))
     \<and> same_tracking m (snd r)"

lemma same_tracking_refl [simp]: "same_tracking m m"
  by (simp add: same_tracking_def)

lemma settles_unchanged: "valid_status (m_status m) \<Longrightarrow> settles t m (Inr (), m)"
  by (simp add: settles_def)

lemma settles_start_cong:
  assumes "settles t m1 r" "st_attention (m_status m1) = st_attention (m_status m2)"
    and "st_lifecycle (m_status m1) = st_lifecycle (m_status m2)" "same_tracking m1 m2"
  shows "settles t m2 r"
proof -
  have "event_level m1 = event_level m2"
    using assms(2) by (simp add: event_level_def status_level_def)
  moreover have "attention_step t (m_status m1) s = attention_step t (m_status m2) s" for s
    using assms(2) by (rule attention_step_cong)
  ultimately show ?thesis using assms(1,3,4)
    by (cases "fst r") (simp_all add: settles_def same_tracking_def)
qed

text \<open>Setting the condition and then checking it: \<open>set_attention_condition\<close>, then \<open>validate\<close>.\<close>

lemma condition_settles_any:
  assumes "ids_in_range (m_status m)" "timestamps_ok (m_status m)" "0 \<le> t"
    and ok: "\<And>s. st_lifecycle s = st_lifecycle (m_status m) \<Longrightarrow>
       st_activity s = st_activity (m_status m) \<Longrightarrow> timestamps_ok s \<Longrightarrow>
       effective_reason s = Some r \<Longrightarrow> valid_status s"
  shows "settles t m (and_then (set_attention_condition r t b m) (\<lambda>_ m'. validated m'))"
proof -
  have lt: "event_level m < 2 ^ 63"
    using status_level_less [OF assms(1)] by (simp add: event_level_def)
  consider (keep) "\<not> b" "outstanding_with r m"
    | (new) "\<not> (\<not> b \<and> outstanding_with r m)" "event_level m < 2 ^ 63 - 1"
    | (full) "\<not> (\<not> b \<and> outstanding_with r m)" "event_level m = 2 ^ 63 - 1"
    using lt by linarith
  then show ?thesis
  proof cases
    case keep
    then have "valid_status (m_status m)"
      using assms(2) ok by (simp add: outstanding_with_iff)
    then show ?thesis using keep
      by (simp add: set_attention_condition_eq [OF assms(1)] validated_def settles_def
          valid_status_def)
  next
    case new
    have step: "attention_step t (m_status m) (m_status (post r t m))"
      using new(2) by (rule attention_step_post)
    then have "timestamps_ok (m_status (post r t m))"
      using assms(2,3) by (rule attention_step_timestamps)
    then have "valid_status (m_status (post r t m))"
      by (intro ok) simp_all
    then have "validate (m_status (post r t m)) = Inr ()" by (simp add: valid_status_def)
    moreover have "set_attention_condition r t b m = (Inr (), post r t m)"
      using new by (simp only: set_attention_condition_eq [OF assms(1)] if_False if_True)
    ultimately show ?thesis using step
      by (simp add: validated_def settles_def same_tracking_def valid_status_def)
  next
    case full
    then have "set_attention_condition r t b m = (Inl EventIdOutOfRange, m)"
      by (simp only: set_attention_condition_eq [OF assms(1)] if_False less_irrefl)
    then show ?thesis using full by (simp add: settles_def)
  qed
qed

lemma condition_settles:
  assumes "ids_in_range (m_status m)" "timestamps_ok (m_status m)" "0 \<le> t"
    and "st_lifecycle (m_status m) = Running"
    and "expected_reason (st_activity (m_status m)) = Some r"
  shows "settles t m (and_then (set_attention_condition r t b m) (\<lambda>_ m'. validated m'))"
  by (rule condition_settles_any) (use assms in \<open>simp_all add: valid_running\<close>)

lemma set_live_condition_settles:
  assumes "ids_in_range (m_status m)" "timestamps_ok (m_status m)" "0 \<le> t"
    and "st_lifecycle (m_status m) = Running" and "expected_reason a = r"
  shows "settles t m (set_live_condition a r t m)"
proof -
  define m2 where "m2 = (if a \<noteq> ActivityRecoverableFailure
     then (set_activity a m)\<lparr>m_failure := None\<rparr> else set_activity a m)"
  have m2: "ids_in_range (m_status m2)" "timestamps_ok (m_status m2)"
      "st_lifecycle (m_status m2) = Running" "st_activity (m_status m2) = a"
      "same_tracking m2 m" "st_attention (m_status m2) = st_attention (m_status m)"
    using assms by (simp_all add: m2_def ids_in_range_def timestamps_ok_def same_tracking_def)
  have base: "settles t m2 (set_live_condition a r t m)"
  proof (cases r)
    case (Some reason)
    then show ?thesis using m2 assms(3,5) condition_settles [of m2 t reason False]
      by (simp add: set_live_condition_def Let_def set_attention_def m2_def del: setter_defs)
  next
    case None
    have step: "attention_step t (m_status m2) (m_status (resolve_attention m2))"
      by (rule attention_step_resolve)
    then have "timestamps_ok (m_status (resolve_attention m2))"
      using m2(2) assms(3) by (rule attention_step_timestamps)
    then have "valid_status (m_status (resolve_attention m2))"
      using m2(3,4) assms(5) None by (simp add: valid_running del: setter_defs)
    moreover have "set_live_condition a r t m = (validate (m_status (resolve_attention m2)),
        resolve_attention m2)"
      using None by (simp add: set_live_condition_def Let_def validated_def m2_def
          del: setter_defs)
    ultimately show ?thesis using step
      by (simp add: settles_def same_tracking_def valid_status_def)
  qed
  show ?thesis using base m2(6,3) assms(4) m2(5)
    by (intro settles_start_cong [OF base]) simp_all
qed

text \<open>\<open>apply_live\<close>: the tracking of subagents and remaining work changes, nothing else does.\<close>

fun tracked :: "provider_event \<Rightarrow> status_machine \<Rightarrow> status_machine" where
  "tracked PromptSubmitted m =
     m\<lparr>m_subagents := {}, m_exhausted := False, m_remaining := no_remaining_work\<rparr>"
| "tracked (TurnStarted c) m =
     m\<lparr>m_subagents := {}, m_exhausted := False, m_remaining := no_remaining_work\<rparr>"
| "tracked (SubagentStarted a) m = start_subagent a m"
| "tracked (SubagentStopped a) m = m\<lparr>m_subagents := m_subagents m - {a}\<rparr>"
| "tracked (TurnStopped w) m = m\<lparr>m_remaining := w\<rparr>"
| "tracked _ m = m"

lemma start_subagent_simps [simp]:
  "m_status (start_subagent a m) = m_status m"
  "m_failure (start_subagent a m) = m_failure m"
  "m_remaining (start_subagent a m) = m_remaining m"
  by (simp_all add: start_subagent_def)

lemma tracked_status [simp]: "m_status (tracked ev m) = m_status m"
  by (cases ev) simp_all

lemma renew_settles:
  assumes "ids_in_range (m_status m)" "timestamps_ok (m_status m)" "0 \<le> t"
    and "st_lifecycle (m_status m) = Running"
  shows "settles t m (renew_input_attention t m)"
proof -
  have "settles t (set_activity AwaitingInput m) (renew_input_attention t m)"
    unfolding renew_input_attention_def using assms
    by (simp del: setter_defs)
      (rule condition_settles; simp add: ids_in_range_def timestamps_ok_def)
  then show ?thesis by (rule settles_start_cong) (simp_all add: same_tracking_def)
qed

lemma apply_live_settles:
  assumes valid: "valid_status (m_status m)" and ids: "ids_in_range (m_status m)"
    and t: "0 \<le> t" and run: "st_lifecycle (m_status m) = Running"
  shows "settles t (tracked ev m) (apply_live ev t m)"
proof -
  have ts: "timestamps_ok (m_status m)" using valid by (rule valid_timestamps)
  have live: "settles t m' (set_live_condition a (expected_reason a) t m')"
    if "m_status m' = m_status m" for a m'
    by (rule set_live_condition_settles) (use that ids ts t run in simp_all)
  have same: "settles t m' (Inr (), m')" if "m_status m' = m_status m" for m'
    by (rule settles_unchanged) (use that valid in simp)
  note W = live [where a = Working, simplified] and I = live [where a = Interrupted, simplified]
    and A = live [where a = AwaitingInput, simplified]
    and C = live [where a = Completed, simplified]
  show ?thesis
  proof (cases ev)
    case (TurnFailed c)
    define m1 where "m1 = set_activity ActivityRecoverableFailure (m\<lparr>m_failure := Some c\<rparr>)"
    have "settles t m1 (apply_live ev t m)"
      unfolding TurnFailed apply_live.simps Let_def m1_def [symmetric]
      by (rule condition_settles) (use ids ts t run in
          \<open>simp_all add: m1_def ids_in_range_def timestamps_ok_def\<close>)
    then show ?thesis unfolding TurnFailed tracked.simps
      by (rule settles_start_cong) (simp_all add: m1_def same_tracking_def)
  qed (use W A C I same renew_settles [OF ids ts t run] in \<open>simp_all add: Let_def\<close>)
qed

lemma card_start_subagent:
  assumes "finite (m_subagents m)" "card (m_subagents m) \<le> MAX_TRACKED_ACTIVE_SUBAGENTS"
  shows "finite (m_subagents (start_subagent a m))"
    and "card (m_subagents (start_subagent a m)) \<le> MAX_TRACKED_ACTIVE_SUBAGENTS"
  using assms by (auto simp: start_subagent_def)

lemma tracked_inv:
  assumes "machine_inv m"
  shows "finite (m_subagents (tracked ev m))"
    and "card (m_subagents (tracked ev m)) \<le> MAX_TRACKED_ACTIVE_SUBAGENTS"
  using assms card_start_subagent [of m]
  by (cases ev; auto simp: machine_inv_def intro: order_trans [OF card_Diff1_le])+

lemma effective_reason_updates [simp]:
  "effective_reason (s\<lparr>st_lifecycle := l\<rparr>) = effective_reason s"
  "effective_reason (s\<lparr>st_activity := a\<rparr>) = effective_reason s"
  by (simp_all add: effective_reason_def)

lemma set_lifecycle_Running_valid:
  assumes "valid_status (m_status m)"
    and "st_lifecycle (m_status m) \<notin> {Exited, Failed, Terminated, Disconnected}"
  shows "valid_status (m_status (set_lifecycle Running m))"
  using assms
  by (cases "st_lifecycle (m_status m)")
    (auto simp: valid_status_iff_consistent status_consistent_def)

text \<open>\<open>outcome_ok t m r\<close>: the contract of the two public entry points.\<close>

definition outcome_ok ::
    "int \<Rightarrow> status_machine \<Rightarrow> status_transition machine_result \<Rightarrow> bool" where
  "outcome_ok t m r \<longleftrightarrow>
     (case fst r of
        Inl e \<Rightarrow> e = EventIdOutOfRange \<and> event_level m = 2 ^ 63 - 1
      | Inr x \<Rightarrow> machine_inv (snd r) \<and> x = transition (snd r))
     \<and> attention_step t (m_status m) (m_status (snd r))"

lemma outcome_of_settles:
  assumes "settles t m1 r" "ids_in_range (m_status m)"
    and "finite (m_subagents m1)" "card (m_subagents m1) \<le> MAX_TRACKED_ACTIVE_SUBAGENTS"
    and "st_attention (m_status m1) = st_attention (m_status m)"
  shows "outcome_ok t m (and_then r (\<lambda>_ m'. (Inr (transition m'), m')))"
proof -
  have step: "attention_step t (m_status m) (m_status (snd r))"
    using assms(1) attention_step_cong [OF assms(5)] by (simp add: settles_def)
  have lev: "event_level m1 = event_level m"
    using assms(5) by (simp add: event_level_def status_level_def)
  obtain x m' where r: "r = (x, m')" by (cases r)
  have "ids_in_range (m_status m')"
    using attention_step_ids [OF step assms(2)] r by simp
  then show ?thesis using assms(1,3,4) step lev r
    by (cases x) (simp_all add: settles_def outcome_ok_def machine_inv_def same_tracking_def)
qed

lemma apply_event_outcome:
  assumes inv: "machine_inv m" and t: "0 \<le> t"
  shows "outcome_ok t m (apply_event ev t m)"
proof (cases "st_lifecycle (m_status m) \<in> {Exited, Failed, Terminated, Disconnected}")
  case True
  then show ?thesis using inv by (simp add: apply_event_def outcome_ok_def)
next
  case False
  let ?m = "set_lifecycle Running m"
  have v: "valid_status (m_status ?m)"
    using inv False by (intro set_lifecycle_Running_valid) (simp_all add: machine_inv_def)
  have i: "machine_inv ?m" using inv v by (simp add: machine_inv_def ids_in_range_def)
  have "settles t (tracked ev ?m) (apply_live ev t ?m)"
    by (rule apply_live_settles) (use v i t in \<open>simp_all add: machine_inv_def\<close>)
  then have "outcome_ok t m (and_then (apply_live ev t ?m) (\<lambda>_ m'. (Inr (transition m'), m')))"
    by (rule outcome_of_settles)
      (use inv tracked_inv [OF i, of ev] in \<open>simp_all add: machine_inv_def\<close>)
  then show ?thesis using False by (simp add: apply_event_def del: setter_defs)
qed

text \<open>The two literal categories of a process exit are well formed.\<close>

lemma exit_failure_category_ok:
  "failure_category_try_from (exit_failure_category code) =
     Inr (TurnFailureCategory (exit_failure_category code))"
  by (simp add: failure_category_try_from_def exit_failure_category_def lit_def utf8_width_def
      char_class_defs MAX_TURN_FAILURE_CATEGORY_LENGTH_def)

definition exit_target :: "bool \<Rightarrow> int option \<Rightarrow> bool \<Rightarrow> status_machine \<Rightarrow> session_lifecycle" where
  "exit_target plain code stop m =
     (if stop then Terminated
      else if (plain \<and> code = Some 0) \<or> outstanding_with SuccessfulCompletion m
           \<or> (st_activity (m_status m) = Interrupted \<and> code = Some 0) then Exited
      else Failed)"

lemma finished_settles:
  assumes "ids_in_range (m_status m)" "timestamps_ok (m_status m)" "0 \<le> t"
    and "st_activity (m_status m) = NoActivity"
    and "lifecycle_allows_resume (st_lifecycle (m_status m))"
    and "outstanding_allowed (st_lifecycle (m_status m)) r"
  shows "settles t m (and_then (set_attention r t m) (\<lambda>_ m'. validated m'))"
  unfolding set_attention_def
  by (rule condition_settles_any) (use assms in \<open>simp_all add: valid_finished\<close>)

lemma finished_resolve_settles:
  assumes "timestamps_ok (m_status m)" "0 \<le> t" "st_activity (m_status m) = NoActivity"
    and "lifecycle_allows_resume (st_lifecycle (m_status m))"
  shows "settles t m (and_then (Inr (), resolve_attention m) (\<lambda>_ m'. validated m'))"
proof -
  have step: "attention_step t (m_status m) (m_status (resolve_attention m))"
    by (rule attention_step_resolve)
  then have "timestamps_ok (m_status (resolve_attention m))"
    using assms(1,2) by (rule attention_step_timestamps)
  then have "validate (m_status (resolve_attention m)) = Inr ()"
    using assms(3,4) by (simp add: valid_finished valid_status_def [symmetric] del: setter_defs)
  then show ?thesis using step
    by (simp add: validated_def settles_def same_tracking_def valid_status_def)
qed

text \<open>The machine an exit works on once the guard chain has chosen the final lifecycle.\<close>

definition exited_machine ::
    "session_lifecycle \<Rightarrow> turn_failure_category option \<Rightarrow> status_machine \<Rightarrow> status_machine" where
  "exited_machine l f m = (set_activity NoActivity (set_lifecycle l m))\<lparr>m_failure := f\<rparr>"

lemma exited_machine_simps [simp]:
  "st_lifecycle (m_status (exited_machine l f m)) = l"
  "st_activity (m_status (exited_machine l f m)) = NoActivity"
  "st_attention (m_status (exited_machine l f m)) = st_attention (m_status m)"
  "m_subagents (exited_machine l f m) = m_subagents m"
  "m_failure (exited_machine l f m) = f"
  by (simp_all add: exited_machine_def)

definition exit_settled ::
    "bool \<Rightarrow> int option \<Rightarrow> bool \<Rightarrow> int \<Rightarrow> status_machine \<Rightarrow> unit machine_result" where
  "exit_settled plain code stop t m =
     (if stop then
        and_then (Inr (), resolve_attention (exited_machine Terminated None m)) (\<lambda>_ m'. validated m')
      else if (plain \<and> code = Some 0) \<or> outstanding_with SuccessfulCompletion m then
        and_then (set_attention SuccessfulCompletion t (exited_machine Exited None m))
          (\<lambda>_ m'. validated m')
      else if st_activity (m_status m) = Interrupted \<and> code = Some 0 then
        and_then (Inr (), resolve_attention (exited_machine Exited None m)) (\<lambda>_ m'. validated m')
      else
        and_then (set_attention TerminalFailure t (exited_machine Failed
            (Some (TurnFailureCategory (exit_failure_category code))) m)) (\<lambda>_ m'. validated m'))"

lemma apply_process_exit_eq:
  "apply_process_exit plain code stop t m =
     and_then (exit_settled plain code stop t m) (\<lambda>_ m'. (Inr (transition m'), m'))"
  unfolding apply_process_exit_def exit_settled_def exited_machine_def
  by (simp add: exit_failure_category_ok and_then_assoc Let_def del: setter_defs)

lemma exit_settles:
  assumes "machine_inv m" "0 \<le> t"
  shows "\<exists>f. settles t (exited_machine (exit_target plain code stop m) f m)
           (exit_settled plain code stop t m)"
proof -
  have ids: "ids_in_range (m_status (exited_machine l f m))" for l f
    using assms(1) by (simp add: machine_inv_def ids_in_range_def)
  have ts: "timestamps_ok (m_status (exited_machine l f m))" for l f
    using assms(1) valid_timestamps [of "m_status m"]
    by (simp add: machine_inv_def timestamps_ok_def)
  have fin: "settles t (exited_machine l f m)
      (and_then (set_attention r t (exited_machine l f m)) (\<lambda>_ m'. validated m'))"
    if "lifecycle_allows_resume l" "outstanding_allowed l r" for l f r
    by (rule finished_settles) (use ids ts assms(2) that in simp_all)
  have res: "settles t (exited_machine l f m)
      (and_then (Inr (), resolve_attention (exited_machine l f m)) (\<lambda>_ m'. validated m'))"
    if "lifecycle_allows_resume l" for l f
    by (rule finished_resolve_settles) (use ts assms(2) that in simp_all)
  have ends: "lifecycle_allows_resume Terminated" "lifecycle_allows_resume Exited"
      "lifecycle_allows_resume Failed" "outstanding_allowed Exited SuccessfulCompletion"
      "outstanding_allowed Failed TerminalFailure"
    by (simp_all add: lifecycle_allows_resume_def outstanding_allowed_def)
  show ?thesis
    using fin [OF ends(2,4), of None] res [OF ends(1), of None] res [OF ends(2), of None]
      fin [OF ends(3,5), of "Some (TurnFailureCategory (exit_failure_category code))"]
    unfolding exit_settled_def exit_target_def by (auto simp del: and_then_Inr)
qed

lemma apply_process_exit_outcome:
  assumes "machine_inv m" "0 \<le> t"
  shows "outcome_ok t m (apply_process_exit plain code stop t m)"
    and "st_lifecycle (m_status (snd (apply_process_exit plain code stop t m)))
           = exit_target plain code stop m"
proof -
  obtain f where s: "settles t (exited_machine (exit_target plain code stop m) f m)
      (exit_settled plain code stop t m)"
    using exit_settles [OF assms] by blast
  then show "outcome_ok t m (apply_process_exit plain code stop t m)"
    unfolding apply_process_exit_eq
    by (rule outcome_of_settles) (use assms(1) in \<open>simp_all add: machine_inv_def\<close>)
  have "snd (apply_process_exit plain code stop t m) = snd (exit_settled plain code stop t m)"
    unfolding apply_process_exit_eq
    by (cases "exit_settled plain code stop t m"; cases "fst (exit_settled plain code stop t m)")
      auto
  then show "st_lifecycle (m_status (snd (apply_process_exit plain code stop t m)))
      = exit_target plain code stop m"
    using s by (simp add: settles_def)
qed

section \<open>Histories of a machine\<close>

text \<open>
  The daemon applies an operation to a clone of the machine and stores the clone only when the
  operation (and the database write that follows) succeeded, \<open>commit_on_ok\<close>; a reviewed event
  is mirrored into the stored machine. Timestamps come from \<open>status_timestamp\<close>, milliseconds
  since the epoch, which is never negative.
\<close>

datatype machine_op =
    ProviderOp provider_event nat
  | ExitOp bool "int option" bool nat
  | AckOp attention_event_id attention_reason

fun machine_step :: "status_machine \<Rightarrow> machine_op \<Rightarrow> status_machine" where
  "machine_step m (ProviderOp ev t) = commit_on_ok m (apply_event ev (int t) m)"
| "machine_step m (ExitOp plain code stop t) =
     commit_on_ok m (apply_process_exit plain code stop (int t) m)"
| "machine_step m (AckOp i r) = snd (acknowledge_attention i r m)"

fun ack_rank :: "attention_acknowledgement \<Rightarrow> nat" where
  "ack_rank Pending = 0" | "ack_rank Acknowledged = 1" | "ack_rank Resolved = 2"

definition same_event_advanced :: "attention_event option \<Rightarrow> attention_event option \<Rightarrow> bool" where
  "same_event_advanced x y \<longleftrightarrow> (case (x, y) of
       (Some e, Some e') \<Rightarrow> ev_id e' = ev_id e \<and> ev_reason e' = ev_reason e
          \<and> ev_occurred_at e' = ev_occurred_at e \<and> ack_rank (ev_ack e) \<le> ack_rank (ev_ack e')
     | (None, None) \<Rightarrow> True
     | _ \<Rightarrow> False)"

text \<open>Later attention: a newer identity, or the same event with the acknowledgement advanced.\<close>

definition attention_le :: "session_status \<Rightarrow> session_status \<Rightarrow> bool" where
  "attention_le s s' \<longleftrightarrow> status_level s < status_level s'
     \<or> same_event_advanced (st_attention s) (st_attention s')"

lemma same_event_advanced_level:
  "same_event_advanced (st_attention s) (st_attention s') \<Longrightarrow> status_level s' = status_level s"
  by (auto simp: same_event_advanced_def status_level_def split: option.splits)

lemma same_event_advanced_trans:
  "same_event_advanced x y \<Longrightarrow> same_event_advanced y z \<Longrightarrow> same_event_advanced x z"
  by (auto simp: same_event_advanced_def split: option.splits)

lemma attention_le_refl [simp]: "attention_le s s"
  by (simp add: attention_le_def same_event_advanced_def split: option.split)

lemma attention_le_trans:
  assumes "attention_le s t" "attention_le t u"
  shows "attention_le s u"
  using assms same_event_advanced_level [of s t] same_event_advanced_level [of t u]
    same_event_advanced_trans
  by (auto simp: attention_le_def)

lemma ack_rank_le_Resolved [simp]: "ack_rank a \<le> ack_rank Resolved"
  by (cases a) simp_all

lemma attention_step_le: "attention_step t s s' \<Longrightarrow> attention_le s s'"
  by (cases "st_attention s")
    (auto simp: attention_step_def attention_le_def event_kept_def event_posted_def
      same_event_advanced_def simp del: ack_rank.simps(3))

lemma acknowledge_attention_le:
  "attention_le (m_status m) (m_status (snd (acknowledge_attention i r m)))"
  by (auto simp: acknowledge_attention_def attention_le_def same_event_advanced_def
      split: option.split)

lemma acknowledge_attention_inv:
  assumes "machine_inv m"
  shows "machine_inv (snd (acknowledge_attention i r m))"
proof (cases "fst (acknowledge_attention i r m)")
  case False
  then show ?thesis using assms
    by (auto simp: acknowledge_attention_def split: option.splits if_splits)
next
  case True
  then obtain e where e: "st_attention (m_status m) = Some e" "ev_ack e = Pending"
      "snd (acknowledge_attention i r m) = put_attention (Some (e\<lparr>ev_ack := Acknowledged\<rparr>)) m"
    by (auto simp: acknowledge_attention_def split: option.splits if_splits)
  then show ?thesis using assms
    by (cases "st_lifecycle (m_status m)")
      (auto simp: machine_inv_def valid_status_iff_consistent status_consistent_def)
qed

lemma commit_outcome:
  assumes "machine_inv m" "outcome_ok t m r"
  shows "machine_inv (commit_on_ok m r)" "attention_le (m_status m) (m_status (commit_on_ok m r))"
  using assms attention_step_le [of t "m_status m" "m_status (snd r)"]
  by (cases r; cases "fst r"; auto simp: outcome_ok_def)+

lemma machine_step_sound:
  assumes "machine_inv m"
  shows "machine_inv (machine_step m a)"
    and "attention_le (m_status m) (m_status (machine_step m a))"
proof (induction a)
  case (ProviderOp ev t)
  note o = apply_event_outcome [OF assms, of "int t" ev]
  { case 1 show ?case using commit_outcome(1) [OF assms o] by simp }
  { case 2 show ?case using commit_outcome(2) [OF assms o] by simp }
next
  case (ExitOp plain code stop t)
  note o = apply_process_exit_outcome(1) [OF assms, of "int t" plain code stop]
  { case 1 show ?case using commit_outcome(1) [OF assms o] by simp }
  { case 2 show ?case using commit_outcome(2) [OF assms o] by simp }
qed (simp_all add: acknowledge_attention_inv [OF assms] acknowledge_attention_le)

interpretation machine: step_ordered machine_step machine_inv
  "\<lambda>m m'. attention_le (m_status m) (m_status m')"
  by unfold_locales (auto intro: attention_le_trans machine_step_sound)

section \<open>The bounded set of subagents refines the set of running subagents\<close>

text \<open>
  What a Provider's stream of events says about its subagents, with no bound: the set of those
  started and not stopped since the turn began.
\<close>

fun running_step :: "str set \<Rightarrow> provider_event \<Rightarrow> str set" where
  "running_step S PromptSubmitted = {}"
| "running_step S (TurnStarted c) = {}"
| "running_step S (SubagentStarted a) = insert a S"
| "running_step S (SubagentStopped a) = S - {a}"
| "running_step S _ = S"

definition running_subagents :: "provider_event list \<Rightarrow> str set" where
  "running_subagents evs = foldl running_step {} evs"

fun apply_all :: "(provider_event \<times> nat) list \<Rightarrow> status_machine \<Rightarrow> unit machine_result" where
  "apply_all [] m = (Inr (), m)"
| "apply_all ((ev, t) # evs) m = and_then (apply_event ev (int t) m) (\<lambda>_ m'. apply_all evs m')"

text \<open>The abstraction: the machine knows some of the running subagents, all of them unless it
  recorded that the bound was hit.\<close>

definition tracks :: "str set \<Rightarrow> status_machine \<Rightarrow> bool" where
  "tracks S m \<longleftrightarrow> m_subagents m \<subseteq> S \<and> (\<not> m_exhausted m \<longrightarrow> m_subagents m = S)"

lemma running_subagents_snoc [simp]:
  "running_subagents (evs @ [ev]) = running_step (running_subagents evs) ev"
  by (simp add: running_subagents_def)

lemma apply_all_append:
  "apply_all (xs @ ys) m = and_then (apply_all xs m) (\<lambda>_ m'. apply_all ys m')"
proof (induction xs arbitrary: m)
  case (Cons x xs)
  have "apply_all (xs @ ys) = (\<lambda>m. and_then (apply_all xs m) (\<lambda>_ m'. apply_all ys m'))"
    by (rule ext) (rule Cons.IH)
  then show ?case by (cases x) (simp add: and_then_assoc)
qed simp

lemma tracks_cong: "same_tracking m m' \<Longrightarrow> tracks S m' = tracks S m"
  by (simp add: tracks_def same_tracking_def)

lemma tracks_step: "tracks S m \<Longrightarrow> tracks (running_step S ev) (tracked ev m)"
  by (cases ev) (auto simp: tracks_def start_subagent_def)

lemma live_event:
  assumes "machine_inv m" "\<not> lifecycle_allows_resume (st_lifecycle (m_status m))"
    and "apply_event ev (int t) m = (Inr x, m')"
  shows "machine_inv m'" "st_lifecycle (m_status m') = Running" "x = transition m'"
    and "apply_live ev (int t) (set_lifecycle Running m) = (Inr (), m')"
    and "same_tracking (tracked ev (set_lifecycle Running m)) m'"
proof -
  have nf: "st_lifecycle (m_status m) \<notin> {Exited, Failed, Terminated, Disconnected}"
    using assms(2) by (auto simp: lifecycle_allows_resume_def)
  have "valid_status (m_status (set_lifecycle Running m))"
    using assms(1) nf by (intro set_lifecycle_Running_valid) (simp_all add: machine_inv_def)
  then have s: "settles (int t) (tracked ev (set_lifecycle Running m))
      (apply_live ev (int t) (set_lifecycle Running m))"
    using assms(1) by (intro apply_live_settles) (simp_all add: machine_inv_def ids_in_range_def)
  show live: "apply_live ev (int t) (set_lifecycle Running m) = (Inr (), m')"
    using assms(3) nf by (auto simp: apply_event_def and_then_eq_Inr simp del: setter_defs)
  show "machine_inv m'" "x = transition m'"
    using apply_event_outcome [OF assms(1), of "int t" ev] assms(3)
    by (simp_all add: outcome_ok_def)
  show "st_lifecycle (m_status m') = Running" "same_tracking (tracked ev (set_lifecycle Running m)) m'"
    using s live by (simp_all add: settles_def)
qed

lemma apply_all_tracks:
  assumes "machine_inv m0" "\<not> lifecycle_allows_resume (st_lifecycle (m_status m0))"
    and "m_subagents m0 = {}" "\<not> m_exhausted m0" "apply_all evs m0 = (Inr (), m)"
  shows "machine_inv m \<and> \<not> lifecycle_allows_resume (st_lifecycle (m_status m))
     \<and> tracks (running_subagents (map fst evs)) m"
  using assms(5)
proof (induction evs arbitrary: m rule: rev_induct)
  case Nil
  then show ?case using assms(1-4) by (simp add: tracks_def running_subagents_def)
next
  case (snoc e evs)
  obtain ev t where e: "e = (ev, t)" by (cases e)
  from snoc.prems obtain m1 x where m1: "apply_all evs m0 = (Inr (), m1)"
      "apply_event ev (int t) m1 = (Inr x, m)"
    by (auto simp: apply_all_append and_then_eq_Inr e)
  note ih = snoc.IH [OF m1(1)]
  then have live: "machine_inv m" "st_lifecycle (m_status m) = Running"
      "same_tracking (tracked ev (set_lifecycle Running m1)) m"
    using live_event [OF _ _ m1(2)] by blast+
  have "tracks (running_subagents (map fst evs)) (set_lifecycle Running m1)"
    using ih by (simp add: tracks_def)
  then have "tracks (running_step (running_subagents (map fst evs)) ev) m"
    using tracks_cong [OF live(3)] tracks_step by blast
  then show ?case using live(1,2) by (simp add: e lifecycle_allows_resume_def)
qed

lemma tracked_exact:
  assumes "\<not> m_exhausted m" "finite (m_subagents m)"
    and "card (running_step (m_subagents m) ev) \<le> MAX_TRACKED_ACTIVE_SUBAGENTS"
  shows "\<not> m_exhausted (tracked ev m)"
proof (cases ev)
  case (SubagentStarted a)
  then show ?thesis using assms
    by (cases "a \<in> m_subagents m") (simp_all add: start_subagent_def Suc_le_eq)
qed (use assms(1) in simp_all)

lemma apply_all_exact:
  assumes "machine_inv m0" "\<not> lifecycle_allows_resume (st_lifecycle (m_status m0))"
    and "m_subagents m0 = {}" "\<not> m_exhausted m0" "apply_all evs m0 = (Inr (), m)"
    and "\<forall>n. card (running_subagents (take n (map fst evs))) \<le> MAX_TRACKED_ACTIVE_SUBAGENTS"
  shows "\<not> m_exhausted m"
  using assms(5,6)
proof (induction evs arbitrary: m rule: rev_induct)
  case Nil
  then show ?case using assms(4) by simp
next
  case (snoc e evs)
  obtain ev t where e: "e = (ev, t)" by (cases e)
  let ?S = "running_subagents (map fst evs)"
  from snoc.prems obtain m1 x where m1: "apply_all evs m0 = (Inr (), m1)"
      "apply_event ev (int t) m1 = (Inr x, m)"
    by (auto simp: apply_all_append and_then_eq_Inr e)
  have bound: "\<forall>n. card (running_subagents (take n (map fst evs))) \<le> MAX_TRACKED_ACTIVE_SUBAGENTS"
  proof
    fix n
    have "take n (map fst evs) = take (min n (length evs)) (map fst (evs @ [e]))"
      by (simp add: min_def)
    then show "card (running_subagents (take n (map fst evs))) \<le> MAX_TRACKED_ACTIVE_SUBAGENTS"
      using spec [OF snoc.prems(2), of "min n (length evs)"] by (simp only:)
  qed
  have ne: "\<not> m_exhausted m1" by (rule snoc.IH [OF m1(1) bound])
  have prev: "machine_inv m1 \<and> \<not> lifecycle_allows_resume (st_lifecycle (m_status m1)) \<and> tracks ?S m1"
    by (rule apply_all_tracks [OF assms(1-4) m1(1)])
  then have eq: "m_subagents m1 = ?S" "finite ?S"
    using ne by (auto simp: tracks_def machine_inv_def)
  have "card (running_step (m_subagents m1) ev) \<le> MAX_TRACKED_ACTIVE_SUBAGENTS" unfolding eq(1)
    using spec [OF snoc.prems(2), of "Suc (length evs)"] by (simp add: e)
  then have "\<not> m_exhausted (tracked ev (set_lifecycle Running m1))"
    by (intro tracked_exact) (simp_all add: ne eq)
  then show ?case
    using live_event(5) [OF _ _ m1(2)] prev by (simp add: same_tracking_def)
qed

lemma post_or_same_activity:
  "set_attention_condition r t b m = (Inr u, m') \<Longrightarrow>
     st_activity (m_status m') = st_activity (m_status m)"
  by (auto simp: set_attention_condition_def split: if_splits option.splits sum.splits)

lemma set_live_condition_activity:
  "set_live_condition a r t m = (Inr u, m') \<Longrightarrow> st_activity (m_status m') = a"
  by (auto simp: set_live_condition_def validated_def Let_def and_then_eq_Inr set_attention_def
      dest!: post_or_same_activity split: option.splits if_splits)

lemma turn_stopped_activity:
  assumes "apply_live (TurnStopped w) t m = (Inr (), m')"
  shows "st_activity (m_status m') = (if no_work_left w m then Completed else Working)"
proof -
  have "no_work_left w (m\<lparr>m_remaining := w\<rparr>) = no_work_left w m"
    by (simp add: no_work_left_def)
  then show ?thesis using assms
    by (auto simp: Let_def dest: set_live_condition_activity split: if_splits)
qed

section \<open>Properties\<close>

text \<open>Concrete machines for the witnesses.\<close>

definition waiting_status :: session_status where
  "waiting_status = \<lparr>st_lifecycle = Running, st_activity = AwaitingInput, st_attention =
     Some \<lparr>ev_id = AttentionEventId 4, ev_reason = InputRequested, ev_ack = Pending,
           ev_occurred_at = 7\<rparr>\<rparr>"

lemma machine_inv_new [simp]: "machine_inv (machine_new l)"
  by (cases l) (simp_all add: machine_inv_def machine_new_def default_status_def
      valid_status_iff_consistent status_consistent_def)

lemma machine_inv_waiting [simp]: "machine_inv (from_persisted waiting_status None)"
  by (simp add: machine_inv_def from_persisted_def waiting_status_def
      valid_status_iff_consistent status_consistent_def)

text \<open>C1: every provider event and every process exit applied to a valid machine either succeeds,
  keeps the machine valid and consumes at most one attention identity, or the identity of the
  current attention event is the last one of the database, \<open>2 ^ 63 - 1\<close>, and the error is the one of an
  exhausted identity: no internal check of the reducer ever refuses a status it computed. With an
  identity left the call succeeds.\<close>

theorem machine_calls_succeed:
  assumes "machine_inv m"
  shows "((\<exists>m'. apply_event ev (int t) m = (Inr (transition m'), m') \<and> machine_inv m'
             \<and> event_level m' \<le> event_level m + 1)
          \<or> event_level m = 2 ^ 63 - 1 \<and> fst (apply_event ev (int t) m) = Inl EventIdOutOfRange)
       \<and> ((\<exists>m'. apply_process_exit plain code stop (int t) m = (Inr (transition m'), m')
             \<and> machine_inv m' \<and> event_level m' \<le> event_level m + 1)
          \<or> event_level m = 2 ^ 63 - 1
             \<and> fst (apply_process_exit plain code stop (int t) m) = Inl EventIdOutOfRange)"
proof -
  have "(\<exists>m'. r = (Inr (transition m'), m') \<and> machine_inv m' \<and> event_level m' \<le> event_level m + 1)
      \<or> event_level m = 2 ^ 63 - 1 \<and> fst r = Inl EventIdOutOfRange"
    if "outcome_ok (int t) m r" for r
    using that attention_step_level [of "int t" "m_status m" "m_status (snd r)"]
    by (cases r; cases "fst r") (auto simp: outcome_ok_def event_level_def)
  then show ?thesis
    using apply_event_outcome [OF assms] apply_process_exit_outcome(1) [OF assms] by simp
qed

theorem machine_calls_succeed_witness:
  "\<exists>m'. apply_event TurnInterrupted (int 9) (from_persisted waiting_status None)
     = (Inr (transition m'), m') \<and> machine_inv m'"
proof -
  have "event_level (from_persisted waiting_status None) \<noteq> 2 ^ 63 - 1"
    by (simp add: event_level_def from_persisted_def waiting_status_def)
  with machine_calls_succeed [OF machine_inv_waiting, of TurnInterrupted 9]
  show ?thesis by blast
qed

text \<open>C2: whatever provider events, exits and acknowledgements follow, the machine stays valid
  and its attention only moves forward: a later event has a larger identity, and the event with
  the same identity keeps its reason and time and is never un-acknowledged or un-resolved.\<close>

theorem machine_attention_forward:
  assumes "machine_inv m"
  shows "machine_inv (foldl machine_step m (ops @ later))
     \<and> attention_le (m_status (foldl machine_step m ops))
                    (m_status (foldl machine_step m (ops @ later)))"
  using machine.run_inv [OF assms] machine.run_le_append [OF assms] by blast

theorem machine_attention_forward_witness:
  "machine_inv (foldl machine_step (machine_new Running) ([ProviderOp UserInputRequested 3] @
     [AckOp (AttentionEventId 1) InputRequested, ProviderOp InputRequestOpened 5]))"
  using machine_attention_forward [OF machine_inv_new] by blast

text \<open>A turn is never reported complete while the Provider has announced a subagent and
  not its stop: if a stopped turn sets Completed, then the unbounded set of running subagents
  is empty and so is the remaining work, although the machine tracks 256 of them at most.\<close>

theorem turn_completes_only_when_idle:
  assumes "machine_inv m0" "\<not> lifecycle_allows_resume (st_lifecycle (m_status m0))"
    and "m_subagents m0 = {}" "\<not> m_exhausted m0" "apply_all evs m0 = (Inr (), m)"
    and "apply_event (TurnStopped w) (int t) m = (Inr x, m')"
    and "st_activity (tr_status x) = Completed"
  shows "running_subagents (map fst evs) = {} \<and> remaining_work_is_empty w"
proof -
  note prev = apply_all_tracks [OF assms(1-5)]
  note live = live_event [OF conjunct1 [OF prev] conjunct1 [OF conjunct2 [OF prev]] assms(6)]
  have "no_work_left w (set_lifecycle Running m)"
    using turn_stopped_activity [OF live(4)] assms(7) live(3)
    by (auto simp: transition_def split: if_splits)
  then show ?thesis using prev by (simp add: no_work_left_def tracks_def)
qed

theorem turn_completes_only_when_idle_witness:
  "running_subagents (map fst [(SubagentStarted [97], 1), (SubagentStopped [97], 2::nat)]) = {}"
proof -
  let ?evs = "[(SubagentStarted [97], 1), (SubagentStopped [97], 2::nat)]"
  let ?m0 = "machine_new Running"
  let ?r = "apply_all ?evs ?m0"
  let ?s = "apply_event (TurnStopped no_remaining_work) (int 3) (snd ?r)"
  note defs = machine_new_def apply_event_def set_live_condition_def validated_def
    default_status_def start_subagent_def MAX_TRACKED_ACTIVE_SUBAGENTS_def validate_def
    resolve_attention_def Let_def no_work_left_def remaining_work_is_empty_def
    no_remaining_work_def set_attention_def set_attention_condition_def outstanding_with_def
    next_event_number_def event_id_try_from_def transition_def reason_matches_def
  have r: "?r = (Inr (), snd ?r)" by (simp add: defs)
  have s: "?s = (Inr (transition (snd ?s)), snd ?s)" by (simp add: defs)
  have c: "st_activity (tr_status (transition (snd ?s))) = Completed" by (simp add: defs)
  have m0: "\<not> lifecycle_allows_resume (st_lifecycle (m_status ?m0))"
    "m_subagents ?m0 = {}" "\<not> m_exhausted ?m0"
    by (simp_all add: machine_new_def lifecycle_allows_resume_def default_status_def)
  show ?thesis
    using turn_completes_only_when_idle [OF machine_inv_new m0 r s c] by blast
qed

text \<open>C3: as long as no more than 256 subagents run at once, the bounded tracking is exact: a
  stopped turn completes if and only if nothing runs and nothing remains, and otherwise the
  Session keeps working.\<close>

theorem turn_completion_exact:
  assumes "machine_inv m0" "\<not> lifecycle_allows_resume (st_lifecycle (m_status m0))"
    and "m_subagents m0 = {}" "\<not> m_exhausted m0" "apply_all evs m0 = (Inr (), m)"
    and "\<forall>n. card (running_subagents (take n (map fst evs))) \<le> MAX_TRACKED_ACTIVE_SUBAGENTS"
    and "apply_event (TurnStopped w) (int t) m = (Inr x, m')"
  shows "st_activity (tr_status x) =
     (if running_subagents (map fst evs) = {} \<and> remaining_work_is_empty w
      then Completed else Working)"
proof -
  note prev = apply_all_tracks [OF assms(1-5)]
  note live = live_event [OF conjunct1 [OF prev] conjunct1 [OF conjunct2 [OF prev]] assms(7)]
  have "\<not> m_exhausted m" by (rule apply_all_exact [OF assms(1-6)])
  then have "no_work_left w (set_lifecycle Running m) \<longleftrightarrow>
      running_subagents (map fst evs) = {} \<and> remaining_work_is_empty w"
    using prev by (auto simp: no_work_left_def tracks_def)
  then show ?thesis
    using turn_stopped_activity [OF live(4)] live(3) by (simp add: transition_def)
qed

theorem turn_completion_exact_witness:
  "\<exists>x m'. apply_event (TurnStopped no_remaining_work) (int 3)
       (snd (apply_all [(SubagentStarted [97], 1)] (machine_new Running))) = (Inr x, m')
     \<and> st_activity (tr_status x) = Working"
proof -
  let ?evs = "[(SubagentStarted [97], 1)] :: (provider_event \<times> nat) list"
  let ?m0 = "machine_new Running"
  let ?r = "apply_all ?evs ?m0"
  let ?s = "apply_event (TurnStopped no_remaining_work) (int 3) (snd ?r)"
  note defs = machine_new_def apply_event_def set_live_condition_def validated_def
    default_status_def start_subagent_def MAX_TRACKED_ACTIVE_SUBAGENTS_def validate_def
    resolve_attention_def Let_def no_work_left_def
  have r: "?r = (Inr (), snd ?r)" by (simp add: defs)
  have s: "?s = (Inr (transition (snd ?s)), snd ?s)" by (simp add: defs)
  have c: "\<forall>n. card (running_subagents (take n (map fst ?evs))) \<le> MAX_TRACKED_ACTIVE_SUBAGENTS"
  proof
    fix n
    show "card (running_subagents (take n (map fst ?evs))) \<le> MAX_TRACKED_ACTIVE_SUBAGENTS"
      by (cases n) (simp_all add: running_subagents_def MAX_TRACKED_ACTIVE_SUBAGENTS_def)
  qed
  have m0: "\<not> lifecycle_allows_resume (st_lifecycle (m_status ?m0))"
    "m_subagents ?m0 = {}" "\<not> m_exhausted ?m0"
    by (simp_all add: machine_new_def lifecycle_allows_resume_def default_status_def)
  have "st_activity (tr_status (transition (snd ?s))) = Working"
    using turn_completion_exact [OF machine_inv_new m0 r c s]
    by (simp add: running_subagents_def)
  then show ?thesis using s by blast
qed

text \<open>What the final status is once the process has exited.\<close>

lemma exit_settled_reason:
  assumes "exit_settled plain code stop t m = (Inr u, m')"
  shows "effective_reason (m_status m') =
     (if stop then None
      else if (plain \<and> code = Some 0) \<or> outstanding_with SuccessfulCompletion m
      then Some SuccessfulCompletion
      else if st_activity (m_status m) = Interrupted \<and> code = Some 0 then None
      else Some TerminalFailure)"
proof -
  have att: "effective_reason (m_status m') = Some r"
    if "and_then (set_attention r t n) (\<lambda>_ m'. validated m') = (Inr u, m')" for r n
    using that
    by (auto simp: and_then_eq_Inr validated_def set_attention_def set_attention_condition_def
        outstanding_with_iff effective_reason_def split: if_splits option.splits sum.splits)
  have res: "effective_reason (m_status m') = None"
    if "and_then (Inr (), resolve_attention n) (\<lambda>_ m'. validated m') = (Inr u, m')" for n
    using that by (auto simp: validated_def)
  show ?thesis using assms att res by (auto simp: exit_settled_def simp del: and_then_Inr
      split: if_splits)
qed

lemma finished_ignores_events:
  assumes "lifecycle_allows_resume (st_lifecycle (m_status m))"
  shows "foldl machine_step m (map (\<lambda>(ev, t). ProviderOp ev t) evs) = m"
  using assms
  by (induction evs) (auto simp: apply_event_def lifecycle_allows_resume_def)

text \<open>The exit of the process settles the Session for good. The lifecycle is Terminated
  after a requested stop, Exited after a completion, a clean exit of a plain shell or a clean
  exit of an interrupted turn, and Failed otherwise; the outstanding attention is the one that
  outcome calls for; and no provider event that arrives later changes anything.\<close>

theorem process_exit_is_final:
  assumes "machine_inv m" "event_level m < 2 ^ 63 - 1"
    and "apply_process_exit plain code stop (int t) m = (r, m')"
  shows "r = Inr (transition m') \<and> machine_inv m'
     \<and> st_lifecycle (m_status m') = exit_target plain code stop m
     \<and> effective_reason (m_status m') =
         (if stop then None
          else if (plain \<and> code = Some 0) \<or> outstanding_with SuccessfulCompletion m
          then Some SuccessfulCompletion
          else if st_activity (m_status m) = Interrupted \<and> code = Some 0 then None
          else Some TerminalFailure)
     \<and> foldl machine_step m' (map (\<lambda>(ev, t). ProviderOp ev t) evs) = m'"
proof -
  have "outcome_ok (int t) m (r, m')" "st_lifecycle (m_status m') = exit_target plain code stop m"
    using apply_process_exit_outcome [OF assms(1), of "int t" plain code stop] assms(3) by simp_all
  then have out: "r = Inr (transition m')" "machine_inv m'"
      "st_lifecycle (m_status m') = exit_target plain code stop m"
    using assms(2) by (cases r; simp add: outcome_ok_def)+
  obtain u where "exit_settled plain code stop (int t) m = (Inr u, m')"
    using assms(3) out(1) by (auto simp: apply_process_exit_eq and_then_eq_Inr)
  from exit_settled_reason [OF this] out finished_ignores_events [of m' evs] show ?thesis
    by (simp add: exit_target_def lifecycle_allows_resume_def)
qed

theorem process_exit_is_final_witness:
  "\<exists>r m'. apply_process_exit False (Some 3) False (int 8) (from_persisted waiting_status None)
      = (r, m') \<and> st_lifecycle (m_status m') = Failed
     \<and> effective_reason (m_status m') = Some TerminalFailure"
proof -
  let ?m = "from_persisted waiting_status None"
  let ?p = "apply_process_exit False (Some 3) False (int 8) ?m"
  have lv: "event_level ?m < 2 ^ 63 - 1"
    by (simp add: event_level_def from_persisted_def waiting_status_def)
  have p: "?p = (fst ?p, snd ?p)" by simp
  show ?thesis
    using process_exit_is_final [OF machine_inv_waiting lv p, of "[]"] p
    by (auto simp: exit_target_def outstanding_with_def from_persisted_def waiting_status_def)
qed

text \<open>The two acknowledgement routines agree: mirroring an acknowledgement into the live
  machine succeeds exactly when applying the reviewed status to the machine's status does, and
  for a reviewed copy of the current event both leave the same status.\<close>

theorem acknowledgements_agree:
  assumes "st_attention reviewed = Some e" "ev_ack e = Acknowledged"
  shows "fst (acknowledge_attention (ev_id e) (ev_reason e) m)
       = fst (apply_attention_acknowledgement (m_status m) reviewed)
     \<and> (\<forall>c. st_attention (m_status m) = Some c \<longrightarrow> ev_occurred_at c = ev_occurred_at e \<longrightarrow>
          m_status (snd (acknowledge_attention (ev_id e) (ev_reason e) m))
          = snd (apply_attention_acknowledgement (m_status m) reviewed))"
  using assms
  by (auto simp: acknowledge_attention_def apply_attention_acknowledgement_def
      split: option.splits)

theorem acknowledgements_agree_witness:
  "fst (apply_attention_acknowledgement waiting_status (waiting_status\<lparr>st_attention :=
     Some \<lparr>ev_id = AttentionEventId 4, ev_reason = InputRequested, ev_ack = Acknowledged,
           ev_occurred_at = 7\<rparr>\<rparr>))"
  using acknowledgements_agree [of "waiting_status\<lparr>st_attention :=
     Some \<lparr>ev_id = AttentionEventId 4, ev_reason = InputRequested, ev_ack = Acknowledged,
           ev_occurred_at = 7\<rparr>\<rparr>" _ "from_persisted waiting_status None"]
  by (simp add: acknowledge_attention_def from_persisted_def waiting_status_def)

text \<open>
  A divergence between the two ways to leave RecoverableFailure: \<open>set_live_condition\<close> drops the
  failure category, \<open>renew_input_attention\<close> keeps it, so a machine that waits for input can
  still carry the category of the failure before.
\<close>

lemma renewed_input_keeps_failure_category:
  "let m = snd (apply_all [(TurnFailed (TurnFailureCategory [97]), 1), (InputRequestOpened, 2)]
        (machine_new Running))
   in st_activity (m_status m) = AwaitingInput
      \<and> m_failure m = Some (TurnFailureCategory [97])"
  by (simp add: machine_new_def default_status_def apply_event_def Let_def validated_def
      set_attention_condition_def outstanding_with_def next_event_number_def event_id_try_from_def
      validate_def reason_matches_def renew_input_attention_def checked_add_def)

end
