(* ===== verification/Domain.thy ===== *)
theory Domain
  imports Status_Machine
begin

text \<open>
  \<open>crates/sylvops-core/src/ids.rs\<close> and \<open>domain.rs\<close>: entity identifiers, the string
  enumerations, the persisted records, the rule which record of a conversation may be resumed,
  and the attempt number derived from a lineage of resumed Sessions.
\<close>

section \<open>Identifiers\<close>

text \<open>\<open>Uuid\<close> compares its bytes in order, which is the order of the 128-bit numbers.\<close>

datatype workspace_id = WorkspaceId (workspace_uuid: uuid)
datatype project_id = ProjectId (project_uuid: uuid)
datatype worktree_id = WorktreeId (worktree_uuid: uuid)
datatype session_id = SessionId (as_uuid: uuid)
datatype provider_profile_id = ProviderProfileId (profile_uuid: uuid)

instantiation session_id :: linorder
begin

definition less_eq_session_id :: "session_id \<Rightarrow> session_id \<Rightarrow> bool" where
  "less_eq_session_id a b \<longleftrightarrow> as_uuid a \<le> as_uuid b"

definition less_session_id :: "session_id \<Rightarrow> session_id \<Rightarrow> bool" where
  "less_session_id a b \<longleftrightarrow> as_uuid a < as_uuid b"

instance
  by standard (auto simp: less_eq_session_id_def less_session_id_def intro: session_id.expand)

end

section \<open>String enumerations\<close>

text \<open>\<open>string_enum!\<close> derives \<open>Display\<close> and \<open>FromStr\<close> from one table of literals.\<close>

datatype unknown_value = UnknownValue str

datatype provider_kind = Shell | Codex | Claude | Cursor | Pi

datatype worktree_status =
  WtActive | WtCreating | WtRemoving | WtRemoved | WtMissing | WtInvalid

datatype attachment_role = Controller | Observer

fun provider_kind_to_string :: "provider_kind \<Rightarrow> str" where
  "provider_kind_to_string Shell = lit ''shell''"
| "provider_kind_to_string Codex = lit ''codex''"
| "provider_kind_to_string Claude = lit ''claude''"
| "provider_kind_to_string Cursor = lit ''cursor''"
| "provider_kind_to_string Pi = lit ''pi''"

definition provider_kind_from_str :: "str \<Rightarrow> unknown_value + provider_kind" where
  "provider_kind_from_str v =
     (if v = lit ''shell'' then Inr Shell else if v = lit ''codex'' then Inr Codex
      else if v = lit ''claude'' then Inr Claude else if v = lit ''cursor'' then Inr Cursor
      else if v = lit ''pi'' then Inr Pi else Inl (UnknownValue v))"

fun worktree_status_to_string :: "worktree_status \<Rightarrow> str" where
  "worktree_status_to_string WtActive = lit ''active''"
| "worktree_status_to_string WtCreating = lit ''creating''"
| "worktree_status_to_string WtRemoving = lit ''removing''"
| "worktree_status_to_string WtRemoved = lit ''removed''"
| "worktree_status_to_string WtMissing = lit ''missing''"
| "worktree_status_to_string WtInvalid = lit ''invalid''"

definition worktree_status_from_str :: "str \<Rightarrow> unknown_value + worktree_status" where
  "worktree_status_from_str v =
     (if v = lit ''active'' then Inr WtActive else if v = lit ''creating'' then Inr WtCreating
      else if v = lit ''removing'' then Inr WtRemoving
      else if v = lit ''removed'' then Inr WtRemoved
      else if v = lit ''missing'' then Inr WtMissing
      else if v = lit ''invalid'' then Inr WtInvalid else Inl (UnknownValue v))"

fun attachment_role_to_string :: "attachment_role \<Rightarrow> str" where
  "attachment_role_to_string Controller = lit ''controller''"
| "attachment_role_to_string Observer = lit ''observer''"

definition attachment_role_from_str :: "str \<Rightarrow> unknown_value + attachment_role" where
  "attachment_role_from_str v =
     (if v = lit ''controller'' then Inr Controller
      else if v = lit ''observer'' then Inr Observer else Inl (UnknownValue v))"

interpretation provider_kind_text:
  textual_enum provider_kind_from_str provider_kind_to_string
proof unfold_locales
  show "provider_kind_from_str (provider_kind_to_string x) = Inr x" for x
    by (cases x) (simp_all add: provider_kind_from_str_def lit_def)
qed (auto simp: provider_kind_from_str_def split: if_splits)

interpretation worktree_status_text:
  textual_enum worktree_status_from_str worktree_status_to_string
proof unfold_locales
  show "worktree_status_from_str (worktree_status_to_string x) = Inr x" for x
    by (cases x) (simp_all add: worktree_status_from_str_def lit_def)
qed (auto simp: worktree_status_from_str_def split: if_splits)

interpretation attachment_role_text:
  textual_enum attachment_role_from_str attachment_role_to_string
proof unfold_locales
  show "attachment_role_from_str (attachment_role_to_string x) = Inr x" for x
    by (cases x) (simp_all add: attachment_role_from_str_def lit_def)
qed (auto simp: attachment_role_from_str_def split: if_splits)

interpretation conversation_id_text: textual conversation_id_try_from conversation_str
  by unfold_locales (auto simp: conversation_id_try_from_def split: if_splits)

interpretation failure_category_text: textual failure_category_try_from category_str
  by unfold_locales (auto simp: failure_category_try_from_def split: if_splits)

section \<open>Records\<close>

record workspace =
  ws_id :: workspace_id
  ws_name :: str
  ws_created_at :: int
  ws_updated_at :: int
  ws_last_opened_at :: "int option"
  ws_is_open :: bool

record project =
  pj_id :: project_id
  pj_workspace_id :: workspace_id
  pj_name :: str
  pj_repository_path :: str
  pj_canonical_repository_path :: str
  pj_default_branch :: "str option"
  pj_remote_url :: "str option"
  pj_created_at :: int
  pj_last_activity_at :: int

record worktree =
  wt_id :: worktree_id
  wt_project_id :: project_id
  wt_name :: str
  wt_path :: str
  wt_canonical_path :: str
  wt_branch :: "str option"
  wt_base_ref :: str
  wt_base_commit :: str
  wt_is_root_checkout :: bool
  wt_status :: worktree_status
  wt_created_at :: int
  wt_last_activity_at :: int
  wt_removed_at :: "int option"

record session =
  se_id :: session_id
  se_worktree_id :: worktree_id
  se_provider_profile_id :: "provider_profile_id option"
  se_provider_kind :: provider_kind
  se_display_name :: str
  se_status :: session_status
  se_process_id :: "u32 option"
  se_external_session_id :: "str option"
  se_command :: str
  se_arguments_json :: str
  se_cwd :: str
  se_created_at :: int
  se_started_at :: "int option"
  se_ended_at :: "int option"
  se_last_activity_at :: int
  se_last_seen_output_sequence :: u64
  se_exit_code :: "int option"
  se_failure_reason :: "str option"

record lineage_link =
  predecessor :: session_id
  successor :: session_id

section \<open>Bounds of the wire\<close>

definition MAX_WORKTREE_BLOCKING_PATHS :: nat where "MAX_WORKTREE_BLOCKING_PATHS = 10"

definition MAX_WORKTREE_BLOCKING_PATH_BYTES :: nat where
  "MAX_WORKTREE_BLOCKING_PATH_BYTES = 512"

definition MAX_SNAPSHOT_SESSION_LINEAGE_LINKS :: nat where
  "MAX_SNAPSHOT_SESSION_LINEAGE_LINKS = 4096"

datatype blocking_kind = Tracked | Untracked | Ignored

record blocking_path =
  bp_kind :: blocking_kind
  bp_path :: str

datatype wire_error = InvalidBlockingPathSample | TooManyLineageLinks

definition deserialize_worktree_blocking_paths ::
    "blocking_path list \<Rightarrow> wire_error + blocking_path list" where
  "deserialize_worktree_blocking_paths paths =
     (if length paths > MAX_WORKTREE_BLOCKING_PATHS
         \<or> list_ex (\<lambda>e. byte_len (bp_path e) > MAX_WORKTREE_BLOCKING_PATH_BYTES
                       \<or> list_ex is_control (bp_path e)) paths
      then Inl InvalidBlockingPathSample else Inr paths)"

definition deserialize_session_lineage ::
    "lineage_link list \<Rightarrow> wire_error + lineage_link list" where
  "deserialize_session_lineage links =
     (if length links > MAX_SNAPSHOT_SESSION_LINEAGE_LINKS then Inl TooManyLineageLinks
      else Inr links)"

section \<open>Which record of a conversation may be resumed\<close>

text \<open>The tuple comparison of \<open>(created_at, id.as_uuid())\<close>.\<close>

definition newer_record :: "session \<Rightarrow> session \<Rightarrow> bool" where
  "newer_record c s \<longleftrightarrow> se_created_at s < se_created_at c
     \<or> (se_created_at s = se_created_at c \<and> se_id s < se_id c)"

definition same_conversation :: "session \<Rightarrow> session \<Rightarrow> bool" where
  "same_conversation c s \<longleftrightarrow> se_provider_kind c = se_provider_kind s
     \<and> se_worktree_id c = se_worktree_id s
     \<and> se_external_session_id c = se_external_session_id s"

definition session_record_can_resume :: "session \<Rightarrow> session list \<Rightarrow> bool" where
  "session_record_can_resume s sessions = (case se_external_session_id s of
       None \<Rightarrow> False
     | Some external \<Rightarrow>
         lifecycle_allows_resume (st_lifecycle (se_status s))
         \<and> \<not> list_ex (\<lambda>c. se_id c \<noteq> se_id s
               \<and> se_provider_kind c = se_provider_kind s
               \<and> se_worktree_id c = se_worktree_id s
               \<and> se_external_session_id c = Some external
               \<and> newer_record c s) sessions)"

lemma session_record_can_resume_iff:
  "session_record_can_resume s sessions \<longleftrightarrow>
     se_external_session_id s \<noteq> None \<and> lifecycle_allows_resume (st_lifecycle (se_status s))
     \<and> (\<forall>c\<in>set sessions. se_id c \<noteq> se_id s \<longrightarrow> same_conversation c s \<longrightarrow> \<not> newer_record c s)"
  by (auto simp: session_record_can_resume_def same_conversation_def list_ex_iff newer_record_def
      split: option.splits)

lemma newer_record_total: "se_id a \<noteq> se_id b \<Longrightarrow> newer_record a b \<or> newer_record b a"
  using less_linear [of "se_id a" "se_id b"]
  by (auto simp: newer_record_def not_less order.order_iff_strict)

lemma newer_record_asym: "newer_record a b \<Longrightarrow> \<not> newer_record b a"
  by (auto simp: newer_record_def)

lemma newer_record_trans: "newer_record a b \<Longrightarrow> newer_record b c \<Longrightarrow> newer_record a c"
  by (auto simp: newer_record_def)

lemma newest_record_exists:
  assumes "s \<in> set sessions"
  shows "\<exists>m\<in>set sessions. same_conversation m s
     \<and> (\<forall>c\<in>set sessions. same_conversation c s \<longrightarrow> \<not> newer_record c m)"
proof -
  let ?A = "{c \<in> set sessions. same_conversation c s}"
  have A: "finite ?A" "?A \<noteq> {}" using assms by (auto simp: same_conversation_def)
  have trans: "transp_on ?A (\<lambda>a b. newer_record b a)"
    and asym: "asymp_on ?A (\<lambda>a b. newer_record b a)"
    using newer_record_trans newer_record_asym unfolding transp_on_def asymp_on_def by blast+
  obtain m where "m \<in> ?A" "\<forall>c\<in>?A. c \<noteq> m \<longrightarrow> \<not> newer_record c m"
    using Finite_Set.bex_max_element [OF A(1) asym trans A(2)] by blast
  then have "\<not> newer_record c m" if "c \<in> set sessions" "same_conversation c s" for c
    using that newer_record_asym [of m m] by (cases "c = m") auto
  then show ?thesis using \<open>m \<in> ?A\<close> by auto
qed

section \<open>Attempt numbers\<close>

text \<open>
  \<open>links.iter().find(..)\<close>. The loop runs \<open>links.len() + 1\<close> times; the attempt counter is a
  \<open>usize\<close> that cannot reach its bound within them, so its saturation is not modelled.
\<close>

definition find_predecessor :: "lineage_link list \<Rightarrow> session_id \<Rightarrow> session_id option" where
  "find_predecessor links i = map_option predecessor (List.find (\<lambda>l. successor l = i) links)"

fun attempt_loop :: "lineage_link list \<Rightarrow> nat \<Rightarrow> session_id \<Rightarrow> nat \<Rightarrow> nat option" where
  "attempt_loop links 0 current attempt = None"
| "attempt_loop links (Suc n) current attempt = (case find_predecessor links current of
       None \<Rightarrow> Some attempt
     | Some p \<Rightarrow> attempt_loop links n p (attempt + 1))"

definition session_attempt_number :: "session_id \<Rightarrow> lineage_link list \<Rightarrow> nat option" where
  "session_attempt_number i links =
     (if \<not> list_ex (\<lambda>l. predecessor l = i \<or> successor l = i) links then None
      else attempt_loop links (length links + 1) i 1)"

section \<open>Properties\<close>

text \<open>Of the records of one conversation (same Provider, Worktree and external identity) at
  most one may be resumed, the newest; and it may exactly when its own lifecycle is over.\<close>

theorem one_resumable_record:
  assumes "s \<in> set sessions" "se_external_session_id s \<noteq> None"
  shows "\<exists>m\<in>set sessions. same_conversation m s \<and>
     (\<forall>c\<in>set sessions. same_conversation c s \<longrightarrow> session_record_can_resume c sessions \<longrightarrow>
        se_id c = se_id m)
     \<and> (session_record_can_resume m sessions
        \<longleftrightarrow> lifecycle_allows_resume (st_lifecycle (se_status m)))"
proof -
  obtain m where m: "m \<in> set sessions" "same_conversation m s"
      "\<forall>c\<in>set sessions. same_conversation c s \<longrightarrow> \<not> newer_record c m"
    using newest_record_exists [OF assms(1)] by blast
  have "se_id c = se_id m" if "c \<in> set sessions" "same_conversation c s"
    "session_record_can_resume c sessions" for c
  proof (rule ccontr)
    assume ne: "se_id c \<noteq> se_id m"
    moreover have "\<not> newer_record m c"
      using that m(1,2) ne by (simp add: session_record_can_resume_iff same_conversation_def)
    ultimately show False using newer_record_total m(3) that(1,2) by blast
  qed
  moreover have "session_record_can_resume m sessions
      \<longleftrightarrow> lifecycle_allows_resume (st_lifecycle (se_status m))"
    using m assms(2) by (auto simp: session_record_can_resume_iff same_conversation_def)
  ultimately show ?thesis using m(1,2) by blast
qed

definition sample_session :: "nat \<Rightarrow> session_lifecycle \<Rightarrow> session" where
  "sample_session n l = \<lparr>se_id = SessionId (of_nat n), se_worktree_id = WorktreeId 1,
     se_provider_profile_id = None, se_provider_kind = Codex, se_display_name = lit ''s'',
     se_status = default_status\<lparr>st_lifecycle := l\<rparr>, se_process_id = None,
     se_external_session_id = Some (lit ''c''), se_command = lit ''codex'',
     se_arguments_json = lit ''[]'', se_cwd = lit ''/w'', se_created_at = int n,
     se_started_at = None, se_ended_at = None, se_last_activity_at = int n,
     se_last_seen_output_sequence = 0, se_exit_code = None, se_failure_reason = None\<rparr>"

theorem one_resumable_record_witness:
  "\<exists>m\<in>set [sample_session 1 Exited, sample_session 2 Failed].
     \<forall>c\<in>set [sample_session 1 Exited, sample_session 2 Failed].
       session_record_can_resume c [sample_session 1 Exited, sample_session 2 Failed] \<longrightarrow>
         se_id c = se_id m"
proof -
  let ?l = "[sample_session 1 Exited, sample_session 2 Failed]"
  have "sample_session 1 Exited \<in> set ?l" by simp
  moreover have "se_external_session_id (sample_session 1 Exited) \<noteq> None"
    by (simp add: sample_session_def)
  moreover have "\<forall>c\<in>set ?l. same_conversation c (sample_session 1 Exited)"
    by (simp add: sample_session_def same_conversation_def)
  ultimately show ?thesis using one_resumable_record by blast
qed

end
