(* ===== verification/Attention.thy ===== *)
theory Attention
  imports Domain
begin

text \<open>
  Attention Notifications: \<open>crates/sylvops-core/src/attention.rs\<close> (the label shown to the user,
  the client-side tracker of newly blocked Sessions, the claim record) and
  \<open>AttentionNotificationClaims\<close> of \<open>crates/sylvops-daemon/src/daemon.rs\<close>, the queue the daemon
  hands notification rights from. The queue's contract: a right is handed out at most once, to
  a client that was connected when its event was recorded, never for a Session some client has
  in the foreground, and at most 256 are kept.
\<close>

section \<open>Labels and the tracker\<close>

definition MAX_ATTENTION_NOTIFICATION_LABEL_CHARS :: nat where
  "MAX_ATTENTION_NOTIFICATION_LABEL_CHARS = 80"

definition safe_label :: "str \<Rightarrow> str" where
  "safe_label label =
     (let l = take MAX_ATTENTION_NOTIFICATION_LABEL_CHARS (filter (\<lambda>c. \<not> is_control c) label)
      in if trim l = [] then lit ''A session'' else l)"

definition waiting_session :: "session \<Rightarrow> bool" where
  "waiting_session s \<longleftrightarrow> (case st_attention (se_status s) of
       None \<Rightarrow> False
     | Some e \<Rightarrow> ev_ack e = Pending
         \<and> (ev_reason e = InputRequested \<or> ev_reason e = RecoverableFailure))"

definition waiting_sessions :: "session list \<Rightarrow> session_id set" where
  "waiting_sessions sessions = set (map se_id (filter waiting_session sessions))"

record attention_tracker =
  waiting :: "session_id set"

definition tracker_new :: "session list \<Rightarrow> attention_tracker" where
  "tracker_new sessions = \<lparr>waiting = waiting_sessions sessions\<rparr>"

definition tracker_update ::
    "attention_tracker \<Rightarrow> session list \<Rightarrow> str option \<times> attention_tracker" where
  "tracker_update t sessions =
     (let now = waiting_sessions sessions;
          newly = filter (\<lambda>s. se_id s \<in> now \<and> se_id s \<notin> waiting t) sessions;
          message = (case newly of
              [] \<Rightarrow> None
            | [s] \<Rightarrow> Some (safe_label (se_display_name s) @ lit '' needs your input or approval.'')
            | first # _ \<Rightarrow> Some (decimal (length newly)
                @ lit '' sessions need your input or approval, including ''
                @ safe_label (se_display_name first) @ lit ''.''))
      in (message, t\<lparr>waiting := now\<rparr>))"

record notification_preferences =
  native_notifications_enabled :: bool
  sound_enabled :: bool

definition default_preferences :: notification_preferences where
  "default_preferences = \<lparr>native_notifications_enabled = True, sound_enabled = True\<rparr>"

record notification_claim =
  nc_session_id :: session_id
  nc_attention_id :: attention_event_id
  nc_reason :: attention_reason
  nc_session_display_name :: str
  nc_preferences :: notification_preferences

definition notification_claim_new ::
    "session_id \<Rightarrow> str \<Rightarrow> attention_event \<Rightarrow> notification_preferences \<Rightarrow> notification_claim" where
  "notification_claim_new i name e p =
     \<lparr>nc_session_id = i, nc_attention_id = ev_id e, nc_reason = ev_reason e,
      nc_session_display_name = safe_label name, nc_preferences = p\<rparr>"

section \<open>The queue of pending claims\<close>

text \<open>An \<open>Instant\<close> is a number of milliseconds on the monotonic clock.\<close>

definition ATTENTION_NOTIFICATION_CLAIM_CAPACITY :: nat where
  "ATTENTION_NOTIFICATION_CLAIM_CAPACITY = 256"

record pending_claim =
  pc_sequence :: u64
  pc_session_id :: session_id
  pc_event :: attention_event
  pc_ready_at :: nat
  pc_announced :: bool

record claims =
  cl_sequence :: u64
  cl_watermarks :: "(uuid, u64) hash_map"
  cl_foreground :: "(uuid, session_id) hash_map"
  cl_pending :: "pending_claim list"

definition claims_default :: claims where
  "claims_default = \<lparr>cl_sequence = 0, cl_watermarks = [], cl_foreground = [], cl_pending = []\<rparr>"

definition prune_unclaimable :: "claims \<Rightarrow> claims" where
  "prune_unclaimable c =
     (if cl_watermarks c = [] then c\<lparr>cl_pending := []\<rparr>
      else c\<lparr>cl_pending := filter
             (\<lambda>p. list_ex (\<lambda>w. w < pc_sequence p) (hm_values (cl_watermarks c))) (cl_pending c)\<rparr>)"

definition claims_register :: "uuid \<Rightarrow> claims \<Rightarrow> claims" where
  "claims_register i c =
     prune_unclaimable (c\<lparr>cl_watermarks := hm_insert i (cl_sequence c) (cl_watermarks c)\<rparr>)"

definition claims_unregister :: "uuid \<Rightarrow> claims \<Rightarrow> claims" where
  "claims_unregister i c = prune_unclaimable
     (c\<lparr>cl_watermarks := hm_remove i (cl_watermarks c),
        cl_foreground := hm_remove i (cl_foreground c)\<rparr>)"

definition claims_cancel :: "session_id \<Rightarrow> claims \<Rightarrow> claims" where
  "claims_cancel s c = c\<lparr>cl_pending := filter (\<lambda>p. pc_session_id p \<noteq> s) (cl_pending c)\<rparr>"

definition report_focus :: "uuid \<Rightarrow> session_id option \<Rightarrow> claims \<Rightarrow> claims" where
  "report_focus i focus c =
     (if map_of (cl_watermarks c) i = None then c
      else case focus of
        Some s \<Rightarrow> c\<lparr>cl_foreground := hm_insert i s (cl_foreground c),
                     cl_pending := filter (\<lambda>p. pc_session_id p \<noteq> s) (cl_pending c)\<rparr>
      | None \<Rightarrow> c\<lparr>cl_foreground := hm_remove i (cl_foreground c)\<rparr>)"

definition record_at :: "session \<Rightarrow> nat \<Rightarrow> claims \<Rightarrow> bool \<times> claims" where
  "record_at s now c0 =
     (let c = claims_cancel (se_id s) c0
      in case st_attention (se_status s) of
           None \<Rightarrow> (False, c)
         | Some e \<Rightarrow>
             if ev_ack e \<noteq> Pending \<or> cl_watermarks c = [] then (False, c)
             else if list_ex (\<lambda>f. f = se_id s) (hm_values (cl_foreground c)) then (True, c)
             else
               (let n = saturating_add (cl_sequence c) 1;
                    kept = (if length (cl_pending c) \<ge> ATTENTION_NOTIFICATION_CLAIM_CAPACITY
                            then tl (cl_pending c) else cl_pending c);
                    ready = now + (if ev_reason e = InputRequested then 1000 else 0)
                in (False, c\<lparr>cl_sequence := n, cl_pending := kept @
                      [\<lparr>pc_sequence = n, pc_session_id = se_id s, pc_event = e,
                        pc_ready_at = ready, pc_announced = False\<rparr>]\<rparr>)))"

text \<open>\<open>position\<close> followed by \<open>remove(index)\<close>.\<close>

fun remove_first :: "('a \<Rightarrow> bool) \<Rightarrow> 'a list \<Rightarrow> 'a option \<times> 'a list" where
  "remove_first P [] = (None, [])"
| "remove_first P (x # xs) =
     (if P x then (Some x, xs) else let (r, ys) = remove_first P xs in (r, x # ys))"

definition claim_at :: "uuid \<Rightarrow> nat \<Rightarrow> claims \<Rightarrow> pending_claim option \<times> claims" where
  "claim_at i now c = (case map_of (cl_watermarks c) i of
       None \<Rightarrow> (None, c)
     | Some w \<Rightarrow>
         (let (r, rest) = remove_first (\<lambda>p. pc_sequence p > w \<and> pc_ready_at p \<le> now)
                            (cl_pending c)
          in (r, c\<lparr>cl_pending := rest\<rparr>)))"

definition mark_announced :: "nat \<Rightarrow> pending_claim \<Rightarrow> pending_claim" where
  "mark_announced now p =
     (if \<not> pc_announced p \<and> pc_ready_at p \<le> now then p\<lparr>pc_announced := True\<rparr> else p)"

definition announce_due :: "nat \<Rightarrow> claims \<Rightarrow> bool \<times> claims" where
  "announce_due now c =
     (list_ex (\<lambda>p. \<not> pc_announced p \<and> pc_ready_at p \<le> now) (cl_pending c),
      c\<lparr>cl_pending := map (mark_announced now) (cl_pending c)\<rparr>)"

text \<open>\<open>coordinate_attention_notification\<close>: what a status change does to the queue.\<close>

definition coordinate_attention_notification ::
    "attention_event option \<Rightarrow> session \<Rightarrow> nat \<Rightarrow> claims \<Rightarrow> claims" where
  "coordinate_attention_notification previous s now c =
     (let current = st_attention (se_status s)
      in if map_option ev_id current = map_option ev_id previous
         then if (case current of None \<Rightarrow> True | Some e \<Rightarrow> ev_ack e \<noteq> Pending)
              then claims_cancel (se_id s) c else c
         else snd (record_at s now c))"

section \<open>The contract of the queue\<close>

datatype claims_op =
    Register uuid
  | Unregister uuid
  | ReportFocus uuid "session_id option"
  | Cancel session_id
  | RecordAt session nat
  | ClaimAt uuid nat
  | AnnounceDue nat

fun claims_exec :: "claims \<Rightarrow> claims_op \<Rightarrow> pending_claim option \<times> claims" where
  "claims_exec c (Register i) = (None, claims_register i c)"
| "claims_exec c (Unregister i) = (None, claims_unregister i c)"
| "claims_exec c (ReportFocus i f) = (None, report_focus i f c)"
| "claims_exec c (Cancel s) = (None, claims_cancel s c)"
| "claims_exec c (RecordAt s t) = (None, snd (record_at s t c))"
| "claims_exec c (ClaimAt i t) = claim_at i t c"
| "claims_exec c (AnnounceDue t) = (None, snd (announce_due t c))"

definition claims_step :: "claims \<Rightarrow> claims_op \<Rightarrow> claims" where
  "claims_step c a = snd (claims_exec c a)"

text \<open>The shape every state has, and the order of sequence numbers, which holds until the
  64-bit counter saturates.\<close>

definition claims_shape :: "claims \<Rightarrow> bool" where
  "claims_shape c \<longleftrightarrow> hm_wf (cl_watermarks c) \<and> hm_wf (cl_foreground c)
     \<and> hm_keys (cl_foreground c) \<subseteq> hm_keys (cl_watermarks c)
     \<and> distinct (map pc_session_id (cl_pending c))
     \<and> length (cl_pending c) \<le> ATTENTION_NOTIFICATION_CLAIM_CAPACITY
     \<and> (\<forall>p\<in>set (cl_pending c). ev_ack (pc_event p) = Pending
          \<and> pc_session_id p \<notin> hm_range (cl_foreground c))"

definition claims_order :: "claims \<Rightarrow> bool" where
  "claims_order c \<longleftrightarrow> sorted_wrt (<) (map pc_sequence (cl_pending c))
     \<and> (\<forall>p\<in>set (cl_pending c). pc_sequence p \<le> cl_sequence c)
     \<and> (\<forall>w\<in>hm_range (cl_watermarks c). w \<le> cl_sequence c)
     \<and> (\<forall>p\<in>set (cl_pending c). \<exists>w\<in>hm_range (cl_watermarks c). w < pc_sequence p)"

definition unsaturated :: "claims \<Rightarrow> bool" where
  "unsaturated c \<longleftrightarrow> unat (cl_sequence c) < 2 ^ 64 - 1"

definition claims_inv :: "claims \<Rightarrow> bool" where
  "claims_inv c \<longleftrightarrow> claims_shape c \<and> (unsaturated c \<longrightarrow> claims_order c)"

lemma remove_first_spec:
  "remove_first P xs = (r, ys) \<Longrightarrow>
     (case r of
        None \<Rightarrow> ys = xs \<and> (\<forall>x\<in>set xs. \<not> P x)
      | Some x \<Rightarrow> \<exists>us vs. xs = us @ x # vs \<and> ys = us @ vs \<and> P x \<and> (\<forall>u\<in>set us. \<not> P u))"
proof (induction xs arbitrary: r ys)
  case (Cons x xs)
  show ?case
  proof (cases "P x")
    case True
    then have "r = Some x" "ys = xs" using Cons.prems by simp_all
    then show ?thesis using True by (auto intro: exI [of _ "[]"])
  next
    case False
    then obtain zs where zs: "remove_first P xs = (r, zs)" "ys = x # zs"
      using Cons.prems by (auto split: prod.splits)
    show ?thesis
    proof (cases r)
      case None
      then show ?thesis using Cons.IH [OF zs(1)] zs(2) False by simp
    next
      case (Some y)
      then obtain us vs where "xs = us @ y # vs" "zs = us @ vs" "P y" "\<forall>u\<in>set us. \<not> P u"
        using Cons.IH [OF zs(1)] by auto
      then show ?thesis unfolding Some option.case
        by (intro exI [of _ "x # us"] exI [of _ vs]) (use zs(2) False in simp)
    qed
  qed
qed auto

lemma remove_first_subseq:
  assumes "remove_first P xs = (r, ys)"
  shows "set ys \<subseteq> set xs" "length ys \<le> length xs"
    and "distinct (map f xs) \<Longrightarrow> distinct (map f ys)"
    and "sorted_wrt R (map g xs) \<Longrightarrow> sorted_wrt R (map g ys)"
  using remove_first_spec [OF assms]
  by (cases r; auto simp: sorted_wrt_append)+

text \<open>Dropping candidates keeps the queue's part of the contract.\<close>

lemma shape_filter:
  "claims_shape c \<Longrightarrow> claims_shape (c\<lparr>cl_pending := filter P (cl_pending c)\<rparr>)"
  by (auto simp: claims_shape_def distinct_map_filter intro: le_trans [OF length_filter_le])

lemma order_filter:
  "claims_order c \<Longrightarrow> claims_order (c\<lparr>cl_pending := filter P (cl_pending c)\<rparr>)"
  by (auto simp: claims_order_def sorted_wrt_filter sorted_wrt_map)

lemma cancel_inv: "claims_inv c \<Longrightarrow> claims_inv (claims_cancel s c)"
  by (simp add: claims_inv_def claims_cancel_def shape_filter order_filter unsaturated_def)

lemma prune_shape: "claims_shape c \<Longrightarrow> claims_shape (prune_unclaimable c)"
  using shape_filter [of c "\<lambda>_. False"] by (auto simp: prune_unclaimable_def intro: shape_filter)

text \<open>Pruning establishes that every candidate can still be claimed by somebody.\<close>

lemma prune_order:
  assumes "sorted_wrt (<) (map pc_sequence (cl_pending c))"
    and "\<forall>p\<in>set (cl_pending c). pc_sequence p \<le> cl_sequence c"
    and "\<forall>w\<in>hm_range (cl_watermarks c). w \<le> cl_sequence c"
  shows "claims_order (prune_unclaimable c)"
  using assms
  by (auto simp: claims_order_def prune_unclaimable_def sorted_wrt_map sorted_wrt_filter
      list_ex_iff)

lemma prune_sequence [simp]: "cl_sequence (prune_unclaimable c) = cl_sequence c"
  by (simp add: prune_unclaimable_def)

lemma shape_watermarks:
  "claims_shape c \<Longrightarrow> claims_shape (c\<lparr>cl_watermarks := hm_insert i w (cl_watermarks c)\<rparr>)"
  by (auto simp: claims_shape_def)

lemma register_inv: "claims_inv c \<Longrightarrow> claims_inv (claims_register i c)"
proof -
  assume inv: "claims_inv c"
  let ?c = "c\<lparr>cl_watermarks := hm_insert i (cl_sequence c) (cl_watermarks c)\<rparr>"
  have "claims_shape (prune_unclaimable ?c)"
    using inv by (intro prune_shape shape_watermarks) (simp add: claims_inv_def)
  moreover have "claims_order (prune_unclaimable ?c)" if "unsaturated c"
    using inv that hm_range_insert [of i "cl_sequence c" "cl_watermarks c"]
    by (intro prune_order) (auto simp: claims_inv_def claims_order_def)
  ultimately show ?thesis by (simp add: claims_inv_def claims_register_def unsaturated_def)
qed

lemma unregister_inv: "claims_inv c \<Longrightarrow> claims_inv (claims_unregister i c)"
proof -
  assume inv: "claims_inv c"
  let ?c = "c\<lparr>cl_watermarks := hm_remove i (cl_watermarks c),
              cl_foreground := hm_remove i (cl_foreground c)\<rparr>"
  have "claims_shape ?c"
    using inv hm_range_remove [of i "cl_foreground c"]
    by (auto simp: claims_inv_def claims_shape_def)
  moreover have "claims_order (prune_unclaimable ?c)" if "unsaturated c"
    using inv that hm_range_remove [of i "cl_watermarks c"]
    by (intro prune_order) (auto simp: claims_inv_def claims_order_def)
  ultimately show ?thesis
    by (simp add: claims_inv_def claims_unregister_def prune_shape unsaturated_def)
qed

lemma focus_inv: "claims_inv c \<Longrightarrow> claims_inv (report_focus i f c)"
proof (cases "map_of (cl_watermarks c) i")
  case None
  then show "claims_inv c \<Longrightarrow> ?thesis" by (simp add: report_focus_def)
next
  case reg: (Some w)
  assume inv: "claims_inv c"
  show ?thesis
  proof (cases f)
    case None
    then show ?thesis using inv reg hm_range_remove [of i "cl_foreground c"]
      by (auto simp: report_focus_def claims_inv_def claims_shape_def claims_order_def
          unsaturated_def)
  next
    case (Some s)
    let ?c = "c\<lparr>cl_pending := filter (\<lambda>p. pc_session_id p \<noteq> s) (cl_pending c)\<rparr>"
    have "claims_shape ?c" "unsaturated c \<longrightarrow> claims_order ?c"
      using inv by (simp_all add: claims_inv_def shape_filter order_filter)
    then show ?thesis
      using Some reg map_of_Some_hm [OF reg] hm_range_insert [of i s "cl_foreground c"]
      by (auto simp: report_focus_def claims_inv_def claims_shape_def claims_order_def
          unsaturated_def)
  qed
qed

lemma saturating_succ:
  assumes "unat (saturating_add (n::u64) 1) < 2 ^ 64 - 1"
  shows "unat (saturating_add n 1) = unat n + 1" "unat n < 2 ^ 64 - 1"
  using assms by (simp_all add: unat_saturating_add)

lemma record_inv: "claims_inv c \<Longrightarrow> claims_inv (snd (record_at s t c))"
proof -
  assume "claims_inv c"
  then have inv: "claims_inv (claims_cancel (se_id s) c)" by (rule cancel_inv)
  define d where "d = claims_cancel (se_id s) c"
  have fresh: "\<forall>p\<in>set (cl_pending d). pc_session_id p \<noteq> se_id s"
    by (simp add: d_def claims_cancel_def)
  have inv: "claims_inv d" using inv by (simp add: d_def)
  show ?thesis
  proof (cases "\<exists>e. st_attention (se_status s) = Some e \<and> ev_ack e = Pending
      \<and> cl_watermarks d \<noteq> [] \<and> se_id s \<notin> hm_range (cl_foreground d)")
    case False
    then have "snd (record_at s t c) = d"
      by (auto simp: record_at_def Let_def d_def [symmetric] list_ex_iff
          split: option.split)
    then show ?thesis using inv by simp
  next
    case True
    then obtain e where e: "st_attention (se_status s) = Some e" "ev_ack e = Pending"
      "cl_watermarks d \<noteq> []" "se_id s \<notin> hm_range (cl_foreground d)" by blast
    define n where "n = saturating_add (cl_sequence d) 1"
    define kept where "kept = (if length (cl_pending d) \<ge> ATTENTION_NOTIFICATION_CLAIM_CAPACITY
      then tl (cl_pending d) else cl_pending d)"
    define p where "p = \<lparr>pc_sequence = n, pc_session_id = se_id s, pc_event = e, pc_ready_at =
      t + (if ev_reason e = InputRequested then 1000 else 0), pc_announced = False\<rparr>"
    have r: "snd (record_at s t c) = d\<lparr>cl_sequence := n, cl_pending := kept @ [p]\<rparr>"
      using e by (auto simp: record_at_def Let_def d_def [symmetric] n_def kept_def p_def
          list_ex_iff)
    have sub: "set kept \<subseteq> set (cl_pending d)"
      by (cases "cl_pending d") (auto simp: kept_def)
    have dist: "distinct (map pc_session_id kept)" and len: "length kept + 1 \<le> ATTENTION_NOTIFICATION_CLAIM_CAPACITY"
      and sorted: "sorted_wrt (<) (map pc_sequence (cl_pending d)) \<Longrightarrow> sorted_wrt (<) (map pc_sequence kept)"
      using inv by (cases "cl_pending d"; auto simp: kept_def claims_inv_def claims_shape_def
          ATTENTION_NOTIFICATION_CLAIM_CAPACITY_def)+
    have shape: "claims_shape (d\<lparr>cl_sequence := n, cl_pending := kept @ [p]\<rparr>)"
      using inv sub dist len fresh e(2,4)
      by (auto simp: claims_inv_def claims_shape_def p_def)
    have order: "claims_order (d\<lparr>cl_sequence := n, cl_pending := kept @ [p]\<rparr>)"
      if "unat n < 2 ^ 64 - 1"
    proof -
      have u: "unat n = unat (cl_sequence d) + 1" "unat (cl_sequence d) < 2 ^ 64 - 1"
        using saturating_succ [of "cl_sequence d"] that by (simp_all add: n_def)
      then have "claims_order d" using inv by (simp add: claims_inv_def unsaturated_def)
      moreover have less: "x < n \<longleftrightarrow> x \<le> cl_sequence d" for x
        using u(1) by (simp add: word_less_nat_alt word_le_nat_alt less_Suc_eq_le)
      moreover obtain w where "w \<in> hm_range (cl_watermarks d)"
        using e(3) by (auto simp: hm_range_Nil(1) [symmetric] simp del: hm_range_Nil)
      ultimately show ?thesis using sub sorted
        by (auto simp: claims_order_def p_def sorted_wrt_append less_imp_le)
    qed
    show ?thesis unfolding r using shape order by (simp add: claims_inv_def unsaturated_def)
  qed
qed

lemma claim_inv: "claims_inv c \<Longrightarrow> claims_inv (snd (claim_at i t c))"
proof (cases "map_of (cl_watermarks c) i")
  case None
  then show "claims_inv c \<Longrightarrow> ?thesis" by (simp add: claim_at_def)
next
  case (Some w)
  assume inv: "claims_inv c"
  obtain r rest where rr: "remove_first (\<lambda>p. pc_sequence p > w \<and> pc_ready_at p \<le> t)
      (cl_pending c) = (r, rest)" by fastforce
  note sub = remove_first_subseq [OF rr]
  have "snd (claim_at i t c) = c\<lparr>cl_pending := rest\<rparr>"
    using Some rr by (simp add: claim_at_def)
  then show ?thesis using inv sub
    by (auto simp: claims_inv_def claims_shape_def claims_order_def unsaturated_def)
qed

lemma mark_announced_simps [simp]:
  "pc_sequence (mark_announced t p) = pc_sequence p"
  "pc_session_id (mark_announced t p) = pc_session_id p"
  "pc_event (mark_announced t p) = pc_event p"
  "pc_sequence \<circ> mark_announced t = pc_sequence"
  "pc_session_id \<circ> mark_announced t = pc_session_id"
  by (auto simp: mark_announced_def)

lemma announce_inv: "claims_inv c \<Longrightarrow> claims_inv (snd (announce_due t c))"
  by (simp add: claims_inv_def claims_shape_def claims_order_def unsaturated_def announce_due_def)

lemma claims_step_inv: "claims_inv c \<Longrightarrow> claims_inv (claims_step c a)"
  by (cases a) (simp_all add: claims_step_def register_inv unregister_inv focus_inv cancel_inv
      record_inv claim_inv announce_inv)

lemma record_sequence: "unat (cl_sequence c) \<le> unat (cl_sequence (snd (record_at s t c)))"
  by (simp add: record_at_def Let_def claims_cancel_def saturating_add_mono split: option.split)

lemma claims_step_sequence: "unat (cl_sequence c) \<le> unat (cl_sequence (claims_step c a))"
  by (cases a) (auto simp: claims_step_def claims_register_def claims_unregister_def
      report_focus_def claims_cancel_def record_sequence claim_at_def announce_due_def
      split: option.split prod.split)

interpretation claims: step_monotone claims_step claims_inv "\<lambda>c. unat (cl_sequence c)"
  by unfold_locales (simp_all add: claims_step_inv claims_step_sequence)

section \<open>Handing out\<close>

fun handed_out :: "claims \<Rightarrow> claims_op list \<Rightarrow> pending_claim list" where
  "handed_out c [] = []"
| "handed_out c (a # as) =
     (case fst (claims_exec c a) of
        None \<Rightarrow> handed_out (claims_step c a) as
      | Some p \<Rightarrow> p # handed_out (claims_step c a) as)"

text \<open>One step hands out at most one candidate, which leaves the queue; every candidate still
  queued was queued before or carries a sequence number above all earlier ones.\<close>

lemma claim_at_Some:
  assumes "claim_at i t c = (Some p, c')"
  shows "\<exists>us vs w. cl_pending c = us @ p # vs \<and> c' = c\<lparr>cl_pending := us @ vs\<rparr>
     \<and> map_of (cl_watermarks c) i = Some w \<and> w < pc_sequence p \<and> pc_ready_at p \<le> t
     \<and> (\<forall>u\<in>set us. \<not> (w < pc_sequence u \<and> pc_ready_at u \<le> t))"
proof -
  obtain w rest where w: "map_of (cl_watermarks c) i = Some w"
      "remove_first (\<lambda>p. pc_sequence p > w \<and> pc_ready_at p \<le> t) (cl_pending c) = (Some p, rest)"
      "c' = c\<lparr>cl_pending := rest\<rparr>"
    using assms by (auto simp: claim_at_def split: option.splits prod.splits)
  from remove_first_spec [OF w(2)] w show ?thesis by auto
qed

lemma pending_after_step:
  assumes "claims_inv c" "unsaturated (claims_step c a)"
    and "q \<in> set (cl_pending (claims_step c a))"
  shows "(\<exists>p\<in>set (cl_pending c). pc_sequence p = pc_sequence q)
     \<or> cl_sequence c < pc_sequence q"
proof (cases a)
  case (RecordAt s t)
  have "unat (cl_sequence c) + 1 = unat (saturating_add (cl_sequence c) 1)"
    if "cl_sequence (claims_step c a) = saturating_add (cl_sequence c) 1"
    using assms(2) that saturating_succ [of "cl_sequence c"] by (simp add: unsaturated_def)
  then show ?thesis using assms(3) RecordAt
    by (auto simp: claims_step_def record_at_def Let_def claims_cancel_def word_less_nat_alt
        ATTENTION_NOTIFICATION_CLAIM_CAPACITY_def
        split: option.splits if_splits dest!: list.set_sel(2) [rotated])
next
  case (ClaimAt i t)
  obtain r c' where rc: "claim_at i t c = (r, c')" by fastforce
  have "set (cl_pending c') \<subseteq> set (cl_pending c)"
  proof (cases "map_of (cl_watermarks c) i")
    case None
    then show ?thesis using rc by (simp add: claim_at_def)
  next
    case (Some w)
    then show ?thesis using rc
      by (auto simp: claim_at_def split: prod.splits dest: remove_first_subseq(1) [THEN subsetD])
  qed
  then show ?thesis using assms(3) ClaimAt rc by (auto simp: claims_step_def)
qed (use assms(3) in \<open>auto simp: claims_step_def claims_register_def claims_unregister_def
      report_focus_def claims_cancel_def announce_due_def prune_unclaimable_def
      split: option.splits if_splits\<close>)

lemma handed_out_source:
  assumes "claims_inv c" "unsaturated (foldl claims_step c as)" "q \<in> set (handed_out c as)"
  shows "(\<exists>p\<in>set (cl_pending c). pc_sequence p = pc_sequence q)
     \<or> cl_sequence c < pc_sequence q"
  using assms
proof (induction as arbitrary: c)
  case (Cons a as)
  let ?c = "claims_step c a"
  have inv: "claims_inv ?c" using Cons.prems(1) by (rule claims_step_inv)
  have "unat (cl_sequence ?c) \<le> unat (cl_sequence (foldl claims_step ?c as))"
    using inv by (rule claims.by_level.run_le)
  then have unsat: "unsaturated ?c" using Cons.prems(2) by (simp add: unsaturated_def)
  have seq: "cl_sequence c \<le> cl_sequence ?c"
    using claims_step_sequence [of c a] by (simp add: word_le_nat_alt)
  have later: "?case" if q: "q \<in> set (handed_out ?c as)"
  proof -
    have "unsaturated (foldl claims_step ?c as)" using Cons.prems(2) by simp
    then consider p where "p \<in> set (cl_pending ?c)" "pc_sequence p = pc_sequence q"
      | "cl_sequence ?c < pc_sequence q"
      using Cons.IH [OF inv _ q] by blast
    then show ?thesis
    proof cases
      case 1
      then show ?thesis using pending_after_step [OF Cons.prems(1) unsat 1(1)] by simp
    next
      case 2
      then show ?thesis using seq by (simp add: le_less_trans)
    qed
  qed
  show ?case
  proof (cases "fst (claims_exec c a)")
    case None
    then show ?thesis using Cons.prems(3) later by simp
  next
    case (Some p)
    then obtain i t c' where "a = ClaimAt i t" "claim_at i t c = (Some p, c')"
      by (cases a) (auto simp: prod_eq_iff)
    then have "p \<in> set (cl_pending c)" by (auto dest!: claim_at_Some)
    then show ?thesis using Cons.prems(3) later Some by auto
  qed
qed simp

section \<open>Properties\<close>

definition sample_claims :: claims where
  "sample_claims = snd (record_at ((sample_session 5 Running)\<lparr>se_status := waiting_status\<rparr>) 10
     (claims_register 1 claims_default))"

lemma claims_inv_default [simp]: "claims_inv claims_default"
  by (simp add: claims_inv_def claims_shape_def claims_order_def claims_default_def)

lemma claims_inv_sample [simp]: "claims_inv sample_claims"
  by (simp add: sample_claims_def record_inv register_inv)

text \<open>a claim goes to a connected client, and only for an event that was recorded after
  the client connected, is due, is still pending, and belongs to a Session no client has in the
  foreground; it is the oldest such candidate, and it leaves the queue with nothing else of its
  Session behind.\<close>

theorem claim_is_sound:
  assumes "claims_inv c" "claim_at i now c = (Some p, c')"
  shows "\<exists>w. map_of (cl_watermarks c) i = Some w \<and> w < pc_sequence p \<and> pc_ready_at p \<le> now
     \<and> ev_ack (pc_event p) = Pending \<and> pc_session_id p \<notin> hm_range (cl_foreground c)
     \<and> (\<forall>q\<in>set (cl_pending c'). pc_session_id q \<noteq> pc_session_id p)
     \<and> (unsaturated c \<longrightarrow> (\<forall>q\<in>set (cl_pending c). w < pc_sequence q \<longrightarrow> pc_ready_at q \<le> now \<longrightarrow>
          pc_sequence p \<le> pc_sequence q))"
proof -
  obtain us vs w where d: "cl_pending c = us @ p # vs" "c' = c\<lparr>cl_pending := us @ vs\<rparr>"
      "map_of (cl_watermarks c) i = Some w" "w < pc_sequence p" "pc_ready_at p \<le> now"
      "\<forall>u\<in>set us. \<not> (w < pc_sequence u \<and> pc_ready_at u \<le> now)"
    using claim_at_Some [OF assms(2)] by blast
  have "distinct (map pc_session_id (us @ p # vs))"
    using assms(1) d(1) by (simp add: claims_inv_def claims_shape_def)
  then have "pc_session_id p \<notin> pc_session_id ` set (us @ vs)" by auto
  then have "\<forall>q\<in>set (cl_pending c'). pc_session_id q \<noteq> pc_session_id p"
    using d(2) by (metis (no_types, lifting) claims.select_convs(4) claims.surjective
        claims.update_convs(4) image_eqI)
  then show ?thesis using assms(1) d
    by (intro exI [of _ w])
      (auto simp: claims_inv_def claims_shape_def claims_order_def sorted_wrt_append less_imp_le)
qed

theorem claim_is_sound_witness:
  "\<exists>p c' w. claim_at 1 1010 sample_claims = (Some p, c')
     \<and> map_of (cl_watermarks sample_claims) 1 = Some w \<and> w < pc_sequence p"
proof -
  let ?r = "claim_at 1 1010 sample_claims"
  have "fst ?r \<noteq> None"
    by (simp add: sample_claims_def record_at_def claims_register_def claims_default_def
        prune_unclaimable_def claims_cancel_def waiting_status_def sample_session_def
        hm_insert_def hm_remove_def hm_values_def saturating_add_def claim_at_def
        ATTENTION_NOTIFICATION_CLAIM_CAPACITY_def Let_def)
  then obtain p where "?r = (Some p, snd ?r)" by (metis option.exhaust prod.collapse)
  then show ?thesis using claim_is_sound [OF claims_inv_sample, of 1 1010 p] by blast
qed

text \<open>Over any sequence of registrations, focus reports, recordings and claims, no pending
  notification is handed out twice, to the same or to different clients; at most 256 are ever
  queued, at most one per Session and none for a Session in the foreground.\<close>

theorem claims_handed_out_once:
  assumes "claims_inv c" "unsaturated (foldl claims_step c as)"
  shows "distinct (map pc_sequence (handed_out c as))
     \<and> length (cl_pending (foldl claims_step c as)) \<le> ATTENTION_NOTIFICATION_CLAIM_CAPACITY
     \<and> distinct (map pc_session_id (cl_pending (foldl claims_step c as)))
     \<and> (\<forall>p\<in>set (cl_pending (foldl claims_step c as)).
          pc_session_id p \<notin> hm_range (cl_foreground (foldl claims_step c as)))"
proof -
  have "claims_inv (foldl claims_step c as)" using assms(1) by (rule claims.run_inv)
  moreover have "distinct (map pc_sequence (handed_out c as))"
    using assms
  proof (induction as arbitrary: c)
    case (Cons a as)
    let ?c = "claims_step c a"
    have inv: "claims_inv ?c" using Cons.prems(1) by (rule claims_step_inv)
    have rest: "distinct (map pc_sequence (handed_out ?c as))"
      using Cons.IH [OF inv] Cons.prems(2) by simp
    show ?case
    proof (cases "fst (claims_exec c a)")
      case None
      then show ?thesis using rest by simp
    next
      case (Some p)
      then obtain i t where a: "a = ClaimAt i t" "claim_at i t c = (Some p, ?c)"
        by (cases a) (auto simp: prod_eq_iff claims_step_def)
      obtain us vs where d: "cl_pending c = us @ p # vs" "?c = c\<lparr>cl_pending := us @ vs\<rparr>"
        using claim_at_Some [OF a(2)] by blast
      have "unat (cl_sequence c) \<le> unat (cl_sequence (foldl claims_step ?c as))"
        using claims.by_level.run_le [OF inv, of as] claims_step_sequence [of c a] by linarith
      then have "claims_order c"
        using Cons.prems by (simp add: claims_inv_def unsaturated_def)
      then have o: "pc_sequence p \<le> cl_sequence ?c"
          "\<forall>q\<in>set (cl_pending ?c). pc_sequence q \<noteq> pc_sequence p"
        unfolding claims_order_def d by (auto simp: sorted_wrt_append)
      have "pc_sequence p \<noteq> pc_sequence q" if "q \<in> set (handed_out ?c as)" for q
        using handed_out_source [OF inv _ that] Cons.prems(2) o by fastforce
      then show ?thesis using rest Some by auto
    qed
  qed simp
  ultimately show ?thesis by (simp add: claims_inv_def claims_shape_def)
qed

theorem claims_handed_out_once_witness:
  "distinct (map pc_sequence (handed_out sample_claims [ClaimAt 1 2000, ClaimAt 1 2000]))"
proof -
  have "unsaturated (foldl claims_step sample_claims [ClaimAt 1 2000, ClaimAt 1 2000])"
    by (simp add: sample_claims_def record_at_def claims_register_def claims_default_def
        prune_unclaimable_def claims_cancel_def waiting_status_def sample_session_def
        hm_insert_def hm_remove_def hm_values_def saturating_add_def claim_at_def
        ATTENTION_NOTIFICATION_CLAIM_CAPACITY_def Let_def claims_step_def unsaturated_def)
  from claims_handed_out_once [OF claims_inv_sample this] show ?thesis by blast
qed

text \<open>A label that reaches a notification never contains a control character, is never
  blank and has at most 80 characters.\<close>

theorem safe_label_is_safe:
  "\<not> list_ex is_control (safe_label s) \<and> trim (safe_label s) \<noteq> []
     \<and> length (safe_label s) \<le> MAX_ATTENTION_NOTIFICATION_LABEL_CHARS"
proof -
  have fixed: "\<not> list_ex is_control (lit ''A session'')" "trim (lit ''A session'') \<noteq> []"
    "length (lit ''A session'') \<le> MAX_ATTENTION_NOTIFICATION_LABEL_CHARS"
    by (simp_all add: lit_def is_control_def trim_def is_whitespace_def
        MAX_ATTENTION_NOTIFICATION_LABEL_CHARS_def)
  show ?thesis
    unfolding safe_label_def Let_def using fixed
    by (auto simp: list_ex_iff dest: in_set_takeD)
qed

end
