(* ===== verification/Frame_Codec.thy ===== *)
theory Frame_Codec
  imports Sylvops_Prelude
begin

text \<open>
  The framing layer of \<open>crates/sylvops-core/src/protocol.rs\<close>: the fixed 48-byte header behind a
  length prefix, \<open>Frame::encode\<close>, \<open>Frame::decode\<close>, the stream readers and the size checks of
  terminal requests. Decoding accepts exactly the bytes encoding produces. The MessagePack
  encoding of payloads is outside: a payload is a list of bytes.
\<close>

section \<open>Big-endian fields\<close>

type_synonym bytes = "u8 list"

fun be_digits :: "nat \<Rightarrow> nat \<Rightarrow> bytes" where
  "be_digits 0 v = []"
| "be_digits (Suc n) v = be_digits n (v div 256) @ [of_nat (v mod 256)]"

definition be_value :: "bytes \<Rightarrow> nat" where
  "be_value bs = foldl (\<lambda>a b. a * 256 + unat b) 0 bs"

text \<open>\<open>to_be_bytes\<close> and \<open>from_be_bytes\<close> of the widths the header uses.\<close>

definition to_be_bytes :: "'a::len word \<Rightarrow> bytes" where
  "to_be_bytes w = be_digits (LENGTH('a) div 8) (unat w)"

definition from_be_bytes :: "bytes \<Rightarrow> 'a::len word" where
  "from_be_bytes bs = of_nat (be_value bs)"

lemma length_be_digits [simp]: "length (be_digits n v) = n"
  by (induction n arbitrary: v) simp_all

lemma be_value_snoc [simp]: "be_value (bs @ [b]) = be_value bs * 256 + unat b"
  by (simp add: be_value_def)

lemma be_value_Nil [simp]: "be_value [] = 0"
  by (simp add: be_value_def)

lemma unat_byte: "unat (of_nat (v mod 256) :: u8) = v mod 256"
  by (simp add: unsigned_of_nat take_bit_eq_mod)

lemma be_value_digits: "be_value (be_digits n v) = v mod 256 ^ n"
proof (induction n arbitrary: v)
  case (Suc n)
  have "v mod (256 * 256 ^ n) = 256 * (v div 256 mod 256 ^ n) + v mod 256"
    by (rule mod_mult2_eq)
  then show ?case by (simp add: Suc.IH unat_byte)
qed simp

lemma be_value_less: "be_value bs < 256 ^ length bs"
proof (induction bs rule: rev_induct)
  case (snoc b bs)
  have "unat b < 256" using unsigned_less [of b] by simp
  then show ?case using snoc.IH by simp
qed simp

lemma be_digits_value: "be_digits (length bs) (be_value bs) = bs"
proof (induction bs rule: rev_induct)
  case (snoc b bs)
  have "unat b < 256" using unsigned_less [of b] by simp
  then have "(be_value bs * 256 + unat b) div 256 = be_value bs"
    "(be_value bs * 256 + unat b) mod 256 = unat b" by simp_all
  then show ?case using snoc.IH by simp
qed simp

section \<open>Errors and cursors\<close>

datatype frame_error =
    NilMessageId
  | UnsupportedFrameFlags u8
  | FrameTooLarge nat nat
  | TruncatedFrame
  | InvalidFrameLength
  | InvalidMagic
  | UnsupportedProtocol u16 u16
  | UnknownMessageClass u8
  | UnexpectedEof

text \<open>
  \<open>bytes.get(*position..*position + n)\<close>, then \<open>*position += n\<close>: the taken slice and the new
  position.
\<close>

definition take_bytes :: "nat \<Rightarrow> bytes \<Rightarrow> nat \<Rightarrow> frame_error + bytes \<times> nat" where
  "take_bytes n bs position =
     (if position + n \<le> length bs then Inr (take n (drop position bs), position + n)
      else Inl TruncatedFrame)"

definition take_u8 :: "bytes \<Rightarrow> nat \<Rightarrow> frame_error + u8 \<times> nat" where
  "take_u8 bs p = (if p < length bs then Inr (bs ! p, p + 1) else Inl TruncatedFrame)"

definition take_u16 :: "bytes \<Rightarrow> nat \<Rightarrow> frame_error + u16 \<times> nat" where
  "take_u16 bs p = bind_result (take_bytes 2 bs p) (\<lambda>(v, q). Inr (from_be_bytes v, q))"

definition take_u32 :: "bytes \<Rightarrow> nat \<Rightarrow> frame_error + u32 \<times> nat" where
  "take_u32 bs p = bind_result (take_bytes 4 bs p) (\<lambda>(v, q). Inr (from_be_bytes v, q))"

definition take_uuid :: "bytes \<Rightarrow> nat \<Rightarrow> frame_error + uuid \<times> nat" where
  "take_uuid bs p = bind_result (take_bytes 16 bs p) (\<lambda>(v, q). Inr (from_be_bytes v, q))"

section \<open>Fixed-width codecs\<close>

text \<open>
  The contract of one header field: its encoding has a fixed width, and the cursor reads it
  back from any position, exactly when the bytes are there.
\<close>

locale field_codec =
  fixes enc :: "'a \<Rightarrow> bytes" and width :: nat
    and take_field :: "bytes \<Rightarrow> nat \<Rightarrow> frame_error + 'a \<times> nat"
  assumes length_enc: "length (enc x) = width"
    and take_enc: "take_field (pre @ enc x @ post) (length pre) = Inr (x, length pre + width)"
    and take_canonical: "take_field bs p = Inr (x, q) \<Longrightarrow>
      q = p + width \<and> q \<le> length bs \<and> take width (drop p bs) = enc x"
    and take_defined: "p + width \<le> length bs \<Longrightarrow> \<exists>x. take_field bs p = Inr (x, p + width)"
begin

lemma enc_inj: "enc x = enc y \<Longrightarrow> x = y"
  using take_enc [of "[]" x "[]"] take_enc [of "[]" y "[]"] by simp

lemma take_at:
  assumes "take p bs = pre" "drop p bs = enc x @ post" "p \<le> length bs"
  shows "take_field bs p = Inr (x, p + width)"
proof -
  have "bs = pre @ enc x @ post" using assms append_take_drop_id [of p bs] by simp
  moreover have "length pre = p" using assms(1,3) by auto
  ultimately show ?thesis using take_enc [of pre x post] by simp
qed

text \<open>The reading is decided by the bytes at the position alone.\<close>

lemma take_iff:
  "take_field bs p = Inr (x, q) \<longleftrightarrow>
     q = p + width \<and> q \<le> length bs \<and> take width (drop p bs) = enc x"
proof
  assume "q = p + width \<and> q \<le> length bs \<and> take width (drop p bs) = enc x"
  then have "drop p bs = enc x @ drop q bs" "q = p + width" "q \<le> length bs"
    by (metis append_take_drop_id drop_drop add.commute)+
  then show "take_field bs p = Inr (x, q)" using take_at [of p bs _ x "drop q bs"] by simp
qed (rule take_canonical)

end

lemma power_256: "8 dvd l \<Longrightarrow> (256::nat) ^ (l div 8) = 2 ^ l"
proof -
  assume "8 dvd l"
  have "(256::nat) ^ (l div 8) = (2 ^ 8) ^ (l div 8)" by simp
  also have "\<dots> = 2 ^ (8 * (l div 8))" by (rule power_mult [symmetric])
  also have "8 * (l div 8) = l" using \<open>8 dvd l\<close> by (rule dvd_mult_div_cancel)
  finally show ?thesis .
qed

lemma to_be_bytes_from:
  assumes "8 dvd LENGTH('a)" "length bs = LENGTH('a) div 8"
  shows "to_be_bytes (from_be_bytes bs :: 'a::len word) = bs"
proof -
  have "be_value bs < 2 ^ LENGTH('a)"
    using be_value_less [of bs] power_256 [OF assms(1)] assms(2) by simp
  then have "unat (of_nat (be_value bs) :: 'a word) = be_value bs"
    by (simp add: unsigned_of_nat take_bit_nat_eq_self_iff)
  then show ?thesis using assms(2) be_digits_value [of bs]
    by (simp add: to_be_bytes_def from_be_bytes_def)
qed

lemma from_be_bytes_to:
  assumes "8 dvd LENGTH('a)"
  shows "from_be_bytes (to_be_bytes (w :: 'a::len word)) = w"
proof -
  have "unat w mod 2 ^ LENGTH('a) = unat w" by simp
  then show ?thesis
    by (simp add: to_be_bytes_def from_be_bytes_def be_value_digits power_256 [OF assms])
qed

lemma take_bytes_eq:
  "take_bytes n bs p = Inr (v, q) \<longleftrightarrow>
     q = p + n \<and> p + n \<le> length bs \<and> v = take n (drop p bs)"
  by (auto simp: take_bytes_def)

lemma word_field_codec:
  assumes "8 dvd LENGTH('a)" "n = LENGTH('a) div 8"
  shows "field_codec (to_be_bytes :: 'a::len word \<Rightarrow> bytes) n
     (\<lambda>bs p. bind_result (take_bytes n bs p) (\<lambda>(v, q). Inr (from_be_bytes v, q)))"
  by unfold_locales
    (use assms in \<open>auto simp: to_be_bytes_def [where 'a = 'a] bind_result_eq_Inr take_bytes_eq
        from_be_bytes_to [OF assms(1), unfolded to_be_bytes_def]
        to_be_bytes_from [OF assms(1), unfolded to_be_bytes_def, symmetric]\<close>)

interpretation u16_field: field_codec "to_be_bytes :: u16 \<Rightarrow> bytes" 2 take_u16
  unfolding take_u16_def [abs_def] by (rule word_field_codec) simp_all

interpretation u32_field: field_codec "to_be_bytes :: u32 \<Rightarrow> bytes" 4 take_u32
  unfolding take_u32_def [abs_def] by (rule word_field_codec) simp_all

interpretation uuid_field: field_codec "to_be_bytes :: uuid \<Rightarrow> bytes" 16 take_uuid
  unfolding take_uuid_def [abs_def] by (rule word_field_codec) simp_all

lemma take_one_drop: "p < length bs \<Longrightarrow> take 1 (drop p bs) = [bs ! p]"
  by (simp add: take_Suc_conv_app_nth [of 0])

interpretation u8_field: field_codec "\<lambda>b. [b]" 1 take_u8
proof unfold_locales
  show "take_u8 bs p = Inr (x, q) \<Longrightarrow> q = p + 1 \<and> q \<le> length bs \<and> take 1 (drop p bs) = [x]"
    for bs p x q
    using take_one_drop [of p bs] by (simp add: take_u8_def split: if_splits)
qed (auto simp: take_u8_def)

section \<open>Frames\<close>

definition MAGIC :: u32 where "MAGIC = 0x4353544C"
definition PROTOCOL_MAJOR :: u16 where "PROTOCOL_MAJOR = 1"
definition PROTOCOL_MINOR :: u16 where "PROTOCOL_MINOR = 36"
definition MAX_FRAME_SIZE :: nat where "MAX_FRAME_SIZE = 1024 * 1024"
definition MAX_PTY_CHUNK_SIZE :: nat where "MAX_PTY_CHUNK_SIZE = 64 * 1024"
definition HEADER_SIZE :: nat where "HEADER_SIZE = 48"
definition LENGTH_PREFIX_SIZE :: nat where "LENGTH_PREFIX_SIZE = 4"

datatype message_class = Request | Response | Event

fun message_class_byte :: "message_class \<Rightarrow> u8" where
  "message_class_byte Request = 1"
| "message_class_byte Response = 2"
| "message_class_byte Event = 3"

definition message_class_try_from :: "u8 \<Rightarrow> frame_error + message_class" where
  "message_class_try_from v =
     (if v = 1 then Inr Request else if v = 2 then Inr Response else if v = 3 then Inr Event
      else Inl (UnknownMessageClass v))"

record protocol_version =
  major :: u16
  minor :: u16

definition current_version :: protocol_version where
  "current_version = \<lparr>major = PROTOCOL_MAJOR, minor = PROTOCOL_MINOR\<rparr>"

definition version_validate :: "protocol_version \<Rightarrow> frame_error + unit" where
  "version_validate v =
     (if major v = PROTOCOL_MAJOR \<and> minor v = PROTOCOL_MINOR then Inr ()
      else Inl (UnsupportedProtocol (major v) (minor v)))"

record frame =
  fr_version :: protocol_version
  fr_class :: message_class
  fr_opcode :: u16
  fr_flags :: u8
  fr_message_id :: uuid
  fr_correlation_id :: "uuid option"
  fr_payload :: bytes

text \<open>
  \<open>Frame::message\<close> and \<open>Frame::response\<close> after the payload has been serialised; \<open>fresh\<close> is
  the new version-7 UUID.
\<close>

definition frame_message :: "uuid \<Rightarrow> message_class \<Rightarrow> u16 \<Rightarrow> bytes \<Rightarrow> frame" where
  "frame_message fresh class opcode payload =
     \<lparr>fr_version = current_version, fr_class = class, fr_opcode = opcode, fr_flags = 0,
      fr_message_id = fresh, fr_correlation_id = None, fr_payload = payload\<rparr>"

definition frame_response :: "uuid \<Rightarrow> u16 \<Rightarrow> uuid \<Rightarrow> bytes \<Rightarrow> frame" where
  "frame_response fresh opcode request_id payload =
     (frame_message fresh Response opcode payload)\<lparr>fr_correlation_id := Some request_id\<rparr>"

text \<open>
  \<open>encode\<close>. A vector is shorter than \<open>usize::MAX\<close> by far, so the \<open>checked_add\<close> and the two
  conversions to \<open>u32\<close> behind the size check cannot fail; lengths are natural numbers here.
\<close>

definition frame_header :: "frame \<Rightarrow> bytes" where
  "frame_header f = to_be_bytes MAGIC @ to_be_bytes (major (fr_version f))
     @ to_be_bytes (minor (fr_version f)) @ [message_class_byte (fr_class f)]
     @ to_be_bytes (fr_opcode f) @ [fr_flags f] @ to_be_bytes (fr_message_id f)
     @ to_be_bytes (case fr_correlation_id f of None \<Rightarrow> 0 | Some c \<Rightarrow> c)
     @ to_be_bytes (of_nat (length (fr_payload f)) :: u32)"

definition frame_encode :: "frame \<Rightarrow> frame_error + bytes" where
  "frame_encode f =
     (if fr_message_id f = 0 then Inl NilMessageId
      else if fr_flags f \<noteq> 0 then Inl (UnsupportedFrameFlags (fr_flags f))
      else
        let frame_length = HEADER_SIZE + length (fr_payload f)
        in if frame_length > MAX_FRAME_SIZE then Inl (FrameTooLarge frame_length MAX_FRAME_SIZE)
           else Inr (to_be_bytes (of_nat frame_length :: u32) @ frame_header f @ fr_payload f))"

definition frame_decode_body :: "bytes \<Rightarrow> bool \<Rightarrow> frame_error + frame" where
  "frame_decode_body body validate_version =
     (if length body < HEADER_SIZE then Inl TruncatedFrame
      else
      bind_result (take_u32 body 0) (\<lambda>(magic, p1).
      if magic \<noteq> MAGIC then Inl InvalidMagic
      else
      bind_result (take_u16 body p1) (\<lambda>(ma, p2).
      bind_result (take_u16 body p2) (\<lambda>(mi, p3).
      let version = \<lparr>major = ma, minor = mi\<rparr> in
      bind_result (if validate_version then version_validate version else Inr ()) (\<lambda>_.
      bind_result (take_u8 body p3) (\<lambda>(c, p4).
      bind_result (message_class_try_from c) (\<lambda>class.
      bind_result (take_u16 body p4) (\<lambda>(opcode, p5).
      bind_result (take_u8 body p5) (\<lambda>(flags, p6).
      if flags \<noteq> 0 then Inl (UnsupportedFrameFlags flags)
      else
      bind_result (take_uuid body p6) (\<lambda>(message_id, p7).
      if message_id = 0 then Inl NilMessageId
      else
      bind_result (take_uuid body p7) (\<lambda>(correlation, p8).
      bind_result (take_u32 body p8) (\<lambda>(payload_length, _).
      if HEADER_SIZE + unat payload_length \<noteq> length body then Inl InvalidFrameLength
      else Inr \<lparr>fr_version = version, fr_class = class, fr_opcode = opcode, fr_flags = flags,
                fr_message_id = message_id,
                fr_correlation_id = (if correlation \<noteq> 0 then Some correlation else None),
                fr_payload = drop HEADER_SIZE body\<rparr>))))))))))))"

definition frame_decode_with :: "bytes \<Rightarrow> bool \<Rightarrow> frame_error + frame" where
  "frame_decode_with bs validate_version =
     (if length bs < LENGTH_PREFIX_SIZE then Inl TruncatedFrame
      else
        let declared = unat (from_be_bytes (take 4 bs) :: u32)
        in if declared > MAX_FRAME_SIZE then Inl (FrameTooLarge declared MAX_FRAME_SIZE)
           else if length bs < LENGTH_PREFIX_SIZE + HEADER_SIZE then Inl TruncatedFrame
           else if length bs \<noteq> LENGTH_PREFIX_SIZE + declared then Inl InvalidFrameLength
           else frame_decode_body (drop LENGTH_PREFIX_SIZE bs) validate_version)"

definition frame_decode :: "bytes \<Rightarrow> frame_error + frame" where
  "frame_decode bs = frame_decode_with bs True"

definition frame_decode_for_handshake :: "bytes \<Rightarrow> frame_error + frame" where
  "frame_decode_for_handshake bs = frame_decode_with bs False"

text \<open>
  The asynchronous reader is the list of bytes it will still deliver; \<open>read_exact\<close> on too few
  fails and has consumed them. The two errors of the stream are one, \<open>UnexpectedEof\<close>.
\<close>

definition read_exact :: "nat \<Rightarrow> bytes \<Rightarrow> (frame_error + bytes) \<times> bytes" where
  "read_exact n s = (if n \<le> length s then (Inr (take n s), drop n s) else (Inl UnexpectedEof, []))"

definition read_frame_with :: "bool \<Rightarrow> bytes \<Rightarrow> (frame_error + frame) \<times> bytes" where
  "read_frame_with validate_version s =
     and_then (read_exact 4 s) (\<lambda>prefix s1.
       let declared = unat (from_be_bytes prefix :: u32)
       in if declared > MAX_FRAME_SIZE then (Inl (FrameTooLarge declared MAX_FRAME_SIZE), s1)
          else if declared < HEADER_SIZE then (Inl TruncatedFrame, s1)
          else and_then (read_exact declared s1) (\<lambda>body s2.
                 (frame_decode_with (prefix @ body) validate_version, s2)))"

definition read_frame :: "bytes \<Rightarrow> (frame_error + frame) \<times> bytes" where
  "read_frame s = read_frame_with True s"

definition read_handshake_frame :: "bytes \<Rightarrow> (frame_error + frame) \<times> bytes" where
  "read_handshake_frame s = read_frame_with False s"

definition write_frame :: "frame \<Rightarrow> bytes \<Rightarrow> (frame_error + unit) \<times> bytes" where
  "write_frame f out = (case frame_encode f of
       Inl e \<Rightarrow> (Inl e, out) | Inr bs \<Rightarrow> (Inr (), out @ bs))"

section \<open>Checks of terminal requests\<close>

datatype terminal_size_error = TerminalColumns | TerminalRows

definition validate_terminal_size :: "u16 \<Rightarrow> u16 \<Rightarrow> terminal_size_error + unit" where
  "validate_terminal_size columns rows =
     (if \<not> (1 \<le> columns \<and> columns \<le> 500) then Inl TerminalColumns
      else if \<not> (1 \<le> rows \<and> rows \<le> 200) then Inl TerminalRows else Inr ())"

datatype chunk_error = ChunkTooLong

definition validate_pty_chunk_length :: "nat \<Rightarrow> chunk_error + unit" where
  "validate_pty_chunk_length n = (if n > MAX_PTY_CHUNK_SIZE then Inl ChunkTooLong else Inr ())"

text \<open>\<open>opaque_authorization!\<close>: 64 hexadecimal characters; the length counts bytes.\<close>

datatype session_deletion_authorization = SessionDeletionAuthorization (authorization_str: str)

datatype authorization_error = AuthorizationNotHexadecimal

definition authorization_try_from ::
    "str \<Rightarrow> authorization_error + session_deletion_authorization" where
  "authorization_try_from v =
     (if byte_len v \<noteq> 64 \<or> \<not> list_all is_ascii_hexdigit v then Inl AuthorizationNotHexadecimal
      else Inr (SessionDeletionAuthorization v))"

interpretation authorization_text: textual authorization_try_from authorization_str
  by unfold_locales (auto simp: authorization_try_from_def split: if_splits)

section \<open>Decoding inverts encoding\<close>

lemma take_drop_join: "take n (drop p bs) @ drop (p + n) bs = drop p bs"
  by (metis append_take_drop_id drop_drop add.commute)

lemma header_split:
  "bs = take 4 (drop 0 bs) @ take 2 (drop 4 bs) @ take 2 (drop 6 bs) @ take 1 (drop 8 bs)
      @ take 2 (drop 9 bs) @ take 1 (drop 11 bs) @ take 16 (drop 12 bs) @ take 16 (drop 28 bs)
      @ take 4 (drop 44 bs) @ drop 48 bs"
  using take_drop_join [of 4 44 bs] take_drop_join [of 16 28 bs] take_drop_join [of 16 12 bs]
    take_drop_join [of 1 11 bs] take_drop_join [of 2 9 bs] take_drop_join [of 1 8 bs]
    take_drop_join [of 2 6 bs] take_drop_join [of 2 4 bs] take_drop_join [of 4 0 bs]
  by simp

lemma length_be [simp]:
  "length (to_be_bytes (a :: u16)) = 2" "length (to_be_bytes (b :: u32)) = 4"
  "length (to_be_bytes (c :: uuid)) = 16"
  by (simp_all add: to_be_bytes_def)

lemma length_header [simp]: "length (frame_header f) = 48"
  by (simp add: frame_header_def)

lemma message_class_roundtrip:
  "message_class_try_from (message_class_byte c) = Inr c"
  "message_class_try_from v = Inr c \<Longrightarrow> v = message_class_byte c"
  by (cases c; simp add: message_class_try_from_def)
    (auto simp: message_class_try_from_def split: if_splits)

lemma version_validate_iff: "version_validate v = Inr () \<longleftrightarrow> v = current_version"
  by (auto simp: version_validate_def current_version_def)

text \<open>What the decoder needs of a frame, and what it then returns.\<close>

definition decodable :: "bool \<Rightarrow> frame \<Rightarrow> bool" where
  "decodable v f \<longleftrightarrow> fr_flags f = 0 \<and> fr_message_id f \<noteq> 0 \<and> fr_correlation_id f \<noteq> Some 0
     \<and> (v \<longrightarrow> fr_version f = current_version) \<and> length (fr_payload f) < 2 ^ 32"

lemma decode_body_complete:
  assumes "decodable v f"
  shows "frame_decode_body (frame_header f @ fr_payload f) v = Inr f"
proof -
  let ?b = "frame_header f @ fr_payload f"
  let ?c = "case fr_correlation_id f of None \<Rightarrow> 0 | Some c \<Rightarrow> c"
  let ?n = "of_nat (length (fr_payload f)) :: u32"
  have u: "unat ?n = length (fr_payload f)"
    using assms by (simp add: decodable_def unsigned_of_nat take_bit_nat_eq_self_iff)
  have f: "take_u32 ?b 0 = Inr (MAGIC, 4)" "take_u16 ?b 4 = Inr (major (fr_version f), 6)"
    "take_u16 ?b 6 = Inr (minor (fr_version f), 8)"
    "take_u8 ?b 8 = Inr (message_class_byte (fr_class f), 9)"
    "take_u16 ?b 9 = Inr (fr_opcode f, 11)" "take_u8 ?b 11 = Inr (fr_flags f, 12)"
    "take_uuid ?b 12 = Inr (fr_message_id f, 28)" "take_uuid ?b 28 = Inr (?c, 44)"
    "take_u32 ?b 44 = Inr (?n, 48)"
    unfolding u16_field.take_iff u32_field.take_iff uuid_field.take_iff u8_field.take_iff
    by (simp_all add: frame_header_def)
  have surj: "\<lparr>major = major w, minor = minor w\<rparr> = w" for w :: protocol_version by simp
  have cur: "version_validate current_version = Inr ()" by (simp add: version_validate_iff)
  have ver: "(if v then version_validate (fr_version f) else Inr ()) = Inr ()"
    using assms by (simp add: decodable_def version_validate_iff)
  have corr: "(if ?c \<noteq> 0 then Some ?c else None) = fr_correlation_id f"
    using assms by (cases "fr_correlation_id f") (simp_all add: decodable_def)
  show ?thesis
    using assms ver corr u
    by (simp add: frame_decode_body_def f message_class_roundtrip(1) HEADER_SIZE_def decodable_def
        Let_def surj cur)
qed

lemma decode_body_sound:
  assumes "frame_decode_body body v = Inr f"
  shows "decodable v f \<and> body = frame_header f @ fr_payload f"
proof -
  obtain p1 p2 p3 p4 p5 p6 p7 p8 p9 ma mi c cl opcode flags mid corr n where
    len: "48 \<le> length body" and
    f: "take_u32 body 0 = Inr (MAGIC, p1)" "take_u16 body p1 = Inr (ma, p2)"
      "take_u16 body p2 = Inr (mi, p3)" "take_u8 body p3 = Inr (c, p4)"
      "take_u16 body p4 = Inr (opcode, p5)" "take_u8 body p5 = Inr (flags, p6)"
      "take_uuid body p6 = Inr (mid, p7)" "take_uuid body p7 = Inr (corr, p8)"
      "take_u32 body p8 = Inr (n, p9)" and
    g: "v \<longrightarrow> version_validate \<lparr>major = ma, minor = mi\<rparr> = Inr ()"
      "message_class_try_from c = Inr cl" "flags = 0" "mid \<noteq> 0"
      "48 + unat n = length body" and
    r: "f = \<lparr>fr_version = \<lparr>major = ma, minor = mi\<rparr>, fr_class = cl, fr_opcode = opcode,
         fr_flags = flags, fr_message_id = mid,
         fr_correlation_id = (if corr \<noteq> 0 then Some corr else None), fr_payload = drop 48 body\<rparr>"
    using assms
    by (auto simp: frame_decode_body_def HEADER_SIZE_def bind_result_eq_Inr Let_def
        split: if_splits)
  have e: "take 4 (drop 0 body) = to_be_bytes MAGIC" "take 2 (drop 4 body) = to_be_bytes ma"
    "take 2 (drop 6 body) = to_be_bytes mi" "take 1 (drop 8 body) = [c]"
    "take 2 (drop 9 body) = to_be_bytes opcode" "take 1 (drop 11 body) = [flags]"
    "take 16 (drop 12 body) = to_be_bytes mid" "take 16 (drop 28 body) = to_be_bytes corr"
    "take 4 (drop 44 body) = to_be_bytes n"
    using f unfolding u16_field.take_iff u32_field.take_iff uuid_field.take_iff u8_field.take_iff
    by simp_all
  have n: "of_nat (length (drop 48 body)) = n" using g(5) by (metis length_drop diff_add_inverse of_nat_unat ucast_id)
  have "body = to_be_bytes MAGIC @ to_be_bytes ma @ to_be_bytes mi @ [c] @ to_be_bytes opcode
     @ [flags] @ to_be_bytes mid @ to_be_bytes corr @ to_be_bytes n @ drop 48 body"
    using header_split [of body] unfolding e by simp
  then have "body = frame_header f @ fr_payload f"
    using message_class_roundtrip(2) [OF g(2)] n
    by (cases "corr = 0") (simp_all add: r frame_header_def)
  moreover have "decodable v f"
    using g n unsigned_less [of n, where ?'a = nat]
    by (auto simp: r decodable_def version_validate_iff)
  ultimately show ?thesis by blast
qed

lemma decode_body_iff:
  "frame_decode_body body v = Inr f \<longleftrightarrow> decodable v f \<and> body = frame_header f @ fr_payload f"
  using decode_body_complete decode_body_sound by blast

lemma encode_iff:
  "frame_encode f = Inr bs \<longleftrightarrow> fr_message_id f \<noteq> 0 \<and> fr_flags f = 0
     \<and> HEADER_SIZE + length (fr_payload f) \<le> MAX_FRAME_SIZE
     \<and> bs = to_be_bytes (of_nat (HEADER_SIZE + length (fr_payload f)) :: u32)
            @ frame_header f @ fr_payload f"
  by (auto simp: frame_encode_def Let_def)

lemma declared_length:
  "n \<le> MAX_FRAME_SIZE \<Longrightarrow> unat (of_nat n :: u32) = n"
  by (simp add: MAX_FRAME_SIZE_def unsigned_of_nat take_bit_nat_eq_self_iff)

lemma decode_with_iff:
  "frame_decode_with bs v = Inr f \<longleftrightarrow>
     frame_encode f = Inr bs \<and> fr_correlation_id f \<noteq> Some 0
     \<and> (v \<longrightarrow> fr_version f = current_version)"
proof
  assume ok: "frame_decode_with bs v = Inr f"
  let ?d = "from_be_bytes (take 4 bs) :: u32"
  from ok have len: "length bs = 4 + unat ?d" "unat ?d \<le> MAX_FRAME_SIZE" "52 \<le> length bs"
    and body: "frame_decode_body (drop 4 bs) v = Inr f"
    by (auto simp: frame_decode_with_def Let_def LENGTH_PREFIX_SIZE_def HEADER_SIZE_def
        split: if_splits)
  have d: "decodable v f" "drop 4 bs = frame_header f @ fr_payload f"
    using body by (simp_all add: decode_body_iff)
  have "length (drop 4 bs) = 48 + length (fr_payload f)" unfolding d(2) by simp
  then have size: "unat ?d = HEADER_SIZE + length (fr_payload f)"
    using len(1,3) by (simp add: HEADER_SIZE_def)
  then have "?d = of_nat (HEADER_SIZE + length (fr_payload f))" by (metis of_nat_unat ucast_id)
  moreover have "to_be_bytes ?d = take 4 bs" by (rule to_be_bytes_from) (use len(3) in simp_all)
  ultimately have "bs = to_be_bytes (of_nat (HEADER_SIZE + length (fr_payload f)) :: u32)
      @ frame_header f @ fr_payload f"
    using d(2) append_take_drop_id [of 4 bs] by metis
  then show "frame_encode f = Inr bs \<and> fr_correlation_id f \<noteq> Some 0
     \<and> (v \<longrightarrow> fr_version f = current_version)"
    using d(1) size len(2) by (simp add: encode_iff decodable_def)
next
  assume a: "frame_encode f = Inr bs \<and> fr_correlation_id f \<noteq> Some 0
     \<and> (v \<longrightarrow> fr_version f = current_version)"
  then have e: "fr_message_id f \<noteq> 0" "fr_flags f = 0"
    "HEADER_SIZE + length (fr_payload f) \<le> MAX_FRAME_SIZE"
    "bs = to_be_bytes (of_nat (HEADER_SIZE + length (fr_payload f)) :: u32)
            @ frame_header f @ fr_payload f"
    by (auto simp: encode_iff)
  have t: "take 4 bs = to_be_bytes (of_nat (HEADER_SIZE + length (fr_payload f)) :: u32)"
    "drop 4 bs = frame_header f @ fr_payload f"
    unfolding e(4) by simp_all
  have l: "length bs = 52 + length (fr_payload f)" unfolding e(4) by simp
  have "frame_decode_body (drop 4 bs) v = Inr f"
    unfolding t(2) using a e(1-3)
    by (intro decode_body_complete) (simp add: decodable_def MAX_FRAME_SIZE_def HEADER_SIZE_def)
  moreover have "unat (from_be_bytes (take 4 bs) :: u32) = HEADER_SIZE + length (fr_payload f)"
    unfolding t(1) by (subst from_be_bytes_to) (simp, rule declared_length [OF e(3)])
  ultimately show "frame_decode_with bs v = Inr f"
    using l e(3) by (simp add: frame_decode_with_def LENGTH_PREFIX_SIZE_def HEADER_SIZE_def)
qed

text \<open>Reading from a stream that starts with an encoded frame.\<close>

lemma read_frame_encoded:
  assumes "frame_encode f = Inr bs" "fr_correlation_id f \<noteq> Some 0"
    and "v \<longrightarrow> fr_version f = current_version"
  shows "read_frame_with v (bs @ rest) = (Inr f, rest)"
proof -
  have e: "HEADER_SIZE + length (fr_payload f) \<le> MAX_FRAME_SIZE"
    "bs = to_be_bytes (of_nat (HEADER_SIZE + length (fr_payload f)) :: u32)
            @ frame_header f @ fr_payload f"
    using assms(1) by (simp_all add: encode_iff)
  let ?n = "HEADER_SIZE + length (fr_payload f)"
  let ?p = "to_be_bytes (of_nat ?n :: u32)"
  let ?b = "frame_header f @ fr_payload f"
  have s: "bs @ rest = ?p @ ?b @ rest" unfolding e(2) by simp
  have r1: "read_exact 4 (bs @ rest) = (Inr ?p, ?b @ rest)" unfolding s by (simp add: read_exact_def)
  have d: "unat (from_be_bytes ?p :: u32) = ?n"
    by (subst from_be_bytes_to) (simp, rule declared_length [OF e(1)])
  have r2: "read_exact ?n (?b @ rest) = (Inr ?b, rest)"
    by (simp add: read_exact_def HEADER_SIZE_def)
  have "frame_decode_with (?p @ ?b) v = Inr f"
    unfolding decode_with_iff using assms e(2) by simp
  then show ?thesis
    unfolding read_frame_with_def r1 and_then_Inr Let_def d using e(1) r2
    by (simp only: not_less [symmetric] if_False) (simp add: and_then_def)
qed

fun read_frames :: "nat \<Rightarrow> bytes \<Rightarrow> (frame_error + frame list) \<times> bytes" where
  "read_frames 0 s = (Inr [], s)"
| "read_frames (Suc n) s =
     and_then (read_frame s) (\<lambda>f s1. and_then (read_frames n s1) (\<lambda>fs s2. (Inr (f # fs), s2)))"

fun write_frames :: "frame list \<Rightarrow> bytes \<Rightarrow> (frame_error + unit) \<times> bytes" where
  "write_frames [] out = (Inr (), out)"
| "write_frames (f # fs) out = and_then (write_frame f out) (\<lambda>_ out1. write_frames fs out1)"

lemma write_frames_concat:
  "write_frames fs out = (Inr (), bs) \<Longrightarrow>
     \<exists>encs. list_all2 (\<lambda>f b. frame_encode f = Inr b) fs encs \<and> bs = out @ concat encs"
proof (induction fs arbitrary: out bs)
  case (Cons f fs)
  then obtain b where b: "frame_encode f = Inr b" "write_frames fs (out @ b) = (Inr (), bs)"
    by (auto simp: write_frame_def and_then_eq_Inr split: sum.splits)
  from Cons.IH [OF b(2)] obtain encs where
    "list_all2 (\<lambda>f b. frame_encode f = Inr b) fs encs" "bs = (out @ b) @ concat encs" by blast
  then show ?case using b(1) by (intro exI [of _ "b # encs"]) simp
qed auto

lemma read_frames_encoded:
  "list_all2 (\<lambda>f b. frame_encode f = Inr b) fs encs \<Longrightarrow>
     \<forall>f\<in>set fs. fr_version f = current_version \<and> fr_correlation_id f \<noteq> Some 0 \<Longrightarrow>
     read_frames (length fs) (concat encs @ rest) = (Inr fs, rest)"
  by (induction rule: list_all2_induct) (auto simp: read_frame_def read_frame_encoded)

section \<open>Properties\<close>

definition sample_frame :: frame where
  "sample_frame = frame_response 5 10 6 [1, 2, 3]"

lemma sample_frame_facts:
  "is_ok (frame_encode sample_frame)" "fr_version sample_frame = current_version"
  "fr_correlation_id sample_frame \<noteq> Some 0"
  by (simp_all add: sample_frame_def frame_response_def frame_message_def frame_encode_def
      HEADER_SIZE_def MAX_FRAME_SIZE_def Let_def)

text \<open>Decoding accepts exactly what encoding produces: bytes decode to a frame if and only
  if the frame encodes to those bytes, has the current protocol version and does not carry the
  nil UUID as a correlation. So encoding is injective on such frames, every accepted byte string
  is canonical, and a handshake decoder differs in the version check only.\<close>

theorem frame_decode_inverts_encode:
  "(frame_decode bs = Inr f \<longleftrightarrow>
      frame_encode f = Inr bs \<and> fr_correlation_id f \<noteq> Some 0 \<and> fr_version f = current_version)
   \<and> (frame_decode_for_handshake bs = Inr f \<longleftrightarrow>
      frame_encode f = Inr bs \<and> fr_correlation_id f \<noteq> Some 0)"
  by (simp add: frame_decode_def frame_decode_for_handshake_def decode_with_iff)

text \<open>C5: what one side writes the other side reads: frames written one after the other into a
  stream are read back in order, and the bytes that follow them are left for the next read.\<close>

theorem frame_stream_roundtrip:
  assumes "write_frames fs [] = (Inr (), bs)"
    and "\<forall>f\<in>set fs. fr_version f = current_version \<and> fr_correlation_id f \<noteq> Some 0"
  shows "read_frames (length fs) (bs @ rest) = (Inr fs, rest)"
  using write_frames_concat [OF assms(1)] read_frames_encoded [OF _ assms(2)] by auto

theorem frame_stream_roundtrip_witness:
  "\<exists>bs. read_frames 2 (bs @ [9]) = (Inr [sample_frame, sample_frame], [9])"
proof -
  obtain b where "frame_encode sample_frame = Inr b"
    using sample_frame_facts(1) by (auto simp: is_ok_iff)
  then have "write_frames [sample_frame, sample_frame] [] = (Inr (), b @ b)"
    by (simp add: write_frame_def)
  then have "read_frames (length [sample_frame, sample_frame]) ((b @ b) @ [9])
      = (Inr [sample_frame, sample_frame], [9])"
    by (rule frame_stream_roundtrip) (simp add: sample_frame_facts(2,3))
  moreover have "length [sample_frame, sample_frame] = 2" by simp
  ultimately show ?thesis by metis
qed

text \<open>a reader never asks the stream for more than one maximal frame: an announced length
  above the limit or below the header is refused after the four bytes of the prefix, and a frame
  that is returned fits the limit.\<close>

theorem read_frame_bounded:
  assumes "read_frame_with v s = (r, rest)"
  shows "(r \<noteq> Inl UnexpectedEof \<longrightarrow>
        length s \<le> length rest + LENGTH_PREFIX_SIZE + MAX_FRAME_SIZE)
     \<and> (4 \<le> length s \<longrightarrow> unat (from_be_bytes (take 4 s) :: u32) > MAX_FRAME_SIZE \<longrightarrow>
          r = Inl (FrameTooLarge (unat (from_be_bytes (take 4 s) :: u32)) MAX_FRAME_SIZE)
          \<and> rest = drop 4 s)
     \<and> (\<forall>f. r = Inr f \<longrightarrow> HEADER_SIZE + length (fr_payload f) \<le> MAX_FRAME_SIZE)"
proof (intro conjI impI allI)
  show "length s \<le> length rest + LENGTH_PREFIX_SIZE + MAX_FRAME_SIZE"
    if "r \<noteq> Inl UnexpectedEof"
    using assms that
    by (auto simp: read_frame_with_def read_exact_def Let_def LENGTH_PREFIX_SIZE_def
        MAX_FRAME_SIZE_def split: if_splits)
  show "r = Inl (FrameTooLarge (unat (from_be_bytes (take 4 s) :: u32)) MAX_FRAME_SIZE)"
    "rest = drop 4 s"
    if "4 \<le> length s" "unat (from_be_bytes (take 4 s) :: u32) > MAX_FRAME_SIZE"
    using assms that by (auto simp: read_frame_with_def read_exact_def Let_def)
  show "HEADER_SIZE + length (fr_payload f) \<le> MAX_FRAME_SIZE" if "r = Inr f" for f
    using assms that
    by (auto simp: read_frame_with_def read_exact_def Let_def decode_with_iff encode_iff
        split: if_splits)
qed

theorem read_frame_bounded_witness:
  "\<exists>e. read_frame_with True [0xFF, 0xFF, 0xFF, 0xFF, 1] = (Inl e, [1])"
proof -
  define s :: bytes where "s = [0xFF, 0xFF, 0xFF, 0xFF, 1]"
  have big: "unat (from_be_bytes (take 4 s) :: u32) > MAX_FRAME_SIZE"
    by (simp add: s_def from_be_bytes_def be_value_def MAX_FRAME_SIZE_def)
  have len: "4 \<le> length s" "drop 4 s = [1]" by (simp_all add: s_def)
  obtain r rest where eq: "read_frame_with True s = (r, rest)" by fastforce
  have "\<exists>e. read_frame_with True s = (Inl e, [1])"
    using read_frame_bounded [OF eq] big len eq by auto
  then show ?thesis by (simp only: s_def)
qed

end
