(* ===== verification/Scrollback.thy ===== *)
theory Scrollback
  imports Frame_Codec
begin

text \<open>
  The byte-bounded output ring of a Session, \<open>Scrollback\<close> of
  \<open>crates/sylvops-daemon/src/session.rs\<close>, and \<open>SessionSpec::validate\<close>. The reference is the
  complete list of chunks ever pushed; the ring refines it: a replay either announces a gap or
  is exactly the suffix of that list after the requested sequence number, and the ring gives up
  a chunk only when its two bounds force it to.
\<close>

section \<open>Session specifications\<close>

record session_spec =
  sp_program :: str
  sp_cwd_is_absolute :: bool
  sp_columns :: u16
  sp_rows :: u16
  sp_scrollback_bytes :: nat

datatype spec_error = ProgramEmpty | CwdNotAbsolute | ZeroDimensions | ZeroScrollback

text \<open>\<open>Path::is_absolute\<close> is the platform's; the record carries its answer.\<close>

definition spec_validate :: "session_spec \<Rightarrow> spec_error + unit" where
  "spec_validate s =
     (if sp_program s = [] then Inl ProgramEmpty
      else if \<not> sp_cwd_is_absolute s then Inl CwdNotAbsolute
      else if sp_columns s = 0 \<or> sp_rows s = 0 then Inl ZeroDimensions
      else if sp_scrollback_bytes s = 0 then Inl ZeroScrollback
      else Inr ())"

section \<open>The ring\<close>

definition MAX_SCROLLBACK_CHUNKS :: nat where "MAX_SCROLLBACK_CHUNKS = 4096"
definition READ_CHUNK_SIZE :: nat where "READ_CHUNK_SIZE = 8192"

record output_chunk =
  oc_sequence :: u64
  oc_bytes :: bytes

record scrollback =
  sb_capacity :: nat
  sb_retained :: nat
  sb_latest :: u64
  sb_lost_through :: u64
  sb_chunks :: "output_chunk list"

record replay =
  rp_earliest :: "u64 option"
  rp_latest :: u64
  rp_gap :: bool
  rp_chunks :: "output_chunk list"
  rp_snapshot :: "bytes option"

text \<open>The \<open>assert!\<close> panics on a capacity of 0: \<open>None\<close>.\<close>

definition scrollback_new :: "nat \<Rightarrow> scrollback option" where
  "scrollback_new capacity =
     (if capacity > 0
      then Some \<lparr>sb_capacity = capacity, sb_retained = 0, sb_latest = 0, sb_lost_through = 0,
                 sb_chunks = []\<rparr>
      else None)"

text \<open>
  The \<open>while\<close> of \<open>push\<close>. With nothing left to evict and the bound still exceeded it would spin
  for ever, which is the result \<open>None\<close>.
\<close>

fun evict :: "nat \<Rightarrow> nat \<Rightarrow> u64 \<Rightarrow> output_chunk list \<Rightarrow> (nat \<times> u64 \<times> output_chunk list) option" where
  "evict capacity retained lost chunks =
     (if retained > capacity \<or> length chunks > MAX_SCROLLBACK_CHUNKS then
        (case chunks of
           [] \<Rightarrow> None
         | c # cs \<Rightarrow> evict capacity (retained - length (oc_bytes c)) (oc_sequence c) cs)
      else Some (retained, lost, chunks))"

declare evict.simps [simp del]

definition push :: "bytes \<Rightarrow> scrollback \<Rightarrow> (output_chunk \<times> scrollback) option" where
  "push bs s =
     (let latest = saturating_add (sb_latest s) 1;
          live = \<lparr>oc_sequence = latest, oc_bytes = bs\<rparr>;
          too_long = length bs > sb_capacity s;
          lost = (if too_long then latest else sb_lost_through s);
          kept = (if too_long then drop (length bs - sb_capacity s) bs else bs)
      in case evict (sb_capacity s) (sb_retained s + length kept) lost
                (sb_chunks s @ [\<lparr>oc_sequence = latest, oc_bytes = kept\<rparr>]) of
           None \<Rightarrow> None
         | Some (retained, lost', chunks) \<Rightarrow>
             Some (live, s\<lparr>sb_retained := retained, sb_latest := latest, sb_lost_through := lost',
                           sb_chunks := chunks\<rparr>))"

definition replay_after :: "u64 \<Rightarrow> scrollback \<Rightarrow> replay" where
  "replay_after from_sequence s =
     (let earliest = (case sb_chunks s of [] \<Rightarrow> None | c # _ \<Rightarrow> Some (oc_sequence c))
      in \<lparr>rp_earliest = earliest, rp_latest = sb_latest s,
          rp_gap = (from_sequence > sb_latest s \<or> from_sequence < sb_lost_through s
            \<or> (case earliest of None \<Rightarrow> False
                | Some e \<Rightarrow> saturating_add from_sequence 1 < e)),
          rp_chunks = filter (\<lambda>c. oc_sequence c > from_sequence) (sb_chunks s),
          rp_snapshot = None\<rparr>)"

section \<open>The reference and the refinement\<close>

text \<open>The bytes that were pushed, in order; the \<open>i\<close>-th (from 1) has sequence number \<open>i\<close>.\<close>

fun numbered :: "nat \<Rightarrow> bytes list \<Rightarrow> output_chunk list" where
  "numbered k [] = []"
| "numbered k (b # bs) = \<lparr>oc_sequence = of_nat (k + 1), oc_bytes = b\<rparr> # numbered (k + 1) bs"

definition total :: "bytes list \<Rightarrow> nat" where
  "total h = sum_list (map length h)"

definition fits :: "nat \<Rightarrow> bytes list \<Rightarrow> bool" where
  "fits capacity h \<longleftrightarrow> total h \<le> capacity \<and> length h \<le> MAX_SCROLLBACK_CHUNKS"

text \<open>
  \<open>refines h k s\<close>: the ring \<open>s\<close> stands for the history \<open>h\<close> of which the first \<open>k\<close> chunks are
  gone, and giving up one fewer would have broken a bound.
\<close>

definition refines :: "bytes list \<Rightarrow> nat \<Rightarrow> scrollback \<Rightarrow> bool" where
  "refines h k s \<longleftrightarrow> length h + 1 < 2 ^ 64 \<and> k \<le> length h
     \<and> sb_latest s = of_nat (length h) \<and> sb_lost_through s = of_nat k
     \<and> sb_chunks s = numbered k (drop k h) \<and> sb_retained s = total (drop k h)
     \<and> fits (sb_capacity s) (drop k h)
     \<and> (\<forall>i<k. \<not> fits (sb_capacity s) (drop i h))"

lemma total_simps [simp]:
  "total [] = 0" "total (b # bs) = length b + total bs" "total (xs @ ys) = total xs + total ys"
  by (simp_all add: total_def)

lemma numbered_append:
  "numbered k (xs @ ys) = numbered k xs @ numbered (k + length xs) ys"
  by (induction xs arbitrary: k) (simp_all add: add.assoc)

lemma length_numbered [simp]: "length (numbered k xs) = length xs"
  by (induction xs arbitrary: k) simp_all

lemma numbered_bytes [simp]: "map oc_bytes (numbered k xs) = xs"
  by (induction xs arbitrary: k) simp_all

lemma fits_Nil [simp]: "fits capacity []"
  by (simp add: fits_def)

lemma evict_numbered:
  "\<exists>j\<le>length xs. fits capacity (drop j xs) \<and> (\<forall>i<j. \<not> fits capacity (drop i xs))
     \<and> evict capacity (total xs) lost (numbered k xs)
       = Some (total (drop j xs), (if j = 0 then lost else of_nat (k + j)),
               numbered (k + j) (drop j xs))"
proof (induction xs arbitrary: k lost)
  case Nil
  then show ?case by (simp add: evict.simps)
next
  case (Cons x xs)
  show ?case
  proof (cases "fits capacity (x # xs)")
    case True
    then have "evict capacity (total (x # xs)) lost (numbered k (x # xs))
        = Some (total (x # xs), lost, numbered k (x # xs))"
      by (simp add: evict.simps fits_def)
    then show ?thesis using True by (intro exI [of _ 0]) simp
  next
    case False
    then have e: "evict capacity (total (x # xs)) lost (numbered k (x # xs))
        = evict capacity (total xs) (of_nat (k + 1)) (numbered (k + 1) xs)"
      by (subst evict.simps) (auto simp: fits_def)
    obtain j where j: "j \<le> length xs" "fits capacity (drop j xs)"
      "\<forall>i<j. \<not> fits capacity (drop i xs)"
      "evict capacity (total xs) (of_nat (k + 1)) (numbered (k + 1) xs)
       = Some (total (drop j xs), (if j = 0 then of_nat (k + 1) else of_nat (k + 1 + j)),
               numbered (k + 1 + j) (drop j xs))"
      using Cons.IH [of "of_nat (k + 1)" "k + 1"] by blast
    have "\<forall>i<Suc j. \<not> fits capacity (drop i (x # xs))"
      using False j(3) by (auto simp: less_Suc_eq_0_disj)
    then show ?thesis using j e by (intro exI [of _ "Suc j"]) simp
  qed
qed

lemma of_nat_u64: "n < 2 ^ 64 \<Longrightarrow> unat (of_nat n :: u64) = n"
  by (simp add: unsigned_of_nat take_bit_nat_eq_self_iff)

lemma saturating_succ_of_nat:
  assumes "n + 1 < 2 ^ 64"
  shows "saturating_add (of_nat n :: u64) 1 = of_nat (n + 1)"
proof -
  have "unat (of_nat n :: u64) = n" by (rule of_nat_u64) (use assms in simp)
  then have "unat (of_nat n :: u64) + unat (1 :: u64) < 2 ^ LENGTH(64)" using assms by simp
  then show ?thesis by (simp only: saturating_add_def if_True of_nat_add of_nat_1)
qed

lemma fits_less: "\<not> fits c xs \<Longrightarrow> \<not> fits c (xs @ ys)"
  by (auto simp: fits_def)

lemma refines_new:
  assumes "0 < c"
  obtains s where "scrollback_new c = Some s" "sb_capacity s = c" "refines [] 0 s"
proof
  let ?s = "\<lparr>sb_capacity = c, sb_retained = 0, sb_latest = 0, sb_lost_through = 0,
      sb_chunks = []\<rparr>"
  show "scrollback_new c = Some ?s" using assms by (simp add: scrollback_new_def)
  show "sb_capacity ?s = c" by simp
  show "refines [] 0 ?s" unfolding refines_def fits_def by simp
qed

lemma push_refines:
  assumes "refines h k s" "length b \<le> sb_capacity s" "length h + 2 < 2 ^ 64"
  shows "\<exists>k' s'. push b s = Some (\<lparr>oc_sequence = of_nat (length h + 1), oc_bytes = b\<rparr>, s')
     \<and> k \<le> k' \<and> refines (h @ [b]) k' s' \<and> sb_capacity s' = sb_capacity s"
proof -
  let ?c = "sb_capacity s"
  define n where "n = length h + 1"
  define xs where "xs = drop k (h @ [b])"
  have k: "k \<le> length h" and old: "\<forall>i<k. \<not> fits ?c (drop i h)"
    and s: "sb_latest s = of_nat (length h)" "sb_lost_through s = of_nat k"
      "sb_chunks s = numbered k (drop k h)" "sb_retained s = total (drop k h)"
    using assms(1) by (simp_all add: refines_def)
  have xs: "xs = drop k h @ [b]" using k by (simp add: xs_def)
  have latest: "saturating_add (sb_latest s) 1 = of_nat n"
    unfolding s(1) n_def by (rule saturating_succ_of_nat) (use assms(3) in simp)
  have chunks: "sb_chunks s @ [\<lparr>oc_sequence = of_nat n, oc_bytes = b\<rparr>] = numbered k xs"
    using k by (simp add: xs s(3) numbered_append n_def)
  have retained: "sb_retained s + length b = total xs" unfolding xs s(4) by simp
  obtain j where j: "j \<le> length xs" "fits ?c (drop j xs)" "\<forall>i<j. \<not> fits ?c (drop i xs)"
    "evict ?c (total xs) (sb_lost_through s) (numbered k xs)
       = Some (total (drop j xs), (if j = 0 then sb_lost_through s else of_nat (k + j)),
               numbered (k + j) (drop j xs))"
    using evict_numbered [of xs ?c "sb_lost_through s" k] by blast
  let ?s = "s\<lparr>sb_retained := total (drop j xs), sb_latest := of_nat n,
      sb_lost_through := of_nat (k + j), sb_chunks := numbered (k + j) (drop j xs)\<rparr>"
  have lost: "(if j = 0 then sb_lost_through s else of_nat (k + j)) = of_nat (k + j)"
    unfolding s(2) by simp
  have short: "\<not> length b > ?c" using assms(2) by simp
  have p: "push b s = Some (\<lparr>oc_sequence = of_nat n, oc_bytes = b\<rparr>, ?s)"
    by (simp only: push_def Let_def latest short if_False chunks retained j(4) lost option.case
        prod.case)
  have "\<not> fits ?c (drop i (h @ [b]))" if i: "i < k + j" for i
  proof (cases "i < k")
    case True
    then show ?thesis using old k fits_less [of ?c "drop i h" "[b]"] by simp
  next
    case False
    have "drop (i - k) xs = drop (i - k + k) (h @ [b])" unfolding xs_def by (rule drop_drop)
    moreover have "i - k + k = i" "i - k < j" using False i by simp_all
    ultimately show ?thesis using j(3) by metis
  qed
  moreover have "drop (k + j) (h @ [b]) = drop j xs"
    unfolding xs_def drop_drop by (simp only: add.commute)
  ultimately have "refines (h @ [b]) (k + j) ?s"
    using j(1,2) k assms(3) by (simp only: refines_def n_def) (simp add: xs)
  then show ?thesis using p by (intro exI [of _ "k + j"] exI [of _ ?s]) (simp add: n_def)
qed

fun push_all :: "bytes list \<Rightarrow> scrollback \<Rightarrow> scrollback option" where
  "push_all [] s = Some s"
| "push_all (b # bs) s = (case push b s of None \<Rightarrow> None | Some (_, s') \<Rightarrow> push_all bs s')"

lemma push_all_refines:
  assumes "refines h k s" "\<forall>b\<in>set bs. length b \<le> sb_capacity s"
    and "length h + length bs + 1 < 2 ^ 64"
  shows "\<exists>k' s'. push_all bs s = Some s' \<and> refines (h @ bs) k' s' \<and> sb_capacity s' = sb_capacity s"
  using assms
proof (induction bs arbitrary: h k s)
  case (Cons b bs)
  obtain k1 s1 where s1: "push b s = Some (\<lparr>oc_sequence = of_nat (length h + 1), oc_bytes = b\<rparr>, s1)"
    "refines (h @ [b]) k1 s1" "sb_capacity s1 = sb_capacity s"
    using push_refines [OF Cons.prems(1), of b] Cons.prems(2,3) by auto
  from Cons.IH [OF s1(2)] Cons.prems(2,3) s1(3)
  obtain k' s' where "push_all bs s1 = Some s'" "refines ((h @ [b]) @ bs) k' s'"
    "sb_capacity s' = sb_capacity s" by auto
  then show ?case using s1(1) by auto
qed auto

text \<open>Chunks above a sequence number.\<close>

lemma numbered_above_all:
  "k + length xs < 2 ^ 64 \<Longrightarrow> n \<le> k \<Longrightarrow>
     filter (\<lambda>c. unat (oc_sequence c) > n) (numbered k xs) = numbered k xs"
proof (induction xs arbitrary: k)
  case (Cons x xs)
  have "unat (of_nat (k + 1) :: u64) = k + 1" using Cons.prems(1) by (intro of_nat_u64) simp
  then show ?case using Cons.IH [of "k + 1"] Cons.prems
    by (simp only: numbered.simps filter.simps output_chunk.select_convs) simp
qed simp

lemma numbered_above:
  "k + length xs < 2 ^ 64 \<Longrightarrow>
     filter (\<lambda>c. unat (oc_sequence c) > n) (numbered k xs) = numbered (max k n) (drop (n - k) xs)"
proof (induction xs arbitrary: k)
  case (Cons x xs)
  show ?case
  proof (cases "n \<le> k")
    case True
    then show ?thesis using numbered_above_all [OF Cons.prems True] by (simp add: max_def)
  next
    case False
    have "unat (of_nat (k + 1) :: u64) = k + 1" using Cons.prems by (intro of_nat_u64) simp
    then have "filter (\<lambda>c. unat (oc_sequence c) > n) (numbered k (x # xs))
        = filter (\<lambda>c. unat (oc_sequence c) > n) (numbered (k + 1) xs)"
      using False by (simp only: numbered.simps filter.simps output_chunk.select_convs) simp
    also have "\<dots> = numbered (max (k + 1) n) (drop (n - (k + 1)) xs)"
      using Cons.prems by (intro Cons.IH) simp
    also have "\<dots> = numbered (max k n) (drop (n - k) (x # xs))"
      using False by (simp add: max_def drop_Cons' Suc_diff_Suc)
    finally show ?thesis .
  qed
qed simp

lemma replay_refines:
  assumes "refines h k s"
  shows "rp_gap (replay_after from_seq s) \<longleftrightarrow> unat from_seq > length h \<or> unat from_seq < k"
    and "k \<le> unat from_seq \<Longrightarrow>
      rp_chunks (replay_after from_seq s) = numbered (unat from_seq) (drop (unat from_seq) h)"
    and "rp_latest (replay_after from_seq s) = of_nat (length h)"
proof -
  have k: "k \<le> length h" "length h + 1 < 2 ^ 64"
    and s: "sb_latest s = of_nat (length h)" "sb_lost_through s = of_nat k"
      "sb_chunks s = numbered k (drop k h)"
    using assms by (simp_all add: refines_def)
  have u: "unat (sb_latest s) = length h" "unat (sb_lost_through s) = k"
    unfolding s(1,2) by (rule of_nat_u64; use k in simp)+
  have early: "\<not> (case (case sb_chunks s of [] \<Rightarrow> None | c # _ \<Rightarrow> Some (oc_sequence c)) of
      None \<Rightarrow> False | Some e \<Rightarrow> saturating_add from_seq 1 < e)" if "k \<le> unat from_seq"
  proof (cases "drop k h")
    case Nil
    then show ?thesis by (simp add: s(3))
  next
    case (Cons x xs)
    have "unat (of_nat (k + 1) :: u64) = k + 1"
      by (rule of_nat_u64) (use k in simp)
    moreover have "k + 1 \<le> unat (saturating_add from_seq 1)"
      using that k unfolding unat_saturating_add by simp
    ultimately have "\<not> saturating_add from_seq 1 < of_nat (k + 1)"
      by (simp only: word_less_nat_alt)
    then show ?thesis unfolding s(3) Cons
      by (simp only: numbered.simps list.case option.case output_chunk.select_convs simp_thms)
  qed
  show "rp_gap (replay_after from_seq s) \<longleftrightarrow> unat from_seq > length h \<or> unat from_seq < k"
    using early unfolding replay_after_def Let_def replay.select_convs word_less_nat_alt u
    by (auto simp: not_le)
  show "rp_chunks (replay_after from_seq s) = numbered (unat from_seq) (drop (unat from_seq) h)"
    if "k \<le> unat from_seq"
  proof -
    have "k + length (drop k h) < 2 ^ 64" using k by simp
    from numbered_above [OF this, of "unat from_seq"] show ?thesis
      using that by (simp add: replay_after_def word_less_nat_alt s(3) max_def Let_def)
  qed
  show "rp_latest (replay_after from_seq s) = of_nat (length h)"
    by (simp add: replay_after_def Let_def s(1))
qed

section \<open>Properties\<close>

text \<open>C6: no silent loss. With chunks that each fit the capacity (the reader's are at most 8 KiB
  and the configured capacity at least 64 KiB), a replay after sequence number \<open>n\<close> announces a
  gap exactly when \<open>n\<close> lies in the future or some chunk after \<open>n\<close> has been given up, and
  otherwise delivers precisely the chunks pushed after the \<open>n\<close>-th, complete and in order; the
  ring respects both bounds and gives up no chunk it had room for. Pushing always terminates.\<close>

theorem scrollback_replay_exact:
  assumes "scrollback_new capacity = Some s0" "\<forall>b\<in>set bs. length b \<le> capacity"
    and "length bs + 1 < 2 ^ 64"
  shows "\<exists>s k. push_all bs s0 = Some s \<and> k \<le> length bs \<and> fits capacity (drop k bs)
     \<and> (\<forall>i<k. \<not> fits capacity (drop i bs))
     \<and> (\<forall>n. (rp_gap (replay_after n s) \<longleftrightarrow> unat n > length bs \<or> unat n < k)
          \<and> (\<not> rp_gap (replay_after n s) \<longrightarrow>
               rp_chunks (replay_after n s) = numbered (unat n) (drop (unat n) bs)))"
proof -
  have c: "0 < capacity" using assms(1) by (simp add: scrollback_new_def split: if_splits)
  obtain s where s: "scrollback_new capacity = Some s" "sb_capacity s = capacity" "refines [] 0 s"
    using refines_new [OF c] by blast
  then have s0: "s = s0" using assms(1) by simp
  obtain k' s' where r: "push_all bs s0 = Some s'" "refines bs k' s'" "sb_capacity s' = capacity"
    using push_all_refines [OF s(3), of bs] assms(2,3) s(2) unfolding s0 by auto
  show ?thesis
  proof (intro exI conjI)
    show "push_all bs s0 = Some s'" by (rule r(1))
    show "k' \<le> length bs" "fits capacity (drop k' bs)" "\<forall>i<k'. \<not> fits capacity (drop i bs)"
      using r(2,3) by (simp_all add: refines_def)
    show "\<forall>n. (rp_gap (replay_after n s') \<longleftrightarrow> unat n > length bs \<or> unat n < k')
          \<and> (\<not> rp_gap (replay_after n s') \<longrightarrow>
               rp_chunks (replay_after n s') = numbered (unat n) (drop (unat n) bs))"
      using replay_refines [OF r(2)] by (simp add: not_less)
  qed
qed

theorem scrollback_replay_exact_witness:
  "\<exists>s0 s. scrollback_new 4 = Some s0 \<and> push_all [[1], [2, 3], [4, 5]] s0 = Some s
     \<and> fits 4 (drop 1 [[1], [2, 3], [4, 5 :: u8]])"
proof -
  obtain s0 where s0: "scrollback_new 4 = Some s0" by (simp add: scrollback_new_def)
  have "\<forall>b\<in>set [[1], [2, 3], [4, 5 :: u8]]. length b \<le> 4" by simp
  moreover have "length [[1], [2, 3], [4, 5 :: u8]] + 1 < 2 ^ 64" by simp
  ultimately obtain s where "push_all [[1], [2, 3], [4, 5]] s0 = Some s"
    using scrollback_replay_exact [OF s0] by blast
  then show ?thesis using s0 by (auto simp: fits_def MAX_SCROLLBACK_CHUNKS_def)
qed

text \<open>
  Without the bound on the chunk the announcement is wrong: \<open>push\<close> first notes that a chunk
  longer than the capacity is itself lost, then lets the eviction loop overwrite the note with
  the older chunk it evicts, so a replay after that older chunk delivers the truncated one
  without a gap.
\<close>

lemma oversized_chunk_hides_truncation:
  "\<exists>s0 s. scrollback_new 4 = Some s0 \<and> push_all [[1], [1, 2, 3, 4, 5]] s0 = Some s
     \<and> \<not> rp_gap (replay_after 1 s)
     \<and> rp_chunks (replay_after 1 s) = [\<lparr>oc_sequence = 2, oc_bytes = [2, 3, 4, 5]\<rparr>]"
  by (simp add: scrollback_new_def push_def Let_def saturating_add_def evict.simps
      MAX_SCROLLBACK_CHUNKS_def replay_after_def)

end
