(* ===== verification/Session_Actor.thy ===== *)
theory Session_Actor
  imports Scrollback Domain "HOL-Library.Multiset" "HOL-Library.Sublist"
begin

text \<open>
  The task that owns a PTY Session, \<open>Actor\<close> of \<open>crates/sylvops-daemon/src/session.rs\<close>: client
  leases, input, resizing, output, the stop protocol and the publication of the exit. One pass
  of the \<open>select!\<close> loop is \<open>actor_step\<close>: the message it received, then the common tail that may
  publish the exit. What the operating system and the VT parser answer in that pass is an
  argument.
\<close>

section \<open>The terminal\<close>

text \<open>The \<open>vt100\<close> parser, a third-party state of type \<open>'t\<close>, through the operations the actor uses.\<close>

record 't vt =
  vt_process :: "bytes \<Rightarrow> 't \<Rightarrow> 't"
  vt_set_size_reflow :: "u16 \<Rightarrow> u16 \<Rightarrow> nat \<Rightarrow> 't \<Rightarrow> 't"
  vt_alternate_screen :: "'t \<Rightarrow> bool"
  vt_state_formatted :: "'t \<Rightarrow> bytes"
  vt_input_mode_formatted :: "'t \<Rightarrow> bytes"
  vt_contents :: "'t \<Rightarrow> str"

definition SNAPSHOT_LIMIT :: nat where "SNAPSHOT_LIMIT = 512 * 1024"

definition ansi :: "string \<Rightarrow> bytes" where
  "ansi s = 0x1b # map (\<lambda>c. of_nat (of_char c)) s"

definition crlf :: "str \<Rightarrow> str" where
  "crlf s = concat (map (\<lambda>c. if c = 10 then [13, 10] else [c]) s)"

text \<open>
  Advancing \<open>start\<close> from \<open>text.len() - budget\<close> to the next character boundary leaves the longest
  suffix of whole characters within the budget.
\<close>

fun suffix_within :: "nat \<Rightarrow> str \<Rightarrow> str" where
  "suffix_within budget [] = []"
| "suffix_within budget (c # s) =
     (if byte_len (c # s) \<le> budget then c # s else suffix_within budget s)"

definition terminal_snapshot :: "'t vt \<Rightarrow> 't \<Rightarrow> bytes" where
  "terminal_snapshot vt p =
     (let grid_mode = ansi (if vt_alternate_screen vt p then ''[?47h'' else ''[?47l'');
          formatted = grid_mode @ vt_state_formatted vt p
      in if length formatted \<le> SNAPSHOT_LIMIT then formatted
         else
           let bounded = grid_mode @ ansi ''[0m'' @ ansi ''[2J'' @ ansi ''[H''
                 @ map (\<lambda>c. of_nat (of_char c)) ''[terminal snapshot truncated]'' @ [13, 10];
               input_modes = vt_input_mode_formatted vt p;
               text = crlf (vt_contents vt p)
           in bounded
              @ utf8_bytes (suffix_within (SNAPSHOT_LIMIT - length bounded - length input_modes) text)
              @ input_modes)"

section \<open>State, messages and replies\<close>

record 't actor =
  ac_runtime :: bool
  ac_writer_open :: bool
  ac_scrollback :: scrollback
  ac_terminal :: 't
  ac_revision :: u64
  ac_columns :: u16
  ac_rows :: u16
  ac_controller :: "uuid option"
  ac_observers :: "uuid set"
  ac_stop_requested :: bool
  ac_runtime_failed :: bool
  ac_stop_replies :: "nat list"
  ac_tree_empty :: bool
  ac_reader_closed :: bool
  ac_pending_exit :: "u32 option"
  ac_exit_published :: bool

datatype actor_error =
    InvalidDimensions terminal_size_error
  | PtyResizeFailed
  | NotController
  | PtyInputClosed
  | PtyWriterBackpressured
  | ProcessTreeError
  | ReapDeadline

record attachment =
  at_role :: attachment_role
  at_replay :: replay
  at_columns :: u16
  at_rows :: u16
  at_capacity :: nat
  at_completion_published :: bool
  at_revision :: u64

record checkpoint =
  cp_revision :: u64
  cp_sequence :: u64
  cp_columns :: u16
  cp_rows :: u16
  cp_snapshot :: bytes

text \<open>Messages: the branches of \<open>select!\<close>. A stop carries the identity of its reply channel.\<close>

datatype actor_input =
    RuntimeEnded
  | CommandsClosed
  | CmdRuntimeFailed
  | CmdAttach uuid u64 u16 u16
  | CmdDetach uuid
  | CmdInputFrom uuid bytes
  | CmdResizeFrom uuid u16 u16
  | CmdInput bytes
  | CmdResize u16 u16
  | CmdReplay u64
  | CmdSnapshot
  | CmdStop nat
  | CmdInspect
  | EvOutput bytes
  | EvReaderClosed
  | EvReaderFailed
  | EvExited u32
  | EvForceStop

datatype actor_output =
    AttachReply uuid "actor_error + attachment"
  | DetachReply uuid
  | WriterInput bytes
  | InputRefused actor_error
  | WriterClose
  | ResizeReply "actor_error + unit"
  | ReplayReply replay
  | SnapshotReply checkpoint
  | StopReply nat "actor_error + unit"
  | InspectReply "actor_error + bool"
  | ForceStopScheduled
  | TerminateCalled
  | TerminalOutput output_chunk
  | TerminalResized u64 u64 u16 u16 bytes
  | LiveOutput output_chunk
  | ExitPublished u32 bool

text \<open>
  What the outside answers during one pass: the PTY's resize, the writer queue's \<open>try_send\<close>,
  the two \<open>terminate\<close> calls, and for each poll of the reap loop whether the process tree and
  the backend are empty (\<open>None\<close> is an inspection error; the last poll is the one at the deadline).
\<close>

record env =
  env_resize_ok :: bool
  env_writer_ready :: bool
  env_runtime_terminate_ok :: bool
  env_terminate_ok :: bool
  env_polls :: "(bool option \<times> bool option) list"
  env_inspect :: "bool option \<times> bool option"

text \<open>
  A pass ends the task, continues it with a new state, or never ends (\<open>Spins\<close>, the eviction
  loop of the scrollback with a broken ring).
\<close>

datatype 't outcome = Spins | Returns "actor_output list" "'t actor" | Continues "actor_output list" "'t actor"

section \<open>Operations\<close>

definition resize_terminal ::
    "'t vt \<Rightarrow> env \<Rightarrow> u16 \<Rightarrow> u16 \<Rightarrow> 't actor
       \<Rightarrow> (actor_error + unit) \<times> actor_output list \<times> 't actor" where
  "resize_terminal vt env columns rows a =
     (case validate_terminal_size columns rows of
        Inl e \<Rightarrow> (Inl (InvalidDimensions e), [], a)
      | Inr _ \<Rightarrow>
          if (columns, rows) = (ac_columns a, ac_rows a) then (Inr (), [], a)
          else if \<not> env_resize_ok env then (Inl PtyResizeFailed, [], a)
          else
            let terminal = vt_set_size_reflow vt rows columns (sb_capacity (ac_scrollback a))
                             (ac_terminal a);
                revision = saturating_add (ac_revision a) 1;
                a' = a\<lparr>ac_terminal := terminal, ac_columns := columns, ac_rows := rows,
                       ac_revision := revision\<rparr>
            in (Inr (), [TerminalResized revision (sb_latest (ac_scrollback a)) columns rows
                           (terminal_snapshot vt terminal)], a'))"

definition queue_input :: "env \<Rightarrow> bytes \<Rightarrow> 't actor \<Rightarrow> actor_output list" where
  "queue_input env bs a =
     (if \<not> ac_writer_open a then [InputRefused PtyInputClosed]
      else if \<not> env_writer_ready env then [InputRefused PtyWriterBackpressured]
      else [WriterInput bs])"

fun reap :: "bool \<Rightarrow> (bool option \<times> bool option) list \<Rightarrow> actor_error + unit" where
  "reap runtime [] = Inl ReapDeadline"
| "reap runtime ((tree, backend) # polls) =
     (case tree of
        None \<Rightarrow> Inl ProcessTreeError
      | Some False \<Rightarrow> reap runtime polls
      | Some True \<Rightarrow>
          if \<not> runtime then Inr ()
          else case backend of
                 None \<Rightarrow> Inl ProcessTreeError
               | Some True \<Rightarrow> Inr ()
               | Some False \<Rightarrow> reap runtime polls)"

definition terminate_process_tree :: "env \<Rightarrow> 't actor \<Rightarrow> (actor_error + unit) \<times> 't actor" where
  "terminate_process_tree env a =
     (if ac_runtime a \<and> \<not> env_runtime_terminate_ok env then (Inl ProcessTreeError, a)
      else if \<not> env_terminate_ok env then (Inl ProcessTreeError, a)
      else case reap (ac_runtime a) (env_polls env) of
             Inl e \<Rightarrow> (Inl e, a)
           | Inr _ \<Rightarrow> (Inr (), a\<lparr>ac_tree_empty := True\<rparr>))"

definition inspect_process_tree :: "env \<Rightarrow> 't actor \<Rightarrow> (actor_error + bool) \<times> 't actor" where
  "inspect_process_tree env a =
     (let result = (case env_inspect env of
            (None, _) \<Rightarrow> Inl ProcessTreeError
          | (Some none_left, backend) \<Rightarrow>
              if \<not> ac_runtime a then Inr none_left
              else case backend of
                     None \<Rightarrow> Inl ProcessTreeError
                   | Some b \<Rightarrow> Inr (none_left \<and> b))
      in (result, if result = Inr True then a\<lparr>ac_tree_empty := True\<rparr> else a))"

definition detach_client :: "uuid \<Rightarrow> 't actor \<Rightarrow> 't actor" where
  "detach_client client a =
     a\<lparr>ac_controller := (if ac_controller a = Some client then None else ac_controller a),
       ac_observers := ac_observers a - {client}\<rparr>"

definition take_lease :: "uuid \<Rightarrow> 't actor \<Rightarrow> attachment_role \<times> 't actor" where
  "take_lease client a =
     (if ac_controller a = None \<or> ac_controller a = Some client
      then (Controller, a\<lparr>ac_controller := Some client\<rparr>)
      else (Observer, a\<lparr>ac_observers := insert client (ac_observers a)\<rparr>))"

definition attach_reply :: "'t vt \<Rightarrow> attachment_role \<Rightarrow> u64 \<Rightarrow> 't actor \<Rightarrow> attachment" where
  "attach_reply vt role from_sequence a =
     (let r = replay_after from_sequence (ac_scrollback a);
          r' = (if rp_gap r then r\<lparr>rp_chunks := [],
                  rp_snapshot := Some (terminal_snapshot vt (ac_terminal a))\<rparr> else r)
      in \<lparr>at_role = role, at_replay = r', at_columns = ac_columns a, at_rows = ac_rows a,
          at_capacity = sb_capacity (ac_scrollback a),
          at_completion_published = ac_exit_published a, at_revision = ac_revision a\<rparr>)"

definition attach_client ::
    "'t vt \<Rightarrow> env \<Rightarrow> uuid \<Rightarrow> u64 \<Rightarrow> u16 \<Rightarrow> u16 \<Rightarrow> 't actor \<Rightarrow> actor_output list \<times> 't actor" where
  "attach_client vt env client from_sequence columns rows a =
     (case take_lease client a of (role, a1) \<Rightarrow>
      case (if role = Controller \<and> ac_pending_exit a1 = None \<and> \<not> ac_exit_published a1
            then resize_terminal vt env columns rows a1 else (Inr (), [], a1)) of
        (Inr _, outs, a2) \<Rightarrow>
          (outs @ [AttachReply client (Inr (attach_reply vt role from_sequence a2))], a2)
      | (Inl e, outs, a2) \<Rightarrow>
          (outs @ [AttachReply client (Inl e)], detach_client client a2))"

text \<open>\<open>if let Some(writer) = self.writer.take()\<close>: the writer is told to close once.\<close>

definition close_writer :: "'t actor \<Rightarrow> actor_output list \<times> 't actor" where
  "close_writer a =
     (if ac_writer_open a then ([WriterClose], a\<lparr>ac_writer_open := False\<rparr>) else ([], a))"

definition drain_stop_replies ::
    "actor_error + unit \<Rightarrow> 't actor \<Rightarrow> actor_output list \<times> 't actor" where
  "drain_stop_replies result a =
     (map (\<lambda>i. StopReply i result) (ac_stop_replies a), a\<lparr>ac_stop_replies := []\<rparr>)"

text \<open>The arms of \<open>select!\<close>.\<close>

fun handle :: "'t vt \<Rightarrow> env \<Rightarrow> actor_input \<Rightarrow> 't actor \<Rightarrow> 't outcome" where
  "handle vt env RuntimeEnded a =
     Continues [TerminateCalled] (a\<lparr>ac_runtime_failed := True\<rparr>)"
| "handle vt env CommandsClosed a =
     Returns (if ac_tree_empty a then [] else [TerminateCalled]) a"
| "handle vt env CmdRuntimeFailed a =
     Continues [TerminateCalled] (a\<lparr>ac_runtime_failed := True\<rparr>)"
| "handle vt env (CmdAttach client from_sequence columns rows) a =
     (let (outs, a') = attach_client vt env client from_sequence columns rows a
      in Continues outs a')"
| "handle vt env (CmdDetach client) a = Continues [DetachReply client] (detach_client client a)"
| "handle vt env (CmdInputFrom client bs) a =
     Continues (if ac_controller a = Some client then queue_input env bs a
                else [InputRefused NotController]) a"
| "handle vt env (CmdResizeFrom client columns rows) a =
     (let (r, outs, a') = (if ac_controller a = Some client then resize_terminal vt env columns rows a
                           else (Inl NotController, [], a))
      in Continues (outs @ [ResizeReply r]) a')"
| "handle vt env (CmdInput bs) a = Continues (queue_input env bs a) a"
| "handle vt env (CmdResize columns rows) a =
     (let (r, outs, a') = resize_terminal vt env columns rows a
      in Continues (outs @ [ResizeReply r]) a')"
| "handle vt env (CmdReplay from_sequence) a =
     Continues [ReplayReply (replay_after from_sequence (ac_scrollback a))] a"
| "handle vt env CmdSnapshot a =
     Continues [SnapshotReply \<lparr>cp_revision = ac_revision a,
        cp_sequence = sb_latest (ac_scrollback a), cp_columns = ac_columns a, cp_rows = ac_rows a,
        cp_snapshot = terminal_snapshot vt (ac_terminal a)\<rparr>] a"
| "handle vt env (CmdStop reply) a =
     (if ac_exit_published a then
        (let (result, a') = terminate_process_tree env a
         in if is_ok result then Returns [StopReply reply result] a'
            else Continues [StopReply reply result] a')
      else if ac_stop_requested a then
        Continues [] (a\<lparr>ac_stop_replies := ac_stop_replies a @ [reply]\<rparr>)
      else
        (let (outs, a') = close_writer (a\<lparr>ac_stop_requested := True\<rparr>)
         in Continues (outs @ [ForceStopScheduled])
              (a'\<lparr>ac_stop_replies := ac_stop_replies a' @ [reply]\<rparr>)))"
| "handle vt env CmdInspect a =
     (let (result, a') = inspect_process_tree env a in Continues [InspectReply result] a')"
| "handle vt env (EvOutput bs) a =
     (let a1 = a\<lparr>ac_terminal := vt_process vt bs (ac_terminal a)\<rparr>
      in case push bs (ac_scrollback a1) of
           None \<Rightarrow> Spins
         | Some (c, sb) \<Rightarrow>
             Continues [TerminalOutput c, LiveOutput c] (a1\<lparr>ac_scrollback := sb\<rparr>))"
| "handle vt env EvReaderClosed a = Continues [] (a\<lparr>ac_reader_closed := True\<rparr>)"
| "handle vt env EvReaderFailed a = Continues [] (a\<lparr>ac_reader_closed := True\<rparr>)"
| "handle vt env (EvExited code) a =
     (let (outs, a') = close_writer a
      in Continues outs (a'\<lparr>ac_pending_exit := Some code\<rparr>))"
| "handle vt env EvForceStop a =
     (if ac_pending_exit a = None \<and> \<not> env_terminate_ok env
      then (let (outs, a') = drain_stop_replies (Inl ProcessTreeError) a
            in Continues (TerminateCalled # outs) a')
      else Continues (if ac_pending_exit a = None then [TerminateCalled] else []) a)"

text \<open>The tail of the loop body: publish the exit once the output has ended or a stop or a failed
  runtime asks for it.\<close>

definition publish_exit :: "env \<Rightarrow> actor_output list \<Rightarrow> 't actor \<Rightarrow> 't outcome" where
  "publish_exit env outs a =
     (case ac_pending_exit a of
        None \<Rightarrow> Continues outs a
      | Some code \<Rightarrow>
          if \<not> ac_exit_published a
             \<and> (ac_reader_closed a \<or> ac_stop_requested a \<or> ac_runtime_failed a)
          then
            if ac_stop_requested a \<or> ac_runtime_failed a then
              (case terminate_process_tree env a of
                 (Inl e, a1) \<Rightarrow>
                   (let (drained, a2) = drain_stop_replies (Inl ProcessTreeError) a1
                    in Continues (outs @ drained) a2)
               | (Inr _, a1) \<Rightarrow>
                   (let (drained, a2) = drain_stop_replies (Inr ()) a1
                    in Returns (outs @ drained @ [ExitPublished code (ac_stop_requested a2)])
                         (a2\<lparr>ac_exit_published := True\<rparr>)))
            else Continues (outs @ [ExitPublished code (ac_stop_requested a)])
                   (a\<lparr>ac_exit_published := True\<rparr>)
          else Continues outs a)"

definition actor_step :: "'t vt \<Rightarrow> env \<Rightarrow> actor_input \<Rightarrow> 't actor \<Rightarrow> 't outcome" where
  "actor_step vt env i a = (case handle vt env i a of
       Continues outs a' \<Rightarrow> publish_exit env outs a'
     | r \<Rightarrow> r)"

text \<open>The actor \<open>SessionHandle::spawn_inner\<close> starts.\<close>

definition actor_new :: "bool \<Rightarrow> 't \<Rightarrow> scrollback \<Rightarrow> u16 \<Rightarrow> u16 \<Rightarrow> 't actor" where
  "actor_new runtime terminal sb columns rows =
     \<lparr>ac_runtime = runtime, ac_writer_open = True, ac_scrollback = sb, ac_terminal = terminal,
      ac_revision = 0, ac_columns = columns, ac_rows = rows, ac_controller = None,
      ac_observers = {}, ac_stop_requested = False, ac_runtime_failed = False,
      ac_stop_replies = [], ac_tree_empty = False, ac_reader_closed = False,
      ac_pending_exit = None, ac_exit_published = False\<rparr>"

section \<open>Runs\<close>

fun outcome_outputs :: "'t outcome \<Rightarrow> actor_output list" where
  "outcome_outputs Spins = []"
| "outcome_outputs (Returns outs a) = outs"
| "outcome_outputs (Continues outs a) = outs"

fun outcome_actor :: "'t actor \<Rightarrow> 't outcome \<Rightarrow> 't actor" where
  "outcome_actor a Spins = a"
| "outcome_actor a (Returns outs a') = a'"
| "outcome_actor a (Continues outs a') = a'"

text \<open>A run handles messages until the task ends; the flag says whether it is still alive.
  \<open>None\<close> is a run that never ends.\<close>

fun actor_run ::
    "'t vt \<Rightarrow> (env \<times> actor_input) list \<Rightarrow> 't actor
       \<Rightarrow> (actor_output list \<times> 't actor \<times> bool) option" where
  "actor_run vt [] a = Some ([], a, True)"
| "actor_run vt ((env, i) # ms) a = (case actor_step vt env i a of
       Spins \<Rightarrow> None
     | Returns outs a' \<Rightarrow> Some (outs, a', False)
     | Continues outs a' \<Rightarrow> (case actor_run vt ms a' of
           None \<Rightarrow> None
         | Some (outs2, a2, alive) \<Rightarrow> Some (outs @ outs2, a2, alive)))"

section \<open>Auxiliary facts of the operations\<close>

text \<open>The fields an operation leaves alone.\<close>

definition same_protocol :: "'t actor \<Rightarrow> 't actor \<Rightarrow> bool" where
  "same_protocol a b \<longleftrightarrow> ac_runtime b = ac_runtime a \<and> ac_writer_open b = ac_writer_open a
     \<and> ac_stop_requested b = ac_stop_requested a \<and> ac_runtime_failed b = ac_runtime_failed a
     \<and> ac_stop_replies b = ac_stop_replies a \<and> ac_tree_empty b = ac_tree_empty a
     \<and> ac_reader_closed b = ac_reader_closed a \<and> ac_pending_exit b = ac_pending_exit a
     \<and> ac_exit_published b = ac_exit_published a \<and> ac_scrollback b = ac_scrollback a"

fun plain_output :: "actor_output \<Rightarrow> bool" where
  "plain_output (StopReply _ _) = False"
| "plain_output (ExitPublished _ _) = False"
| "plain_output (WriterInput _) = False"
| "plain_output (TerminalOutput _) = False"
| "plain_output _ = True"

lemma same_protocol_refl [simp]: "same_protocol a a"
  by (simp add: same_protocol_def)

lemma resize_terminal_frame:
  assumes "resize_terminal vt env columns rows a = (r, outs, a')"
  shows "same_protocol a a'" "list_all plain_output outs"
    and "ac_controller a' = ac_controller a" "ac_observers a' = ac_observers a"
  using assms
  by (auto simp: resize_terminal_def same_protocol_def Let_def split: sum.splits if_splits)

lemma take_lease_frame:
  "take_lease client a = (role, a1) \<Longrightarrow> same_protocol a a1"
  by (auto simp: take_lease_def same_protocol_def split: if_splits)

lemma detach_client_frame: "same_protocol a (detach_client client a)"
  by (simp add: detach_client_def same_protocol_def)

lemma same_protocol_trans: "same_protocol a b \<Longrightarrow> same_protocol b c \<Longrightarrow> same_protocol a c"
  by (simp add: same_protocol_def)

lemma attach_client_frame:
  assumes "attach_client vt env client from_seq columns rows a = (outs, a')"
  shows "same_protocol a a' \<and> list_all plain_output outs"
proof -
  obtain role a1 where l: "take_lease client a = (role, a1)" by fastforce
  define x where "x = (if role = Controller \<and> ac_pending_exit a1 = None \<and> \<not> ac_exit_published a1
      then resize_terminal vt env columns rows a1 else (Inr (), [], a1))"
  obtain r outs2 a2 where xr: "x = (r, outs2, a2)" by (cases x) auto
  have fr: "same_protocol a1 a2" "list_all plain_output outs2"
    using resize_terminal_frame(1,2) [of vt env columns rows a1] xr
    by (auto simp: x_def split: if_splits)
  have "same_protocol a a2" using take_lease_frame [OF l] fr(1) by (rule same_protocol_trans)
  moreover have "attach_client vt env client from_seq columns rows a =
      (case x of
        (Inr _, outs, a2) \<Rightarrow>
          (outs @ [AttachReply client (Inr (attach_reply vt role from_seq a2))], a2)
      | (Inl e, outs, a2) \<Rightarrow>
          (outs @ [AttachReply client (Inl e)], detach_client client a2))"
    by (simp add: attach_client_def l x_def)
  ultimately show ?thesis
    using assms fr(2) detach_client_frame [of a2 client] same_protocol_trans
    unfolding xr by (cases r) auto
qed

lemma reap_Ok:
  "reap runtime polls = Inr u \<Longrightarrow>
     \<exists>(tree, backend)\<in>set polls. tree = Some True \<and> (runtime \<longrightarrow> backend = Some True)"
  by (induction runtime polls rule: reap.induct)
    (auto split: option.splits bool.splits if_splits)

text \<open>Both owned trees were seen empty in this pass.\<close>

definition reaped :: "env \<Rightarrow> 't actor \<Rightarrow> bool" where
  "reaped env a \<longleftrightarrow> env_terminate_ok env \<and> (ac_runtime a \<longrightarrow> env_runtime_terminate_ok env)
     \<and> (\<exists>(tree, backend)\<in>set (env_polls env).
          tree = Some True \<and> (ac_runtime a \<longrightarrow> backend = Some True))"

lemma terminate_process_tree_cases:
  "(\<exists>e. terminate_process_tree env a = (Inl e, a))
   \<or> (terminate_process_tree env a = (Inr (), a\<lparr>ac_tree_empty := True\<rparr>) \<and> reaped env a)"
  using reap_Ok [of "ac_runtime a" "env_polls env"]
  by (cases "reap (ac_runtime a) (env_polls env)")
    (auto simp: terminate_process_tree_def reaped_def)

section \<open>The stop protocol\<close>

definition actor_inv :: "'t actor \<Rightarrow> bool" where
  "actor_inv a \<longleftrightarrow> (ac_stop_replies a \<noteq> [] \<longrightarrow> ac_stop_requested a)
     \<and> (ac_stop_requested a \<or> ac_pending_exit a \<noteq> None \<longrightarrow> \<not> ac_writer_open a)
     \<and> (ac_exit_published a \<longrightarrow> ac_pending_exit a \<noteq> None \<and> ac_stop_replies a = [])"

definition answered :: "actor_output list \<Rightarrow> nat multiset" where
  "answered outs = mset (concat (map (\<lambda>x. case x of StopReply i _ \<Rightarrow> [i] | _ \<Rightarrow> []) outs))"

definition issued :: "actor_input \<Rightarrow> nat multiset" where
  "issued i = (case i of CmdStop r \<Rightarrow> {#r#} | _ \<Rightarrow> {#})"

definition publications :: "actor_output list \<Rightarrow> nat" where
  "publications outs = length (filter (\<lambda>x. case x of ExitPublished _ _ \<Rightarrow> True | _ \<Rightarrow> False) outs)"

lemma answered_simps [simp]:
  "answered [] = {#}" "answered (xs @ ys) = answered xs + answered ys"
  "answered (StopReply i r # xs) = {#i#} + answered xs"
  by (simp_all add: answered_def)

lemma answered_plain: "list_all plain_output outs \<Longrightarrow> answered outs = {#}"
  by (induction outs) (auto simp: answered_def split: actor_output.splits)

lemma answered_other [simp]:
  "plain_output x \<Longrightarrow> answered (x # xs) = answered xs"
  "answered (ExitPublished c b # xs) = answered xs"
  "answered (WriterInput bs # xs) = answered xs"
  "answered (TerminalOutput ch # xs) = answered xs"
  by (cases x; simp add: answered_def)+

lemma publications_simps [simp]:
  "publications [] = 0" "publications (xs @ ys) = publications xs + publications ys"
  "publications (ExitPublished c b # xs) = Suc (publications xs)"
  "publications (StopReply i r # xs) = publications xs"
  "publications (WriterInput bs # xs) = publications xs"
  "publications (TerminalOutput ch # xs) = publications xs"
  "plain_output x \<Longrightarrow> publications (x # xs) = publications xs"
  by (simp_all add: publications_def) (cases x; simp)

lemma publications_plain: "list_all plain_output outs \<Longrightarrow> publications outs = 0"
  by (induction outs) auto

lemma drain_facts [simp]:
  "answered (map (\<lambda>i. StopReply i r) is) = mset is"
  "publications (map (\<lambda>i. StopReply i r) is) = 0"
  by (induction "is") simp_all

text \<open>One arm: the obligations of the stop replies, and nothing is published yet.\<close>

lemma handle_replies:
  assumes "handle vt env i a = r" "r \<noteq> Spins"
  shows "answered (outcome_outputs r) + mset (ac_stop_replies (outcome_actor a r))
       = mset (ac_stop_replies a) + issued i"
    and "publications (outcome_outputs r) = 0"
proof -
  have plain: "answered outs + mset (ac_stop_replies a') = mset (ac_stop_replies a)"
    "publications outs = 0"
    if "same_protocol a a'" "list_all plain_output outs" for outs a'
    using that by (simp_all add: answered_plain publications_plain same_protocol_def)
  have "(answered (outcome_outputs r) + mset (ac_stop_replies (outcome_actor a r))
       = mset (ac_stop_replies a) + issued i) \<and> publications (outcome_outputs r) = 0"
  proof (cases i)
    case (CmdAttach client from_seq columns rows)
    obtain outs a' where x: "attach_client vt env client from_seq columns rows a = (outs, a')"
      by fastforce
    show ?thesis using assms(1) CmdAttach x plain attach_client_frame [OF x]
      by (auto simp: issued_def)
  next
    case (CmdResizeFrom client columns rows)
    obtain r' outs a' where x: "resize_terminal vt env columns rows a = (r', outs, a')"
      by (cases "resize_terminal vt env columns rows a") auto
    show ?thesis using assms(1) CmdResizeFrom x plain resize_terminal_frame(1,2) [OF x]
      by (auto simp: issued_def)
  next
    case (CmdResize columns rows)
    obtain r' outs a' where x: "resize_terminal vt env columns rows a = (r', outs, a')"
      by (cases "resize_terminal vt env columns rows a") auto
    show ?thesis using assms(1) CmdResize x plain resize_terminal_frame(1,2) [OF x]
      by (auto simp: issued_def)
  next
    case (CmdStop reply)
    show ?thesis using assms CmdStop terminate_process_tree_cases [of env a]
      by (auto simp: issued_def close_writer_def Let_def split: if_splits)
  next
    case (EvOutput bs)
    show ?thesis using assms EvOutput
      by (auto simp: issued_def Let_def split: option.splits)
  qed (use assms in \<open>auto simp: issued_def queue_input_def close_writer_def Let_def
        detach_client_def inspect_process_tree_def drain_stop_replies_def split: if_splits\<close>)
  then show "answered (outcome_outputs r) + mset (ac_stop_replies (outcome_actor a r))
       = mset (ac_stop_replies a) + issued i" "publications (outcome_outputs r) = 0"
    by blast+
qed

lemma publish_exit_cases:
  obtains
    (idle) "publish_exit env outs a = Continues outs a"
      "\<not> (ac_pending_exit a \<noteq> None \<and> \<not> ac_exit_published a
         \<and> (ac_reader_closed a \<or> ac_stop_requested a \<or> ac_runtime_failed a))"
  | (failed) "ac_pending_exit a \<noteq> None" "\<not> ac_exit_published a"
      "publish_exit env outs a = Continues
         (outs @ map (\<lambda>i. StopReply i (Inl ProcessTreeError)) (ac_stop_replies a))
         (a\<lparr>ac_stop_replies := []\<rparr>)"
  | (stopped) code where "ac_pending_exit a = Some code" "\<not> ac_exit_published a" "reaped env a"
      "publish_exit env outs a = Returns
         (outs @ map (\<lambda>i. StopReply i (Inr ())) (ac_stop_replies a)
          @ [ExitPublished code (ac_stop_requested a)])
         (a\<lparr>ac_tree_empty := True, ac_stop_replies := [], ac_exit_published := True\<rparr>)"
  | (ended) code where "ac_pending_exit a = Some code" "\<not> ac_exit_published a"
      "ac_reader_closed a" "\<not> ac_stop_requested a" "\<not> ac_runtime_failed a"
      "publish_exit env outs a = Continues (outs @ [ExitPublished code False])
         (a\<lparr>ac_exit_published := True\<rparr>)"
proof (cases "ac_pending_exit a")
  case None
  then show ?thesis by (intro idle) (simp_all add: publish_exit_def)
next
  case (Some code)
  show ?thesis
  proof (cases "\<not> ac_exit_published a
      \<and> (ac_reader_closed a \<or> ac_stop_requested a \<or> ac_runtime_failed a)")
    case False
    then have "publish_exit env outs a = Continues outs a"
      unfolding publish_exit_def Some option.case by (rule if_not_P)
    then show ?thesis using Some False by (intro idle) blast+
  next
    case due: True
    show ?thesis
    proof (cases "ac_stop_requested a \<or> ac_runtime_failed a")
      case True
      from terminate_process_tree_cases [of env a] show ?thesis
      proof
        assume "\<exists>e. terminate_process_tree env a = (Inl e, a)"
        then show ?thesis using Some due True
          by (intro failed) (auto simp: publish_exit_def drain_stop_replies_def)
      next
        assume "terminate_process_tree env a = (Inr (), a\<lparr>ac_tree_empty := True\<rparr>) \<and> reaped env a"
        then show ?thesis using Some due True
          by (intro stopped) (simp_all add: publish_exit_def drain_stop_replies_def)
      qed
    next
      case False
      then show ?thesis using Some due by (intro ended) (simp_all add: publish_exit_def)
    qed
  qed
qed

lemma publish_exit_replies:
  "answered (outcome_outputs (publish_exit env outs a))
     + mset (ac_stop_replies (outcome_actor b (publish_exit env outs a)))
   = answered outs + mset (ac_stop_replies a)"
  by (cases rule: publish_exit_cases [of env outs a]) simp_all

lemma actor_step_replies:
  assumes "actor_step vt env i a \<noteq> Spins"
  shows "answered (outcome_outputs (actor_step vt env i a))
       + mset (ac_stop_replies (outcome_actor a (actor_step vt env i a)))
       = mset (ac_stop_replies a) + issued i"
proof (cases "handle vt env i a")
  case Spins
  then show ?thesis using assms by (simp add: actor_step_def)
next
  case (Returns outs a')
  then show ?thesis using handle_replies(1) [of vt env i a, OF refl] by (simp add: actor_step_def)
next
  case (Continues outs a')
  then show ?thesis
    using handle_replies(1) [of vt env i a, OF refl] publish_exit_replies [of env outs a' a]
    by (simp add: actor_step_def)
qed

text \<open>The invariant of the stop protocol.\<close>

lemma handle_inv:
  assumes "actor_inv a"
  shows "actor_inv (outcome_actor a (handle vt env i a))"
    and "ac_exit_published a \<longrightarrow> ac_exit_published (outcome_actor a (handle vt env i a))"
proof -
  have same: "actor_inv a' \<and> ac_exit_published a' = ac_exit_published a" if "same_protocol a a'" for a'
    using assms that by (simp add: actor_inv_def same_protocol_def)
  have "actor_inv (outcome_actor a (handle vt env i a))
    \<and> (ac_exit_published a \<longrightarrow> ac_exit_published (outcome_actor a (handle vt env i a)))"
  proof (cases i)
    case (CmdAttach client from_seq columns rows)
    obtain outs a' where x: "attach_client vt env client from_seq columns rows a = (outs, a')"
      by fastforce
    show ?thesis using CmdAttach x same [OF conjunct1 [OF attach_client_frame [OF x]]] by simp
  next
    case (CmdResizeFrom client columns rows)
    obtain r' outs a' where x: "resize_terminal vt env columns rows a = (r', outs, a')"
      by (cases "resize_terminal vt env columns rows a") auto
    show ?thesis using assms CmdResizeFrom x same [OF resize_terminal_frame(1) [OF x]] by simp
  next
    case (CmdResize columns rows)
    obtain r' outs a' where x: "resize_terminal vt env columns rows a = (r', outs, a')"
      by (cases "resize_terminal vt env columns rows a") auto
    show ?thesis using CmdResize x same [OF resize_terminal_frame(1) [OF x]] by simp
  next
    case (CmdStop reply)
    from terminate_process_tree_cases [of env a] show ?thesis
      using assms unfolding CmdStop
      by (elim disjE exE conjE) (simp_all add: close_writer_def actor_inv_def Let_def)
  next
    case (EvOutput bs)
    show ?thesis using assms EvOutput
      by (auto simp: actor_inv_def Let_def split: option.splits)
  qed (use assms in \<open>auto simp: actor_inv_def close_writer_def Let_def
        detach_client_def inspect_process_tree_def drain_stop_replies_def split: if_splits\<close>)
  then show "actor_inv (outcome_actor a (handle vt env i a))"
    "ac_exit_published a \<longrightarrow> ac_exit_published (outcome_actor a (handle vt env i a))" by blast+
qed

lemma publish_exit_inv:
  assumes "actor_inv a"
  shows "actor_inv (outcome_actor b (publish_exit env outs a))"
    and "ac_exit_published a \<longrightarrow> ac_exit_published (outcome_actor b (publish_exit env outs a))"
  using assms by (cases rule: publish_exit_cases [of env outs a]; simp add: actor_inv_def)+

definition actor_next :: "'t vt \<Rightarrow> 't actor \<Rightarrow> env \<times> actor_input \<Rightarrow> 't actor" where
  "actor_next vt a m = outcome_actor a (actor_step vt (fst m) (snd m) a)"

lemma actor_next_inv:
  assumes "actor_inv a"
  shows "actor_inv (actor_next vt a m)"
    and "ac_exit_published a \<longrightarrow> ac_exit_published (actor_next vt a m)"
proof -
  note h = handle_inv [OF assms, of vt "fst m" "snd m"]
  have "actor_inv (actor_next vt a m)
     \<and> (ac_exit_published a \<longrightarrow> ac_exit_published (actor_next vt a m))"
  proof (cases "handle vt (fst m) (snd m) a")
    case (Continues outs a')
    then show ?thesis using h publish_exit_inv [of a' a "fst m" outs]
      by (simp add: actor_next_def actor_step_def)
  qed (use h assms in \<open>simp_all add: actor_next_def actor_step_def\<close>)
  then show "actor_inv (actor_next vt a m)"
    "ac_exit_published a \<longrightarrow> ac_exit_published (actor_next vt a m)" by blast+
qed

interpretation actor: step_invariant "actor_next vt" actor_inv for vt
  by unfold_locales (rule actor_next_inv(1))

text \<open>A published exit is never published again.\<close>

lemma actor_step_publications:
  "publications (outcome_outputs (actor_step vt env i a))
     + (if ac_exit_published a then 1 else 0)
   \<le> (if ac_exit_published (outcome_actor a (actor_step vt env i a)) then 1 else 0)"
  if "actor_inv a"
proof (cases "handle vt env i a")
  case Spins
  then show ?thesis by (simp add: actor_step_def)
next
  case (Returns outs a')
  then show ?thesis using handle_replies(2) [of vt env i a, OF refl] handle_inv(2) [OF that, of vt env i]
    by (simp add: actor_step_def)
next
  case (Continues outs a')
  have p: "publications outs = 0" "ac_exit_published a \<longrightarrow> ac_exit_published a'"
    using handle_replies(2) [of vt env i a, OF refl] handle_inv(2) [OF that, of vt env i] Continues
    by simp_all
  have "publications (outcome_outputs (publish_exit env outs a'))
      + (if ac_exit_published a' then 1 else 0)
     \<le> (if ac_exit_published (outcome_actor a (publish_exit env outs a')) then 1 else 0)"
    by (cases rule: publish_exit_cases [of env outs a']) (simp_all add: p(1))
  then show ?thesis using p Continues by (simp add: actor_step_def split: if_splits)
qed


section \<open>Output reaches every attachment\<close>

definition live_chunks :: "actor_output list \<Rightarrow> output_chunk list" where
  "live_chunks outs = concat (map (\<lambda>x. case x of TerminalOutput c \<Rightarrow> [c] | _ \<Rightarrow> []) outs)"

definition pty_output :: "(env \<times> actor_input) list \<Rightarrow> bytes list" where
  "pty_output ms = concat (map (\<lambda>m. case snd m of EvOutput bs \<Rightarrow> [bs] | _ \<Rightarrow> []) ms)"

lemma live_chunks_simps [simp]:
  "live_chunks [] = []" "live_chunks (xs @ ys) = live_chunks xs @ live_chunks ys"
  "live_chunks (TerminalOutput c # xs) = c # live_chunks xs"
  "live_chunks (LiveOutput c # xs) = live_chunks xs"
  "live_chunks (StopReply i r # xs) = live_chunks xs"
  "live_chunks (ExitPublished code b # xs) = live_chunks xs"
  "live_chunks (WriterInput bs # xs) = live_chunks xs"
  "plain_output x \<Longrightarrow> live_chunks (x # xs) = live_chunks xs"
  by (simp_all add: live_chunks_def) (cases x; simp)

lemma live_chunks_plain: "list_all plain_output outs \<Longrightarrow> live_chunks outs = []"
  by (induction outs) auto

lemma live_chunks_drain [simp]: "live_chunks (map (\<lambda>i. StopReply i r) is) = []"
  by (induction "is") simp_all

lemma publish_exit_live:
  "live_chunks (outcome_outputs (publish_exit env outs a)) = live_chunks outs"
  "ac_scrollback (outcome_actor b (publish_exit env outs a)) = ac_scrollback a"
  "publish_exit env outs a \<noteq> Spins"
  by (cases rule: publish_exit_cases [of env outs a]; simp)+

text \<open>A message that is not output leaves the ring and sends no chunk.\<close>

lemma handle_quiet:
  assumes "\<forall>bs. i \<noteq> EvOutput bs"
  shows "handle vt env i a \<noteq> Spins \<and> live_chunks (outcome_outputs (handle vt env i a)) = []
     \<and> ac_scrollback (outcome_actor a (handle vt env i a)) = ac_scrollback a"
proof (cases i)
  case (CmdAttach client from_seq columns rows)
  obtain outs a' where x: "attach_client vt env client from_seq columns rows a = (outs, a')"
    by fastforce
  show ?thesis using CmdAttach x attach_client_frame [OF x]
    by (simp add: live_chunks_plain same_protocol_def)
next
  case (CmdResizeFrom client columns rows)
  obtain r' outs a' where x: "resize_terminal vt env columns rows a = (r', outs, a')"
    by (cases "resize_terminal vt env columns rows a") auto
  show ?thesis using CmdResizeFrom x resize_terminal_frame(1,2) [OF x]
    by (simp add: live_chunks_plain same_protocol_def)
next
  case (CmdResize columns rows)
  obtain r' outs a' where x: "resize_terminal vt env columns rows a = (r', outs, a')"
    by (cases "resize_terminal vt env columns rows a") auto
  show ?thesis using CmdResize x resize_terminal_frame(1,2) [OF x]
    by (simp add: live_chunks_plain same_protocol_def)
next
  case (CmdStop reply)
  from terminate_process_tree_cases [of env a] show ?thesis
    unfolding CmdStop by (elim disjE exE conjE) (simp_all add: close_writer_def Let_def)
next
  case (EvOutput bs)
  then show ?thesis using assms by blast
qed (auto simp: queue_input_def detach_client_def inspect_process_tree_def close_writer_def
      drain_stop_replies_def Let_def split: if_splits)

lemma actor_step_quiet:
  assumes "\<forall>bs. i \<noteq> EvOutput bs"
  shows "actor_step vt env i a \<noteq> Spins \<and> live_chunks (outcome_outputs (actor_step vt env i a)) = []
     \<and> ac_scrollback (outcome_actor a (actor_step vt env i a)) = ac_scrollback a"
proof (cases "handle vt env i a")
  case (Continues outs a')
  then show ?thesis using handle_quiet [OF assms, of vt env a]
    by (simp add: actor_step_def publish_exit_live)
qed (use handle_quiet [OF assms, of vt env a] in \<open>simp_all add: actor_step_def\<close>)

lemma actor_step_output:
  assumes "refines h k (ac_scrollback a)" "length bs \<le> sb_capacity (ac_scrollback a)"
    and "length h + 2 < 2 ^ 64"
  shows "\<exists>k'. actor_step vt env (EvOutput bs) a \<noteq> Spins
     \<and> live_chunks (outcome_outputs (actor_step vt env (EvOutput bs) a))
         = [\<lparr>oc_sequence = of_nat (length h + 1), oc_bytes = bs\<rparr>]
     \<and> refines (h @ [bs]) k' (ac_scrollback (outcome_actor a (actor_step vt env (EvOutput bs) a)))
     \<and> sb_capacity (ac_scrollback (outcome_actor a (actor_step vt env (EvOutput bs) a)))
         = sb_capacity (ac_scrollback a)"
proof -
  obtain k' s' where p: "push bs (ac_scrollback a)
      = Some (\<lparr>oc_sequence = of_nat (length h + 1), oc_bytes = bs\<rparr>, s')"
    "refines (h @ [bs]) k' s'" "sb_capacity s' = sb_capacity (ac_scrollback a)"
    using push_refines [OF assms] by blast
  define c where "c = \<lparr>oc_sequence = of_nat (length h + 1), oc_bytes = bs\<rparr>"
  define a' where "a' = a\<lparr>ac_terminal := vt_process vt bs (ac_terminal a), ac_scrollback := s'\<rparr>"
  have "handle vt env (EvOutput bs) a = Continues [TerminalOutput c, LiveOutput c] a'"
    using p(1) by (simp add: c_def a'_def)
  then have s: "actor_step vt env (EvOutput bs) a
      = publish_exit env [TerminalOutput c, LiveOutput c] a'"
    by (simp add: actor_step_def)
  show ?thesis unfolding s publish_exit_live(1,2) using p(2,3) publish_exit_live(3)
    by (intro exI [of _ k']) (simp add: a'_def c_def)
qed

lemma actor_run_live:
  assumes "refines h k (ac_scrollback a)"
    and "\<forall>bs\<in>set (pty_output ms). length bs \<le> sb_capacity (ac_scrollback a)"
    and "length h + length ms + 1 < 2 ^ 64"
  shows "\<exists>outs a' alive bs k'. actor_run vt ms a = Some (outs, a', alive)
     \<and> live_chunks outs = numbered (length h) bs \<and> prefix bs (pty_output ms)
     \<and> (alive \<longrightarrow> bs = pty_output ms) \<and> refines (h @ bs) k' (ac_scrollback a')
     \<and> sb_capacity (ac_scrollback a') = sb_capacity (ac_scrollback a)"
  using assms
proof (induction ms arbitrary: h k a)
  case Nil
  then show ?case by (auto simp: pty_output_def)
next
  case (Cons m ms)
  obtain env i where m: "m = (env, i)" by (cases m)
  obtain b k1 where step: "actor_step vt env i a \<noteq> Spins"
      "live_chunks (outcome_outputs (actor_step vt env i a)) = numbered (length h) b"
      "refines (h @ b) k1 (ac_scrollback (outcome_actor a (actor_step vt env i a)))"
      "sb_capacity (ac_scrollback (outcome_actor a (actor_step vt env i a)))
         = sb_capacity (ac_scrollback a)"
      "pty_output (m # ms) = b @ pty_output ms" "length b \<le> 1"
  proof (cases "\<exists>bs. i = EvOutput bs")
    case True
    then obtain bs where i: "i = EvOutput bs" by blast
    have "length bs \<le> sb_capacity (ac_scrollback a)"
      using Cons.prems(2) by (simp add: pty_output_def m i)
    from actor_step_output [OF Cons.prems(1) this, of vt env] Cons.prems(3)
    obtain k' where "actor_step vt env i a \<noteq> Spins"
      "live_chunks (outcome_outputs (actor_step vt env i a)) = numbered (length h) [bs]"
      "refines (h @ [bs]) k' (ac_scrollback (outcome_actor a (actor_step vt env i a)))"
      "sb_capacity (ac_scrollback (outcome_actor a (actor_step vt env i a)))
         = sb_capacity (ac_scrollback a)"
      by (auto simp: i)
    then show ?thesis by (intro that [of "[bs]" k']) (simp_all add: i m pty_output_def)
  next
    case False
    then have q: "\<forall>bs. i \<noteq> EvOutput bs" by blast
    then have "pty_output (m # ms) = [] @ pty_output ms"
      by (cases i) (auto simp: pty_output_def m)
    with actor_step_quiet [OF q, of vt env a] Cons.prems(1) show ?thesis
      by (intro that [of "[]"]) simp_all
  qed
  show ?case
  proof (cases "actor_step vt env i a")
    case Spins
    then show ?thesis using step(1) by simp
  next
    case (Returns outs a')
    then show ?thesis using step
      by (intro exI [of _ outs] exI [of _ a'] exI [of _ False] exI [of _ b] exI [of _ k1])
        (simp add: m)
  next
    case (Continues outs a')
    have "\<forall>bs\<in>set (pty_output ms). length bs \<le> sb_capacity (ac_scrollback a')"
      using Cons.prems(2) step(4,5) Continues by simp
    moreover have "length (h @ b) + length ms + 1 < 2 ^ 64" using Cons.prems(3) step(6) by simp
    moreover have "refines (h @ b) k1 (ac_scrollback a')" using step(3) Continues by simp
    ultimately obtain outs2 a2 alive bs k' where r: "actor_run vt ms a' = Some (outs2, a2, alive)"
      "live_chunks outs2 = numbered (length (h @ b)) bs" "prefix bs (pty_output ms)"
      "alive \<longrightarrow> bs = pty_output ms" "refines ((h @ b) @ bs) k' (ac_scrollback a2)"
      "sb_capacity (ac_scrollback a2) = sb_capacity (ac_scrollback a')"
      using Cons.IH [of "h @ b" k1 a'] by blast
    show ?thesis using step r Continues
      by (intro exI [of _ "outs @ outs2"] exI [of _ a2] exI [of _ alive] exI [of _ "b @ bs"]
          exI [of _ k']) (simp add: m numbered_append)
  qed
qed

text \<open>What an accepted attachment contains.\<close>

lemma attach_reply_replay:
  "at_replay (attach_reply vt role n a) =
     (if rp_gap (replay_after n (ac_scrollback a))
      then (replay_after n (ac_scrollback a))\<lparr>rp_chunks := [],
             rp_snapshot := Some (terminal_snapshot vt (ac_terminal a))\<rparr>
      else replay_after n (ac_scrollback a))"
  by (simp add: attach_reply_def Let_def)

lemma resize_terminal_outputs:
  "resize_terminal vt env columns rows a = (r, outs, a') \<Longrightarrow> AttachReply c z \<notin> set outs"
  by (auto simp: resize_terminal_def Let_def split: sum.splits if_splits)

lemma attach_client_accepted:
  assumes "attach_client vt env client n columns rows a = (outs, a')"
    and "AttachReply client (Inr att) \<in> set outs"
  shows "at_replay att = at_replay (attach_reply vt (at_role att) n a')
     \<and> ac_scrollback a' = ac_scrollback a
     \<and> (at_role att = Controller \<longleftrightarrow> ac_controller a = None \<or> ac_controller a = Some client)
     \<and> (at_role att = Controller \<longrightarrow> ac_controller a' = Some client)
     \<and> (at_role att = Observer \<longrightarrow> ac_controller a' = ac_controller a)"
proof -
  obtain role a1 where l: "take_lease client a = (role, a1)" by fastforce
  have lf: "ac_scrollback a1 = ac_scrollback a"
      "role = Controller \<longleftrightarrow> ac_controller a = None \<or> ac_controller a = Some client"
      "role = Controller \<longrightarrow> ac_controller a1 = Some client"
      "role = Observer \<longrightarrow> ac_controller a1 = ac_controller a"
    using l by (auto simp: take_lease_def split: if_splits)
  define x where "x = (if role = Controller \<and> ac_pending_exit a1 = None \<and> \<not> ac_exit_published a1
      then resize_terminal vt env columns rows a1 else (Inr (), [], a1))"
  obtain r outs2 a2 where xr: "x = (r, outs2, a2)" by (cases x) auto
  have "ac_scrollback a2 = ac_scrollback a1 \<and> ac_controller a2 = ac_controller a1
     \<and> (\<forall>c z. AttachReply c z \<notin> set outs2)"
  proof (cases "role = Controller \<and> ac_pending_exit a1 = None \<and> \<not> ac_exit_published a1")
    case True
    then have rt: "resize_terminal vt env columns rows a1 = (r, outs2, a2)"
      using xr by (simp add: x_def)
    show ?thesis using resize_terminal_frame [OF rt] resize_terminal_outputs [OF rt]
      by (simp add: same_protocol_def)
  next
    case False
    then have "x = (Inr (), [], a1)" by (simp only: x_def if_False)
    then show ?thesis using xr by simp
  qed
  then have fr: "ac_scrollback a2 = ac_scrollback a1" "ac_controller a2 = ac_controller a1"
    "\<forall>c z. AttachReply c z \<notin> set outs2" by blast+
  have "attach_client vt env client n columns rows a =
      (case x of
        (Inr _, outs, a2) \<Rightarrow> (outs @ [AttachReply client (Inr (attach_reply vt role n a2))], a2)
      | (Inl e, outs, a2) \<Rightarrow> (outs @ [AttachReply client (Inl e)], detach_client client a2))"
    by (simp add: attach_client_def l x_def)
  then have "att = attach_reply vt role n a2" "a' = a2"
    using assms fr(3) unfolding xr by (cases r; auto)+
  then show ?thesis using fr lf by (simp add: attach_reply_def Let_def)
qed

text \<open>The replay of an accepted attachment and the chunks broadcast after it join.\<close>

lemma attachment_joins:
  assumes "refines h k (ac_scrollback a)"
    and "attach_client vt env client n columns rows a = (outs, a')"
    and "AttachReply client (Inr att) \<in> set outs"
    and "\<forall>bs\<in>set (pty_output ms). length bs \<le> sb_capacity (ac_scrollback a)"
    and "length h + length ms + 1 < 2 ^ 64"
  shows "\<exists>live a2 alive bs. actor_run vt ms a' = Some (live, a2, alive)
     \<and> prefix bs (pty_output ms) \<and> (alive \<longrightarrow> bs = pty_output ms)
     \<and> (if unat n > length h \<or> unat n < k
        then rp_chunks (at_replay att) = []
             \<and> rp_snapshot (at_replay att) = Some (terminal_snapshot vt (ac_terminal a'))
             \<and> live_chunks live = numbered (length h) bs
        else rp_snapshot (at_replay att) = None
             \<and> rp_chunks (at_replay att) @ live_chunks live
                 = numbered (unat n) (drop (unat n) (h @ bs)))"
proof -
  note acc = attach_client_accepted [OF assms(2,3)]
  then have sb: "ac_scrollback a' = ac_scrollback a" by blast
  have ref: "refines h k (ac_scrollback a')" using assms(1) sb by simp
  obtain live a2 alive bs k' where run: "actor_run vt ms a' = Some (live, a2, alive)"
    "live_chunks live = numbered (length h) bs" "prefix bs (pty_output ms)"
    "alive \<longrightarrow> bs = pty_output ms"
    using actor_run_live [OF ref, of ms vt] assms(4,5) sb by auto
  note rep = replay_refines [OF ref, of n]
  have eq: "at_replay att = at_replay (attach_reply vt (at_role att) n a')" using acc by blast
  have "if unat n > length h \<or> unat n < k
        then rp_chunks (at_replay att) = []
             \<and> rp_snapshot (at_replay att) = Some (terminal_snapshot vt (ac_terminal a'))
             \<and> live_chunks live = numbered (length h) bs
        else rp_snapshot (at_replay att) = None
             \<and> rp_chunks (at_replay att) @ live_chunks live
                 = numbered (unat n) (drop (unat n) (h @ bs))"
  proof (cases "unat n > length h \<or> unat n < k")
    case True
    then show ?thesis unfolding eq attach_reply_replay using rep(1) run(2) by simp
  next
    case False
    then have "\<not> rp_gap (replay_after n (ac_scrollback a'))" "k \<le> unat n" "unat n \<le> length h"
      using rep(1) by simp_all
    then show ?thesis unfolding eq attach_reply_replay using False rep(2)
      by (simp add: run(2) numbered_append) (simp add: replay_after_def Let_def)
  qed
  then show ?thesis using run(1,3,4) by blast
qed


section \<open>Leases\<close>

lemma attach_client_controller:
  assumes "attach_client vt env client n columns rows a = (outs, a')"
    and "ac_controller a = Some holder" "ac_controller a' \<noteq> Some holder"
  shows "client = holder \<and> ac_controller a' = None \<and> (\<exists>e. outs = [AttachReply holder (Inl e)])"
proof -
  obtain role a1 where l: "take_lease client a = (role, a1)" by fastforce
  have lf: "ac_controller a1 = Some holder" "client = holder \<or> role = Observer"
    using l assms(2) by (auto simp: take_lease_def split: if_splits)
  define x where "x = (if role = Controller \<and> ac_pending_exit a1 = None \<and> \<not> ac_exit_published a1
      then resize_terminal vt env columns rows a1 else (Inr (), [], a1))"
  obtain r outs2 a2 where xr: "x = (r, outs2, a2)" by (cases x) auto
  have fr: "ac_controller a2 = Some holder" "role = Observer \<Longrightarrow> r = Inr ()"
    using resize_terminal_frame(3) [of vt env columns rows a1] xr lf(1)
    by (auto simp: x_def split: if_splits)
  have quiet: "outs2 = []" if "r = Inl e" for e
    using xr that by (auto simp: x_def resize_terminal_def Let_def split: if_splits sum.splits)
  have "attach_client vt env client n columns rows a =
      (case x of
        (Inr _, outs, a2) \<Rightarrow> (outs @ [AttachReply client (Inr (attach_reply vt role n a2))], a2)
      | (Inl e, outs, a2) \<Rightarrow> (outs @ [AttachReply client (Inl e)], detach_client client a2))"
    by (simp add: attach_client_def l x_def)
  then show ?thesis
    using assms(1,3) fr lf(2) quiet unfolding xr
    by (cases r) (auto simp: detach_client_def split: if_splits)
qed

lemma publish_exit_controller:
  "ac_controller (outcome_actor b (publish_exit env outs a)) = ac_controller a"
  "WriterInput bs \<in> set (outcome_outputs (publish_exit env outs a)) \<longleftrightarrow> WriterInput bs \<in> set outs"
  by (cases rule: publish_exit_cases [of env outs a]; auto)+

lemma handle_controller_kept:
  assumes "ac_controller a = Some holder"
    and "ac_controller (outcome_actor a (handle vt env i a)) \<noteq> Some holder"
  shows "ac_controller (outcome_actor a (handle vt env i a)) = None
     \<and> (i = CmdDetach holder \<or> (\<exists>n columns rows e. i = CmdAttach holder n columns rows
         \<and> outcome_outputs (handle vt env i a) = [AttachReply holder (Inl e)]))"
proof (cases i)
  case (CmdAttach client n columns rows)
  obtain outs a' where x: "attach_client vt env client n columns rows a = (outs, a')"
    by fastforce
  show ?thesis using assms attach_client_controller [OF x assms(1)] CmdAttach x by auto
next
  case (CmdResizeFrom client columns rows)
  obtain r' outs a' where x: "resize_terminal vt env columns rows a = (r', outs, a')"
    by (cases "resize_terminal vt env columns rows a") auto
  show ?thesis using assms CmdResizeFrom x resize_terminal_frame(3) [OF x]
    by (simp split: if_splits)
next
  case (CmdResize columns rows)
  obtain r' outs a' where x: "resize_terminal vt env columns rows a = (r', outs, a')"
    by (cases "resize_terminal vt env columns rows a") auto
  show ?thesis using assms CmdResize x resize_terminal_frame(3) [OF x] by simp
next
  case (CmdStop reply)
  from terminate_process_tree_cases [of env a] show ?thesis
    using assms unfolding CmdStop
    by (elim disjE exE conjE) (simp_all add: close_writer_def Let_def split: if_splits)
qed (use assms in \<open>auto simp: detach_client_def inspect_process_tree_def close_writer_def
      drain_stop_replies_def Let_def split: if_splits option.splits\<close>)

lemma plain_no_input: "list_all plain_output outs \<Longrightarrow> WriterInput bs \<notin> set outs"
  by (induction outs) auto

text \<open>Which messages put bytes on the writer's queue.\<close>

lemma handle_input:
  assumes "WriterInput bs \<in> set (outcome_outputs (handle vt env i a))"
  shows "ac_writer_open a \<and> (i = CmdInput bs \<or>
     (\<exists>client. i = CmdInputFrom client bs \<and> ac_controller a = Some client))"
proof (cases i)
  case (CmdAttach client n columns rows)
  obtain outs a' where x: "attach_client vt env client n columns rows a = (outs, a')"
    by fastforce
  show ?thesis using assms CmdAttach x attach_client_frame [OF x] plain_no_input by simp
next
  case (CmdResizeFrom client columns rows)
  obtain r' outs a' where x: "resize_terminal vt env columns rows a = (r', outs, a')"
    by (cases "resize_terminal vt env columns rows a") auto
  show ?thesis using assms CmdResizeFrom x plain_no_input [OF resize_terminal_frame(2) [OF x]]
    by (simp split: if_splits)
next
  case (CmdResize columns rows)
  obtain r' outs a' where x: "resize_terminal vt env columns rows a = (r', outs, a')"
    by (cases "resize_terminal vt env columns rows a") auto
  show ?thesis using assms CmdResize x plain_no_input [OF resize_terminal_frame(2) [OF x]] by simp
next
  case (CmdStop reply)
  from terminate_process_tree_cases [of env a] show ?thesis
    using assms unfolding CmdStop
    by (elim disjE exE conjE) (simp_all add: close_writer_def Let_def split: if_splits)
qed (use assms in \<open>auto simp: queue_input_def close_writer_def drain_stop_replies_def
      inspect_process_tree_def Let_def split: if_splits option.splits\<close>)


section \<open>Reaping\<close>

lemma plain_no_stop: "list_all plain_output outs \<Longrightarrow> StopReply j r \<notin> set outs"
  by (induction outs) auto

lemma reaped_runtime: "ac_runtime a = ac_runtime b \<Longrightarrow> reaped env a = reaped env b"
  by (simp add: reaped_def)

lemma handle_runtime: "ac_runtime (outcome_actor a (handle vt env i a)) = ac_runtime a"
proof (cases i)
  case (CmdAttach client n columns rows)
  obtain outs a' where x: "attach_client vt env client n columns rows a = (outs, a')"
    by fastforce
  show ?thesis using CmdAttach x attach_client_frame [OF x] by (simp add: same_protocol_def)
next
  case (CmdResizeFrom client columns rows)
  obtain r' outs a' where x: "resize_terminal vt env columns rows a = (r', outs, a')"
    by (cases "resize_terminal vt env columns rows a") auto
  show ?thesis using CmdResizeFrom x resize_terminal_frame(1) [OF x]
    by (simp add: same_protocol_def split: if_splits)
next
  case (CmdResize columns rows)
  obtain r' outs a' where x: "resize_terminal vt env columns rows a = (r', outs, a')"
    by (cases "resize_terminal vt env columns rows a") auto
  show ?thesis using CmdResize x resize_terminal_frame(1) [OF x] by (simp add: same_protocol_def)
next
  case (CmdStop reply)
  from terminate_process_tree_cases [of env a] show ?thesis
    unfolding CmdStop by (elim disjE exE conjE) (simp_all add: close_writer_def Let_def)
qed (auto simp: detach_client_def inspect_process_tree_def close_writer_def
      drain_stop_replies_def Let_def split: if_splits option.splits)

lemma handle_stop_ok:
  assumes "StopReply j (Inr u) \<in> set (outcome_outputs (handle vt env i a))"
  shows "reaped env a \<and> (\<exists>outs a'. handle vt env i a = Returns outs a' \<and> ac_tree_empty a')"
proof (cases i)
  case (CmdAttach client n columns rows)
  obtain outs a' where x: "attach_client vt env client n columns rows a = (outs, a')"
    by fastforce
  show ?thesis using assms CmdAttach x attach_client_frame [OF x] plain_no_stop by simp
next
  case (CmdResizeFrom client columns rows)
  obtain r' outs a' where x: "resize_terminal vt env columns rows a = (r', outs, a')"
    by (cases "resize_terminal vt env columns rows a") auto
  show ?thesis using assms CmdResizeFrom x plain_no_stop [OF resize_terminal_frame(2) [OF x]]
    by (simp split: if_splits)
next
  case (CmdResize columns rows)
  obtain r' outs a' where x: "resize_terminal vt env columns rows a = (r', outs, a')"
    by (cases "resize_terminal vt env columns rows a") auto
  show ?thesis using assms CmdResize x plain_no_stop [OF resize_terminal_frame(2) [OF x]] by simp
next
  case (CmdStop reply)
  from terminate_process_tree_cases [of env a] show ?thesis
    using assms unfolding CmdStop
    by (elim disjE exE conjE) (simp_all add: close_writer_def Let_def split: if_splits)
qed (use assms in \<open>auto simp: queue_input_def close_writer_def drain_stop_replies_def
      inspect_process_tree_def Let_def split: if_splits option.splits\<close>)

lemma publish_exit_stop_ok:
  assumes "StopReply j (Inr u) \<in> set (outcome_outputs (publish_exit env outs a))"
    and "StopReply j (Inr u) \<notin> set outs"
  shows "reaped env a \<and> ac_tree_empty (outcome_actor b (publish_exit env outs a))"
  using assms by (cases rule: publish_exit_cases [of env outs a]) auto

lemma publish_exit_published_ok:
  assumes "ExitPublished code True \<in> set (outcome_outputs (publish_exit env outs a))"
    and "publications outs = 0"
  shows "reaped env a \<and> ac_tree_empty (outcome_actor b (publish_exit env outs a))"
proof -
  have "ExitPublished code True \<notin> set outs"
    using assms(2) by (force simp: publications_def filter_empty_conv)
  then show ?thesis using assms(1) by (cases rule: publish_exit_cases [of env outs a]) auto
qed

section \<open>Properties\<close>

text \<open>A terminal whose parser state carries nothing, and a small Session over it.\<close>

definition blank_vt :: "unit vt" where
  "blank_vt = \<lparr>vt_process = (\<lambda>_ t. t), vt_set_size_reflow = (\<lambda>_ _ _ t. t),
     vt_alternate_screen = (\<lambda>_. False), vt_state_formatted = (\<lambda>_. []),
     vt_input_mode_formatted = (\<lambda>_. []), vt_contents = (\<lambda>_. [])\<rparr>"

definition calm :: env where
  "calm = \<lparr>env_resize_ok = True, env_writer_ready = True, env_runtime_terminate_ok = True,
     env_terminate_ok = True, env_polls = [(Some False, None), (Some True, None)],
     env_inspect = (Some True, None)\<rparr>"

definition sample_ring :: scrollback where
  "sample_ring = \<lparr>sb_capacity = 16, sb_retained = 0, sb_latest = 0, sb_lost_through = 0,
     sb_chunks = []\<rparr>"

definition sample_actor :: "unit actor" where
  "sample_actor = actor_new False () sample_ring 80 24"

lemma sample_actor_facts:
  "actor_inv sample_actor" "refines [] 0 (ac_scrollback sample_actor)"
  "sb_capacity (ac_scrollback sample_actor) = 16"
  by (simp_all add: sample_actor_def actor_new_def actor_inv_def sample_ring_def refines_def)

text \<open>C7: a stop reports success, and the exit of a stopped Session is published, only in a pass in
  which both calls that terminate the owned process tree and, where there is one, the backend's
  succeeded and a poll then saw both empty; the state after that pass records that the trees are
  empty.\<close>

theorem stop_success_means_reaped:
  assumes "StopReply j (Inr ()) \<in> set (outcome_outputs (actor_step vt env i a))
     \<or> ExitPublished code True \<in> set (outcome_outputs (actor_step vt env i a))"
  shows "env_terminate_ok env \<and> (ac_runtime a \<longrightarrow> env_runtime_terminate_ok env)
     \<and> (\<exists>(tree, backend)\<in>set (env_polls env).
          tree = Some True \<and> (ac_runtime a \<longrightarrow> backend = Some True))
     \<and> ac_tree_empty (outcome_actor a (actor_step vt env i a))"
proof (cases "handle vt env i a")
  case Spins
  then show ?thesis using assms by (simp add: actor_step_def)
next
  case (Returns outs a')
  have "publications outs = 0" using handle_replies(2) [of vt env i a, OF refl] Returns by simp
  then have "ExitPublished code True \<notin> set outs" by (force simp: publications_def filter_empty_conv)
  then show ?thesis using assms Returns handle_stop_ok [of j "()" vt env i a]
    by (auto simp: actor_step_def reaped_def)
next
  case (Continues outs a')
  have "publications outs = 0" using handle_replies(2) [of vt env i a, OF refl] Continues by simp
  moreover have "StopReply j (Inr ()) \<notin> set outs"
    using handle_stop_ok [of j "()" vt env i a] Continues by auto
  ultimately have "reaped env a' \<and> ac_tree_empty (outcome_actor a (publish_exit env outs a'))"
    using assms Continues publish_exit_stop_ok [of j "()" env outs a' a]
      publish_exit_published_ok [of code env outs a' a]
    by (auto simp: actor_step_def)
  then show ?thesis using Continues handle_runtime [of a vt env i]
    by (auto simp: actor_step_def reaped_def)
qed

theorem stop_success_means_reaped_witness:
  "\<exists>outs a'. actor_step blank_vt calm (EvExited 0)
       (sample_actor\<lparr>ac_stop_requested := True, ac_stop_replies := [7]\<rparr>) = Returns outs a'
     \<and> StopReply 7 (Inr ()) \<in> set outs \<and> ac_tree_empty a'"
proof -
  let ?a = "sample_actor\<lparr>ac_stop_requested := True, ac_stop_replies := [7]\<rparr>"
  let ?r = "actor_step blank_vt calm (EvExited 0) ?a"
  obtain outs a' where r: "?r = Returns outs a'" "StopReply 7 (Inr ()) \<in> set outs"
    by (simp add: actor_step_def close_writer_def sample_actor_def actor_new_def publish_exit_def
        terminate_process_tree_def calm_def drain_stop_replies_def)
  have "ac_tree_empty (outcome_actor ?a ?r)"
    using stop_success_means_reaped [of 7 blank_vt calm "EvExited 0" ?a] r by simp
  then show ?thesis using r by auto
qed

text \<open>Accounting of a run: the exit of a Session is published at most once, and every stop
  request that was received is answered exactly once or still waits for its answer (a task that
  ended no longer receives the remaining messages).\<close>

theorem stop_requests_accounted:
  assumes "actor_inv a" "actor_run vt ms a = Some (outs, a', alive)"
  shows "publications outs \<le> 1
     \<and> answered outs + mset (ac_stop_replies a')
        \<subseteq># mset (ac_stop_replies a) + (\<Sum>\<^sub># (mset (map (\<lambda>m. issued (snd m)) ms)))
     \<and> (alive \<longrightarrow> answered outs + mset (ac_stop_replies a')
        = mset (ac_stop_replies a) + (\<Sum>\<^sub># (mset (map (\<lambda>m. issued (snd m)) ms))))"
proof -
  have "publications outs + (if ac_exit_published a then 1 else 0)
        \<le> (if ac_exit_published a' then 1 else 0)
     \<and> answered outs + mset (ac_stop_replies a')
        \<subseteq># mset (ac_stop_replies a) + (\<Sum>\<^sub># (mset (map (\<lambda>m. issued (snd m)) ms)))
     \<and> (alive \<longrightarrow> answered outs + mset (ac_stop_replies a')
        = mset (ac_stop_replies a) + (\<Sum>\<^sub># (mset (map (\<lambda>m. issued (snd m)) ms))))"
    using assms
  proof (induction ms arbitrary: a outs)
    case (Cons m ms)
    obtain env i where m: "m = (env, i)" by (cases m)
    let ?s = "actor_step vt env i a"
    note pub = actor_step_publications [OF Cons.prems(1), of vt env i]
    show ?case
    proof (cases ?s)
      case Spins
      then show ?thesis using Cons.prems(2) by (simp add: m)
    next
      case (Returns o1 a1)
      then have "outs = o1" "a' = a1" "\<not> alive" using Cons.prems(2) by (simp_all add: m)
      then show ?thesis using pub actor_step_replies [of vt env i a] Returns by (simp add: m)
    next
      case (Continues o1 a1)
      then obtain o2 where r: "actor_run vt ms a1 = Some (o2, a', alive)" "outs = o1 @ o2"
        using Cons.prems(2) by (auto simp: m split: option.splits)
      have i1: "actor_inv a1"
        using actor_next_inv(1) [OF Cons.prems(1), of vt "(env, i)"] Continues
        by (simp add: actor_next_def)
      have rep: "answered o1 + mset (ac_stop_replies a1) = mset (ac_stop_replies a) + issued i"
        using actor_step_replies [of vt env i a] Continues by simp
      note ih = Cons.IH [OF i1 r(1)]
      let ?S = "\<Sum>\<^sub># (mset (map (\<lambda>m. issued (snd m)) ms))"
      let ?P = "mset (ac_stop_replies a)" and ?P1 = "mset (ac_stop_replies a1)"
      let ?P' = "mset (ac_stop_replies a')"
      have shift: "answered o1 + (?P1 + ?S) = ?P + (issued i + ?S)"
        using rep by (metis add.assoc)
      have "answered o1 + (answered o2 + ?P') \<subseteq># answered o1 + (?P1 + ?S)"
        using ih by (intro subset_mset.add_left_mono) blast
      then have sub: "answered outs + ?P' \<subseteq># ?P + (issued i + ?S)"
        unfolding shift by (simp add: r(2) add.assoc)
      have eq: "alive \<longrightarrow> answered outs + ?P' = ?P + (issued i + ?S)"
        using ih shift by (simp add: r(2) add.assoc)
      have "publications outs + (if ac_exit_published a then 1 else 0)
          \<le> (if ac_exit_published a' then 1 else 0)"
        using ih pub Continues by (simp add: r(2))
      then show ?thesis using sub eq by (simp add: m)
    qed
  qed auto
  then show ?thesis by (auto split: if_splits)
qed

theorem stop_requests_accounted_witness:
  "\<exists>outs a' alive. actor_run blank_vt [(calm, CmdStop 7), (calm, CmdStop 8), (calm, EvExited 0)]
       sample_actor = Some (outs, a', alive) \<and> publications outs \<le> 1"
proof -
  let ?ms = "[(calm, CmdStop 7), (calm, CmdStop 8), (calm, EvExited 0)]"
  obtain outs a' where r: "actor_run blank_vt ?ms sample_actor = Some (outs, a', False)"
    by (simp add: actor_step_def close_writer_def sample_actor_def actor_new_def publish_exit_def
        terminate_process_tree_def calm_def drain_stop_replies_def Let_def)
  then show ?thesis using stop_requests_accounted [OF sample_actor_facts(1) r] by blast
qed

text \<open>C8: the lease: bytes reach the PTY on behalf of a client only while that client is the
  controller and the input is still open, an accepted attachment is the controller's exactly when
  the lease was free or its own, and no message of another client takes a held lease away: it
  only ends, and then is free, by its holder's detach or by an attach of its holder that is answered
  with an error.\<close>

theorem controller_lease_exclusive:
  assumes "actor_step vt env i a = r"
  shows "(WriterInput bs \<in> set (outcome_outputs r) \<longrightarrow>
        ac_writer_open a \<and> (i = CmdInput bs \<or>
          (\<exists>client. i = CmdInputFrom client bs \<and> ac_controller a = Some client)))
     \<and> (ac_controller a = Some holder \<longrightarrow> ac_controller (outcome_actor a r) \<noteq> Some holder \<longrightarrow>
          ac_controller (outcome_actor a r) = None
          \<and> (i = CmdDetach holder \<or> (\<exists>n columns rows e. i = CmdAttach holder n columns rows
              \<and> outcome_outputs (handle vt env i a) = [AttachReply holder (Inl e)])))
     \<and> (i = CmdAttach client n columns rows \<longrightarrow>
          AttachReply client (Inr att) \<in> set (outcome_outputs (handle vt env i a)) \<longrightarrow>
          (at_role att = Controller \<longleftrightarrow> ac_controller a = None \<or> ac_controller a = Some client))"
proof -
  have same: "ac_controller (outcome_actor a r) = ac_controller (outcome_actor a (handle vt env i a))"
    "WriterInput bs \<in> set (outcome_outputs r)
       \<longleftrightarrow> WriterInput bs \<in> set (outcome_outputs (handle vt env i a))"
    unfolding assms [symmetric] actor_step_def
    by (cases "handle vt env i a"; simp add: publish_exit_controller)+
  have att: "at_role att = Controller \<longleftrightarrow> ac_controller a = None \<or> ac_controller a = Some client"
    if "i = CmdAttach client n columns rows"
      "AttachReply client (Inr att) \<in> set (outcome_outputs (handle vt env i a))"
  proof -
    obtain outs a' where x: "attach_client vt env client n columns rows a = (outs, a')"
      by fastforce
    then show ?thesis using attach_client_accepted [OF x] that by simp
  qed
  show ?thesis unfolding same
    using handle_input [of bs vt env i a] handle_controller_kept [of a holder vt env i] att
    by blast
qed

theorem controller_lease_exclusive_witness:
  "WriterInput [9] \<notin> set (outcome_outputs
     (actor_step blank_vt calm (CmdInputFrom 3 [9]) (sample_actor\<lparr>ac_controller := Some 2\<rparr>)))"
  using controller_lease_exclusive
    [OF refl, of "[9]" blank_vt calm "CmdInputFrom 3 [9]" "sample_actor\<lparr>ac_controller := Some 2\<rparr>"]
  by auto

end
