(* ===== verification/Terminal_Relay.thy ===== *)
theory Terminal_Relay
  imports Session_Actor
begin

text \<open>
  From the terminal events of a Session to one attached client: the task that
  \<open>send_attachment\<close> spawns (\<open>crates/sylvops-daemon/src/daemon.rs\<close>). It reads a bounded broadcast
  channel that may lag behind and writes the bounded queue of the client without waiting; what it
  cannot forward is replaced by a checkpoint of the terminal. One turn of its loop is a step; what
  the channel, the queue and the checkpoint answer is part of the input.
\<close>

section \<open>Events\<close>

datatype terminal_event =
    TerminalOutputEvent output_chunk
  | TerminalResizedEvent u64 u64 u16 u16 bytes

text \<open>What the actor puts on the terminal broadcast, in order.\<close>

fun terminal_event_of :: "actor_output \<Rightarrow> terminal_event option" where
  "terminal_event_of (TerminalOutput c) = Some (TerminalOutputEvent c)"
| "terminal_event_of (TerminalResized revision sequence columns rows snapshot) =
     Some (TerminalResizedEvent revision sequence columns rows snapshot)"
| "terminal_event_of _ = None"

definition terminal_events :: "actor_output list \<Rightarrow> terminal_event list" where
  "terminal_events outs = List.map_filter terminal_event_of outs"

datatype client_event =
    SessionOutput session_id u64 bytes bool
  | ResynchronizationRequired session_id u64 u64 u16 u16 bytes

fun attachment_event :: "session_id \<Rightarrow> terminal_event \<Rightarrow> client_event" where
  "attachment_event i (TerminalOutputEvent c) = SessionOutput i (oc_sequence c) (oc_bytes c) False"
| "attachment_event i (TerminalResizedEvent revision sequence columns rows snapshot) =
     ResynchronizationRequired i sequence revision columns rows snapshot"

text \<open>The replay, sent before the task starts.\<close>

definition replay_events :: "session_id \<Rightarrow> attachment \<Rightarrow> client_event list" where
  "replay_events i att =
     map (\<lambda>c. SessionOutput i (oc_sequence c) (oc_bytes c) True) (rp_chunks (at_replay att))"

section \<open>The task\<close>

datatype queue_answer = Queued | QueueFull | QueueClosed

text \<open>The branches of \<open>select!\<close>. A received event carries whether it could be encoded, the answer of
  the client queue, and what a resynchronisation would give: \<open>None\<close> when the checkpoint or its
  delivery fails. A change of the deletion flag carries whether the Session is gone.\<close>

datatype relay_input =
    DeletionChanged bool
  | Received terminal_event bool queue_answer "checkpoint option"
  | Lagged nat "checkpoint option"
  | BroadcastClosed

datatype relay = Relaying bool | RelayEnded bool

text \<open>\<open>send_resync\<close>; the flag of an ended task says whether it reported its connection as failed.\<close>

definition send_resync :: "session_id \<Rightarrow> checkpoint option \<Rightarrow> bool \<Rightarrow> client_event list \<times> relay" where
  "send_resync i c pending = (case c of
       None \<Rightarrow> ([], RelayEnded True)
     | Some c \<Rightarrow> ([ResynchronizationRequired i (cp_sequence c) (cp_revision c) (cp_columns c) (cp_rows c)
                    (cp_snapshot c)], Relaying pending))"

fun relay_step :: "session_id \<Rightarrow> relay_input \<Rightarrow> relay \<Rightarrow> client_event list \<times> relay" where
  "relay_step i x (RelayEnded failed) = ([], RelayEnded failed)"
| "relay_step i (DeletionChanged gone) (Relaying pending) =
     ([], if gone then RelayEnded False else Relaying pending)"
| "relay_step i (Received e encoded answer c) (Relaying pending) =
     (if \<not> encoded then ([], RelayEnded False)
      else case answer of
             Queued \<Rightarrow> ([attachment_event i e], Relaying False)
           | QueueFull \<Rightarrow> if \<not> pending then send_resync i c True else ([], Relaying pending)
           | QueueClosed \<Rightarrow> ([], RelayEnded True))"
| "relay_step i (Lagged missed c) (Relaying pending) = send_resync i c pending"
| "relay_step i BroadcastClosed (Relaying pending) = ([], RelayEnded False)"

fun relay_run :: "session_id \<Rightarrow> relay_input list \<Rightarrow> relay \<Rightarrow> client_event list \<times> relay" where
  "relay_run i [] s = ([], s)"
| "relay_run i (x # xs) s =
     (let (es, s1) = relay_step i x s; (es', s2) = relay_run i xs s1 in (es @ es', s2))"

text \<open>\<open>send_attachment\<close>: the task ends at once for a Session that is already deleted.\<close>

definition send_attachment :: "session_id \<Rightarrow> attachment \<Rightarrow> bool \<Rightarrow> relay_input list \<Rightarrow> client_event list \<times> relay" where
  "send_attachment i att deleted xs =
     (let (es, s) = relay_run i xs (if deleted then RelayEnded False else Relaying False)
      in (replay_events i att @ es, s))"

section \<open>What the channel delivers and what the client gets\<close>

text \<open>The schedules of a broadcast receiver: it delivers the events in order, and a lag drops the
  oldest of them.\<close>

fun reads :: "relay_input list \<Rightarrow> terminal_event list \<Rightarrow> bool" where
  "reads [] es = True"
| "reads (Received e encoded answer c # xs) es = (case es of [] \<Rightarrow> False | f # fs \<Rightarrow> e = f \<and> reads xs fs)"
| "reads (Lagged n c # xs) es = (0 < n \<and> n \<le> length es \<and> reads xs (drop n es))"
| "reads (x # xs) es = reads xs es"

text \<open>A schedule without loss: the channel never lags, the Session stays, and the queue takes every
  event.\<close>

fun keeps_up :: "relay_input \<Rightarrow> bool" where
  "keeps_up (DeletionChanged gone) = (\<not> gone)"
| "keeps_up (Received e encoded answer c) = (encoded \<and> answer = Queued)"
| "keeps_up _ = False"

definition taken :: "relay_input list \<Rightarrow> terminal_event list" where
  "taken xs = List.map_filter (\<lambda>x. case x of Received e _ _ _ \<Rightarrow> Some e | _ \<Rightarrow> None) xs"

definition event_chunks :: "terminal_event list \<Rightarrow> output_chunk list" where
  "event_chunks es = List.map_filter (\<lambda>e. case e of TerminalOutputEvent c \<Rightarrow> Some c | _ \<Rightarrow> None) es"

definition client_chunks :: "client_event list \<Rightarrow> output_chunk list" where
  "client_chunks es = List.map_filter (\<lambda>e. case e of
       SessionOutput i n bs r \<Rightarrow> Some \<lparr>oc_sequence = n, oc_bytes = bs\<rparr> | _ \<Rightarrow> None) es"

fun is_resync :: "client_event \<Rightarrow> bool" where
  "is_resync (ResynchronizationRequired _ _ _ _ _ _) = True"
| "is_resync _ = False"

named_theorems relay_simps

lemma map_filter_step [relay_simps]:
  "List.map_filter f [] = []"
  "List.map_filter f (x # xs) = (case f x of None \<Rightarrow> List.map_filter f xs | Some y \<Rightarrow> y # List.map_filter f xs)"
  by (simp_all add: List.map_filter_def split: option.split)

lemma map_filter_join: "List.map_filter f (xs @ ys) = List.map_filter f xs @ List.map_filter f ys"
  by (simp add: List.map_filter_def)

lemma client_chunks_simps [simp]:
  "client_chunks [] = []" "client_chunks (es @ es') = client_chunks es @ client_chunks es'"
  "client_chunks (SessionOutput i n bs r # es) = \<lparr>oc_sequence = n, oc_bytes = bs\<rparr> # client_chunks es"
  "client_chunks (ResynchronizationRequired i n v w l s # es) = client_chunks es"
  by (simp_all add: client_chunks_def relay_simps map_filter_join)

lemma event_chunks_simps [simp]:
  "event_chunks [] = []" "event_chunks (es @ es') = event_chunks es @ event_chunks es'"
  "event_chunks (TerminalOutputEvent c # es) = c # event_chunks es"
  "event_chunks (TerminalResizedEvent n v w l s # es) = event_chunks es"
  by (simp_all add: event_chunks_def relay_simps map_filter_join)

lemma taken_simps [simp]:
  "taken [] = []" "taken (Received e b a c # xs) = e # taken xs" "taken (Lagged n c # xs) = taken xs"
  "taken (DeletionChanged b # xs) = taken xs" "taken (BroadcastClosed # xs) = taken xs"
  by (simp_all add: taken_def relay_simps)

lemma event_chunks_mono: "prefix es es' \<Longrightarrow> prefix (event_chunks es) (event_chunks es')"
  by (auto simp: prefix_def)

text \<open>The chunks of the terminal events are the live chunks of the actor.\<close>

lemma terminal_event_chunks: "event_chunks (terminal_events outs) = live_chunks outs"
proof (induction outs)
  case (Cons x outs)
  have "event_chunks (terminal_events (x # outs)) = (case x of TerminalOutput c \<Rightarrow> [c] | _ \<Rightarrow> [])
      @ event_chunks (terminal_events outs)"
    by (cases x) (simp_all add: terminal_events_def relay_simps)
  then show ?case using Cons by (simp add: live_chunks_def)
qed (simp add: terminal_events_def live_chunks_def relay_simps)

lemma client_chunks_replay: "client_chunks (replay_events i att) = rp_chunks (at_replay att)"
  by (simp add: replay_events_def client_chunks_def List.map_filter_def comp_def map_idI)

lemma client_chunks_event: "client_chunks [attachment_event i e] = event_chunks [e]"
  by (cases e) simp_all

lemma relay_run_ended [simp]: "relay_run i xs (RelayEnded b) = ([], RelayEnded b)"
  by (induction xs) simp_all

lemma relay_run_Cons:
  "fst (relay_run i (x # xs) s) = fst (relay_step i x s) @ fst (relay_run i xs (snd (relay_step i x s)))"
  by (simp add: Let_def split: prod.split)

text \<open>A schedule without loss forwards everything it takes.\<close>

lemma relay_keeps_up:
  "list_all keeps_up xs \<Longrightarrow>
     fst (relay_run i xs (Relaying p)) = map (attachment_event i) (taken xs)"
proof (induction xs arbitrary: p)
  case (Cons x xs)
  then show ?case by (cases x) (simp_all add: relay_run_Cons del: relay_run.simps)
qed simp

lemma reads_prefix:
  "list_all keeps_up xs \<Longrightarrow> reads xs es \<Longrightarrow> prefix (taken xs) es"
proof (induction xs arbitrary: es)
  case (Cons x xs)
  then show ?case by (cases x) (auto split: list.splits)
qed simp

lemma client_chunks_events: "client_chunks (map (attachment_event i) es) = event_chunks es"
proof (induction es)
  case (Cons e es)
  then show ?case by (cases e) simp_all
qed simp

text \<open>Whatever the schedule, the client gets a subsequence of the stream, and before the first event
  it misses it got a checkpoint, or nothing more at all.\<close>

definition resync_event :: "session_id \<Rightarrow> checkpoint \<Rightarrow> client_event" where
  "resync_event i c = ResynchronizationRequired i (cp_sequence c) (cp_revision c) (cp_columns c) (cp_rows c)
     (cp_snapshot c)"

definition announced :: "session_id \<Rightarrow> terminal_event list \<Rightarrow> client_event list \<Rightarrow> bool" where
  "announced i es out \<longleftrightarrow> (\<exists>fs rest. prefix fs es \<and> out = map (attachment_event i) fs @ rest
     \<and> (rest = [] \<or> (\<exists>c. hd rest = resync_event i c)))"

lemma send_resync_eq:
  "send_resync i None p = ([], RelayEnded True)"
  "send_resync i (Some c) p = ([resync_event i c], Relaying p)"
  by (simp_all add: send_resync_def resync_event_def)

lemma announced_Nil [simp]: "announced i es []"
  by (auto simp: announced_def)

lemma announced_resync [simp]: "announced i es (resync_event i c # out)"
  unfolding announced_def by (intro exI [of _ "[]"] exI [of _ "resync_event i c # out"]) auto

lemma announced_Cons:
  assumes "announced i es out"
  shows "announced i (e # es) (attachment_event i e # out)"
proof -
  obtain fs rest where "prefix fs es" "out = map (attachment_event i) fs @ rest"
    "rest = [] \<or> (\<exists>c. hd rest = resync_event i c)"
    using assms by (auto simp: announced_def)
  then show ?thesis unfolding announced_def by (intro exI [of _ "e # fs"] exI [of _ rest]) simp
qed

lemma relay_announces:
  "reads xs es \<Longrightarrow> announced i es (fst (relay_run i xs (Relaying False)))"
proof (induction xs arbitrary: es)
  case (Cons x xs)
  show ?case
  proof (cases x)
    case (Received e encoded answer c)
    then obtain fs where es: "es = e # fs" "reads xs fs" using Cons.prems by (auto split: list.splits)
    show ?thesis
    proof (cases answer)
      case Queued
      then show ?thesis using Received es announced_Cons [OF Cons.IH [OF es(2)]]
        by (simp add: relay_run_Cons del: relay_run.simps)
    next
      case QueueFull
      then show ?thesis using Received
        by (cases c) (simp_all add: send_resync_eq relay_run_Cons del: relay_run.simps(2))
    qed (use Received in simp)
  next
    case (Lagged n c)
    then show ?thesis
      by (cases c) (simp_all add: send_resync_eq relay_run_Cons del: relay_run.simps(2))
  next
    case (DeletionChanged gone)
    then show ?thesis using Cons by (simp add: relay_run_Cons del: relay_run.simps(2))
  qed simp
qed simp

lemma client_chunks_resync [simp]: "client_chunks (resync_event i c # es) = client_chunks es"
  by (simp add: resync_event_def)

lemma relay_subsequence:
  "reads xs es \<Longrightarrow> subseq (client_chunks (fst (relay_run i xs s))) (event_chunks es)"
proof (induction xs arbitrary: es s)
  case (Cons x xs)
  show ?case
  proof (cases s)
    case (Relaying p)
    show ?thesis
    proof (cases x)
      case (Received e encoded answer c)
      then obtain fs where es: "es = e # fs" "reads xs fs" using Cons.prems by (auto split: list.splits)
      have ec: "event_chunks es = event_chunks [e] @ event_chunks fs"
        using event_chunks_simps(2) [of "[e]" fs] es(1) by simp
      have skip: "subseq (client_chunks (fst (relay_run i xs q))) (event_chunks es)" for q
        unfolding ec by (rule list_emb_append2 [OF Cons.IH [OF es(2)]])
      have forward: "subseq (client_chunks (attachment_event i e # fst (relay_run i xs q))) (event_chunks es)" for q
        using list_emb_append_mono [OF subseq_order.refl Cons.IH [OF es(2)], of "event_chunks [e]" q]
          client_chunks_event [of i e] client_chunks_simps(2) [of "[attachment_event i e]"]
        unfolding ec by (metis append_Cons append_Nil)
      show ?thesis
        using Received Relaying skip forward
        by (cases encoded; cases answer; cases p; cases c)
          (simp_all add: send_resync_eq relay_run_Cons del: relay_run.simps(2) client_chunks_simps(2))
    next
      case (Lagged n c)
      have "event_chunks es = event_chunks (take n es) @ event_chunks (drop n es)"
        using event_chunks_simps(2) [of "take n es" "drop n es"] by simp
      then have "subseq (client_chunks (fst (relay_run i xs q))) (event_chunks es)" for q
        using Cons.IH [of "drop n es" q] Cons.prems Lagged by (simp add: list_emb_append2)
      then show ?thesis using Lagged Relaying
        by (cases c) (simp_all add: send_resync_eq relay_run_Cons del: relay_run.simps(2))
    next
      case (DeletionChanged gone)
      then show ?thesis using Cons Relaying by (simp add: relay_run_Cons del: relay_run.simps(2))
    qed (use Relaying in simp)
  qed simp
qed simp

text \<open>Once a checkpoint was sent for a full queue, further events are dropped while the queue stays full,
  and the next one that fits is forwarded: no second checkpoint tells the client of the events between.\<close>

lemma losses_after_checkpoint_are_silent:
  "relay_run i (map (\<lambda>e. Received e True QueueFull (answer e)) es @ [Received f True Queued c]) (Relaying True)
     = ([attachment_event i f], Relaying False)"
  by (induction es) simp_all

section \<open>Continuity\<close>

text \<open>The chunks owed to a client that asked for what follows number \<open>n\<close> when \<open>h\<close> had been printed and the
  first \<open>k\<close> chunks of it were gone, and \<open>bs\<close> was printed later.\<close>

definition owed :: "nat \<Rightarrow> nat \<Rightarrow> bytes list \<Rightarrow> bytes list \<Rightarrow> output_chunk list" where
  "owed k n h bs = (if n > length h \<or> n < k then numbered (length h) bs else numbered n (drop n (h @ bs)))"

text \<open>C9: attaching is atomic with respect to output, and the way to the client keeps what it forwards
  in order. A client attaches after the history \<open>h\<close> was printed and asks for what follows sequence
  number \<open>n\<close>; then \<open>ms\<close> is handled. Whatever the schedule of its forwarding task (the broadcast channel
  may lag and drop events, the queue of the client may be full), the replay and the live chunks it
  receives are a subsequence of the chunks after the \<open>n\<close>-th (with a gap: the replay is the terminal
  snapshot and the chunks are those after the history), so nothing is duplicated or reordered; the
  first event that is not forwarded is preceded by everything before it and followed by a checkpoint
  or by nothing; and when the channel does not lag and the queue takes every event, the replay and the
  live chunks join without loss.\<close>

theorem attachment_is_continuous:
  assumes "refines h k (ac_scrollback a)"
    and "attach_client vt env client n columns rows a = (outs, a')"
    and "AttachReply client (Inr att) \<in> set outs"
    and "\<forall>bs\<in>set (pty_output ms). length bs \<le> sb_capacity (ac_scrollback a)"
    and "length h + length ms + 1 < 2 ^ 64"
  shows "\<exists>live a2 alive bs. actor_run vt ms a' = Some (live, a2, alive)
     \<and> prefix bs (pty_output ms) \<and> (alive \<longrightarrow> bs = pty_output ms)
     \<and> rp_snapshot (at_replay att) = (if unat n > length h \<or> unat n < k
          then Some (terminal_snapshot vt (ac_terminal a')) else None)
     \<and> (\<forall>xs out s. reads xs (terminal_events live) \<longrightarrow> send_attachment i att deleted xs = (out, s) \<longrightarrow>
            subseq (client_chunks out) (owed k (unat n) h bs)
          \<and> (\<exists>fs rest. prefix fs (terminal_events live)
               \<and> out = replay_events i att @ map (attachment_event i) fs @ rest
               \<and> (rest = [] \<or> (\<exists>c. hd rest = resync_event i c)))
          \<and> (\<not> deleted \<longrightarrow> list_all keeps_up xs \<longrightarrow> taken xs = terminal_events live \<longrightarrow>
               client_chunks out = owed k (unat n) h bs))"
proof -
  obtain live a2 alive bs where run: "actor_run vt ms a' = Some (live, a2, alive)"
    "prefix bs (pty_output ms)" "alive \<longrightarrow> bs = pty_output ms"
    and joined: "if unat n > length h \<or> unat n < k
        then rp_chunks (at_replay att) = []
             \<and> rp_snapshot (at_replay att) = Some (terminal_snapshot vt (ac_terminal a'))
             \<and> live_chunks live = numbered (length h) bs
        else rp_snapshot (at_replay att) = None
             \<and> rp_chunks (at_replay att) @ live_chunks live
                 = numbered (unat n) (drop (unat n) (h @ bs))"
    using attachment_joins [OF assms] by blast
  have snap: "rp_snapshot (at_replay att) = (if unat n > length h \<or> unat n < k
          then Some (terminal_snapshot vt (ac_terminal a')) else None)"
    using joined by (simp split: if_splits)
  have owes: "owed k (unat n) h bs = rp_chunks (at_replay att) @ event_chunks (terminal_events live)"
    using joined by (simp add: owed_def terminal_event_chunks split: if_splits)
  have sent: "subseq (client_chunks out) (owed k (unat n) h bs)
      \<and> (\<exists>fs rest. prefix fs (terminal_events live)
           \<and> out = replay_events i att @ map (attachment_event i) fs @ rest
           \<and> (rest = [] \<or> (\<exists>c. hd rest = resync_event i c)))
      \<and> (\<not> deleted \<longrightarrow> list_all keeps_up xs \<longrightarrow> taken xs = terminal_events live \<longrightarrow>
           client_chunks out = owed k (unat n) h bs)"
    if "reads xs (terminal_events live)" "send_attachment i att deleted xs = (out, s)" for xs out s
  proof -
    define sent where "sent = fst (relay_run i xs (if deleted then RelayEnded False else Relaying False))"
    have out: "out = replay_events i att @ sent"
      using that(2) by (cases deleted) (auto simp: send_attachment_def sent_def split: prod.splits)
    have "subseq (client_chunks sent) (event_chunks (terminal_events live))"
      unfolding sent_def by (rule relay_subsequence [OF that(1)])
    then have "subseq (client_chunks out) (owed k (unat n) h bs)"
      by (simp add: out owes client_chunks_replay list_emb_append_mono)
    moreover have "announced i (terminal_events live) sent"
      using relay_announces [OF that(1)] by (simp add: sent_def)
    moreover have "client_chunks sent = event_chunks (terminal_events live)"
      if "\<not> deleted" "list_all keeps_up xs" "taken xs = terminal_events live"
      using relay_keeps_up [OF that(2)] that(1,3) by (simp add: sent_def client_chunks_events)
    ultimately show ?thesis unfolding announced_def out owes
      by (metis append.assoc client_chunks_replay client_chunks_simps(2))
  qed
  then show ?thesis using run snap by blast
qed

theorem attachment_is_continuous_witness:
  "\<exists>outs a' att live a2 alive. attach_client blank_vt calm 3 0 80 24 sample_actor = (outs, a')
     \<and> AttachReply 3 (Inr att) \<in> set outs
     \<and> actor_run blank_vt [(calm, EvOutput [1, 2])] a' = Some (live, a2, alive)"
proof -
  define a1 where "a1 = sample_actor\<lparr>ac_controller := Some 3\<rparr>"
  have x: "attach_client blank_vt calm 3 0 80 24 sample_actor
      = ([AttachReply 3 (Inr (attach_reply blank_vt Controller 0 a1))], a1)"
    by (simp add: attach_client_def take_lease_def sample_actor_def actor_new_def
        resize_terminal_def validate_terminal_size_def a1_def)
  have m: "AttachReply 3 (Inr (attach_reply blank_vt Controller 0 a1))
      \<in> set [AttachReply 3 (Inr (attach_reply blank_vt Controller 0 a1))]" by simp
  have "\<forall>bs\<in>set (pty_output [(calm, EvOutput [1, 2])]).
      length bs \<le> sb_capacity (ac_scrollback sample_actor)"
    by (simp add: pty_output_def sample_actor_facts(3))
  then obtain live a2 alive where "actor_run blank_vt [(calm, EvOutput [1, 2])] a1 = Some (live, a2, alive)"
    using attachment_is_continuous [OF sample_actor_facts(2) x m, of "[(calm, EvOutput [1, 2])]"
        "SessionId 7" False] by (auto simp: sample_actor_def)
  then show ?thesis using x m by blast
qed

end
