(* ===== verification/Coordinators.thy ===== *)
theory Coordinators
  imports Sylvops_Prelude
begin

text \<open>
  The two coordinators that order application-wide work in
  \<open>crates/sylvops-daemon/src/daemon.rs\<close> (lines 303-479): \<open>LifecycleCoordinator\<close>, which lets any
  number of activities run or one quiesce hold the application still, and
  \<open>ApplicationMutationCoordinator\<close>, which admits one application mutation at a time and hands a
  detached one over to its finalization. Each atomic operation on the shared fields is one step
  of one task; the steps of all tasks interleave freely. The steps are sequentially consistent: the
  release/acquire orderings the code asks for are weaker, and what they additionally allow is not
  modelled. In particular \<open>begin\<close> writes the counter and then reads the flag while \<open>quiesce\<close> writes
  the flag and then reads the counter, and without a total order of the four accesses both may read
  the old value.
\<close>

section \<open>LifecycleCoordinator\<close>

text \<open>
  Where a task is in \<open>begin\<close> (after the first load, after \<open>fetch_add\<close>, before the undoing
  \<open>fetch_sub\<close>), with a \<open>LifecycleActivity\<close>, or in \<open>quiesce\<close> (after the compare-exchange, with a
  \<open>LifecycleQuiesce\<close>, after its \<open>commit\<close>).
\<close>

datatype lifecycle_pc =
  Idle | BeginChecked | BeginCounted | BeginRefusing | ActivityHeld
  | QuiesceClaimed | QuiesceHeld | QuiesceCommitted

record lifecycle =
  lc_quiescing :: bool
  lc_activities :: u32
  lc_tasks :: "lifecycle_pc list"

definition lifecycle_new :: "nat \<Rightarrow> lifecycle" where
  "lifecycle_new tasks =
     \<lparr>lc_quiescing = False, lc_activities = 0, lc_tasks = replicate tasks Idle\<rparr>"

datatype lifecycle_action =
  BeginLoad | BeginCount | BeginRecheck | BeginUncount | ActivityDrop
  | QuiesceClaim | QuiescePoll | QuiesceTimeout | QuiesceCommit | QuiesceDrop

text \<open>
  One atomic operation of a task on \<open>quiescing\<close> and \<open>activities\<close>. \<open>fetch_add\<close> and \<open>fetch_sub\<close>
  wrap. The poll of \<open>quiesce\<close> that finds activities waits for the next notification (its task
  stays where it is) or, at the deadline, gives the claim back.
\<close>

fun lifecycle_atomic ::
    "lifecycle_action \<Rightarrow> lifecycle_pc \<Rightarrow> bool \<times> u32 \<Rightarrow> (lifecycle_pc \<times> bool \<times> u32) option" where
  "lifecycle_atomic BeginLoad Idle (q, n) = Some (if q then Idle else BeginChecked, q, n)"
| "lifecycle_atomic BeginCount BeginChecked (q, n) = Some (BeginCounted, q, n + 1)"
| "lifecycle_atomic BeginRecheck BeginCounted (q, n) =
     Some (if q then BeginRefusing else ActivityHeld, q, n)"
| "lifecycle_atomic BeginUncount BeginRefusing (q, n) = Some (Idle, q, n - 1)"
| "lifecycle_atomic ActivityDrop ActivityHeld (q, n) = Some (Idle, q, n - 1)"
| "lifecycle_atomic QuiesceClaim Idle (q, n) = Some (if q then Idle else QuiesceClaimed, True, n)"
| "lifecycle_atomic QuiescePoll QuiesceClaimed (q, n) =
     Some (if n = 0 then QuiesceHeld else QuiesceClaimed, q, n)"
| "lifecycle_atomic QuiesceTimeout QuiesceClaimed (q, n) = Some (Idle, False, n)"
| "lifecycle_atomic QuiesceCommit QuiesceHeld (q, n) = Some (QuiesceCommitted, q, n)"
| "lifecycle_atomic QuiesceDrop QuiesceHeld (q, n) = Some (Idle, False, n)"
| "lifecycle_atomic _ _ _ = None"

inductive lifecycle_step :: "lifecycle \<Rightarrow> lifecycle \<Rightarrow> bool" where
  lifecycle_task:
  "i < length (lc_tasks s) \<Longrightarrow>
   lifecycle_atomic a (lc_tasks s ! i) (lc_quiescing s, lc_activities s) = Some (pc, q, n) \<Longrightarrow>
   lifecycle_step s \<lparr>lc_quiescing = q, lc_activities = n, lc_tasks = (lc_tasks s)[i := pc]\<rparr>"

inductive_cases lifecycle_stepE: "lifecycle_step s t"

fun_cases lifecycle_atomicE: "lifecycle_atomic a pc qn = Some r"

text \<open>The tasks \<open>activities\<close> counts, and the tasks that own \<open>quiescing\<close>.\<close>

fun counted :: "lifecycle_pc \<Rightarrow> bool" where
  "counted BeginCounted = True"
| "counted BeginRefusing = True"
| "counted ActivityHeld = True"
| "counted _ = False"

fun owns_quiesce :: "lifecycle_pc \<Rightarrow> bool" where
  "owns_quiesce QuiesceClaimed = True"
| "owns_quiesce QuiesceHeld = True"
| "owns_quiesce QuiesceCommitted = True"
| "owns_quiesce _ = False"

fun holds_still :: "lifecycle_pc \<Rightarrow> bool" where
  "holds_still QuiesceHeld = True"
| "holds_still QuiesceCommitted = True"
| "holds_still _ = False"

definition active_tasks :: "lifecycle \<Rightarrow> nat" where
  "active_tasks s = tally (\<lambda>pc. pc = ActivityHeld) (lc_tasks s)"

definition lifecycle_inv :: "lifecycle \<Rightarrow> bool" where
  "lifecycle_inv s \<longleftrightarrow>
     length (lc_tasks s) < 2 ^ 32
     \<and> unat (lc_activities s) = tally counted (lc_tasks s)
     \<and> tally owns_quiesce (lc_tasks s) = (if lc_quiescing s then 1 else 0)
     \<and> (0 < tally holds_still (lc_tasks s) \<longrightarrow> active_tasks s = 0)"

lemma active_le_counted: "active_tasks s \<le> tally counted (lc_tasks s)"
  unfolding active_tasks_def by (rule tally_mono) auto

lemma holds_le_owns: "tally holds_still xs \<le> tally owns_quiesce xs"
  by (rule tally_mono) (metis holds_still.simps owns_quiesce.simps(1-3) lifecycle_pc.exhaust)

lemma unat_inc_dec:
  fixes n :: u32
  shows "unat n < 2 ^ 32 - 1 \<Longrightarrow> unat (n + 1) = unat n + 1"
    and "0 < unat n \<Longrightarrow> unat (n - 1) = unat n - 1"
proof -
  show "unat n < 2 ^ 32 - 1 \<Longrightarrow> unat (n + 1) = unat n + 1"
    by (simp add: unat_word_ariths)
  show "0 < unat n \<Longrightarrow> unat (n - 1) = unat n - 1"
    by (subst unat_sub) (simp_all add: word_le_nat_alt)
qed

text \<open>Every interleaving keeps the books: the invariant holds in each reachable state.\<close>

lemma lifecycle_inv_new: "n < 2 ^ 32 \<Longrightarrow> lifecycle_inv (lifecycle_new n)"
  by (simp add: lifecycle_inv_def lifecycle_new_def active_tasks_def)

lemma lifecycle_inv_step:
  assumes inv: "lifecycle_inv s" and step: "lifecycle_step s t"
  shows "lifecycle_inv t"
proof -
  from step obtain i a pc q n where i: "i < length (lc_tasks s)"
    and act: "lifecycle_atomic a (lc_tasks s ! i) (lc_quiescing s, lc_activities s) = Some (pc, q, n)"
    and t: "t = \<lparr>lc_quiescing = q, lc_activities = n, lc_tasks = (lc_tasks s)[i := pc]\<rparr>"
    by (rule lifecycle_stepE) blast
  note upd = tally_update [OF i, of counted pc] tally_update [OF i, of owns_quiesce pc]
    tally_update [OF i, of holds_still pc] tally_update [OF i, of "\<lambda>p. p = ActivityHeld" pc]
  note bounds = active_le_counted [of s] holds_le_owns [of "lc_tasks s"]
    tally_less [OF i, of counted] tally_pos [OF i, of counted]
  show ?thesis
    using act upd bounds inv i unat_inc_dec [of "lc_activities s"]
    unfolding t lifecycle_inv_def active_tasks_def
    by (elim lifecycle_atomicE) (auto split: if_splits simp: unat_eq_0)
qed

interpretation lifecycle: transition_system
    "\<lambda>s. \<exists>n < 2 ^ 32. s = lifecycle_new n" lifecycle_step lifecycle_inv
  by unfold_locales (auto intro: lifecycle_inv_new lifecycle_inv_step)

subsection \<open>Draining\<close>

text \<open>
  The steps taken while \<open>quiescing\<close> stays set, without those that change nothing (a refused
  \<open>begin\<close> or \<open>quiesce\<close>, a poll that goes back to waiting).
\<close>

definition drain_step :: "lifecycle \<Rightarrow> lifecycle \<Rightarrow> bool" where
  "drain_step s t \<longleftrightarrow> lifecycle_step s t \<and> lc_quiescing s \<and> lc_quiescing t \<and> t \<noteq> s"

fun steps_left :: "lifecycle_pc \<Rightarrow> nat" where
  "steps_left BeginChecked = 3"
| "steps_left BeginCounted = 2"
| "steps_left BeginRefusing = 1"
| "steps_left ActivityHeld = 1"
| "steps_left QuiesceClaimed = 2"
| "steps_left QuiesceHeld = 1"
| "steps_left _ = 0"

definition drain_left :: "lifecycle \<Rightarrow> nat" where
  "drain_left s = sum_list (map steps_left (lc_tasks s))"

lemma drain_left_le: "drain_left s \<le> 3 * length (lc_tasks s)"
proof -
  have "sum_list (map steps_left xs) \<le> 3 * length xs" for xs
  proof (induction xs)
    case (Cons x xs)
    then show ?case by (cases x) auto
  qed simp
  then show ?thesis by (simp add: drain_left_def)
qed

lemma sum_list_update_less:
  "i < length xs \<Longrightarrow> f y < (f (xs ! i) :: nat) \<Longrightarrow>
     sum_list (map f (xs[i := y])) < sum_list (map f xs)"
proof (induction xs arbitrary: i)
  case (Cons x xs)
  then show ?case by (cases i) auto
qed simp

lemma drain_step_less:
  assumes "drain_step s t"
  shows "drain_left t < drain_left s"
proof -
  from assms have ne: "t \<noteq> s" "lc_quiescing s" "lc_quiescing t" and "lifecycle_step s t"
    by (auto simp: drain_step_def)
  then obtain i a pc q n where i: "i < length (lc_tasks s)"
    and act: "lifecycle_atomic a (lc_tasks s ! i) (lc_quiescing s, lc_activities s) = Some (pc, q, n)"
    and t: "t = \<lparr>lc_quiescing = q, lc_activities = n, lc_tasks = (lc_tasks s)[i := pc]\<rparr>"
    by (auto elim!: lifecycle_stepE)
  have "steps_left pc < steps_left (lc_tasks s ! i)"
  proof -
    have "pc \<noteq> lc_tasks s ! i \<or> q \<noteq> lc_quiescing s \<or> n \<noteq> lc_activities s"
      using ne unfolding t by (cases s) auto
    moreover have "q" using ne(3) by (simp add: t)
    ultimately show ?thesis using act ne(2)
      by (elim lifecycle_atomicE) (auto split: if_splits)
  qed
  then show ?thesis using i by (simp add: drain_left_def t sum_list_update_less)
qed

interpretation quiesce: draining drain_step lifecycle_inv drain_left
  by unfold_locales (auto simp: drain_step_def intro: lifecycle_inv_step drain_step_less)

lemma drain_progress:
  assumes inv: "lifecycle_inv s" and q: "lc_quiescing s" and n: "lc_activities s \<noteq> 0"
  shows "\<exists>t. drain_step s t"
proof -
  have "0 < tally counted (lc_tasks s)"
    using inv n by (metis lifecycle_inv_def neq0_conv unat_eq_0)
  then obtain i where i: "i < length (lc_tasks s)" "counted (lc_tasks s ! i)"
    using tally_0 [of counted "lc_tasks s"] by auto
  then obtain a where "\<exists>pc n. lifecycle_atomic a (lc_tasks s ! i) (lc_quiescing s, lc_activities s)
      = Some (pc, True, n) \<and> pc \<noteq> lc_tasks s ! i"
    using q by (cases "lc_tasks s ! i")
      (auto intro: that [of BeginRecheck] that [of BeginUncount] that [of ActivityDrop])
  then obtain pc m where act: "lifecycle_atomic a (lc_tasks s ! i) (lc_quiescing s, lc_activities s)
      = Some (pc, True, m)" and pc: "pc \<noteq> lc_tasks s ! i" by blast
  let ?t = "\<lparr>lc_quiescing = True, lc_activities = m, lc_tasks = (lc_tasks s)[i := pc]\<rparr>"
  have "lc_tasks ?t ! i \<noteq> lc_tasks s ! i" using i(1) pc by simp
  then have "?t \<noteq> s" by metis
  then show ?thesis using lifecycle_task [OF i(1) act] q by (auto simp: drain_step_def)
qed

lemma committed_step:
  "lifecycle_step s t \<Longrightarrow> i < length (lc_tasks s) \<Longrightarrow> lc_tasks s ! i = QuiesceCommitted \<Longrightarrow>
     i < length (lc_tasks t) \<and> lc_tasks t ! i = QuiesceCommitted"
  by (erule lifecycle_stepE) (auto simp: nth_list_update elim: lifecycle_atomicE)

lemma committed_steps:
  assumes "lifecycle_step\<^sup>*\<^sup>* s t" "i < length (lc_tasks s)" "lc_tasks s ! i = QuiesceCommitted"
  shows "i < length (lc_tasks t) \<and> lc_tasks t ! i = QuiesceCommitted"
  using assms by (induction rule: rtranclp_induct) (use committed_step in blast)+

lemma active_tasks_0:
  "active_tasks s = 0 \<longleftrightarrow> (\<forall>i < length (lc_tasks s). lc_tasks s ! i \<noteq> ActivityHeld)"
  by (simp add: active_tasks_def tally_0)

lemma held_excludes:
  assumes inv: "lifecycle_inv s" and i: "i < length (lc_tasks s)" "holds_still (lc_tasks s ! i)"
  shows "active_tasks s = 0"
  using inv tally_pos [of i "lc_tasks s" holds_still] i by (simp add: lifecycle_inv_def)

lemma one_owner:
  assumes inv: "lifecycle_inv s" and i: "i < length (lc_tasks s)" "owns_quiesce (lc_tasks s ! i)"
    and j: "j < length (lc_tasks s)" "owns_quiesce (lc_tasks s ! j)"
  shows "i = j"
  using inv tally_at_most_one [OF _ i(1) j(1), of owns_quiesce] i(2) j(2)
  by (auto simp: lifecycle_inv_def split: if_splits)

text \<open>C10: the lifecycle coordinator when its atomic operations take effect in one total order, in which
  the steps of fewer than 2^32 tasks interleave in any way: while a task holds a quiesce no task holds
  an activity, at most one task owns the quiescing flag, and the activity counter never wraps: it is
  exactly the number of tasks that have counted themselves in and not yet out. Once a quiesce is
  committed, no activity is admitted again. (The order is an assumption: the source asks for
  release/acquire orderings on two atomics, under which \<open>begin\<close> may still read the old flag while
  \<open>quiesce\<close> reads the old counter.)\<close>

theorem quiesce_excludes_activities:
  assumes "n < 2 ^ 32" and "lifecycle_step\<^sup>*\<^sup>* (lifecycle_new n) s"
    and "i < length (lc_tasks s)" and "holds_still (lc_tasks s ! i)"
  shows "active_tasks s = 0 \<and> lc_quiescing s
    \<and> (\<forall>j < length (lc_tasks s). owns_quiesce (lc_tasks s ! j) \<longrightarrow> j = i)
    \<and> unat (lc_activities s) = tally counted (lc_tasks s)
    \<and> (lc_tasks s ! i = QuiesceCommitted \<longrightarrow>
         (\<forall>t. lifecycle_step\<^sup>*\<^sup>* s t \<longrightarrow> active_tasks t = 0))"
proof (intro conjI impI allI)
  have inv: "lifecycle_inv s" using assms(1,2) by (blast intro: lifecycle.reachable_inv)
  have owns: "owns_quiesce (lc_tasks s ! i)" using assms(4) by (cases "lc_tasks s ! i") auto
  show "active_tasks s = 0" using inv assms(3,4) by (rule held_excludes)
  show "lc_quiescing s"
    using inv tally_pos [OF assms(3), of owns_quiesce] owns
    by (auto simp: lifecycle_inv_def split: if_splits)
  show "j = i" if "j < length (lc_tasks s)" "owns_quiesce (lc_tasks s ! j)" for j
    using one_owner [OF inv that assms(3) owns] .
  show "unat (lc_activities s) = tally counted (lc_tasks s)"
    using inv by (simp add: lifecycle_inv_def)
  fix t
  assume c: "lc_tasks s ! i = QuiesceCommitted" and run: "lifecycle_step\<^sup>*\<^sup>* s t"
  have "lifecycle_inv t" using run inv by (rule lifecycle.steps_inv)
  then show "active_tasks t = 0"
    using committed_steps [OF run assms(3) c] by (auto intro: held_excludes)
qed

text \<open>C11: quiescing ends: while the flag stays set, no schedule of the tasks performs more than
  three effective steps per task (no new activity is admitted and the admitted ones only leave),
  and as long as an activity is counted some task has such a step to take; when the count is
  zero the claimer's next poll takes hold.\<close>

theorem quiesce_drains:
  assumes "n < 2 ^ 32" and "lifecycle_step\<^sup>*\<^sup>* (lifecycle_new n) s" and "lc_quiescing s"
  shows "(\<forall>k t. (drain_step ^^ k) s t \<longrightarrow> k \<le> 3 * length (lc_tasks s))
    \<and> (lc_activities s \<noteq> 0 \<longrightarrow> (\<exists>u. drain_step s u))
    \<and> (lc_activities s = 0 \<longrightarrow>
         (\<forall>i < length (lc_tasks s). lc_tasks s ! i = QuiesceClaimed \<longrightarrow>
            lifecycle_step s (s\<lparr>lc_tasks := (lc_tasks s)[i := QuiesceHeld]\<rparr>)))"
proof (intro conjI impI allI)
  have inv: "lifecycle_inv s" using assms(1,2) by (blast intro: lifecycle.reachable_inv)
  show "k \<le> 3 * length (lc_tasks s)" if "(drain_step ^^ k) s t" for k t
    using quiesce.run_bounded [OF that inv] drain_left_le [of s] by simp
  show "\<exists>u. drain_step s u" if "lc_activities s \<noteq> 0"
    using inv assms(3) that by (rule drain_progress)
  fix i
  assume a: "lc_activities s = 0" "i < length (lc_tasks s)" "lc_tasks s ! i = QuiesceClaimed"
  have e: "s\<lparr>lc_tasks := (lc_tasks s)[i := QuiesceHeld]\<rparr> = \<lparr>lc_quiescing = lc_quiescing s,
      lc_activities = 0, lc_tasks = (lc_tasks s)[i := QuiesceHeld]\<rparr>" using a(1) by simp
  show "lifecycle_step s (s\<lparr>lc_tasks := (lc_tasks s)[i := QuiesceHeld]\<rparr>)"
    unfolding e by (rule lifecycle_task [OF a(2), of QuiescePoll]) (simp add: a)
qed

text \<open>A run of two tasks: one activity comes and goes, then the other task quiesces and commits.\<close>

lemma lifecycle_taskI:
  "i < length ts \<Longrightarrow> lifecycle_atomic a (ts ! i) (q, n) = Some (pc, q', n') \<Longrightarrow>
   ts' = ts[i := pc] \<Longrightarrow>
   lifecycle_step \<lparr>lc_quiescing = q, lc_activities = n, lc_tasks = ts\<rparr>
     \<lparr>lc_quiescing = q', lc_activities = n', lc_tasks = ts'\<rparr>"
  using lifecycle_task [of i "\<lparr>lc_quiescing = q, lc_activities = n, lc_tasks = ts\<rparr>" a pc q' n']
  by simp

lemma sample_quiesce:
  "lifecycle_step\<^sup>*\<^sup>* (lifecycle_new 2)
     \<lparr>lc_quiescing = True, lc_activities = 1, lc_tasks = [BeginCounted, QuiesceClaimed]\<rparr>"
proof -
  let ?s = "\<lambda>q n a b. \<lparr>lc_quiescing = q, lc_activities = n, lc_tasks = [a, b]\<rparr>"
  have "lifecycle_new 2 = ?s False 0 Idle Idle"
    by (simp add: lifecycle_new_def numeral_2_eq_2)
  moreover have "lifecycle_step (?s False 0 Idle Idle) (?s False 0 BeginChecked Idle)"
    by (rule lifecycle_taskI [of 0 _ BeginLoad]) simp_all
  moreover have "lifecycle_step (?s False 0 BeginChecked Idle) (?s False 1 BeginCounted Idle)"
    by (rule lifecycle_taskI [of 0 _ BeginCount]) simp_all
  moreover have "lifecycle_step (?s False 1 BeginCounted Idle) (?s True 1 BeginCounted QuiesceClaimed)"
    by (rule lifecycle_taskI [of 1 _ QuiesceClaim]) simp_all
  ultimately show ?thesis
    by (metis (no_types, lifting) converse_rtranclp_into_rtranclp rtranclp.rtrancl_refl)
qed

lemma sample_held:
  "lifecycle_step\<^sup>*\<^sup>* (lifecycle_new 2)
     \<lparr>lc_quiescing = True, lc_activities = 0, lc_tasks = [Idle, QuiesceHeld]\<rparr>"
proof -
  let ?s = "\<lambda>q n a b. \<lparr>lc_quiescing = q, lc_activities = n, lc_tasks = [a, b]\<rparr>"
  have "lifecycle_step (?s True 1 BeginCounted QuiesceClaimed) (?s True 1 BeginRefusing QuiesceClaimed)"
    by (rule lifecycle_taskI [of 0 _ BeginRecheck]) simp_all
  moreover have "lifecycle_step (?s True 1 BeginRefusing QuiesceClaimed) (?s True 0 Idle QuiesceClaimed)"
    by (rule lifecycle_taskI [of 0 _ BeginUncount]) simp_all
  moreover have "lifecycle_step (?s True 0 Idle QuiesceClaimed) (?s True 0 Idle QuiesceHeld)"
    by (rule lifecycle_taskI [of 1 _ QuiescePoll]) simp_all
  ultimately show ?thesis using sample_quiesce
    by (meson rtranclp.rtrancl_into_rtrancl)
qed

lemma sample_committed:
  "lifecycle_step\<^sup>*\<^sup>* (lifecycle_new 2)
     \<lparr>lc_quiescing = True, lc_activities = 0, lc_tasks = [Idle, QuiesceCommitted]\<rparr>"
  by (rule rtranclp.rtrancl_into_rtrancl [OF sample_held],
      rule lifecycle_taskI [of 1 _ QuiesceCommit]) simp_all

lemma quiesce_excludes_activities_witness:
  "active_tasks \<lparr>lc_quiescing = True, lc_activities = 0, lc_tasks = [Idle, QuiesceCommitted]\<rparr> = 0
   \<and> unat (0 :: u32) = tally counted [Idle, QuiesceCommitted]"
  using quiesce_excludes_activities [OF _ sample_committed, of 1] by simp

lemma quiesce_drains_witness:
  "\<exists>u. drain_step \<lparr>lc_quiescing = True, lc_activities = 1,
                   lc_tasks = [BeginCounted, QuiesceClaimed]\<rparr> u"
  using quiesce_drains [OF _ sample_quiesce] by simp

section \<open>ApplicationMutationCoordinator\<close>

text \<open>
  A task is idle, holds an \<open>ApplicationMutation\<close>, has read \<open>handoff_pending\<close> in
  \<open>begin_handoff_finalization\<close>, holds a \<open>HandoffFinalization\<close>, or is between two of the three
  stores of its \<open>complete\<close>.
\<close>

datatype mutation_pc =
  MutationIdle | Mutating | FinalizeChecked | Finalizing | PendingCleared | ProgressCleared

record mutations =
  am_in_progress :: bool
  am_handoff_pending :: bool
  am_handoff_finalizing :: bool
  am_tasks :: "mutation_pc list"

definition mutations_new :: "bool \<Rightarrow> nat \<Rightarrow> mutations" where
  "mutations_new handoff_pending tasks =
     \<lparr>am_in_progress = handoff_pending, am_handoff_pending = handoff_pending,
      am_handoff_finalizing = False, am_tasks = replicate tasks MutationIdle\<rparr>"

datatype mutation_action =
  MutationBegin | MutationDrop | FinalizeLoad | FinalizeClaim
  | CompletePending | CompleteProgress | CompleteFinalizing | FinalizeAbandon

text \<open>One atomic operation on \<open>in_progress\<close>, \<open>handoff_pending\<close> and \<open>handoff_finalizing\<close>.\<close>

fun mutation_atomic ::
    "mutation_action \<Rightarrow> mutation_pc \<Rightarrow> bool \<times> bool \<times> bool
       \<Rightarrow> (mutation_pc \<times> bool \<times> bool \<times> bool) option" where
  "mutation_atomic MutationBegin MutationIdle (p, h, f) =
     Some (if p then MutationIdle else Mutating, True, h, f)"
| "mutation_atomic MutationDrop Mutating (p, h, f) = Some (MutationIdle, False, h, f)"
| "mutation_atomic FinalizeLoad MutationIdle (p, h, f) =
     Some (if h then FinalizeChecked else MutationIdle, p, h, f)"
| "mutation_atomic FinalizeClaim FinalizeChecked (p, h, f) =
     Some (if f then MutationIdle else Finalizing, p, h, True)"
| "mutation_atomic CompletePending Finalizing (p, h, f) = Some (PendingCleared, p, False, f)"
| "mutation_atomic CompleteProgress PendingCleared (p, h, f) = Some (ProgressCleared, False, h, f)"
| "mutation_atomic CompleteFinalizing ProgressCleared (p, h, f) = Some (MutationIdle, p, h, False)"
| "mutation_atomic FinalizeAbandon Finalizing (p, h, f) = Some (MutationIdle, p, h, False)"
| "mutation_atomic _ _ _ = None"

text \<open>The steps in which only the tasks of \<open>F\<close> ask for a finalization.\<close>

inductive mutation_step :: "nat set \<Rightarrow> mutations \<Rightarrow> mutations \<Rightarrow> bool" for F :: "nat set" where
  mutation_task:
  "i < length (am_tasks s) \<Longrightarrow> (a = FinalizeLoad \<Longrightarrow> i \<in> F) \<Longrightarrow>
   mutation_atomic a (am_tasks s ! i)
     (am_in_progress s, am_handoff_pending s, am_handoff_finalizing s) = Some (pc, p, h, f) \<Longrightarrow>
   mutation_step F s \<lparr>am_in_progress = p, am_handoff_pending = h, am_handoff_finalizing = f,
                      am_tasks = (am_tasks s)[i := pc]\<rparr>"

inductive_cases mutation_stepE: "mutation_step F s t"

fun_cases mutation_atomicE: "mutation_atomic a pc phf = Some r"

definition mutating_tasks :: "mutations \<Rightarrow> nat" where
  "mutating_tasks s = tally (\<lambda>pc. pc = Mutating) (am_tasks s)"

definition finalizer :: "mutation_pc \<Rightarrow> bool" where
  "finalizer pc \<longleftrightarrow> pc \<in> {FinalizeChecked, Finalizing, PendingCleared, ProgressCleared}"

definition before_clearing :: "mutation_pc \<Rightarrow> bool" where
  "before_clearing pc \<longleftrightarrow> pc \<in> {FinalizeChecked, Finalizing}"

definition holds_finalization :: "mutation_pc \<Rightarrow> bool" where
  "holds_finalization pc \<longleftrightarrow> pc \<in> {Finalizing, PendingCleared, ProgressCleared}"

text \<open>
  With one finalizer \<open>x\<close>: \<open>in_progress\<close> is exactly the presence of a mutating task or of the
  handed-over mutation, which lasts until the finalizer clears \<open>in_progress\<close>.
\<close>

definition mutations_inv :: "nat set \<Rightarrow> nat \<Rightarrow> mutations \<Rightarrow> bool" where
  "mutations_inv F x s \<longleftrightarrow>
     (am_handoff_pending s \<longrightarrow> F \<subseteq> {x})
     \<and> (\<forall>i < length (am_tasks s). finalizer (am_tasks s ! i) \<longrightarrow> i = x)
     \<and> (0 < tally before_clearing (am_tasks s) \<longrightarrow> am_handoff_pending s)
     \<and> (am_handoff_finalizing s \<longleftrightarrow> 0 < tally holds_finalization (am_tasks s))
     \<and> mutating_tasks s + (if am_handoff_pending s then 1 else 0)
         + tally (\<lambda>pc. pc = PendingCleared) (am_tasks s) = (if am_in_progress s then 1 else 0)"

lemma mutations_inv_new: "(h \<longrightarrow> F \<subseteq> {x}) \<Longrightarrow> mutations_inv F x (mutations_new h n)"
  by (simp add: mutations_inv_def mutations_new_def mutating_tasks_def finalizer_def
      before_clearing_def holds_finalization_def)

lemma mutations_inv_step:
  assumes inv: "mutations_inv F x s" and step: "mutation_step F s t"
  shows "mutations_inv F x t"
proof -
  from step obtain i a pc p h f where i: "i < length (am_tasks s)" and F: "a = FinalizeLoad \<Longrightarrow> i \<in> F"
    and act: "mutation_atomic a (am_tasks s ! i)
      (am_in_progress s, am_handoff_pending s, am_handoff_finalizing s) = Some (pc, p, h, f)"
    and t: "t = \<lparr>am_in_progress = p, am_handoff_pending = h, am_handoff_finalizing = f,
                am_tasks = (am_tasks s)[i := pc]\<rparr>"
    by (rule mutation_stepE) blast
  let ?ts = "am_tasks s"
  have only: "\<forall>j < length ?ts. finalizer (?ts ! j) \<longrightarrow> j = x"
    and pend: "am_handoff_pending s \<longrightarrow> F \<subseteq> {x}" using inv by (auto simp: mutations_inv_def)
  have bc1: "tally before_clearing ?ts \<le> 1"
    using only by (intro tally_unique [of _ _ x]) (auto simp: finalizer_def before_clearing_def)
  have hf1: "tally holds_finalization ?ts \<le> 1"
    using only by (intro tally_unique [of _ _ x]) (auto simp: finalizer_def holds_finalization_def)
  have idle: "finalizer pc \<Longrightarrow> i = x"
    using act F pend only i by (elim mutation_atomicE) (auto simp: finalizer_def split: if_splits)
  have only': "\<forall>j < length (?ts[i := pc]). finalizer (?ts[i := pc] ! j) \<longrightarrow> j = x"
    using only idle i by (metis length_list_update nth_list_update_eq nth_list_update_neq)
  note upd = tally_update [OF i, of before_clearing pc] tally_update [OF i, of holds_finalization pc]
    tally_update [OF i, of "\<lambda>p. p = PendingCleared" pc] tally_update [OF i, of "\<lambda>p. p = Mutating" pc]
  note pos = tally_pos [OF i, of before_clearing] tally_pos [OF i, of holds_finalization]
    tally_pos [OF i, of "\<lambda>p. p = PendingCleared"] tally_pos [OF i, of "\<lambda>p. p = Mutating"]
  have pend': "h \<longrightarrow> F \<subseteq> {x}" using act pend by (elim mutation_atomicE) (auto split: if_splits)
  have "(0 < tally before_clearing (?ts[i := pc]) \<longrightarrow> h)
     \<and> (f \<longleftrightarrow> 0 < tally holds_finalization (?ts[i := pc]))
     \<and> tally (\<lambda>p. p = Mutating) (?ts[i := pc]) + (if h then 1 else 0)
         + tally (\<lambda>p. p = PendingCleared) (?ts[i := pc]) = (if p then 1 else 0)"
    using act upd pos bc1 hf1 inv
    unfolding mutations_inv_def mutating_tasks_def
    by (elim mutation_atomicE)
      (auto simp: before_clearing_def holds_finalization_def split: if_splits)
  then show ?thesis using only' pend'
    by (simp add: mutations_inv_def t mutating_tasks_def)
qed

definition mutations_initial :: "nat set \<Rightarrow> nat \<Rightarrow> mutations \<Rightarrow> bool" where
  "mutations_initial F x s \<longleftrightarrow> (\<exists>h n. s = mutations_new h n \<and> (h \<longrightarrow> F \<subseteq> {x}))"

interpretation mutations:
    transition_system "mutations_initial F x" "mutation_step F" "mutations_inv F x" for F x
  by unfold_locales (auto simp: mutations_initial_def intro: mutations_inv_new mutations_inv_step)

text \<open>At most one application mutation runs at a time, counting the mutation handed over by
  the previous process until it is finalized, under every interleaving of any number of tasks, when
  no mutation was handed over or a single task finalizes it.\<close>

theorem one_mutation_at_a_time:
  assumes "h \<longrightarrow> F \<subseteq> {x}" and "(mutation_step F)\<^sup>*\<^sup>* (mutations_new h n) s"
  shows "mutating_tasks s + (if am_handoff_pending s then 1 else 0) \<le> 1
    \<and> (am_in_progress s \<longleftrightarrow>
         mutating_tasks s + (if am_handoff_pending s then 1 else 0)
           + tally (\<lambda>pc. pc = PendingCleared) (am_tasks s) = 1)"
proof -
  have "mutations_inv F x s"
    by (rule mutations.reachable_inv [OF _ assms(2)]) (use assms(1) in \<open>auto simp: mutations_initial_def\<close>)
  then show ?thesis by (auto simp: mutations_inv_def split: if_splits)
qed

lemma mutation_taskI:
  "i < length ts \<Longrightarrow> (a = FinalizeLoad \<Longrightarrow> i \<in> F) \<Longrightarrow>
   mutation_atomic a (ts ! i) (p, h, f) = Some (pc, p', h', f') \<Longrightarrow> ts' = ts[i := pc] \<Longrightarrow>
   mutation_step F
     \<lparr>am_in_progress = p, am_handoff_pending = h, am_handoff_finalizing = f, am_tasks = ts\<rparr>
     \<lparr>am_in_progress = p', am_handoff_pending = h', am_handoff_finalizing = f', am_tasks = ts'\<rparr>"
  using mutation_task [of i "\<lparr>am_in_progress = p, am_handoff_pending = h,
      am_handoff_finalizing = f, am_tasks = ts\<rparr>" a F pc p' h' f'] by simp

lemma one_mutation_at_a_time_witness:
  "mutating_tasks \<lparr>am_in_progress = True, am_handoff_pending = False,
     am_handoff_finalizing = False, am_tasks = [Mutating]\<rparr> \<le> 1"
proof -
  have "mutation_step {} (mutations_new False 1)
     \<lparr>am_in_progress = True, am_handoff_pending = False, am_handoff_finalizing = False,
      am_tasks = [Mutating]\<rparr>"
    unfolding mutations_new_def by (rule mutation_taskI [of 0 _ MutationBegin]) simp_all
  then have "(mutation_step {})\<^sup>*\<^sup>* (mutations_new False 1)
     \<lparr>am_in_progress = True, am_handoff_pending = False, am_handoff_finalizing = False,
      am_tasks = [Mutating]\<rparr>" by blast
  from one_mutation_at_a_time [OF _ this, of 0] show ?thesis by simp
qed

text \<open>
  The restriction to one finalizer is needed of the coordinator alone.
  \<open>begin_handoff_finalization\<close> reads \<open>handoff_pending\<close> before it claims \<open>handoff_finalizing\<close> and
  does not read it again: a task that read it before another task completed the finalization
  still gets a finalization, and completing it clears \<open>in_progress\<close> under a mutation that
  began in between. Here task 1 finalizes and then mutates, task 0 finalizes a second time, and
  task 2 begins a second mutation. The only caller, \<open>FinalizeUpdate\<close>, is kept out of this run by
  an error outside the coordinator: it completes only after it has removed the handoff file,
  which fails for whoever comes second.
\<close>

lemma late_finalizer_admits_second_mutation:
  "\<exists>s. (mutation_step {0, 1})\<^sup>*\<^sup>* (mutations_new True 3) s \<and> mutating_tasks s = 2"
proof -
  let ?s = "\<lambda>p h f a b c. \<lparr>am_in_progress = p, am_handoff_pending = h,
    am_handoff_finalizing = f, am_tasks = [a, b, c]\<rparr>"
  let ?R = "(mutation_step {0, 1})\<^sup>*\<^sup>*"
  let ?I = MutationIdle
  have "mutations_new True 3 = ?s True True False ?I ?I ?I"
    by (simp add: mutations_new_def numeral_3_eq_3)
  then have "?R (mutations_new True 3) (?s True True False ?I ?I ?I)" by simp
  then have "?R (mutations_new True 3) (?s True True False FinalizeChecked ?I ?I)"
    by (rule rtranclp.rtrancl_into_rtrancl, intro mutation_taskI [of 0 _ FinalizeLoad]) simp_all
  then have "?R (mutations_new True 3) (?s True True False FinalizeChecked FinalizeChecked ?I)"
    by (rule rtranclp.rtrancl_into_rtrancl, intro mutation_taskI [of 1 _ FinalizeLoad]) simp_all
  then have "?R (mutations_new True 3) (?s True True True FinalizeChecked Finalizing ?I)"
    by (rule rtranclp.rtrancl_into_rtrancl, intro mutation_taskI [of 1 _ FinalizeClaim]) simp_all
  then have "?R (mutations_new True 3) (?s True False True FinalizeChecked PendingCleared ?I)"
    by (rule rtranclp.rtrancl_into_rtrancl, intro mutation_taskI [of 1 _ CompletePending]) simp_all
  then have "?R (mutations_new True 3) (?s False False True FinalizeChecked ProgressCleared ?I)"
    by (rule rtranclp.rtrancl_into_rtrancl, intro mutation_taskI [of 1 _ CompleteProgress]) simp_all
  then have "?R (mutations_new True 3) (?s False False False FinalizeChecked ?I ?I)"
    by (rule rtranclp.rtrancl_into_rtrancl, intro mutation_taskI [of 1 _ CompleteFinalizing]) simp_all
  then have "?R (mutations_new True 3) (?s True False False FinalizeChecked Mutating ?I)"
    by (rule rtranclp.rtrancl_into_rtrancl, intro mutation_taskI [of 1 _ MutationBegin]) simp_all
  then have "?R (mutations_new True 3) (?s True False True Finalizing Mutating ?I)"
    by (rule rtranclp.rtrancl_into_rtrancl, intro mutation_taskI [of 0 _ FinalizeClaim]) simp_all
  then have "?R (mutations_new True 3) (?s True False True PendingCleared Mutating ?I)"
    by (rule rtranclp.rtrancl_into_rtrancl, intro mutation_taskI [of 0 _ CompletePending]) simp_all
  then have "?R (mutations_new True 3) (?s False False True ProgressCleared Mutating ?I)"
    by (rule rtranclp.rtrancl_into_rtrancl, intro mutation_taskI [of 0 _ CompleteProgress]) simp_all
  then have "?R (mutations_new True 3) (?s True False True ProgressCleared Mutating Mutating)"
    by (rule rtranclp.rtrancl_into_rtrancl, intro mutation_taskI [of 2 _ MutationBegin]) simp_all
  then show ?thesis by - (rule exI, rule conjI, assumption, simp add: mutating_tasks_def tally_def)
qed

end
