(* ===== verification/Session_Lineage.thy ===== *)
theory Session_Lineage
  imports Domain
begin

text \<open>
  The lineage of resumed Sessions: \<open>session_attempt_number\<close> of
  \<open>crates/sylvops-core/src/domain.rs\<close> and \<open>load_session_lineage\<close>,
  \<open>validate_session_lineage\<close> and \<open>load_session_lineage_leaf\<close> of
  \<open>crates/sylvops-daemon/src/database.rs\<close>. A lineage is a list of predecessor/successor rows;
  the check accepts exactly the lists that form disjoint linear chains, and on those the two
  bounded walks (to the first attempt, to the last successor) always reach the end.
\<close>

section \<open>Operations\<close>

datatype lineage_error =
    LineageCapacity | LineageNotLinear | LineageCycle | LineageChangesIdentity
  | SessionDoesNotExist session_id

text \<open>A \<open>HashMap\<close> is an association list; \<open>insert\<close> puts a pair in front.\<close>

type_synonym successor_map = "(session_id \<times> session_id) list"

fun build_successors ::
    "lineage_link list \<Rightarrow> successor_map \<Rightarrow> session_id set \<Rightarrow> lineage_error + successor_map" where
  "build_successors [] successors predecessors = Inr successors"
| "build_successors (l # links) successors predecessors =
     (if predecessor l = successor l \<or> map_of successors (predecessor l) \<noteq> None
         \<or> successor l \<in> predecessors
      then Inl LineageNotLinear
      else build_successors links ((predecessor l, successor l) # successors)
             (insert (successor l) predecessors))"

text \<open>The \<open>while let\<close> over the chain of one start, with the set of visited Sessions.\<close>

function walk_chain :: "successor_map \<Rightarrow> session_id set \<Rightarrow> session_id \<Rightarrow> lineage_error + unit" where
  "walk_chain m visited current = (case map_of m current of
       None \<Rightarrow> Inr ()
     | Some s \<Rightarrow> if current \<in> visited then Inl LineageCycle
                else walk_chain m (insert current visited) s)"
  by auto

termination
proof (relation "measure (\<lambda>(m, visited, current). card (fst ` set m - visited))")
  fix m :: successor_map and visited current s
  assume "map_of m current = Some s" and new: "current \<notin> visited"
  then have mem: "current \<in> fst ` set m" by (metis dom_map_of_conv_image_fst domI)
  have "fst ` set m - insert current visited \<subset> fst ` set m - visited"
    using mem new by blast
  then show "((m, insert current visited, s), (m, visited, current))
      \<in> measure (\<lambda>(m, visited, current). card (fst ` set m - visited))"
    by (simp add: psubset_card_mono)
qed simp

declare walk_chain.simps [simp del]

fun walk_all :: "successor_map \<Rightarrow> session_id list \<Rightarrow> lineage_error + unit" where
  "walk_all m [] = Inr ()"
| "walk_all m (k # ks) = bind_result (walk_chain m {} k) (\<lambda>_. walk_all m ks)"

text \<open>The order in which a \<open>HashMap\<close> yields its keys does not matter: the one error is the
  same for every start.\<close>

definition validate_session_lineage :: "lineage_link list \<Rightarrow> lineage_error + unit" where
  "validate_session_lineage links =
     bind_result (build_successors links [] {}) (\<lambda>m. walk_all m (map fst m))"

text \<open>
  \<open>load_session_lineage\<close>: \<open>rows\<close> are the rows of \<open>session_resumptions\<close> in the order of the
  query, \<open>lookup\<close> is \<open>load_session\<close>.
\<close>

definition load_session ::
    "(session_id \<Rightarrow> session option) \<Rightarrow> session_id \<Rightarrow> lineage_error + session" where
  "load_session lookup i = (case lookup i of
       None \<Rightarrow> Inl (SessionDoesNotExist i) | Some s \<Rightarrow> Inr s)"

fun check_identities ::
    "(session_id \<Rightarrow> session option) \<Rightarrow> lineage_link list \<Rightarrow> lineage_error + unit" where
  "check_identities lookup [] = Inr ()"
| "check_identities lookup (l # links) =
     bind_result (load_session lookup (predecessor l)) (\<lambda>p.
     bind_result (load_session lookup (successor l)) (\<lambda>s.
       if se_worktree_id p \<noteq> se_worktree_id s \<or> se_provider_kind p \<noteq> se_provider_kind s
          \<or> se_external_session_id p = None
          \<or> se_external_session_id p \<noteq> se_external_session_id s
       then Inl LineageChangesIdentity
       else check_identities lookup links))"

definition load_session_lineage ::
    "(session_id \<Rightarrow> session option) \<Rightarrow> lineage_link list \<Rightarrow> lineage_error + lineage_link list" where
  "load_session_lineage lookup rows =
     (let links = take (MAX_SNAPSHOT_SESSION_LINEAGE_LINKS + 1) rows
      in if length links > MAX_SNAPSHOT_SESSION_LINEAGE_LINKS then Inl LineageCapacity
         else bind_result (validate_session_lineage links) (\<lambda>_.
              bind_result (check_identities lookup links) (\<lambda>_. Inr links)))"

definition link_pairs :: "lineage_link list \<Rightarrow> successor_map" where
  "link_pairs links = map (\<lambda>l. (predecessor l, successor l)) links"

definition load_session_lineage_leaf ::
    "(session_id \<Rightarrow> session option) \<Rightarrow> lineage_link list \<Rightarrow> session_id \<Rightarrow> lineage_error + session" where
  "load_session_lineage_leaf lookup rows i =
     bind_result (load_session_lineage lookup rows) (\<lambda>links.
     bind_result (load_session lookup i) (\<lambda>_.
       case follow (map_of (link_pairs links)) (length links + 1) i of
         Some leaf \<Rightarrow> load_session lookup leaf
       | None \<Rightarrow> Inl LineageCycle))"

section \<open>The check accepts exactly the linear lineages\<close>

definition link_rel :: "lineage_link list \<Rightarrow> (session_id \<times> session_id) set" where
  "link_rel links = {(predecessor l, successor l) | l. l \<in> set links}"

definition linear_lineage :: "lineage_link list \<Rightarrow> bool" where
  "linear_lineage links \<longleftrightarrow> distinct (map predecessor links) \<and> distinct (map successor links)
     \<and> acyclic (link_rel links)"

lemma link_pairs_simps [simp]:
  "link_pairs [] = []" "link_pairs (l # ls) = (predecessor l, successor l) # link_pairs ls"
  "map fst (link_pairs ls) = map predecessor ls" "length (link_pairs ls) = length ls"
  by (simp_all add: link_pairs_def comp_def)

lemma set_link_pairs: "set (link_pairs ls) = link_rel ls"
  by (auto simp: link_pairs_def link_rel_def)

lemma map_graph_link_pairs:
  "distinct (map predecessor ls) \<Longrightarrow> map_graph (map_of (link_pairs ls)) = link_rel ls"
  by (auto simp: map_graph_def map_of_eq_Some_iff set_link_pairs)

lemma build_successors_eq_Inr:
  "build_successors links ss ps = Inr m \<longleftrightarrow>
     m = rev (link_pairs links) @ ss \<and> distinct (map predecessor links)
     \<and> distinct (map successor links) \<and> (\<forall>l\<in>set links. predecessor l \<noteq> successor l)
     \<and> (\<forall>l\<in>set links. predecessor l \<notin> fst ` set ss \<and> successor l \<notin> ps)"
proof (induction links arbitrary: ss ps)
  case (Cons l links)
  have "map_of ss (predecessor l) \<noteq> None \<longleftrightarrow> predecessor l \<in> fst ` set ss"
    by (simp add: map_of_eq_None_iff)
  then show ?case using Cons.IH [of "(predecessor l, successor l) # ss" "insert (successor l) ps"]
    by (auto simp: image_iff)
qed auto

lemma walk_chain_acyclic:
  "acyclic (map_graph (map_of m)) \<Longrightarrow> \<forall>v\<in>visited. (v, x) \<in> (map_graph (map_of m))\<^sup>+ \<Longrightarrow>
     walk_chain m visited x = Inr ()"
proof (induction m visited x rule: walk_chain.induct)
  case (1 m visited x)
  show ?case
  proof (cases "map_of m x")
    case None
    then show ?thesis by (simp add: walk_chain.simps)
  next
    case (Some s)
    then have e: "(x, s) \<in> map_graph (map_of m)" by simp
    have new: "x \<notin> visited" using "1.prems" by (auto simp: acyclic_def)
    have "\<forall>v\<in>insert x visited. (v, s) \<in> (map_graph (map_of m))\<^sup>+"
      using "1.prems"(2) e by (auto intro: trancl_into_trancl)
    then have "walk_chain m (insert x visited) s = Inr ()"
      using "1.IH" [OF Some new] "1.prems"(1) by blast
    then show ?thesis using Some new by (simp add: walk_chain.simps [of m visited])
  qed
qed

lemma walk_chain_cycle:
  "x \<in> C \<Longrightarrow> (\<forall>z\<in>C. \<exists>y\<in>C. map_of m z = Some y) \<Longrightarrow> walk_chain m visited x \<noteq> Inr ()"
proof (induction m visited x rule: walk_chain.induct)
  case (1 m visited x)
  then obtain y where y: "y \<in> C" "map_of m x = Some y" by blast
  show ?case
  proof (cases "x \<in> visited")
    case True
    then show ?thesis using y by (simp add: walk_chain.simps [of m visited])
  next
    case False
    then have "walk_chain m (insert x visited) y \<noteq> Inr ()"
      using "1.IH" [OF y(2) False y(1)] "1.prems"(2) by blast
    then show ?thesis using y False by (simp add: walk_chain.simps [of m visited])
  qed
qed

lemma walk_all_eq_Inr: "walk_all m ks = Inr () \<longleftrightarrow> (\<forall>k\<in>set ks. walk_chain m {} k = Inr ())"
  by (induction ks) (auto simp: bind_result_eq_Inr)

lemma walk_all_iff_acyclic:
  "walk_all m (map fst m) = Inr () \<longleftrightarrow> acyclic (map_graph (map_of m))"
proof
  assume ok: "walk_all m (map fst m) = Inr ()"
  show "acyclic (map_graph (map_of m))"
  proof (rule ccontr)
    assume "\<not> acyclic (map_graph (map_of m))"
    then obtain k where k: "(k, k) \<in> (map_graph (map_of m))\<^sup>+" by (auto simp: acyclic_def)
    let ?C = "{z. (z, k) \<in> (map_graph (map_of m))\<^sup>+}"
    have closed: "\<forall>z\<in>?C. \<exists>y\<in>?C. map_of m z = Some y"
    proof
      fix z assume "z \<in> ?C"
      then obtain y where "(z, y) \<in> map_graph (map_of m)" "(y, k) \<in> (map_graph (map_of m))\<^sup>*"
        by (auto dest: tranclD)
      then show "\<exists>y\<in>?C. map_of m z = Some y" using k by (auto simp: rtrancl_eq_or_trancl)
    qed
    obtain y where "map_of m k = Some y" using closed k by blast
    then have "k \<in> fst ` set m" by (metis dom_map_of_conv_image_fst domI)
    then have "walk_chain m {} k = Inr ()" using ok by (auto simp: walk_all_eq_Inr)
    then show False using walk_chain_cycle [of k ?C m "{}"] closed k by blast
  qed
next
  assume "acyclic (map_graph (map_of m))"
  then show "walk_all m (map fst m) = Inr ()"
    by (simp add: walk_all_eq_Inr walk_chain_acyclic)
qed

lemma map_of_rev_link_pairs:
  "distinct (map predecessor ls) \<Longrightarrow> map_of (rev (link_pairs ls)) = map_of (link_pairs ls)"
  by (subst map_of_inject_set) (simp_all add: rev_map [symmetric])

lemma acyclic_no_self:
  "acyclic (link_rel ls) \<Longrightarrow> l \<in> set ls \<Longrightarrow> predecessor l \<noteq> successor l"
proof
  assume a: "acyclic (link_rel ls)" "l \<in> set ls" "predecessor l = successor l"
  then have "(predecessor l, predecessor l) \<in> link_rel ls" 
    unfolding link_rel_def by force
  then have "(predecessor l, predecessor l) \<in> (link_rel ls)\<^sup>+" by (rule r_into_trancl)
  then show False using a(1) by (auto simp: acyclic_def)
qed

lemma validate_session_lineage_iff:
  "validate_session_lineage links = Inr () \<longleftrightarrow> linear_lineage links"
proof -
  have "validate_session_lineage links = Inr () \<longleftrightarrow>
      (\<exists>m. build_successors links [] {} = Inr m \<and> acyclic (map_graph (map_of m)))"
    by (simp add: validate_session_lineage_def bind_result_eq_Inr walk_all_iff_acyclic)
  also have "\<dots> \<longleftrightarrow> linear_lineage links"
    using acyclic_no_self
    by (auto simp: build_successors_eq_Inr linear_lineage_def map_of_rev_link_pairs
        map_graph_link_pairs)
  finally show ?thesis .
qed

section \<open>Leaves\<close>

definition same_identity :: "session \<Rightarrow> session \<Rightarrow> bool" where
  "same_identity p s \<longleftrightarrow> se_worktree_id p = se_worktree_id s
     \<and> se_provider_kind p = se_provider_kind s \<and> se_external_session_id p \<noteq> None
     \<and> se_external_session_id p = se_external_session_id s"

lemma check_identities_eq_Inr:
  "check_identities lookup links = Inr () \<longleftrightarrow>
     (\<forall>l\<in>set links. \<exists>p s. lookup (predecessor l) = Some p \<and> lookup (successor l) = Some s
        \<and> same_identity p s)"
  by (induction links)
    (auto simp: bind_result_eq_Inr load_session_def same_identity_def split: option.splits)

lemma load_session_lineage_eq_Inr:
  "load_session_lineage lookup rows = Inr links \<longleftrightarrow>
     links = rows \<and> length rows \<le> MAX_SNAPSHOT_SESSION_LINEAGE_LINKS \<and> linear_lineage rows
     \<and> (\<forall>l\<in>set rows. \<exists>p s. lookup (predecessor l) = Some p \<and> lookup (successor l) = Some s
          \<and> same_identity p s)"
proof (cases "length rows \<le> MAX_SNAPSHOT_SESSION_LINEAGE_LINKS")
  case True
  then show ?thesis
    by (auto simp: load_session_lineage_def Let_def bind_result_eq_Inr
        validate_session_lineage_iff check_identities_eq_Inr)
next
  case False
  then show ?thesis by (simp add: load_session_lineage_def Let_def)
qed

lemma leaf_walk:
  assumes "linear_lineage links"
  shows "\<exists>leaf. follow (map_of (link_pairs links)) (length links + 1) i = Some leaf
     \<and> leaf \<notin> predecessor ` set links \<and> (i, leaf) \<in> (link_rel links)\<^sup>*"
proof -
  let ?f = "map_of (link_pairs links)"
  have g: "map_graph ?f = link_rel links"
    using assms by (intro map_graph_link_pairs) (simp add: linear_lineage_def)
  have dom: "dom ?f = predecessor ` set links"
    by (auto simp: dom_map_of_conv_image_fst set_link_pairs link_rel_def image_iff)
  have "finite (dom ?f)" "card (dom ?f) \<le> length links"
    unfolding dom by (simp_all add: card_image_le [THEN le_trans] card_length)
  then obtain leaf where leaf: "follow ?f (Suc (length links)) i = Some leaf" "?f leaf = None"
      "(i, leaf) \<in> (map_graph ?f)\<^sup>*"
    using follow_reaches_end [of ?f "length links" i] assms by (auto simp: g linear_lineage_def)
  then have "leaf \<notin> dom ?f" by (simp only: domIff not_not)
  then show ?thesis using leaf by (simp only: dom g Suc_eq_plus1) blast
qed

lemma same_identity_trans: "same_identity a b \<Longrightarrow> same_identity b c \<Longrightarrow> same_identity a c"
  unfolding same_identity_def by metis

lemma identity_along_lineage:
  assumes "\<forall>l\<in>set links. \<exists>p s. lookup (predecessor l) = Some p \<and> lookup (successor l) = Some s
      \<and> same_identity p s"
    and "(i, j) \<in> (link_rel links)\<^sup>*" and "lookup i = Some x"
  shows "\<exists>y. lookup j = Some y \<and> (i = j \<or> same_identity x y)"
  using assms(2)
proof induction
  case base
  then show ?case using assms(3) by simp
next
  case (step j k)
  then obtain y where y: "lookup j = Some y" "i = j \<or> same_identity x y" by blast
  obtain l where l: "l \<in> set links" "predecessor l = j" "successor l = k"
    using step.hyps(2) by (auto simp: link_rel_def)
  then obtain z where "lookup k = Some z" "same_identity y z"
    using assms(1) y(1) by fastforce
  then show ?case using y assms(3) same_identity_trans by fastforce
qed

section \<open>Attempt numbers along a lineage\<close>

text \<open>The attempt of a Session is one more than the number of its predecessors, counted with
  the fuel of the loop.\<close>

lemma find_predecessor_Some:
  assumes "distinct (map successor links)"
  shows "find_predecessor links i = Some p \<longleftrightarrow> (p, i) \<in> link_rel links"
proof -
  have "List.find (\<lambda>l. successor l = i) links = Some l \<longleftrightarrow> l \<in> set links \<and> successor l = i" for l
    using assms by (induction links) auto
  then show ?thesis
    by (auto simp: find_predecessor_def link_rel_def)
qed

lemma find_predecessor_None:
  "find_predecessor links i = None \<longleftrightarrow> i \<notin> successor ` set links"
  by (auto simp: find_predecessor_def find_None_iff)

lemma attempt_loop_shift:
  "attempt_loop links n i (a + 1) = map_option Suc (attempt_loop links n i a)"
  by (induction n arbitrary: i a) (auto split: option.split)

lemma attempt_loop_more:
  "attempt_loop links n i a = Some k \<Longrightarrow> attempt_loop links (n + d) i a = Some k"
  by (induction n arbitrary: i a) (auto split: option.splits)

text \<open>Backwards the lineage is a partial function too; its walk is \<open>follow\<close> with a counter.\<close>

lemma attempt_loop_follow:
  "(attempt_loop links n i a = None) = (follow (find_predecessor links) n i = None)"
  by (induction n arbitrary: i a) (auto split: option.split)

lemma attempt_loop_total:
  assumes "linear_lineage links"
  shows "\<exists>k. attempt_loop links (length links + 1) i a = Some k"
proof -
  let ?f = "find_predecessor links"
  have g: "map_graph ?f = (link_rel links)\<inverse>"
    using assms by (auto simp: map_graph_def linear_lineage_def find_predecessor_Some)
  have d: "dom ?f = successor ` set links"
    unfolding dom_def find_predecessor_None by blast
  have "finite (dom ?f)" "card (dom ?f) \<le> length links"
    unfolding d by (simp_all add: card_image_le [THEN le_trans] card_length)
  then have "follow ?f (Suc (length links)) i \<noteq> None"
    using follow_reaches_end [of ?f "length links" i] assms
    by (auto simp: g linear_lineage_def acyclic_converse)
  then show ?thesis
    using attempt_loop_follow [of links "length links + 1" i a] by auto
qed

section \<open>Properties\<close>

definition sample_link :: "nat \<Rightarrow> nat \<Rightarrow> lineage_link" where
  "sample_link a b = \<lparr>predecessor = SessionId (of_nat a), successor = SessionId (of_nat b)\<rparr>"

definition sample_lookup :: "session_id \<Rightarrow> session option" where
  "sample_lookup i = (if i = SessionId 1 then Some (sample_session 1 Exited)
     else if i = SessionId 2 then Some (sample_session 2 Exited)
     else if i = SessionId 3 then Some (sample_session 3 Running) else None)"

lemma sample_lineage_linear: "linear_lineage [sample_link 1 2, sample_link 2 3]"
  unfolding validate_session_lineage_iff [symmetric]
  by (simp add: validate_session_lineage_def sample_link_def walk_chain.simps)

text \<open>C4: the lineage check accepts exactly the rows that form disjoint linear chains: no
  Session has two successors or two predecessors and no chain of successors comes back. The
  check always ends, on cyclic rows too.\<close>

theorem lineage_check_exact:
  "validate_session_lineage links = Inr () \<longleftrightarrow>
     distinct (map predecessor links) \<and> distinct (map successor links)
     \<and> acyclic {(predecessor l, successor l) | l. l \<in> set links}"
  using validate_session_lineage_iff [of links] by (simp add: linear_lineage_def link_rel_def)

lemma load_leaf_Inr:
  assumes "load_session_lineage lookup rows = Inr links" "lookup i = Some s"
  shows "\<exists>j leaf. load_session_lineage_leaf lookup rows i = Inr leaf \<and> lookup j = Some leaf
     \<and> (i, j) \<in> (link_rel rows)\<^sup>*
     \<and> (\<forall>l\<in>set rows. predecessor l \<noteq> j) \<and> (i = j \<or> same_identity s leaf)"
proof -
  have ok: "links = rows" "linear_lineage rows"
      "\<forall>l\<in>set rows. \<exists>p s. lookup (predecessor l) = Some p \<and> lookup (successor l) = Some s
         \<and> same_identity p s"
    using assms(1) by (simp_all add: load_session_lineage_eq_Inr)
  obtain j where j: "follow (map_of (link_pairs rows)) (length rows + 1) i = Some j"
      "j \<notin> predecessor ` set rows" "(i, j) \<in> (link_rel rows)\<^sup>*"
    using leaf_walk [OF ok(2)] by blast
  obtain leaf where leaf: "lookup j = Some leaf" "i = j \<or> same_identity s leaf"
    using identity_along_lineage [OF ok(3) j(3) assms(2)] by blast
  have "load_session_lineage_leaf lookup rows i = Inr leaf"
    unfolding load_session_lineage_leaf_def assms(1) ok(1) bind_result_simps
    by (simp only: load_session_def assms(2) leaf(1) j(1) bind_result_simps option.case)
  then show ?thesis using j(2,3) leaf by blast
qed

text \<open>On a lineage that loads, every Session of the store has a leaf, the bounded walk never
  runs out, and the leaf has no successor, is reached from the Session by successors and carries
  the same Worktree, Provider and conversation.\<close>

theorem lineage_leaf_reached:
  assumes "load_session_lineage lookup rows = Inr links" "lookup i = Some s"
  shows "\<exists>j leaf. load_session_lineage_leaf lookup rows i = Inr leaf \<and> lookup j = Some leaf
     \<and> (i, j) \<in> {(predecessor l, successor l) | l. l \<in> set rows}\<^sup>*
     \<and> (\<forall>l\<in>set rows. predecessor l \<noteq> j) \<and> (i = j \<or> same_identity s leaf)"
  using load_leaf_Inr [OF assms] unfolding link_rel_def .

theorem lineage_leaf_reached_witness:
  "\<exists>leaf. load_session_lineage_leaf sample_lookup [sample_link 1 2, sample_link 2 3]
     (SessionId 1) = Inr leaf"
proof -
  have "load_session_lineage sample_lookup [sample_link 1 2, sample_link 2 3]
      = Inr [sample_link 1 2, sample_link 2 3]"
    using sample_lineage_linear
    by (simp add: load_session_lineage_eq_Inr MAX_SNAPSHOT_SESSION_LINEAGE_LINKS_def
        sample_link_def sample_lookup_def same_identity_def sample_session_def)
  moreover have "sample_lookup (SessionId 1) = Some (sample_session 1 Exited)"
    by (simp add: sample_lookup_def)
  ultimately show ?thesis using lineage_leaf_reached by blast
qed

text \<open>On a linear lineage every linked Session has an attempt number; a Session without a
  predecessor is attempt 1, a successor is one more than its predecessor, and only Sessions
  outside the lineage have none.\<close>

theorem attempt_numbers_count:
  assumes "linear_lineage links"
  shows "(session_attempt_number i links = None \<longleftrightarrow>
            i \<notin> predecessor ` set links \<union> successor ` set links)
     \<and> (i \<in> predecessor ` set links \<longrightarrow> i \<notin> successor ` set links \<longrightarrow>
            session_attempt_number i links = Some 1)
     \<and> (\<forall>l\<in>set links. session_attempt_number (successor l) links
            = map_option Suc (session_attempt_number (predecessor l) links))"
proof -
  have linked: "session_attempt_number x links = attempt_loop links (length links + 1) x 1"
    if "x \<in> predecessor ` set links \<union> successor ` set links" for x
    using that by (auto simp: session_attempt_number_def list_ex_iff)
  have none: "session_attempt_number i links = None \<longleftrightarrow>
      i \<notin> predecessor ` set links \<union> successor ` set links"
  proof (cases "i \<in> predecessor ` set links \<union> successor ` set links")
    case True
    then show ?thesis using linked [of i] attempt_loop_total [OF assms, of i 1] by auto
  next
    case False
    then have "\<not> list_ex (\<lambda>l. predecessor l = i \<or> successor l = i) links"
      by (auto simp: list_ex_iff)
    then have "session_attempt_number i links = None"
      unfolding session_attempt_number_def by (rule if_P)
    then show ?thesis using False by blast
  qed
  have first: "session_attempt_number i links = Some 1"
    if "i \<in> predecessor ` set links" "i \<notin> successor ` set links"
  proof -
    have "find_predecessor links i = None" using that(2) unfolding find_predecessor_None .
    then show ?thesis using linked [of i] that(1) by simp
  qed
  have succ: "session_attempt_number (successor l) links
      = map_option Suc (session_attempt_number (predecessor l) links)" if "l \<in> set links" for l
  proof -
    have "find_predecessor links (successor l) = Some (predecessor l)"
      using assms that by (auto simp: linear_lineage_def find_predecessor_Some link_rel_def)
    then have "attempt_loop links (length links + 1) (successor l) 1
        = attempt_loop links (length links) (predecessor l) (1 + 1)" by simp
    moreover obtain k where k: "attempt_loop links (length links + 1) (successor l) 1 = Some k"
      using attempt_loop_total [OF assms] by blast
    ultimately have "attempt_loop links (length links + 1) (predecessor l) (1 + 1) = Some k"
      using attempt_loop_more [of links "length links" "predecessor l" "1 + 1" k 1] by simp
    then have "attempt_loop links (length links + 1) (successor l) 1
        = map_option Suc (attempt_loop links (length links + 1) (predecessor l) 1)"
      by (simp only: attempt_loop_shift k)
    moreover have "successor l \<in> predecessor ` set links \<union> successor ` set links"
      "predecessor l \<in> predecessor ` set links \<union> successor ` set links" using that by simp_all
    ultimately show ?thesis by (simp only: linked)
  qed
  show ?thesis using none first succ by blast
qed

theorem attempt_numbers_count_witness:
  "session_attempt_number (SessionId 1) [sample_link 1 2, sample_link 2 3] = Some 1"
  using attempt_numbers_count [OF sample_lineage_linear, of "SessionId 1"]
  by (simp add: sample_link_def)

end
