(* ===== verification/Text_Tools.thy ===== *)
theory Text_Tools
  imports Sylvops_Prelude
begin

text \<open>
  The operations of Rust's \<open>str\<close> that the parsers, validators and formatters of the program use:
  splitting, joining, prefixes and suffixes, searching, case, numbers, and truncation at a
  character boundary.
\<close>

section \<open>Pieces\<close>

abbreviation chr :: "char \<Rightarrow> nat" where "chr c \<equiv> of_char c"

text \<open>\<open>split(c)\<close> yields every piece, at least one; \<open>split_once\<close> cuts at the first occurrence and
  \<open>rsplit_once\<close> at the last.\<close>

fun split_on :: "nat \<Rightarrow> str \<Rightarrow> str list" where
  "split_on c [] = [[]]"
| "split_on c (d # s) = (if d = c then [] # split_on c s
     else case split_on c s of [] \<Rightarrow> [[d]] | l # ls \<Rightarrow> (d # l) # ls)"

definition split_once :: "nat \<Rightarrow> str \<Rightarrow> (str \<times> str) option" where
  "split_once c s = (case dropWhile (\<lambda>d. d \<noteq> c) s of
       [] \<Rightarrow> None | _ # rest \<Rightarrow> Some (takeWhile (\<lambda>d. d \<noteq> c) s, rest))"

definition rsplit_once :: "nat \<Rightarrow> str \<Rightarrow> (str \<times> str) option" where
  "rsplit_once c s = map_option (\<lambda>(a, b). (rev b, rev a)) (split_once c (rev s))"

fun join :: "str \<Rightarrow> str list \<Rightarrow> str" where
  "join sep [] = []"
| "join sep [x] = x"
| "join sep (x # y # ys) = x @ sep @ join sep (y # ys)"

definition starts_with :: "str \<Rightarrow> str \<Rightarrow> bool" where
  "starts_with p s \<longleftrightarrow> take (length p) s = p"

definition ends_with :: "str \<Rightarrow> str \<Rightarrow> bool" where
  "ends_with p s \<longleftrightarrow> starts_with (rev p) (rev s)"

definition strip_prefix :: "str \<Rightarrow> str \<Rightarrow> str option" where
  "strip_prefix p s = (if take (length p) s = p then Some (drop (length p) s) else None)"

definition strip_suffix :: "str \<Rightarrow> str \<Rightarrow> str option" where
  "strip_suffix p s = map_option rev (strip_prefix (rev p) (rev s))"

fun contains :: "str \<Rightarrow> str \<Rightarrow> bool" where
  "contains p [] \<longleftrightarrow> p = []"
| "contains p (c # s) \<longleftrightarrow> starts_with p (c # s) \<or> contains p s"

definition ascii_lower :: "nat \<Rightarrow> nat" where
  "ascii_lower c = (if is_ascii_uppercase c then c + 32 else c)"

definition ascii_lowercase :: "str \<Rightarrow> str" where
  "ascii_lowercase s = map ascii_lower s"

text \<open>\<open>parse::<u64>\<close>: an optional \<open>+\<close>, at least one digit, no overflow.\<close>

definition digits_value :: "str \<Rightarrow> int" where
  "digits_value s = foldl (\<lambda>n c. 10 * n + (int c - 48)) 0 s"

definition parse_usize :: "str \<Rightarrow> nat option" where
  "parse_usize s =
     (let digits = (case s of c # cs \<Rightarrow> if c = of_char CHR ''+'' then cs else s | [] \<Rightarrow> [])
      in if digits = [] \<or> \<not> list_all is_ascii_digit digits then None
         else if digits_value digits < 2 ^ 64 then Some (nat (digits_value digits)) else None)"

text \<open>The longest prefix of whole characters within a number of bytes: what stepping back from the
  limit to \<open>is_char_boundary\<close> leaves.\<close>

fun fitting_prefix :: "nat \<Rightarrow> str \<Rightarrow> str" where
  "fitting_prefix n [] = []"
| "fitting_prefix n (c # s) =
     (if utf8_width c \<le> n then c # fitting_prefix (n - utf8_width c) s else [])"

section \<open>URLs\<close>

text \<open>What the code reads of a parsed URL. \<open>username\<close> is empty when there is none.\<close>

record parsed_url =
  ur_scheme :: str
  ur_username :: str
  ur_password :: "str option"
  ur_host :: "str option"
  ur_port :: "u16 option"
  ur_path :: str
  ur_path_segments :: "str list option"
  ur_query :: "str option"
  ur_fragment :: "str option"

type_synonym url_parser = "str \<Rightarrow> parsed_url option"

section \<open>Facts\<close>

lemma split_on_not_Nil [simp]: "split_on c s \<noteq> []"
  by (induction s) (auto split: list.splits)

lemma split_on_append_sep [simp]: "split_on c (s @ c # t) = split_on c s @ split_on c t"
  by (induction s) (auto split: list.splits)

lemma split_on_no_sep [simp]: "c \<notin> set s \<Longrightarrow> split_on c s = [s]"
  by (induction s) auto

lemma split_on_prefix: "c \<notin> set s \<Longrightarrow>
  split_on c (s @ t) = (s @ hd (split_on c t)) # tl (split_on c t)"
  by (induction s) (auto split: list.splits simp: neq_Nil_conv)

lemma no_sep_in_pieces: "l \<in> set (split_on c s) \<Longrightarrow> c \<notin> set l"
  by (induction s arbitrary: l) (auto split: list.splits if_splits)

lemma pieces_subset: "l \<in> set (split_on c s) \<Longrightarrow> set l \<subseteq> set s"
proof (induction s arbitrary: l)
  case (Cons d s)
  then show ?case by (fastforce split: list.splits if_splits)
qed simp

lemma join_split_on: "join [c] (split_on c s) = s"
proof (induction s)
  case (Cons d s)
  then show ?case by (cases "split_on c s"; cases "tl (split_on c s)") auto
qed simp

lemma split_on_join:
  "xs \<noteq> [] \<Longrightarrow> \<forall>x\<in>set xs. c \<notin> set x \<Longrightarrow> split_on c (join [c] xs) = xs"
proof (induction xs rule: induct_list012)
  case (3 x y zs)
  then show ?case by (simp add: split_on_append_sep)
qed simp_all

lemma set_join: "set (join sep xs) \<subseteq> set sep \<union> \<Union> (set ` set xs)"
  by (induction xs rule: induct_list012) auto

lemma starts_with_append [simp]: "starts_with p (p @ s)"
  by (simp add: starts_with_def)

lemma starts_with_Nil [simp]: "starts_with [] s"
  by (simp add: starts_with_def)

lemma starts_with_Cons [simp]: "starts_with (c # p) s \<longleftrightarrow> (\<exists>t. s = c # t \<and> starts_with p t)"
  by (cases s) (auto simp: starts_with_def)

lemma starts_with_iff: "starts_with p s \<longleftrightarrow> (\<exists>t. s = p @ t)"
  by (induction p arbitrary: s) auto

lemma ends_with_iff: "ends_with p s \<longleftrightarrow> (\<exists>t. s = t @ p)"
proof
  assume "ends_with p s"
  then obtain t where "rev s = rev p @ t" by (auto simp: ends_with_def starts_with_iff)
  then have "s = rev t @ p" by (metis rev_append rev_rev_ident)
  then show "\<exists>t. s = t @ p" ..
qed (auto simp: ends_with_def starts_with_iff)

lemma strip_prefix_Some: "strip_prefix p s = Some t \<longleftrightarrow> s = p @ t"
  by (auto simp: strip_prefix_def) (metis append_take_drop_id)

lemma strip_suffix_Some: "strip_suffix p s = Some t \<longleftrightarrow> s = t @ p"
proof -
  have "strip_suffix p s = Some t \<longleftrightarrow> rev s = rev p @ rev t"
    by (auto simp: strip_suffix_def strip_prefix_Some)
  also have "\<dots> \<longleftrightarrow> s = t @ p" by (metis rev_append rev_rev_ident)
  finally show ?thesis .
qed

lemma split_once_Some: "split_once c s = Some (a, b) \<longleftrightarrow> s = a @ c # b \<and> c \<notin> set a"
proof
  assume "split_once c s = Some (a, b)"
  then obtain x where "dropWhile (\<lambda>d. d \<noteq> c) s = x # b" and a: "a = takeWhile (\<lambda>d. d \<noteq> c) s"
    by (auto simp: split_once_def split: list.splits)
  moreover from this have "x = c" using hd_dropWhile [of "\<lambda>d. d \<noteq> c" s] by simp
  ultimately show "s = a @ c # b \<and> c \<notin> set a"
    by (metis (mono_tags, lifting) set_takeWhileD takeWhile_dropWhile_id)
next
  assume s: "s = a @ c # b \<and> c \<notin> set a"
  then have "\<forall>d\<in>set a. d \<noteq> c" by blast
  then have "dropWhile (\<lambda>d. d \<noteq> c) (a @ c # b) = c # b" "takeWhile (\<lambda>d. d \<noteq> c) (a @ c # b) = a"
    by (induction a) simp_all
  then show "split_once c s = Some (a, b)" using s by (simp add: split_once_def)
qed

lemma contains_iff: "contains p s \<longleftrightarrow> (\<exists>a b. s = a @ p @ b)"
proof (induction s)
  case (Cons c s)
  show ?case
  proof
    assume "contains p (c # s)"
    then consider "starts_with p (c # s)" | "contains p s" by auto
    then show "\<exists>a b. c # s = a @ p @ b"
    proof cases
      case 1
      then show ?thesis by (auto simp: starts_with_iff intro: exI [of _ "[]"])
    next
      case 2
      then show ?thesis using Cons by (metis append_Cons)
    qed
  next
    assume "\<exists>a b. c # s = a @ p @ b"
    then obtain a b where ab: "c # s = a @ p @ b" by blast
    show "contains p (c # s)"
    proof (cases a)
      case Nil
      then have "starts_with p (c # s)" using ab by simp
      then show ?thesis by simp
    next
      case (Cons d a')
      then show ?thesis using ab Cons.IH by auto
    qed
  qed
qed auto

lemma contains_set: "contains p s \<Longrightarrow> set p \<subseteq> set s"
  by (auto simp: contains_iff)

lemma fitting_prefix_bound: "byte_len (fitting_prefix n s) \<le> n"
proof (induction s arbitrary: n)
  case (Cons c s)
  have "byte_len (fitting_prefix (n - utf8_width c) s) \<le> n - utf8_width c" by (rule Cons)
  then show ?case by simp arith
qed simp

lemma fitting_prefix_prefix: "\<exists>t. s = fitting_prefix n s @ t"
  by (induction s arbitrary: n) auto

lemma fitting_prefix_id: "byte_len s \<le> n \<Longrightarrow> fitting_prefix n s = s"
  by (induction s arbitrary: n) (auto simp: le_diff_conv2)

lemma fitting_prefix_maximal:
  "s = fitting_prefix n s @ c # t \<Longrightarrow> n < byte_len (fitting_prefix n s @ [c])"
proof (induction s arbitrary: n)
  case (Cons d s)
  show ?case
  proof (cases "utf8_width d \<le> n")
    case True
    then have "n - utf8_width d < byte_len (fitting_prefix (n - utf8_width d) s @ [c])"
      using Cons by simp
    then show ?thesis using True by simp
  next
    case False
    then show ?thesis using Cons.prems by simp
  qed
qed simp

lemma set_fitting_prefix: "set (fitting_prefix n s) \<subseteq> set s"
  using fitting_prefix_prefix [of s n] by (metis set_append sup_ge1)

lemma ascii_lower_simps [simp]:
  "is_ascii_digit c \<Longrightarrow> ascii_lower c = c" "is_ascii_lowercase c \<Longrightarrow> ascii_lower c = c"
  "ascii_lower (ascii_lower c) = ascii_lower c"
  by (auto simp: ascii_lower_def char_class_defs)

lemma ascii_lowercase_idem [simp]: "ascii_lowercase (ascii_lowercase s) = ascii_lowercase s"
  by (simp add: ascii_lowercase_def)

lemma ascii_alnum_facts:
  assumes "is_ascii_alphanumeric c"
  shows "c < 128" "\<not> is_control c" "\<not> is_whitespace c" "utf8_width c = 1"
  using assms by (auto simp: char_class_defs utf8_width_def)

text \<open>Decimal numbers.\<close>

lemma decimal_not_Nil [simp]: "decimal n \<noteq> []"
  by (subst decimal.simps) simp

lemma decimal_digits: "\<forall>c\<in>set (decimal n). is_ascii_digit c"
proof (induction n rule: decimal.induct)
  case (1 n)
  show ?case
  proof (cases "n < 10")
    case True
    then show ?thesis by (subst decimal.simps) (simp add: is_ascii_digit_def)
  next
    case False
    have "n mod 10 \<le> 9" by (simp add: Suc_leI)
    then show ?thesis using 1 False by (subst decimal.simps) (auto simp: is_ascii_digit_def)
  qed
qed

lemma digits_value_append: "digits_value (s @ [c]) = 10 * digits_value s + (int c - 48)"
  by (simp add: digits_value_def)

lemma digits_value_decimal [simp]: "digits_value (decimal n) = int n"
proof (induction n rule: decimal.induct)
  case (1 n)
  show ?case
  proof (cases "n < 10")
    case True
    then show ?thesis by (subst decimal.simps) (simp add: digits_value_def)
  next
    case False
    have "int n = 10 * (int n div 10) + int n mod 10" by simp
    with 1 False show ?thesis
      by (subst decimal.simps) (simp add: digits_value_append zdiv_int zmod_int)
  qed
qed

lemma parse_usize_decimal: "n < 2 ^ 64 \<Longrightarrow> parse_usize (decimal n) = Some n"
proof -
  assume n: "n < 2 ^ 64"
  obtain c s where cs: "decimal n = c # s" by (cases "decimal n") simp_all
  have d: "list_all is_ascii_digit (decimal n)" using decimal_digits by (simp add: list_all_iff)
  have "c \<noteq> of_char CHR ''+''" using d cs by (auto simp: is_ascii_digit_def)
  then have "(case decimal n of c # cs \<Rightarrow> if c = of_char CHR ''+'' then cs else decimal n | [] \<Rightarrow> []) = decimal n"
    using cs by simp
  moreover have "int n < 2 ^ 64" using n by (metis of_nat_less_iff of_nat_numeral of_nat_power)
  ultimately show ?thesis using d unfolding parse_usize_def Let_def by simp
qed

end
