(* ===== verification/GitHub_Values.thy ===== *)
theory GitHub_Values
  imports Text_Tools
begin

text \<open>
  \<open>crates/sylvops-core/src/github.rs\<close>: the bounded, validated texts of the GitHub integration, the
  sanitizers that make untrusted fields acceptable to them, and the numbers and filters of a
  query. A validator returns the text to keep; errors are the messages of the code.
\<close>

section \<open>Bounds\<close>

definition MAX_GITHUB_HOST_LENGTH :: nat where "MAX_GITHUB_HOST_LENGTH = 253"
definition MAX_GITHUB_OWNER_LENGTH :: nat where "MAX_GITHUB_OWNER_LENGTH = 100"
definition MAX_GITHUB_REPOSITORY_LENGTH :: nat where "MAX_GITHUB_REPOSITORY_LENGTH = 100"
definition MAX_GIT_REMOTE_NAME_LENGTH :: nat where "MAX_GIT_REMOTE_NAME_LENGTH = 128"
definition MAX_GITHUB_PAGE_SIZE :: nat where "MAX_GITHUB_PAGE_SIZE = 50"
definition MAX_GITHUB_TITLE_LENGTH :: nat where "MAX_GITHUB_TITLE_LENGTH = 512"
definition MAX_GITHUB_BODY_LENGTH :: nat where "MAX_GITHUB_BODY_LENGTH = 64 * 1024"
definition MAX_GITHUB_COMMENT_BODY_LENGTH :: nat where "MAX_GITHUB_COMMENT_BODY_LENGTH = 32 * 1024"
definition MAX_GITHUB_CURSOR_LENGTH :: nat where "MAX_GITHUB_CURSOR_LENGTH = 1024"
definition MAX_GITHUB_SEARCH_LENGTH :: nat where "MAX_GITHUB_SEARCH_LENGTH = 256"
definition MAX_GITHUB_LOGIN_LENGTH :: nat where "MAX_GITHUB_LOGIN_LENGTH = 128"
definition MAX_GITHUB_LABEL_LENGTH :: nat where "MAX_GITHUB_LABEL_LENGTH = 128"
definition MAX_GITHUB_BRANCH_LENGTH :: nat where "MAX_GITHUB_BRANCH_LENGTH = 255"
definition MAX_GITHUB_TIMESTAMP_LENGTH :: nat where "MAX_GITHUB_TIMESTAMP_LENGTH = 64"
definition MAX_START_WORK_BRANCH_LENGTH :: nat where "MAX_START_WORK_BRANCH_LENGTH = 255"
definition MAX_START_WORK_INSTRUCTIONS_LENGTH :: nat where
  "MAX_START_WORK_INSTRUCTIONS_LENGTH = 16 * 1024"
definition MAX_START_WORK_DIAGNOSTIC_LENGTH :: nat where "MAX_START_WORK_DIAGNOSTIC_LENGTH = 512"

lemmas github_bounds =
  MAX_GITHUB_HOST_LENGTH_def MAX_GITHUB_OWNER_LENGTH_def MAX_GITHUB_REPOSITORY_LENGTH_def
  MAX_GIT_REMOTE_NAME_LENGTH_def MAX_GITHUB_PAGE_SIZE_def MAX_GITHUB_TITLE_LENGTH_def
  MAX_GITHUB_BODY_LENGTH_def MAX_GITHUB_COMMENT_BODY_LENGTH_def MAX_GITHUB_CURSOR_LENGTH_def
  MAX_GITHUB_SEARCH_LENGTH_def MAX_GITHUB_LOGIN_LENGTH_def MAX_GITHUB_LABEL_LENGTH_def
  MAX_GITHUB_BRANCH_LENGTH_def MAX_GITHUB_TIMESTAMP_LENGTH_def MAX_START_WORK_BRANCH_LENGTH_def
  MAX_START_WORK_INSTRUCTIONS_LENGTH_def MAX_START_WORK_DIAGNOSTIC_LENGTH_def

section \<open>Validators\<close>

type_synonym validator = "str \<Rightarrow> str + str"

definition is_host_label :: "str \<Rightarrow> bool" where
  "is_host_label l \<longleftrightarrow> l \<noteq> [] \<and> byte_len l \<le> 63
     \<and> \<not> starts_with (lit ''-'') l \<and> \<not> ends_with (lit ''-'') l
     \<and> list_all (\<lambda>c. is_ascii_alphanumeric c \<or> c = chr CHR ''-'') l"

definition validate_host :: validator where
  "validate_host v =
     (let v = ascii_lowercase v
      in if v = [] \<or> byte_len v > MAX_GITHUB_HOST_LENGTH \<or> starts_with (lit ''.'') v
            \<or> ends_with (lit ''.'') v \<or> \<not> list_all is_host_label (split_on (chr CHR ''.'') v)
         then Inl (lit ''GitHub host is invalid'') else Inr v)"

definition is_segment_char :: "nat \<Rightarrow> bool" where
  "is_segment_char c \<longleftrightarrow> is_ascii_alphanumeric c \<or> c = chr CHR ''-'' \<or> c = chr CHR ''_'' \<or> c = chr CHR ''.''"

definition validate_path_segment :: "nat \<Rightarrow> str \<Rightarrow> validator" where
  "validate_path_segment maximum label v =
     (if v = [] \<or> byte_len v > maximum \<or> v = lit ''.'' \<or> v = lit ''..'' \<or> \<not> list_all is_segment_char v
      then Inl (label @ lit '' is invalid'') else Inr v)"

definition validate_owner :: validator where
  "validate_owner = validate_path_segment MAX_GITHUB_OWNER_LENGTH (lit ''GitHub owner'')"

definition validate_repository :: validator where
  "validate_repository = validate_path_segment MAX_GITHUB_REPOSITORY_LENGTH (lit ''GitHub repository'')"

definition validate_remote_name :: validator where
  "validate_remote_name v =
     (if v = [] \<or> byte_len v > MAX_GIT_REMOTE_NAME_LENGTH \<or> starts_with (lit ''-'') v
         \<or> starts_with (lit ''/'') v \<or> ends_with (lit ''/'') v \<or> contains (lit ''..'') v
         \<or> contains (lit [CHR ''@'', CHR ''{'']) v
         \<or> \<not> list_all (\<lambda>c. is_segment_char c \<or> c = chr CHR ''/'') v
      then Inl (lit ''Git remote name is invalid'') else Inr v)"

definition validate_cursor :: validator where
  "validate_cursor v =
     (if v = [] \<or> byte_len v > MAX_GITHUB_CURSOR_LENGTH \<or> \<not> list_all is_ascii_graphic v
      then Inl (lit ''GitHub cursor is invalid'') else Inr v)"

definition is_line_control :: "nat \<Rightarrow> bool" where
  "is_line_control c \<longleftrightarrow> c = 10 \<or> c = 9"

definition validate_visible :: "nat \<Rightarrow> str \<Rightarrow> bool \<Rightarrow> validator" where
  "validate_visible maximum label multiline v =
     (if v = [] \<or> byte_len v > maximum
         \<or> list_ex (\<lambda>c. is_control c \<and> \<not> (multiline \<and> is_line_control c)) v
      then Inl (label @ lit '' is invalid'') else Inr v)"

definition validate_multiline :: "nat \<Rightarrow> str \<Rightarrow> validator" where
  "validate_multiline maximum label v =
     (if byte_len v > maximum \<or> list_ex (\<lambda>c. is_control c \<and> \<not> is_line_control c) v
      then Inl (label @ lit '' is invalid'') else Inr v)"

definition validate_search_text :: validator where
  "validate_search_text = validate_visible MAX_GITHUB_SEARCH_LENGTH (lit ''GitHub search text'') False"
definition validate_login :: validator where
  "validate_login = validate_visible MAX_GITHUB_LOGIN_LENGTH (lit ''GitHub login'') False"
definition validate_label :: validator where
  "validate_label = validate_visible MAX_GITHUB_LABEL_LENGTH (lit ''GitHub label'') False"
definition validate_branch :: validator where
  "validate_branch = validate_visible MAX_GITHUB_BRANCH_LENGTH (lit ''GitHub branch'') False"
definition validate_timestamp :: validator where
  "validate_timestamp = validate_visible MAX_GITHUB_TIMESTAMP_LENGTH (lit ''GitHub timestamp'') False"
definition validate_title :: validator where
  "validate_title = validate_visible MAX_GITHUB_TITLE_LENGTH (lit ''GitHub title'') False"
definition validate_body :: validator where
  "validate_body = validate_multiline MAX_GITHUB_BODY_LENGTH (lit ''GitHub body'')"
definition validate_comment_body :: validator where
  "validate_comment_body = validate_multiline MAX_GITHUB_COMMENT_BODY_LENGTH (lit ''GitHub comment body'')"

text \<open>\<open>Path::extension\<close> of a name without a separator: what follows its last dot, unless nothing
  precedes that dot.\<close>

definition path_extension :: "str \<Rightarrow> str option" where
  "path_extension s =
     (if s = lit ''.'' \<or> s = lit ''..'' then None
      else case rsplit_once (chr CHR ''.'') s of
             None \<Rightarrow> None | Some (before, after) \<Rightarrow> if before = [] then None else Some after)"

definition is_ref_hostile :: "nat \<Rightarrow> bool" where
  "is_ref_hostile c \<longleftrightarrow> is_control c \<or> is_whitespace c \<or> c \<in> set (lit ''~^:?*['') \<or> c = 92"

definition validate_start_work_branch :: validator where
  "validate_start_work_branch v =
     (if v = [] \<or> byte_len v > MAX_START_WORK_BRANCH_LENGTH
         \<or> starts_with (lit ''-'') v \<or> starts_with (lit ''/'') v \<or> starts_with (lit ''.'') v
         \<or> ends_with (lit ''/'') v \<or> ends_with (lit ''.'') v
         \<or> contains (lit ''..'') v \<or> contains (lit [CHR ''@'', CHR ''{'']) v \<or> contains (lit ''//'') v
         \<or> list_ex (\<lambda>s. s = [] \<or> (case path_extension s of None \<Rightarrow> False
                      | Some e \<Rightarrow> ascii_lowercase e = lit ''lock'')) (split_on (chr CHR ''/'') v)
         \<or> list_ex is_ref_hostile v
      then Inl (lit ''Start Work branch is invalid'') else Inr v)"

definition validate_instructions :: validator where
  "validate_instructions =
     validate_multiline MAX_START_WORK_INSTRUCTIONS_LENGTH (lit ''Additional instructions'')"

section \<open>The validated texts\<close>

text \<open>Each is a private wrapper built by its \<open>new\<close>, which is also how it is deserialized; it is
  serialized as the text it wraps.\<close>

datatype github_host = GitHubHost (host_str: str)
datatype github_owner = GitHubOwner (owner_str: str)
datatype github_repository_name = GitHubRepositoryName (repository_str: str)
datatype git_remote_name = GitRemoteName (remote_name_str: str)
datatype github_cursor = GitHubCursor (cursor_str: str)
datatype github_search_text = GitHubSearchText (search_text_str: str)
datatype github_login = GitHubLogin (login_str: str)
datatype github_label_name = GitHubLabelName (label_str: str)
datatype github_branch_name = GitHubBranchName (branch_str: str)
datatype github_timestamp = GitHubTimestamp (timestamp_str: str)
datatype github_title = GitHubTitle (title_str: str)
datatype github_body = GitHubBody (body_str: str)
datatype github_comment_body = GitHubCommentBody (comment_body_str: str)
datatype start_work_branch = StartWorkBranch (work_branch_str: str)
datatype start_work_instructions = StartWorkInstructions (instructions_str: str)

definition validated_new :: "validator \<Rightarrow> (str \<Rightarrow> 'a) \<Rightarrow> str \<Rightarrow> str + 'a" where
  "validated_new check wrap v = bind_result (check v) (\<lambda>normalized. Inr (wrap normalized))"

definition github_host_new :: "str \<Rightarrow> str + github_host" where
  "github_host_new = validated_new validate_host GitHubHost"
definition github_owner_new :: "str \<Rightarrow> str + github_owner" where
  "github_owner_new = validated_new validate_owner GitHubOwner"
definition github_repository_name_new :: "str \<Rightarrow> str + github_repository_name" where
  "github_repository_name_new = validated_new validate_repository GitHubRepositoryName"
definition git_remote_name_new :: "str \<Rightarrow> str + git_remote_name" where
  "git_remote_name_new = validated_new validate_remote_name GitRemoteName"
definition github_cursor_new :: "str \<Rightarrow> str + github_cursor" where
  "github_cursor_new = validated_new validate_cursor GitHubCursor"
definition github_search_text_new :: "str \<Rightarrow> str + github_search_text" where
  "github_search_text_new = validated_new validate_search_text GitHubSearchText"
definition github_login_new :: "str \<Rightarrow> str + github_login" where
  "github_login_new = validated_new validate_login GitHubLogin"
definition github_label_name_new :: "str \<Rightarrow> str + github_label_name" where
  "github_label_name_new = validated_new validate_label GitHubLabelName"
definition github_branch_name_new :: "str \<Rightarrow> str + github_branch_name" where
  "github_branch_name_new = validated_new validate_branch GitHubBranchName"
definition github_timestamp_new :: "str \<Rightarrow> str + github_timestamp" where
  "github_timestamp_new = validated_new validate_timestamp GitHubTimestamp"
definition github_title_new :: "str \<Rightarrow> str + github_title" where
  "github_title_new = validated_new validate_title GitHubTitle"
definition github_body_new :: "str \<Rightarrow> str + github_body" where
  "github_body_new = validated_new validate_body GitHubBody"
definition github_comment_body_new :: "str \<Rightarrow> str + github_comment_body" where
  "github_comment_body_new = validated_new validate_comment_body GitHubCommentBody"
definition start_work_branch_new :: "str \<Rightarrow> str + start_work_branch" where
  "start_work_branch_new = validated_new validate_start_work_branch StartWorkBranch"
definition start_work_instructions_new :: "str \<Rightarrow> str + start_work_instructions" where
  "start_work_instructions_new = validated_new validate_instructions StartWorkInstructions"

lemmas validated_news =
  github_host_new_def github_owner_new_def github_repository_name_new_def git_remote_name_new_def
  github_cursor_new_def github_search_text_new_def github_login_new_def github_label_name_new_def
  github_branch_name_new_def github_timestamp_new_def github_title_new_def github_body_new_def
  github_comment_body_new_def start_work_branch_new_def start_work_instructions_new_def

section \<open>Sanitizers\<close>

definition sanitize_github_inline :: "str \<Rightarrow> nat \<Rightarrow> str" where
  "sanitize_github_inline v maximum = fitting_prefix maximum (filter (\<lambda>c. \<not> is_control c) v)"

definition sanitize_github_multiline :: "str \<Rightarrow> nat \<Rightarrow> str" where
  "sanitize_github_multiline v maximum =
     fitting_prefix maximum (filter (\<lambda>c. \<not> is_control c \<or> is_line_control c) v)"

definition sanitize_start_work_diagnostic :: "str \<Rightarrow> str" where
  "sanitize_start_work_diagnostic v =
     take MAX_START_WORK_DIAGNOSTIC_LENGTH (map (\<lambda>c. if is_control c then chr CHR '' '' else c) v)"

definition deserialize_start_work_diagnostic :: validator where
  "deserialize_start_work_diagnostic v =
     (if v = [] \<or> length v > MAX_START_WORK_DIAGNOSTIC_LENGTH \<or> list_ex is_control v
      then Inl (lit ''Start Work diagnostic is invalid'') else Inr v)"

section \<open>Numbers and filters of a query\<close>

datatype github_item_kind = Issue | PullRequest

definition search_qualifier :: "github_item_kind \<Rightarrow> str" where
  "search_qualifier k = (case k of Issue \<Rightarrow> lit ''issue'' | PullRequest \<Rightarrow> lit ''pr'')"

definition browser_segment :: "github_item_kind \<Rightarrow> str" where
  "browser_segment k = (case k of Issue \<Rightarrow> lit ''issues'' | PullRequest \<Rightarrow> lit ''pull'')"

definition item_kind_display :: "github_item_kind \<Rightarrow> str" where
  "item_kind_display k = (case k of Issue \<Rightarrow> lit ''issue'' | PullRequest \<Rightarrow> lit ''pull-request'')"

definition item_kind_from_str :: "str \<Rightarrow> str + github_item_kind" where
  "item_kind_from_str v =
     (if v = lit ''issue'' \<or> v = lit ''issues'' then Inr Issue
      else if v \<in> {lit ''pull-request'', lit ''pull-requests'', lit ''pr'', lit ''prs''} then Inr PullRequest
      else Inl (lit ''GitHub item kind must be issue or pull-request''))"

datatype github_item_number = GitHubItemNumber (item_number: u64)

definition item_number_new :: "u64 \<Rightarrow> str + github_item_number" where
  "item_number_new v =
     (if v = 0 then Inl (lit ''GitHub item number must be positive'') else Inr (GitHubItemNumber v))"

definition item_number_from_str :: "str \<Rightarrow> str + github_item_number" where
  "item_number_from_str v = (case parse_usize v of
       None \<Rightarrow> Inl (lit ''GitHub item number is invalid'') | Some n \<Rightarrow> item_number_new (of_nat n))"

definition item_number_display :: "github_item_number \<Rightarrow> str" where
  "item_number_display n = decimal (unat (item_number n))"

datatype github_page_size = GitHubPageSize (page_size: u8)

definition page_size_new :: "u8 \<Rightarrow> str + github_page_size" where
  "page_size_new v = (if 1 \<le> v \<and> unat v \<le> MAX_GITHUB_PAGE_SIZE then Inr (GitHubPageSize v)
     else Inl (lit ''GitHub page size must be between 1 and 50''))"

definition page_size_default :: github_page_size where "page_size_default = GitHubPageSize 30"

datatype github_list_state = ListOpen | ListClosed | ListAll

definition list_state_display :: "github_list_state \<Rightarrow> str" where
  "list_state_display s = (case s of
       ListOpen \<Rightarrow> lit ''open'' | ListClosed \<Rightarrow> lit ''closed'' | ListAll \<Rightarrow> lit ''all'')"

definition list_state_from_str :: "str \<Rightarrow> str + github_list_state" where
  "list_state_from_str v =
     (if v = lit ''open'' then Inr ListOpen else if v = lit ''closed'' then Inr ListClosed
      else if v = lit ''all'' then Inr ListAll
      else Inl (lit ''GitHub state must be open, closed, or all''))"

datatype github_review_filter = ReviewApproved | ReviewChangesRequested | ReviewRequired

definition review_filter_display :: "github_review_filter \<Rightarrow> str" where
  "review_filter_display s = (case s of ReviewApproved \<Rightarrow> lit ''approved''
     | ReviewChangesRequested \<Rightarrow> lit ''changes-requested'' | ReviewRequired \<Rightarrow> lit ''review-required'')"

definition review_filter_from_str :: "str \<Rightarrow> str + github_review_filter" where
  "review_filter_from_str v =
     (if v = lit ''approved'' then Inr ReviewApproved
      else if v = lit ''changes-requested'' then Inr ReviewChangesRequested
      else if v = lit ''review-required'' then Inr ReviewRequired
      else Inl (lit ''GitHub review must be approved, changes-requested, or review-required''))"

datatype github_check_filter = CheckSuccess | CheckFailure | CheckPending

definition check_filter_display :: "github_check_filter \<Rightarrow> str" where
  "check_filter_display s = (case s of
       CheckSuccess \<Rightarrow> lit ''success'' | CheckFailure \<Rightarrow> lit ''failure'' | CheckPending \<Rightarrow> lit ''pending'')"

definition check_filter_from_str :: "str \<Rightarrow> str + github_check_filter" where
  "check_filter_from_str v =
     (if v = lit ''success'' then Inr CheckSuccess else if v = lit ''failure'' then Inr CheckFailure
      else if v = lit ''pending'' then Inr CheckPending
      else Inl (lit ''GitHub check must be success, failure, or pending''))"

section \<open>Validators as an interface\<close>

text \<open>What serialization relies on: a validator accepts what it returned, unchanged.\<close>

locale stable_validator =
  fixes check :: validator
  assumes stable: "check v = Inr w \<Longrightarrow> check w = Inr w"
begin

lemma reload: "validated_new check wrap v = Inr x \<Longrightarrow> inj wrap \<Longrightarrow>
  \<exists>w. x = wrap w \<and> validated_new check wrap w = Inr x"
  by (auto simp: validated_new_def bind_result_eq_Inr dest: stable)

end

text \<open>Most validators keep the text they accept.\<close>

lemma validate_path_segment_Inr:
  "validate_path_segment n label v = Inr w \<longleftrightarrow> w = v \<and> v \<noteq> [] \<and> byte_len v \<le> n \<and> v \<noteq> lit ''.'' \<and> v \<noteq> lit ''..''
     \<and> list_all is_segment_char v"
  by (auto simp: validate_path_segment_def)

lemma validate_visible_Inr:
  "validate_visible n label False v = Inr w \<longleftrightarrow>
     w = v \<and> v \<noteq> [] \<and> byte_len v \<le> n \<and> (\<forall>c\<in>set v. \<not> is_control c)"
  by (auto simp: validate_visible_def list_ex_iff)

lemma validate_multiline_Inr:
  "validate_multiline n label v = Inr w \<longleftrightarrow>
     w = v \<and> byte_len v \<le> n \<and> (\<forall>c\<in>set v. is_control c \<longrightarrow> is_line_control c)"
  by (auto simp: validate_multiline_def list_ex_iff)

interpretation host: stable_validator validate_host
  by unfold_locales (auto simp: validate_host_def Let_def split: if_splits)

interpretation segment: stable_validator "validate_path_segment n label"
  by unfold_locales (simp add: validate_path_segment_Inr)

interpretation visible: stable_validator "validate_visible n label False"
  by unfold_locales (simp add: validate_visible_Inr)

interpretation multiline: stable_validator "validate_multiline n label"
  by unfold_locales (simp add: validate_multiline_Inr)

interpretation remote_name: stable_validator validate_remote_name
  by unfold_locales (auto simp: validate_remote_name_def split: if_splits)

interpretation cursor: stable_validator validate_cursor
  by unfold_locales (auto simp: validate_cursor_def split: if_splits)

interpretation work_branch: stable_validator validate_start_work_branch
  by unfold_locales (auto simp: validate_start_work_branch_def split: if_splits)

end
