(* ===== verification/Store.thy ===== *)
theory Store
  imports Session_Lineage GitHub_Work "HOL-Library.Multiset" "HOL-Library.Product_Lexorder"
begin

text \<open>
  The tables of the daemon's SQLite store that hold Workspaces, Projects, Worktrees, Provider
  profiles, Sessions and their resumptions (\<open>crates/sylvops-daemon/migrations\<close> and the row
  readers of \<open>crates/sylvops-daemon/src/database.rs\<close>), with the constraints, foreign keys and
  triggers the schema declares, and the invariant every command of the store is checked against.

  A table is the list of its rows. A command is one transaction: a function from the store to an
  error (the transaction is rolled back) or to its reply and the new store. Faults of the engine
  itself (a full disk, a busy file) are not modelled. Neither are the tables no command here
  reads: settings and interface state. No command writes pull request links; removing a Project
  deletes those of its Worktrees.
\<close>

section \<open>Tables\<close>

definition select_by :: "('r \<Rightarrow> 'k) \<Rightarrow> 'k \<Rightarrow> 'r list \<Rightarrow> 'r option" where
  "select_by key k t = find (\<lambda>r. key r = k) t"

definition update_where :: "('r \<Rightarrow> bool) \<Rightarrow> ('r \<Rightarrow> 'r) \<Rightarrow> 'r list \<Rightarrow> 'r list" where
  "update_where P f t = map (\<lambda>r. if P r then f r else r) t"

named_theorems table_simps "rows and keys after a statement"

lemma select_by_SomeD: "select_by key k t = Some r \<Longrightarrow> r \<in> set t \<and> key r = k"
  by (auto simp: select_by_def find_Some_iff)

lemma select_by_None: "select_by key k t = None \<longleftrightarrow> k \<notin> key ` set t"
  by (auto simp: select_by_def find_None_iff)

lemma select_by_unique:
  "distinct (map key t) \<Longrightarrow> select_by key k t = Some r \<longleftrightarrow> r \<in> set t \<and> key r = k"
proof (induction t)
  case (Cons x t)
  then show ?case by (auto simp: select_by_def image_iff)
qed (simp add: select_by_def)

lemma select_by_append [table_simps]:
  "select_by key k (t @ u) = (case select_by key k t of Some r \<Rightarrow> Some r | None \<Rightarrow> select_by key k u)"
  by (induction t) (auto simp: select_by_def)

lemma select_by_simps [table_simps]:
  "select_by key k [] = None"
  "select_by key k (r # t) = (if key r = k then Some r else select_by key k t)"
  by (simp_all add: select_by_def)

lemma map_update_where [table_simps]:
  "(\<And>r. P r \<Longrightarrow> key (f r) = key r) \<Longrightarrow> map key (update_where P f t) = map key t"
  by (auto simp: update_where_def)

lemma image_update_where [table_simps]:
  "(\<And>r. P r \<Longrightarrow> key (f r) = key r) \<Longrightarrow> key ` set (update_where P f t) = key ` set t"
  using map_update_where [of P key f t] by (metis list.set_map)

lemma set_update_where: "r \<in> set (update_where P f t) \<longleftrightarrow> (\<exists>q\<in>set t. r = (if P q then f q else q))"
  by (auto simp: update_where_def)

lemma select_by_update_where [table_simps]:
  "(\<And>r. P r \<Longrightarrow> key (f r) = key r) \<Longrightarrow>
     select_by key k (update_where P f t) = map_option (\<lambda>r. if P r then f r else r) (select_by key k t)"
  by (induction t) (auto simp: select_by_def update_where_def)

lemma select_by_filter:
  assumes "distinct (map key t)"
  shows "select_by key k (filter P t) = (case select_by key k t of
        Some r \<Rightarrow> if P r then Some r else None | None \<Rightarrow> None)"
proof (cases "select_by key k t")
  case None
  then have "select_by key k (filter P t) = None" by (auto simp: select_by_None)
  then show ?thesis using None by simp
next
  case (Some r)
  have d: "distinct (map key (filter P t))" using assms by (rule distinct_map_filter)
  have r: "r \<in> set t" "key r = k" using select_by_SomeD [OF Some] by auto
  show ?thesis
  proof (cases "P r")
    case True
    then have "select_by key k (filter P t) = Some r" using d r by (simp add: select_by_unique)
    then show ?thesis using Some True by simp
  next
    case False
    have "\<forall>q\<in>set t. key q = k \<longrightarrow> q = r"
      using assms r by (metis inj_on_eq_iff distinct_map)
    then have "select_by key k (filter P t) = None" using False by (auto simp: select_by_None)
    then show ?thesis using Some False by simp
  qed
qed

section \<open>Rows\<close>

text \<open>The rows of \<open>projects\<close> and \<open>workspaces\<close> carry a generation no client record shows.\<close>

record workspace_row = workspace + ws_removal_generation :: int
record project_row = project + pj_removal_generation :: int

record provider_profile =
  pp_id :: provider_profile_id
  pp_kind :: provider_kind
  pp_display_name :: str
  pp_executable_path :: "str option"
  pp_default_model :: "str option"
  pp_default_effort :: "str option"
  pp_enabled :: bool
  pp_capabilities_json :: str
  pp_last_probe_status :: "str option"
  pp_last_probe_at :: "int option"

record resumption = lineage_link + rs_created_at :: int

datatype audit_actor = ByClient | ByDaemon | ByRecovery

datatype audit_entity =
    WorkspaceEntity workspace_id | ProjectEntity project_id | WorktreeEntity worktree_id
  | SessionEntity session_id | NeedsFeedbackEntity session_id | NoEntity

text \<open>\<open>NeedsFeedbackEntity\<close> is what one caller files its audit row under: it passes
  \<open>needs_feedback\<close> as the kind of the entity.\<close>

text \<open>\<open>details_json\<close>: the two objects the store writes itself, the object of a Session and a reason
  that the daemon writes, or a text.\<close>

datatype audit_details =
    EmptyDetails | RestartDetails | TransitionDetails session_id conversation_transition
  | HookDetails "session_id option" "string option" | GivenDetails str

record audit_event =
  au_actor :: audit_actor
  au_action :: str
  au_entity :: audit_entity
  au_outcome :: str
  au_details :: audit_details

record pull_request_link =
  pl_id :: str
  pl_worktree_id :: worktree_id
  pl_url :: str

record store =
  db_workspaces :: "workspace_row list"
  db_projects :: "project_row list"
  db_worktrees :: "worktree list"
  db_profiles :: "provider_profile list"
  db_sessions :: "session list"
  db_resumptions :: "resumption list"
  db_audit :: "audit_event list"
  db_associations :: "github_association list"
  db_work_sources :: "work_source list"
  db_pull_requests :: "pull_request_link list"

definition empty_store :: store where
  "empty_store = \<lparr>db_workspaces = [], db_projects = [], db_worktrees = [], db_profiles = [],
     db_sessions = [], db_resumptions = [], db_audit = [], db_associations = [],
     db_work_sources = [], db_pull_requests = []\<rparr>"

datatype store_error =
    NoSuchWorkspace workspace_id | NoSuchProject project_id | NoSuchWorktree worktree_id
  | NoSuchSession session_id | NoSuchProfile provider_profile_id
  | InvalidName
  | InvalidStatusRow status_error | InvalidProcessState
  | ConstraintFailed | GenerationExhausted
  | SuccessorIneligible | AlreadyResumed | SessionDeletionStale
  | CannotSpawn session_id | InvalidTerminalLifecycle | OutcomeMismatch
  | InvalidStatus status_error | ProviderEventsRequireRunning | CannotAcceptEvents session_id
  | AttentionIdentityExhausted
  | RemovalStale | WorkspaceDeletionStale | FallbackChanged
  | WorktreeRemovedOrMissing worktree_id | NotActiveManaged worktree_id
  | WorktreeNotActive worktree_id
  | InvalidAuditOutcome | InvalidAuditDetails
  | InvalidWorkSource | WorkSourceNumberTooLarge
  | LineageRefused lineage_error

section \<open>Readers\<close>

text \<open>\<open>session_record_from_row\<close> decodes \<open>status_json\<close>, which validates it; \<open>session_from_row\<close>
  adds the checks on the process.\<close>

definition session_from_row :: "session \<Rightarrow> store_error + session" where
  "session_from_row s = (case validate (se_status s) of
       Inl e \<Rightarrow> Inl (InvalidStatusRow e)
     | Inr _ \<Rightarrow>
         if (st_lifecycle (se_status s) = Running) \<noteq> (se_process_id s \<noteq> None)
            \<or> se_process_id s = Some 0
            \<or> (se_provider_kind s = Shell \<and> st_activity (se_status s) \<noteq> NoActivity)
         then Inl InvalidProcessState else Inr s)"

definition load_session_row :: "store \<Rightarrow> session_id \<Rightarrow> store_error + session" where
  "load_session_row st i = (case select_by se_id i (db_sessions st) of
       None \<Rightarrow> Inl (NoSuchSession i) | Some s \<Rightarrow> session_from_row s)"

definition load_workspace :: "store \<Rightarrow> workspace_id \<Rightarrow> store_error + workspace" where
  "load_workspace st i = (case select_by ws_id i (db_workspaces st) of
       None \<Rightarrow> Inl (NoSuchWorkspace i) | Some r \<Rightarrow> Inr (workspace.truncate r))"

definition load_project :: "store \<Rightarrow> project_id \<Rightarrow> store_error + project" where
  "load_project st i = (case select_by pj_id i (db_projects st) of
       None \<Rightarrow> Inl (NoSuchProject i) | Some r \<Rightarrow> Inr (project.truncate r))"

definition load_worktree :: "store \<Rightarrow> worktree_id \<Rightarrow> store_error + worktree" where
  "load_worktree st i = (case select_by wt_id i (db_worktrees st) of
       None \<Rightarrow> Inl (NoSuchWorktree i) | Some r \<Rightarrow> Inr r)"

definition load_provider :: "store \<Rightarrow> provider_profile_id \<Rightarrow> store_error + provider_profile" where
  "load_provider st i = (case select_by pp_id i (db_profiles st) of
       None \<Rightarrow> Inl (NoSuchProfile i) | Some r \<Rightarrow> Inr r)"

text \<open>The lineage query: \<open>ORDER BY created_at ASC, source_session_id ASC\<close>. A row the reader
  refuses is reported like a missing one.\<close>

definition lineage_links :: "store \<Rightarrow> lineage_link list" where
  "lineage_links st = map (\<lambda>r. \<lparr>predecessor = predecessor r, successor = successor r\<rparr>)
     (sort_key (\<lambda>r. (rs_created_at r, predecessor r)) (db_resumptions st))"

definition session_lookup :: "store \<Rightarrow> session_id \<Rightarrow> session option" where
  "session_lookup st i = (case load_session_row st i of Inl _ \<Rightarrow> None | Inr s \<Rightarrow> Some s)"

definition load_lineage :: "store \<Rightarrow> lineage_error + lineage_link list" where
  "load_lineage st = load_session_lineage (session_lookup st) (lineage_links st)"

definition load_lineage_leaf :: "store \<Rightarrow> session_id \<Rightarrow> lineage_error + session" where
  "load_lineage_leaf st i = load_session_lineage_leaf (session_lookup st) (lineage_links st) i"

section \<open>Writers shared by the commands\<close>

definition validated_name :: "str \<Rightarrow> store_error + str" where
  "validated_name name =
     (let n = trim name in if n = [] \<or> 200 < length n then Inl InvalidName else Inr n)"

text \<open>\<open>CHECK (length(name) BETWEEN 1 AND 200)\<close>: SQLite counts the characters before a NUL.\<close>

definition name_check :: "str \<Rightarrow> bool" where
  "name_check s \<longleftrightarrow> (let n = length (takeWhile (\<lambda>c. c \<noteq> 0) s) in 1 \<le> n \<and> n \<le> 200)"

definition audit :: "audit_event \<Rightarrow> store \<Rightarrow> store" where
  "audit e st = st\<lparr>db_audit := db_audit st @ [e]\<rparr>"

definition insert_entity_audit :: "string \<Rightarrow> audit_entity \<Rightarrow> store \<Rightarrow> store" where
  "insert_entity_audit action entity = audit \<lparr>au_actor = ByClient, au_action = lit action,
     au_entity = entity, au_outcome = lit ''succeeded'', au_details = EmptyDetails\<rparr>"

text \<open>The triggers of migrations 0005 and 0006: a generation is bumped by every change of the
  rows below it and aborts the statement when it would leave the range of an \<open>i64\<close>.\<close>

definition MAX_GENERATION :: int where "MAX_GENERATION = 9223372036854775807"

definition bump_project :: "project_id \<Rightarrow> store \<Rightarrow> store_error + store" where
  "bump_project p st =
     (if list_ex (\<lambda>r. pj_id r = p \<and> pj_removal_generation r = MAX_GENERATION) (db_projects st)
      then Inl GenerationExhausted
      else Inr (st\<lparr>db_projects := update_where (\<lambda>r. pj_id r = p)
             (\<lambda>r. r\<lparr>pj_removal_generation := pj_removal_generation r + 1\<rparr>) (db_projects st)\<rparr>))"

definition bump_workspace :: "workspace_id \<Rightarrow> store \<Rightarrow> store_error + store" where
  "bump_workspace w st =
     (if list_ex (\<lambda>r. ws_id r = w \<and> ws_removal_generation r = MAX_GENERATION) (db_workspaces st)
      then Inl GenerationExhausted
      else Inr (st\<lparr>db_workspaces := update_where (\<lambda>r. ws_id r = w)
             (\<lambda>r. r\<lparr>ws_removal_generation := ws_removal_generation r + 1\<rparr>) (db_workspaces st)\<rparr>))"

definition bump_worktree_project :: "worktree_id \<Rightarrow> store \<Rightarrow> store_error + store" where
  "bump_worktree_project w st = (case select_by wt_id w (db_worktrees st) of
       None \<Rightarrow> Inr st | Some r \<Rightarrow> bump_project (wt_project_id r) st)"

text \<open>An update of one Worktree row, by its identity and a condition: whether a row changed, and
  the store after the trigger.\<close>

definition update_worktree ::
    "worktree_id \<Rightarrow> (worktree \<Rightarrow> bool) \<Rightarrow> (worktree \<Rightarrow> worktree) \<Rightarrow> store
       \<Rightarrow> store_error + bool \<times> store" where
  "update_worktree i P f st = (case select_by wt_id i (db_worktrees st) of
       None \<Rightarrow> Inr (False, st)
     | Some w \<Rightarrow>
         if P w then bind_result (bump_project (wt_project_id w)
             (st\<lparr>db_worktrees := update_where (\<lambda>r. wt_id r = i \<and> P r) f (db_worktrees st)\<rparr>))
             (\<lambda>st1. Inr (True, st1))
         else Inr (False, st))"

definition touch_project :: "int \<Rightarrow> project_id \<Rightarrow> store \<Rightarrow> store" where
  "touch_project now p st = st\<lparr>db_projects := update_where (\<lambda>r. pj_id r = p)
     (\<lambda>r. r\<lparr>pj_last_activity_at := now\<rparr>) (db_projects st)\<rparr>"

text \<open>The two statements that stamp the Worktree of a Session and its Project.\<close>

definition touch_worktree :: "int \<Rightarrow> worktree_id \<Rightarrow> store \<Rightarrow> store_error + store" where
  "touch_worktree now w st =
     bind_result (update_worktree w (\<lambda>_. True) (\<lambda>r. r\<lparr>wt_last_activity_at := now\<rparr>) st)
       (\<lambda>(_, st1). Inr (case select_by wt_id w (db_worktrees st1) of
            None \<Rightarrow> st1 | Some r \<Rightarrow> touch_project now (wt_project_id r) st1))"

end
