(* ===== verification/Session_Store.thy ===== *)
theory Session_Store
  imports Store
begin

text \<open>
  The Session commands of \<open>crates/sylvops-daemon/src/database.rs\<close> (lines 2503-3148): creating,
  renaming, deleting, starting and finishing a Session, acknowledging its attention, recording
  Provider events, and reconciling after a restart. The clock of a command (\<open>now_millis\<close>) is an
  argument.
\<close>

section \<open>Commands\<close>

record new_session =
  ns_id :: session_id
  ns_worktree_id :: worktree_id
  ns_display_name :: str
  ns_provider_profile_id :: "provider_profile_id option"
  ns_provider_kind :: provider_kind
  ns_command :: str
  ns_arguments_json :: str
  ns_cwd :: str
  ns_external_session_id :: "str option"
  ns_resumed_from :: "session_id option"

record identity_update =
  iu_external :: provider_conversation_id
  iu_transition :: "conversation_transition option"

datatype acknowledgement_action = Opened | Dismissed

text \<open>The defaults of the columns the insert leaves out: \<open>status_json\<close> is a starting Session.\<close>

definition starting_status :: session_status where
  "starting_status = \<lparr>st_lifecycle = Starting, st_activity = NoActivity, st_attention = None\<rparr>"

definition new_session_row :: "int \<Rightarrow> new_session \<Rightarrow> session" where
  "new_session_row now r =
     \<lparr>se_id = ns_id r, se_worktree_id = ns_worktree_id r,
      se_provider_profile_id = ns_provider_profile_id r, se_provider_kind = ns_provider_kind r,
      se_display_name = ns_display_name r, se_status = starting_status, se_process_id = None,
      se_external_session_id = ns_external_session_id r, se_command = ns_command r,
      se_arguments_json = ns_arguments_json r, se_cwd = ns_cwd r, se_created_at = now,
      se_started_at = None, se_ended_at = None, se_last_activity_at = now,
      se_last_seen_output_sequence = 0, se_exit_code = None, se_failure_reason = None\<rparr>"

definition check_source :: "new_session \<Rightarrow> session_id \<Rightarrow> store \<Rightarrow> store_error + unit" where
  "check_source r src st =
     bind_result (load_session_row st src) (\<lambda>s.
     if \<not> lifecycle_allows_resume (st_lifecycle (se_status s))
        \<or> se_worktree_id s \<noteq> ns_worktree_id r \<or> se_provider_kind s \<noteq> ns_provider_kind r
        \<or> se_cwd s \<noteq> ns_cwd r \<or> se_external_session_id s \<noteq> ns_external_session_id r
        \<or> se_external_session_id s = None
     then Inl SuccessorIneligible
     else if list_ex (\<lambda>l. predecessor l = src) (db_resumptions st) then Inl AlreadyResumed
     else Inr ())"

definition insert_session_row :: "session \<Rightarrow> store \<Rightarrow> store_error + store" where
  "insert_session_row s st =
     (if list_ex (\<lambda>q. se_id q = se_id s) (db_sessions st)
         \<or> \<not> list_ex (\<lambda>w. wt_id w = se_worktree_id s) (db_worktrees st)
         \<or> (case se_provider_profile_id s of None \<Rightarrow> False
              | Some p \<Rightarrow> \<not> list_ex (\<lambda>q. pp_id q = p) (db_profiles st))
         \<or> \<not> name_check (se_display_name s)
      then Inl ConstraintFailed
      else bump_worktree_project (se_worktree_id s) (st\<lparr>db_sessions := db_sessions st @ [s]\<rparr>))"

definition insert_resumption_row :: "resumption \<Rightarrow> store \<Rightarrow> store_error + store" where
  "insert_resumption_row r st =
     (if list_ex (\<lambda>l. predecessor l = predecessor r \<or> successor l = successor r) (db_resumptions st)
         \<or> \<not> list_ex (\<lambda>s. se_id s = predecessor r) (db_sessions st)
         \<or> \<not> list_ex (\<lambda>s. se_id s = successor r) (db_sessions st)
      then Inl ConstraintFailed
      else Inr (st\<lparr>db_resumptions := db_resumptions st @ [r]\<rparr>))"

definition insert_session :: "int \<Rightarrow> new_session \<Rightarrow> store \<Rightarrow> store_error + session \<times> store" where
  "insert_session now r st =
     bind_result (case ns_resumed_from r of None \<Rightarrow> Inr () | Some src \<Rightarrow> check_source r src st) (\<lambda>_.
     bind_result (insert_session_row (new_session_row now r) st) (\<lambda>st1.
     bind_result (case ns_resumed_from r of
          None \<Rightarrow> Inr st1
        | Some src \<Rightarrow> insert_resumption_row
            \<lparr>predecessor = src, successor = ns_id r, rs_created_at = now\<rparr> st1) (\<lambda>st2.
     let st3 = insert_entity_audit ''session_created'' (SessionEntity (ns_id r)) st2
     in bind_result (load_session_row st3 (ns_id r)) (\<lambda>s. Inr (s, st3)))))"

text \<open>An \<open>UPDATE sessions ... WHERE id = ?\<close> with a further condition: \<open>None\<close> when it changed no
  row (it cannot change more than one, the identity being the key), or the store after it.\<close>

definition update_session ::
    "session_id \<Rightarrow> (session \<Rightarrow> bool) \<Rightarrow> (session \<Rightarrow> session) \<Rightarrow> store \<Rightarrow> store option" where
  "update_session i P f st =
     (if list_ex (\<lambda>s. se_id s = i \<and> P s) (db_sessions st)
      then Some (st\<lparr>db_sessions := update_where (\<lambda>s. se_id s = i \<and> P s) f (db_sessions st)\<rparr>)
      else None)"

text \<open>The same when the number of changed rows is not looked at.\<close>

definition updated_session :: "session_id \<Rightarrow> (session \<Rightarrow> session) \<Rightarrow> store \<Rightarrow> store" where
  "updated_session i f st =
     st\<lparr>db_sessions := update_where (\<lambda>s. se_id s = i) f (db_sessions st)\<rparr>"

definition rename_session :: "int \<Rightarrow> session_id \<Rightarrow> str \<Rightarrow> store \<Rightarrow> store_error + session \<times> store" where
  "rename_session now i name st =
     bind_result (validated_name name) (\<lambda>n.
     case update_session i (\<lambda>_. True)
            (\<lambda>s. s\<lparr>se_display_name := n, se_last_activity_at := now\<rparr>) st of
       None \<Rightarrow> Inl (NoSuchSession i)
     | Some st1 \<Rightarrow>
        if \<not> name_check n then Inl ConstraintFailed
        else bind_result (case select_by se_id i (db_sessions st1) of
                 None \<Rightarrow> Inr st1
               | Some s \<Rightarrow> touch_worktree now (se_worktree_id s) st1) (\<lambda>st2.
             let st3 = insert_entity_audit ''session_renamed'' (SessionEntity i) st2
             in bind_result (load_session_row st3 i) (\<lambda>s. Inr (s, st3))))"

definition delete_session :: "session \<Rightarrow> store \<Rightarrow> store_error + session \<times> store" where
  "delete_session expected st =
     bind_result (load_session_row st (se_id expected)) (\<lambda>s.
     if s \<noteq> expected \<or> \<not> lifecycle_allows_deletion (st_lifecycle (se_status s))
        \<or> se_process_id s \<noteq> None
     then Inl SessionDeletionStale
     else
       let st1 = st\<lparr>db_resumptions :=
              filter (\<lambda>l. predecessor l \<noteq> se_id s \<and> successor l \<noteq> se_id s) (db_resumptions st),
            db_sessions := filter (\<lambda>q. se_id q \<noteq> se_id s) (db_sessions st)\<rparr>
       in bind_result (bump_worktree_project (se_worktree_id s) st1) (\<lambda>st2.
          Inr (s, insert_entity_audit ''session_deleted'' (SessionEntity (se_id s)) st2)))"

definition mark_session_running ::
    "int \<Rightarrow> session_id \<Rightarrow> u32 \<Rightarrow> store \<Rightarrow> store_error + session \<times> store" where
  "mark_session_running now i pid st =
     (case update_session i
            (\<lambda>s. st_lifecycle (se_status s) = Starting \<or> st_lifecycle (se_status s) = Running)
            (\<lambda>s. s\<lparr>se_status := (se_status s)\<lparr>st_lifecycle := Running\<rparr>, se_process_id := Some pid,
                   se_started_at := (case se_started_at s of None \<Rightarrow> Some now | t \<Rightarrow> t),
                   se_last_activity_at := now, se_failure_reason := None\<rparr>) st of
        None \<Rightarrow> Inl (CannotSpawn i)
      | Some st1 \<Rightarrow>
           let st2 = insert_entity_audit ''session_started'' (SessionEntity i) st1
           in bind_result (load_session_row st2 i) (\<lambda>s. Inr (s, st2)))"

text \<open>The status of a Session that ends without a transition of its status machine.\<close>

definition terminal_status :: "int \<Rightarrow> session_lifecycle \<Rightarrow> session_status" where
  "terminal_status now l = \<lparr>st_lifecycle = l, st_activity = NoActivity,
     st_attention = map_option (\<lambda>r. \<lparr>ev_id = AttentionEventId 1, ev_reason = r, ev_ack = Pending,
                                    ev_occurred_at = now\<rparr>)
       (case l of Exited \<Rightarrow> Some SuccessfulCompletion | Failed \<Rightarrow> Some TerminalFailure
        | _ \<Rightarrow> None)\<rparr>"

definition finish_session ::
    "int \<Rightarrow> session_id \<Rightarrow> session_lifecycle \<Rightarrow> status_transition option \<Rightarrow> int option \<Rightarrow> str option
       \<Rightarrow> store \<Rightarrow> store_error + session \<times> store" where
  "finish_session now i l tr exit_code failure st =
     (if l \<noteq> Exited \<and> l \<noteq> Failed \<and> l \<noteq> Terminated then Inl InvalidTerminalLifecycle
      else
        bind_result (case tr of
             None \<Rightarrow> Inr (terminal_status now l)
           | Some t \<Rightarrow> if st_lifecycle (tr_status t) \<noteq> l then Inl OutcomeMismatch
                       else Inr (tr_status t)) (\<lambda>status.
        case validate status of
          Inl e \<Rightarrow> Inl (InvalidStatus e)
        | Inr _ \<Rightarrow>
            case update_session i (\<lambda>_. True)
                  (\<lambda>s. s\<lparr>se_status := status, se_process_id := None, se_ended_at := Some now,
                         se_last_activity_at := now, se_exit_code := exit_code,
                         se_failure_reason := failure\<rparr>) st of
              None \<Rightarrow> Inl (NoSuchSession i)
            | Some st1 \<Rightarrow> bind_result (load_session_row st1 i) (\<lambda>s.
                    bind_result (touch_worktree now (se_worktree_id s) st1) (\<lambda>st2.
                    Inr (s, insert_entity_audit ''session_finished'' (SessionEntity i) st2)))))"

text \<open>\<open>finish_session_outcome\<close> of the handle.\<close>

definition finish_session_outcome ::
    "int \<Rightarrow> session_id \<Rightarrow> status_transition \<Rightarrow> int option \<Rightarrow> store \<Rightarrow> store_error + session \<times> store" where
  "finish_session_outcome now i tr exit_code st =
     finish_session now i (st_lifecycle (tr_status tr)) (Some tr) exit_code
       (map_option category_str (tr_failure tr)) st"

text \<open>\<open>acknowledge_attention\<close>: \<open>None\<close> when the event is gone, already acknowledged or not one
  this action acknowledges.\<close>

definition acknowledgement_allowed :: "acknowledgement_action \<Rightarrow> attention_reason \<Rightarrow> bool" where
  "acknowledgement_allowed a r = (case a of
       Opened \<Rightarrow> r = InputRequested \<or> r = SuccessfulCompletion \<or> r = TerminalFailure
     | Dismissed \<Rightarrow> r = RecoverableFailure)"

definition acknowledgement_audit :: "acknowledgement_action \<Rightarrow> string" where
  "acknowledgement_audit a = (case a of
       Opened \<Rightarrow> ''session_attention_opened'' | Dismissed \<Rightarrow> ''session_attention_dismissed'')"

definition acknowledge_session_attention ::
    "session_id \<Rightarrow> attention_event_id \<Rightarrow> acknowledgement_action \<Rightarrow> store
       \<Rightarrow> store_error + session option \<times> store" where
  "acknowledge_session_attention i ev action st =
     bind_result (load_session_row st i) (\<lambda>s.
     case st_attention (se_status s) of
       None \<Rightarrow> Inr (None, st)
     | Some e \<Rightarrow>
         if ev_id e \<noteq> ev \<or> ev_ack e \<noteq> Pending \<or> \<not> acknowledgement_allowed action (ev_reason e)
         then Inr (None, st)
         else
           let status = (se_status s)\<lparr>st_attention := Some (e\<lparr>ev_ack := Acknowledged\<rparr>)\<rparr>
           in case validate status of
                Inl m \<Rightarrow> Inl (InvalidStatus m)
              | Inr _ \<Rightarrow>
                  let st1 = updated_session i (\<lambda>q. q\<lparr>se_status := status\<rparr>) st;
                      st2 = insert_entity_audit (acknowledgement_audit action) (SessionEntity i) st1
                  in bind_result (load_session_row st2 i) (\<lambda>s'. Inr (Some s', st2)))"

text \<open>\<open>insert_audit_event\<close>; whether a text is JSON is for the JSON library to say, and the objects it
  wrote itself are.\<close>

definition audit_outcome_ok :: "str \<Rightarrow> bool" where
  "audit_outcome_ok o' \<longleftrightarrow> o' \<in> {lit ''attempted'', lit ''succeeded'', lit ''refused'', lit ''failed''}"

definition insert_audit_event ::
    "(str \<Rightarrow> bool) \<Rightarrow> str \<Rightarrow> str \<Rightarrow> audit_details \<Rightarrow> store \<Rightarrow> store_error + unit \<times> store" where
  "insert_audit_event valid_json action outcome details st =
     (if \<not> audit_outcome_ok outcome then Inl InvalidAuditOutcome
      else if (case details of GivenDetails t \<Rightarrow> \<not> valid_json t | _ \<Rightarrow> False) then Inl InvalidAuditDetails
      else Inr ((), audit \<lparr>au_actor = ByDaemon, au_action = action, au_entity = NoEntity,
             au_outcome = outcome, au_details = details\<rparr> st))"

definition accepts_events :: "session \<Rightarrow> bool" where
  "accepts_events s \<longleftrightarrow> se_process_id s \<noteq> None \<and> st_lifecycle (se_status s) = Running"

definition update_session_status ::
    "int \<Rightarrow> session_id \<Rightarrow> status_transition \<Rightarrow> identity_update option \<Rightarrow> store
       \<Rightarrow> store_error + session \<times> store" where
  "update_session_status now i tr identity st =
     (if st_lifecycle (tr_status tr) \<noteq> Running then Inl ProviderEventsRequireRunning
      else case validate (tr_status tr) of
        Inl m \<Rightarrow> Inl (InvalidStatus m)
      | Inr _ \<Rightarrow>
          case update_session i accepts_events
                (\<lambda>s. s\<lparr>se_external_session_id := (case identity of
                           None \<Rightarrow> se_external_session_id s
                         | Some u \<Rightarrow> Some (conversation_str (iu_external u))),
                       se_last_activity_at := now,
                       se_failure_reason := map_option category_str (tr_failure tr),
                       se_status := tr_status tr\<rparr>) st of
            None \<Rightarrow> Inl (CannotAcceptEvents i)
          | Some st1 \<Rightarrow>
               let st2 = insert_entity_audit ''provider_status_changed'' (SessionEntity i) st1;
                   st3 = (case identity of
                       None \<Rightarrow> st2
                     | Some u \<Rightarrow> (case iu_transition u of
                           None \<Rightarrow> st2
                         | Some t \<Rightarrow> audit \<lparr>au_actor = ByDaemon,
                             au_action = lit ''provider_conversation_changed'',
                             au_entity = NoEntity, au_outcome = lit ''succeeded'',
                             au_details = TransitionDetails i t\<rparr> st2))
               in bind_result (load_session_row st3 i) (\<lambda>s. Inr (s, st3)))"

text \<open>\<open>mark_session_lifecycle_missing\<close>: the status with a recoverable failure, reusing an
  outstanding recoverable event.\<close>

definition missing_status :: "int \<Rightarrow> session_status \<Rightarrow> store_error + session_status" where
  "missing_status now s0 =
     (let s = s0\<lparr>st_activity := ActivityRecoverableFailure\<rparr>
      in if (case st_attention s of None \<Rightarrow> False
             | Some e \<Rightarrow> ev_reason e = RecoverableFailure \<and> ev_ack e \<noteq> Resolved)
         then Inr s
         else case (case st_attention s of
                None \<Rightarrow> Some 1 | Some e \<Rightarrow> checked_add (event_number (ev_id e)) 1) of
             None \<Rightarrow> Inl AttentionIdentityExhausted
           | Some n \<Rightarrow> (case event_id_try_from n of
                 Inl m \<Rightarrow> Inl (InvalidStatus m)
               | Inr i \<Rightarrow> Inr (s\<lparr>st_attention := Some \<lparr>ev_id = i, ev_reason = RecoverableFailure,
                       ev_ack = Pending, ev_occurred_at = now\<rparr>\<rparr>)))"

definition mark_session_lifecycle_missing ::
    "int \<Rightarrow> session_id \<Rightarrow> str \<Rightarrow> store \<Rightarrow> store_error + session option \<times> store" where
  "mark_session_lifecycle_missing now i failure st =
     bind_result (load_session_row st i) (\<lambda>s.
     if se_external_session_id s \<noteq> None \<or> se_process_id s = None
        \<or> st_lifecycle (se_status s) \<noteq> Running
     then Inr (None, st)
     else bind_result (missing_status now (se_status s)) (\<lambda>status.
       case validate status of
         Inl m \<Rightarrow> Inl (InvalidStatus m)
       | Inr _ \<Rightarrow>
           case update_session i
                 (\<lambda>q. se_external_session_id q = None \<and> accepts_events q)
                 (\<lambda>q. q\<lparr>se_status := status, se_failure_reason := Some failure,
                        se_last_activity_at := now\<rparr>) st of
             None \<Rightarrow> Inr (None, st)
           | Some st1 \<Rightarrow>
                let st2 = insert_entity_audit ''provider_lifecycle_missing''
                      (NeedsFeedbackEntity i) st1
                in bind_result (load_session_row st2 i) (\<lambda>s'. Inr (Some s', st2))))"

text \<open>\<open>reconcile_sessions\<close>: the Sessions found active, one after the other.\<close>

definition RESTART_REASON :: str where
  "RESTART_REASON = lit ''daemon restarted; process identity was not trusted''"

definition disconnected_status :: "session_status \<Rightarrow> session_status" where
  "disconnected_status s = s\<lparr>st_lifecycle := Disconnected, st_activity := NoActivity\<rparr>"

definition reconcile_one :: "session_id \<Rightarrow> store \<Rightarrow> store_error + store" where
  "reconcile_one i st =
     bind_result (load_session_row st i) (\<lambda>s.
     case validate (disconnected_status (se_status s)) of
       Inl m \<Rightarrow> Inl (InvalidStatus m)
     | Inr _ \<Rightarrow>
         let st1 = updated_session i
               (\<lambda>q. q\<lparr>se_status := disconnected_status (se_status s), se_process_id := None,
                      se_failure_reason := (case se_failure_reason q of
                          None \<Rightarrow> Some RESTART_REASON | r \<Rightarrow> r)\<rparr>) st
         in Inr (audit \<lparr>au_actor = ByRecovery, au_action = lit ''session_disconnected'',
                   au_entity = SessionEntity i, au_outcome = lit ''succeeded'',
                   au_details = RestartDetails\<rparr> st1))"

fun reconcile_all :: "session_id list \<Rightarrow> store \<Rightarrow> store_error + store" where
  "reconcile_all [] st = Inr st"
| "reconcile_all (i # is) st = bind_result (reconcile_one i st) (reconcile_all is)"

definition active_ids :: "store \<Rightarrow> session_id list" where
  "active_ids st =
     map se_id (filter (\<lambda>s. lifecycle_is_active (st_lifecycle (se_status s))) (db_sessions st))"

definition reconcile_sessions :: "store \<Rightarrow> store_error + nat \<times> store" where
  "reconcile_sessions st =
     bind_result (reconcile_all (active_ids st) st) (\<lambda>st1. Inr (length (active_ids st), st1))"

definition upsert_provider ::
    "provider_profile \<Rightarrow> store \<Rightarrow> store_error + provider_profile \<times> store" where
  "upsert_provider p st =
     (if \<not> name_check (pp_display_name p) then Inl ConstraintFailed
      else
        let st1 = st\<lparr>db_profiles :=
              (if list_ex (\<lambda>q. pp_id q = pp_id p) (db_profiles st)
               then update_where (\<lambda>q. pp_id q = pp_id p)
                 (\<lambda>q. p\<lparr>pp_kind := pp_kind q, pp_display_name := pp_display_name q\<rparr>)
                 (db_profiles st)
               else db_profiles st @ [p])\<rparr>
        in bind_result (load_provider st1 (pp_id p)) (\<lambda>q. Inr (q, st1)))"

end
