(* ===== verification/Session_Invariant.thy ===== *)
theory Session_Invariant
  imports Session_Store
begin

text \<open>
  The invariant of the Session tables and its preservation by every Session command: rows that
  the readers accept, references that resolve, and a lineage the snapshot accepts.
\<close>

section \<open>The invariant\<close>

definition row_ok :: "session \<Rightarrow> bool" where
  "row_ok s \<longleftrightarrow> valid_status (se_status s)
     \<and> (st_lifecycle (se_status s) = Running \<longleftrightarrow> se_process_id s \<noteq> None)
     \<and> se_process_id s \<noteq> Some 0
     \<and> (se_provider_kind s = Shell \<longrightarrow> st_activity (se_status s) = NoActivity)"

lemma session_from_row_iff: "session_from_row s = Inr r \<longleftrightarrow> row_ok s \<and> r = s"
  by (auto simp: session_from_row_def row_ok_def valid_status_def split: sum.splits)

text \<open>What the commands of this section read and write of the store.\<close>

definition session_view ::
    "store \<Rightarrow> session list \<times> resumption list \<times> worktree_id set \<times> provider_profile_id set" where
  "session_view st = (db_sessions st, db_resumptions st, wt_id ` set (db_worktrees st),
                      pp_id ` set (db_profiles st))"

definition references_ok :: "worktree_id set \<Rightarrow> provider_profile_id set \<Rightarrow> session \<Rightarrow> bool" where
  "references_ok W P s \<longleftrightarrow> se_worktree_id s \<in> W \<and> name_check (se_display_name s)
     \<and> (\<forall>p. se_provider_profile_id s = Some p \<longrightarrow> p \<in> P)"

text \<open>A resumption leads from a finished Session to one of the same conversation.\<close>

definition link_ok :: "session list \<Rightarrow> resumption \<Rightarrow> bool" where
  "link_ok ss l \<longleftrightarrow> (\<exists>p s. p \<in> set ss \<and> s \<in> set ss \<and> se_id p = predecessor l \<and> se_id s = successor l
     \<and> lifecycle_allows_resume (st_lifecycle (se_status p))
     \<and> se_worktree_id p = se_worktree_id s \<and> se_provider_kind p = se_provider_kind s
     \<and> se_external_session_id p \<noteq> None \<and> se_external_session_id p = se_external_session_id s)"

definition chain_ok :: "resumption list \<Rightarrow> bool" where
  "chain_ok ls \<longleftrightarrow> distinct (map predecessor ls) \<and> distinct (map successor ls)
     \<and> acyclic ((\<lambda>l. (predecessor l, successor l)) ` set ls)"

definition sessions_ok ::
    "session list \<times> resumption list \<times> worktree_id set \<times> provider_profile_id set \<Rightarrow> bool" where
  "sessions_ok v = (case v of (ss, ls, W, P) \<Rightarrow>
     distinct (map se_id ss) \<and> (\<forall>s\<in>set ss. row_ok s \<and> references_ok W P s)
     \<and> chain_ok ls \<and> (\<forall>l\<in>set ls. link_ok ss l))"

definition session_inv :: "store \<Rightarrow> bool" where
  "session_inv st \<longleftrightarrow> sessions_ok (session_view st)"

lemma session_inv_empty [simp]: "session_inv empty_store"
  by (simp add: session_inv_def sessions_ok_def session_view_def empty_store_def chain_ok_def acyclic_def)

lemma session_invD:
  assumes "session_inv st"
  shows "distinct (map se_id (db_sessions st))"
    and "s \<in> set (db_sessions st) \<Longrightarrow> row_ok s"
    and "s \<in> set (db_sessions st) \<Longrightarrow>
           references_ok (wt_id ` set (db_worktrees st)) (pp_id ` set (db_profiles st)) s"
    and "chain_ok (db_resumptions st)"
    and "l \<in> set (db_resumptions st) \<Longrightarrow> link_ok (db_sessions st) l"
  using assms by (auto simp: session_inv_def sessions_ok_def session_view_def)

section \<open>Frames\<close>

lemma view_audit [simp]:
  "session_view (audit e st) = session_view st"
  "session_view (insert_entity_audit a x st) = session_view st"
  by (simp_all add: session_view_def audit_def insert_entity_audit_def)

lemma rows_audit [simp]:
  "db_sessions (audit e st) = db_sessions st" "db_sessions (insert_entity_audit a x st) = db_sessions st"
  "db_resumptions (audit e st) = db_resumptions st"
  "db_resumptions (insert_entity_audit a x st) = db_resumptions st"
  by (simp_all add: audit_def insert_entity_audit_def)

lemma view_bump: "bump_project p st = Inr st1 \<Longrightarrow> session_view st1 = session_view st"
  by (auto simp: bump_project_def session_view_def split: if_splits)

lemma view_bump_worktree: "bump_worktree_project w st = Inr st1 \<Longrightarrow> session_view st1 = session_view st"
  by (auto simp: bump_worktree_project_def view_bump split: option.splits)

lemma view_update_worktree:
  assumes "update_worktree i P f st = Inr (c, st1)" "\<And>r. wt_id r = i \<Longrightarrow> wt_id (f r) = i"
  shows "session_view st1 = session_view st"
proof (cases "c")
  case False
  then have "st1 = st" using assms(1)
    by (auto simp: update_worktree_def bind_result_eq_Inr split: option.splits if_splits)
  then show ?thesis by simp
next
  case True
  then obtain w :: worktree where "bump_project (wt_project_id w)
      (st\<lparr>db_worktrees := update_where (\<lambda>r. wt_id r = i \<and> P r) f (db_worktrees st)\<rparr>) = Inr st1"
    using assms(1)
    by (auto simp: update_worktree_def bind_result_eq_Inr split: option.splits if_splits)
  then have "session_view st1 = session_view
      (st\<lparr>db_worktrees := update_where (\<lambda>r. wt_id r = i \<and> P r) f (db_worktrees st)\<rparr>)"
    by (rule view_bump)
  also have "\<dots> = session_view st"
    unfolding session_view_def by (simp, rule image_update_where) (simp add: assms(2))
  finally show ?thesis .
qed

lemma view_touch_project [simp]: "session_view (touch_project now p st) = session_view st"
  by (simp add: session_view_def touch_project_def)

lemma view_touch: "touch_worktree now w st = Inr st1 \<Longrightarrow> session_view st1 = session_view st"
  by (auto simp del: split_paired_Ex simp: touch_worktree_def bind_result_eq_Inr
      dest!: view_update_worktree split: option.splits)

text \<open>The keys of the other tables, and with the Session tables the whole of what the invariants
  see of a store.\<close>

definition workspace_keys :: "store \<Rightarrow> (workspace_id \<times> bool) list" where
  "workspace_keys st = map (\<lambda>r. (ws_id r, ws_is_open r)) (db_workspaces st)"

definition project_keys :: "store \<Rightarrow> (project_id \<times> workspace_id \<times> str) list" where
  "project_keys st =
     map (\<lambda>p. (pj_id p, pj_workspace_id p, pj_canonical_repository_path p)) (db_projects st)"

definition worktree_keys :: "store \<Rightarrow> (worktree_id \<times> project_id \<times> str \<times> bool) list" where
  "worktree_keys st = map (\<lambda>w. (wt_id w, wt_project_id w, wt_canonical_path w,
     wt_is_root_checkout w)) (db_worktrees st)"

definition table_view where
  "table_view st = (workspace_keys st, project_keys st, worktree_keys st)"

definition store_view where "store_view st = (session_view st, table_view st)"

lemma worktree_ids_keys: "wt_id ` set (db_worktrees st) = fst ` set (worktree_keys st)"
  by (simp add: worktree_keys_def image_image)

lemma table_view_audit [simp]:
  "table_view (audit e st) = table_view st" "table_view (insert_entity_audit a x st) = table_view st"
  by (simp_all add: table_view_def workspace_keys_def project_keys_def worktree_keys_def audit_def
      insert_entity_audit_def)

lemma table_view_sessions [simp]:
  "table_view (st\<lparr>db_sessions := ss\<rparr>) = table_view st"
  "table_view (st\<lparr>db_resumptions := ls\<rparr>) = table_view st"
  "table_view (st\<lparr>db_profiles := ps\<rparr>) = table_view st"
  by (simp_all add: table_view_def workspace_keys_def project_keys_def worktree_keys_def)

lemma table_view_bump_project:
  "bump_project p st = Inr st1 \<Longrightarrow> table_view st1 = table_view st"
  by (auto simp: bump_project_def table_view_def workspace_keys_def project_keys_def
      worktree_keys_def map_update_where split: if_splits)

lemma table_view_bump_workspace:
  "bump_workspace p st = Inr st1 \<Longrightarrow> table_view st1 = table_view st"
  by (auto simp: bump_workspace_def table_view_def workspace_keys_def project_keys_def
      worktree_keys_def map_update_where split: if_splits)

lemma table_view_bump_worktree_project:
  "bump_worktree_project w st = Inr st1 \<Longrightarrow> table_view st1 = table_view st"
  by (auto simp: bump_worktree_project_def table_view_bump_project split: option.splits)

lemma table_view_touch_project [simp]: "table_view (touch_project now p st) = table_view st"
  by (simp add: touch_project_def table_view_def workspace_keys_def project_keys_def
      worktree_keys_def map_update_where)

lemma table_view_update_worktree:
  assumes "update_worktree i P f st = Inr (c, st1)"
    and f: "\<And>w. wt_id (f w) = wt_id w" "\<And>w. wt_project_id (f w) = wt_project_id w"
      "\<And>w. wt_canonical_path (f w) = wt_canonical_path w"
      "\<And>w. wt_is_root_checkout (f w) = wt_is_root_checkout w"
  shows "table_view st1 = table_view st"
proof (cases "select_by wt_id i (db_worktrees st)")
  case None
  then show ?thesis using assms(1) by (simp add: update_worktree_def)
next
  case (Some w)
  let ?st = "st\<lparr>db_worktrees := update_where (\<lambda>r. wt_id r = i \<and> P r) f (db_worktrees st)\<rparr>"
  have v: "table_view ?st = table_view st"
    using f by (simp add: table_view_def workspace_keys_def project_keys_def worktree_keys_def
        map_update_where)
  show ?thesis
  proof (cases "P w")
    case True
    then have "bind_result (bump_project (wt_project_id w) ?st) (\<lambda>st1. Inr (True, st1)) = Inr (c, st1)"
      using assms(1) Some by (simp add: update_worktree_def)
    then show ?thesis by (elim bind_resultE) (simp add: table_view_bump_project v)
  next
    case False
    then show ?thesis using assms(1) Some by (simp add: update_worktree_def)
  qed
qed

lemma table_view_touch_worktree:
  "touch_worktree now w st = Inr st1 \<Longrightarrow> table_view st1 = table_view st"
  unfolding touch_worktree_def
  by (elim bind_resultE) (auto dest!: table_view_update_worktree split: option.splits prod.splits)

lemma store_view_audit [simp]:
  "store_view (audit e st) = store_view st" "store_view (insert_entity_audit a x st) = store_view st"
  by (simp_all add: store_view_def)

lemma store_view_bump_worktree:
  "bump_worktree_project w st = Inr st1 \<Longrightarrow> store_view st1 = store_view st"
  by (simp add: store_view_def view_bump_worktree table_view_bump_worktree_project)

lemma store_view_touch: "touch_worktree now w st = Inr st1 \<Longrightarrow> store_view st1 = store_view st"
  by (simp add: store_view_def view_touch table_view_touch_worktree)

lemma session_inv_view: "store_view st1 = store_view st \<Longrightarrow> session_inv st1 \<longleftrightarrow> session_inv st"
  by (simp add: session_inv_def store_view_def)

lemma view_sessions:
  "session_view st1 = session_view st \<Longrightarrow>
     db_sessions st1 = db_sessions st \<and> db_resumptions st1 = db_resumptions st"
  by (simp add: session_view_def)

lemma load_session_row_cong:
  "db_sessions st1 = db_sessions st \<Longrightarrow> load_session_row st1 = load_session_row st"
  by (simp add: load_session_row_def fun_eq_iff)

lemma load_session_row_audit [simp]:
  "load_session_row (audit e st) = load_session_row st"
  "load_session_row (insert_entity_audit a x st) = load_session_row st"
  by (simp_all add: load_session_row_def fun_eq_iff)

lemma load_session_row_Inr:
  "load_session_row st i = Inr s \<longleftrightarrow> select_by se_id i (db_sessions st) = Some s \<and> row_ok s"
  by (auto simp: load_session_row_def session_from_row_iff split: option.splits)

lemma load_session_row_inv:
  assumes "session_inv st"
  shows "load_session_row st i = Inr s \<longleftrightarrow> s \<in> set (db_sessions st) \<and> se_id s = i"
  using select_by_unique [OF session_invD(1) [OF assms]] session_invD(2) [OF assms]
  by (auto simp: load_session_row_Inr)

section \<open>Preservation\<close>

text \<open>The changes of one row that keep the invariant: identity, Worktree, profile and Provider
  stay; a finished Session stays finished; the conversation changes only in a live Session that
  was not resumed from another one.\<close>

definition keeps_row :: "store \<Rightarrow> session \<Rightarrow> session \<Rightarrow> bool" where
  "keeps_row st s s' \<longleftrightarrow> row_ok s' \<and> se_id s' = se_id s \<and> se_worktree_id s' = se_worktree_id s
     \<and> se_provider_profile_id s' = se_provider_profile_id s
     \<and> se_provider_kind s' = se_provider_kind s \<and> name_check (se_display_name s')
     \<and> (lifecycle_allows_resume (st_lifecycle (se_status s)) \<longrightarrow>
          lifecycle_allows_resume (st_lifecycle (se_status s')))
     \<and> (se_external_session_id s' = se_external_session_id s
        \<or> se_id s \<notin> successor ` set (db_resumptions st)
          \<and> \<not> lifecycle_allows_resume (st_lifecycle (se_status s)))"

lemma update_session_view:
  "update_session i P f st = Some st1 \<Longrightarrow> session_view st1 =
     (update_where (\<lambda>s. se_id s = i \<and> P s) f (db_sessions st), db_resumptions st,
      wt_id ` set (db_worktrees st), pp_id ` set (db_profiles st))"
  by (auto simp: update_session_def session_view_def split: if_splits)

lemma link_ok_update:
  assumes ok: "\<forall>s\<in>set (db_sessions st). Q s \<longrightarrow> keeps_row st s (f s)"
    and l: "l \<in> set (db_resumptions st)" "link_ok (db_sessions st) l"
  shows "link_ok (update_where Q f (db_sessions st)) l"
proof -
  let ?g = "\<lambda>s. if Q s then f s else s"
  from l(2) obtain p s where ps: "p \<in> set (db_sessions st)" "s \<in> set (db_sessions st)"
    "se_id p = predecessor l" "se_id s = successor l"
    "lifecycle_allows_resume (st_lifecycle (se_status p))"
    "se_worktree_id p = se_worktree_id s" "se_provider_kind p = se_provider_kind s"
    "se_external_session_id p \<noteq> None" "se_external_session_id p = se_external_session_id s"
    unfolding link_ok_def by blast
  have mem: "?g p \<in> set (update_where Q f (db_sessions st))"
    "?g s \<in> set (update_where Q f (db_sessions st))"
    using ps(1,2) by (auto simp: set_update_where)
  have same: "se_id (?g r) = se_id r \<and> se_worktree_id (?g r) = se_worktree_id r
      \<and> se_provider_kind (?g r) = se_provider_kind r
      \<and> (lifecycle_allows_resume (st_lifecycle (se_status r)) \<longrightarrow>
           lifecycle_allows_resume (st_lifecycle (se_status (?g r))))"
    if "r \<in> set (db_sessions st)" for r
    using ok that by (auto simp: keeps_row_def)
  have "se_external_session_id (?g p) = se_external_session_id p"
    using ok ps(1,5) by (auto simp: keeps_row_def)
  moreover have "se_external_session_id (?g s) = se_external_session_id s"
    using ok ps(2,4) l(1) by (auto simp: keeps_row_def)
  ultimately show ?thesis
    unfolding link_ok_def using mem same [OF ps(1)] same [OF ps(2)] ps
    by (intro exI [of _ "?g p"] exI [of _ "?g s"]) simp
qed

lemma session_inv_update:
  assumes inv: "session_inv st"
    and upd: "update_session i P f st = Some st1"
    and ok: "\<forall>s\<in>set (db_sessions st). se_id s = i \<and> P s \<longrightarrow> keeps_row st s (f s)"
  shows "session_inv st1"
proof -
  let ?Q = "\<lambda>s. se_id s = i \<and> P s"
  let ?ss = "update_where ?Q f (db_sessions st)"
  have "map se_id ?ss = map se_id (db_sessions st)"
    using ok by (auto simp: update_where_def keeps_row_def)
  then have "distinct (map se_id ?ss)" using session_invD(1) [OF inv] by simp
  moreover have "row_ok r \<and> references_ok (wt_id ` set (db_worktrees st)) (pp_id ` set (db_profiles st)) r"
    if r: "r \<in> set ?ss" for r
  proof -
    obtain q where q: "q \<in> set (db_sessions st)" "r = (if ?Q q then f q else q)"
      using r unfolding set_update_where by blast
    then show ?thesis
      using ok session_invD(2,3) [OF inv q(1)] by (auto simp: keeps_row_def references_ok_def)
  qed
  moreover have "\<forall>l\<in>set (db_resumptions st). link_ok ?ss l"
    using link_ok_update [OF ok] session_invD(5) [OF inv] by blast
  ultimately show ?thesis
    using session_invD(4) [OF inv]
    by (simp add: session_inv_def update_session_view [OF upd] sessions_ok_def)
qed

lemma chain_ok_subset:
  "chain_ok ls \<Longrightarrow> chain_ok (filter P ls)"
  unfolding chain_ok_def
  by (auto simp: distinct_map_filter intro: acyclic_subset [OF _ image_mono])

lemma session_inv_delete:
  assumes inv: "session_inv st"
  shows "sessions_ok (filter (\<lambda>q. se_id q \<noteq> i) (db_sessions st),
      filter (\<lambda>l. predecessor l \<noteq> i \<and> successor l \<noteq> i) (db_resumptions st),
      wt_id ` set (db_worktrees st), pp_id ` set (db_profiles st))"
proof -
  have "link_ok (filter (\<lambda>q. se_id q \<noteq> i) (db_sessions st)) l"
    if l: "l \<in> set (db_resumptions st)" "predecessor l \<noteq> i" "successor l \<noteq> i" for l
  proof -
    obtain p s where "p \<in> set (db_sessions st)" "s \<in> set (db_sessions st)"
      "se_id p = predecessor l" "se_id s = successor l"
      "lifecycle_allows_resume (st_lifecycle (se_status p))"
      "se_worktree_id p = se_worktree_id s" "se_provider_kind p = se_provider_kind s"
      "se_external_session_id p \<noteq> None" "se_external_session_id p = se_external_session_id s"
      using session_invD(5) [OF inv l(1)] unfolding link_ok_def by blast
    then show ?thesis using l(2,3) unfolding link_ok_def
      by (intro exI [of _ p] exI [of _ s]) simp
  qed
  then show ?thesis
    using session_invD(1-4) [OF inv]
    by (auto simp: sessions_ok_def distinct_map_filter chain_ok_subset)
qed

text \<open>A new row, and the link that resumes a finished Session with it.\<close>

lemma link_ok_append: "link_ok ss l \<Longrightarrow> link_ok (ss @ xs) l"
  unfolding link_ok_def by auto

lemma insert_session_row_Inr:
  assumes "insert_session_row s st = Inr st1"
  shows "session_view st1 = (db_sessions st @ [s], db_resumptions st,
           wt_id ` set (db_worktrees st), pp_id ` set (db_profiles st))"
    and "se_id s \<notin> se_id ` set (db_sessions st)"
    and "references_ok (wt_id ` set (db_worktrees st)) (pp_id ` set (db_profiles st)) s"
proof -
  have "bump_worktree_project (se_worktree_id s) (st\<lparr>db_sessions := db_sessions st @ [s]\<rparr>) = Inr st1"
    using assms by (simp add: insert_session_row_def split: if_splits)
  from view_bump_worktree [OF this] show "session_view st1 = (db_sessions st @ [s],
      db_resumptions st, wt_id ` set (db_worktrees st), pp_id ` set (db_profiles st))"
    by (simp add: session_view_def)
  show "se_id s \<notin> se_id ` set (db_sessions st)"
    using assms by (auto simp: insert_session_row_def list_ex_iff split: if_splits)
  show "references_ok (wt_id ` set (db_worktrees st)) (pp_id ` set (db_profiles st)) s"
    using assms by (force simp: insert_session_row_def list_ex_iff references_ok_def
        split: if_splits option.splits)
qed

lemma session_inv_insert:
  assumes inv: "session_inv st" and ins: "insert_session_row s st = Inr st1" and ok: "row_ok s"
  shows "session_inv st1"
  using session_invD [OF inv] insert_session_row_Inr [OF ins] ok
  by (auto simp: session_inv_def sessions_ok_def link_ok_append)

lemma acyclic_insert_fresh:
  assumes "acyclic R" "b \<notin> fst ` R" "a \<noteq> b"
  shows "acyclic (insert (a, b) R)"
proof -
  have "(b, a) \<notin> R\<^sup>*"
  proof
    assume "(b, a) \<in> R\<^sup>*"
    then obtain c where "(b, c) \<in> R" using assms(3) by (metis converse_rtranclE)
    then show False using assms(2) by force
  qed
  then show ?thesis using assms(1) by (simp add: acyclic_insert)
qed

lemma session_inv_link:
  assumes inv: "session_inv st" and ins: "insert_resumption_row l st = Inr st1"
    and fresh: "successor l \<notin> predecessor ` set (db_resumptions st)" "predecessor l \<noteq> successor l"
    and ok: "link_ok (db_sessions st) l"
  shows "session_inv st1"
proof -
  have st1: "st1 = st\<lparr>db_resumptions := db_resumptions st @ [l]\<rparr>"
    and new: "predecessor l \<notin> predecessor ` set (db_resumptions st)"
      "successor l \<notin> successor ` set (db_resumptions st)"
    using ins by (auto simp: insert_resumption_row_def list_ex_iff split: if_splits)
  let ?R = "(\<lambda>l. (predecessor l, successor l)) ` set (db_resumptions st)"
  have "acyclic (insert (predecessor l, successor l) ?R)"
    using session_invD(4) [OF inv] fresh
    by (intro acyclic_insert_fresh) (auto simp: chain_ok_def image_iff)
  then have "chain_ok (db_resumptions st @ [l])"
    using session_invD(4) [OF inv] new by (auto simp: chain_ok_def)
  then show ?thesis
    using session_invD [OF inv] ok by (auto simp: session_inv_def sessions_ok_def session_view_def st1)
qed

section \<open>Each command keeps the invariant\<close>

lemma check_source_Inr:
  assumes "session_inv st" "check_source r src st = Inr ()"
  shows "\<exists>s\<in>set (db_sessions st). se_id s = src \<and> se_worktree_id s = ns_worktree_id r
    \<and> lifecycle_allows_resume (st_lifecycle (se_status s)) \<and> se_provider_kind s = ns_provider_kind r
    \<and> se_external_session_id s \<noteq> None \<and> se_external_session_id s = ns_external_session_id r"
  using assms(2)
  by (auto simp: check_source_def bind_result_eq_Inr load_session_row_inv [OF assms(1)]
      split: if_splits intro!: bexI)

lemma row_ok_new [simp]: "row_ok (new_session_row now r)"
  by (simp add: row_ok_def new_session_row_def valid_status_def validate_def starting_status_def)

lemma insert_session_inv:
  assumes inv: "session_inv st" and ok: "insert_session now r st = Inr (s, st')"
  shows "session_inv st'"
proof -
  from ok obtain st1 st2 where src: "case ns_resumed_from r of None \<Rightarrow> True | Some i \<Rightarrow> check_source r i st = Inr ()"
    and st1: "insert_session_row (new_session_row now r) st = Inr st1"
    and st2: "(case ns_resumed_from r of None \<Rightarrow> Inr st1 | Some i \<Rightarrow> insert_resumption_row
        \<lparr>predecessor = i, successor = ns_id r, rs_created_at = now\<rparr> st1) = Inr st2"
    and st': "store_view st' = store_view st2"
    by (auto simp: insert_session_def bind_result_eq_Inr Let_def split: option.splits)
  have inv1: "session_inv st1" using inv st1 by (rule session_inv_insert) simp
  note view1 = insert_session_row_Inr [OF st1]
  have "session_inv st2"
  proof (cases "ns_resumed_from r")
    case None
    then show ?thesis using st2 inv1 by simp
  next
    case (Some i)
    let ?l = "\<lparr>predecessor = i, successor = ns_id r, rs_created_at = now\<rparr> :: resumption"
    have source: "check_source r i st = Inr ()" using src Some by simp
    obtain p where p: "p \<in> set (db_sessions st)" "se_id p = i" "se_worktree_id p = ns_worktree_id r"
      "lifecycle_allows_resume (st_lifecycle (se_status p))" "se_provider_kind p = ns_provider_kind r"
      "se_external_session_id p \<noteq> None" "se_external_session_id p = ns_external_session_id r"
      using check_source_Inr [OF inv source] by blast
    have rows: "db_sessions st1 = db_sessions st @ [new_session_row now r]"
      "db_resumptions st1 = db_resumptions st" using view1(1) by (simp_all add: session_view_def)
    have new: "ns_id r \<notin> se_id ` set (db_sessions st)" using view1(2) by (simp add: new_session_row_def)
    have "predecessor l \<in> se_id ` set (db_sessions st)" if "l \<in> set (db_resumptions st)" for l
      using session_invD(5) [OF inv that] unfolding link_ok_def by (metis imageI)
    then have "successor ?l \<notin> predecessor ` set (db_resumptions st1)"
      using new by (auto simp: rows)
    moreover have "predecessor ?l \<noteq> successor ?l" using imageI [OF p(1), of se_id] new p(2) by auto
    moreover have "link_ok (db_sessions st1) ?l"
      unfolding link_ok_def rows using p
      by (intro exI [of _ p] exI [of _ "new_session_row now r"]) (simp add: new_session_row_def)
    ultimately show ?thesis using session_inv_link [OF inv1] st2 Some by simp
  qed
  then show ?thesis using session_inv_view [OF st'] by simp
qed

lemma update_session_rows:
  assumes "update_session i P f st = Some st1"
  shows "db_sessions st1 = update_where (\<lambda>s. se_id s = i \<and> P s) f (db_sessions st)"
    and "db_resumptions st1 = db_resumptions st"
    and "\<exists>s\<in>set (db_sessions st). se_id s = i \<and> P s"
  using assms by (auto simp: update_session_def list_ex_iff split: if_splits)

lemma update_session_None:
  "update_session i P f st = None \<longleftrightarrow> \<not> (\<exists>s\<in>set (db_sessions st). se_id s = i \<and> P s)"
  by (auto simp: update_session_def list_ex_iff)

lemma updated_row:
  assumes inv: "session_inv st" and f: "\<And>s. se_id (f s) = se_id s"
    and upd: "update_session i P f st = Some st1"
    and s: "s \<in> set (db_sessions st)" "se_id s = i" "P s"
  shows "load_session_row st1 i = Inr r \<longleftrightarrow> r = f s \<and> row_ok (f s)"
proof -
  have "select_by se_id i (db_sessions st) = Some s"
    using session_invD(1) [OF inv] s(1,2) by (simp add: select_by_unique)
  then have "select_by se_id i (db_sessions st1) = Some (f s)"
    using f s(2,3) by (simp add: update_session_rows(1) [OF upd] select_by_update_where)
  then show ?thesis by (auto simp: load_session_row_Inr)
qed

lemma updated_session_as_update:
  assumes "s \<in> set (db_sessions st)" "se_id s = i"
  shows "update_session i (\<lambda>_. True) f st = Some (updated_session i f st)"
  using assms by (auto simp: update_session_def updated_session_def list_ex_iff)

lemma only_row:
  "session_inv st \<Longrightarrow> s \<in> set (db_sessions st) \<Longrightarrow> q \<in> set (db_sessions st) \<Longrightarrow> se_id q = se_id s \<Longrightarrow> q = s"
  using session_invD(1) [of st] by (metis distinct_map inj_on_eq_iff)

lemma rename_session_inv:
  assumes inv: "session_inv st" and ok: "rename_session now i name st = Inr (s, st')"
  shows "session_inv st'"
proof -
  let ?f = "\<lambda>n s. s\<lparr>se_display_name := n, se_last_activity_at := now\<rparr>"
  obtain n where "validated_name name = Inr n"
    and *: "(case update_session i (\<lambda>_. True) (?f n) st of
       None \<Rightarrow> Inl (NoSuchSession i)
     | Some st1 \<Rightarrow>
        if \<not> name_check n then Inl ConstraintFailed
        else bind_result (case select_by se_id i (db_sessions st1) of
                 None \<Rightarrow> Inr st1
               | Some s \<Rightarrow> touch_worktree now (se_worktree_id s) st1) (\<lambda>st2.
             let st3 = insert_entity_audit ''session_renamed'' (SessionEntity i) st2
             in bind_result (load_session_row st3 i) (\<lambda>s. Inr (s, st3)))) = Inr (s, st')"
    using ok unfolding rename_session_def by (elim bind_resultE)
  then obtain st1 where u: "update_session i (\<lambda>_. True) (?f n) st = Some st1" and n: "name_check n"
    by (auto split: option.splits if_splits)
  obtain st2 where t: "(case select_by se_id i (db_sessions st1) of
                 None \<Rightarrow> Inr st1
               | Some s \<Rightarrow> touch_worktree now (se_worktree_id s) st1) = Inr st2"
    and st': "st' = insert_entity_audit ''session_renamed'' (SessionEntity i) st2"
    using * u n by (auto simp: bind_result_eq_Inr Let_def)
  have "session_inv st1"
    using session_invD(2,3) [OF inv] n
    by (intro session_inv_update [OF inv u]) (simp add: keeps_row_def row_ok_def references_ok_def)
  moreover have "store_view st' = store_view st1"
    using t store_view_touch st' by (simp split: option.splits)
  ultimately show ?thesis using session_inv_view by metis
qed

lemma delete_session_Inr:
  assumes "delete_session x st = Inr (s, st')"
  shows "load_session_row st (se_id s) = Inr s" "s = x"
    "lifecycle_allows_deletion (st_lifecycle (se_status s))" "se_process_id s = None"
    "session_view st' = (filter (\<lambda>q. se_id q \<noteq> se_id s) (db_sessions st),
       filter (\<lambda>l. predecessor l \<noteq> se_id s \<and> successor l \<noteq> se_id s) (db_resumptions st),
       wt_id ` set (db_worktrees st), pp_id ` set (db_profiles st))"
    "\<exists>st2. bump_worktree_project (se_worktree_id s)
         (st\<lparr>db_resumptions :=
              filter (\<lambda>l. predecessor l \<noteq> se_id s \<and> successor l \<noteq> se_id s) (db_resumptions st),
            db_sessions := filter (\<lambda>p. se_id p \<noteq> se_id s) (db_sessions st)\<rparr>) = Inr st2
       \<and> st' = insert_entity_audit ''session_deleted'' (SessionEntity (se_id s)) st2"
proof -
  obtain q where q: "load_session_row st (se_id x) = Inr q"
    and *: "(if q \<noteq> x \<or> \<not> lifecycle_allows_deletion (st_lifecycle (se_status q))
        \<or> se_process_id q \<noteq> None
     then Inl SessionDeletionStale
     else
       let st1 = st\<lparr>db_resumptions :=
              filter (\<lambda>l. predecessor l \<noteq> se_id q \<and> successor l \<noteq> se_id q) (db_resumptions st),
            db_sessions := filter (\<lambda>p. se_id p \<noteq> se_id q) (db_sessions st)\<rparr>
       in bind_result (bump_worktree_project (se_worktree_id q) st1) (\<lambda>st2.
          Inr (q, insert_entity_audit ''session_deleted'' (SessionEntity (se_id q)) st2)))
      = Inr (s, st')"
    using assms unfolding delete_session_def by (elim bind_resultE)
  from * have c: "q = x" "lifecycle_allows_deletion (st_lifecycle (se_status q))"
    "se_process_id q = None" by (auto split: if_splits)
  define st1 where "st1 = st\<lparr>db_resumptions :=
              filter (\<lambda>l. predecessor l \<noteq> se_id q \<and> successor l \<noteq> se_id q) (db_resumptions st),
            db_sessions := filter (\<lambda>p. se_id p \<noteq> se_id q) (db_sessions st)\<rparr>"
  have "bind_result (bump_worktree_project (se_worktree_id q) st1) (\<lambda>st2.
          Inr (q, insert_entity_audit ''session_deleted'' (SessionEntity (se_id q)) st2))
      = (Inr (s, st') :: store_error + _)"
    using * c unfolding st1_def [symmetric] Let_def by simp
  then obtain st2 where b: "bump_worktree_project (se_worktree_id q) st1 = Inr st2" and s: "s = q"
    and st': "st' = insert_entity_audit ''session_deleted'' (SessionEntity (se_id q)) st2"
    by (elim bind_resultE) auto
  show "load_session_row st (se_id s) = Inr s" "s = x"
    "lifecycle_allows_deletion (st_lifecycle (se_status s))" "se_process_id s = None"
    using q c s by simp_all
  show "session_view st' = (filter (\<lambda>q. se_id q \<noteq> se_id s) (db_sessions st),
       filter (\<lambda>l. predecessor l \<noteq> se_id s \<and> successor l \<noteq> se_id s) (db_resumptions st),
       wt_id ` set (db_worktrees st), pp_id ` set (db_profiles st))"
    unfolding st' view_audit view_bump_worktree [OF b] s by (simp add: st1_def session_view_def)
  show "\<exists>st2. bump_worktree_project (se_worktree_id s)
         (st\<lparr>db_resumptions :=
              filter (\<lambda>l. predecessor l \<noteq> se_id s \<and> successor l \<noteq> se_id s) (db_resumptions st),
            db_sessions := filter (\<lambda>p. se_id p \<noteq> se_id s) (db_sessions st)\<rparr>) = Inr st2
       \<and> st' = insert_entity_audit ''session_deleted'' (SessionEntity (se_id s)) st2"
    using b st' unfolding st1_def s by blast
qed

lemma delete_session_inv:
  assumes inv: "session_inv st" and ok: "delete_session x st = Inr (s, st')"
  shows "session_inv st'"
  using session_inv_delete [OF inv, of "se_id s"] delete_session_Inr(5) [OF ok]
  by (simp add: session_inv_def)

lemma reply_row:
  "bind_result (load_session_row st i) (\<lambda>s. Inr (s, t)) = Inr (r, st') \<longleftrightarrow>
     load_session_row st i = Inr r \<and> st' = t"
  by (auto simp: bind_result_eq_Inr)

text \<open>A statement that keeps every row it changes, when the row read back at the end shows the
  changed row to be readable.\<close>

lemma session_inv_update_read:
  assumes inv: "session_inv st" and upd: "update_session i P f st = Some st1"
    and id: "\<And>s. se_id (f s) = se_id s"
    and load: "load_session_row st1 i = Inr r"
    and ok: "\<And>s. s \<in> set (db_sessions st) \<Longrightarrow> se_id s = i \<Longrightarrow> P s \<Longrightarrow> row_ok s \<Longrightarrow> row_ok (f s) \<Longrightarrow>
       name_check (se_display_name s) \<Longrightarrow> keeps_row st s (f s)"
  shows "session_inv st1"
proof (rule session_inv_update [OF inv upd], intro ballI impI)
  fix s assume s: "s \<in> set (db_sessions st)" "se_id s = i \<and> P s"
  then show "keeps_row st s (f s)"
    using updated_row [OF inv id upd, of s r] load session_invD(2,3) [OF inv s(1)]
    by (intro ok) (auto simp: references_ok_def)
qed

lemma mark_session_running_Inr:
  assumes "mark_session_running now i pid st = Inr (s, st')"
  obtains st1 where "update_session i
            (\<lambda>s. st_lifecycle (se_status s) = Starting \<or> st_lifecycle (se_status s) = Running)
            (\<lambda>s. s\<lparr>se_status := (se_status s)\<lparr>st_lifecycle := Running\<rparr>, se_process_id := Some pid,
                   se_started_at := (case se_started_at s of None \<Rightarrow> Some now | t \<Rightarrow> t),
                   se_last_activity_at := now, se_failure_reason := None\<rparr>) st = Some st1"
    "load_session_row st1 i = Inr s" "store_view st' = store_view st1"
  using assms unfolding mark_session_running_def Let_def
  by (auto simp: reply_row split: option.splits)

lemma mark_session_running_inv:
  assumes inv: "session_inv st" and ok: "mark_session_running now i pid st = Inr (s, st')"
  shows "session_inv st'"
  using ok
proof (rule mark_session_running_Inr)
  fix st1
  assume u: "update_session i
            (\<lambda>s. st_lifecycle (se_status s) = Starting \<or> st_lifecycle (se_status s) = Running)
            (\<lambda>s. s\<lparr>se_status := (se_status s)\<lparr>st_lifecycle := Running\<rparr>, se_process_id := Some pid,
                   se_started_at := (case se_started_at s of None \<Rightarrow> Some now | t \<Rightarrow> t),
                   se_last_activity_at := now, se_failure_reason := None\<rparr>) st = Some st1"
    and l: "load_session_row st1 i = Inr s" and v: "store_view st' = store_view st1"
  have "session_inv st1"
    by (rule session_inv_update_read [OF inv u _ l])
      (auto simp: keeps_row_def lifecycle_allows_resume_def)
  then show ?thesis using session_inv_view [OF v] by simp
qed

lemma finish_session_Inr:
  assumes "finish_session now i l tr code failure st = Inr (s, st')"
  obtains status st1 where "l = Exited \<or> l = Failed \<or> l = Terminated" "st_lifecycle status = l"
    "valid_status status"
    "status = (case tr of None \<Rightarrow> terminal_status now l | Some t \<Rightarrow> tr_status t)"
    "update_session i (\<lambda>_. True)
                  (\<lambda>s. s\<lparr>se_status := status, se_process_id := None, se_ended_at := Some now,
                         se_last_activity_at := now, se_exit_code := code,
                         se_failure_reason := failure\<rparr>) st = Some st1"
    "load_session_row st1 i = Inr s" "store_view st' = store_view st1"
proof -
  have l: "l = Exited \<or> l = Failed \<or> l = Terminated"
    using assms by (auto simp: finish_session_def split: if_splits)
  define status where "status = (case tr of None \<Rightarrow> terminal_status now l | Some t \<Rightarrow> tr_status t)"
  have sl: "st_lifecycle status = l"
    using assms by (auto simp: finish_session_def status_def terminal_status_def
        split: if_splits option.splits)
  let ?f = "\<lambda>s. s\<lparr>se_status := status, se_process_id := None, se_ended_at := Some now,
                         se_last_activity_at := now, se_exit_code := code,
                         se_failure_reason := failure\<rparr>"
  have "(case tr of None \<Rightarrow> Inr (terminal_status now l) :: store_error + _
           | Some t \<Rightarrow> if st_lifecycle (tr_status t) \<noteq> l then Inl OutcomeMismatch
                       else Inr (tr_status t)) = Inr status"
    using sl by (auto simp: status_def split: option.splits)
  then have *: "(case validate status of
          Inl e \<Rightarrow> Inl (InvalidStatus e)
        | Inr _ \<Rightarrow>
            case update_session i (\<lambda>_. True) ?f st of
              None \<Rightarrow> Inl (NoSuchSession i)
            | Some st1 \<Rightarrow> bind_result (load_session_row st1 i) (\<lambda>s.
                    bind_result (touch_worktree now (se_worktree_id s) st1) (\<lambda>st2.
                    Inr (s, insert_entity_audit ''session_finished'' (SessionEntity i) st2))))
      = Inr (s, st')"
    using assms l unfolding finish_session_def by (simp add: if_not_P)
  then have v: "valid_status status" by (auto simp: valid_status_def split: sum.splits)
  then obtain st1 where u: "update_session i (\<lambda>_. True) ?f st = Some st1"
    and "bind_result (load_session_row st1 i) (\<lambda>s.
                    bind_result (touch_worktree now (se_worktree_id s) st1) (\<lambda>st2.
                    Inr (s, insert_entity_audit ''session_finished'' (SessionEntity i) st2)))
      = Inr (s, st')"
    using * by (auto simp: valid_status_def split: option.splits)
  then obtain st2 where "load_session_row st1 i = Inr s"
    "touch_worktree now (se_worktree_id s) st1 = Inr st2"
    "st' = insert_entity_audit ''session_finished'' (SessionEntity i) st2"
    by (elim bind_resultE) auto
  then show ?thesis using that [OF l sl v status_def u] store_view_touch by simp
qed

lemma finish_session_inv:
  assumes inv: "session_inv st" and ok: "finish_session now i l tr code failure st = Inr (s, st')"
  shows "session_inv st'"
proof -
  obtain status st1 where f: "l = Exited \<or> l = Failed \<or> l = Terminated" "st_lifecycle status = l"
    "update_session i (\<lambda>_. True)
                  (\<lambda>s. s\<lparr>se_status := status, se_process_id := None, se_ended_at := Some now,
                         se_last_activity_at := now, se_exit_code := code,
                         se_failure_reason := failure\<rparr>) st = Some st1"
    "load_session_row st1 i = Inr s" "store_view st' = store_view st1"
    using finish_session_Inr [OF ok] by metis
  have "session_inv st1"
    using f(1,2) by (intro session_inv_update_read [OF inv f(3) _ f(4)])
      (auto simp: keeps_row_def lifecycle_allows_resume_def)
  then show ?thesis using session_inv_view [OF f(5)] by simp
qed

lemma updated_row_only:
  assumes inv: "session_inv st" and s: "s \<in> set (db_sessions st)" "se_id s = i"
    and keeps: "keeps_row st s (f s)"
  shows "session_inv (updated_session i f st)"
  using session_inv_update [OF inv updated_session_as_update [OF s]] only_row [OF inv s(1)] s keeps
  by metis

lemma acknowledge_session_attention_Inr:
  assumes "acknowledge_session_attention i ev action st = Inr (Some r, st')"
  obtains s e where "load_session_row st i = Inr s" "st_attention (se_status s) = Some e"
    "ev_id e = ev" "ev_ack e = Pending" "acknowledgement_allowed action (ev_reason e)"
    "valid_status ((se_status s)\<lparr>st_attention := Some (e\<lparr>ev_ack := Acknowledged\<rparr>)\<rparr>)"
    "store_view st' = store_view (updated_session i
       (\<lambda>q. q\<lparr>se_status := (se_status s)\<lparr>st_attention := Some (e\<lparr>ev_ack := Acknowledged\<rparr>)\<rparr>\<rparr>) st)"
    "load_session_row st' i = Inr r"
proof -
  obtain s where s: "load_session_row st i = Inr s"
    using assms unfolding acknowledge_session_attention_def by (elim bind_resultE)
  then obtain e where e: "st_attention (se_status s) = Some e"
    using assms by (auto simp: acknowledge_session_attention_def split: option.splits)
  let ?status = "(se_status s)\<lparr>st_attention := Some (e\<lparr>ev_ack := Acknowledged\<rparr>)\<rparr>"
  have c: "ev_id e = ev" "ev_ack e = Pending" "acknowledgement_allowed action (ev_reason e)"
    using assms s e by (auto simp: acknowledge_session_attention_def split: if_splits)
  have *: "(case validate ?status of Inl m \<Rightarrow> Inl (InvalidStatus m)
      | Inr _ \<Rightarrow> bind_result (load_session_row (insert_entity_audit (acknowledgement_audit action)
            (SessionEntity i) (updated_session i (\<lambda>q. q\<lparr>se_status := ?status\<rparr>) st)) i)
          (\<lambda>s'. Inr (Some s', insert_entity_audit (acknowledgement_audit action)
            (SessionEntity i) (updated_session i (\<lambda>q. q\<lparr>se_status := ?status\<rparr>) st))))
      = Inr (Some r, st')"
    using assms s e c unfolding acknowledge_session_attention_def Let_def by simp
  then have v: "valid_status ?status" by (auto simp: valid_status_def split: sum.splits)
  then have "load_session_row st' i = Inr r"
    "st' = insert_entity_audit (acknowledgement_audit action) (SessionEntity i)
       (updated_session i (\<lambda>q. q\<lparr>se_status := ?status\<rparr>) st)"
    using * by (auto simp: valid_status_def bind_result_eq_Inr)
  then show ?thesis using that [OF s e c v] by simp
qed

lemma acknowledge_session_attention_None:
  assumes "acknowledge_session_attention i ev action st = Inr (None, st')"
  shows "st' = st"
proof -
  obtain s where s: "load_session_row st i = Inr s"
    using assms unfolding acknowledge_session_attention_def by (elim bind_resultE)
  show ?thesis
  proof (cases "st_attention (se_status s)")
    case None
    then show ?thesis using assms s by (simp add: acknowledge_session_attention_def)
  next
    case (Some e)
    have "ev_id e \<noteq> ev \<or> ev_ack e \<noteq> Pending \<or> \<not> acknowledgement_allowed action (ev_reason e)"
    proof (rule ccontr)
      assume "\<not> ?thesis"
      then show False using assms s Some
        by (cases "validate ((se_status s)\<lparr>st_attention := Some (e\<lparr>ev_ack := Acknowledged\<rparr>)\<rparr>)")
          (auto simp: acknowledge_session_attention_def Let_def bind_result_eq_Inr)
    qed
    then show ?thesis using assms s Some by (simp add: acknowledge_session_attention_def)
  qed
qed

lemma acknowledge_session_attention_inv:
  assumes inv: "session_inv st" and ok: "acknowledge_session_attention i ev action st = Inr (r, st')"
  shows "session_inv st'"
proof (cases r)
  case None
  then show ?thesis using inv acknowledge_session_attention_None [of i ev action st st'] ok by simp
next
  case (Some r')
  then obtain s e where s: "load_session_row st i = Inr s" and
    v: "valid_status ((se_status s)\<lparr>st_attention := Some (e\<lparr>ev_ack := Acknowledged\<rparr>)\<rparr>)" and
    st': "store_view st' = store_view (updated_session i
       (\<lambda>q. q\<lparr>se_status := (se_status s)\<lparr>st_attention := Some (e\<lparr>ev_ack := Acknowledged\<rparr>)\<rparr>\<rparr>) st)"
    using ok acknowledge_session_attention_Inr by metis
  have m: "s \<in> set (db_sessions st)" "se_id s = i" using s by (simp_all add: load_session_row_inv [OF inv])
  have "keeps_row st s (s\<lparr>se_status := (se_status s)\<lparr>st_attention := Some (e\<lparr>ev_ack := Acknowledged\<rparr>)\<rparr>\<rparr>)"
    using session_invD(2,3) [OF inv m(1)] v by (simp add: keeps_row_def row_ok_def references_ok_def)
  then show ?thesis
    using updated_row_only [OF inv m] session_inv_view [OF st'] by simp
qed

text \<open>The conversation of a Session that was resumed from another one must not change; the
  command does not check it.\<close>

definition conversation_kept :: "store \<Rightarrow> session_id \<Rightarrow> identity_update option \<Rightarrow> bool" where
  "conversation_kept st i u \<longleftrightarrow> (case u of None \<Rightarrow> True | Some u \<Rightarrow>
     list_all (\<lambda>s. se_id s = i \<longrightarrow> se_external_session_id s = Some (conversation_str (iu_external u)))
       (db_sessions st)
     \<or> \<not> list_ex (\<lambda>l. successor l = i) (db_resumptions st))"

lemma update_session_status_Inr:
  assumes "update_session_status now i tr u st = Inr (r, st')"
  obtains st1 where "st_lifecycle (tr_status tr) = Running" "valid_status (tr_status tr)"
    "update_session i accepts_events
                (\<lambda>s. s\<lparr>se_external_session_id := (case u of
                           None \<Rightarrow> se_external_session_id s
                         | Some u \<Rightarrow> Some (conversation_str (iu_external u))),
                       se_last_activity_at := now,
                       se_failure_reason := map_option category_str (tr_failure tr),
                       se_status := tr_status tr\<rparr>) st = Some st1"
    "load_session_row st1 i = Inr r" "store_view st' = store_view st1"
proof -
  let ?f = "\<lambda>s. s\<lparr>se_external_session_id := (case u of
                           None \<Rightarrow> se_external_session_id s
                         | Some u \<Rightarrow> Some (conversation_str (iu_external u))),
                       se_last_activity_at := now,
                       se_failure_reason := map_option category_str (tr_failure tr),
                       se_status := tr_status tr\<rparr>"
  have a: "st_lifecycle (tr_status tr) = Running" "valid_status (tr_status tr)"
    using assms by (auto simp: update_session_status_def valid_status_def split: if_splits sum.splits)
  then obtain st1 where b: "update_session i accepts_events ?f st = Some st1"
    using assms by (auto simp: update_session_status_def valid_status_def split: option.splits)
  have "load_session_row st1 i = Inr r \<and> store_view st' = store_view st1"
    using assms a b
    by (cases u; cases "case u of None \<Rightarrow> None | Some w \<Rightarrow> iu_transition w")
      (auto simp: update_session_status_def valid_status_def Let_def bind_result_eq_Inr
        split: option.splits)
  then show ?thesis using that [OF a b] by simp
qed

lemma update_session_status_inv:
  assumes inv: "session_inv st" and kept: "conversation_kept st i u"
    and ok: "update_session_status now i tr u st = Inr (r, st')"
  shows "session_inv st'"
  using ok
proof (rule update_session_status_Inr)
  fix st1
  let ?f = "\<lambda>s. s\<lparr>se_external_session_id := (case u of
                           None \<Rightarrow> se_external_session_id s
                         | Some u \<Rightarrow> Some (conversation_str (iu_external u))),
                       se_last_activity_at := now,
                       se_failure_reason := map_option category_str (tr_failure tr),
                       se_status := tr_status tr\<rparr>"
  assume up: "update_session i accepts_events ?f st = Some st1"
    and l: "load_session_row st1 i = Inr r" and v: "store_view st' = store_view st1"
  have "session_inv st1"
  proof (rule session_inv_update_read [OF inv up _ l])
    fix s assume s: "s \<in> set (db_sessions st)" "se_id s = i" "accepts_events s"
      and ok: "row_ok (?f s)" "name_check (se_display_name s)"
    have "\<not> lifecycle_allows_resume (st_lifecycle (se_status s))"
      using s(3) by (simp add: accepts_events_def lifecycle_allows_resume_def)
    moreover have "se_external_session_id (?f s) = se_external_session_id s
        \<or> se_id s \<notin> successor ` set (db_resumptions st)"
      using kept s(1,2) by (auto simp: conversation_kept_def list_all_iff list_ex_iff split: option.splits)
    ultimately show "keeps_row st s (?f s)" using ok by (simp add: keeps_row_def)
  qed simp
  then show ?thesis using session_inv_view [OF v] by simp
qed

lemma missing_status_Inr:
  "missing_status now s = Inr s' \<Longrightarrow> st_lifecycle s' = st_lifecycle s
     \<and> st_activity s' = ActivityRecoverableFailure"
  by (auto simp: missing_status_def Let_def split: if_splits option.splits sum.splits)

lemma mark_session_lifecycle_missing_Inr:
  assumes "mark_session_lifecycle_missing now i failure st = Inr (Some r, st')"
  obtains s status st1 where "load_session_row st i = Inr s" "se_external_session_id s = None"
    "st_lifecycle (se_status s) = Running" "missing_status now (se_status s) = Inr status"
    "valid_status status"
    "update_session i (\<lambda>q. se_external_session_id q = None \<and> accepts_events q)
                 (\<lambda>q. q\<lparr>se_status := status, se_failure_reason := Some failure,
                        se_last_activity_at := now\<rparr>) st = Some st1"
    "load_session_row st1 i = Inr r" "store_view st' = store_view st1"
proof -
  obtain s where s: "load_session_row st i = Inr s"
    using assms unfolding mark_session_lifecycle_missing_def by (elim bind_resultE)
  have c: "se_external_session_id s = None" "se_process_id s \<noteq> None"
    "st_lifecycle (se_status s) = Running"
    using assms s by (auto simp: mark_session_lifecycle_missing_def split: if_splits)
  obtain status where m: "missing_status now (se_status s) = Inr status"
    using assms s c by (auto simp: mark_session_lifecycle_missing_def bind_result_eq_Inr)
  let ?u = "update_session i (\<lambda>q. se_external_session_id q = None \<and> accepts_events q)
                 (\<lambda>q. q\<lparr>se_status := status, se_failure_reason := Some failure,
                        se_last_activity_at := now\<rparr>) st"
  have *: "(case validate status of Inl m \<Rightarrow> Inl (InvalidStatus m)
       | Inr _ \<Rightarrow> (case ?u of None \<Rightarrow> Inr (None, st)
           | Some st1 \<Rightarrow> let st2 = insert_entity_audit ''provider_lifecycle_missing''
                      (NeedsFeedbackEntity i) st1
                in bind_result (load_session_row st2 i) (\<lambda>s'. Inr (Some s', st2)))) = Inr (Some r, st')"
    using assms s c m by (simp add: mark_session_lifecycle_missing_def)
  then have v: "valid_status status" by (auto simp: valid_status_def split: sum.splits)
  then obtain st1 where u: "?u = Some st1" using * by (auto simp: valid_status_def split: option.splits)
  have "load_session_row st1 i = Inr r \<and> store_view st' = store_view st1"
    using * v u by (auto simp: valid_status_def Let_def bind_result_eq_Inr)
  then show ?thesis using that [OF s c(1,3) m v u] by simp
qed

lemma mark_session_lifecycle_missing_None:
  assumes "mark_session_lifecycle_missing now i failure st = Inr (None, st')"
  shows "st' = st"
proof -
  obtain s where s: "load_session_row st i = Inr s"
    using assms unfolding mark_session_lifecycle_missing_def by (elim bind_resultE)
  show ?thesis
  proof (cases "se_external_session_id s \<noteq> None \<or> se_process_id s = None
        \<or> st_lifecycle (se_status s) \<noteq> Running")
    case True
    then show ?thesis using assms s by (simp add: mark_session_lifecycle_missing_def)
  next
    case False
    then obtain status where m: "missing_status now (se_status s) = Inr status"
      using assms s by (auto simp: mark_session_lifecycle_missing_def bind_result_eq_Inr)
    show ?thesis
    proof (cases "update_session i (\<lambda>q. se_external_session_id q = None \<and> accepts_events q)
                 (\<lambda>q. q\<lparr>se_status := status, se_failure_reason := Some failure,
                        se_last_activity_at := now\<rparr>) st")
      case None
      then show ?thesis using assms s m False
        by (cases "validate status") (auto simp: mark_session_lifecycle_missing_def)
    next
      case (Some st1)
      then show ?thesis using assms s m False
        by (cases "validate status")
          (auto simp: mark_session_lifecycle_missing_def Let_def bind_result_eq_Inr)
    qed
  qed
qed

lemma mark_session_lifecycle_missing_inv:
  assumes inv: "session_inv st" and ok: "mark_session_lifecycle_missing now i failure st = Inr (r, st')"
  shows "session_inv st'"
proof (cases r)
  case None
  then show ?thesis using inv ok mark_session_lifecycle_missing_None by metis
next
  case (Some r')
  then have "mark_session_lifecycle_missing now i failure st = Inr (Some r', st')" using ok by simp
  then show ?thesis
  proof (rule mark_session_lifecycle_missing_Inr)
    fix s status st1
    assume s: "missing_status now (se_status s) = Inr status" "st_lifecycle (se_status s) = Running"
      and u: "update_session i (\<lambda>q. se_external_session_id q = None \<and> accepts_events q)
                 (\<lambda>q. q\<lparr>se_status := status, se_failure_reason := Some failure,
                        se_last_activity_at := now\<rparr>) st = Some st1"
      and l: "load_session_row st1 i = Inr r'" and v: "store_view st' = store_view st1"
    have "session_inv st1"
      by (rule session_inv_update_read [OF inv u _ l])
        (auto simp: keeps_row_def accepts_events_def lifecycle_allows_resume_def)
    then show ?thesis using session_inv_view [OF v] by simp
  qed
qed

subsection \<open>Reconciliation\<close>

lemma disconnected_valid:
  "valid_status s \<Longrightarrow> lifecycle_is_active (st_lifecycle s) \<Longrightarrow> valid_status (disconnected_status s)"
  by (auto simp: valid_status_iff_consistent status_consistent_def disconnected_status_def
      lifecycle_is_active_def outstanding_allowed_def)

lemma active_ids_iff:
  "i \<in> set (active_ids st) \<longleftrightarrow>
     (\<exists>s\<in>set (db_sessions st). se_id s = i \<and> lifecycle_is_active (st_lifecycle (se_status s)))"
  by (auto simp: active_ids_def)

lemma active_ids_updated:
  assumes "\<And>s. se_id (f s) = se_id s" "\<And>s. \<not> lifecycle_is_active (st_lifecycle (se_status (f s)))"
  shows "set (active_ids (updated_session i f st)) = set (active_ids st) - {i}"
proof (rule set_eqI)
  fix j
  have "j \<in> set (active_ids (updated_session i f st)) \<longleftrightarrow> (\<exists>q\<in>set (db_sessions st).
      se_id q = j \<and> se_id q \<noteq> i \<and> lifecycle_is_active (st_lifecycle (se_status q)))"
    unfolding active_ids_iff updated_session_def by (auto simp: update_where_def assms)
  then show "j \<in> set (active_ids (updated_session i f st)) \<longleftrightarrow> j \<in> set (active_ids st) - {i}"
    by (auto simp: active_ids_iff)
qed

lemma reconcile_one_ok:
  assumes inv: "session_inv st" and i: "i \<in> set (active_ids st)"
  shows "\<exists>st1. reconcile_one i st = Inr st1 \<and> session_inv st1
     \<and> set (active_ids st1) = set (active_ids st) - {i}"
proof -
  from i obtain s where s: "s \<in> set (db_sessions st)" "se_id s = i"
    "lifecycle_is_active (st_lifecycle (se_status s))" by (auto simp: active_ids_iff)
  let ?f = "\<lambda>q. q\<lparr>se_status := disconnected_status (se_status s), se_process_id := None,
                      se_failure_reason := (case se_failure_reason q of
                          None \<Rightarrow> Some RESTART_REASON | r \<Rightarrow> r)\<rparr>"
  let ?st = "updated_session i ?f st"
  have load: "load_session_row st i = Inr s" using s by (simp add: load_session_row_inv [OF inv])
  have v: "valid_status (disconnected_status (se_status s))"
    using session_invD(2) [OF inv s(1)] s(3) by (intro disconnected_valid) (simp_all add: row_ok_def)
  have "keeps_row st s (?f s)"
    using session_invD(2) [OF inv s(1)] session_invD(3) [OF inv s(1)] v
    unfolding keeps_row_def row_ok_def references_ok_def
    by (simp add: disconnected_status_def lifecycle_allows_resume_def)
  then have inv1: "session_inv ?st" by (rule updated_row_only [OF inv s(1,2)])
  have act: "set (active_ids ?st) = set (active_ids st) - {i}"
    by (rule active_ids_updated) (simp_all add: disconnected_status_def lifecycle_is_active_def)
  let ?e = "\<lparr>au_actor = ByRecovery, au_action = lit ''session_disconnected'',
                   au_entity = SessionEntity i, au_outcome = lit ''succeeded'',
                   au_details = RestartDetails\<rparr>"
  have "reconcile_one i st = Inr (audit ?e ?st)"
    using load v by (simp add: reconcile_one_def valid_status_def)
  moreover have "session_inv (audit ?e ?st)" using inv1 session_inv_view [of "audit ?e ?st" ?st] by simp
  moreover have "active_ids (audit ?e ?st) = active_ids ?st" by (simp add: active_ids_def)
  ultimately show ?thesis using act by auto
qed

lemma reconcile_all_ok:
  "session_inv st \<Longrightarrow> set is \<subseteq> set (active_ids st) \<Longrightarrow> distinct is \<Longrightarrow>
     \<exists>st1. reconcile_all is st = Inr st1 \<and> session_inv st1
       \<and> set (active_ids st1) = set (active_ids st) - set is"
proof (induction "is" arbitrary: st)
  case (Cons i "is")
  then obtain st1 where st1: "reconcile_one i st = Inr st1" "session_inv st1"
    "set (active_ids st1) = set (active_ids st) - {i}" using reconcile_one_ok by (metis list.set_intros(1) subsetD)
  have "set is \<subseteq> set (active_ids st1)" using Cons.prems(2,3) st1(3) by auto
  then obtain st2 where "reconcile_all is st1 = Inr st2" "session_inv st2"
    "set (active_ids st2) = set (active_ids st1) - set is"
    using Cons.IH [OF st1(2)] Cons.prems(3) by auto
  then show ?case using st1 by auto
qed simp

lemma reconcile_sessions_ok:
  assumes inv: "session_inv st"
  shows "\<exists>st1. reconcile_sessions st = Inr (length (active_ids st), st1) \<and> session_inv st1
    \<and> active_ids st1 = []"
proof -
  have "distinct (active_ids st)"
    using session_invD(1) [OF inv] by (simp add: active_ids_def distinct_map_filter)
  then obtain st1 where "reconcile_all (active_ids st) st = Inr st1" "session_inv st1"
    "set (active_ids st1) = set (active_ids st) - set (active_ids st)"
    using reconcile_all_ok [OF inv order_refl] by auto
  then show ?thesis by (simp add: reconcile_sessions_def)
qed

lemma upserted_profiles:
  "pp_id ` set t \<subseteq> pp_id ` set (update_where (\<lambda>q. pp_id q = pp_id p)
     (\<lambda>q. p\<lparr>pp_kind := pp_kind q, pp_display_name := pp_display_name q\<rparr>) t)"
  by (subst image_update_where) simp_all

lemma session_inv_profiles:
  assumes "session_inv st" "pp_id ` set (db_profiles st) \<subseteq> pp_id ` set P"
  shows "session_inv (st\<lparr>db_profiles := P\<rparr>)"
  using assms by (auto simp: session_inv_def sessions_ok_def session_view_def references_ok_def subset_iff)

lemma upsert_provider_inv:
  assumes inv: "session_inv st" and ok: "upsert_provider p st = Inr (r, st')"
  shows "session_inv st'"
proof -
  define P where "P = (if list_ex (\<lambda>q. pp_id q = pp_id p) (db_profiles st)
      then update_where (\<lambda>q. pp_id q = pp_id p)
                 (\<lambda>q. p\<lparr>pp_kind := pp_kind q, pp_display_name := pp_display_name q\<rparr>)
                 (db_profiles st)
      else db_profiles st @ [p])"
  have "name_check (pp_display_name p)"
    using ok unfolding upsert_provider_def by (rule contrapos_pp) simp
  then have "bind_result (load_provider (st\<lparr>db_profiles := P\<rparr>) (pp_id p))
      (\<lambda>q. Inr (q, st\<lparr>db_profiles := P\<rparr>)) = Inr (r, st')"
    using ok unfolding upsert_provider_def Let_def P_def by (simp only: not_True_eq_False if_False)
  then have st': "st' = st\<lparr>db_profiles := P\<rparr>" by (elim bind_resultE) (simp only: sum.inject prod.inject)
  have "pp_id ` set (db_profiles st) \<subseteq> pp_id ` set P"
    unfolding P_def using upserted_profiles [of "db_profiles st" p]
    by (simp only: split: if_split) (simp add: image_Un, blast)
  then show ?thesis unfolding st' by (rule session_inv_profiles [OF inv])
qed

subsection \<open>The lineage of the snapshot\<close>

lemma lineage_links_rows:
  "set (lineage_links st) = (\<lambda>r. \<lparr>predecessor = predecessor r, successor = successor r\<rparr>) ` set (db_resumptions st)"
  "length (lineage_links st) = length (db_resumptions st)"
  by (simp_all add: lineage_links_def)

lemma distinct_sort_map: "distinct (map f (sort_key k xs)) \<longleftrightarrow> distinct (map f xs)"
  by (rule mset_eq_imp_distinct_iff) simp

lemma link_rel_image: "link_rel ls = (\<lambda>l. (predecessor l, successor l)) ` set ls"
  by (auto simp: link_rel_def)

lemma linear_lineage_links: "linear_lineage (lineage_links st) \<longleftrightarrow> chain_ok (db_resumptions st)"
proof -
  have "map predecessor (lineage_links st) = map predecessor
      (sort_key (\<lambda>r. (rs_created_at r, predecessor r)) (db_resumptions st))"
    "map successor (lineage_links st) = map successor
      (sort_key (\<lambda>r. (rs_created_at r, predecessor r)) (db_resumptions st))"
    by (simp_all add: lineage_links_def comp_def)
  moreover have "link_rel (lineage_links st) = (\<lambda>l. (predecessor l, successor l)) ` set (db_resumptions st)"
    unfolding link_rel_image lineage_links_rows image_image by simp
  ultimately show ?thesis by (simp add: linear_lineage_def chain_ok_def distinct_sort_map)
qed

lemma check_identities_Inr:
  "check_identities lookup ls = Inr () \<longleftrightarrow> (\<forall>l\<in>set ls. \<exists>p s. lookup (predecessor l) = Some p
     \<and> lookup (successor l) = Some s \<and> se_worktree_id p = se_worktree_id s
     \<and> se_provider_kind p = se_provider_kind s \<and> se_external_session_id p \<noteq> None
     \<and> se_external_session_id p = se_external_session_id s)"
proof (induction ls)
  case (Cons l ls)
  then show ?case
    by (cases "lookup (predecessor l)"; cases "lookup (successor l)")
      (auto simp: load_session_def simp del: not_None_eq, metis)
qed simp

lemma session_lookup_inv:
  "session_inv st \<Longrightarrow> session_lookup st i = Some s \<longleftrightarrow> s \<in> set (db_sessions st) \<and> se_id s = i"
  using load_session_row_inv [of st i s]
  by (cases "load_session_row st i") (simp_all add: session_lookup_def)

lemma load_lineage_inv:
  assumes inv: "session_inv st" and cap: "length (db_resumptions st) \<le> MAX_SNAPSHOT_SESSION_LINEAGE_LINKS"
  shows "load_lineage st = Inr (lineage_links st)"
proof -
  have "check_identities (session_lookup st) (lineage_links st) = Inr ()"
    unfolding check_identities_Inr
  proof
    fix l assume "l \<in> set (lineage_links st)"
    then obtain r where r: "r \<in> set (db_resumptions st)" "predecessor l = predecessor r"
      "successor l = successor r" by (auto simp: lineage_links_rows)
    obtain p s where "p \<in> set (db_sessions st)" "s \<in> set (db_sessions st)" "se_id p = predecessor r"
      "se_id s = successor r" "se_worktree_id p = se_worktree_id s"
      "se_provider_kind p = se_provider_kind s" "se_external_session_id p \<noteq> None"
      "se_external_session_id p = se_external_session_id s"
      using session_invD(5) [OF inv r(1)] unfolding link_ok_def by blast
    then show "\<exists>p s. session_lookup st (predecessor l) = Some p
     \<and> session_lookup st (successor l) = Some s \<and> se_worktree_id p = se_worktree_id s
     \<and> se_provider_kind p = se_provider_kind s \<and> se_external_session_id p \<noteq> None
     \<and> se_external_session_id p = se_external_session_id s"
      unfolding session_lookup_inv [OF inv] r(2,3) by blast
  qed
  moreover have "validate_session_lineage (lineage_links st) = Inr ()"
    using session_invD(4) [OF inv] by (simp add: validate_session_lineage_iff linear_lineage_links)
  ultimately show ?thesis
    using cap by (simp add: load_lineage_def load_session_lineage_def lineage_links_rows Let_def)
qed

end
