(* ===== verification/Workspace_Store.thy ===== *)
theory Workspace_Store
  imports Store
begin

text \<open>
  The Workspace, Project and Worktree commands of \<open>crates/sylvops-daemon/src/database.rs\<close>
  (lines 362-456 and 1638-2501): creation, renaming, the state a removal is authorized against,
  and the removal that compares it again. Fresh identities and the clock are arguments.
\<close>

section \<open>Workspaces\<close>

definition close_workspaces :: "workspace_row list \<Rightarrow> workspace_row list" where
  "close_workspaces = update_where ws_is_open (\<lambda>r. r\<lparr>ws_is_open := False\<rparr>)"

definition insert_workspace ::
    "int \<Rightarrow> workspace_id \<Rightarrow> str \<Rightarrow> store \<Rightarrow> store_error + workspace \<times> store" where
  "insert_workspace now i name st =
     bind_result (validated_name name) (\<lambda>n.
     if list_ex (\<lambda>r. ws_id r = i) (db_workspaces st) \<or> \<not> name_check n then Inl ConstraintFailed
     else
       let w = \<lparr>ws_id = i, ws_name = n, ws_created_at = now, ws_updated_at = now,
                ws_last_opened_at = Some now, ws_is_open = True\<rparr>;
           st1 = st\<lparr>db_workspaces := close_workspaces (db_workspaces st)
                    @ [workspace.extend w \<lparr>ws_removal_generation = 0\<rparr>]\<rparr>
       in Inr (w, insert_entity_audit ''workspace_created'' (WorkspaceEntity i) st1))"

definition mark_open :: "int \<Rightarrow> workspace_id \<Rightarrow> workspace_row list \<Rightarrow> workspace_row list" where
  "mark_open now i ws = update_where (\<lambda>r. ws_id r = i)
     (\<lambda>r. r\<lparr>ws_is_open := True, ws_last_opened_at := Some now, ws_updated_at := now\<rparr>)
     (close_workspaces ws)"

definition open_workspace ::
    "int \<Rightarrow> workspace_id \<Rightarrow> store \<Rightarrow> store_error + workspace \<times> store" where
  "open_workspace now i st =
     (if \<not> list_ex (\<lambda>r. ws_id r = i) (db_workspaces st) then Inl (NoSuchWorkspace i)
      else
        let st1 = insert_entity_audit ''workspace_opened'' (WorkspaceEntity i)
              (st\<lparr>db_workspaces := mark_open now i (db_workspaces st)\<rparr>)
        in bind_result (load_workspace st1 i) (\<lambda>w. Inr (w, st1)))"

section \<open>Projects and Worktrees\<close>

record registration =
  rg_workspace_id :: workspace_id
  rg_name :: str
  rg_repository_path :: str
  rg_canonical_repository_path :: str
  rg_default_branch :: "str option"
  rg_remote_url :: "str option"
  rg_branch :: "str option"
  rg_base_commit :: str

text \<open>The insert statements with their constraints and triggers.\<close>

definition insert_project_row :: "project \<Rightarrow> store \<Rightarrow> store_error + store" where
  "insert_project_row p st =
     (if list_ex (\<lambda>q. pj_id q = pj_id p) (db_projects st)
         \<or> list_ex (\<lambda>q. pj_canonical_repository_path q = pj_canonical_repository_path p) (db_projects st)
         \<or> \<not> list_ex (\<lambda>w. ws_id w = pj_workspace_id p) (db_workspaces st)
         \<or> \<not> name_check (pj_name p)
      then Inl ConstraintFailed
      else bump_workspace (pj_workspace_id p)
             (st\<lparr>db_projects := db_projects st @ [project.extend p \<lparr>pj_removal_generation = 0\<rparr>]\<rparr>))"

definition insert_worktree_row :: "worktree \<Rightarrow> store \<Rightarrow> store_error + store" where
  "insert_worktree_row w st =
     (if list_ex (\<lambda>q. wt_id q = wt_id w) (db_worktrees st)
         \<or> list_ex (\<lambda>q. wt_canonical_path q = wt_canonical_path w) (db_worktrees st)
         \<or> \<not> list_ex (\<lambda>p. pj_id p = wt_project_id w) (db_projects st)
         \<or> \<not> name_check (wt_name w)
      then Inl ConstraintFailed
      else bump_project (wt_project_id w) (st\<lparr>db_worktrees := db_worktrees st @ [w]\<rparr>))"

definition registered_project :: "int \<Rightarrow> project_id \<Rightarrow> registration \<Rightarrow> project" where
  "registered_project now i r =
     \<lparr>pj_id = i, pj_workspace_id = rg_workspace_id r, pj_name = rg_name r,
      pj_repository_path = rg_repository_path r,
      pj_canonical_repository_path = rg_canonical_repository_path r,
      pj_default_branch = rg_default_branch r, pj_remote_url = rg_remote_url r,
      pj_created_at = now, pj_last_activity_at = now\<rparr>"

definition root_worktree :: "int \<Rightarrow> project_id \<Rightarrow> worktree_id \<Rightarrow> registration \<Rightarrow> worktree" where
  "root_worktree now p i r =
     \<lparr>wt_id = i, wt_project_id = p, wt_name = lit ''Root checkout'',
      wt_path = rg_repository_path r, wt_canonical_path = rg_canonical_repository_path r,
      wt_branch = rg_branch r,
      wt_base_ref = (case rg_branch r of None \<Rightarrow> rg_base_commit r | Some b \<Rightarrow> b),
      wt_base_commit = rg_base_commit r, wt_is_root_checkout = True, wt_status = WtActive,
      wt_created_at = now, wt_last_activity_at = now, wt_removed_at = None\<rparr>"

definition insert_project ::
    "int \<Rightarrow> project_id \<Rightarrow> worktree_id \<Rightarrow> registration \<Rightarrow> store
       \<Rightarrow> store_error + (project \<times> worktree) \<times> store" where
  "insert_project now p w r st =
     bind_result (insert_project_row (registered_project now p r) st) (\<lambda>st1.
     bind_result (insert_worktree_row (root_worktree now p w r) st1) (\<lambda>st2.
     Inr ((registered_project now p r, root_worktree now p w r),
          insert_entity_audit ''project_registered'' (ProjectEntity p) st2)))"

definition rename_project ::
    "int \<Rightarrow> project_id \<Rightarrow> str \<Rightarrow> store \<Rightarrow> store_error + project \<times> store" where
  "rename_project now i name st =
     bind_result (validated_name name) (\<lambda>n.
     if \<not> list_ex (\<lambda>p. pj_id p = i) (db_projects st) then Inl (NoSuchProject i)
     else if \<not> name_check n then Inl ConstraintFailed
     else
       let st1 = insert_entity_audit ''project_renamed'' (ProjectEntity i)
             (st\<lparr>db_projects := update_where (\<lambda>p. pj_id p = i)
                 (\<lambda>p. p\<lparr>pj_name := n, pj_last_activity_at := now\<rparr>) (db_projects st)\<rparr>)
       in bind_result (load_project st1 i) (\<lambda>p. Inr (p, st1)))"

record new_worktree =
  nw_id :: worktree_id
  nw_project_id :: project_id
  nw_name :: str
  nw_path :: str
  nw_canonical_path :: str
  nw_branch :: str
  nw_base_ref :: str
  nw_base_commit :: str

definition managed_worktree :: "int \<Rightarrow> new_worktree \<Rightarrow> worktree" where
  "managed_worktree now r =
     \<lparr>wt_id = nw_id r, wt_project_id = nw_project_id r, wt_name = nw_name r, wt_path = nw_path r,
      wt_canonical_path = nw_canonical_path r, wt_branch = Some (nw_branch r),
      wt_base_ref = nw_base_ref r, wt_base_commit = nw_base_commit r,
      wt_is_root_checkout = False, wt_status = WtActive, wt_created_at = now,
      wt_last_activity_at = now, wt_removed_at = None\<rparr>"

definition insert_worktree_record ::
    "int \<Rightarrow> new_worktree \<Rightarrow> store \<Rightarrow> store_error + worktree \<times> store" where
  "insert_worktree_record now r st =
     bind_result (insert_worktree_row (managed_worktree now r) st) (\<lambda>st1.
     let st2 = touch_project now (nw_project_id r) st1
     in bind_result (load_worktree st2 (nw_id r)) (\<lambda>w. Inr (w, st2)))"

definition insert_worktree ::
    "int \<Rightarrow> new_worktree \<Rightarrow> store \<Rightarrow> store_error + worktree \<times> store" where
  "insert_worktree now r st =
     bind_result (insert_worktree_record now r st) (\<lambda>(w, st1).
     Inr (w, insert_entity_audit ''worktree_created'' (WorktreeEntity (nw_id r)) st1))"

text \<open>A Worktree started from an Issue: the row of its source goes with it, or nothing does.\<close>

record new_work_source =
  nk_item :: item_identity
  nk_canonical_url :: browser_target

definition load_work_source :: "store \<Rightarrow> worktree_id \<Rightarrow> work_source option" where
  "load_work_source st i = select_by wk_worktree_id i (db_work_sources st)"

definition insert_sourced_worktree ::
    "int \<Rightarrow> new_worktree \<Rightarrow> new_work_source \<Rightarrow> store \<Rightarrow> store_error + (worktree \<times> work_source) \<times> store" where
  "insert_sourced_worktree now r source st =
     (if it_kind (nk_item source) \<noteq> Issue then Inl InvalidWorkSource
      else bind_result (insert_worktree_record now r st) (\<lambda>(w, st1).
        if uint (item_number (it_number (nk_item source))) > 9223372036854775807
        then Inl WorkSourceNumberTooLarge
        else if list_ex (\<lambda>s. wk_worktree_id s = nw_id r) (db_work_sources st1)
        then Inl ConstraintFailed
        else
          let s = \<lparr>wk_worktree_id = nw_id r, wk_project_id = nw_project_id r, wk_item = nk_item source,
                    wk_canonical_url = nk_canonical_url source, wk_created_at = now\<rparr>
          in Inr ((w, s), insert_entity_audit ''worktree_created_from_issue'' (WorktreeEntity (nw_id r))
                   (st1\<lparr>db_work_sources := db_work_sources st1 @ [s]\<rparr>))))"

text \<open>The GitHub repository a Project is associated with.\<close>

definition load_github_association :: "store \<Rightarrow> project_id \<Rightarrow> github_association option" where
  "load_github_association st i = select_by as_project_id i (db_associations st)"

definition set_github_association ::
    "int \<Rightarrow> project_id \<Rightarrow> github_remote \<Rightarrow> store \<Rightarrow> store_error + github_association \<times> store" where
  "set_github_association now i remote st =
     bind_result (load_project st i) (\<lambda>_.
     let a = (case load_github_association st i of
                None \<Rightarrow> \<lparr>as_project_id = i, as_remote_name = gr_name remote, as_repository = gr_repository remote,
                          as_created_at = now, as_updated_at = now\<rparr>
              | Some old \<Rightarrow> old\<lparr>as_remote_name := gr_name remote, as_repository := gr_repository remote,
                          as_updated_at := now\<rparr>)
     in Inr (a, insert_entity_audit ''github_association_set'' (ProjectEntity i)
          (st\<lparr>db_associations := filter (\<lambda>b. as_project_id b \<noteq> i) (db_associations st) @ [a]\<rparr>)))"

definition clear_github_association :: "project_id \<Rightarrow> store \<Rightarrow> store_error + bool \<times> store" where
  "clear_github_association i st =
     bind_result (load_project st i) (\<lambda>_.
     if load_github_association st i = None then Inr (False, st)
     else Inr (True, insert_entity_audit ''github_association_cleared'' (ProjectEntity i)
            (st\<lparr>db_associations := filter (\<lambda>b. as_project_id b \<noteq> i) (db_associations st)\<rparr>)))"

text \<open>The stamp of the Project of a Worktree row.\<close>

definition touch_owner :: "int \<Rightarrow> worktree_id \<Rightarrow> store \<Rightarrow> store" where
  "touch_owner now w st = (case select_by wt_id w (db_worktrees st) of
       None \<Rightarrow> st | Some r \<Rightarrow> touch_project now (wt_project_id r) st)"

definition rename_worktree ::
    "int \<Rightarrow> worktree_id \<Rightarrow> str \<Rightarrow> store \<Rightarrow> store_error + worktree \<times> store" where
  "rename_worktree now i name st =
     bind_result (validated_name name) (\<lambda>n.
     if list_ex (\<lambda>w. wt_id w = i \<and> wt_status w \<noteq> WtRemoved) (db_worktrees st) \<and> \<not> name_check n
     then Inl ConstraintFailed
     else bind_result (update_worktree i (\<lambda>w. wt_status w \<noteq> WtRemoved)
            (\<lambda>w. w\<lparr>wt_name := n, wt_last_activity_at := now\<rparr>) st) (\<lambda>(changed, st1).
          if \<not> changed then Inl (WorktreeRemovedOrMissing i)
          else
            let st2 = insert_entity_audit ''worktree_renamed'' (WorktreeEntity i)
                  (touch_owner now i st1)
            in bind_result (load_worktree st2 i) (\<lambda>w. Inr (w, st2))))"

definition mark_worktree_removed ::
    "int \<Rightarrow> worktree_id \<Rightarrow> store \<Rightarrow> store_error + worktree \<times> store" where
  "mark_worktree_removed now i st =
     bind_result (update_worktree i (\<lambda>w. \<not> wt_is_root_checkout w \<and> wt_status w = WtActive)
         (\<lambda>w. w\<lparr>wt_status := WtRemoved, wt_removed_at := Some now, wt_last_activity_at := now\<rparr>) st)
       (\<lambda>(changed, st1).
        if \<not> changed then Inl (NotActiveManaged i)
        else bind_result (load_worktree st1 i) (\<lambda>w.
             Inr (w, insert_entity_audit ''worktree_removed'' (WorktreeEntity i)
                       (touch_project now (wt_project_id w) st1))))"

definition mark_worktree_missing ::
    "int \<Rightarrow> worktree_id \<Rightarrow> store \<Rightarrow> store_error + worktree \<times> store" where
  "mark_worktree_missing now i st =
     bind_result (update_worktree i (\<lambda>w. wt_status w = WtActive)
         (\<lambda>w. w\<lparr>wt_status := WtMissing, wt_last_activity_at := now\<rparr>) st)
       (\<lambda>(changed, st1).
        if \<not> changed then Inl (WorktreeNotActive i)
        else
          let st2 = insert_entity_audit ''worktree_missing'' (WorktreeEntity i) st1
          in bind_result (load_worktree st2 i) (\<lambda>w. Inr (w, st2)))"

definition worktree_has_live_sessions :: "worktree_id \<Rightarrow> store \<Rightarrow> bool" where
  "worktree_has_live_sessions i st = list_ex (\<lambda>s. se_worktree_id s = i
     \<and> lifecycle_is_active (st_lifecycle (se_status s))) (db_sessions st)"

section \<open>Removal\<close>

definition MAX_REMOVAL_BLOCKER_IDS :: nat where "MAX_REMOVAL_BLOCKER_IDS = 32"
definition REMOVAL_QUERY_LIMIT :: nat where "REMOVAL_QUERY_LIMIT = 33"

record 'k bounded_ids =
  bi_ids :: "'k list"
  bi_count :: nat
  bi_truncated :: bool

definition bound_ids :: "'k list \<Rightarrow> 'k bounded_ids" where
  "bound_ids ids = \<lparr>bi_ids = take MAX_REMOVAL_BLOCKER_IDS ids,
     bi_count = min (length ids) (2 ^ 32 - 1),
     bi_truncated = (MAX_REMOVAL_BLOCKER_IDS < length ids)\<rparr>"

record project_removal_state =
  pr_project :: project
  pr_descendant_generation :: int
  pr_root_worktree_ids :: "worktree_id list"
  pr_sessions :: "session_id bounded_ids"
  pr_managed_worktrees :: "worktree_id bounded_ids"
  pr_root_worktree_count :: nat

definition is_removable :: "project_removal_state \<Rightarrow> bool" where
  "is_removable r \<longleftrightarrow> bi_count (pr_sessions r) = 0 \<and> bi_count (pr_managed_worktrees r) = 0
     \<and> pr_root_worktree_count r = 1"

definition project_worktrees :: "project_id \<Rightarrow> store \<Rightarrow> worktree list" where
  "project_worktrees p st = filter (\<lambda>w. wt_project_id w = p) (db_worktrees st)"

text \<open>\<open>sessions JOIN worktrees ON worktrees.id = sessions.worktree_id WHERE project_id = ?\<close>.\<close>

definition project_sessions :: "project_id \<Rightarrow> store \<Rightarrow> session list" where
  "project_sessions p st = filter (\<lambda>s. list_ex (\<lambda>w. wt_id w = se_worktree_id s \<and> wt_project_id w = p)
     (db_worktrees st)) (db_sessions st)"

definition removal_root_worktree_ids :: "project_id \<Rightarrow> store \<Rightarrow> worktree_id list" where
  "removal_root_worktree_ids p st = take 2 (sort_key worktree_uuid
     (map wt_id (filter wt_is_root_checkout (project_worktrees p st))))"

definition removal_session_ids :: "project_id \<Rightarrow> store \<Rightarrow> session_id list" where
  "removal_session_ids p st =
     take REMOVAL_QUERY_LIMIT (sort_key as_uuid (map se_id (project_sessions p st)))"

definition removal_managed_worktree_ids :: "project_id \<Rightarrow> store \<Rightarrow> worktree_id list" where
  "removal_managed_worktree_ids p st = take REMOVAL_QUERY_LIMIT (sort_key worktree_uuid
     (map wt_id (filter (\<lambda>w. \<not> wt_is_root_checkout w \<and> wt_status w \<noteq> WtRemoved)
        (project_worktrees p st))))"

definition load_project_removal_state ::
    "project_id \<Rightarrow> store \<Rightarrow> store_error + project_removal_state" where
  "load_project_removal_state p st = (case select_by pj_id p (db_projects st) of
       None \<Rightarrow> Inl (NoSuchProject p)
     | Some r \<Rightarrow> Inr
         \<lparr>pr_project = project.truncate r, pr_descendant_generation = pj_removal_generation r,
          pr_root_worktree_ids = removal_root_worktree_ids p st,
          pr_sessions = bound_ids (removal_session_ids p st),
          pr_managed_worktrees = bound_ids (removal_managed_worktree_ids p st),
          pr_root_worktree_count = min (length (removal_root_worktree_ids p st)) (2 ^ 32 - 1)\<rparr>)"

text \<open>Deleting the pull request links and the Worktrees of a Project fires the triggers of the
  Project once per row, deleting the Project the one of its Workspace. The work sources of deleted
  Worktrees and Projects and the association of a deleted Project go with them
  (\<open>ON DELETE CASCADE\<close>); a Session keeps its Worktree from being deleted.\<close>

fun bump_project_times :: "nat \<Rightarrow> project_id \<Rightarrow> store \<Rightarrow> store_error + store" where
  "bump_project_times 0 p st = Inr st"
| "bump_project_times (Suc n) p st = bind_result (bump_project p st) (bump_project_times n p)"

definition in_project :: "project_id \<Rightarrow> store \<Rightarrow> worktree_id \<Rightarrow> bool" where
  "in_project p st i \<longleftrightarrow> list_ex (\<lambda>w. wt_id w = i \<and> wt_project_id w = p) (db_worktrees st)"

definition delete_project_links :: "project_id \<Rightarrow> store \<Rightarrow> store_error + store" where
  "delete_project_links p st =
     bump_project_times (length (filter (\<lambda>l. in_project p st (pl_worktree_id l)) (db_pull_requests st))) p
       (st\<lparr>db_pull_requests := filter (\<lambda>l. \<not> in_project p st (pl_worktree_id l)) (db_pull_requests st)\<rparr>)"

definition delete_project_worktrees :: "project_id \<Rightarrow> store \<Rightarrow> store_error + store" where
  "delete_project_worktrees p st =
     (if project_sessions p st \<noteq> [] then Inl ConstraintFailed
      else bump_project_times (length (project_worktrees p st)) p
             (st\<lparr>db_worktrees := filter (\<lambda>w. wt_project_id w \<noteq> p) (db_worktrees st),
                 db_work_sources := filter (\<lambda>s. \<not> in_project p st (wk_worktree_id s)) (db_work_sources st)\<rparr>))"

definition delete_project_row :: "project_id \<Rightarrow> workspace_id \<Rightarrow> store \<Rightarrow> store_error + store" where
  "delete_project_row p w st =
     (if project_worktrees p st \<noteq> [] then Inl ConstraintFailed
      else bump_workspace w
             (st\<lparr>db_projects := filter (\<lambda>r. pj_id r \<noteq> p) (db_projects st),
                 db_associations := filter (\<lambda>a. as_project_id a \<noteq> p) (db_associations st),
                 db_work_sources := filter (\<lambda>s. wk_project_id s \<noteq> p) (db_work_sources st)\<rparr>))"

definition remove_project ::
    "project_removal_state \<Rightarrow> store \<Rightarrow> store_error + project \<times> store" where
  "remove_project expected st =
     (let p = pj_id (pr_project expected) in
      bind_result (load_project_removal_state p st) (\<lambda>current.
      if current \<noteq> expected \<or> \<not> is_removable current then Inl RemovalStale
      else bind_result (delete_project_links p st) (\<lambda>st0.
           bind_result (delete_project_worktrees p st0) (\<lambda>st1.
           bind_result (delete_project_row p (pj_workspace_id (pr_project expected)) st1) (\<lambda>st2.
           Inr (pr_project expected, insert_entity_audit ''project_removed'' (ProjectEntity p) st2))))))"

record workspace_deletion_state =
  wd_workspace :: workspace
  wd_generation :: int
  wd_projects :: "project_id bounded_ids"
  wd_fallback :: "workspace_id option"

definition is_deletable :: "workspace_deletion_state \<Rightarrow> bool" where
  "is_deletable w \<longleftrightarrow> bi_count (wd_projects w) = 0"

text \<open>\<open>ORDER BY last_opened_at DESC, id ASC LIMIT 1\<close>; a NULL comes last.\<close>

definition fallback_order :: "workspace_row \<Rightarrow> (nat \<times> int) \<times> uuid" where
  "fallback_order r = ((case ws_last_opened_at r of None \<Rightarrow> (1, 0) | Some t \<Rightarrow> (0, - t)),
     workspace_uuid (ws_id r))"

definition fallback_workspace :: "workspace_id \<Rightarrow> store \<Rightarrow> workspace_id option" where
  "fallback_workspace i st =
     (case sort_key fallback_order (filter (\<lambda>r. ws_id r \<noteq> i) (db_workspaces st)) of
        [] \<Rightarrow> None | r # _ \<Rightarrow> Some (ws_id r))"

definition load_workspace_deletion_state ::
    "workspace_id \<Rightarrow> store \<Rightarrow> store_error + workspace_deletion_state" where
  "load_workspace_deletion_state i st = (case select_by ws_id i (db_workspaces st) of
       None \<Rightarrow> Inl (NoSuchWorkspace i)
     | Some r \<Rightarrow> Inr
         \<lparr>wd_workspace = workspace.truncate r, wd_generation = ws_removal_generation r,
          wd_projects = bound_ids (take REMOVAL_QUERY_LIMIT (sort_key project_uuid
             (map pj_id (filter (\<lambda>p. pj_workspace_id p = i) (db_projects st))))),
          wd_fallback = (if ws_is_open r then fallback_workspace i st else None)\<rparr>)"

definition delete_workspace ::
    "int \<Rightarrow> workspace_deletion_state \<Rightarrow> store
       \<Rightarrow> store_error + (workspace \<times> workspace option) \<times> store" where
  "delete_workspace now expected st =
     (let i = ws_id (wd_workspace expected) in
      bind_result (load_workspace_deletion_state i st) (\<lambda>current.
      if current \<noteq> expected \<or> \<not> is_deletable current then Inl WorkspaceDeletionStale
      else if list_ex (\<lambda>p. pj_workspace_id p = i) (db_projects st) then Inl ConstraintFailed
      else
        let st1 = st\<lparr>db_workspaces := filter (\<lambda>r. ws_id r \<noteq> i) (db_workspaces st)\<rparr>
        in case wd_fallback expected of
             None \<Rightarrow> Inr ((wd_workspace expected, None),
                       insert_entity_audit ''workspace_deleted'' (WorkspaceEntity i) st1)
           | Some f \<Rightarrow>
               if \<not> list_ex (\<lambda>r. ws_id r = f) (db_workspaces st1) then Inl FallbackChanged
               else
                 let st2 = st1\<lparr>db_workspaces := mark_open now f (db_workspaces st1)\<rparr>
                 in bind_result (load_workspace st2 f) (\<lambda>opened.
                    Inr ((wd_workspace expected, Some opened),
                      insert_entity_audit ''workspace_deleted'' (WorkspaceEntity i) st2))))"

end
