(* ===== verification/Database.thy ===== *)
theory Database
  imports Session_Invariant Workspace_Store
begin

text \<open>
  The database thread (\<open>database_thread\<close>, database.rs 1229-1552): one command after the other,
  each a transaction that commits or leaves the store as it was, and the revision that the
  committed ones advance. The invariant of the Workspace, Project and Worktree tables, and the
  properties of command sequences.
\<close>

section \<open>Commands\<close>

datatype database_command =
    AddWorkspace int workspace_id str
  | OpenWorkspace int workspace_id
  | DeleteWorkspace int workspace_deletion_state
  | AddProject int project_id worktree_id registration
  | RenameProject int project_id str
  | RemoveProject project_removal_state
  | UpsertProvider provider_profile
  | SetGitHubAssociation int project_id github_remote
  | ClearGitHubAssociation project_id
  | AddWorktree int new_worktree
  | AddSourcedWorktree int new_worktree new_work_source
  | RenameWorktree int worktree_id str
  | MarkWorktreeRemoved int worktree_id
  | MarkWorktreeMissing int worktree_id
  | CreateSession int new_session
  | RenameSession int session_id str
  | MarkSessionRunning int session_id u32
  | FinishSession int session_id session_lifecycle "status_transition option" "int option" "str option"
  | AcknowledgeAttention session_id attention_event_id acknowledgement_action
  | UpdateSessionStatus int session_id status_transition "identity_update option"
  | MarkSessionLifecycleMissing int session_id str
  | DeleteSession session
  | Reconcile
  | Audit str str audit_details bool

text \<open>The outcome of a command without its reply: an error, or whether it advances the revision
  and the new store. The flag of \<open>Audit\<close> says whether the details are JSON.\<close>

definition commits :: "bool \<Rightarrow> store_error + 'a \<times> store \<Rightarrow> store_error + bool \<times> store" where
  "commits b r = bind_result r (\<lambda>(_, st). Inr (b, st))"

fun execute :: "database_command \<Rightarrow> store \<Rightarrow> store_error + bool \<times> store" where
  "execute (AddWorkspace now i name) st = commits True (insert_workspace now i name st)"
| "execute (OpenWorkspace now i) st = commits True (open_workspace now i st)"
| "execute (DeleteWorkspace now x) st = commits True (delete_workspace now x st)"
| "execute (AddProject now p w r) st = commits True (insert_project now p w r st)"
| "execute (RenameProject now p name) st = commits True (rename_project now p name st)"
| "execute (RemoveProject x) st = commits True (remove_project x st)"
| "execute (UpsertProvider p) st = commits True (upsert_provider p st)"
| "execute (SetGitHubAssociation now p remote) st = commits True (set_github_association now p remote st)"
| "execute (ClearGitHubAssociation p) st =
     bind_result (clear_github_association p st) (\<lambda>(changed, st1). Inr (changed, st1))"
| "execute (AddWorktree now r) st = commits True (insert_worktree now r st)"
| "execute (AddSourcedWorktree now r source) st = commits True (insert_sourced_worktree now r source st)"
| "execute (RenameWorktree now w name) st = commits True (rename_worktree now w name st)"
| "execute (MarkWorktreeRemoved now w) st = commits True (mark_worktree_removed now w st)"
| "execute (MarkWorktreeMissing now w) st = commits True (mark_worktree_missing now w st)"
| "execute (CreateSession now r) st = commits False (insert_session now r st)"
| "execute (RenameSession now i name) st = commits True (rename_session now i name st)"
| "execute (MarkSessionRunning now i pid) st = commits True (mark_session_running now i pid st)"
| "execute (FinishSession now i l tr code failure) st =
     commits True (finish_session now i l tr code failure st)"
| "execute (AcknowledgeAttention i ev a) st =
     bind_result (acknowledge_session_attention i ev a st) (\<lambda>(s, st1). Inr (s \<noteq> None, st1))"
| "execute (UpdateSessionStatus now i tr u) st = commits True (update_session_status now i tr u st)"
| "execute (MarkSessionLifecycleMissing now i failure) st =
     bind_result (mark_session_lifecycle_missing now i failure st) (\<lambda>(s, st1). Inr (s \<noteq> None, st1))"
| "execute (DeleteSession x) st = commits True (delete_session x st)"
| "execute Reconcile st = bind_result (reconcile_sessions st) (\<lambda>(n, st1). Inr (0 < n, st1))"
| "execute (Audit action outcome details json) st =
     commits False (insert_audit_event (\<lambda>_. json) action outcome details st)"

record database =
  da_store :: store
  da_revision :: u64

definition database_open :: "store \<Rightarrow> database" where
  "database_open st = \<lparr>da_store = st, da_revision = 1\<rparr>"

definition database_step :: "database \<Rightarrow> database_command \<Rightarrow> database" where
  "database_step d c = (case execute c (da_store d) of
       Inl _ \<Rightarrow> d
     | Inr (b, st) \<Rightarrow> \<lparr>da_store = st,
         da_revision = (if b then saturating_add (da_revision d) 1 else da_revision d)\<rparr>)"

section \<open>The invariant of the tables\<close>

text \<open>One Workspace is open unless there is none; every Project has one root Worktree.\<close>

definition workspaces_ok :: "(workspace_id \<times> bool) list \<Rightarrow> bool" where
  "workspaces_ok W \<longleftrightarrow> distinct (map fst W) \<and> tally snd W = (if W = [] then 0 else 1)"

definition projects_ok :: "(workspace_id \<times> bool) list \<Rightarrow> (project_id \<times> workspace_id \<times> str) list \<Rightarrow> bool" where
  "projects_ok W P \<longleftrightarrow> distinct (map fst P) \<and> distinct (map (\<lambda>(p, w, c). c) P)
     \<and> (\<forall>(p, w, c)\<in>set P. w \<in> fst ` set W)"

definition is_root_of :: "project_id \<Rightarrow> worktree_id \<times> project_id \<times> str \<times> bool \<Rightarrow> bool" where
  "is_root_of p = (\<lambda>(i, q, c, root). q = p \<and> root)"

definition worktrees_ok ::
    "(project_id \<times> workspace_id \<times> str) list \<Rightarrow> (worktree_id \<times> project_id \<times> str \<times> bool) list \<Rightarrow> bool" where
  "worktrees_ok P T \<longleftrightarrow> distinct (map fst T) \<and> distinct (map (\<lambda>(i, p, c, r). c) T)
     \<and> (\<forall>(i, p, c, r)\<in>set T. p \<in> fst ` set P)
     \<and> (\<forall>(p, w, c)\<in>set P. tally (is_root_of p) T = 1)"

definition tables_inv :: "store \<Rightarrow> bool" where
  "tables_inv st \<longleftrightarrow> workspaces_ok (workspace_keys st)
     \<and> projects_ok (workspace_keys st) (project_keys st)
     \<and> worktrees_ok (project_keys st) (worktree_keys st)"

definition store_inv :: "store \<Rightarrow> bool" where
  "store_inv st \<longleftrightarrow> tables_inv st \<and> session_inv st"

section \<open>Session commands leave the other tables alone\<close>

lemma tables_inv_view: "table_view st1 = table_view st \<Longrightarrow> tables_inv st1 \<longleftrightarrow> tables_inv st"
  by (simp add: tables_inv_def table_view_def)

lemma table_view_update_session:
  "update_session i P f st = Some st1 \<Longrightarrow> table_view st1 = table_view st"
  by (auto simp: update_session_def split: if_splits)

lemma table_view_updated_session [simp]: "table_view (updated_session i f st) = table_view st"
  by (simp add: updated_session_def)

lemma table_view_insert_session:
  assumes "insert_session now r st = Inr (s, st')"
  shows "table_view st' = table_view st"
proof -
  obtain st1 st2 where
    st1: "insert_session_row (new_session_row now r) st = Inr st1"
    and st2: "(case ns_resumed_from r of None \<Rightarrow> Inr st1 | Some i \<Rightarrow> insert_resumption_row
        \<lparr>predecessor = i, successor = ns_id r, rs_created_at = now\<rparr> st1) = Inr st2"
    and st': "table_view st' = table_view st2"
    using assms unfolding insert_session_def Let_def by (elim bind_resultE) auto
  have "table_view st1 = table_view st"
    using st1 by (auto simp: insert_session_row_def dest!: table_view_bump_worktree_project split: if_splits)
  moreover have "table_view st2 = table_view st1"
    using st2 by (auto simp: insert_resumption_row_def split: if_splits option.splits)
  ultimately show ?thesis using st' by simp
qed

lemma table_view_rename_session:
  assumes "rename_session now i name st = Inr (s, st')"
  shows "table_view st' = table_view st"
proof -
  obtain n where
    *: "(case update_session i (\<lambda>_. True) (\<lambda>s. s\<lparr>se_display_name := n, se_last_activity_at := now\<rparr>) st of
       None \<Rightarrow> Inl (NoSuchSession i)
     | Some st1 \<Rightarrow>
        if \<not> name_check n then Inl ConstraintFailed
        else bind_result (case select_by se_id i (db_sessions st1) of
                 None \<Rightarrow> Inr st1
               | Some s \<Rightarrow> touch_worktree now (se_worktree_id s) st1) (\<lambda>st2.
             let st3 = insert_entity_audit ''session_renamed'' (SessionEntity i) st2
             in bind_result (load_session_row st3 i) (\<lambda>s. Inr (s, st3)))) = Inr (s, st')"
    using assms unfolding rename_session_def by (elim bind_resultE)
  then obtain st1 where u: "update_session i (\<lambda>_. True)
      (\<lambda>s. s\<lparr>se_display_name := n, se_last_activity_at := now\<rparr>) st = Some st1" and n: "name_check n"
    by (auto split: option.splits if_splits)
  obtain st2 where t: "(case select_by se_id i (db_sessions st1) of
                 None \<Rightarrow> Inr st1
               | Some s \<Rightarrow> touch_worktree now (se_worktree_id s) st1) = Inr st2"
    and st': "st' = insert_entity_audit ''session_renamed'' (SessionEntity i) st2"
    using * u n by (auto simp: bind_result_eq_Inr Let_def)
  have "table_view st2 = table_view st1" using t by (auto dest!: table_view_touch_worktree split: option.splits)
  then show ?thesis using table_view_update_session [OF u] st' by simp
qed


lemma table_view_delete_session:
  assumes "delete_session x st = Inr (s, st')"
  shows "table_view st' = table_view st"
  using delete_session_Inr(6) [OF assms] table_view_bump_worktree_project by fastforce

lemma store_view_table: "store_view st1 = store_view st \<Longrightarrow> table_view st1 = table_view st"
  by (simp add: store_view_def)

lemma table_view_mark_session_running:
  "mark_session_running now i pid st = Inr (s, st') \<Longrightarrow> table_view st' = table_view st"
  by (erule mark_session_running_Inr, drule table_view_update_session, drule store_view_table, simp only:)

lemma table_view_finish_session:
  "finish_session now i l tr code failure st = Inr (s, st') \<Longrightarrow> table_view st' = table_view st"
  by (erule finish_session_Inr, drule table_view_update_session, drule store_view_table, simp only:)

lemma table_view_acknowledge:
  assumes "acknowledge_session_attention i ev a st = Inr (r, st')"
  shows "table_view st' = table_view st"
proof (cases r)
  case None
  then show ?thesis using acknowledge_session_attention_None [of i ev a st st'] assms by simp
next
  case (Some q)
  then have "acknowledge_session_attention i ev a st = Inr (Some q, st')" using assms by simp
  then show ?thesis by - (erule acknowledge_session_attention_Inr, drule store_view_table, simp)
qed

lemma table_view_update_session_status:
  "update_session_status now i tr u st = Inr (s, st') \<Longrightarrow> table_view st' = table_view st"
  by (erule update_session_status_Inr, drule table_view_update_session, drule store_view_table, simp only:)

lemma table_view_missing:
  assumes "mark_session_lifecycle_missing now i failure st = Inr (r, st')"
  shows "table_view st' = table_view st"
proof (cases r)
  case None
  then show ?thesis using mark_session_lifecycle_missing_None [of now i failure st st'] assms by simp
next
  case (Some q)
  then have "mark_session_lifecycle_missing now i failure st = Inr (Some q, st')" using assms by simp
  then show ?thesis
    by - (erule mark_session_lifecycle_missing_Inr, drule table_view_update_session,
        drule store_view_table, simp only:)
qed

lemma table_view_reconcile_all:
  "reconcile_all is st = Inr st' \<Longrightarrow> table_view st' = table_view st"
proof (induction "is" arbitrary: st)
  case (Cons i "is")
  then obtain st1 where st1: "reconcile_one i st = Inr st1" "reconcile_all is st1 = Inr st'"
    by (auto simp: bind_result_eq_Inr)
  have "table_view st1 = table_view st"
    using st1(1) unfolding reconcile_one_def Let_def
    by (elim bind_resultE) (auto split: sum.splits)
  then show ?case using Cons.IH [OF st1(2)] by simp
qed simp

lemma table_view_reconcile: "reconcile_sessions st = Inr (n, st') \<Longrightarrow> table_view st' = table_view st"
  unfolding reconcile_sessions_def by (elim bind_resultE) (simp add: table_view_reconcile_all)

lemma table_view_upsert:
  assumes "upsert_provider p st = Inr (r, st')"
  shows "table_view st' = table_view st"
proof -
  have "name_check (pp_display_name p)"
    using assms unfolding upsert_provider_def by (rule contrapos_pp) simp
  then show ?thesis using assms unfolding upsert_provider_def Let_def
    by (simp only: not_True_eq_False if_False) (elim bind_resultE, auto)
qed

section \<open>Workspace, Project and Worktree commands\<close>

lemma keys_close: "map (\<lambda>r. (ws_id r, ws_is_open r)) (close_workspaces ws) =
    map (\<lambda>(i, b). (i, False)) (map (\<lambda>r. (ws_id r, ws_is_open r)) ws)"
  by (auto simp: close_workspaces_def update_where_def)

lemma keys_mark_open: "map (\<lambda>r. (ws_id r, ws_is_open r)) (mark_open now i ws) =
    map (\<lambda>(j, b). (j, j = i)) (map (\<lambda>r. (ws_id r, ws_is_open r)) ws)"
  by (auto simp: mark_open_def close_workspaces_def update_where_def)

lemma tally_closed [simp]: "tally snd (map (\<lambda>(i, b). (i, False)) W) = 0"
  by (induction W) auto

lemma tally_opened:
  "distinct (map fst W) \<Longrightarrow>
     tally snd (map (\<lambda>(j, b). (j, j = i)) W) = (if i \<in> fst ` set W then 1 else 0)"
proof (induction W)
  case (Cons x W)
  then show ?case by (cases x; cases "fst x = i") (auto simp: image_iff split: if_splits)
qed simp

lemma fst_retag [simp]: "map fst (map (\<lambda>(j, b). (j, f j b)) W) = map fst W"
  by (induction W) auto

lemma fst_image_retag [simp]: "fst ` (\<lambda>(j, b). (j, f j b)) ` set W = fst ` set W"
  by (force simp: image_iff)

lemma workspaces_ok_insert:
  "workspaces_ok W \<Longrightarrow> i \<notin> fst ` set W \<Longrightarrow>
     workspaces_ok (map (\<lambda>(j, b). (j, False)) W @ [(i, True)])"
  unfolding workspaces_ok_def by (auto simp: distinct_append simp del: map_map)

lemma workspaces_ok_open:
  "workspaces_ok W \<Longrightarrow> i \<in> fst ` set W \<Longrightarrow> workspaces_ok (map (\<lambda>(j, b). (j, j = i)) W)"
  unfolding workspaces_ok_def by (auto simp: tally_opened simp del: map_map)

lemma projects_ok_mono: "projects_ok W P \<Longrightarrow> fst ` set W \<subseteq> fst ` set W' \<Longrightarrow> projects_ok W' P"
  by (fastforce simp: projects_ok_def)

lemma session_inv_worktrees:
  assumes inv: "session_inv st"
    and same: "db_sessions st1 = db_sessions st" "db_resumptions st1 = db_resumptions st"
      "db_profiles st1 = db_profiles st"
    and W: "\<And>s. s \<in> set (db_sessions st) \<Longrightarrow> se_worktree_id s \<in> wt_id ` set (db_worktrees st1)"
  shows "session_inv st1"
  using session_invD [OF inv] same W
  by (auto simp: session_inv_def sessions_ok_def session_view_def references_ok_def)

lemma insert_workspace_inv:
  assumes inv: "store_inv st" and ok: "insert_workspace now i name st = Inr (w, st')"
  shows "store_inv st'"
proof -
  let ?new = "\<lambda>n. workspace.extend \<lparr>ws_id = i, ws_name = n, ws_created_at = now, ws_updated_at = now,
                ws_last_opened_at = Some now, ws_is_open = True\<rparr> \<lparr>ws_removal_generation = 0\<rparr>"
  obtain n where fresh: "i \<notin> ws_id ` set (db_workspaces st)" and
    st': "st' = insert_entity_audit ''workspace_created'' (WorkspaceEntity i)
      (st\<lparr>db_workspaces := close_workspaces (db_workspaces st) @ [?new n]\<rparr>)"
    using ok unfolding insert_workspace_def Let_def
    by (elim bind_resultE) (auto simp: list_ex_iff split: if_splits)
  let ?st = "st\<lparr>db_workspaces := close_workspaces (db_workspaces st) @ [?new n]\<rparr>"
  have keys: "workspace_keys ?st = map (\<lambda>(j, b). (j, False)) (workspace_keys st) @ [(i, True)]"
    "project_keys ?st = project_keys st" "worktree_keys ?st = worktree_keys st"
    using keys_close [of "db_workspaces st"]
    by (simp_all add: workspace_keys_def project_keys_def worktree_keys_def workspace.defs del: map_map)
  have "i \<notin> fst ` set (workspace_keys st)" using fresh by (simp add: workspace_keys_def image_image)
  moreover have sub: "fst ` set (workspace_keys st) \<subseteq>
      fst ` set (map (\<lambda>(j, b). (j, False)) (workspace_keys st) @ [(i, True)])" by force
  ultimately have "tables_inv ?st"
    using inv unfolding store_inv_def tables_inv_def keys
    by (simp add: workspaces_ok_insert projects_ok_mono [OF _ sub] del: set_append set_map)
  moreover have "session_inv ?st" using inv
    by (simp add: store_inv_def session_inv_def session_view_def)
  ultimately show ?thesis
    unfolding store_inv_def st' tables_inv_view [OF table_view_audit(2)] session_inv_view [OF store_view_audit(2)]
    by simp
qed

lemma open_workspace_inv:
  assumes inv: "store_inv st" and ok: "open_workspace now i st = Inr (w, st')"
  shows "store_inv st'"
proof -
  let ?st = "st\<lparr>db_workspaces := mark_open now i (db_workspaces st)\<rparr>"
  have st': "st' = insert_entity_audit ''workspace_opened'' (WorkspaceEntity i) ?st"
    and mem: "i \<in> ws_id ` set (db_workspaces st)"
    using ok unfolding open_workspace_def Let_def
    by (auto simp: list_ex_iff bind_result_eq_Inr split: if_splits)
  have keys: "workspace_keys ?st = map (\<lambda>(j, b). (j, j = i)) (workspace_keys st)"
    "project_keys ?st = project_keys st" "worktree_keys ?st = worktree_keys st"
    using keys_mark_open [of now i "db_workspaces st"]
    by (simp_all add: workspace_keys_def project_keys_def worktree_keys_def del: map_map)
  have "i \<in> fst ` set (workspace_keys st)" using mem by (simp add: workspace_keys_def image_image)
  moreover have sub: "fst ` set (workspace_keys st) \<subseteq>
      fst ` set (map (\<lambda>(j, b). (j, j = i)) (workspace_keys st))" by force
  ultimately have "tables_inv ?st"
    using inv unfolding store_inv_def tables_inv_def keys
    by (simp add: workspaces_ok_open projects_ok_mono [OF _ sub] del: set_map)
  moreover have "session_inv ?st" using inv
    by (simp add: store_inv_def session_inv_def session_view_def)
  ultimately show ?thesis
    unfolding store_inv_def st' tables_inv_view [OF table_view_audit(2)] session_inv_view [OF store_view_audit(2)]
    by simp
qed

lemma is_root_of_simp [simp]: "is_root_of p (i, q, c, r) \<longleftrightarrow> q = p \<and> r"
  by (auto simp: is_root_of_def)

lemma worktrees_ok_insert:
  assumes ok: "worktrees_ok P T" and new: "t \<notin> fst ` set T" "c \<notin> (\<lambda>(i, p, c, r). c) ` set T"
    and p: "p \<in> fst ` set P"
  shows "worktrees_ok P (T @ [(t, p, c, False)])"
  using assms by (auto simp: worktrees_ok_def is_root_of_def)

lemma worktrees_ok_project:
  assumes ok: "worktrees_ok P T" and new: "t \<notin> fst ` set T" "c \<notin> (\<lambda>(i, p, c, r). c) ` set T"
    and p: "p \<notin> fst ` set P"
  shows "worktrees_ok (P @ [(p, w, d)]) (T @ [(t, p, c, True)])"
proof -
  have none: "tally (is_root_of p) T = 0"
    unfolding tally_0_set
  proof
    fix x assume x: "x \<in> set T"
    obtain i q c r where e: "x = (i, q, c, r)" by (cases x)
    have "\<forall>(i, p, c, r)\<in>set T. p \<in> fst ` set P" using ok by (simp add: worktrees_ok_def)
    then have "q \<in> fst ` set P" using x e by fast
    then show "\<not> is_root_of p x" using p by (auto simp: is_root_of_def e)
  qed
  have "tally (is_root_of q) (T @ [(t, p, c, True)]) = 1" if "(q, v, e) \<in> set (P @ [(p, w, d)])" for q v e
  proof (cases "q = p")
    case True
    then show ?thesis using none by (simp add: is_root_of_def)
  next
    case False
    then show ?thesis using that ok by (auto simp: worktrees_ok_def is_root_of_def)
  qed
  then show ?thesis using ok new none by (auto simp: worktrees_ok_def)
qed

lemma insert_project_row_Inr:
  assumes "insert_project_row p st = Inr st1"
  shows "workspace_keys st1 = workspace_keys st" "worktree_keys st1 = worktree_keys st"
    "project_keys st1 = project_keys st @ [(pj_id p, pj_workspace_id p, pj_canonical_repository_path p)]"
    "session_view st1 = session_view st" "pj_id p \<notin> fst ` set (project_keys st)"
    "pj_canonical_repository_path p \<notin> (\<lambda>(p, w, c). c) ` set (project_keys st)"
    "pj_workspace_id p \<in> fst ` set (workspace_keys st)"
proof -
  let ?st = "st\<lparr>db_projects := db_projects st @ [project.extend p \<lparr>pj_removal_generation = 0\<rparr>]\<rparr>"
  have c: "pj_id p \<notin> pj_id ` set (db_projects st)"
    "pj_canonical_repository_path p \<notin> pj_canonical_repository_path ` set (db_projects st)"
    "pj_workspace_id p \<in> ws_id ` set (db_workspaces st)"
    using assms by (auto simp: insert_project_row_def list_ex_iff split: if_splits intro: rev_image_eqI)
  have b: "bump_workspace (pj_workspace_id p) ?st = Inr st1"
    using assms by (auto simp: insert_project_row_def split: if_splits)
  have "table_view st1 = table_view ?st" using b by (rule table_view_bump_workspace)
  then show "workspace_keys st1 = workspace_keys st" "worktree_keys st1 = worktree_keys st"
    "project_keys st1 = project_keys st @ [(pj_id p, pj_workspace_id p, pj_canonical_repository_path p)]"
    by (simp_all add: table_view_def workspace_keys_def project_keys_def worktree_keys_def project.defs)
  show "session_view st1 = session_view st"
    using b by (auto simp: bump_workspace_def session_view_def split: if_splits)
  show "pj_id p \<notin> fst ` set (project_keys st)"
    "pj_canonical_repository_path p \<notin> (\<lambda>(p, w, c). c) ` set (project_keys st)"
    "pj_workspace_id p \<in> fst ` set (workspace_keys st)"
    using c by (simp_all add: project_keys_def workspace_keys_def image_image)
qed

lemma insert_worktree_row_Inr:
  assumes "insert_worktree_row w st = Inr st1"
  shows "workspace_keys st1 = workspace_keys st" "project_keys st1 = project_keys st"
    "worktree_keys st1 = worktree_keys st
       @ [(wt_id w, wt_project_id w, wt_canonical_path w, wt_is_root_checkout w)]"
    "db_sessions st1 = db_sessions st" "db_resumptions st1 = db_resumptions st"
    "db_profiles st1 = db_profiles st" "db_worktrees st1 = db_worktrees st @ [w]"
    "wt_id w \<notin> fst ` set (worktree_keys st)"
    "wt_canonical_path w \<notin> (\<lambda>(i, p, c, r). c) ` set (worktree_keys st)"
    "wt_project_id w \<in> fst ` set (project_keys st)"
proof -
  let ?st = "st\<lparr>db_worktrees := db_worktrees st @ [w]\<rparr>"
  have c: "wt_id w \<notin> wt_id ` set (db_worktrees st)"
    "wt_canonical_path w \<notin> wt_canonical_path ` set (db_worktrees st)"
    "wt_project_id w \<in> pj_id ` set (db_projects st)"
    using assms by (auto simp: insert_worktree_row_def list_ex_iff split: if_splits intro: rev_image_eqI)
  have b: "bump_project (wt_project_id w) ?st = Inr st1"
    using assms by (auto simp: insert_worktree_row_def split: if_splits)
  have "table_view st1 = table_view ?st" using b by (rule table_view_bump_project)
  then show "workspace_keys st1 = workspace_keys st" "project_keys st1 = project_keys st"
    "worktree_keys st1 = worktree_keys st
       @ [(wt_id w, wt_project_id w, wt_canonical_path w, wt_is_root_checkout w)]"
    by (simp_all add: table_view_def workspace_keys_def project_keys_def worktree_keys_def)
  show "db_sessions st1 = db_sessions st" "db_resumptions st1 = db_resumptions st"
    "db_profiles st1 = db_profiles st" "db_worktrees st1 = db_worktrees st @ [w]"
    using b by (auto simp: bump_project_def split: if_splits)
  show "wt_id w \<notin> fst ` set (worktree_keys st)"
    "wt_canonical_path w \<notin> (\<lambda>(i, p, c, r). c) ` set (worktree_keys st)"
    "wt_project_id w \<in> fst ` set (project_keys st)"
    using c by (simp_all add: project_keys_def worktree_keys_def image_image)
qed

lemma insert_project_inv:
  assumes inv: "store_inv st" and ok: "insert_project now p w r st = Inr (x, st')"
  shows "store_inv st'"
proof -
  obtain st1 st2 where st1: "insert_project_row (registered_project now p r) st = Inr st1"
    and st2: "insert_worktree_row (root_worktree now p w r) st1 = Inr st2"
    and st': "st' = insert_entity_audit ''project_registered'' (ProjectEntity p) st2"
    using ok unfolding insert_project_def by (elim bind_resultE) simp
  note a = insert_project_row_Inr [OF st1] and b = insert_worktree_row_Inr [OF st2]
  have "projects_ok (workspace_keys st) (project_keys st1)"
    using inv a(5-7) unfolding a(3) by (auto simp: store_inv_def tables_inv_def projects_ok_def)
  moreover have "worktrees_ok (project_keys st1) (worktree_keys st2)"
    using worktrees_ok_project [of "project_keys st" "worktree_keys st" w
        "rg_canonical_repository_path r" p] inv a(5) b(8,9)
    unfolding a(2,3) b(3) by (simp add: store_inv_def tables_inv_def registered_project_def root_worktree_def)
  ultimately have "tables_inv st2"
    using inv unfolding tables_inv_def store_inv_def a(1) b(1,2) by simp
  moreover have "session_inv st1" using inv a(4) by (simp add: store_inv_def session_inv_def)
  then have "session_inv st2"
    by (rule session_inv_worktrees) (use b \<open>session_inv st1\<close> in \<open>auto simp: references_ok_def dest: session_invD(3)\<close>)
  ultimately show ?thesis
    unfolding store_inv_def st' tables_inv_view [OF table_view_audit(2)] session_inv_view [OF store_view_audit(2)]
    by simp
qed

lemma insert_worktree_inv:
  assumes inv: "store_inv st" and ok: "insert_worktree now r st = Inr (x, st')"
  shows "store_inv st'"
proof -
  obtain st1 where st1: "insert_worktree_row (managed_worktree now r) st = Inr st1"
    and st': "st' = insert_entity_audit ''worktree_created'' (WorktreeEntity (nw_id r))
        (touch_project now (nw_project_id r) st1)"
    using ok unfolding insert_worktree_def insert_worktree_record_def Let_def
    by (elim bind_resultE) (auto elim!: bind_resultE)
  note b = insert_worktree_row_Inr [OF st1]
  have "worktrees_ok (project_keys st) (worktree_keys st1)"
    using worktrees_ok_insert [of "project_keys st" "worktree_keys st"] inv b(8-10)
    unfolding b(3) by (simp add: store_inv_def tables_inv_def managed_worktree_def)
  then have "tables_inv st1" using inv unfolding tables_inv_def store_inv_def b(1,2) by simp
  moreover have "session_inv st" using inv by (simp add: store_inv_def)
  then have "session_inv st1"
    by (rule session_inv_worktrees) (use b \<open>session_inv st\<close> in \<open>auto simp: references_ok_def dest: session_invD(3)\<close>)
  moreover have "store_view st' = store_view st1" unfolding st' by (simp add: store_view_def)
  ultimately show ?thesis
    using session_inv_view tables_inv_view store_view_table unfolding store_inv_def by metis
qed

end
