(* ===== verification/Store_Consistency.thy ===== *)
theory Store_Consistency
  imports Database
begin

text \<open>
  The commands that change or remove Workspaces, Projects and Worktrees keep the invariant of the
  store, and with the other commands (\<open>Session_Invariant\<close>, \<open>Database\<close>) so does every sequence of
  commands of the database thread. From it follow the properties of the store: what a client
  reads is consistent whatever commands ran, and a removal takes away exactly what it names.
\<close>

section \<open>Commands that change a row\<close>
lemma store_inv_view: "store_view st1 = store_view st \<Longrightarrow> store_inv st1 \<longleftrightarrow> store_inv st"
  using session_inv_view [of st1 st] tables_inv_view [OF store_view_table, of st1 st]
  by (simp add: store_inv_def)

lemma store_inv_frame: "store_inv st \<Longrightarrow> store_view st1 = store_view st \<Longrightarrow> store_inv st1"
  using store_inv_view by blast

lemma store_view_project_rows:
  assumes "\<And>p. P p \<Longrightarrow> pj_id (f p) = pj_id p" "\<And>p. P p \<Longrightarrow> pj_workspace_id (f p) = pj_workspace_id p"
    "\<And>p. P p \<Longrightarrow> pj_canonical_repository_path (f p) = pj_canonical_repository_path p"
  shows "store_view (st\<lparr>db_projects := update_where P f (db_projects st)\<rparr>) = store_view st"
  using assms
  by (auto simp: store_view_def session_view_def table_view_def workspace_keys_def project_keys_def
      worktree_keys_def update_where_def)

lemma rename_project_inv:
  assumes inv: "store_inv st" and ok: "rename_project now i name st = Inr (x, st')"
  shows "store_inv st'"
proof -
  let ?st = "\<lambda>n. insert_entity_audit ''project_renamed'' (ProjectEntity i)
             (st\<lparr>db_projects := update_where (\<lambda>p. pj_id p = i)
                 (\<lambda>p. p\<lparr>pj_name := n, pj_last_activity_at := now\<rparr>) (db_projects st)\<rparr>)"
  obtain n where "bind_result (load_project (?st n) i) (\<lambda>p. Inr (p, ?st n)) = Inr (x, st')"
    using ok unfolding rename_project_def Let_def
    by (elim bind_resultE) (simp only: split: if_split_asm, simp_all)
  then have st': "st' = ?st n" by (elim bind_resultE) simp
  have "store_view (?st n) = store_view st"
    unfolding store_view_audit by (rule store_view_project_rows) simp_all
  then show ?thesis unfolding st' by (rule store_inv_frame [OF inv])
qed

lemma store_view_update_worktree:
  assumes "update_worktree i P f st = Inr (c, st1)"
    and "\<And>w. wt_id (f w) = wt_id w" "\<And>w. wt_project_id (f w) = wt_project_id w"
      "\<And>w. wt_canonical_path (f w) = wt_canonical_path w"
      "\<And>w. wt_is_root_checkout (f w) = wt_is_root_checkout w"
  shows "store_view st1 = store_view st"
  using table_view_update_worktree [OF assms] view_update_worktree [OF assms(1)] assms(2)
  by (simp only: store_view_def)

lemma store_view_touch_project [simp]: "store_view (touch_project now p st) = store_view st"
  by (simp add: store_view_def)

lemma store_view_touch_owner [simp]: "store_view (touch_owner now w st) = store_view st"
  by (simp add: touch_owner_def split: option.splits)

lemma rename_worktree_inv:
  assumes inv: "store_inv st" and ok: "rename_worktree now i name st = Inr (x, st')"
  shows "store_inv st'"
proof -
  obtain n c st1 where u: "update_worktree i (\<lambda>w. wt_status w \<noteq> WtRemoved)
            (\<lambda>w. w\<lparr>wt_name := n, wt_last_activity_at := now\<rparr>) st = Inr (c, st1)"
    and r: "(if \<not> c then Inl (WorktreeRemovedOrMissing i)
          else bind_result (load_worktree (insert_entity_audit ''worktree_renamed'' (WorktreeEntity i)
                  (touch_owner now i st1)) i) (\<lambda>w. Inr (w, insert_entity_audit ''worktree_renamed'' (WorktreeEntity i)
                  (touch_owner now i st1)))) = Inr (x, st')"
    using ok unfolding rename_worktree_def Let_def
    by (elim bind_resultE) (simp only: split: if_split_asm, simp, elim bind_resultE, auto)
  have "store_view st' = store_view st1"
    using r by (cases c) (auto elim!: bind_resultE)
  also have "\<dots> = store_view st" by (rule store_view_update_worktree [OF u]) simp_all
  finally show ?thesis by (rule store_inv_frame [OF inv])
qed

lemma mark_worktree_removed_inv:
  assumes inv: "store_inv st" and ok: "mark_worktree_removed now i st = Inr (x, st')"
  shows "store_inv st'"
  using ok unfolding mark_worktree_removed_def
proof (elim bind_resultE)
  fix y
  assume u: "update_worktree i (\<lambda>w. \<not> wt_is_root_checkout w \<and> wt_status w = WtActive)
         (\<lambda>w. w\<lparr>wt_status := WtRemoved, wt_removed_at := Some now, wt_last_activity_at := now\<rparr>) st = Inr y"
    and r: "(case y of (changed, st1) \<Rightarrow>
        if \<not> changed then Inl (NotActiveManaged i)
        else bind_result (load_worktree st1 i) (\<lambda>w.
             Inr (w, insert_entity_audit ''worktree_removed'' (WorktreeEntity i)
                       (touch_project now (wt_project_id w) st1)))) = Inr (x, st')"
  obtain c st1 where y: "y = (c, st1)" by (cases y)
  have "store_view st' = store_view st1"
    using r unfolding y by (cases c) (auto elim!: bind_resultE)
  also have "store_view st1 = store_view st"
    by (rule store_view_update_worktree [OF u [unfolded y]]) simp_all
  finally show ?thesis by (rule store_inv_frame [OF inv])
qed

lemma mark_worktree_missing_inv:
  assumes inv: "store_inv st" and ok: "mark_worktree_missing now i st = Inr (x, st')"
  shows "store_inv st'"
  using ok unfolding mark_worktree_missing_def
proof (elim bind_resultE)
  fix y
  assume u: "update_worktree i (\<lambda>w. wt_status w = WtActive)
         (\<lambda>w. w\<lparr>wt_status := WtMissing, wt_last_activity_at := now\<rparr>) st = Inr y"
    and r: "(case y of (changed, st1) \<Rightarrow>
        if \<not> changed then Inl (WorktreeNotActive i)
        else
          let st2 = insert_entity_audit ''worktree_missing'' (WorktreeEntity i) st1
          in bind_result (load_worktree st2 i) (\<lambda>w. Inr (w, st2))) = Inr (x, st')"
  obtain c st1 where y: "y = (c, st1)" by (cases y)
  have "store_view st' = store_view st1"
    using r unfolding y Let_def by (cases c) (auto elim!: bind_resultE)
  also have "store_view st1 = store_view st"
    by (rule store_view_update_worktree [OF u [unfolded y]]) simp_all
  finally show ?thesis by (rule store_inv_frame [OF inv])
qed

section \<open>Commands that remove rows\<close>

lemma bump_project_Inr:
  assumes "bump_project p st = Inr st1"
  shows "store_view st1 = store_view st" "db_worktrees st1 = db_worktrees st"
    "db_sessions st1 = db_sessions st" "db_workspaces st1 = db_workspaces st"
    "db_audit st1 = db_audit st"
    "map project.truncate (db_projects st1) = map project.truncate (db_projects st)"
  using table_view_bump_project [OF assms] view_bump [OF assms] assms
  by (auto simp: store_view_def bump_project_def update_where_def project.defs split: if_splits)

lemma bump_project_times_Inr:
  assumes "bump_project_times n p st = Inr st1"
  shows "store_view st1 = store_view st \<and> db_worktrees st1 = db_worktrees st
    \<and> db_sessions st1 = db_sessions st \<and> db_workspaces st1 = db_workspaces st
    \<and> db_audit st1 = db_audit st
    \<and> map project.truncate (db_projects st1) = map project.truncate (db_projects st)"
  using assms
proof (induction n arbitrary: st)
  case (Suc n)
  then obtain st2 where st2: "bump_project p st = Inr st2" "bump_project_times n p st2 = Inr st1"
    by (auto simp: bind_result_eq_Inr)
  show ?case using Suc.IH [OF st2(2)] bump_project_Inr [OF st2(1)] by simp
qed simp

lemma sorted_none: "bi_count (bound_ids (take REMOVAL_QUERY_LIMIT (sort_key k xs))) = 0 \<longleftrightarrow> xs = []"
proof -
  have "min (length (take REMOVAL_QUERY_LIMIT (sort_key k xs))) (2 ^ 32 - 1) = 0 \<longleftrightarrow> length xs = 0"
    by (auto simp: REMOVAL_QUERY_LIMIT_def min_def)
  then show ?thesis by (simp only: bound_ids_def bounded_ids.simps length_0_conv)
qed

lemma bump_project_times_exact:
  "bump_project_times n p st = Inr st1 \<Longrightarrow>
   st1 = st\<lparr>db_projects := update_where (\<lambda>r. pj_id r = p)
     (\<lambda>r. r\<lparr>pj_removal_generation := pj_removal_generation r + int n\<rparr>) (db_projects st)\<rparr>"
proof (induction n arbitrary: st)
  case 0
  then show ?case by (simp add: update_where_def)
next
  case (Suc n)
  then obtain st2 where "bump_project p st = Inr st2" "bump_project_times n p st2 = Inr st1"
    by (auto simp: bind_result_eq_Inr)
  then show ?case using Suc.IH [of st2]
    by (auto simp: bump_project_def update_where_def ac_simps split: if_splits)
qed

text \<open>What a granted removal does, statement by statement.\<close>

lemma remove_project_Inr:
  assumes ok: "remove_project x st = Inr (q, st')" and p: "pj_id (pr_project x) = p"
  obtains st0 st1 st2 where
    "q = pr_project x" "load_project_removal_state p st = Inr x" "is_removable x"
    "project_sessions p st = []"
    "bump_project_times (length (filter (\<lambda>l. in_project p st (pl_worktree_id l)) (db_pull_requests st))) p
       (st\<lparr>db_pull_requests := filter (\<lambda>l. \<not> in_project p st (pl_worktree_id l)) (db_pull_requests st)\<rparr>) = Inr st0"
    "bump_project_times (length (project_worktrees p st)) p
        (st0\<lparr>db_worktrees := filter (\<lambda>w. wt_project_id w \<noteq> p) (db_worktrees st),
             db_work_sources := filter (\<lambda>s. \<not> in_project p st (wk_worktree_id s)) (db_work_sources st)\<rparr>) = Inr st1"
    "bump_workspace (pj_workspace_id (pr_project x))
        (st1\<lparr>db_projects := filter (\<lambda>r. pj_id r \<noteq> p) (db_projects st1),
             db_associations := filter (\<lambda>a. as_project_id a \<noteq> p) (db_associations st1),
             db_work_sources := filter (\<lambda>s. wk_project_id s \<noteq> p) (db_work_sources st1)\<rparr>) = Inr st2"
    "st' = insert_entity_audit ''project_removed'' (ProjectEntity p) st2"
proof -
  let ?l = "\<lambda>st1. bind_result (delete_project_row p (pj_workspace_id (pr_project x)) st1) (\<lambda>st2.
           Inr (pr_project x, insert_entity_audit ''project_removed'' (ProjectEntity p) st2))"
  let ?k = "\<lambda>st0. bind_result (delete_project_worktrees p st0) ?l"
  obtain c where c: "load_project_removal_state p st = Inr c"
    and r: "(if c \<noteq> x \<or> \<not> is_removable c then Inl RemovalStale
      else bind_result (delete_project_links p st) ?k) = Inr (q, st')"
    using ok unfolding remove_project_def Let_def p by (rule bind_resultE)
  have x: "c = x" "is_removable x" using r by (auto split: if_splits)
  then have "bind_result (delete_project_links p st) ?k = Inr (q, st')" using r by simp
  then obtain st0 where 0: "delete_project_links p st = Inr st0" "?k st0 = Inr (q, st')"
    by (rule bind_resultE)
  from 0(2) obtain st1 where 1: "delete_project_worktrees p st0 = Inr st1" "?l st1 = Inr (q, st')"
    by (rule bind_resultE)
  from 1(2) obtain st2 where 2: "delete_project_row p (pj_workspace_id (pr_project x)) st1 = Inr st2"
    "q = pr_project x" "st' = insert_entity_audit ''project_removed'' (ProjectEntity p) st2"
    by (rule bind_resultE) simp
  note links = 0(1) [unfolded delete_project_links_def]
  have same: "db_worktrees st0 = db_worktrees st" "db_sessions st0 = db_sessions st"
    "db_work_sources st0 = db_work_sources st"
    unfolding bump_project_times_exact [OF links] by simp_all
  have here: "in_project p st0 i = in_project p st i" "project_worktrees p st0 = project_worktrees p st"
    "project_sessions p st0 = project_sessions p st" for i
    by (simp_all add: in_project_def project_worktrees_def project_sessions_def same)
  have "project_sessions p st = []"
    "bump_project_times (length (project_worktrees p st)) p
        (st0\<lparr>db_worktrees := filter (\<lambda>w. wt_project_id w \<noteq> p) (db_worktrees st),
             db_work_sources := filter (\<lambda>s. \<not> in_project p st (wk_worktree_id s)) (db_work_sources st)\<rparr>) = Inr st1"
    using 1(1) unfolding delete_project_worktrees_def here same by (simp_all split: if_splits)
  moreover have "bump_workspace (pj_workspace_id (pr_project x))
        (st1\<lparr>db_projects := filter (\<lambda>r. pj_id r \<noteq> p) (db_projects st1),
             db_associations := filter (\<lambda>a. as_project_id a \<noteq> p) (db_associations st1),
             db_work_sources := filter (\<lambda>s. wk_project_id s \<noteq> p) (db_work_sources st1)\<rparr>) = Inr st2"
    using 2(1) unfolding delete_project_row_def by (simp split: if_splits)
  ultimately show thesis using that c x 2(2,3) links by blast
qed

lemma filter_other_update: "(\<And>r. k (f r) = k r) \<Longrightarrow>
  filter (\<lambda>r. k r \<noteq> p) (update_where (\<lambda>r. k r = p) f xs) = filter (\<lambda>r. k r \<noteq> p) xs"
  by (induction xs) (auto simp: update_where_def)

lemmas filter_other_projects = filter_other_update [of pj_id]

text \<open>The store after it.\<close>

lemma remove_project_store:
  assumes ok: "remove_project x st = Inr (q, st')" and p: "pj_id (pr_project x) = p"
  shows "st' = insert_entity_audit ''project_removed'' (ProjectEntity p)
    (st\<lparr>db_worktrees := filter (\<lambda>w. wt_project_id w \<noteq> p) (db_worktrees st),
        db_projects := filter (\<lambda>r. pj_id r \<noteq> p) (db_projects st),
        db_workspaces := update_where (\<lambda>r. ws_id r = pj_workspace_id (pr_project x))
          (\<lambda>r. r\<lparr>ws_removal_generation := ws_removal_generation r + 1\<rparr>) (db_workspaces st),
        db_associations := filter (\<lambda>a. as_project_id a \<noteq> p) (db_associations st),
        db_work_sources := filter (\<lambda>s. \<not> in_project p st (wk_worktree_id s) \<and> wk_project_id s \<noteq> p)
          (db_work_sources st),
        db_pull_requests := filter (\<lambda>l. \<not> in_project p st (pl_worktree_id l)) (db_pull_requests st)\<rparr>)"
proof (rule remove_project_Inr [OF ok p])
  fix st0 st1 st2
  assume b0: "bump_project_times (length (filter (\<lambda>l. in_project p st (pl_worktree_id l)) (db_pull_requests st))) p
       (st\<lparr>db_pull_requests := filter (\<lambda>l. \<not> in_project p st (pl_worktree_id l)) (db_pull_requests st)\<rparr>) = Inr st0"
    and b1: "bump_project_times (length (project_worktrees p st)) p
        (st0\<lparr>db_worktrees := filter (\<lambda>w. wt_project_id w \<noteq> p) (db_worktrees st),
             db_work_sources := filter (\<lambda>s. \<not> in_project p st (wk_worktree_id s)) (db_work_sources st)\<rparr>) = Inr st1"
    and b2: "bump_workspace (pj_workspace_id (pr_project x))
        (st1\<lparr>db_projects := filter (\<lambda>r. pj_id r \<noteq> p) (db_projects st1),
             db_associations := filter (\<lambda>a. as_project_id a \<noteq> p) (db_associations st1),
             db_work_sources := filter (\<lambda>s. wk_project_id s \<noteq> p) (db_work_sources st1)\<rparr>) = Inr st2"
    and st': "st' = insert_entity_audit ''project_removed'' (ProjectEntity p) st2"
  note s0 = bump_project_times_exact [OF b0] and s1 = bump_project_times_exact [OF b1]
  have s2: "st2 = (st1\<lparr>db_projects := filter (\<lambda>r. pj_id r \<noteq> p) (db_projects st1),
             db_associations := filter (\<lambda>a. as_project_id a \<noteq> p) (db_associations st1),
             db_work_sources := filter (\<lambda>s. wk_project_id s \<noteq> p) (db_work_sources st1)\<rparr>)
      \<lparr>db_workspaces := update_where (\<lambda>r. ws_id r = pj_workspace_id (pr_project x))
          (\<lambda>r. r\<lparr>ws_removal_generation := ws_removal_generation r + 1\<rparr>) (db_workspaces st1)\<rparr>"
    using b2 by (auto simp: bump_workspace_def split: if_splits)
  have "db_projects st2 = filter (\<lambda>r. pj_id r \<noteq> p) (db_projects st)"
  proof -
    have "filter (\<lambda>r. pj_id r \<noteq> p) (db_projects st1) = filter (\<lambda>r. pj_id r \<noteq> p) (db_projects st0)"
      using s1 filter_other_projects [of "\<lambda>r. r\<lparr>pj_removal_generation := pj_removal_generation r
        + int (length (project_worktrees p st))\<rparr>" p "db_projects st0"] by simp
    also have "\<dots> = filter (\<lambda>r. pj_id r \<noteq> p) (db_projects st)"
      using s0 filter_other_projects [of "\<lambda>r. r\<lparr>pj_removal_generation := pj_removal_generation r
        + int (length (filter (\<lambda>l. in_project p st (pl_worktree_id l)) (db_pull_requests st)))\<rparr>" p "db_projects st"]
      by simp
    finally show ?thesis unfolding s2 by simp
  qed
  moreover have "db_work_sources st2 = filter (\<lambda>s. \<not> in_project p st (wk_worktree_id s) \<and> wk_project_id s \<noteq> p)
      (db_work_sources st)"
    unfolding s2 s1 by (simp add: conj_commute)
  moreover have "db_worktrees st2 = filter (\<lambda>w. wt_project_id w \<noteq> p) (db_worktrees st)"
    "db_associations st2 = filter (\<lambda>a. as_project_id a \<noteq> p) (db_associations st)"
    "db_pull_requests st2 = filter (\<lambda>l. \<not> in_project p st (pl_worktree_id l)) (db_pull_requests st)"
    "db_workspaces st2 = update_where (\<lambda>r. ws_id r = pj_workspace_id (pr_project x))
          (\<lambda>r. r\<lparr>ws_removal_generation := ws_removal_generation r + 1\<rparr>) (db_workspaces st)"
    "db_profiles st2 = db_profiles st" "db_sessions st2 = db_sessions st"
    "db_resumptions st2 = db_resumptions st" "db_audit st2 = db_audit st"
    unfolding s2 s1 s0 by simp_all
  ultimately show ?thesis
    unfolding st' by (intro arg_cong [where f = "insert_entity_audit _ _"] store.equality) simp_all
qed

lemma tally_filter_other:
  "(\<And>x. P x \<Longrightarrow> Q x) \<Longrightarrow> tally P (filter Q xs) = tally P xs"
  by (induction xs) auto

lemma map_filter_eq: "(\<And>x. x \<in> set xs \<Longrightarrow> P x = Q (f x)) \<Longrightarrow> map f (filter P xs) = filter Q (map f xs)"
  by (induction xs) auto

lemma tables_drop_project:
  assumes P: "projects_ok W P" and T: "worktrees_ok P T"
  shows "projects_ok W (filter (\<lambda>(q, w, c). q \<noteq> p) P)"
    and "worktrees_ok (filter (\<lambda>(q, w, c). q \<noteq> p) P) (filter (\<lambda>(i, q, c, r). q \<noteq> p) T)"
proof -
  show "projects_ok W (filter (\<lambda>(q, w, c). q \<noteq> p) P)"
    using P by (auto simp: projects_ok_def distinct_map_filter)
  have "tally (is_root_of q) (filter (\<lambda>(i, q, c, r). q \<noteq> p) T) = 1"
    if "(q, w, c) \<in> set P" "q \<noteq> p" for q w c
  proof -
    have "tally (is_root_of q) (filter (\<lambda>(i, q, c, r). q \<noteq> p) T) = tally (is_root_of q) T"
      by (rule tally_filter_other) (use that in \<open>auto simp: is_root_of_def\<close>)
    then show ?thesis using T that by (auto simp: worktrees_ok_def)
  qed
  moreover have "distinct (map fst (filter (\<lambda>(i, q, c, r). q \<noteq> p) T))"
    "distinct (map (\<lambda>(i, p, c, r). c) (filter (\<lambda>(i, q, c, r). q \<noteq> p) T))"
    using T by (simp_all add: worktrees_ok_def distinct_map_filter)
  moreover have "q \<in> fst ` set (filter (\<lambda>(q, w, c). q \<noteq> p) P)"
    if "(i, q, c, r) \<in> set T" "q \<noteq> p" for i q c r
  proof -
    have "q \<in> fst ` set P" using T that(1) by (auto simp: worktrees_ok_def)
    then show ?thesis using that(2) by force
  qed
  ultimately show "worktrees_ok (filter (\<lambda>(q, w, c). q \<noteq> p) P) (filter (\<lambda>(i, q, c, r). q \<noteq> p) T)"
    unfolding worktrees_ok_def by auto
qed

lemma project_sessions_none:
  "project_sessions p st = [] \<longleftrightarrow>
     (\<forall>s\<in>set (db_sessions st). \<forall>w\<in>set (db_worktrees st). wt_project_id w = p \<longrightarrow> se_worktree_id s \<noteq> wt_id w)"
  unfolding project_sessions_def filter_empty_conv list_ex_iff by metis

lemma store_view_links [simp]:
  "store_view (st\<lparr>db_associations := as\<rparr>) = store_view st"
  "store_view (st\<lparr>db_work_sources := ws\<rparr>) = store_view st"
  "store_view (st\<lparr>db_pull_requests := ls\<rparr>) = store_view st"
  by (simp_all add: store_view_def session_view_def table_view_def workspace_keys_def project_keys_def
      worktree_keys_def)

lemma remove_project_inv:
  assumes inv: "store_inv st" and ok: "remove_project x st = Inr (q, st')"
  shows "store_inv st'"
proof -
  let ?p = "pj_id (pr_project x)"
  let ?st = "st\<lparr>db_worktrees := filter (\<lambda>w. wt_project_id w \<noteq> ?p) (db_worktrees st)\<rparr>"
  let ?ws = "update_where (\<lambda>r. ws_id r = pj_workspace_id (pr_project x))
          (\<lambda>r. r\<lparr>ws_removal_generation := ws_removal_generation r + 1\<rparr>) (db_workspaces st)"
  let ?st2 = "?st\<lparr>db_projects := filter (\<lambda>r. pj_id r \<noteq> ?p) (db_projects st), db_workspaces := ?ws\<rparr>"
  have none: "project_sessions ?p st = []" using remove_project_Inr [OF ok refl] by blast
  have k: "workspace_keys ?st2 = workspace_keys st"
    "project_keys ?st2 = filter (\<lambda>(q, w, c). q \<noteq> ?p) (project_keys st)"
    "worktree_keys ?st2 = filter (\<lambda>(i, q, c, r). q \<noteq> ?p) (worktree_keys st)"
    by (simp_all add: workspace_keys_def project_keys_def worktree_keys_def filter_map o_def update_where_def)
  have "tables_inv ?st2"
    using inv tables_drop_project [of "workspace_keys st" "project_keys st" "worktree_keys st" ?p]
    unfolding store_inv_def tables_inv_def k by blast
  moreover have si: "session_inv st" using inv by (simp add: store_inv_def)
  then have "session_inv ?st"
  proof (rule session_inv_worktrees)
    fix s assume s: "s \<in> set (db_sessions st)"
    have "se_worktree_id s \<in> wt_id ` set (db_worktrees st)"
      using session_invD(3) [OF si s] by (simp add: references_ok_def)
    then show "se_worktree_id s \<in> wt_id ` set (db_worktrees ?st)"
      using none s by (auto simp: project_sessions_none)
  qed simp_all
  then have "session_inv ?st2" by (simp add: session_inv_def session_view_def)
  ultimately have "store_inv ?st2" by (simp add: store_inv_def)
  moreover have "\<exists>A B C. st' = insert_entity_audit ''project_removed'' (ProjectEntity ?p)
      (?st2\<lparr>db_associations := A, db_work_sources := B, db_pull_requests := C\<rparr>)"
    unfolding remove_project_store [OF ok refl] by (intro exI) simp
  ultimately show ?thesis by (elim exE) (rule store_inv_frame, simp_all)
qed

lemma insert_sourced_worktree_inv:
  assumes inv: "store_inv st" and ok: "insert_sourced_worktree now r source st = Inr (x, st')"
  shows "store_inv st'"
proof -
  obtain w st1 s where st1: "insert_worktree_record now r st = Inr (w, st1)"
    and st': "st' = insert_entity_audit ''worktree_created_from_issue'' (WorktreeEntity (nw_id r))
        (st1\<lparr>db_work_sources := db_work_sources st1 @ [s]\<rparr>)"
    using ok by (auto simp: insert_sourced_worktree_def Let_def bind_result_eq_Inr split: if_splits)
  have "insert_worktree now r st
      = Inr (w, insert_entity_audit ''worktree_created'' (WorktreeEntity (nw_id r)) st1)"
    using st1 by (simp add: insert_worktree_def)
  then have "store_inv (insert_entity_audit ''worktree_created'' (WorktreeEntity (nw_id r)) st1)"
    by (rule insert_worktree_inv [OF inv])
  then show ?thesis by (rule store_inv_frame) (simp add: st')
qed

lemma set_github_association_view: "set_github_association now i remote st = Inr (a, st') \<Longrightarrow>
  store_view st' = store_view st"
  by (auto simp: set_github_association_def Let_def bind_result_eq_Inr)

lemma clear_github_association_view: "clear_github_association i st = Inr (a, st') \<Longrightarrow>
  store_view st' = store_view st"
  by (auto simp: clear_github_association_def bind_result_eq_Inr split: if_splits)


lemma deletion_state_Inr:
  assumes "load_workspace_deletion_state i st = Inr x"
  obtains r where "r \<in> set (db_workspaces st)" "ws_id r = i"
    "wd_workspace x = workspace.truncate r" "wd_generation x = ws_removal_generation r"
    "wd_projects x = bound_ids (take REMOVAL_QUERY_LIMIT (sort_key project_uuid
             (map pj_id (filter (\<lambda>p. pj_workspace_id p = i) (db_projects st)))))"
    "wd_fallback x = (if ws_is_open r then fallback_workspace i st else None)"
proof -
  obtain r where r: "select_by ws_id i (db_workspaces st) = Some r"
    using assms by (auto simp: load_workspace_deletion_state_def split: option.splits)
  have "r \<in> set (db_workspaces st)" "ws_id r = i" using select_by_SomeD [OF r] by simp_all
  then show thesis using that [of r] assms r by (auto simp: load_workspace_deletion_state_def)
qed

definition without :: "workspace_id \<Rightarrow> store \<Rightarrow> store" where
  "without i st = st\<lparr>db_workspaces := filter (\<lambda>r. ws_id r \<noteq> i) (db_workspaces st)\<rparr>"

lemma delete_workspace_Inr:
  assumes ok: "delete_workspace now x st = Inr (q, st')" and i: "ws_id (wd_workspace x) = i"
  obtains (last) "load_workspace_deletion_state i st = Inr x"
      "\<forall>p\<in>set (db_projects st). pj_workspace_id p \<noteq> i" "wd_fallback x = None"
      "q = (wd_workspace x, None)"
      "st' = insert_entity_audit ''workspace_deleted'' (WorkspaceEntity i) (without i st)"
  | (fallback) f w where "load_workspace_deletion_state i st = Inr x"
      "\<forall>p\<in>set (db_projects st). pj_workspace_id p \<noteq> i" "wd_fallback x = Some f"
      "f \<in> ws_id ` set (db_workspaces (without i st))" "q = (wd_workspace x, Some w)"
      "st' = insert_entity_audit ''workspace_deleted'' (WorkspaceEntity i)
         (without i st\<lparr>db_workspaces := mark_open now f (db_workspaces (without i st))\<rparr>)"
proof -
  let ?k = "case wd_fallback x of
             None \<Rightarrow> Inr ((wd_workspace x, None),
                       insert_entity_audit ''workspace_deleted'' (WorkspaceEntity i) (without i st))
           | Some f \<Rightarrow>
               if \<not> list_ex (\<lambda>r. ws_id r = f) (db_workspaces (without i st)) then Inl FallbackChanged
               else bind_result (load_workspace (without i st\<lparr>db_workspaces := mark_open now f (db_workspaces (without i st))\<rparr>) f) (\<lambda>opened.
                    Inr ((wd_workspace x, Some opened),
                      insert_entity_audit ''workspace_deleted'' (WorkspaceEntity i)
                        (without i st\<lparr>db_workspaces := mark_open now f (db_workspaces (without i st))\<rparr>)))"
  obtain c where c: "load_workspace_deletion_state i st = Inr c"
    and r: "(if c \<noteq> x \<or> \<not> is_deletable c then Inl WorkspaceDeletionStale
      else if list_ex (\<lambda>p. pj_workspace_id p = i) (db_projects st) then Inl ConstraintFailed
      else ?k) = Inr (q, st')"
    using ok unfolding delete_workspace_def Let_def i without_def [symmetric] by (rule bind_resultE)
  have x: "c = x" "\<forall>p\<in>set (db_projects st). pj_workspace_id p \<noteq> i"
    using r by (auto simp: list_ex_iff split: if_splits)
  have k: "?k = Inr (q, st')" using r by (simp split: if_splits)
  show thesis
  proof (cases "wd_fallback x")
    case None
    then show thesis using last c x k by simp
  next
    case (Some f)
    then have f: "f \<in> ws_id ` set (db_workspaces (without i st))"
      using k by (auto simp: list_ex_iff split: if_splits)
    then have "bind_result (load_workspace (without i st\<lparr>db_workspaces := mark_open now f (db_workspaces (without i st))\<rparr>) f) (\<lambda>opened.
                    Inr ((wd_workspace x, Some opened),
                      insert_entity_audit ''workspace_deleted'' (WorkspaceEntity i)
                        (without i st\<lparr>db_workspaces := mark_open now f (db_workspaces (without i st))\<rparr>))) = Inr (q, st')"
      using k Some by (simp split: if_splits)
    then obtain w where "q = (wd_workspace x, Some w)"
      "st' = insert_entity_audit ''workspace_deleted'' (WorkspaceEntity i)
         (without i st\<lparr>db_workspaces := mark_open now f (db_workspaces (without i st))\<rparr>)"
      by (rule bind_resultE) auto
    then show thesis using fallback Some c x f by blast
  qed
qed

lemma workspaces_ok_drop:
  assumes W: "workspaces_ok W" and i: "(i, b) \<in> set W"
    and alone: "b \<Longrightarrow> filter (\<lambda>(j, b). j \<noteq> i) W = []"
  shows "workspaces_ok (filter (\<lambda>(j, b). j \<noteq> i) W)"
proof (cases b)
  case True
  then show ?thesis using alone by (simp add: workspaces_ok_def)
next
  case False
  have one: "tally snd W = 1" and d: "distinct (map fst W)"
    using W i by (auto simp: workspaces_ok_def split: if_splits)
  have ne: "fst x \<noteq> i" if "x \<in> set W" "snd x" for x
  proof
    assume "fst x = i"
    then have "(i, True) \<in> set W" using that by (cases x) simp
    then show False using eq_key_imp_eq_value [OF d, of i True b] i False by simp
  qed
  then have "filter snd (filter (\<lambda>(j, b). j \<noteq> i) W) = filter snd W"
    unfolding filter_filter by (intro filter_cong refl) (use ne in \<open>fastforce simp: split_beta\<close>)
  then have t: "tally snd (filter (\<lambda>(j, b). j \<noteq> i) W) = 1" using one by (simp add: tally_def)
  moreover have "filter (\<lambda>(j, b). j \<noteq> i) W \<noteq> []" using t by auto
  ultimately show ?thesis using d by (simp add: workspaces_ok_def distinct_map_filter)
qed

lemma projects_ok_drop:
  assumes "projects_ok W P" "\<forall>(p, w, c)\<in>set P. w \<noteq> i"
  shows "projects_ok (filter (\<lambda>(j, b). j \<noteq> i) W) P"
proof -
  have "w \<in> fst ` set (filter (\<lambda>(j, b). j \<noteq> i) W)" if "(p, w, c) \<in> set P" for p w c
  proof -
    have "w \<in> fst ` set W" "w \<noteq> i" using that assms by (auto simp: projects_ok_def)
    then show ?thesis by force
  qed
  then show ?thesis using assms(1) by (auto simp: projects_ok_def)
qed

lemma keys_without:
  "workspace_keys (without i st) = filter (\<lambda>(j, b). j \<noteq> i) (workspace_keys st)"
  "project_keys (without i st) = project_keys st" "worktree_keys (without i st) = worktree_keys st"
  "session_view (without i st) = session_view st"
  by (simp_all add: without_def workspace_keys_def project_keys_def worktree_keys_def session_view_def
      filter_map o_def)

lemma fallback_None: "fallback_workspace i st = None \<longleftrightarrow> filter (\<lambda>r. ws_id r \<noteq> i) (db_workspaces st) = []"
proof -
  have "sort_key fallback_order (filter (\<lambda>r. ws_id r \<noteq> i) (db_workspaces st)) = [] \<longleftrightarrow>
      filter (\<lambda>r. ws_id r \<noteq> i) (db_workspaces st) = []"
    by (simp only: length_0_conv [symmetric] length_sort)
  then show ?thesis
    by (cases "sort_key fallback_order (filter (\<lambda>r. ws_id r \<noteq> i) (db_workspaces st))")
      (simp_all add: fallback_workspace_def)
qed

lemma delete_workspace_inv:
  assumes inv: "store_inv st" and ok: "delete_workspace now x st = Inr (q, st')"
  shows "store_inv st'"
proof -
  let ?i = "ws_id (wd_workspace x)"
  let ?W = "filter (\<lambda>(j, b). j \<noteq> ?i) (workspace_keys st)"
  have W: "workspaces_ok (workspace_keys st)" and P: "projects_ok (workspace_keys st) (project_keys st)"
    and T: "worktrees_ok (project_keys st) (worktree_keys st)" and S: "session_inv st"
    using inv by (simp_all add: store_inv_def tables_inv_def)
  have P': "projects_ok ?W (project_keys st)" if "\<forall>p\<in>set (db_projects st). pj_workspace_id p \<noteq> ?i"
    by (rule projects_ok_drop [OF P]) (use that in \<open>auto simp: project_keys_def\<close>)
  from ok refl show ?thesis
  proof (cases rule: delete_workspace_Inr)
    case last
    obtain r where r: "r \<in> set (db_workspaces st)" "ws_id r = ?i"
      "wd_fallback x = (if ws_is_open r then fallback_workspace ?i st else None)"
      using last(1) by (rule deletion_state_Inr)
    have "workspaces_ok ?W"
    proof (rule workspaces_ok_drop [OF W])
      show "(?i, ws_is_open r) \<in> set (workspace_keys st)" using r by (force simp: workspace_keys_def)
      assume "ws_is_open r"
      then have "fallback_workspace ?i st = None" using r(3) last(3) by simp
      then show "?W = []" unfolding fallback_None by (auto simp: workspace_keys_def filter_empty_conv)
    qed
    then have "store_inv (without ?i st)"
      using P' [OF last(2)] T S
      by (simp add: store_inv_def tables_inv_def session_inv_def keys_without)
    then show ?thesis by (rule store_inv_frame) (simp add: last(5))
  next
    case (fallback f w)
    let ?st = "without ?i st\<lparr>db_workspaces := mark_open now f (db_workspaces (without ?i st))\<rparr>"
    have k: "workspace_keys ?st = map (\<lambda>(j, b). (j, j = f)) ?W"
    proof -
      have "workspace_keys ?st = map (\<lambda>(j, b). (j, j = f)) (workspace_keys (without ?i st))"
        using keys_mark_open [of now f "db_workspaces (without ?i st)"] by (simp add: workspace_keys_def)
      then show ?thesis by (simp only: keys_without(1))
    qed
    have f: "f \<in> fst ` set ?W"
      using fallback(4) unfolding keys_without(1) [symmetric] by (simp add: workspace_keys_def image_image)
    have d: "distinct (map fst ?W)" using W by (simp add: workspaces_ok_def distinct_map_filter)
    have "workspaces_ok (workspace_keys ?st)"
      unfolding k workspaces_ok_def fst_retag using d f tally_opened [OF d, of f] by auto
    moreover have "projects_ok (workspace_keys ?st) (project_keys st)"
      by (rule projects_ok_mono [OF P' [OF fallback(2)]]) (simp add: k del: set_filter)
    moreover have "project_keys ?st = project_keys st" "worktree_keys ?st = worktree_keys st"
      "session_view ?st = session_view st"
      by (simp_all add: without_def project_keys_def worktree_keys_def session_view_def)
    ultimately have "store_inv ?st"
      using T S by (simp add: store_inv_def tables_inv_def session_inv_def)
    then show ?thesis by (rule store_inv_frame) (simp add: fallback(6))
  qed
qed


section \<open>Every command\<close>

text \<open>What a Provider event may do to the conversation of a Session without breaking its lineage.\<close>

fun keeps_conversations :: "store \<Rightarrow> database_command \<Rightarrow> bool" where
  "keeps_conversations st (UpdateSessionStatus now i tr u) = conversation_kept st i u"
| "keeps_conversations st c = True"

lemma commits_Inr: "commits b r = Inr (c, st') \<longleftrightarrow> c = b \<and> (\<exists>x. r = Inr (x, st'))"
  by (auto simp: commits_def bind_result_eq_Inr)

lemma session_command_inv:
  "store_inv st \<Longrightarrow> table_view st1 = table_view st \<Longrightarrow> session_inv st1 \<Longrightarrow> store_inv st1"
  unfolding store_inv_def using tables_inv_view by blast

lemma execute_inv:
  assumes inv: "store_inv st" and kept: "keeps_conversations st c" and ok: "execute c st = Inr (b, st')"
  shows "store_inv st'"
proof -
  have s: "session_inv st" using inv by (simp add: store_inv_def)
  note cmd = session_command_inv [OF inv]
  show ?thesis
  proof (cases c)
    case (AddWorkspace now i name)
    then show ?thesis using ok insert_workspace_inv [OF inv] by (auto simp: commits_Inr)
  next
    case (OpenWorkspace now i)
    then show ?thesis using ok open_workspace_inv [OF inv] by (auto simp: commits_Inr)
  next
    case (DeleteWorkspace now x)
    then show ?thesis using ok delete_workspace_inv [OF inv] by (auto simp: commits_Inr simp del: split_paired_Ex)
  next
    case (AddProject now p w r)
    then show ?thesis using ok insert_project_inv [OF inv] by (auto simp: commits_Inr simp del: split_paired_Ex)
  next
    case (RenameProject now p name)
    then show ?thesis using ok rename_project_inv [OF inv] by (auto simp: commits_Inr)
  next
    case (RemoveProject x)
    then show ?thesis using ok remove_project_inv [OF inv] by (auto simp: commits_Inr)
  next
    case (UpsertProvider p)
    then obtain x where "upsert_provider p st = Inr (x, st')" using ok by (auto simp: commits_Inr)
    then show ?thesis using cmd [OF table_view_upsert upsert_provider_inv [OF s]] by blast
  next
    case (AddWorktree now r)
    then show ?thesis using ok insert_worktree_inv [OF inv] by (auto simp: commits_Inr)
  next
    case (AddSourcedWorktree now r source)
    then obtain x where "insert_sourced_worktree now r source st = Inr (x, st')" using ok by (auto simp: commits_Inr)
    then show ?thesis by (rule insert_sourced_worktree_inv [OF inv])
  next
    case (SetGitHubAssociation now p remote)
    then show ?thesis using ok set_github_association_view store_inv_frame [OF inv]
      by (auto simp: commits_Inr)
  next
    case (ClearGitHubAssociation p)
    then show ?thesis using ok clear_github_association_view store_inv_frame [OF inv]
      by (auto simp: bind_result_eq_Inr)
  next
    case (RenameWorktree now w name)
    then show ?thesis using ok rename_worktree_inv [OF inv] by (auto simp: commits_Inr)
  next
    case (MarkWorktreeRemoved now w)
    then show ?thesis using ok mark_worktree_removed_inv [OF inv] by (auto simp: commits_Inr)
  next
    case (MarkWorktreeMissing now w)
    then show ?thesis using ok mark_worktree_missing_inv [OF inv] by (auto simp: commits_Inr)
  next
    case (CreateSession now r)
    then obtain x where "insert_session now r st = Inr (x, st')" using ok by (auto simp: commits_Inr)
    then show ?thesis using cmd [OF table_view_insert_session insert_session_inv [OF s]] by blast
  next
    case (RenameSession now i name)
    then obtain x where "rename_session now i name st = Inr (x, st')" using ok by (auto simp: commits_Inr)
    then show ?thesis using cmd [OF table_view_rename_session rename_session_inv [OF s]] by blast
  next
    case (MarkSessionRunning now i pid)
    then obtain x where "mark_session_running now i pid st = Inr (x, st')" using ok by (auto simp: commits_Inr)
    then show ?thesis using cmd [OF table_view_mark_session_running mark_session_running_inv [OF s]] by blast
  next
    case (FinishSession now i l tr code failure)
    then obtain x where "finish_session now i l tr code failure st = Inr (x, st')" using ok by (auto simp: commits_Inr)
    then show ?thesis using cmd [OF table_view_finish_session finish_session_inv [OF s]] by blast
  next
    case (AcknowledgeAttention i ev a)
    then obtain x where "acknowledge_session_attention i ev a st = Inr (x, st')"
      using ok by (auto simp: bind_result_eq_Inr)
    then show ?thesis using cmd [OF table_view_acknowledge acknowledge_session_attention_inv [OF s]] by blast
  next
    case (UpdateSessionStatus now i tr u)
    then obtain x where "update_session_status now i tr u st = Inr (x, st')" using ok by (auto simp: commits_Inr)
    moreover have "conversation_kept st i u" using kept UpdateSessionStatus by simp
    ultimately show ?thesis
      using cmd [OF table_view_update_session_status update_session_status_inv [OF s]] by blast
  next
    case (MarkSessionLifecycleMissing now i failure)
    then obtain x where "mark_session_lifecycle_missing now i failure st = Inr (x, st')"
      using ok by (auto simp: bind_result_eq_Inr)
    then show ?thesis using cmd [OF table_view_missing mark_session_lifecycle_missing_inv [OF s]] by blast
  next
    case (DeleteSession x)
    then obtain y where "delete_session x st = Inr (y, st')" using ok by (auto simp: commits_Inr)
    then show ?thesis using cmd [OF table_view_delete_session delete_session_inv [OF s]] by blast
  next
    case Reconcile
    then obtain n where n: "reconcile_sessions st = Inr (n, st')" using ok by (auto simp: bind_result_eq_Inr)
    then have "session_inv st'" using reconcile_sessions_ok [OF s] by auto
    then show ?thesis using cmd [OF table_view_reconcile [OF n]] by blast
  next
    case (Audit action outcome details json)
    then obtain e where "st' = audit e st"
      using ok by (auto simp: commits_Inr insert_audit_event_def split: if_splits)
    then show ?thesis using inv store_inv_frame by simp
  qed
qed

inductive database_transition :: "database \<Rightarrow> database \<Rightarrow> bool" where
  database_command: "keeps_conversations (da_store d) c \<Longrightarrow> database_transition d (database_step d c)"

inductive_cases database_transitionE: "database_transition d d'"

lemma database_step_inv:
  assumes "store_inv (da_store d)" "keeps_conversations (da_store d) c"
  shows "store_inv (da_store (database_step d c))"
  using assms execute_inv [OF assms] by (simp add: database_step_def split: sum.split prod.split)

interpretation database: transition_system "\<lambda>d. store_inv (da_store d)" database_transition
    "\<lambda>d. store_inv (da_store d)"
  by unfold_locales (auto elim!: database_transitionE intro: database_step_inv)

end
