(* ===== verification/Store_Properties.thy ===== *)
theory Store_Properties
  imports Store_Consistency
begin

text \<open>
  The properties of the store and of the database thread, each with a witness on a sample store:
  one Workspace, one Project with its root Worktree, a finished Session and its resumption that
  is running.
\<close>

section \<open>A sample store\<close>

definition sample_row :: "uuid \<Rightarrow> session_lifecycle \<Rightarrow> u32 option \<Rightarrow> session" where
  "sample_row i l pid = \<lparr>se_id = SessionId i, se_worktree_id = WorktreeId 1,
     se_provider_profile_id = None, se_provider_kind = Claude, se_display_name = lit ''work'',
     se_status = \<lparr>st_lifecycle = l, st_activity = NoActivity, st_attention = None\<rparr>,
     se_process_id = pid, se_external_session_id = Some (lit ''conversation''),
     se_command = lit ''claude'', se_arguments_json = lit ''[]'', se_cwd = lit ''/repo'',
     se_created_at = 1, se_started_at = None, se_ended_at = None, se_last_activity_at = 1,
     se_last_seen_output_sequence = 0, se_exit_code = None, se_failure_reason = None\<rparr>"

definition sample_workspace :: workspace_row where
  "sample_workspace = \<lparr>ws_id = WorkspaceId 1, ws_name = lit ''main'', ws_created_at = 1,
     ws_updated_at = 1, ws_last_opened_at = Some 1, ws_is_open = True, ws_removal_generation = 1\<rparr>"

definition sample_project :: project_row where
  "sample_project = \<lparr>pj_id = ProjectId 1, pj_workspace_id = WorkspaceId 1, pj_name = lit ''repo'',
     pj_repository_path = lit ''/repo'', pj_canonical_repository_path = lit ''/repo'',
     pj_default_branch = None, pj_remote_url = None, pj_created_at = 1, pj_last_activity_at = 1,
     pj_removal_generation = 3\<rparr>"

definition sample_worktree :: worktree where
  "sample_worktree = \<lparr>wt_id = WorktreeId 1, wt_project_id = ProjectId 1,
     wt_name = lit ''Root checkout'', wt_path = lit ''/repo'', wt_canonical_path = lit ''/repo'',
     wt_branch = None, wt_base_ref = lit ''abc'', wt_base_commit = lit ''abc'',
     wt_is_root_checkout = True, wt_status = WtActive, wt_created_at = 1,
     wt_last_activity_at = 1, wt_removed_at = None\<rparr>"

definition sample_link_row :: resumption where
  "sample_link_row = \<lparr>predecessor = SessionId 1, successor = SessionId 2, rs_created_at = 2\<rparr>"

definition sample_store :: store where
  "sample_store = \<lparr>db_workspaces = [sample_workspace], db_projects = [sample_project],
     db_worktrees = [sample_worktree], db_profiles = [],
     db_sessions = [sample_row 1 Exited None, sample_row 2 Running (Some 42)],
     db_resumptions = [sample_link_row], db_audit = [],
     db_associations = [], db_work_sources = [], db_pull_requests = []\<rparr>"

lemmas sample_defs = sample_workspace_def sample_project_def sample_worktree_def sample_link_row_def
  sample_row_def

lemma sample_names: "name_check (lit ''work'')" "name_check (lit ''repo'')"
  by code_simp+

lemma sample_store_inv: "store_inv sample_store"
proof -
  have "tables_inv sample_store"
    by (simp add: tables_inv_def sample_store_def workspace_keys_def project_keys_def
        worktree_keys_def sample_defs workspaces_ok_def projects_ok_def worktrees_ok_def)
  moreover have "row_ok (sample_row 1 Exited None)" "row_ok (sample_row 2 Running (Some 42))"
    by (simp_all add: row_ok_def sample_row_def valid_status_def validate_def expected_reason_def)
  moreover have "chain_ok [sample_link_row]"
    by (simp add: chain_ok_def sample_link_row_def acyclic_def trancl_insert)
  moreover have "link_ok (db_sessions sample_store) sample_link_row"
    unfolding link_ok_def
    by (rule exI [of _ "sample_row 1 Exited None"], rule exI [of _ "sample_row 2 Running (Some 42)"])
      (simp add: sample_store_def sample_row_def sample_link_row_def lifecycle_allows_resume_def)
  moreover have "references_ok {WorktreeId 1} {} (sample_row i l pid)" for i l pid
    using sample_names by (simp add: references_ok_def sample_row_def)
  ultimately show ?thesis
    by (simp add: store_inv_def session_inv_def sessions_ok_def session_view_def sample_store_def)
      (simp add: sample_row_def sample_worktree_def)
qed

section \<open>The store stays consistent\<close>

lemma tally_map: "tally P (map f xs) = tally (\<lambda>x. P (f x)) xs"
  by (simp add: tally_def filter_map o_def)

lemma store_invD:
  assumes "store_inv st"
  shows "session_inv st"
    and "db_workspaces st \<noteq> [] \<Longrightarrow> tally ws_is_open (db_workspaces st) = 1"
    and "p \<in> set (db_projects st) \<Longrightarrow> \<exists>w\<in>set (db_workspaces st). ws_id w = pj_workspace_id p"
    and "p \<in> set (db_projects st) \<Longrightarrow>
      tally (\<lambda>w. wt_project_id w = pj_id p \<and> wt_is_root_checkout w) (db_worktrees st) = 1"
    and "w \<in> set (db_worktrees st) \<Longrightarrow> \<exists>p\<in>set (db_projects st). pj_id p = wt_project_id w"
    and "distinct (map pj_id (db_projects st))" "distinct (map wt_id (db_worktrees st))"
proof -
  have W: "workspaces_ok (workspace_keys st)" and P: "projects_ok (workspace_keys st) (project_keys st)"
    and T: "worktrees_ok (project_keys st) (worktree_keys st)"
    using assms by (simp_all add: store_inv_def tables_inv_def)
  show "session_inv st" using assms by (simp add: store_inv_def)
  show "db_workspaces st \<noteq> [] \<Longrightarrow> tally ws_is_open (db_workspaces st) = 1"
    using W by (simp add: workspaces_ok_def workspace_keys_def tally_map)
  show "p \<in> set (db_projects st) \<Longrightarrow> \<exists>w\<in>set (db_workspaces st). ws_id w = pj_workspace_id p"
    using P by (fastforce simp: projects_ok_def workspace_keys_def project_keys_def)
  show "p \<in> set (db_projects st) \<Longrightarrow>
      tally (\<lambda>w. wt_project_id w = pj_id p \<and> wt_is_root_checkout w) (db_worktrees st) = 1"
    using T by (fastforce simp: worktrees_ok_def worktree_keys_def project_keys_def tally_map)
  show "w \<in> set (db_worktrees st) \<Longrightarrow> \<exists>p\<in>set (db_projects st). pj_id p = wt_project_id w"
    using T by (fastforce simp: worktrees_ok_def worktree_keys_def project_keys_def)
  show "distinct (map pj_id (db_projects st))"
    using P by (simp add: projects_ok_def project_keys_def o_def)
  show "distinct (map wt_id (db_worktrees st))"
    using T by (simp add: worktrees_ok_def worktree_keys_def o_def)
qed

lemma session_worktree:
  "session_inv st \<Longrightarrow> s \<in> set (db_sessions st) \<Longrightarrow> \<exists>w\<in>set (db_worktrees st). wt_id w = se_worktree_id s"
  by (drule session_invD(3)) (auto simp: references_ok_def)

text \<open>C12: whatever commands of the model the database thread has run on a consistent store, failed
  ones included, every Session row can be read back and has its Worktree, every Worktree has its
  Project and every Project its Workspace and exactly one root checkout, and exactly one
  Workspace is open as soon as there is one. The hypothesis on the transitions excludes one kind of
  command: a Provider event that gives a resumed Session another conversation.\<close>

theorem store_stays_consistent:
  assumes "store_inv (da_store d0)" "database_transition\<^sup>*\<^sup>* d0 d"
  shows "(\<forall>s\<in>set (db_sessions (da_store d)). load_session_row (da_store d) (se_id s) = Inr s
           \<and> (\<exists>w\<in>set (db_worktrees (da_store d)). wt_id w = se_worktree_id s))
     \<and> (\<forall>w\<in>set (db_worktrees (da_store d)). \<exists>p\<in>set (db_projects (da_store d)). pj_id p = wt_project_id w)
     \<and> (\<forall>p\<in>set (db_projects (da_store d)).
           (\<exists>w\<in>set (db_workspaces (da_store d)). ws_id w = pj_workspace_id p)
           \<and> tally (\<lambda>w. wt_project_id w = pj_id p \<and> wt_is_root_checkout w) (db_worktrees (da_store d)) = 1)
     \<and> (db_workspaces (da_store d) \<noteq> [] \<longrightarrow> tally ws_is_open (db_workspaces (da_store d)) = 1)"
proof -
  have inv: "store_inv (da_store d)" using database.steps_inv [OF assms(2,1)] .
  note i = store_invD [OF inv]
  show ?thesis using i(2-5) session_worktree [OF i(1)] load_session_row_inv [OF i(1)] by auto
qed

definition sample_command :: database_command where
  "sample_command = RenameProject 5 (ProjectId 1) (lit ''other'')"

lemma sample_transition:
  "database_transition\<^sup>*\<^sup>* (database_open sample_store)
     (database_step (database_open sample_store) sample_command)"
  by (rule r_into_rtranclp, rule database_command) (simp add: sample_command_def)

theorem store_stays_consistent_witness:
  "tally (\<lambda>w. wt_project_id w = ProjectId 1 \<and> wt_is_root_checkout w)
     (db_worktrees (da_store (database_step (database_open sample_store) sample_command))) = 1"
proof -
  let ?d = "database_step (database_open sample_store) sample_command"
  have "project.truncate sample_project\<lparr>pj_name := lit ''other'', pj_last_activity_at := 5\<rparr>
      \<in> project.truncate ` set (db_projects (da_store ?d))"
  proof -
    have "validated_name (lit ''other'') = Inr (lit ''other'')" "name_check (lit ''other'')" by code_simp+
    then show ?thesis
      by (simp add: database_step_def database_open_def sample_command_def commits_def
          rename_project_def sample_store_def sample_project_def load_project_def select_by_simps
          select_by_def update_where_def Let_def insert_entity_audit_def audit_def project.defs)
  qed
  then obtain p where "p \<in> set (db_projects (da_store ?d))" "pj_id p = ProjectId 1"
    by (auto simp: sample_project_def project.defs)
  then show ?thesis
    using store_stays_consistent [OF _ sample_transition] sample_store_inv
    by (auto simp: database_open_def)
qed


section \<open>Lineage\<close>

text \<open>C13: on such a store the lineage of the Sessions always loads, up to its capacity, and for
  every Session the newest attempt is found: it is reached from the Session along the recorded
  resumptions, nothing resumed it, and it has the same Worktree, the same Provider and the same
  conversation.\<close>

theorem lineage_always_loads:
  assumes "store_inv (da_store d0)" "database_transition\<^sup>*\<^sup>* d0 d"
    and "length (db_resumptions (da_store d)) \<le> MAX_SNAPSHOT_SESSION_LINEAGE_LINKS"
    and "s \<in> set (db_sessions (da_store d))"
  shows "load_lineage (da_store d) = Inr (lineage_links (da_store d))
     \<and> (\<exists>leaf. load_lineage_leaf (da_store d) (se_id s) = Inr leaf
          \<and> leaf \<in> set (db_sessions (da_store d))
          \<and> (se_id s, se_id leaf)
               \<in> {(predecessor l, successor l) | l. l \<in> set (db_resumptions (da_store d))}\<^sup>*
          \<and> se_worktree_id leaf = se_worktree_id s \<and> se_provider_kind leaf = se_provider_kind s
          \<and> se_external_session_id leaf = se_external_session_id s
          \<and> \<not> list_ex (\<lambda>l. predecessor l = se_id leaf) (db_resumptions (da_store d)))"
proof -
  let ?st = "da_store d"
  have inv: "session_inv ?st" using database.steps_inv [OF assms(2,1)] by (simp add: store_inv_def)
  have load: "load_lineage ?st = Inr (lineage_links ?st)" by (rule load_lineage_inv [OF inv assms(3)])
  have s: "session_lookup ?st (se_id s) = Some s" using assms(4) session_lookup_inv [OF inv] by blast
  obtain j leaf where l: "load_lineage_leaf ?st (se_id s) = Inr leaf" "session_lookup ?st j = Some leaf"
    "\<forall>l\<in>set (lineage_links ?st). predecessor l \<noteq> j" "se_id s = j \<or> same_identity s leaf"
    "(se_id s, j) \<in> (link_rel (lineage_links ?st))\<^sup>*"
    using load_leaf_Inr [OF load [unfolded load_lineage_def] s] unfolding load_lineage_leaf_def by blast
  have leaf: "leaf \<in> set (db_sessions ?st)" "se_id leaf = j"
    using l(2) session_lookup_inv [OF inv] by blast+
  have "leaf = s \<or> same_identity s leaf"
    using l(4) leaf(2) only_row [OF inv assms(4) leaf(1)] by metis
  moreover have "\<not> list_ex (\<lambda>l. predecessor l = se_id leaf) (db_resumptions ?st)"
    using l(3) leaf(2) by (auto simp: list_ex_iff lineage_links_rows)
  moreover have "link_rel (lineage_links ?st) = {(predecessor l, successor l) | l. l \<in> set (db_resumptions ?st)}"
  proof -
    have "link_rel ls = (\<lambda>l. (predecessor l, successor l)) ` set ls" for ls by (auto simp: link_rel_def)
    then show ?thesis by (auto simp: lineage_links_rows image_image)
  qed
  then have "(se_id s, se_id leaf) \<in> {(predecessor l, successor l) | l. l \<in> set (db_resumptions ?st)}\<^sup>*"
    using l(5) leaf(2) by simp
  ultimately show ?thesis using load l(1) leaf(1) by (auto simp: same_identity_def)
qed

theorem lineage_always_loads_witness:
  "\<exists>leaf. load_lineage_leaf sample_store (SessionId 1) = Inr leaf
     \<and> \<not> list_ex (\<lambda>l. predecessor l = se_id leaf) (db_resumptions sample_store)"
proof -
  have d: "da_store (database_open sample_store) = sample_store" by (simp add: database_open_def)
  have "sample_row 1 Exited None \<in> set (db_sessions sample_store)" by (simp add: sample_store_def)
  moreover have "length (db_resumptions sample_store) \<le> MAX_SNAPSHOT_SESSION_LINEAGE_LINKS"
    by (simp add: sample_store_def MAX_SNAPSHOT_SESSION_LINEAGE_LINKS_def)
  moreover have "se_id (sample_row 1 Exited None) = SessionId 1" by (simp add: sample_row_def)
  ultimately show ?thesis
    using lineage_always_loads [of "database_open sample_store" "database_open sample_store"
        "sample_row 1 Exited None"] sample_store_inv unfolding d by (metis rtranclp.rtrancl_refl)
qed



section \<open>Restart\<close>

lemma reconcile_one_rows:
  assumes "reconcile_one i st = Inr st1"
  shows "map se_id (db_sessions st1) = map se_id (db_sessions st)
    \<and> (\<forall>s\<in>set (db_sessions st). se_id s \<noteq> i \<longrightarrow> s \<in> set (db_sessions st1))"
proof -
  obtain f where "db_sessions st1 = db_sessions (updated_session i f st)" "\<And>s. se_id (f s) = se_id s"
    using assms unfolding reconcile_one_def Let_def by (elim bind_resultE) (auto split: sum.splits)
  then show ?thesis by (auto simp: updated_session_def update_where_def)
qed

lemma reconcile_all_rows:
  "reconcile_all is st = Inr st1 \<Longrightarrow> map se_id (db_sessions st1) = map se_id (db_sessions st)
     \<and> (\<forall>s\<in>set (db_sessions st). se_id s \<notin> set is \<longrightarrow> s \<in> set (db_sessions st1))"
proof (induction "is" arbitrary: st)
  case (Cons i "is")
  then obtain st2 where st2: "reconcile_one i st = Inr st2" "reconcile_all is st2 = Inr st1"
    by (auto simp: bind_result_eq_Inr)
  show ?case using Cons.IH [OF st2(2)] reconcile_one_rows [OF st2(1)] by simp
qed simp

text \<open>C15: reconciling after a restart never fails on a consistent store: it leaves no Session
  active and none with a process, touches only the Sessions that were active, keeps every row, and
  a second run finds nothing to do.\<close>

theorem restart_reconciles:
  assumes "session_inv st"
  shows "\<exists>st1. reconcile_sessions st = Inr (length (active_ids st), st1)
     \<and> (\<forall>s\<in>set (db_sessions st1). \<not> lifecycle_is_active (st_lifecycle (se_status s)) \<and> se_process_id s = None)
     \<and> map se_id (db_sessions st1) = map se_id (db_sessions st)
     \<and> (\<forall>s\<in>set (db_sessions st). \<not> lifecycle_is_active (st_lifecycle (se_status s)) \<longrightarrow> s \<in> set (db_sessions st1))
     \<and> reconcile_sessions st1 = Inr (0, st1)"
proof -
  obtain st1 where st1: "reconcile_sessions st = Inr (length (active_ids st), st1)" "session_inv st1"
    "active_ids st1 = []" using reconcile_sessions_ok [OF assms] by blast
  then have all: "reconcile_all (active_ids st) st = Inr st1"
    unfolding reconcile_sessions_def by (elim bind_resultE) simp
  have idle: "\<not> lifecycle_is_active (st_lifecycle (se_status s))" if "s \<in> set (db_sessions st1)" for s
    using that st1(3) active_ids_iff [of "se_id s" st1] by auto
  moreover have "se_process_id s = None" if "s \<in> set (db_sessions st1)" for s
    using idle [OF that] session_invD(2) [OF st1(2) that] by (auto simp: row_ok_def lifecycle_is_active_def)
  moreover have "s \<in> set (db_sessions st1)"
    if s: "s \<in> set (db_sessions st)" and no: "\<not> lifecycle_is_active (st_lifecycle (se_status s))" for s
  proof -
    have "se_id s \<notin> set (active_ids st)" using s no only_row [OF assms s] active_ids_iff by metis
    then show ?thesis using reconcile_all_rows [OF all] s by blast
  qed
  moreover have "reconcile_sessions st1 = Inr (0, st1)" by (simp add: reconcile_sessions_def st1(3))
  ultimately show ?thesis using st1(1) reconcile_all_rows [OF all] by blast
qed

theorem restart_reconciles_witness:
  "\<exists>st1. reconcile_sessions sample_store = Inr (1, st1) \<and> reconcile_sessions st1 = Inr (0, st1)"
proof -
  have "length (active_ids sample_store) = 1"
    by (simp add: active_ids_def sample_store_def sample_row_def lifecycle_is_active_def)
  then show ?thesis using restart_reconciles [OF store_invD(1) [OF sample_store_inv]] by metis
qed

section \<open>Removal\<close>

lemma bump_workspace_Inr:
  assumes "bump_workspace w st = Inr st1"
  shows "db_sessions st1 = db_sessions st" "db_resumptions st1 = db_resumptions st"
    "db_worktrees st1 = db_worktrees st" "db_projects st1 = db_projects st"
    "map workspace.truncate (db_workspaces st1) = map workspace.truncate (db_workspaces st)"
  using assms by (auto simp: bump_workspace_def update_where_def workspace.defs split: if_splits)

lemma rows_other_audit [simp]:
  "db_worktrees (insert_entity_audit a e st) = db_worktrees st"
  "db_projects (insert_entity_audit a e st) = db_projects st"
  "db_workspaces (insert_entity_audit a e st) = db_workspaces st"
  "db_profiles (insert_entity_audit a e st) = db_profiles st"
  by (simp_all add: insert_entity_audit_def audit_def)

text \<open>C16: a removal that is granted takes away the Project, its Worktrees and what hangs on them
  (its GitHub association, the work sources and the pull request links) and nothing else: up to the
  generation of its Workspace and the audit row, every row of every table stays as it was. It is
  granted only when every Worktree was the root checkout or already removed and had no Session.\<close>

theorem project_removal_is_exact:
  assumes "remove_project x st = Inr (q, st')"
  shows "q = pr_project x
     \<and> st' = insert_entity_audit ''project_removed'' (ProjectEntity (pj_id q))
         (st\<lparr>db_worktrees := filter (\<lambda>w. wt_project_id w \<noteq> pj_id q) (db_worktrees st),
             db_projects := filter (\<lambda>p. pj_id p \<noteq> pj_id q) (db_projects st),
             db_workspaces := map (\<lambda>w. if ws_id w = pj_workspace_id q
                then w\<lparr>ws_removal_generation := ws_removal_generation w + 1\<rparr> else w) (db_workspaces st),
             db_associations := filter (\<lambda>a. as_project_id a \<noteq> pj_id q) (db_associations st),
             db_work_sources := filter (\<lambda>s. \<not> in_project (pj_id q) st (wk_worktree_id s)
                \<and> wk_project_id s \<noteq> pj_id q) (db_work_sources st),
             db_pull_requests := filter (\<lambda>l. \<not> in_project (pj_id q) st (pl_worktree_id l)) (db_pull_requests st)\<rparr>)
     \<and> (\<forall>w\<in>set (db_worktrees st). wt_project_id w = pj_id q \<longrightarrow>
            (wt_is_root_checkout w \<or> wt_status w = WtRemoved)
            \<and> (\<forall>s\<in>set (db_sessions st). se_worktree_id s \<noteq> wt_id w))"
proof -
  let ?p = "pj_id (pr_project x)"
  have q: "q = pr_project x"
    and x: "load_project_removal_state ?p st = Inr x" "is_removable x" "project_sessions ?p st = []"
    using remove_project_Inr [OF assms refl] by blast+
  have "filter (\<lambda>w. \<not> wt_is_root_checkout w \<and> wt_status w \<noteq> WtRemoved) (project_worktrees ?p st) = []"
  proof -
    have "bi_count (pr_managed_worktrees x) = 0" using x(2) by (simp add: is_removable_def)
    moreover have "pr_managed_worktrees x = bound_ids (removal_managed_worktree_ids ?p st)"
    proof -
      obtain r where "select_by pj_id ?p (db_projects st) = Some r"
        using x(1) by (auto simp: load_project_removal_state_def split: option.splits)
      from x(1) [unfolded load_project_removal_state_def this option.case sum.inject]
      show ?thesis by (metis project_removal_state.select_convs(5))
    qed
    ultimately show ?thesis
      unfolding removal_managed_worktree_ids_def by (simp only: sorted_none map_is_Nil_conv)
  qed
  then have "wt_is_root_checkout w \<or> wt_status w = WtRemoved"
    if "w \<in> set (db_worktrees st)" "wt_project_id w = ?p" for w
    using that by (auto simp: project_worktrees_def filter_empty_conv)
  moreover have "se_worktree_id s \<noteq> wt_id w"
    if "w \<in> set (db_worktrees st)" "wt_project_id w = ?p" "s \<in> set (db_sessions st)" for w s
    using x(3) that unfolding project_sessions_none by blast
  moreover note remove_project_store [OF assms refl, unfolded update_where_def]
  ultimately show ?thesis unfolding q by blast
qed

definition quiet_store :: store where
  "quiet_store = sample_store\<lparr>db_sessions := [], db_resumptions := []\<rparr>"

definition sample_removal :: project_removal_state where
  "sample_removal = \<lparr>pr_project = project.truncate sample_project, pr_descendant_generation = 3,
     pr_root_worktree_ids = [WorktreeId 1], pr_sessions = bound_ids [],
     pr_managed_worktrees = bound_ids [], pr_root_worktree_count = 1\<rparr>"

theorem project_removal_is_exact_witness:
  "\<exists>st'. remove_project sample_removal quiet_store = Inr (project.truncate sample_project, st')
     \<and> db_worktrees st' = []"
proof -
  have state: "load_project_removal_state (ProjectId 1) quiet_store = Inr sample_removal"
    by (simp add: load_project_removal_state_def quiet_store_def sample_store_def sample_removal_def
        sample_project_def sample_worktree_def select_by_def project_worktrees_def project_sessions_def
        removal_root_worktree_ids_def removal_session_ids_def removal_managed_worktree_ids_def)
  have "\<exists>st'. remove_project sample_removal quiet_store = Inr (project.truncate sample_project, st')"
    using state
    by (simp add: remove_project_def is_removable_def sample_removal_def bound_ids_def
        delete_project_links_def delete_project_worktrees_def delete_project_row_def project_worktrees_def project_sessions_def
        quiet_store_def sample_store_def sample_defs project.defs bump_project_def bump_workspace_def
        MAX_GENERATION_def update_where_def Let_def MAX_REMOVAL_BLOCKER_IDS_def)
  then obtain st' where ok: "remove_project sample_removal quiet_store = Inr (project.truncate sample_project, st')"
    by blast
  have "db_worktrees st' = filter (\<lambda>w. wt_project_id w \<noteq> ProjectId 1) (db_worktrees quiet_store)"
    using project_removal_is_exact [OF ok]
    by (simp add: sample_project_def project.defs insert_entity_audit_def audit_def)
  then show ?thesis using ok by (simp add: quiet_store_def sample_store_def sample_worktree_def)
qed

section \<open>Attention and deletion\<close>

text \<open>an acknowledgement changes the attention of one Session only when the event it names is
  the current one, still pending and of a kind the action acknowledges; otherwise the store stays
  as it was. Repeating it changes nothing.\<close>

theorem acknowledgement_is_exact:
  assumes "session_inv st" "acknowledge_session_attention i ev a st = Inr (r, st')"
  shows "(case r of
       None \<Rightarrow> st' = st
     | Some s' \<Rightarrow> \<exists>s e. s \<in> set (db_sessions st) \<and> se_id s = i \<and> st_attention (se_status s) = Some e
         \<and> ev_id e = ev \<and> ev_ack e = Pending \<and> acknowledgement_allowed a (ev_reason e)
         \<and> s' = s\<lparr>se_status := (se_status s)\<lparr>st_attention := Some (e\<lparr>ev_ack := Acknowledged\<rparr>)\<rparr>\<rparr>
         \<and> db_sessions st' = map (\<lambda>q. if q = s then s' else q) (db_sessions st)
         \<and> acknowledge_session_attention i ev a st' = Inr (None, st'))"
proof (cases r)
  case None
  then show ?thesis using acknowledge_session_attention_None [of i ev a st st'] assms(2) by simp
next
  case (Some s')
  then have ok: "acknowledge_session_attention i ev a st = Inr (Some s', st')" using assms(2) by simp
  obtain s e where s: "load_session_row st i = Inr s" and e: "st_attention (se_status s) = Some e"
    "ev_id e = ev" "ev_ack e = Pending" "acknowledgement_allowed a (ev_reason e)"
    and v: "store_view st' = store_view (updated_session i
       (\<lambda>q. q\<lparr>se_status := (se_status s)\<lparr>st_attention := Some (e\<lparr>ev_ack := Acknowledged\<rparr>)\<rparr>\<rparr>) st)"
    and l: "load_session_row st' i = Inr s'"
    using ok by (rule acknowledge_session_attention_Inr)
  let ?s = "s\<lparr>se_status := (se_status s)\<lparr>st_attention := Some (e\<lparr>ev_ack := Acknowledged\<rparr>)\<rparr>\<rparr>"
  have mem: "s \<in> set (db_sessions st)" "se_id s = i" using s load_session_row_inv [OF assms(1)] by blast+
  have other: "q \<noteq> s \<Longrightarrow> se_id q \<noteq> i" if "q \<in> set (db_sessions st)" for q
    using only_row [OF assms(1) mem(1) that] mem(2) by metis
  have "db_sessions st' = db_sessions (updated_session i
       (\<lambda>q. q\<lparr>se_status := (se_status s)\<lparr>st_attention := Some (e\<lparr>ev_ack := Acknowledged\<rparr>)\<rparr>\<rparr>) st)"
    using v by (simp add: store_view_def session_view_def)
  also have "\<dots> = map (\<lambda>q. if q = s then ?s else q) (db_sessions st)"
    unfolding updated_session_def update_where_def using other mem(2) by auto
  finally have rows: "db_sessions st' = map (\<lambda>q. if q = s then ?s else q) (db_sessions st)" .
  have inv': "session_inv st'" by (rule acknowledge_session_attention_inv [OF assms(1) ok])
  have "?s \<in> set (db_sessions st')" using rows mem(1) by auto
  then have "load_session_row st' i = Inr ?s" using load_session_row_inv [OF inv'] mem(2) by simp
  then have s': "s' = ?s" using l by simp
  have "acknowledge_session_attention i ev a st' = Inr (None, st')"
    unfolding acknowledge_session_attention_def l s' by simp
  then show ?thesis using Some mem e rows s' by auto
qed

definition waiting_row :: session where
  "waiting_row = sample_row 2 Running (Some 42)
     \<lparr>se_status := \<lparr>st_lifecycle = Running, st_activity = AwaitingInput,
        st_attention = Some \<lparr>ev_id = AttentionEventId 3, ev_reason = InputRequested, ev_ack = Pending,
          ev_occurred_at = 7\<rparr>\<rparr>\<rparr>"

definition waiting_store :: store where
  "waiting_store = sample_store\<lparr>db_sessions := [waiting_row], db_resumptions := []\<rparr>"

lemma waiting_store_inv: "session_inv waiting_store"
proof -
  have "row_ok waiting_row"
    by (simp add: row_ok_def waiting_row_def sample_row_def valid_status_def validate_def
        expected_reason_def effective_reason_def reason_matches_def)
  moreover have "references_ok {WorktreeId 1} {} waiting_row"
    using sample_names by (simp add: references_ok_def waiting_row_def sample_row_def)
  ultimately show ?thesis
    by (simp add: session_inv_def sessions_ok_def session_view_def waiting_store_def sample_store_def
        sample_worktree_def chain_ok_def acyclic_def)
qed

theorem acknowledgement_is_exact_witness:
  "\<exists>s' st'. acknowledge_session_attention (SessionId 2) (AttentionEventId 3) Opened waiting_store
       = Inr (Some s', st')
     \<and> acknowledge_session_attention (SessionId 2) (AttentionEventId 3) Opened st' = Inr (None, st')"
proof -
  have "\<exists>s' st'. acknowledge_session_attention (SessionId 2) (AttentionEventId 3) Opened waiting_store
       = Inr (Some s', st')"
    by (simp add: acknowledge_session_attention_def waiting_store_def sample_store_def waiting_row_def
        sample_row_def load_session_row_def session_from_row_def select_by_def validate_def
        expected_reason_def effective_reason_def reason_matches_def acknowledgement_allowed_def
        Let_def updated_session_def update_where_def insert_entity_audit_def audit_def)
  then obtain s' st' where ok: "acknowledge_session_attention (SessionId 2) (AttentionEventId 3) Opened
      waiting_store = Inr (Some s', st')" by blast
  then show ?thesis using acknowledgement_is_exact [OF waiting_store_inv ok] by auto
qed

lemma bump_worktree_project_rows:
  assumes "bump_worktree_project w st = Inr st1"
  shows "db_worktrees st1 = db_worktrees st \<and> db_sessions st1 = db_sessions st
    \<and> db_resumptions st1 = db_resumptions st \<and> db_profiles st1 = db_profiles st
    \<and> db_workspaces st1 = db_workspaces st
    \<and> map project.truncate (db_projects st1) = map project.truncate (db_projects st)"
  using assms by (auto simp: bump_worktree_project_def bump_project_def update_where_def project.defs
      split: option.splits if_splits)

text \<open>a deletion removes exactly the Session the client saw, unchanged since and not active,
  with its resumption links; every other row stays.\<close>

theorem session_deletion_is_exact:
  assumes "session_inv st" "delete_session x st = Inr (s, st')"
  shows "s = x \<and> x \<in> set (db_sessions st) \<and> se_process_id x = None
     \<and> lifecycle_allows_deletion (st_lifecycle (se_status x))
     \<and> db_sessions st' = filter (\<lambda>q. q \<noteq> x) (db_sessions st)
     \<and> db_resumptions st' =
         filter (\<lambda>l. predecessor l \<noteq> se_id x \<and> successor l \<noteq> se_id x) (db_resumptions st)
     \<and> db_worktrees st' = db_worktrees st
     \<and> load_session_row st' (se_id x) = Inl (NoSuchSession (se_id x))"
proof -
  note d = delete_session_Inr [OF assms(2)]
  have x: "s = x" "x \<in> set (db_sessions st)" using d(1,2) load_session_row_inv [OF assms(1)] by blast+
  have rows: "db_sessions st' = filter (\<lambda>q. se_id q \<noteq> se_id x) (db_sessions st)"
    "db_resumptions st' = filter (\<lambda>l. predecessor l \<noteq> se_id x \<and> successor l \<noteq> se_id x) (db_resumptions st)"
    using d(5) x(1) by (simp_all add: session_view_def)
  have "filter (\<lambda>q. se_id q \<noteq> se_id x) (db_sessions st) = filter (\<lambda>q. q \<noteq> x) (db_sessions st)"
    by (rule filter_cong [OF refl]) (use only_row [OF assms(1) x(2)] in metis)
  moreover have "db_worktrees st' = db_worktrees st"
    using d(6) by (auto dest: bump_worktree_project_rows)
  moreover have "load_session_row st' (se_id x) = Inl (NoSuchSession (se_id x))"
  proof -
    have "select_by se_id (se_id x) (db_sessions st') = None" unfolding select_by_None rows(1) by auto
    then show ?thesis by (simp add: load_session_row_def)
  qed
  ultimately show ?thesis using x d(3,4) rows by simp
qed

theorem session_deletion_is_exact_witness:
  "\<exists>st'. delete_session (sample_row 1 Exited None) sample_store = Inr (sample_row 1 Exited None, st')
     \<and> db_sessions st' = [sample_row 2 Running (Some 42)] \<and> db_resumptions st' = []"
proof -
  have inv: "session_inv sample_store" by (rule store_invD(1) [OF sample_store_inv])
  have load: "load_session_row sample_store (SessionId 1) = Inr (sample_row 1 Exited None)"
    unfolding load_session_row_inv [OF inv] by (simp add: sample_store_def sample_row_def)
  have "\<exists>st'. delete_session (sample_row 1 Exited None) sample_store = Inr (sample_row 1 Exited None, st')"
    using load
    by (simp add: delete_session_def lifecycle_allows_deletion_def lifecycle_allows_resume_def sample_row_def
        bump_worktree_project_def bump_project_def sample_store_def sample_project_def
        sample_worktree_def select_by_def MAX_GENERATION_def Let_def)
  then obtain st' where ok:
    "delete_session (sample_row 1 Exited None) sample_store = Inr (sample_row 1 Exited None, st')" by blast
  have "db_sessions st' = filter (\<lambda>q. q \<noteq> sample_row 1 Exited None) (db_sessions sample_store)"
    "db_resumptions st' = filter (\<lambda>l. predecessor l \<noteq> SessionId 1 \<and> successor l \<noteq> SessionId 1)
       (db_resumptions sample_store)"
    using session_deletion_is_exact [OF inv ok] by (simp_all add: sample_row_def)
  then show ?thesis using ok by (simp add: sample_store_def sample_row_def sample_link_row_def)
qed

section \<open>The revision\<close>

definition unchanged_for_clients :: "store \<Rightarrow> store \<Rightarrow> bool" where
  "unchanged_for_clients st st' \<longleftrightarrow>
     map workspace.truncate (db_workspaces st') = map workspace.truncate (db_workspaces st)
     \<and> map project.truncate (db_projects st') = map project.truncate (db_projects st)
     \<and> db_worktrees st' = db_worktrees st \<and> db_profiles st' = db_profiles st
     \<and> set (db_sessions st) \<subseteq> set (db_sessions st') \<and> set (db_resumptions st) \<subseteq> set (db_resumptions st')"

lemma unchanged_refl: "unchanged_for_clients st st"
  by (simp add: unchanged_for_clients_def)

lemma unchanged_trans:
  "unchanged_for_clients a b \<Longrightarrow> unchanged_for_clients b c \<Longrightarrow> unchanged_for_clients a c"
  unfolding unchanged_for_clients_def by (metis subset_trans)

lemma insert_session_unchanged:
  assumes "insert_session now r st = Inr (s, st')"
  shows "unchanged_for_clients st st'"
proof -
  obtain st1 st2 where
    st1: "insert_session_row (new_session_row now r) st = Inr st1"
    and st2: "(case ns_resumed_from r of None \<Rightarrow> Inr st1 | Some i \<Rightarrow> insert_resumption_row
        \<lparr>predecessor = i, successor = ns_id r, rs_created_at = now\<rparr> st1) = Inr st2"
    and st': "st' = insert_entity_audit ''session_created'' (SessionEntity (ns_id r)) st2"
    using assms unfolding insert_session_def Let_def by (elim bind_resultE) simp
  have "unchanged_for_clients st st1"
    using st1 unfolding insert_session_row_def
    by (auto simp: unchanged_for_clients_def dest: bump_worktree_project_rows split: if_splits)
  moreover have "unchanged_for_clients st1 st2"
    using st2 by (auto simp: insert_resumption_row_def unchanged_for_clients_def split: option.splits if_splits)
  moreover have "unchanged_for_clients st2 st'"
    by (simp add: st' unchanged_for_clients_def)
  ultimately show ?thesis by (metis unchanged_trans)
qed

lemma clear_github_association_False:
  "clear_github_association p st = Inr (False, st') \<Longrightarrow> st' = st"
  by (auto simp: clear_github_association_def bind_result_eq_Inr Let_def split: if_splits)

lemma uncounted_command:
  assumes "execute c st = Inr (False, st')"
  shows "unchanged_for_clients st st'"
proof (cases c)
  case (CreateSession now r)
  then show ?thesis using assms insert_session_unchanged by (auto simp: commits_Inr)
next
  case (AcknowledgeAttention i ev a)
  then show ?thesis
    using assms acknowledge_session_attention_None [of i ev a st st'] unchanged_refl
    by (auto simp: bind_result_eq_Inr)
next
  case (MarkSessionLifecycleMissing now i failure)
  then show ?thesis
    using assms mark_session_lifecycle_missing_None [of now i failure st st'] unchanged_refl
    by (auto simp: bind_result_eq_Inr)
next
  case (ClearGitHubAssociation p)
  then have "clear_github_association p st = Inr (False, st')"
    using assms by (auto simp: bind_result_eq_Inr)
  then show ?thesis using clear_github_association_False unchanged_refl by metis
next
  case Reconcile
  then show ?thesis
    using assms unchanged_refl by (auto simp: reconcile_sessions_def bind_result_eq_Inr)
next
  case (Audit action outcome details json)
  then show ?thesis
    using assms by (auto simp: commits_Inr insert_audit_event_def audit_def unchanged_for_clients_def
        split: if_splits)
qed (use assms in \<open>simp_all add: commits_Inr\<close>)

definition not_older :: "database \<Rightarrow> database \<Rightarrow> bool" where
  "not_older d d' \<longleftrightarrow> unat (da_revision d) < unat (da_revision d')
     \<or> da_revision d' = da_revision d
        \<and> (da_revision d = - 1 \<or> unchanged_for_clients (da_store d) (da_store d'))"

lemma unat_max: "unat (- 1 :: u64) = 2 ^ 64 - 1"
  by (simp add: unsigned_minus_1_eq_mask mask_eq_exp_minus_1)

lemma counted_revision:
  "(n :: u64) \<noteq> - 1 \<Longrightarrow> unat n < unat (saturating_add n 1)" "saturating_add (- 1 :: u64) 1 = - 1"
proof -
  show "saturating_add (- 1 :: u64) 1 = - 1" by (simp add: saturating_add_def unat_max)
  assume "n \<noteq> - 1"
  then have "unat n \<noteq> 2 ^ 64 - 1" using unat_max by (metis word_unat_eq_iff)
  moreover have "unat n < 2 ^ 64" using unsigned_less [of n] by simp
  ultimately show "unat n < unat (saturating_add n 1)" by (simp add: unat_saturating_add)
qed

lemma database_step_not_older: "not_older d (database_step d c)"
proof (cases "execute c (da_store d)")
  case (Inl e)
  then show ?thesis by (simp add: database_step_def not_older_def unchanged_refl)
next
  case (Inr r)
  obtain b st' where r: "r = (b, st')" by (cases r)
  show ?thesis
  proof (cases b)
    case True
    then show ?thesis
      using Inr r counted_revision(1) [of "da_revision d"] counted_revision(2)
      by (cases "da_revision d = - 1") (simp_all add: database_step_def not_older_def)
  next
    case False
    then show ?thesis using Inr r uncounted_command by (simp add: database_step_def not_older_def)
  qed
qed

interpretation revision: step_ordered database_step "\<lambda>_. True" not_older
proof
  show "not_older s s" for s by (simp add: not_older_def unchanged_refl)
  show "not_older s u" if "not_older s t" "not_older t u" for s t u
    using that unchanged_trans [of "da_store s" "da_store t" "da_store u"]
    by (auto simp: not_older_def)
qed (simp_all add: database_step_not_older)

text \<open>As long as the revision is the one a client has seen, every row it has seen is unchanged:
  commands that do not advance the revision only add Sessions that have not started yet.\<close>

theorem same_revision_same_state:
  assumes "da_revision (foldl database_step d cs) = da_revision d" "da_revision d \<noteq> - 1"
  shows "unchanged_for_clients (da_store d) (da_store (foldl database_step d cs))"
  using revision.run_le [of d cs] assms by (simp add: not_older_def)

theorem same_revision_same_state_witness:
  "set (db_sessions sample_store) \<subseteq> set (db_sessions (da_store (foldl database_step
     (database_open sample_store) [Audit (lit ''probe'') (lit ''succeeded'') (GivenDetails (lit ''{}'')) True])))"
proof -
  let ?d = "database_open sample_store"
  let ?cs = "[Audit (lit ''probe'') (lit ''succeeded'') (GivenDetails (lit ''{}'')) True]"
  have "da_revision (foldl database_step ?d ?cs) = da_revision ?d"
    by (simp add: database_open_def database_step_def commits_def insert_audit_event_def audit_outcome_ok_def)
  moreover have "da_revision ?d \<noteq> - 1" by (simp add: database_open_def)
  ultimately have "unchanged_for_clients (da_store ?d) (da_store (foldl database_step ?d ?cs))"
    by (rule same_revision_same_state)
  then show ?thesis by (simp add: unchanged_for_clients_def database_open_def)
qed

end
