(* ===== verification/Hook_Receiver.thy ===== *)
theory Hook_Receiver
  imports Domain Frame_Codec Text_Tools
begin

text \<open>
  \<open>crates/sylvops-daemon/src/hook.rs\<close>: the loopback receiver of Provider hooks. A connection is
  read up to its headers, authenticated against the credential of its Session, admitted by two
  rate limiters and a bounded number of connections, and its body becomes a delivery in a bounded
  queue. The steps of concurrent connections interleave freely. Instants are nanoseconds; parsing
  a UUID and hashing a body are parameters.
\<close>

section \<open>Rate limiting\<close>

record rate_limiter =
  rl_limit :: nat
  rl_started_at :: nat
  rl_accepted :: nat

definition RATE_WINDOW :: nat where "RATE_WINDOW = 60000000000"

definition clamp_rate :: "nat \<Rightarrow> nat" where
  "clamp_rate n = min 60000 (max 1 n)"

definition limiter_new :: "nat \<Rightarrow> nat \<Rightarrow> rate_limiter" where
  "limiter_new limit now = \<lparr>rl_limit = clamp_rate limit, rl_started_at = now, rl_accepted = 0\<rparr>"

definition limiter_allow :: "nat \<Rightarrow> rate_limiter \<Rightarrow> bool \<times> rate_limiter" where
  "limiter_allow now l0 =
     (let l = (if RATE_WINDOW \<le> now - rl_started_at l0
               then l0\<lparr>rl_started_at := now, rl_accepted := 0\<rparr> else l0)
      in if rl_limit l \<le> rl_accepted l then (False, l)
         else (True, l\<lparr>rl_accepted := rl_accepted l + 1\<rparr>))"

text \<open>The calls accepted at a list of instants.\<close>

fun accepted_at :: "nat list \<Rightarrow> rate_limiter \<Rightarrow> nat" where
  "accepted_at [] l = 0"
| "accepted_at (t # ts) l = (let (b, l1) = limiter_allow t l in (if b then 1 else 0) + accepted_at ts l1)"

lemma limiter_allow_limit [simp]: "rl_limit (snd (limiter_allow t l)) = rl_limit l"
  by (simp add: limiter_allow_def Let_def)

lemma accepted_bounded:
  assumes "sorted ts" "\<forall>t\<in>set ts. rl_started_at l \<le> t \<and> t \<le> T" "rl_started_at l \<le> T" "rl_accepted l \<le> rl_limit l"
  shows "rl_accepted l + accepted_at ts l \<le> rl_limit l * (1 + (T - rl_started_at l) div RATE_WINDOW)"
  using assms
proof (induction ts arbitrary: l)
  case Nil
  then show ?case by simp
next
  case (Cons t ts)
  let ?l = "snd (limiter_allow t l)"
  have IH: "rl_accepted ?l + accepted_at ts ?l \<le> rl_limit l * (1 + (T - rl_started_at ?l) div RATE_WINDOW)"
    if "rl_started_at ?l \<le> t" "rl_accepted ?l \<le> rl_limit l"
    using Cons.IH [of ?l] Cons.prems that by fastforce
  show ?case
  proof (cases "RATE_WINDOW \<le> t - rl_started_at l")
    case False
    then have l: "limiter_allow t l = (if rl_limit l \<le> rl_accepted l then (False, l)
         else (True, l\<lparr>rl_accepted := rl_accepted l + 1\<rparr>))"
      by (simp add: limiter_allow_def)
    show ?thesis
      using IH Cons.prems by (cases "rl_limit l \<le> rl_accepted l") (simp_all add: l)
  next
    case True
    then have l: "limiter_allow t l = (if rl_limit l = 0 then (False, l\<lparr>rl_started_at := t, rl_accepted := 0\<rparr>)
         else (True, l\<lparr>rl_started_at := t, rl_accepted := 1\<rparr>))"
      by (simp add: limiter_allow_def)
    have "(T - t) div RATE_WINDOW + 1 \<le> (T - rl_started_at l) div RATE_WINDOW"
    proof -
      have "t \<le> T" "rl_started_at l \<le> t" using Cons.prems(2) by simp_all
      then have "T - t + RATE_WINDOW \<le> T - rl_started_at l" using True by linarith
      then have "(T - t + RATE_WINDOW) div RATE_WINDOW \<le> (T - rl_started_at l) div RATE_WINDOW"
        by (rule div_le_mono)
      then show ?thesis by (simp add: RATE_WINDOW_def)
    qed
    then have "rl_limit l * (1 + (T - t) div RATE_WINDOW) \<le> rl_limit l * ((T - rl_started_at l) div RATE_WINDOW)"
      by (intro mult_le_mono) simp_all
    then show ?thesis
      using IH Cons.prems by (cases "rl_limit l = 0") (simp_all add: l distrib_left)
  qed
qed

section \<open>Requests\<close>

text \<open>The lines of the headers.\<close>

fun split_crlf :: "str \<Rightarrow> str list" where
  "split_crlf [] = [[]]"
| "split_crlf (c # s) = (if c = 13 \<and> s \<noteq> [] \<and> hd s = 10 then [] # split_crlf (tl s)
     else case split_crlf s of [] \<Rightarrow> [[c]] | l # ls \<Rightarrow> (c # l) # ls)"

record request =
  rq_content_length :: "nat option"
  rq_content_type :: "str option"
  rq_authorization :: "str option"
  rq_session :: "session_id option"
  rq_worktree :: "worktree_id option"

definition empty_request :: request where
  "empty_request = \<lparr>rq_content_length = None, rq_content_type = None, rq_authorization = None,
     rq_session = None, rq_worktree = None\<rparr>"

definition add_header :: "(str \<Rightarrow> uuid option) \<Rightarrow> str \<Rightarrow> str \<Rightarrow> request \<Rightarrow> request" where
  "add_header parse_uuid name value r =
     (let n = ascii_lowercase (trim name); v = trim value
      in if n = lit ''content-length'' then r\<lparr>rq_content_length := parse_usize v\<rparr>
         else if n = lit ''content-type'' then r\<lparr>rq_content_type := Some v\<rparr>
         else if n = lit ''authorization'' then r\<lparr>rq_authorization := Some v\<rparr>
         else if n = lit ''x-sylvops-session-id'' then r\<lparr>rq_session := map_option SessionId (parse_uuid v)\<rparr>
         else if n = lit ''x-sylvops-worktree-id'' then r\<lparr>rq_worktree := map_option WorktreeId (parse_uuid v)\<rparr>
         else r)"

fun parse_header_lines :: "(str \<Rightarrow> uuid option) \<Rightarrow> str list \<Rightarrow> request \<Rightarrow> request option" where
  "parse_header_lines pu [] r = Some r"
| "parse_header_lines pu (l # ls) r =
     (if l = [] then parse_header_lines pu ls r
      else case split_once (of_char CHR '':'') l of
             None \<Rightarrow> None
           | Some (name, value) \<Rightarrow> parse_header_lines pu ls (add_header pu name value r))"

datatype http_status =
    NoContent | BadRequest | Unauthorized | NotFound | ContentTooLarge | UnsupportedMediaType
  | TooManyRequests | HeaderFieldsTooLarge | ServiceUnavailable

definition parse_request :: "(str \<Rightarrow> uuid option) \<Rightarrow> str \<Rightarrow> http_status + request" where
  "parse_request pu headers =
     (case split_crlf headers of
        [] \<Rightarrow> Inl NotFound
      | l # ls \<Rightarrow>
          if l \<noteq> lit ''POST /v1/events HTTP/1.1'' then Inl NotFound
          else case parse_header_lines pu ls empty_request of
                 None \<Rightarrow> Inl BadRequest | Some r \<Rightarrow> Inr r)"

text \<open>The loop that reads up to the blank line, over the results of \<open>read\<close> (nothing is the end
  of the stream).\<close>

definition HEADER_LIMIT :: nat where "HEADER_LIMIT = 16 * 1024"

fun find_bytes :: "bytes \<Rightarrow> bytes \<Rightarrow> nat option" where
  "find_bytes needle [] = (if needle = [] then Some 0 else None)"
| "find_bytes needle (b # bs) =
     (if take (length needle) (b # bs) = needle then Some 0
      else map_option Suc (find_bytes needle bs))"

datatype header_read = HeadersPending | HeadersClosed | HeadersTooLong | HeadersFound nat bytes

fun read_headers :: "bytes list \<Rightarrow> bytes \<Rightarrow> header_read" where
  "read_headers [] bs = (if HEADER_LIMIT \<le> length bs then HeadersTooLong else HeadersPending)"
| "read_headers (r # rs) bs =
     (if HEADER_LIMIT \<le> length bs then HeadersTooLong
      else if r = [] then HeadersClosed
      else let bs1 = bs @ r
           in case find_bytes [13, 10, 13, 10] bs1 of
                Some n \<Rightarrow> HeadersFound (n + 4) bs1
              | None \<Rightarrow> read_headers rs bs1)"

lemma read_headers_bounded:
  "read_headers rs bs = HeadersFound n out \<Longrightarrow> \<forall>r\<in>set rs. length r \<le> 2048 \<Longrightarrow>
     length out < HEADER_LIMIT + 2048"
  by (induction rs bs rule: read_headers.induct) (auto simp: Let_def split: if_splits option.splits)


section \<open>The receiver\<close>

definition PER_SESSION_CONNECTION_LIMIT :: nat where "PER_SESSION_CONNECTION_LIMIT = 8"
definition PER_SESSION_QUEUE_LIMIT :: nat where "PER_SESSION_QUEUE_LIMIT = 32"
definition CONNECTION_LIMIT :: nat where "CONNECTION_LIMIT = 64"
definition DELIVERY_CAPACITY :: nat where "DELIVERY_CAPACITY = 256"
definition MAX_PROVIDER_LIFECYCLE_PAYLOAD_SIZE :: nat where
  "MAX_PROVIDER_LIFECYCLE_PAYLOAD_SIZE = 64 * 1024"

text \<open>The limiter and the two semaphores of a credential are shared by its clones, so credentials
  live in a list and are named by their place in it; the map of Sessions holds the places. A
  semaphore is the number of its permits that are taken.\<close>

record credential =
  cr_provider :: provider_kind
  cr_worktree :: worktree_id
  cr_token :: str
  cr_limiter :: rate_limiter
  cr_body_limit :: nat
  cr_connections :: nat
  cr_queued :: nat

record authenticated =
  au_credential :: nat
  au_session :: session_id
  au_worktree :: worktree_id
  au_content_type :: "str option"
  au_content_length :: "nat option"

record connection =
  co_credential :: nat
  co_session :: session_id
  co_worktree :: worktree_id
  co_length :: nat

record delivery =
  de_provider :: provider_kind
  de_session :: session_id
  de_worktree :: worktree_id
  de_fingerprint :: str
  de_payload :: bytes
  de_credential :: nat

record receiver =
  hr_sessions :: "(session_id, nat) hash_map"
  hr_credentials :: "credential list"
  hr_requests_per_minute :: nat
  hr_body_limit :: nat
  hr_limiter :: rate_limiter
  hr_reading :: nat
  hr_authenticated :: "authenticated list"
  hr_connections :: "connection list"
  hr_queue :: "delivery list"
  hr_processing :: "delivery option"

definition receiver_bind :: "nat \<Rightarrow> nat \<Rightarrow> nat \<Rightarrow> receiver" where
  "receiver_bind body_limit requests_per_minute now =
     \<lparr>hr_sessions = [], hr_credentials = [],
      hr_requests_per_minute = (clamp_rate requests_per_minute + 3) div 4,
      hr_body_limit = min MAX_PROVIDER_LIFECYCLE_PAYLOAD_SIZE (max 1024 body_limit),
      hr_limiter = limiter_new (clamp_rate requests_per_minute) now,
      hr_reading = 0, hr_authenticated = [], hr_connections = [], hr_queue = [], hr_processing = None\<rparr>"

definition register :: "provider_kind \<Rightarrow> session_id \<Rightarrow> worktree_id \<Rightarrow> str \<Rightarrow> nat \<Rightarrow> receiver \<Rightarrow> receiver" where
  "register provider s w token now r =
     r\<lparr>hr_sessions := hm_insert s (length (hr_credentials r)) (hr_sessions r),
       hr_credentials := hr_credentials r @ [\<lparr>cr_provider = provider, cr_worktree = w,
         cr_token = token, cr_limiter = limiter_new (hr_requests_per_minute r) now,
         cr_body_limit = hr_body_limit r, cr_connections = 0, cr_queued = 0\<rparr>]\<rparr>"

definition invalidate :: "session_id \<Rightarrow> receiver \<Rightarrow> receiver" where
  "invalidate s r = r\<lparr>hr_sessions := hm_remove s (hr_sessions r)\<rparr>"

definition invalidate_all :: "receiver \<Rightarrow> receiver" where
  "invalidate_all r = r\<lparr>hr_sessions := []\<rparr>"

text \<open>What \<open>invalidate_and_drain\<close> waits for: all permits of both semaphores.\<close>

definition drained :: "nat \<Rightarrow> receiver \<Rightarrow> bool" where
  "drained k r \<longleftrightarrow> cr_connections (hr_credentials r ! k) = 0 \<and> cr_queued (hr_credentials r ! k) = 0"

definition authenticate ::
    "str option \<Rightarrow> session_id \<Rightarrow> worktree_id \<Rightarrow> receiver \<Rightarrow> nat option" where
  "authenticate supplied s w r = (case map_of (hr_sessions r) s of
       None \<Rightarrow> None
     | Some k \<Rightarrow> (case supplied of
           None \<Rightarrow> None
         | Some token \<Rightarrow>
             if cr_worktree (hr_credentials r ! k) \<noteq> w
                \<or> byte_len token \<noteq> byte_len (cr_token (hr_credentials r ! k))
                \<or> utf8_bytes token \<noteq> utf8_bytes (cr_token (hr_credentials r ! k))
             then None else Some k))"

definition update_credential :: "nat \<Rightarrow> (credential \<Rightarrow> credential) \<Rightarrow> receiver \<Rightarrow> receiver" where
  "update_credential k f r =
     r\<lparr>hr_credentials := (hr_credentials r)[k := f (hr_credentials r ! k)]\<rparr>"

text \<open>\<open>!limiter.allow() || !credential.limiter.allow()\<close>: the second only when the first allows.\<close>

definition admit :: "nat \<Rightarrow> nat \<Rightarrow> receiver \<Rightarrow> bool \<times> receiver" where
  "admit now k r =
     (let (b, l) = limiter_allow now (hr_limiter r); r1 = r\<lparr>hr_limiter := l\<rparr>
      in if \<not> b then (False, r1)
         else let (b2, l2) = limiter_allow now (cr_limiter (hr_credentials r ! k))
              in (b2, update_credential k (\<lambda>c. c\<lparr>cr_limiter := l2\<rparr>) r1))"

text \<open>\<open>handle_connection\<close> in three parts: up to the authentication, which clones the credential under
  the lock of the map; from the connection slot to the body; the body. The first two do not exclude an
  invalidation between them. Each answers a status, or nothing while the connection goes on.\<close>

definition handle_headers ::
    "(str \<Rightarrow> uuid option) \<Rightarrow> str \<Rightarrow> receiver \<Rightarrow> http_status option \<times> receiver" where
  "handle_headers pu headers r =
     (case parse_request pu headers of
        Inl e \<Rightarrow> (Some e, r)
      | Inr q \<Rightarrow>
          (case (rq_session q, rq_worktree q) of
             (Some s, Some w) \<Rightarrow>
               (case authenticate (Option.bind (rq_authorization q) (strip_prefix (lit ''Bearer ''))) s w r of
                  None \<Rightarrow> (Some Unauthorized, r)
                | Some k \<Rightarrow> (None, r\<lparr>hr_authenticated := hr_authenticated r @
                    [\<lparr>au_credential = k, au_session = s, au_worktree = w,
                      au_content_type = rq_content_type q, au_content_length = rq_content_length q\<rparr>]\<rparr>))
           | _ \<Rightarrow> (Some BadRequest, r)))"

definition leave_authenticated :: "nat \<Rightarrow> receiver \<Rightarrow> receiver" where
  "leave_authenticated i r =
     r\<lparr>hr_authenticated := take i (hr_authenticated r) @ drop (Suc i) (hr_authenticated r)\<rparr>"

definition handle_admission :: "nat \<Rightarrow> nat \<Rightarrow> receiver \<Rightarrow> http_status option \<times> receiver" where
  "handle_admission now i r =
     (let a = hr_authenticated r ! i; k = au_credential a; r0 = leave_authenticated i r
      in if PER_SESSION_CONNECTION_LIMIT \<le> cr_connections (hr_credentials r ! k)
         then (Some ServiceUnavailable, r0)
         else
           let (b, r1) = admit now k r0
           in if \<not> b then (Some TooManyRequests, r1)
              else if (case au_content_type a of None \<Rightarrow> True
                       | Some t \<Rightarrow> ascii_lowercase t \<noteq> lit ''application/json'')
              then (Some UnsupportedMediaType, r1)
              else case au_content_length a of
                     None \<Rightarrow> (Some ContentTooLarge, r1)
                   | Some n \<Rightarrow>
                       if hr_body_limit r < n \<or> cr_body_limit (hr_credentials r ! k) < n
                       then (Some ContentTooLarge, r1)
                       else (None, (update_credential k (\<lambda>c. c\<lparr>cr_connections := cr_connections c + 1\<rparr>) r1)
                              \<lparr>hr_connections := hr_connections r1 @
                                 [\<lparr>co_credential = k, co_session = au_session a,
                                   co_worktree = au_worktree a, co_length = n\<rparr>]\<rparr>))"

text \<open>The end of a connection, and the delivery of a body that arrived complete.\<close>

definition close_connection :: "nat \<Rightarrow> receiver \<Rightarrow> receiver" where
  "close_connection j r =
     (update_credential (co_credential (hr_connections r ! j))
        (\<lambda>c. c\<lparr>cr_connections := cr_connections c - 1\<rparr>) r)
       \<lparr>hr_connections := take j (hr_connections r) @ drop (Suc j) (hr_connections r)\<rparr>"

definition handle_body :: "(bytes \<Rightarrow> str) \<Rightarrow> nat \<Rightarrow> bytes \<Rightarrow> receiver \<Rightarrow> http_status \<times> receiver" where
  "handle_body sha j body r =
     (let c = hr_connections r ! j; k = co_credential c
      in if PER_SESSION_QUEUE_LIMIT \<le> cr_queued (hr_credentials r ! k)
            \<or> DELIVERY_CAPACITY \<le> length (hr_queue r)
         then (ServiceUnavailable, close_connection j r)
         else (NoContent, (update_credential k (\<lambda>c. c\<lparr>cr_queued := cr_queued c + 1\<rparr>) (close_connection j r))
                \<lparr>hr_queue := hr_queue r @ [\<lparr>de_provider = cr_provider (hr_credentials r ! k),
                   de_session = co_session c, de_worktree = co_worktree c,
                   de_fingerprint = sha body, de_payload = body, de_credential = k\<rparr>]\<rparr>))"

text \<open>The steps of the receiver, of its connections and of the loop that takes the deliveries. A
  step whose guard fails does nothing.\<close>

datatype hook_action =
    Accept
  | HeadersRead str
  | HeadersRefused
  | Admission nat nat
  | BodyRead nat bytes
  | BodyEnded nat
  | TakeDelivery
  | DropDelivery
  | Register provider_kind session_id worktree_id str nat
  | Invalidate session_id
  | InvalidateAll

fun hook_step :: "(str \<Rightarrow> uuid option) \<Rightarrow> (bytes \<Rightarrow> str) \<Rightarrow> receiver \<Rightarrow> hook_action \<Rightarrow> receiver" where
  "hook_step pu sha r Accept =
     (if hr_reading r + length (hr_authenticated r) + length (hr_connections r) < CONNECTION_LIMIT
      then r\<lparr>hr_reading := hr_reading r + 1\<rparr> else r)"
| "hook_step pu sha r (HeadersRead headers) =
     (if hr_reading r = 0 then r
      else snd (handle_headers pu headers (r\<lparr>hr_reading := hr_reading r - 1\<rparr>)))"
| "hook_step pu sha r (Admission i now) =
     (if i < length (hr_authenticated r) then snd (handle_admission now i r) else r)"
| "hook_step pu sha r HeadersRefused = r\<lparr>hr_reading := hr_reading r - 1\<rparr>"
| "hook_step pu sha r (BodyRead j body) =
     (if j < length (hr_connections r) \<and> length body = co_length (hr_connections r ! j)
      then snd (handle_body sha j body r) else r)"
| "hook_step pu sha r (BodyEnded j) =
     (if j < length (hr_connections r) then close_connection j r else r)"
| "hook_step pu sha r TakeDelivery = (case (hr_processing r, hr_queue r) of
       (None, d # ds) \<Rightarrow> r\<lparr>hr_processing := Some d, hr_queue := ds\<rparr> | _ \<Rightarrow> r)"
| "hook_step pu sha r DropDelivery = (case hr_processing r of
       None \<Rightarrow> r
     | Some d \<Rightarrow> (update_credential (de_credential d) (\<lambda>c. c\<lparr>cr_queued := cr_queued c - 1\<rparr>) r)
           \<lparr>hr_processing := None\<rparr>)"
| "hook_step pu sha r (Register p s w token now) = register p s w token now r"
| "hook_step pu sha r (Invalidate s) = invalidate s r"
| "hook_step pu sha r InvalidateAll = invalidate_all r"


section \<open>What a step changes\<close>

definition pending :: "receiver \<Rightarrow> delivery list" where
  "pending r = (case hr_processing r of None \<Rightarrow> [] | Some d \<Rightarrow> [d]) @ hr_queue r"

text \<open>Everything of the receiver but its rate limiters.\<close>

definition core :: "credential \<Rightarrow> provider_kind \<times> worktree_id \<times> str \<times> nat \<times> nat \<times> nat" where
  "core c = (cr_provider c, cr_worktree c, cr_token c, cr_body_limit c, cr_connections c, cr_queued c)"

definition only_limits :: "receiver \<Rightarrow> receiver \<Rightarrow> bool" where
  "only_limits r r' \<longleftrightarrow> hr_sessions r' = hr_sessions r \<and> map core (hr_credentials r') = map core (hr_credentials r)
     \<and> hr_body_limit r' = hr_body_limit r \<and> hr_reading r' = hr_reading r
     \<and> hr_authenticated r' = hr_authenticated r \<and> hr_connections r' = hr_connections r \<and> hr_queue r' = hr_queue r
     \<and> hr_processing r' = hr_processing r"

lemma only_limits_refl [simp]: "only_limits r r"
  by (simp add: only_limits_def)

lemma only_limitsD:
  assumes "only_limits r r'"
  shows "length (hr_credentials r') = length (hr_credentials r)"
    and "k < length (hr_credentials r) \<Longrightarrow> core (hr_credentials r' ! k) = core (hr_credentials r ! k)"
    and "pending r' = pending r"
  using assms by (auto simp: only_limits_def pending_def dest: map_eq_imp_length_eq) (metis nth_map map_eq_imp_length_eq)

lemma map_core_update:
  assumes "\<And>c. core (f c) = core c"
  shows "map core (cs[k := f (cs ! k)]) = map core cs"
  by (cases "k < length cs") (auto intro!: nth_equalityI simp: nth_list_update assms)

lemma admit_limits: "only_limits r (snd (admit now k r))"
  using map_core_update [of "\<lambda>c. c\<lparr>cr_limiter := snd (limiter_allow now (cr_limiter (hr_credentials r ! k)))\<rparr>"
      "hr_credentials r" k]
  by (simp add: admit_def Let_def only_limits_def update_credential_def core_def split_beta)

lemma handle_headers_cases:
  assumes "handle_headers pu headers r = (res, r')"
  obtains (refused) e where "res = Some e" "r' = r"
  | (accepted) q s w k where "res = None" "parse_request pu headers = Inr q"
      "rq_session q = Some s" "rq_worktree q = Some w"
      "authenticate (Option.bind (rq_authorization q) (strip_prefix (lit ''Bearer ''))) s w r = Some k"
      "r' = r\<lparr>hr_authenticated := hr_authenticated r @
            [\<lparr>au_credential = k, au_session = s, au_worktree = w,
              au_content_type = rq_content_type q, au_content_length = rq_content_length q\<rparr>]\<rparr>"
proof (cases "\<exists>q s w k. parse_request pu headers = Inr q \<and> rq_session q = Some s \<and> rq_worktree q = Some w
    \<and> authenticate (Option.bind (rq_authorization q) (strip_prefix (lit ''Bearer ''))) s w r = Some k")
  case True
  then show thesis using assms accepted by (auto simp: handle_headers_def)
next
  case False
  then have "(\<exists>e. res = Some e) \<and> r' = r" using assms
    by (cases "parse_request pu headers") (auto simp: handle_headers_def split: option.splits)
  then show thesis using refused by auto
qed

lemma leave_authenticated_simps [simp]:
  "hr_sessions (leave_authenticated i r) = hr_sessions r"
  "hr_credentials (leave_authenticated i r) = hr_credentials r"
  "hr_body_limit (leave_authenticated i r) = hr_body_limit r"
  "hr_reading (leave_authenticated i r) = hr_reading r"
  "hr_connections (leave_authenticated i r) = hr_connections r"
  "hr_queue (leave_authenticated i r) = hr_queue r"
  "hr_processing (leave_authenticated i r) = hr_processing r"
  "pending (leave_authenticated i r) = pending r"
  "hr_authenticated (leave_authenticated i r) =
     take i (hr_authenticated r) @ drop (Suc i) (hr_authenticated r)"
  by (simp_all add: leave_authenticated_def pending_def)

lemma leave_authenticated_subset:
  "set (hr_authenticated (leave_authenticated i r)) \<subseteq> set (hr_authenticated r)"
  by (auto dest: in_set_takeD in_set_dropD)

lemma handle_admission_cases:
  assumes "handle_admission now i r = (res, r')"
  obtains (refused) e where "res = Some e" "only_limits (leave_authenticated i r) r'"
  | (accepted) a k n r1 where "res = None" "a = hr_authenticated r ! i" "k = au_credential a"
      "cr_connections (hr_credentials r ! k) < PER_SESSION_CONNECTION_LIMIT"
      "only_limits (leave_authenticated i r) r1" "n \<le> hr_body_limit r"
      "r' = (update_credential k (\<lambda>c. c\<lparr>cr_connections := cr_connections c + 1\<rparr>) r1)
         \<lparr>hr_connections := hr_connections r @
            [\<lparr>co_credential = k, co_session = au_session a, co_worktree = au_worktree a, co_length = n\<rparr>]\<rparr>"
proof -
  let ?r0 = "leave_authenticated i r"
  let ?a = "hr_authenticated r ! i"
  let ?k = "au_credential ?a"
  have same: "hr_connections (snd (admit now k ?r0)) = hr_connections r" for k
    using admit_limits [of ?r0 now k] by (simp add: only_limits_def)
  show thesis
  proof (cases "PER_SESSION_CONNECTION_LIMIT \<le> cr_connections (hr_credentials r ! ?k)")
    case True
    then have "(\<exists>e. res = Some e) \<and> r' = ?r0" using assms by (auto simp: handle_admission_def Let_def)
    then show thesis using refused by auto
  next
    case slot: False
    let ?r1 = "snd (admit now ?k ?r0)"
    let ?new = "\<lambda>n. (update_credential ?k (\<lambda>c. c\<lparr>cr_connections := cr_connections c + 1\<rparr>) ?r1)
        \<lparr>hr_connections := hr_connections r @
          [\<lparr>co_credential = ?k, co_session = au_session ?a, co_worktree = au_worktree ?a, co_length = n\<rparr>]\<rparr>"
    have "(\<exists>e. res = Some e) \<and> r' = ?r1 \<or> (\<exists>n\<le>hr_body_limit r. res = None \<and> r' = ?new n)"
      using assms slot same [of ?k]
      by (auto simp: handle_admission_def Let_def split_beta not_less split: if_splits option.splits)
    then show thesis
      using refused accepted [OF _ refl refl _ admit_limits] admit_limits [of ?r0 now ?k] slot by auto
  qed
qed

section \<open>Slots and bounds\<close>

lemma tally_remove:
  assumes "j < length xs"
  shows "tally P xs = tally P (take j xs @ drop (Suc j) xs) + (if P (xs ! j) then 1 else 0)"
proof -
  have "xs = take j xs @ xs ! j # drop (Suc j) xs" using assms by (rule id_take_nth_drop)
  then have "tally P xs = tally P (take j xs @ xs ! j # drop (Suc j) xs)" by simp
  then show ?thesis by simp
qed

definition slots_ok :: "receiver \<Rightarrow> bool" where
  "slots_ok r \<longleftrightarrow> (\<forall>k < length (hr_credentials r).
       cr_connections (hr_credentials r ! k) = tally (\<lambda>c. co_credential c = k) (hr_connections r)
     \<and> tally (\<lambda>c. co_credential c = k) (hr_connections r) \<le> PER_SESSION_CONNECTION_LIMIT
     \<and> cr_queued (hr_credentials r ! k) = tally (\<lambda>d. de_credential d = k) (pending r)
     \<and> tally (\<lambda>d. de_credential d = k) (pending r) \<le> PER_SESSION_QUEUE_LIMIT)"

definition places_ok :: "receiver \<Rightarrow> bool" where
  "places_ok r \<longleftrightarrow> distinct (map snd (hr_sessions r)) \<and> (\<forall>k\<in>hm_range (hr_sessions r). k < length (hr_credentials r))
     \<and> (\<forall>a\<in>set (hr_authenticated r). au_credential a < length (hr_credentials r))
     \<and> (\<forall>c\<in>set (hr_connections r). co_credential c < length (hr_credentials r)
           \<and> co_length c \<le> hr_body_limit r)
     \<and> (\<forall>d\<in>set (pending r). de_credential d < length (hr_credentials r)
           \<and> length (de_payload d) \<le> hr_body_limit r)"

definition sizes_ok :: "receiver \<Rightarrow> bool" where
  "sizes_ok r \<longleftrightarrow> length (hr_queue r) \<le> DELIVERY_CAPACITY
     \<and> hr_reading r + length (hr_authenticated r) + length (hr_connections r) \<le> CONNECTION_LIMIT"

definition hook_inv :: "receiver \<Rightarrow> bool" where
  "hook_inv r \<longleftrightarrow> slots_ok r \<and> places_ok r \<and> sizes_ok r"

lemma hook_inv_bind [simp]: "hook_inv (receiver_bind b q t)"
  by (simp add: hook_inv_def slots_ok_def places_ok_def sizes_ok_def receiver_bind_def pending_def)

lemma hook_inv_limits:
  assumes l: "only_limits r r'" and inv: "hook_inv r"
  shows "hook_inv r'"
proof -
  note d = only_limitsD [OF l]
  have "cr_connections (hr_credentials r' ! k) = cr_connections (hr_credentials r ! k)"
    "cr_queued (hr_credentials r' ! k) = cr_queued (hr_credentials r ! k)"
    if "k < length (hr_credentials r)" for k
    using d(2) [OF that] by (simp_all add: core_def)
  then show ?thesis
    using inv l d(1,3) by (simp add: hook_inv_def slots_ok_def places_ok_def sizes_ok_def only_limits_def)
qed

lemma authenticate_place:
  "authenticate token s w r = Some k \<Longrightarrow> places_ok r \<Longrightarrow> k < length (hr_credentials r)"
  by (force simp: authenticate_def places_ok_def hm_range_def dest: map_of_SomeD
      split: option.splits if_splits)

lemma handle_headers_inv:
  assumes inv: "hook_inv r"
    and room: "hr_reading r + length (hr_authenticated r) + length (hr_connections r) < CONNECTION_LIMIT"
  shows "hook_inv (snd (handle_headers pu h r))"
proof -
  obtain res r' where h: "handle_headers pu h r = (res, r')" by fastforce
  then show ?thesis
  proof (cases rule: handle_headers_cases)
    case (refused e)
    then show ?thesis using inv h by simp
  next
    case (accepted q s w k)
    have k: "k < length (hr_credentials r)"
      using authenticate_place accepted(5) inv by (simp add: hook_inv_def)
    show ?thesis using inv k room unfolding h accepted(6) hook_inv_def
      by (auto simp: slots_ok_def places_ok_def sizes_ok_def pending_def)
  qed
qed

lemma leave_inv:
  assumes inv: "hook_inv r"
  shows "hook_inv (leave_authenticated i r)"
proof -
  have "places_ok (leave_authenticated i r)" using inv leave_authenticated_subset [of i r]
    by (auto simp: hook_inv_def places_ok_def simp del: leave_authenticated_simps(9))
  then show ?thesis using inv by (auto simp: hook_inv_def slots_ok_def sizes_ok_def)
qed

lemma handle_admission_inv:
  assumes inv: "hook_inv r" and i: "i < length (hr_authenticated r)"
  shows "hook_inv (snd (handle_admission now i r))"
proof -
  obtain res r' where h: "handle_admission now i r = (res, r')" by fastforce
  have left: "hook_inv (leave_authenticated i r)" by (rule leave_inv [OF inv])
  from h show ?thesis
  proof (cases rule: handle_admission_cases)
    case (refused e)
    then show ?thesis using hook_inv_limits left h by simp
  next
    case (accepted a k n r1)
    have k: "k < length (hr_credentials r)"
      using accepted(2,3) nth_mem [OF i] inv by (auto simp: hook_inv_def places_ok_def)
    note d = only_limitsD [OF accepted(5)]
    have ri: "hook_inv r1" by (rule hook_inv_limits [OF accepted(5) left])
    have c: "cr_connections (hr_credentials r1 ! k) = cr_connections (hr_credentials r ! k)"
      using d(2) [of k] k by (simp add: core_def)
    have l: "hr_connections r1 = hr_connections r" "hr_body_limit r1 = hr_body_limit r"
      "hr_reading r1 = hr_reading r" "length (hr_authenticated r1) < length (hr_authenticated r)"
      using accepted(5) i by (simp_all add: only_limits_def)
    have "slots_ok r'" using ri accepted(4) k d(1) c
      unfolding accepted(7) hook_inv_def slots_ok_def
      by (auto simp: update_credential_def pending_def nth_list_update l)
    moreover have "places_ok r'" using ri accepted(6) k d(1)
      unfolding accepted(7) hook_inv_def places_ok_def
      by (auto simp: update_credential_def pending_def l)
    moreover have "sizes_ok r'" using ri inv l(4)
      unfolding accepted(7) hook_inv_def sizes_ok_def by (simp add: update_credential_def l(1-3))
    ultimately show ?thesis using h by (simp add: hook_inv_def)
  qed
qed

lemma tally_removed: "j < length xs \<Longrightarrow> P (xs ! j) \<Longrightarrow>
    tally P (take j xs @ drop (Suc j) xs) = tally P xs - 1"
  "j < length xs \<Longrightarrow> \<not> P (xs ! j) \<Longrightarrow> tally P (take j xs @ drop (Suc j) xs) = tally P xs"
  using tally_remove [of j xs P] by simp_all

lemma close_connection_inv:
  assumes inv: "hook_inv r" and j: "j < length (hr_connections r)"
  shows "hook_inv (close_connection j r)"
proof -
  let ?k = "co_credential (hr_connections r ! j)"
  let ?r = "close_connection j r"
  have k: "?k < length (hr_credentials r)" using inv j by (auto simp: hook_inv_def places_ok_def)
  have rest: "set (take j (hr_connections r) @ drop (Suc j) (hr_connections r)) \<subseteq> set (hr_connections r)"
    by (auto dest: in_set_takeD in_set_dropD)
  have same: "pending ?r = pending r" "hr_body_limit ?r = hr_body_limit r" "hr_sessions ?r = hr_sessions r"
    "hr_reading ?r = hr_reading r" "hr_authenticated ?r = hr_authenticated r" "hr_queue ?r = hr_queue r"
    "hr_connections ?r = take j (hr_connections r) @ drop (Suc j) (hr_connections r)"
    "length (hr_credentials ?r) = length (hr_credentials r)"
    by (simp_all add: close_connection_def update_credential_def pending_def)
  have "tally (\<lambda>c. co_credential c = i) (hr_connections ?r) =
      tally (\<lambda>c. co_credential c = i) (hr_connections r) - (if i = ?k then 1 else 0)" for i
    unfolding same(7) using tally_removed [OF j, of "\<lambda>c. co_credential c = i"] by auto
  moreover have "hr_credentials ?r ! i = (if i = ?k then (hr_credentials r ! ?k)
        \<lparr>cr_connections := cr_connections (hr_credentials r ! ?k) - 1\<rparr> else hr_credentials r ! i)" for i
    using k by (simp add: close_connection_def update_credential_def nth_list_update)
  ultimately have "slots_ok ?r"
    using inv unfolding hook_inv_def slots_ok_def same(1,8) by (auto intro: le_trans [OF diff_le_self])
  moreover have "places_ok ?r"
    using inv rest unfolding hook_inv_def places_ok_def same by blast
  moreover have "sizes_ok ?r" using inv j unfolding hook_inv_def sizes_ok_def same by simp linarith
  ultimately show ?thesis by (simp add: hook_inv_def)
qed

lemma handle_body_inv:
  assumes inv: "hook_inv r" and j: "j < length (hr_connections r)"
    and len: "length body = co_length (hr_connections r ! j)"
  shows "hook_inv (snd (handle_body sha j body r))"
proof -
  let ?k = "co_credential (hr_connections r ! j)"
  let ?c = "close_connection j r"
  let ?d = "\<lparr>de_provider = cr_provider (hr_credentials r ! ?k), de_session = co_session (hr_connections r ! j),
     de_worktree = co_worktree (hr_connections r ! j), de_fingerprint = sha body, de_payload = body,
     de_credential = ?k\<rparr>"
  have ci: "hook_inv ?c" by (rule close_connection_inv [OF inv j])
  have k: "?k < length (hr_credentials r)" and lim: "length body \<le> hr_body_limit r"
    using inv j len by (auto simp: hook_inv_def places_ok_def)
  have q: "hr_queue ?c = hr_queue r" "hr_body_limit ?c = hr_body_limit r"
    "length (hr_credentials ?c) = length (hr_credentials r)"
    "cr_queued (hr_credentials ?c ! ?k) = cr_queued (hr_credentials r ! ?k)"
    using k by (simp_all add: close_connection_def update_credential_def)
  show ?thesis
  proof (cases "PER_SESSION_QUEUE_LIMIT \<le> cr_queued (hr_credentials r ! ?k)
            \<or> DELIVERY_CAPACITY \<le> length (hr_queue r)")
    case True
    then show ?thesis using ci by (simp add: handle_body_def Let_def)
  next
    case False
    let ?r = "(update_credential ?k (\<lambda>c. c\<lparr>cr_queued := cr_queued c + 1\<rparr>) ?c)
                \<lparr>hr_queue := hr_queue r @ [?d]\<rparr>"
    have p: "pending ?r = pending ?c @ [?d]" using q(1) by (simp add: pending_def update_credential_def)
    have "tally (\<lambda>d. de_credential d = ?k) (pending ?c) < PER_SESSION_QUEUE_LIMIT"
      using ci False q(3,4) k unfolding hook_inv_def slots_ok_def by auto
    then have "slots_ok ?r" using ci k q(3) unfolding hook_inv_def slots_ok_def p
      by (auto simp: update_credential_def nth_list_update)
    moreover have "places_ok ?r" using ci k lim q unfolding hook_inv_def places_ok_def p
      by (auto simp: update_credential_def)
    moreover have "sizes_ok ?r" using ci False q(1) unfolding hook_inv_def sizes_ok_def
      by (auto simp: update_credential_def)
    ultimately show ?thesis using False by (simp add: hook_inv_def handle_body_def Let_def)
  qed
qed

lemma drop_delivery_inv:
  assumes inv: "hook_inv r" and p: "hr_processing r = Some d"
  shows "hook_inv ((update_credential (de_credential d) (\<lambda>c. c\<lparr>cr_queued := cr_queued c - 1\<rparr>) r)
           \<lparr>hr_processing := None\<rparr>)" (is "hook_inv ?r")
proof -
  have pend: "pending r = d # pending ?r" using p by (simp add: pending_def update_credential_def)
  have k: "de_credential d < length (hr_credentials r)"
    using inv unfolding hook_inv_def places_ok_def pend by simp
  have len: "length (hr_credentials ?r) = length (hr_credentials r)" "hr_connections ?r = hr_connections r"
    "hr_sessions ?r = hr_sessions r" "hr_body_limit ?r = hr_body_limit r"
    "hr_authenticated ?r = hr_authenticated r"
    by (simp_all add: update_credential_def)
  have cred: "hr_credentials ?r ! i = (if i = de_credential d then (hr_credentials r ! i)
      \<lparr>cr_queued := cr_queued (hr_credentials r ! i) - 1\<rparr> else hr_credentials r ! i)" for i
    using k by (simp add: update_credential_def nth_list_update)
  have "slots_ok ?r" unfolding slots_ok_def len
  proof (intro allI impI)
    fix i assume i: "i < length (hr_credentials r)"
    have "cr_connections (hr_credentials r ! i) = tally (\<lambda>c. co_credential c = i) (hr_connections r)"
      "tally (\<lambda>c. co_credential c = i) (hr_connections r) \<le> PER_SESSION_CONNECTION_LIMIT"
      "cr_queued (hr_credentials r ! i) = tally (\<lambda>d. de_credential d = i) (d # pending ?r)"
      "tally (\<lambda>d. de_credential d = i) (d # pending ?r) \<le> PER_SESSION_QUEUE_LIMIT"
      using inv i unfolding hook_inv_def slots_ok_def pend by blast+
    then show "cr_connections (hr_credentials ?r ! i) = tally (\<lambda>c. co_credential c = i) (hr_connections r)
        \<and> tally (\<lambda>c. co_credential c = i) (hr_connections r) \<le> PER_SESSION_CONNECTION_LIMIT
        \<and> cr_queued (hr_credentials ?r ! i) = tally (\<lambda>d. de_credential d = i) (pending ?r)
        \<and> tally (\<lambda>d. de_credential d = i) (pending ?r) \<le> PER_SESSION_QUEUE_LIMIT"
      unfolding cred by (cases "i = de_credential d") simp_all
  qed
  moreover have "places_ok ?r" using inv unfolding hook_inv_def places_ok_def pend len by simp
  moreover have "sizes_ok ?r" using inv unfolding hook_inv_def sizes_ok_def
    by (simp add: update_credential_def)
  ultimately show ?thesis by (simp add: hook_inv_def)
qed

lemma tally_none: "\<forall>x\<in>set xs. \<not> P x \<Longrightarrow> tally P xs = 0"
  by (simp add: tally_0_set)

lemma credential_register_inv:
  assumes inv: "hook_inv r"
  shows "hook_inv (register p s w token now r)"
proof -
  let ?n = "length (hr_credentials r)"
  have "tally (\<lambda>c. co_credential c = ?n) (hr_connections r) = 0"
    "tally (\<lambda>d. de_credential d = ?n) (pending r) = 0"
    using inv by (auto simp: hook_inv_def places_ok_def intro!: tally_none)
  moreover have "length (hr_credentials (register p s w token now r)) = Suc ?n"
    "hr_connections (register p s w token now r) = hr_connections r"
    "pending (register p s w token now r) = pending r"
    "cr_connections (hr_credentials (register p s w token now r) ! ?n) = 0"
    "cr_queued (hr_credentials (register p s w token now r) ! ?n) = 0"
    by (simp_all add: register_def pending_def)
  moreover have "hr_credentials (register p s w token now r) ! i = hr_credentials r ! i" if "i < ?n" for i
    using that by (simp add: register_def nth_append)
  ultimately have "slots_ok (register p s w token now r)"
    using inv by (simp add: hook_inv_def slots_ok_def All_less_Suc)
  moreover have "places_ok (register p s w token now r)"
  proof -
    have "k < Suc ?n" if "k \<in> hm_range (hr_sessions (register p s w token now r))" for k
      using that inv hm_range_insert [of s ?n "hr_sessions r"]
      by (fastforce simp: register_def hook_inv_def places_ok_def)
    moreover have "distinct (map snd (hm_insert s ?n (hr_sessions r)))"
      using inv by (auto simp: hook_inv_def places_ok_def hm_insert_def hm_remove_def hm_range_def
          distinct_map_filter)
    ultimately show ?thesis using inv
      by (simp add: hook_inv_def places_ok_def register_def pending_def less_Suc_eq)
  qed
  moreover have "sizes_ok (register p s w token now r)"
    using inv by (simp add: hook_inv_def sizes_ok_def register_def)
  ultimately show ?thesis by (simp add: hook_inv_def)
qed

lemma invalidate_inv: "hook_inv r \<Longrightarrow> hook_inv (invalidate s r)" "hook_inv r \<Longrightarrow> hook_inv (invalidate_all r)"
  using hm_range_remove [of s "hr_sessions r"]
  by (auto simp: hook_inv_def slots_ok_def places_ok_def sizes_ok_def invalidate_def
      invalidate_all_def pending_def hm_remove_def distinct_map_filter)

lemma reading_inv:
  "hook_inv r \<Longrightarrow> n + length (hr_authenticated r) + length (hr_connections r) \<le> CONNECTION_LIMIT \<Longrightarrow> hook_inv (r\<lparr>hr_reading := n\<rparr>)"
  by (simp add: hook_inv_def slots_ok_def places_ok_def sizes_ok_def pending_def)

lemma take_delivery_inv:
  assumes inv: "hook_inv r" and "hr_processing r = None" "hr_queue r = d # ds"
  shows "hook_inv (r\<lparr>hr_processing := Some d, hr_queue := ds\<rparr>)"
proof -
  have "pending (r\<lparr>hr_processing := Some d, hr_queue := ds\<rparr>) = pending r"
    using assms(2,3) by (simp add: pending_def)
  then show ?thesis using inv assms(3)
    by (simp add: hook_inv_def slots_ok_def places_ok_def sizes_ok_def)
qed

lemma hook_step_inv:
  assumes inv: "hook_inv r"
  shows "hook_inv (hook_step pu sha r a)"
proof (cases a)
  case Accept
  then show ?thesis using inv reading_inv [OF inv, of "hr_reading r + 1"] by simp
next
  case (HeadersRead h)
  have sizes: "hr_reading r + length (hr_authenticated r) + length (hr_connections r) \<le> CONNECTION_LIMIT"
    using inv by (simp add: hook_inv_def sizes_ok_def)
  show ?thesis
  proof (cases "hr_reading r = 0")
    case True
    then show ?thesis using inv HeadersRead by simp
  next
    case False
    let ?r = "r\<lparr>hr_reading := hr_reading r - 1\<rparr>"
    have room: "hr_reading r - 1 + length (hr_authenticated r) + length (hr_connections r) < CONNECTION_LIMIT"
      using sizes False by linarith
    have "hook_inv (snd (handle_headers pu h ?r))"
      by (rule handle_headers_inv [OF reading_inv [OF inv]]) (use room in simp_all)
    then show ?thesis using False HeadersRead by simp
  qed
next
  case (Admission i now)
  then show ?thesis using inv handle_admission_inv by simp
next
  case HeadersRefused
  have "hr_reading r - 1 + length (hr_authenticated r) + length (hr_connections r) \<le> CONNECTION_LIMIT"
    using inv by (simp add: hook_inv_def sizes_ok_def) linarith
  then show ?thesis using HeadersRefused reading_inv [OF inv] by simp
next
  case (BodyRead j body)
  then show ?thesis using inv handle_body_inv by simp
next
  case (BodyEnded j)
  then show ?thesis using inv close_connection_inv by simp
next
  case TakeDelivery
  then show ?thesis using inv take_delivery_inv [OF inv] by (simp split: option.split list.split)
next
  case DropDelivery
  then show ?thesis using inv drop_delivery_inv [OF inv] by (simp split: option.split)
next
  case (Register p s w token now)
  then show ?thesis using credential_register_inv [OF inv] by simp
qed (simp_all add: invalidate_inv inv)

interpretation hook: step_invariant "hook_step pu sha" hook_inv for pu sha
  by unfold_locales (rule hook_step_inv)

text \<open>What a step can add: a connection that was just authenticated, a delivery of a connection.\<close>

lemma authenticate_mapped: "authenticate token s w r = Some k \<Longrightarrow> map_of (hr_sessions r) s = Some k"
  by (auto simp: authenticate_def split: option.splits if_splits)

lemma handle_body_cases:
  assumes "j < length (hr_connections r)"
  shows "set (hr_connections (snd (handle_body sha j body r))) \<subseteq> set (hr_connections r)"
    "set (pending (snd (handle_body sha j body r))) \<subseteq> set (pending r) \<union>
       {\<lparr>de_provider = cr_provider (hr_credentials r ! co_credential (hr_connections r ! j)),
         de_session = co_session (hr_connections r ! j), de_worktree = co_worktree (hr_connections r ! j),
         de_fingerprint = sha body, de_payload = body,
         de_credential = co_credential (hr_connections r ! j)\<rparr>}"
    "hr_sessions (snd (handle_body sha j body r)) = hr_sessions r"
    "length (hr_credentials (snd (handle_body sha j body r))) = length (hr_credentials r)"
    "hr_authenticated (snd (handle_body sha j body r)) = hr_authenticated r"
  by (auto simp: handle_body_def Let_def close_connection_def update_credential_def pending_def
      dest: in_set_takeD in_set_dropD)

definition quiet :: "nat \<Rightarrow> receiver \<Rightarrow> bool" where
  "quiet k r \<longleftrightarrow> k < length (hr_credentials r) \<and> k \<notin> hm_range (hr_sessions r)
     \<and> (\<forall>a\<in>set (hr_authenticated r). au_credential a \<noteq> k)
     \<and> (\<forall>c\<in>set (hr_connections r). co_credential c \<noteq> k) \<and> (\<forall>d\<in>set (pending r). de_credential d \<noteq> k)"

lemma quiet_headers:
  assumes q: "quiet k r"
  shows "quiet k (snd (handle_headers pu h r))"
proof -
  obtain res r' where h: "handle_headers pu h r = (res, r')" by fastforce
  then show ?thesis
  proof (cases rule: handle_headers_cases)
    case (refused e)
    then show ?thesis using q h by simp
  next
    case (accepted x s w i)
    have "i \<in> hm_range (hr_sessions r)"
      using authenticate_mapped [OF accepted(5)] by (force simp: hm_range_def dest: map_of_SomeD)
    then have "i \<noteq> k" using q by (auto simp: quiet_def)
    then show ?thesis using q unfolding h accepted(6) by (auto simp: quiet_def pending_def)
  qed
qed

lemma quiet_leave: "quiet k r \<Longrightarrow> quiet k (leave_authenticated i r)"
  using leave_authenticated_subset [of i r]
  by (auto simp: quiet_def simp del: leave_authenticated_simps(9))

lemma quiet_admission:
  assumes q: "quiet k r" and i: "i < length (hr_authenticated r)"
  shows "quiet k (snd (handle_admission now i r))"
proof -
  obtain res r' where h: "handle_admission now i r = (res, r')" by fastforce
  have l: "quiet k (leave_authenticated i r)" by (rule quiet_leave [OF q])
  have limits: "quiet k r1" if "only_limits (leave_authenticated i r) r1" for r1
    using l only_limitsD [OF that] that by (simp add: quiet_def only_limits_def)
  from h show ?thesis
  proof (cases rule: handle_admission_cases)
    case (refused e)
    then show ?thesis using limits h by simp
  next
    case (accepted a j n r1)
    have "j \<noteq> k" using q nth_mem [OF i] accepted(2,3) by (auto simp: quiet_def)
    moreover have "quiet k r1" by (rule limits [OF accepted(5)])
    moreover have "hr_connections r1 = hr_connections r" using accepted(5) by (simp add: only_limits_def)
    ultimately show ?thesis unfolding h accepted(7)
      by (auto simp: quiet_def update_credential_def pending_def)
  qed
qed

lemma quiet_step:
  assumes q: "quiet k r"
  shows "quiet k (hook_step pu sha r a)"
proof (cases a)
  case (HeadersRead h)
  have "quiet k (r\<lparr>hr_reading := hr_reading r - 1\<rparr>)" using q by (simp add: quiet_def pending_def)
  then show ?thesis using q HeadersRead quiet_headers by simp
next
  case (Admission i now)
  then show ?thesis using q quiet_admission by simp
next
  case (BodyRead j body)
  have "quiet k (snd (handle_body sha j body r))" if j: "j < length (hr_connections r)"
    using q handle_body_cases [OF j, of sha body] nth_mem [OF j] unfolding quiet_def by fastforce
  then show ?thesis using q BodyRead by simp
next
  case (BodyEnded j)
  then show ?thesis using q
    by (auto simp: quiet_def close_connection_def update_credential_def pending_def
        dest: in_set_takeD in_set_dropD)
next
  case TakeDelivery
  then show ?thesis using q by (auto simp: quiet_def pending_def split: option.split list.split)
next
  case DropDelivery
  then show ?thesis using q
    by (auto simp: quiet_def pending_def update_credential_def split: option.split)
next
  case (Register p s w token now)
  have "k \<notin> hm_range (hm_insert s (length (hr_credentials r)) (hr_sessions r))"
    using q hm_range_insert [of s "length (hr_credentials r)" "hr_sessions r"] by (auto simp: quiet_def)
  then show ?thesis using q Register by (simp add: quiet_def register_def pending_def)
next
  case (Invalidate s)
  have "k \<notin> hm_range (hm_remove s (hr_sessions r))"
    using q hm_range_remove [of s "hr_sessions r"] by (auto simp: quiet_def)
  then show ?thesis using q Invalidate by (simp add: quiet_def invalidate_def pending_def)
qed (use q in \<open>simp_all add: quiet_def pending_def invalidate_all_def\<close>)

interpretation silence: step_invariant "hook_step pu sha" "quiet k" for pu sha k
  by unfold_locales (rule quiet_step)

lemma drained_quiet:
  assumes "hook_inv r" "k < length (hr_credentials r)" "k \<notin> hm_range (hr_sessions r)" "drained k r"
    and "\<forall>a\<in>set (hr_authenticated r). au_credential a \<noteq> k"
  shows "quiet k r"
  using assms by (auto simp: quiet_def drained_def hook_inv_def slots_ok_def tally_0_set)

definition unmapped :: "nat \<Rightarrow> receiver \<Rightarrow> bool" where
  "unmapped k r \<longleftrightarrow> k < length (hr_credentials r) \<and> k \<notin> hm_range (hr_sessions r)"

lemma unmapped_invalidate:
  assumes inv: "hook_inv r" and s: "map_of (hr_sessions r) s = Some k"
  shows "unmapped k (invalidate s r)"
proof -
  have "(s, k) \<in> set (hr_sessions r)" using s by (rule map_of_SomeD)
  moreover have "inj_on snd (set (hr_sessions r))" "k < length (hr_credentials r)"
    using inv calculation by (auto simp: hook_inv_def places_ok_def distinct_map hm_range_def)
  ultimately have "k \<notin> hm_range (hm_remove s (hr_sessions r))"
    unfolding hm_range_def set_hm_remove inj_on_def by fastforce
  then show ?thesis using \<open>k < length (hr_credentials r)\<close> by (simp add: unmapped_def invalidate_def)
qed

section \<open>Authenticity\<close>

text \<open>What a step never changes of a credential.\<close>

definition key :: "credential \<Rightarrow> provider_kind \<times> worktree_id \<times> str" where
  "key c = (cr_provider c, cr_worktree c, cr_token c)"

definition keeps_keys :: "receiver \<Rightarrow> receiver \<Rightarrow> bool" where
  "keeps_keys r r' \<longleftrightarrow> length (hr_credentials r) \<le> length (hr_credentials r')
     \<and> (\<forall>k < length (hr_credentials r). key (hr_credentials r' ! k) = key (hr_credentials r ! k))"

lemma keeps_keys_update:
  assumes "\<And>c. key (f c) = key c"
  shows "keeps_keys r (update_credential k f r)"
  by (cases "k < length (hr_credentials r)")
    (auto simp: keeps_keys_def update_credential_def nth_list_update assms)

lemma keeps_keys_trans: "keeps_keys r r1 \<Longrightarrow> keeps_keys r1 r2 \<Longrightarrow> keeps_keys r r2"
  by (auto simp: keeps_keys_def)

lemma keeps_keys_cong: "hr_credentials r2 = hr_credentials r1 \<Longrightarrow> keeps_keys r r2 = keeps_keys r r1"
  by (simp add: keeps_keys_def)

lemma keeps_keys_same: "hr_credentials r' = hr_credentials r \<Longrightarrow> keeps_keys r r'"
  by (simp add: keeps_keys_def)

lemma keeps_keys_limits: "only_limits r r' \<Longrightarrow> keeps_keys r r'"
  using only_limitsD(1,2) [of r r'] by (simp add: keeps_keys_def key_def core_def)

lemma keeps_keys_close: "keeps_keys r (close_connection j r)"
proof -
  have "keeps_keys r (update_credential (co_credential (hr_connections r ! j))
      (\<lambda>c. c\<lparr>cr_connections := cr_connections c - 1\<rparr>) r)"
    by (rule keeps_keys_update) (simp add: key_def)
  then show ?thesis unfolding close_connection_def by (subst keeps_keys_cong) simp_all
qed

lemma keeps_keys_body: "keeps_keys r (snd (handle_body sha j body r))"
proof -
  have "keeps_keys r (update_credential k (\<lambda>c. c\<lparr>cr_queued := cr_queued c + 1\<rparr>) (close_connection j r))" for k
    by (rule keeps_keys_trans [OF keeps_keys_close keeps_keys_update]) (simp add: key_def)
  then show ?thesis using keeps_keys_close
    by (simp add: handle_body_def Let_def) (simp add: keeps_keys_def)
qed

lemma keeps_keys_headers: "keeps_keys r (snd (handle_headers pu h r))"
proof -
  obtain res r' where h: "handle_headers pu h r = (res, r')" by fastforce
  then show ?thesis by (cases rule: handle_headers_cases) (auto simp: h intro!: keeps_keys_same)
qed

lemma keeps_keys_admission: "keeps_keys r (snd (handle_admission now i r))"
proof -
  obtain res r' where h: "handle_admission now i r = (res, r')" by fastforce
  have limits: "keeps_keys r r1" if "only_limits (leave_authenticated i r) r1" for r1
    using keeps_keys_limits [OF that] by (simp add: keeps_keys_def)
  from h show ?thesis
  proof (cases rule: handle_admission_cases)
    case (refused e)
    then show ?thesis using h limits by simp
  next
    case (accepted a k n r1)
    have "keeps_keys r (update_credential k (\<lambda>c. c\<lparr>cr_connections := cr_connections c + 1\<rparr>) r1)"
      by (rule keeps_keys_trans [OF limits [OF accepted(5)] keeps_keys_update]) (simp add: key_def)
    then show ?thesis unfolding h accepted(7) by (simp add: keeps_keys_def)
  qed
qed

lemma keeps_keys_step: "keeps_keys r (hook_step pu sha r a)"
proof (cases a)
  case (HeadersRead h)
  show ?thesis unfolding HeadersRead using keeps_keys_headers [of "r\<lparr>hr_reading := hr_reading r - 1\<rparr>" pu h]
    by (simp add: keeps_keys_def)
next
  case (Admission i now)
  then show ?thesis using keeps_keys_admission by (simp add: keeps_keys_same)
next
  case (BodyRead j body)
  then show ?thesis using keeps_keys_body by (simp add: keeps_keys_same)
next
  case (BodyEnded j)
  then show ?thesis using keeps_keys_close by (simp add: keeps_keys_same)
next
  case DropDelivery
  have "keeps_keys r (update_credential k (\<lambda>c. c\<lparr>cr_queued := cr_queued c - 1\<rparr>) r)" for k
    by (rule keeps_keys_update) (simp add: key_def)
  then show ?thesis using DropDelivery by (simp add: keeps_keys_def split: option.split)
next
  case (Register p s w token now)
  then show ?thesis by (simp add: keeps_keys_def register_def nth_append)
qed (auto simp: keeps_keys_def invalidate_def invalidate_all_def split: option.split list.split)

lemma headers_frame:
  "hr_sessions (snd (handle_headers pu h r)) = hr_sessions r"
  "hr_body_limit (snd (handle_headers pu h r)) = hr_body_limit r"
proof -
  obtain res r' where h: "handle_headers pu h r = (res, r')" by fastforce
  then have "hr_sessions r' = hr_sessions r \<and> hr_body_limit r' = hr_body_limit r"
    by (cases rule: handle_headers_cases) auto
  then show "hr_sessions (snd (handle_headers pu h r)) = hr_sessions r"
    "hr_body_limit (snd (handle_headers pu h r)) = hr_body_limit r" using h by simp_all
qed

lemma admission_frame:
  "hr_sessions (snd (handle_admission now i r)) = hr_sessions r"
  "hr_body_limit (snd (handle_admission now i r)) = hr_body_limit r"
proof -
  obtain res r' where h: "handle_admission now i r = (res, r')" by fastforce
  then have "hr_sessions r' = hr_sessions r \<and> hr_body_limit r' = hr_body_limit r"
    by (cases rule: handle_admission_cases) (auto simp: only_limits_def update_credential_def)
  then show "hr_sessions (snd (handle_admission now i r)) = hr_sessions r"
    "hr_body_limit (snd (handle_admission now i r)) = hr_body_limit r" using h by simp_all
qed

lemma sessions_step:
  "hr_sessions (hook_step pu sha r a) = hr_sessions r
   \<or> (\<exists>s. hr_sessions (hook_step pu sha r a) = hm_insert s (length (hr_credentials r)) (hr_sessions r))
   \<or> (\<exists>s. hr_sessions (hook_step pu sha r a) = hm_remove s (hr_sessions r))
   \<or> hr_sessions (hook_step pu sha r a) = []"
proof (cases a)
  case (HeadersRead h)
  then show ?thesis by (simp add: headers_frame)
next
  case (Admission i now)
  then show ?thesis by (simp add: admission_frame)
next
  case (BodyRead j body)
  then show ?thesis using handle_body_cases(3) [of j r sha body] by simp
next
  case (Register p s w token now)
  then show ?thesis by (auto simp: register_def)
next
  case (Invalidate s)
  then show ?thesis by (auto simp: invalidate_def)
qed (auto simp: invalidate_all_def close_connection_def update_credential_def split: option.split list.split)

lemma unmapped_step: "unmapped k r \<Longrightarrow> unmapped k (hook_step pu sha r a)"
  using sessions_step [of pu sha r a] keeps_keys_step [of r pu sha a]
    hm_range_insert [of _ "length (hr_credentials r)" "hr_sessions r"] hm_range_remove [of _ "hr_sessions r"]
  unfolding unmapped_def keeps_keys_def by (auto; blast)

interpretation unmapped: step_invariant "hook_step pu sha" "unmapped k" for pu sha k
  by unfold_locales (rule unmapped_step)

lemma body_limit_step: "hr_body_limit (hook_step pu sha r a) = hr_body_limit r"
proof (cases a)
  case (HeadersRead h)
  then show ?thesis by (simp add: headers_frame)
next
  case (Admission i now)
  then show ?thesis by (simp add: admission_frame)
qed (auto simp: handle_body_def Let_def register_def invalidate_def invalidate_all_def
    close_connection_def update_credential_def split: option.split list.split)

lemma body_limit_run: "hr_body_limit (foldl (hook_step pu sha) r as) = hr_body_limit r"
  by (induction as arbitrary: r) (simp_all add: body_limit_step)

text \<open>A registration of a Provider, Session and Worktree in the history, and a request that
  presented the token it was given.\<close>

definition authentic ::
    "(str \<Rightarrow> uuid option) \<Rightarrow> hook_action list \<Rightarrow> provider_kind \<Rightarrow> session_id \<Rightarrow> worktree_id \<Rightarrow> bool" where
  "authentic pu as p s w \<longleftrightarrow> (\<exists>token now h q supplied.
       Register p s w token now \<in> set as \<and> HeadersRead h \<in> set as
     \<and> parse_request pu h = Inr q \<and> rq_session q = Some s \<and> rq_worktree q = Some w
     \<and> rq_authorization q = Some (lit ''Bearer '' @ supplied) \<and> utf8_bytes supplied = utf8_bytes token)"

definition registered :: "hook_action list \<Rightarrow> session_id \<Rightarrow> provider_kind \<times> worktree_id \<times> str \<Rightarrow> bool" where
  "registered as s = (\<lambda>(p, w, token). \<exists>now. Register p s w token now \<in> set as)"

definition history_ok :: "(str \<Rightarrow> uuid option) \<Rightarrow> hook_action list \<Rightarrow> receiver \<Rightarrow> bool" where
  "history_ok pu as r \<longleftrightarrow>
     (\<forall>s k. map_of (hr_sessions r) s = Some k \<longrightarrow>
        k < length (hr_credentials r) \<and> registered as s (key (hr_credentials r ! k)))
   \<and> (\<forall>a\<in>set (hr_authenticated r). au_credential a < length (hr_credentials r)
        \<and> authentic pu as (cr_provider (hr_credentials r ! au_credential a)) (au_session a) (au_worktree a))
   \<and> (\<forall>c\<in>set (hr_connections r). co_credential c < length (hr_credentials r)
        \<and> authentic pu as (cr_provider (hr_credentials r ! co_credential c)) (co_session c) (co_worktree c))
   \<and> (\<forall>d\<in>set (pending r). authentic pu as (de_provider d) (de_session d) (de_worktree d))"

lemma history_mono:
  "authentic pu as p s w \<Longrightarrow> authentic pu (as @ [a]) p s w"
  "registered as s x \<Longrightarrow> registered (as @ [a]) s x"
  unfolding authentic_def registered_def by (auto split: prod.splits)

lemma history_frame:
  assumes h: "history_ok pu as r" and keys: "keeps_keys r r'"
    and s: "\<And>s k. map_of (hr_sessions r') s = Some k \<Longrightarrow> map_of (hr_sessions r) s = Some k"
    and a: "set (hr_authenticated r') \<subseteq> set (hr_authenticated r)"
    and c: "set (hr_connections r') \<subseteq> set (hr_connections r)"
    and d: "set (pending r') \<subseteq> set (pending r)"
  shows "history_ok pu (as @ [a]) r'"
proof -
  have k: "k < length (hr_credentials r') \<and> key (hr_credentials r' ! k) = key (hr_credentials r ! k)"
    if "k < length (hr_credentials r)" for k
    using that keys by (auto simp: keeps_keys_def)
  have p: "cr_provider (hr_credentials r' ! k) = cr_provider (hr_credentials r ! k)"
    if "k < length (hr_credentials r)" for k using k [OF that] by (simp add: key_def)
  show ?thesis unfolding history_ok_def
  proof (intro conjI allI impI ballI)
    fix s k assume "map_of (hr_sessions r') s = Some k"
    then have "k < length (hr_credentials r)" "registered as s (key (hr_credentials r ! k))"
      using assms(3) h by (auto simp: history_ok_def)
    then show "k < length (hr_credentials r')" "registered (as @ [a]) s (key (hr_credentials r' ! k))"
      using k history_mono(2) by auto
  next
    fix x assume "x \<in> set (hr_authenticated r')"
    then have x: "au_credential x < length (hr_credentials r)"
      "authentic pu as (cr_provider (hr_credentials r ! au_credential x)) (au_session x) (au_worktree x)"
      using a h by (auto simp: history_ok_def)
    show "au_credential x < length (hr_credentials r')" using k [OF x(1)] by simp
    show "authentic pu (as @ [a]) (cr_provider (hr_credentials r' ! au_credential x)) (au_session x) (au_worktree x)"
      unfolding p [OF x(1)] by (rule history_mono(1) [OF x(2)])
  next
    fix x assume "x \<in> set (hr_connections r')"
    then have x: "co_credential x < length (hr_credentials r)"
      "authentic pu as (cr_provider (hr_credentials r ! co_credential x)) (co_session x) (co_worktree x)"
      using c h by (auto simp: history_ok_def)
    show "co_credential x < length (hr_credentials r')" using k [OF x(1)] by simp
    show "authentic pu (as @ [a]) (cr_provider (hr_credentials r' ! co_credential x)) (co_session x) (co_worktree x)"
      unfolding p [OF x(1)] by (rule history_mono(1) [OF x(2)])
  next
    fix x assume "x \<in> set (pending r')"
    then show "authentic pu (as @ [a]) (de_provider x) (de_session x) (de_worktree x)"
      using d h history_mono(1) by (auto simp: history_ok_def)
  qed
qed

lemma history_headers:
  assumes h: "history_ok pu as r"
  shows "history_ok pu (as @ [HeadersRead headers]) (snd (handle_headers pu headers r))"
proof -
  obtain res r' where e: "handle_headers pu headers r = (res, r')" by fastforce
  let ?as = "as @ [HeadersRead headers]"
  have r: "history_ok pu ?as r" by (rule history_frame [OF h keeps_keys_same]) simp_all
  from e show ?thesis
  proof (cases rule: handle_headers_cases)
    case (refused e')
    then show ?thesis using r e by simp
  next
    case (accepted q s w k)
    have k: "k < length (hr_credentials r)" "registered as s (key (hr_credentials r ! k))"
      using authenticate_mapped [OF accepted(5)] h by (auto simp: history_ok_def)
    obtain supplied where sup: "Option.bind (rq_authorization q) (strip_prefix (lit ''Bearer '')) = Some supplied"
      "utf8_bytes supplied = utf8_bytes (cr_token (hr_credentials r ! k))" "cr_worktree (hr_credentials r ! k) = w"
      using accepted(5) by (auto simp: authenticate_def split: option.splits if_splits)
    then obtain auth where "rq_authorization q = Some auth" "strip_prefix (lit ''Bearer '') auth = Some supplied"
      by (auto simp: bind_eq_Some_conv)
    then have auth: "rq_authorization q = Some (lit ''Bearer '' @ supplied)" using strip_prefix_Some by simp
    obtain n0 where "Register (cr_provider (hr_credentials r ! k)) s w (cr_token (hr_credentials r ! k)) n0 \<in> set ?as"
      using k(2) sup(3) by (auto simp: registered_def key_def)
    moreover have "HeadersRead headers \<in> set ?as" by simp
    ultimately have "authentic pu ?as (cr_provider (hr_credentials r ! k)) s w"
      using accepted(2-4) sup(2) auth unfolding authentic_def by blast
    then show ?thesis using r k(1) unfolding e history_ok_def by (auto simp: accepted(6) pending_def)
  qed
qed

lemma history_admission:
  assumes h: "history_ok pu as r" and i: "i < length (hr_authenticated r)"
  shows "history_ok pu (as @ [a]) (snd (handle_admission now i r))"
proof -
  obtain res r' where e: "handle_admission now i r = (res, r')" by fastforce
  have limits: "history_ok pu (as @ [a]) r1" if "only_limits (leave_authenticated i r) r1" for r1
    using keeps_keys_limits [OF that] only_limitsD(3) [OF that] that leave_authenticated_subset [of i r]
    by (intro history_frame [OF h]) (auto simp: only_limits_def keeps_keys_def simp del: leave_authenticated_simps(9))
  from e show ?thesis
  proof (cases rule: handle_admission_cases)
    case (refused e')
    then show ?thesis using limits e by simp
  next
    case (accepted x k n r1)
    have x: "k < length (hr_credentials r)"
      "authentic pu as (cr_provider (hr_credentials r ! k)) (au_session x) (au_worktree x)"
      using nth_mem [OF i] accepted(2,3) h by (auto simp: history_ok_def)
    have keys: "keeps_keys r r'" using keeps_keys_admission [of r now i] e by simp
    have "key (hr_credentials r' ! k) = key (hr_credentials r ! k)" "k < length (hr_credentials r')"
      using keys x(1) by (auto simp: keeps_keys_def)
    then have new: "k < length (hr_credentials r')"
      "authentic pu (as @ [a]) (cr_provider (hr_credentials r' ! k)) (au_session x) (au_worktree x)"
      using history_mono(1) [OF x(2)] by (simp_all add: key_def)
    let ?r = "r'\<lparr>hr_connections := hr_connections r1\<rparr>"
    have auths: "set (hr_authenticated r') \<subseteq> set (hr_authenticated r)"
      using leave_authenticated_subset [of i r] accepted(5,7)
      by (simp add: only_limits_def update_credential_def del: leave_authenticated_simps(9))
    have "keeps_keys r ?r" using keys by (simp add: keeps_keys_def)
    then have old: "history_ok pu (as @ [a]) ?r"
      by (rule history_frame [OF h])
        (use accepted(5,7) auths in \<open>simp_all add: only_limits_def update_credential_def pending_def
           del: leave_authenticated_simps(9)\<close>)
    have conns: "hr_connections r' = hr_connections r1 @
        [\<lparr>co_credential = k, co_session = au_session x, co_worktree = au_worktree x, co_length = n\<rparr>]"
      using accepted(5,7) by (simp add: only_limits_def)
    show ?thesis using old new unfolding e history_ok_def by (auto simp: conns pending_def)
  qed
qed

lemma history_step:
  assumes h: "history_ok pu as r"
  shows "history_ok pu (as @ [a]) (hook_step pu sha r a)"
proof (cases a)
  case (HeadersRead headers)
  have "history_ok pu as (r\<lparr>hr_reading := n\<rparr>)" for n
    using h by (simp add: history_ok_def pending_def)
  then show ?thesis
    using HeadersRead history_headers history_frame [OF h keeps_keys_same] by simp
next
  case (Admission i now)
  show ?thesis
  proof (cases "i < length (hr_authenticated r)")
    case True
    then show ?thesis using Admission history_admission [OF h True] by simp
  next
    case False
    then show ?thesis using Admission history_frame [OF h keeps_keys_same, of r a] by simp
  qed
next
  case (BodyRead j body)
  show ?thesis
  proof (cases "j < length (hr_connections r) \<and> length body = co_length (hr_connections r ! j)")
    case True
    note b = handle_body_cases [of j r sha body]
    have new: "authentic pu as (cr_provider (hr_credentials r ! co_credential (hr_connections r ! j)))
        (co_session (hr_connections r ! j)) (co_worktree (hr_connections r ! j))"
      using h True by (auto simp: history_ok_def)
    have "history_ok pu (as @ [a]) ((snd (handle_body sha j body r))
        \<lparr>hr_queue := hr_queue r, hr_processing := hr_processing r\<rparr>)"
      by (rule history_frame [OF h])
        (use b True keeps_keys_body [of r sha j body] in \<open>auto simp: keeps_keys_def pending_def\<close>)
    moreover have "\<forall>d\<in>set (pending (snd (handle_body sha j body r))).
        authentic pu (as @ [a]) (de_provider d) (de_session d) (de_worktree d)"
    proof
      fix d assume "d \<in> set (pending (snd (handle_body sha j body r)))"
      then consider "d \<in> set (pending r)"
        | "de_provider d = cr_provider (hr_credentials r ! co_credential (hr_connections r ! j))"
          "de_session d = co_session (hr_connections r ! j)" "de_worktree d = co_worktree (hr_connections r ! j)"
        using b(2) True by fastforce
      then show "authentic pu (as @ [a]) (de_provider d) (de_session d) (de_worktree d)"
        using h history_mono(1) new by cases (auto simp: history_ok_def)
    qed
    ultimately show ?thesis using BodyRead True by (simp add: history_ok_def)
  next
    case False
    then show ?thesis using BodyRead history_frame [OF h keeps_keys_same, of r a] by auto
  qed
next
  case (BodyEnded j)
  have "set (hr_connections (close_connection j r)) \<subseteq> set (hr_connections r)"
    "hr_authenticated (close_connection j r) = hr_authenticated r"
    "hr_sessions (close_connection j r) = hr_sessions r" "pending (close_connection j r) = pending r"
    by (auto simp: close_connection_def update_credential_def pending_def dest: in_set_takeD in_set_dropD)
  then show ?thesis using BodyEnded history_frame [OF h keeps_keys_close, of j a]
      history_frame [OF h keeps_keys_same, of r a] by simp
next
  case TakeDelivery
  have "pending (hook_step pu sha r a) = pending r"
    using TakeDelivery by (auto simp: pending_def split: option.split list.split)
  then show ?thesis
    by (intro history_frame [OF h keeps_keys_step]) (auto simp: TakeDelivery split: option.splits list.splits)
next
  case (Register p s w token now)
  have "history_ok pu (as @ [a]) ((register p s w token now r)\<lparr>hr_sessions := hr_sessions r\<rparr>)"
    by (rule history_frame [OF h])
      (simp_all add: keeps_keys_def register_def nth_append pending_def)
  moreover have "registered (as @ [a]) s (p, w, token)" by (simp add: registered_def Register) blast
  ultimately show ?thesis
    using Register by (auto simp: history_ok_def register_def key_def pending_def nth_append split: if_splits)
next
  case (Invalidate s)
  show ?thesis
    by (rule history_frame [OF h keeps_keys_step]) (auto simp: Invalidate invalidate_def pending_def split: if_splits)
next
  case DropDelivery
  show ?thesis
    by (rule history_frame [OF h keeps_keys_step])
      (auto simp: DropDelivery pending_def update_credential_def split: option.splits)
next
  case InvalidateAll
  show ?thesis
    by (rule history_frame [OF h keeps_keys_step]) (auto simp: InvalidateAll invalidate_all_def pending_def)
next
  case Accept
  show ?thesis
    by (rule history_frame [OF h keeps_keys_step]) (auto simp: Accept pending_def split: if_splits)
next
  case HeadersRefused
  show ?thesis
    by (rule history_frame [OF h keeps_keys_step]) (simp_all add: HeadersRefused pending_def)
qed

lemma history_run: "history_ok pu as (foldl (hook_step pu sha) (receiver_bind b q t) as)"
proof (induction as rule: rev_induct)
  case Nil
  then show ?case by (simp add: history_ok_def receiver_bind_def pending_def)
qed (simp add: history_step)


section \<open>Properties\<close>

text \<open>C17: every queued delivery stands for a registration of exactly that Provider, Session and
  Worktree and for a request that named them and presented the token of the registration, and its
  payload is at most 64 KiB, whatever else connections send and in whatever order.\<close>

theorem delivery_is_authentic:
  assumes "d \<in> set (hr_queue (foldl (hook_step pu sha) (receiver_bind b n t0) as))"
  shows "(\<exists>token now h q supplied.
       Register (de_provider d) (de_session d) (de_worktree d) token now \<in> set as
     \<and> HeadersRead h \<in> set as \<and> parse_request pu h = Inr q
     \<and> rq_session q = Some (de_session d) \<and> rq_worktree q = Some (de_worktree d)
     \<and> rq_authorization q = Some (lit ''Bearer '' @ supplied) \<and> utf8_bytes supplied = utf8_bytes token)
   \<and> length (de_payload d) \<le> MAX_PROVIDER_LIFECYCLE_PAYLOAD_SIZE"
proof -
  let ?r = "foldl (hook_step pu sha) (receiver_bind b n t0) as"
  have d: "d \<in> set (pending ?r)" using assms by (simp add: pending_def)
  have "authentic pu as (de_provider d) (de_session d) (de_worktree d)"
    using history_run [of pu as sha b n t0] d by (simp add: history_ok_def)
  moreover have "hook_inv ?r" by (rule hook.run_inv) simp
  then have "length (de_payload d) \<le> hr_body_limit ?r" using d by (simp add: hook_inv_def places_ok_def)
  then have "length (de_payload d) \<le> MAX_PROVIDER_LIFECYCLE_PAYLOAD_SIZE"
    by (simp add: body_limit_run receiver_bind_def)
  ultimately show ?thesis unfolding authentic_def by blast
qed

text \<open>C18: once the credential of a Session is invalidated, all its permits are free, which is what
  \<open>invalidate_and_drain\<close> waits for, and no connection stands between its authentication and its
  connection slot, no connection and no delivery of that credential ever appears again.\<close>

theorem drained_credential_is_silent:
  assumes "r = foldl (hook_step pu sha) (receiver_bind b n t0) as" "map_of (hr_sessions r) s = Some k"
    and "r' = foldl (hook_step pu sha) (invalidate s r) bs" "drained k r'"
    and "\<forall>a\<in>set (hr_authenticated r'). au_credential a \<noteq> k"
  shows "(\<forall>d\<in>set (pending (foldl (hook_step pu sha) r' cs)). de_credential d \<noteq> k)
     \<and> (\<forall>c\<in>set (hr_connections (foldl (hook_step pu sha) r' cs)). co_credential c \<noteq> k)"
proof -
  have inv: "hook_inv r" unfolding assms(1) by (rule hook.run_inv) simp
  have "unmapped k (invalidate s r)" using inv assms(2) by (rule unmapped_invalidate)
  then have "unmapped k r'" unfolding assms(3) by (rule unmapped.run_inv)
  moreover have "hook_inv r'" unfolding assms(3) by (rule hook.run_inv [OF invalidate_inv(1) [OF inv]])
  ultimately have "quiet k r'" using assms(4,5) by (intro drained_quiet) (simp_all add: unmapped_def)
  then have "quiet k (foldl (hook_step pu sha) r' cs)" by (rule silence.run_inv)
  then show ?thesis by (simp add: quiet_def)
qed

text \<open>C19: a rate limiter accepts at most its limit in the first window and once more for every
  full window that has passed, and never more than 60,000 requests per window.\<close>

theorem requests_are_rate_limited:
  assumes "sorted ts" "\<forall>t\<in>set ts. t0 \<le> t \<and> t \<le> T" "t0 \<le> T"
  shows "accepted_at ts (limiter_new limit t0) \<le> clamp_rate limit * (1 + (T - t0) div RATE_WINDOW)
     \<and> clamp_rate limit \<le> 60000"
  using accepted_bounded [of ts "limiter_new limit t0" T] assms by (simp add: limiter_new_def clamp_rate_def)


section \<open>Witnesses\<close>

text \<open>One registration and one request; the UUID parser reads one digit.\<close>

definition sample_uuid :: "str \<Rightarrow> uuid option" where
  "sample_uuid s = (case s of [c] \<Rightarrow> Some (of_nat (c - 48)) | _ \<Rightarrow> None)"

definition sample_headers :: str where
  "sample_headers = lit ''POST /v1/events HTTP/1.1'' @ [13, 10]
     @ lit ''Authorization: Bearer secret'' @ [13, 10] @ lit ''Content-Type: application/json'' @ [13, 10]
     @ lit ''X-SylvOps-Session-Id: 7'' @ [13, 10] @ lit ''X-SylvOps-Worktree-Id: 3'' @ [13, 10]
     @ lit ''Content-Length: 2'' @ [13, 10, 13, 10]"

definition sample_request :: request where
  "sample_request = \<lparr>rq_content_length = Some 2, rq_content_type = Some (lit ''application/json''),
     rq_authorization = Some (lit ''Bearer secret''), rq_session = Some (SessionId 7),
     rq_worktree = Some (WorktreeId 3)\<rparr>"

lemma sample_lines:
  "split_crlf sample_headers = [lit ''POST /v1/events HTTP/1.1'', lit ''Authorization: Bearer secret'',
     lit ''Content-Type: application/json'', lit ''X-SylvOps-Session-Id: 7'',
     lit ''X-SylvOps-Worktree-Id: 3'', lit ''Content-Length: 2'', [], []]"
  by (simp add: sample_headers_def lit_def)

lemma sample_parse: "parse_request sample_uuid sample_headers = Inr sample_request"
proof -
  have l: "split_once 58 (lit ''Authorization: Bearer secret'')
        = Some (lit ''Authorization'', lit '' Bearer secret'')"
    "split_once 58 (lit ''Content-Type: application/json'')
        = Some (lit ''Content-Type'', lit '' application/json'')"
    "split_once 58 (lit ''X-SylvOps-Session-Id: 7'') = Some (lit ''X-SylvOps-Session-Id'', lit '' 7'')"
    "split_once 58 (lit ''X-SylvOps-Worktree-Id: 3'') = Some (lit ''X-SylvOps-Worktree-Id'', lit '' 3'')"
    "split_once 58 (lit ''Content-Length: 2'') = Some (lit ''Content-Length'', lit '' 2'')"
    by (simp_all add: split_once_def lit_def)
  have h: "add_header sample_uuid (lit ''Authorization'') (lit '' Bearer secret'') r = r\<lparr>rq_authorization := Some (lit ''Bearer secret'')\<rparr>"
    "add_header sample_uuid (lit ''Content-Type'') (lit '' application/json'') r = r\<lparr>rq_content_type := Some (lit ''application/json'')\<rparr>"
    "add_header sample_uuid (lit ''X-SylvOps-Session-Id'') (lit '' 7'') r = r\<lparr>rq_session := Some (SessionId 7)\<rparr>"
    "add_header sample_uuid (lit ''X-SylvOps-Worktree-Id'') (lit '' 3'') r = r\<lparr>rq_worktree := Some (WorktreeId 3)\<rparr>"
    "add_header sample_uuid (lit ''Content-Length'') (lit '' 2'') r = r\<lparr>rq_content_length := Some 2\<rparr>" for r
    by (simp_all add: add_header_def Let_def lit_def trim_def ascii_lowercase_def ascii_lower_def is_ascii_uppercase_def
        is_whitespace_def sample_uuid_def parse_usize_def digits_value_def is_ascii_digit_def)
  have ne: "lit (c # s) \<noteq> []" for c s by (simp add: lit_def)
  show ?thesis
    by (simp add: parse_request_def sample_lines l h ne empty_request_def sample_request_def)
qed

definition sample_actions :: "hook_action list" where
  "sample_actions = [Register Claude (SessionId 7) (WorktreeId 3) (lit ''secret'') 0, Accept,
     HeadersRead sample_headers, Admission 0 5, BodyRead 0 [123, 125]]"

definition sample_receiver :: receiver where
  "sample_receiver = foldl (hook_step sample_uuid (\<lambda>_. lit ''hash'')) (receiver_bind 65536 240 0) sample_actions"

lemma sample_texts:
  "strip_prefix (lit ''Bearer '') (lit ''Bearer secret'') = Some (lit ''secret'')"
  "ascii_lowercase (lit ''application/json'') = lit ''application/json''"
  by code_simp+

definition sample_limiter :: "nat \<Rightarrow> nat \<Rightarrow> rate_limiter" where
  "sample_limiter limit n = \<lparr>rl_limit = limit, rl_started_at = 0, rl_accepted = n\<rparr>"

definition sample_credential :: "nat \<Rightarrow> nat \<Rightarrow> nat \<Rightarrow> credential" where
  "sample_credential n c q = \<lparr>cr_provider = Claude, cr_worktree = WorktreeId 3, cr_token = lit ''secret'',
     cr_limiter = sample_limiter 60 n, cr_body_limit = 65536, cr_connections = c, cr_queued = q\<rparr>"

definition sample_delivery :: delivery where
  "sample_delivery = \<lparr>de_provider = Claude, de_session = SessionId 7, de_worktree = WorktreeId 3,
     de_fingerprint = lit ''hash'', de_payload = [123, 125], de_credential = 0\<rparr>"

definition sample_authenticated :: authenticated where
  "sample_authenticated = \<lparr>au_credential = 0, au_session = SessionId 7, au_worktree = WorktreeId 3,
     au_content_type = Some (lit ''application/json''), au_content_length = Some 2\<rparr>"

lemmas sample_admission_simps = handle_admission_def leave_authenticated_def
  PER_SESSION_CONNECTION_LIMIT_def admit_def limiter_allow_def RATE_WINDOW_def update_credential_def
  sample_credential_def sample_limiter_def

abbreviation sample_step :: "receiver \<Rightarrow> hook_action \<Rightarrow> receiver" where
  "sample_step \<equiv> hook_step sample_uuid (\<lambda>_. lit ''hash'')"

lemma sample_receiver_eq:
  "sample_receiver = \<lparr>hr_sessions = [(SessionId 7, 0)], hr_credentials = [sample_credential 1 0 1],
     hr_requests_per_minute = 60, hr_body_limit = 65536, hr_limiter = sample_limiter 240 1,
     hr_reading = 0, hr_authenticated = [], hr_connections = [], hr_queue = [sample_delivery],
     hr_processing = None\<rparr>"
proof -
  let ?r = "\<lambda>n c q reading l auths conns queue. \<lparr>hr_sessions = [(SessionId 7, 0)],
     hr_credentials = [sample_credential n c q], hr_requests_per_minute = 60, hr_body_limit = 65536,
     hr_limiter = sample_limiter 240 l, hr_reading = reading, hr_authenticated = auths,
     hr_connections = conns, hr_queue = queue, hr_processing = None\<rparr>"
  let ?c = "\<lparr>co_credential = 0, co_session = SessionId 7, co_worktree = WorktreeId 3, co_length = 2\<rparr>"
  have 1: "sample_step (receiver_bind 65536 240 0)
      (Register Claude (SessionId 7) (WorktreeId 3) (lit ''secret'') 0) = ?r 0 0 0 0 0 [] [] []"
    by (simp add: receiver_bind_def register_def hm_insert_def hm_remove_def sample_credential_def
        sample_limiter_def limiter_new_def clamp_rate_def MAX_PROVIDER_LIFECYCLE_PAYLOAD_SIZE_def)
  have 2: "sample_step (?r 0 0 0 0 0 [] [] []) Accept = ?r 0 0 0 1 0 [] [] []"
    by (simp add: CONNECTION_LIMIT_def)
  have 3: "sample_step (?r 0 0 0 1 0 [] [] []) (HeadersRead sample_headers)
      = ?r 0 0 0 0 0 [sample_authenticated] [] []"
    by (simp add: handle_headers_def sample_parse sample_request_def sample_texts authenticate_def
        sample_credential_def sample_authenticated_def)
  have 4: "sample_step (?r 0 0 0 0 0 [sample_authenticated] [] []) (Admission 0 5) = ?r 1 1 0 0 1 [] [?c] []"
    by (simp add: sample_authenticated_def sample_texts sample_admission_simps)
  have 5: "sample_step (?r 1 1 0 0 1 [] [?c] []) (BodyRead 0 [123, 125]) = ?r 1 0 1 0 1 [] [] [sample_delivery]"
    by (simp add: handle_body_def close_connection_def update_credential_def sample_credential_def
        sample_delivery_def PER_SESSION_QUEUE_LIMIT_def DELIVERY_CAPACITY_def)
  show ?thesis
    unfolding sample_receiver_def sample_actions_def foldl.simps 1 2 3 4 5 ..
qed

theorem delivery_is_authentic_witness:
  "\<exists>token now. Register Claude (SessionId 7) (WorktreeId 3) token now \<in> set sample_actions"
proof -
  have "sample_delivery \<in> set (hr_queue sample_receiver)" by (simp add: sample_receiver_eq)
  from delivery_is_authentic [OF this [unfolded sample_receiver_def]] show ?thesis
    by (auto simp: sample_delivery_def)
qed

definition drained_receiver :: receiver where
  "drained_receiver = foldl sample_step (invalidate (SessionId 7) sample_receiver) [TakeDelivery, DropDelivery]"

theorem drained_credential_is_silent_witness:
  "list_all (\<lambda>c. co_credential c \<noteq> 0)
     (hr_connections (foldl sample_step drained_receiver [Accept, HeadersRead sample_headers]))"
proof -
  have "map_of (hr_sessions sample_receiver) (SessionId 7) = Some 0" by (simp add: sample_receiver_eq)
  moreover have "drained 0 drained_receiver"
    by (simp add: drained_receiver_def sample_receiver_eq invalidate_def hm_remove_def drained_def
        update_credential_def sample_credential_def sample_delivery_def)
  moreover have "hr_authenticated drained_receiver = []"
    by (simp add: drained_receiver_def sample_receiver_eq invalidate_def update_credential_def)
  ultimately show ?thesis
    using conjunct2 [OF drained_credential_is_silent [OF sample_receiver_def _ drained_receiver_def, of 0
        "[Accept, HeadersRead sample_headers]"]]
    by (simp add: list_all_iff del: foldl.simps)
qed

theorem requests_are_rate_limited_witness:
  "accepted_at [1, 2, 60000000005] (limiter_new 1 0) \<le> 2"
  using requests_are_rate_limited [of "[1, 2, 60000000005]" 0 60000000005 1]
  by (simp add: clamp_rate_def RATE_WINDOW_def)

text \<open>The hypothesis of the last but one property on authenticated connections is needed: a connection
  that was authenticated before the invalidation and takes its slot after the drain still delivers.\<close>

definition race_receiver :: receiver where
  "race_receiver = foldl sample_step (receiver_bind 65536 240 0)
     [Register Claude (SessionId 7) (WorktreeId 3) (lit ''secret'') 0, Accept, HeadersRead sample_headers,
      Invalidate (SessionId 7)]"

lemma drain_race:
  "drained 0 race_receiver" "map_of (hr_sessions race_receiver) (SessionId 7) = None"
  "hr_queue (foldl sample_step race_receiver [Admission 0 5, BodyRead 0 [123, 125]]) = [sample_delivery]"
proof -
  have r: "race_receiver = \<lparr>hr_sessions = [], hr_credentials = [sample_credential 0 0 0],
     hr_requests_per_minute = 60, hr_body_limit = 65536, hr_limiter = sample_limiter 240 0,
     hr_reading = 0, hr_authenticated = [sample_authenticated], hr_connections = [], hr_queue = [],
     hr_processing = None\<rparr>"
    by (simp add: race_receiver_def receiver_bind_def register_def hm_insert_def hm_remove_def
        sample_credential_def sample_limiter_def limiter_new_def clamp_rate_def CONNECTION_LIMIT_def
        MAX_PROVIDER_LIFECYCLE_PAYLOAD_SIZE_def handle_headers_def sample_parse sample_request_def
        sample_texts authenticate_def sample_authenticated_def invalidate_def)
  show "drained 0 race_receiver" "map_of (hr_sessions race_receiver) (SessionId 7) = None"
    by (simp_all add: r drained_def sample_credential_def)
  show "hr_queue (foldl sample_step race_receiver [Admission 0 5, BodyRead 0 [123, 125]]) = [sample_delivery]"
    by (simp add: r sample_authenticated_def sample_texts sample_admission_simps handle_body_def
        close_connection_def sample_delivery_def PER_SESSION_QUEUE_LIMIT_def DELIVERY_CAPACITY_def)
qed

end
