(* ===== verification/Session_Runtime.thy ===== *)
theory Session_Runtime
  imports Attention Hook_Receiver Store_Consistency
begin

text \<open>
  The daemon's view of its Sessions (\<open>crates/sylvops-daemon/src/daemon.rs\<close>): the database, the
  managed Sessions, their status machines, the tracking of Provider hooks, the notification claims,
  the hook receiver and the broadcast events, with the handlers that keep them together. A handler
  runs under the operation lock of its Session, and handlers of different Sessions touch different
  entries, so a handler is one step. Clocks and the outcomes of the operating system are arguments.
\<close>

section \<open>Hook tracking\<close>

record tracking =
  tk_callback_received :: bool
  tk_fingerprints :: "str set"
  tk_stopped_turns :: "str set"
  tk_session_start_missing :: bool
  tk_turn_closed :: bool

definition tracking_default :: tracking where
  "tracking_default = \<lparr>tk_callback_received = False, tk_fingerprints = {}, tk_stopped_turns = {},
     tk_session_start_missing = False, tk_turn_closed = False\<rparr>"

definition FINGERPRINT_CAPACITY :: nat where "FINGERPRINT_CAPACITY = 2048"
definition STOPPED_TURN_CAPACITY :: nat where "STOPPED_TURN_CAPACITY = 1024"

definition accept_fingerprint :: "str \<Rightarrow> tracking \<Rightarrow> bool \<times> tracking" where
  "accept_fingerprint f t =
     (if f \<in> tk_fingerprints t then (False, t)
      else let kept = (if FINGERPRINT_CAPACITY \<le> card (tk_fingerprints t) then {} else tk_fingerprints t)
           in (True, t\<lparr>tk_fingerprints := insert f kept\<rparr>))"

definition close_turn :: "str \<Rightarrow> tracking \<Rightarrow> tracking" where
  "close_turn turn t =
     (let kept = (if STOPPED_TURN_CAPACITY \<le> card (tk_stopped_turns t) then {} else tk_stopped_turns t)
      in t\<lparr>tk_stopped_turns := insert turn kept\<rparr>)"

datatype disposition = Duplicate | Stale

definition opens_turn :: "provider_event \<Rightarrow> bool" where
  "opens_turn e = (case e of
       PromptSubmitted \<Rightarrow> True | TurnStarted _ \<Rightarrow> True | SessionEnded \<Rightarrow> True | _ \<Rightarrow> False)"

definition is_turn_stopped :: "provider_event \<Rightarrow> bool" where
  "is_turn_stopped e = (case e of TurnStopped _ \<Rightarrow> True | _ \<Rightarrow> False)"

definition classify ::
    "str \<Rightarrow> provider_event \<Rightarrow> str option \<Rightarrow> tracking \<Rightarrow> disposition option \<times> tracking" where
  "classify f e turn t =
     (let (fresh, t1) = accept_fingerprint f t
      in if \<not> fresh then (Some Duplicate, t1)
         else if tk_turn_closed t1 \<and> \<not> opens_turn e then (Some Stale, t1)
         else if (case turn of None \<Rightarrow> False | Some i \<Rightarrow> i \<in> tk_stopped_turns t1) \<and> \<not> is_turn_stopped e
         then (Some Stale, t1)
         else (None, case turn of
                 Some i \<Rightarrow> if is_turn_stopped e \<or> e = TurnInterrupted then close_turn i t1 else t1
               | None \<Rightarrow> t1))"

definition record_applied :: "provider_event \<Rightarrow> provider_activity \<Rightarrow> tracking \<Rightarrow> tracking" where
  "record_applied e activity t = (case e of
       PromptSubmitted \<Rightarrow> t\<lparr>tk_turn_closed := False\<rparr>
     | TurnStarted _ \<Rightarrow> t\<lparr>tk_turn_closed := False\<rparr>
     | TurnStopped _ \<Rightarrow> t\<lparr>tk_turn_closed := (activity = Completed)\<rparr>
     | TurnInterrupted \<Rightarrow> t\<lparr>tk_turn_closed := True\<rparr>
     | SessionEnded \<Rightarrow> t\<lparr>tk_turn_closed := True\<rparr>
     | _ \<Rightarrow> t)"

section \<open>The state\<close>

record managed =
  mg_record :: session
  mg_structured :: bool
  mg_completed :: bool

datatype daemon_event =
    ProviderEvent provider_kind session_id worktree_id provider_event
  | SessionStatusChanged u64 session
  | SessionUpdated u64 session
  | SessionExited u64 session_id session_lifecycle "int option"
  | SessionDeleted u64 session_id worktree_id
  | AttentionNotificationAvailable

record daemon =
  dm_database :: database
  dm_managed :: "(session_id, managed) hash_map"
  dm_machines :: "(session_id, status_machine) hash_map"
  dm_tracking :: "(session_id, tracking) hash_map"
  dm_claims :: claims
  dm_receiver :: receiver
  dm_events :: "daemon_event list"

definition daemon_start :: "database \<Rightarrow> receiver \<Rightarrow> daemon" where
  "daemon_start db r = \<lparr>dm_database = db, dm_managed = [], dm_machines = [], dm_tracking = [],
     dm_claims = claims_default, dm_receiver = r, dm_events = []\<rparr>"

text \<open>The clocks a handler reads: \<open>status_timestamp\<close>, the clock of the database thread, and the
  instant of the notification queue.\<close>

record clock =
  ck_status :: int
  ck_now :: int
  ck_instant :: nat

text \<open>What a Provider adapter makes of a payload; the adapters are a parameter of the handlers.\<close>

record lifecycle_event =
  le_event :: "provider_event option"
  le_conversation :: "provider_conversation_id option"
  le_turn :: "str option"

type_synonym normalizer = "provider_kind \<Rightarrow> bytes \<Rightarrow> str + lifecycle_event"

datatype daemon_error =
    DatabaseError store_error
  | StatusRefused status_error
  | AssociationInvalid
  | PayloadRefused str
  | UnknownEventType
  | ConversationChanged
  | RuntimeProviderMismatch
  | EmptyRuntimeEvent
  | AttentionStale
  | DeletionRefused
  | SpawnFailed str
  | StoredConversationInvalid
  | InvalidSession str
  | ProviderRefused str

type_synonym 'a daemon_result = "(daemon_error + 'a) \<times> daemon"

text \<open>A command of the database thread with a reply, and the rows a handler reads.\<close>

definition run_command :: "bool \<Rightarrow> (store \<Rightarrow> store_error + 'a \<times> store) \<Rightarrow> daemon \<Rightarrow> 'a daemon_result" where
  "run_command advances f d = (case f (da_store (dm_database d)) of
       Inl e \<Rightarrow> (Inl (DatabaseError e), d)
     | Inr (x, st) \<Rightarrow> (Inr x, d\<lparr>dm_database := \<lparr>da_store = st, da_revision =
         (if advances then saturating_add (da_revision (dm_database d)) 1 else da_revision (dm_database d))\<rparr>\<rparr>))"

definition database_session :: "session_id \<Rightarrow> daemon \<Rightarrow> session daemon_result" where
  "database_session i d = (case load_session_row (da_store (dm_database d)) i of
       Inl e \<Rightarrow> (Inl (DatabaseError e), d) | Inr s \<Rightarrow> (Inr s, d))"

definition audit_daemon ::
    "string \<Rightarrow> string \<Rightarrow> session_id option \<Rightarrow> string option \<Rightarrow> daemon \<Rightarrow> unit daemon_result" where
  "audit_daemon action outcome session reason =
     run_command False (insert_audit_event (\<lambda>_. True) (lit action) (lit outcome) (HookDetails session reason))"

definition fail_with :: "daemon_error \<Rightarrow> daemon \<Rightarrow> 'a daemon_result" where
  "fail_with e d = (Inl e, d)"

definition done_with :: "daemon \<Rightarrow> unit daemon_result" where
  "done_with d = (Inr (), d)"

definition put_machine :: "session_id \<Rightarrow> status_machine \<Rightarrow> daemon \<Rightarrow> daemon" where
  "put_machine i m d = d\<lparr>dm_machines := hm_insert i m (dm_machines d)\<rparr>"

definition put_tracking :: "session_id \<Rightarrow> tracking \<Rightarrow> daemon \<Rightarrow> daemon" where
  "put_tracking i t d = d\<lparr>dm_tracking := hm_insert i t (dm_tracking d)\<rparr>"

definition tracking_entry :: "session_id \<Rightarrow> daemon \<Rightarrow> tracking" where
  "tracking_entry i d = (case map_of (dm_tracking d) i of None \<Rightarrow> tracking_default | Some t \<Rightarrow> t)"

text \<open>\<open>*managed.record.write().await = session\<close>, when the Session is managed.\<close>

definition put_record :: "session_id \<Rightarrow> session \<Rightarrow> daemon \<Rightarrow> daemon" where
  "put_record i s d = (case map_of (dm_managed d) i of
       None \<Rightarrow> d
     | Some g \<Rightarrow> d\<lparr>dm_managed := hm_insert i (g\<lparr>mg_record := s\<rparr>) (dm_managed d)\<rparr>)"

definition send_event :: "daemon_event \<Rightarrow> daemon \<Rightarrow> daemon" where
  "send_event e d = d\<lparr>dm_events := dm_events d @ [e]\<rparr>"

definition coordinate :: "attention_event option \<Rightarrow> session \<Rightarrow> nat \<Rightarrow> daemon \<Rightarrow> daemon" where
  "coordinate previous s now d =
     d\<lparr>dm_claims := coordinate_attention_notification previous s now (dm_claims d)\<rparr>"

definition revoke_credential :: "session_id \<Rightarrow> daemon \<Rightarrow> daemon" where
  "revoke_credential i d = d\<lparr>dm_receiver := invalidate i (dm_receiver d)\<rparr>"

definition current_revision :: "daemon \<Rightarrow> u64" where
  "current_revision d = da_revision (dm_database d)"

definition status_machine_from_session :: "session \<Rightarrow> status_machine" where
  "status_machine_from_session s = from_persisted (se_status s)
     (case se_failure_reason s of
        None \<Rightarrow> None
      | Some c \<Rightarrow> (case failure_category_try_from c of Inl _ \<Rightarrow> None | Inr f \<Rightarrow> Some f))"

definition session_machine :: "session \<Rightarrow> daemon \<Rightarrow> status_machine" where
  "session_machine s d = (case map_of (dm_machines d) (se_id s) of
       None \<Rightarrow> status_machine_from_session s | Some m \<Rightarrow> m)"

section \<open>Provider events\<close>

definition provider_external_id_update ::
    "str option \<Rightarrow> provider_conversation_id option \<Rightarrow> conversation_transition option
       \<Rightarrow> daemon_error + provider_conversation_id option" where
  "provider_external_id_update existing received tr = (case received of
       None \<Rightarrow> Inr None
     | Some r \<Rightarrow> (case existing of
           None \<Rightarrow> Inr (Some r)
         | Some x \<Rightarrow>
             if x = conversation_str r then Inr None
             else if tr = Some Cleared \<or> tr = Some Resumed then Inr (Some r)
             else Inl ConversationChanged))"

definition started_transition :: "provider_event \<Rightarrow> conversation_transition option" where
  "started_transition e = (case e of TurnStarted c \<Rightarrow> map_option conv_transition c | _ \<Rightarrow> None)"

definition identity_update_for ::
    "provider_conversation_id option \<Rightarrow> conversation_transition option \<Rightarrow> identity_update option" where
  "identity_update_for u tr = map_option (\<lambda>c. \<lparr>iu_external = c, iu_transition = tr\<rparr>) u"

text \<open>\<open>machine.apply\<close> on a clone: an error of the machine refuses the event.\<close>

definition advance_machine ::
    "provider_event \<Rightarrow> int \<Rightarrow> status_machine \<Rightarrow> daemon_error + status_transition \<times> status_machine" where
  "advance_machine e t m = (case apply_event e t m of
       (Inl x, _) \<Rightarrow> Inl (StatusRefused x) | (Inr tr, m1) \<Rightarrow> Inr (tr, m1))"

definition apply_runtime_event ::
    "clock \<Rightarrow> session_id \<Rightarrow> lifecycle_event \<Rightarrow> daemon \<Rightarrow> unit daemon_result" where
  "apply_runtime_event ck i normalized d =
     and_then (database_session i d) (\<lambda>persisted d.
     if \<not> lifecycle_is_active (st_lifecycle (se_status persisted)) \<or> se_process_id persisted = None
     then done_with d
     else if se_provider_kind persisted \<noteq> Codex then fail_with RuntimeProviderMismatch d
     else case le_event normalized of None \<Rightarrow> fail_with EmptyRuntimeEvent d | Some e \<Rightarrow>
     case provider_external_id_update (se_external_session_id persisted) (le_conversation normalized)
            (started_transition e) of Inl x \<Rightarrow> fail_with x d | Inr u \<Rightarrow>
     case advance_machine e (ck_status ck) (session_machine persisted d) of
       Inl x \<Rightarrow> fail_with x d
     | Inr (tr, m1) \<Rightarrow>
     and_then (run_command True (update_session_status (ck_now ck) i tr
                (identity_update_for u (started_transition e))) d) (\<lambda>s d.
     let revision = current_revision d;
         d = put_machine i m1 d;
         t = (tracking_entry i d)\<lparr>tk_callback_received := True\<rparr>;
         d = put_tracking i (record_applied e (st_activity (se_status s)) t) d;
         d = coordinate (st_attention (se_status persisted)) s (ck_instant ck) d;
         d = put_record i s d;
         d = send_event (ProviderEvent Codex i (se_worktree_id persisted) e) d
     in done_with (send_event (SessionStatusChanged revision s) d)))"

text \<open>\<open>apply_hook_delivery\<close> from the accepted event on: the machine and the store, and what follows a
  committed change.\<close>

definition settle_hook_event ::
    "clock \<Rightarrow> session \<Rightarrow> provider_event \<Rightarrow> bool \<Rightarrow> bool \<Rightarrow> tracking \<Rightarrow> provider_activity \<Rightarrow> status_machine
       \<Rightarrow> session \<Rightarrow> daemon \<Rightarrow> unit daemon_result" where
  "settle_hook_event ck persisted e is_start recovers candidate activity m1 s d =
     (let i = se_id persisted;
          revision = current_revision d;
          d = put_machine i m1 d;
          t = (record_applied e activity candidate)\<lparr>tk_callback_received := True\<rparr>;
          t = (if is_start \<or> recovers then t\<lparr>tk_session_start_missing := False\<rparr> else t);
          d = put_tracking i t d;
          d = put_record i s d
      in and_then (if recovers
            then audit_daemon ''provider_lifecycle_recovered'' ''succeeded'' (Some i) None d
            else done_with d) (\<lambda>_ d.
         let d = (if e = SessionEnded then revoke_credential i d else d);
             d = coordinate (st_attention (se_status persisted)) s (ck_instant ck) d;
             d = put_record i s d;
             d = send_event (ProviderEvent (se_provider_kind persisted) i (se_worktree_id persisted) e) d
         in done_with (send_event (SessionStatusChanged revision s) d)))"

definition commit_hook_event ::
    "clock \<Rightarrow> session \<Rightarrow> provider_event \<Rightarrow> provider_conversation_id option \<Rightarrow> bool \<Rightarrow> bool \<Rightarrow> tracking
       \<Rightarrow> daemon \<Rightarrow> unit daemon_result" where
  "commit_hook_event ck persisted e u is_start recovers candidate d =
     (let i = se_id persisted in
     case advance_machine e (ck_status ck) (session_machine persisted d) of
       Inl x \<Rightarrow> fail_with x d
     | Inr (tr, m1) \<Rightarrow>
     case run_command True (update_session_status (ck_now ck) i tr
            (identity_update_for u (started_transition e))) d of
       (Inl x, d) \<Rightarrow>
         and_then (database_session i d) (\<lambda>latest d.
         if se_process_id latest = None \<or> \<not> lifecycle_is_active (st_lifecycle (se_status latest))
         then audit_daemon ''provider_hook_ignored'' ''refused'' (Some i) (Some ''late_terminal'') d
         else fail_with x d)
     | (Inr s, d) \<Rightarrow>
         settle_hook_event ck persisted e is_start recovers candidate
           (st_activity (tr_status tr)) m1 s d)"

definition is_subagent_event :: "provider_event \<Rightarrow> bool" where
  "is_subagent_event e = (case e of SubagentStarted _ \<Rightarrow> True | SubagentStopped _ \<Rightarrow> True | _ \<Rightarrow> False)"

definition shadowed_by_transport :: "session \<Rightarrow> provider_event \<Rightarrow> daemon \<Rightarrow> bool" where
  "shadowed_by_transport s e d = (case map_of (dm_managed d) (se_id s) of
       None \<Rightarrow> False
     | Some g \<Rightarrow> mg_structured g \<and> st_activity (se_status s) = AwaitingInput \<and> \<not> is_subagent_event e)"

text \<open>From the normalized event: duplicates, stale events and the conversation.\<close>

definition accept_hook_event ::
    "clock \<Rightarrow> delivery \<Rightarrow> session \<Rightarrow> lifecycle_event \<Rightarrow> provider_event \<Rightarrow> daemon \<Rightarrow> unit daemon_result" where
  "accept_hook_event ck de persisted normalized e d =
     (let i = de_session de;
          old = tracking_entry i d;
          d = put_tracking i old d;
          (disposition, candidate) = classify (de_fingerprint de) e (le_turn normalized) old;
          is_start = (de_provider de = Claude \<and> (case e of TurnStarted c \<Rightarrow> c \<noteq> None | _ \<Rightarrow> False))
      in case disposition of
           Some x \<Rightarrow> audit_daemon ''provider_hook_ignored'' ''refused'' (Some i)
             (Some (case x of Duplicate \<Rightarrow> ''duplicate'' | Stale \<Rightarrow> ''stale'')) d
         | None \<Rightarrow>
             let recovers = (de_provider de = Claude \<and> tk_session_start_missing old
                             \<and> le_conversation normalized \<noteq> None);
                 received = (if de_provider de = Claude \<and> se_external_session_id persisted = None
                                \<and> started_transition e = None
                             then None else le_conversation normalized)
             in case provider_external_id_update (se_external_session_id persisted) received
                       (started_transition e) of
                  Inl x \<Rightarrow> and_then (audit_daemon ''provider_hook_refused'' ''refused'' None
                      (Some ''external_session_id_changed'') d) (\<lambda>_. fail_with x)
                | Inr u \<Rightarrow> commit_hook_event ck persisted e u is_start recovers candidate d)"

definition apply_hook_delivery ::
    "normalizer \<Rightarrow> clock \<Rightarrow> delivery \<Rightarrow> daemon \<Rightarrow> unit daemon_result" where
  "apply_hook_delivery adapt ck de d =
     (let i = de_session de in
     and_then (database_session i d) (\<lambda>persisted d.
     if se_worktree_id persisted \<noteq> de_worktree de \<or> se_provider_kind persisted \<noteq> de_provider de
     then and_then (audit_daemon ''provider_hook_refused'' ''refused'' None (Some ''identity_mismatch'') d)
            (\<lambda>_. fail_with AssociationInvalid)
     else if se_process_id persisted = None \<or> \<not> lifecycle_is_active (st_lifecycle (se_status persisted))
     then audit_daemon ''provider_hook_ignored'' ''refused'' (Some i) (Some ''late_terminal'') d
     else case adapt (de_provider de) (de_payload de) of
       Inl x \<Rightarrow> and_then (audit_daemon ''provider_hook_refused'' ''refused'' (Some i)
                  (Some ''invalid_payload'') d) (\<lambda>_. fail_with (PayloadRefused x))
     | Inr normalized \<Rightarrow>
     case le_event normalized of
       None \<Rightarrow> and_then (audit_daemon ''provider_hook_unknown'' ''refused'' (Some i) None d)
                 (\<lambda>_. fail_with UnknownEventType)
     | Some e \<Rightarrow>
     if shadowed_by_transport persisted e d then done_with d
     else accept_hook_event ck de persisted normalized e d))"

text \<open>What the steps take from outside: the adapters, the UUID parser, the digest, the process trees and
  the texts of errors.\<close>

record environment =
  en_normalize :: normalizer
  en_parse_uuid :: "str \<Rightarrow> uuid option"
  en_sha :: "bytes \<Rightarrow> str"
  en_tree_empty :: "session_id \<Rightarrow> bool"
  en_describe :: "daemon_error \<Rightarrow> str"

text \<open>The main loop takes one delivery, applies it to the end and drops it with its permit.\<close>

definition receive_delivery :: "environment \<Rightarrow> clock \<Rightarrow> daemon \<Rightarrow> daemon" where
  "receive_delivery en ck d = (case hr_queue (dm_receiver d) of
       [] \<Rightarrow> d
     | de # _ \<Rightarrow>
         let step = hook_step (en_parse_uuid en) (en_sha en);
             d1 = d\<lparr>dm_receiver := step (dm_receiver d) TakeDelivery\<rparr>;
             d2 = snd (apply_hook_delivery (en_normalize en) ck de d1)
         in d2\<lparr>dm_receiver := step (dm_receiver d2) DropDelivery\<rparr>)"

section \<open>Requests of clients\<close>

definition mirror_attention_acknowledgement :: "session \<Rightarrow> daemon \<Rightarrow> daemon" where
  "mirror_attention_acknowledgement s d = (case st_attention (se_status s) of
       None \<Rightarrow> d
     | Some e \<Rightarrow>
         if ev_ack e \<noteq> Acknowledged then d
         else case map_of (dm_machines d) (se_id s) of
                None \<Rightarrow> d
              | Some m \<Rightarrow> put_machine (se_id s)
                  (snd (Status_Machine.acknowledge_attention (ev_id e) (ev_reason e) m)) d)"

text \<open>\<open>AcknowledgeAttention\<close> and \<open>DismissAttention\<close>. The revision advances when an event was
  acknowledged.\<close>

definition acknowledge_request ::
    "session_id \<Rightarrow> attention_event_id \<Rightarrow> acknowledgement_action \<Rightarrow> daemon \<Rightarrow> unit daemon_result" where
  "acknowledge_request i ev action d =
     (case acknowledge_session_attention i ev action (da_store (dm_database d)) of
        Inl e \<Rightarrow> (Inl (DatabaseError e), d)
      | Inr (None, _) \<Rightarrow> (Inl AttentionStale, d)
      | Inr (Some s, _) \<Rightarrow>
          let d = snd (run_command True (acknowledge_session_attention i ev action) d);
              d = put_record i s d;
              d = d\<lparr>dm_claims := claims_cancel i (dm_claims d)\<rparr>;
              d = mirror_attention_acknowledgement s d
          in done_with (send_event (SessionStatusChanged (current_revision d) s) d))"

definition rename_request :: "clock \<Rightarrow> session_id \<Rightarrow> str \<Rightarrow> daemon \<Rightarrow> unit daemon_result" where
  "rename_request ck i name d =
     and_then (run_command True (rename_session (ck_now ck) i name) d) (\<lambda>s d.
     done_with (send_event (SessionUpdated (current_revision d) s) (put_record i s d)))"

text \<open>\<open>ReportAttentionFocus\<close> and \<open>ClaimAttentionNotification\<close>: a claim is handed out only when it is
  still the pending event of its Session and no client looks at that Session. The loop is bounded by
  the capacity of the queue; \<open>now\<close> is the instant of each round.\<close>

definition focus_request :: "uuid \<Rightarrow> session_id option \<Rightarrow> daemon \<Rightarrow> unit daemon_result" where
  "focus_request client focus d =
     (let report = (\<lambda>d. done_with (d\<lparr>dm_claims := report_focus client focus (dm_claims d)\<rparr>))
      in case focus of
           Some i \<Rightarrow> and_then (database_session i d) (\<lambda>_. report)
         | None \<Rightarrow> report d)"

definition still_pending :: "pending_claim \<Rightarrow> session \<Rightarrow> bool" where
  "still_pending p s = (case st_attention (se_status s) of
       None \<Rightarrow> False
     | Some e \<Rightarrow> ev_id e = ev_id (pc_event p) \<and> ev_reason e = ev_reason (pc_event p) \<and> ev_ack e = Pending)"

fun claim_rounds ::
    "nat \<Rightarrow> uuid \<Rightarrow> (nat \<Rightarrow> nat) \<Rightarrow> notification_preferences \<Rightarrow> daemon \<Rightarrow> notification_claim option \<times> daemon" where
  "claim_rounds 0 client now preferences d = (None, d)"
| "claim_rounds (Suc n) client now preferences d =
     (let (claimed, c) = claim_at client (now n) (dm_claims d); d1 = d\<lparr>dm_claims := c\<rparr>
      in case claimed of
           None \<Rightarrow> (None, d1)
         | Some p \<Rightarrow>
             (case load_session_row (da_store (dm_database d1)) (pc_session_id p) of
                Inl _ \<Rightarrow> claim_rounds n client now preferences d1
              | Inr latest \<Rightarrow>
                  if \<not> still_pending p latest
                     \<or> list_ex (\<lambda>i. i = pc_session_id p) (hm_values (cl_foreground (dm_claims d1)))
                  then claim_rounds n client now preferences d1
                  else (Some (notification_claim_new (pc_session_id p) (se_display_name latest)
                          (pc_event p) preferences), d1)))"

definition claim_attention_notification ::
    "uuid \<Rightarrow> (nat \<Rightarrow> nat) \<Rightarrow> notification_preferences \<Rightarrow> daemon \<Rightarrow> notification_claim option \<times> daemon" where
  "claim_attention_notification client now preferences d =
     claim_rounds ATTENTION_NOTIFICATION_CLAIM_CAPACITY client now preferences d"

text \<open>\<open>GetSessionLifecycleHealth\<close>: whether the hooks of a live Codex or Claude Session have called.\<close>

definition saturating_sub_i64 :: "int \<Rightarrow> int \<Rightarrow> int" where
  "saturating_sub_i64 a b = max (- (2 ^ 63)) (min (2 ^ 63 - 1) (a - b))"

datatype lifecycle_health = NotApplicable | Ready | Waiting | CallbackMissing

definition lifecycle_health_of :: "int \<Rightarrow> session \<Rightarrow> daemon \<Rightarrow> lifecycle_health" where
  "lifecycle_health_of now s d =
     (if \<not> lifecycle_is_active (st_lifecycle (se_status s)) \<or> se_provider_kind s \<notin> {Codex, Claude}
      then NotApplicable
      else if (case map_of (dm_tracking d) (se_id s) of None \<Rightarrow> False | Some t \<Rightarrow> tk_callback_received t)
      then Ready
      else if saturating_sub_i64 now (case se_started_at s of None \<Rightarrow> se_created_at s | Some t \<Rightarrow> t) < 15000
      then Waiting
      else CallbackMissing)"

text \<open>\<open>DeleteSession\<close>: the token is a digest of the Session as the client saw it, and is replaced by
  that Session. Whether the process tree of a managed Session is empty is for the actor to say.\<close>

definition deletion_refused :: "(session_id \<Rightarrow> bool) \<Rightarrow> session \<Rightarrow> daemon \<Rightarrow> bool" where
  "deletion_refused tree_empty s d \<longleftrightarrow>
     (let runtime_owned = (case map_of (dm_managed d) (se_id s) of
            None \<Rightarrow> False | Some g \<Rightarrow> \<not> mg_completed g \<or> \<not> tree_empty (se_id s))
      in lifecycle_is_active (st_lifecycle (se_status s)) \<or> se_process_id s \<noteq> None \<or> runtime_owned
         \<or> \<not> lifecycle_allows_deletion (st_lifecycle (se_status s)))"

definition delete_request :: "(session_id \<Rightarrow> bool) \<Rightarrow> session_id \<Rightarrow> session \<Rightarrow> daemon \<Rightarrow> unit daemon_result" where
  "delete_request tree_empty i expected d =
     and_then (database_session i d) (\<lambda>s d.
     if deletion_refused tree_empty s d \<or> s \<noteq> expected then fail_with DeletionRefused d
     else and_then (run_command True (delete_session s) d) (\<lambda>deleted d.
       let d = d\<lparr>dm_managed := hm_remove i (dm_managed d)\<rparr>;
           d = revoke_credential i d;
           d = d\<lparr>dm_tracking := hm_remove i (dm_tracking d)\<rparr>;
           d = d\<lparr>dm_machines := hm_remove i (dm_machines d)\<rparr>
       in done_with (send_event (SessionDeleted (current_revision d) i (se_worktree_id deleted)) d)))"

section \<open>The life of a process\<close>

definition persist_session_start_failure :: "clock \<Rightarrow> session_id \<Rightarrow> str \<Rightarrow> daemon \<Rightarrow> daemon" where
  "persist_session_start_failure ck i reason d =
     (case run_command True (finish_session (ck_now ck) i Failed None None (Some reason)) d of
        (Inl _, d) \<Rightarrow> d
      | (Inr s, d) \<Rightarrow>
          let revision = current_revision d; d = coordinate None s (ck_instant ck) d
          in send_event (SessionStatusChanged revision s) d)"

text \<open>\<open>spawn_managed_session\<close>: the outcome of the structured bridge, if the Provider has one, and of
  the spawn, which is an error or the identifier of the process.\<close>

definition spawn_managed_session ::
    "(daemon_error \<Rightarrow> str) \<Rightarrow> clock \<Rightarrow> new_session \<Rightarrow> bool \<Rightarrow> str option \<Rightarrow> str + u32 \<Rightarrow> daemon
       \<Rightarrow> session daemon_result" where
  "spawn_managed_session describe ck r structured bridge_error spawned d =
     (let i = ns_id r in
     case run_command False (insert_session (ck_now ck) r) d of
       (Inl x, d) \<Rightarrow> (Inl x, revoke_credential i d)
     | (Inr _, d) \<Rightarrow>
     case (if structured then bridge_error else None) of
       Some x \<Rightarrow> (Inl (SpawnFailed x), persist_session_start_failure ck i x (revoke_credential i d))
     | None \<Rightarrow>
     case spawned of
       Inl x \<Rightarrow> (Inl (SpawnFailed x), persist_session_start_failure ck i x (revoke_credential i d))
     | Inr pid \<Rightarrow>
     case run_command True (mark_session_running (ck_now ck) i pid) d of
       (Inl x, d) \<Rightarrow> (Inl x, persist_session_start_failure ck i (describe x) (revoke_credential i d))
     | (Inr s, d) \<Rightarrow>
         let d = d\<lparr>dm_managed := hm_insert i \<lparr>mg_record = s, mg_structured = structured,
               mg_completed = False\<rparr> (dm_managed d)\<rparr>;
             d = (if map_of (dm_machines d) i = None then put_machine i (status_machine_from_session s) d else d)
         in (Inr s, d))"

text \<open>\<open>spawn_exit_monitor\<close> once the process has exited: the credential is invalidated first, and
  after the drain, or its timeout, the outcome is recorded under the operation lock. An exit of the
  actor without a status counts as no exit code.\<close>

definition exit_code_of :: "(u32 \<times> bool) option \<Rightarrow> int option" where
  "exit_code_of x = (case x of None \<Rightarrow> None
     | Some (code, _) \<Rightarrow> if unat code < 2 ^ 31 then Some (int (unat code)) else None)"

definition stop_requested_of :: "(u32 \<times> bool) option \<Rightarrow> bool" where
  "stop_requested_of x = (case x of None \<Rightarrow> False | Some (_, b) \<Rightarrow> b)"

definition complete_managed :: "session_id \<Rightarrow> daemon \<Rightarrow> daemon" where
  "complete_managed i d = (case map_of (dm_managed d) i of
       None \<Rightarrow> d
     | Some g \<Rightarrow> d\<lparr>dm_managed := hm_insert i (g\<lparr>mg_completed := True\<rparr>) (dm_managed d)\<rparr>)"

definition record_exit :: "clock \<Rightarrow> session_id \<Rightarrow> (u32 \<times> bool) option \<Rightarrow> daemon \<Rightarrow> daemon" where
  "record_exit ck i exit d = (case map_of (dm_managed d) i of
       None \<Rightarrow> d
     | Some g \<Rightarrow>
         if mg_completed g then d
         else
           let persisted = mg_record g;
               d = d\<lparr>dm_tracking := hm_remove i (dm_tracking d)\<rparr>;
               m = (case map_of (dm_machines d) i of
                      None \<Rightarrow> status_machine_from_session persisted | Some m \<Rightarrow> m)
           in complete_managed i
             (case apply_process_exit (se_provider_kind persisted = Shell) (exit_code_of exit)
                     (stop_requested_of exit) (ck_status ck) m of
                (Inl _, _) \<Rightarrow> d
              | (Inr tr, m1) \<Rightarrow>
                  (case run_command True (finish_session_outcome (ck_now ck) i tr (exit_code_of exit)) d of
                     (Inl _, d) \<Rightarrow> d
                   | (Inr s, d) \<Rightarrow>
                       let revision = current_revision d;
                           d = put_machine i m1 d;
                           d = coordinate (st_attention (se_status persisted)) s (ck_instant ck) d;
                           d = put_record i s d;
                           d = send_event (SessionStatusChanged revision s) d
                       in send_event (SessionExited revision i (st_lifecycle (tr_status tr))
                            (exit_code_of exit)) d)))"

text \<open>\<open>spawn_claude_session_start_monitor\<close> when the timeout passes before the process completes. The
  result of the audit command is discarded.\<close>

definition session_start_timeout :: "session_id \<Rightarrow> daemon \<Rightarrow> daemon" where
  "session_start_timeout i d =
     (let t = tracking_entry i d
      in if tk_callback_received t then put_tracking i t d
         else snd (audit_daemon ''provider_lifecycle_missing'' ''missing'' (Some i) None
                (put_tracking i (t\<lparr>tk_session_start_missing := True\<rparr>) d)))"

section \<open>Steps\<close>

datatype daemon_action =
    HookInput hook_action
  | ReceiveDelivery clock
  | RuntimeEvent clock session_id lifecycle_event
  | Acknowledge session_id attention_event_id acknowledgement_action
  | Rename clock session_id str
  | Delete session_id session
  | ClientConnected uuid
  | ClientGone uuid
  | Focus uuid "session_id option"
  | Claim uuid "nat \<Rightarrow> nat" notification_preferences
  | AnnounceTick nat
  | Administer database_command
  | Spawn clock new_session bool "str option" "str + u32"
  | ProcessExited session_id
  | RecordExit clock session_id "(u32 \<times> bool) option"
  | StartTimeout session_id

definition takes_delivery :: "hook_action \<Rightarrow> bool" where
  "takes_delivery a \<longleftrightarrow> a = TakeDelivery \<or> a = DropDelivery"

text \<open>The commands of the other requests, which concern Workspaces, Projects, Worktrees, Providers and
  audit rows.\<close>

fun administrative :: "database_command \<Rightarrow> bool" where
  "administrative (CreateSession now r) = False"
| "administrative (RenameSession now i name) = False"
| "administrative (MarkSessionRunning now i pid) = False"
| "administrative (FinishSession now i l tr code failure) = False"
| "administrative (Database.AcknowledgeAttention i ev a) = False"
| "administrative (UpdateSessionStatus now i tr u) = False"
| "administrative (MarkSessionLifecycleMissing now i failure) = False"
| "administrative (DeleteSession x) = False"
| "administrative Reconcile = False"
| "administrative c = True"

fun daemon_step :: "environment \<Rightarrow> daemon \<Rightarrow> daemon_action \<Rightarrow> daemon" where
  "daemon_step en d (HookInput a) =
     (if takes_delivery a then d
      else d\<lparr>dm_receiver := hook_step (en_parse_uuid en) (en_sha en) (dm_receiver d) a\<rparr>)"
| "daemon_step en d (ReceiveDelivery ck) = receive_delivery en ck d"
| "daemon_step en d (RuntimeEvent ck i ev) = snd (apply_runtime_event ck i ev d)"
| "daemon_step en d (Acknowledge i ev a) = snd (acknowledge_request i ev a d)"
| "daemon_step en d (Rename ck i name) = snd (rename_request ck i name d)"
| "daemon_step en d (Delete i expected) = snd (delete_request (en_tree_empty en) i expected d)"
| "daemon_step en d (Spawn ck r structured be sp) = snd (spawn_managed_session (en_describe en) ck r structured be sp d)"
| "daemon_step en d (ClientConnected c) = d\<lparr>dm_claims := claims_register c (dm_claims d)\<rparr>"
| "daemon_step en d (ClientGone c) = d\<lparr>dm_claims := claims_unregister c (dm_claims d)\<rparr>"
| "daemon_step en d (Focus c focus) = snd (focus_request c focus d)"
| "daemon_step en d (Claim c now preferences) = snd (claim_attention_notification c now preferences d)"
| "daemon_step en d (AnnounceTick now) =
     (let (available, c) = announce_due now (dm_claims d); d1 = d\<lparr>dm_claims := c\<rparr>
      in if available then send_event AttentionNotificationAvailable d1 else d1)"
| "daemon_step en d (Administer c) =
     (if administrative c then d\<lparr>dm_database := database_step (dm_database d) c\<rparr> else d)"
| "daemon_step en d (ProcessExited i) = revoke_credential i d"
| "daemon_step en d (RecordExit ck i exit) = record_exit ck i exit d"
| "daemon_step en d (StartTimeout i) = session_start_timeout i d"

end
