(* ===== verification/Runtime_Invariant.thy ===== *)
theory Runtime_Invariant
  imports Session_Runtime
begin

text \<open>
  The rows, the status machines and the managed records of the Sessions agree in every state of the
  daemon: what each command of the store does to one row, what each handler does to the three maps,
  and the invariant of all steps.
\<close>

section \<open>One row of the store\<close>

definition rows :: "store \<Rightarrow> session_id \<Rightarrow> session option" where
  "rows st i = select_by se_id i (db_sessions st)"

definition rows_ok :: "store \<Rightarrow> bool" where
  "rows_ok st \<longleftrightarrow> distinct (map se_id (db_sessions st))"

lemma rows_key: "rows st i = Some s \<Longrightarrow> se_id s = i"
  by (auto simp: rows_def dest: select_by_SomeD)

lemma load_rows: "load_session_row st i = Inr s \<Longrightarrow> rows st i = Some s"
  by (simp add: rows_def load_session_row_Inr)

lemma rows_view: "session_view st1 = session_view st \<Longrightarrow> rows st1 = rows st \<and> rows_ok st1 = rows_ok st"
  by (simp add: rows_def rows_ok_def session_view_def fun_eq_iff)

lemma rows_store_view: "store_view st1 = store_view st \<Longrightarrow> rows st1 = rows st \<and> rows_ok st1 = rows_ok st"
  by (rule rows_view) (simp add: store_view_def)

definition row_change :: "store \<Rightarrow> session_id \<Rightarrow> session option \<Rightarrow> store \<Rightarrow> bool" where
  "row_change st i r st' \<longleftrightarrow> rows st' = (rows st)(i := r) \<and> rows_ok st'"

lemma row_change_view:
  assumes "row_change st i r st1" "store_view st' = store_view st1"
  shows "row_change st i r st'"
  using assms rows_store_view [OF assms(2)] by (simp add: row_change_def)

lemma update_row_change:
  assumes ok: "rows_ok st" and upd: "update_session i P f st = Some st1"
    and f: "\<And>s. se_id (f s) = se_id s" and r: "load_session_row st1 i = Inr r"
  obtains q where "rows st i = Some q" "P q" "r = f q" "row_change st i (Some r) st1"
proof -
  obtain q where q: "q \<in> set (db_sessions st)" "se_id q = i" "P q"
    using update_session_rows(3) [OF upd] by blast
  then have old: "rows st i = Some q"
    using ok by (simp add: rows_def rows_ok_def select_by_unique)
  have rows1: "rows st1 j = map_option (\<lambda>s. if se_id s = i \<and> P s then f s else s) (rows st j)" for j
    using f by (simp add: rows_def update_session_rows(1) [OF upd] select_by_update_where)
  have "rows st1 i = Some (f q)" unfolding rows1 old using q by simp
  then have new: "r = f q" using load_rows [OF r] by simp
  moreover have "rows st1 = (rows st)(i \<mapsto> r)"
  proof
    fix j
    show "rows st1 j = ((rows st)(i \<mapsto> r)) j"
    proof (cases "j = i")
      case True
      then show ?thesis using \<open>rows st1 i = Some (f q)\<close> new by simp
    next
      case False
      then have "\<And>s. rows st j = Some s \<Longrightarrow> se_id s \<noteq> i" using rows_key by blast
      then show ?thesis unfolding rows1 using False by (cases "rows st j") auto
    qed
  qed
  moreover have "map se_id (db_sessions st1) = map se_id (db_sessions st)"
    unfolding update_session_rows(1) [OF upd] by (rule map_update_where) (simp add: f)
  then have "rows_ok st1" using ok by (simp add: rows_ok_def)
  ultimately show thesis using that old q(3) by (simp add: row_change_def)
qed

lemma update_session_status_row:
  assumes "rows_ok st" "update_session_status now i tr u st = Inr (r, st')"
  obtains q where "rows st i = Some q" "accepts_events q"
    "r = q\<lparr>se_external_session_id := (case u of None \<Rightarrow> se_external_session_id q
             | Some u \<Rightarrow> Some (conversation_str (iu_external u))),
           se_last_activity_at := now, se_failure_reason := map_option category_str (tr_failure tr),
           se_status := tr_status tr\<rparr>"
    "row_change st i (Some r) st'"
  using assms(2)
proof (rule update_session_status_Inr)
  fix st1
  assume u: "update_session i accepts_events
                (\<lambda>s. s\<lparr>se_external_session_id := (case u of
                           None \<Rightarrow> se_external_session_id s
                         | Some u \<Rightarrow> Some (conversation_str (iu_external u))),
                       se_last_activity_at := now,
                       se_failure_reason := map_option category_str (tr_failure tr),
                       se_status := tr_status tr\<rparr>) st = Some st1"
    and l: "load_session_row st1 i = Inr r" and v: "store_view st' = store_view st1"
  show thesis
    by (rule update_row_change [OF assms(1) u _ l]) (use row_change_view [OF _ v] that in simp_all)
qed

lemma mark_session_running_row:
  assumes "rows_ok st" "mark_session_running now i pid st = Inr (r, st')"
  shows "se_failure_reason r = None \<and> row_change st i (Some r) st'"
  using assms(2)
proof (rule mark_session_running_Inr)
  fix st1
  assume u: "update_session i
            (\<lambda>s. st_lifecycle (se_status s) = Starting \<or> st_lifecycle (se_status s) = Running)
            (\<lambda>s. s\<lparr>se_status := (se_status s)\<lparr>st_lifecycle := Running\<rparr>, se_process_id := Some pid,
                   se_started_at := (case se_started_at s of None \<Rightarrow> Some now | t \<Rightarrow> t),
                   se_last_activity_at := now, se_failure_reason := None\<rparr>) st = Some st1"
    and l: "load_session_row st1 i = Inr r" and v: "store_view st' = store_view st1"
  show ?thesis
    by (rule update_row_change [OF assms(1) u _ l]) (use row_change_view [OF _ v] in simp_all)
qed

lemma finish_session_row:
  assumes "rows_ok st" "finish_session now i l tr code failure st = Inr (r, st')"
  shows "rows st i \<noteq> None \<and> se_failure_reason r = failure \<and> row_change st i (Some r) st'
    \<and> (\<forall>t. tr = Some t \<longrightarrow> se_status r = tr_status t)"
  using assms(2)
proof (rule finish_session_Inr)
  fix status st1
  assume u: "update_session i (\<lambda>_. True)
                  (\<lambda>s. s\<lparr>se_status := status, se_process_id := None, se_ended_at := Some now,
                         se_last_activity_at := now, se_exit_code := code,
                         se_failure_reason := failure\<rparr>) st = Some st1"
    and status: "status = (case tr of None \<Rightarrow> terminal_status now l | Some t \<Rightarrow> tr_status t)"
    and l: "load_session_row st1 i = Inr r" and v: "store_view st' = store_view st1"
  show ?thesis
    by (rule update_row_change [OF assms(1) u _ l]) (use row_change_view [OF _ v] status in simp_all)
qed

lemma acknowledge_row:
  assumes ok: "rows_ok st" and ack: "acknowledge_session_attention i ev a st = Inr (Some r, st')"
  obtains q e where "rows st i = Some q" "st_attention (se_status q) = Some e" "ev_ack e = Pending"
    "r = q\<lparr>se_status := (se_status q)\<lparr>st_attention := Some (e\<lparr>ev_ack := Acknowledged\<rparr>)\<rparr>\<rparr>"
    "row_change st i (Some r) st'"
  using ack
proof (rule acknowledge_session_attention_Inr)
  fix s e
  assume s: "load_session_row st i = Inr s" and e: "st_attention (se_status s) = Some e" "ev_ack e = Pending"
    and v: "store_view st' = store_view (updated_session i
       (\<lambda>q. q\<lparr>se_status := (se_status s)\<lparr>st_attention := Some (e\<lparr>ev_ack := Acknowledged\<rparr>)\<rparr>\<rparr>) st)"
    and l: "load_session_row st' i = Inr r"
  let ?f = "\<lambda>q :: session. q\<lparr>se_status := (se_status s)\<lparr>st_attention := Some (e\<lparr>ev_ack := Acknowledged\<rparr>)\<rparr>\<rparr>"
  have m: "s \<in> set (db_sessions st)" "se_id s = i"
    using load_rows [OF s] by (auto simp: rows_def dest: select_by_SomeD)
  have u: "update_session i (\<lambda>_. True) ?f st = Some (updated_session i ?f st)"
    by (rule updated_session_as_update [OF m])
  have l1: "load_session_row (updated_session i ?f st) i = Inr r"
    using l v by (auto simp: store_view_def dest!: view_sessions load_session_row_cong)
  show thesis
    by (rule update_row_change [OF ok u _ l1])
      (use load_rows [OF s] row_change_view [OF _ v] e that in simp_all)
qed

lemma rename_session_row:
  assumes ok: "rows_ok st" and "rename_session now i name st = Inr (r, st')"
  obtains q n where "rows st i = Some q" "r = q\<lparr>se_display_name := n, se_last_activity_at := now\<rparr>"
    "row_change st i (Some r) st'"
proof -
  let ?f = "\<lambda>n s. s\<lparr>se_display_name := n, se_last_activity_at := now\<rparr>"
  obtain n where *: "(case update_session i (\<lambda>_. True) (?f n) st of
       None \<Rightarrow> Inl (NoSuchSession i)
     | Some st1 \<Rightarrow>
        if \<not> name_check n then Inl ConstraintFailed
        else bind_result (case select_by se_id i (db_sessions st1) of
                 None \<Rightarrow> Inr st1
               | Some s \<Rightarrow> touch_worktree now (se_worktree_id s) st1) (\<lambda>st2.
             let st3 = insert_entity_audit ''session_renamed'' (SessionEntity i) st2
             in bind_result (load_session_row st3 i) (\<lambda>s. Inr (s, st3)))) = Inr (r, st')"
    using assms(2) unfolding rename_session_def by (elim bind_resultE)
  then obtain st1 where u: "update_session i (\<lambda>_. True) (?f n) st = Some st1" and n: "name_check n"
    by (auto split: option.splits if_splits)
  obtain st2 where t: "(case select_by se_id i (db_sessions st1) of
                 None \<Rightarrow> Inr st1
               | Some s \<Rightarrow> touch_worktree now (se_worktree_id s) st1) = Inr st2"
    and st': "st' = insert_entity_audit ''session_renamed'' (SessionEntity i) st2"
    and l: "load_session_row st' i = Inr r"
    using * u n by (auto simp: bind_result_eq_Inr Let_def)
  have v: "store_view st' = store_view st1"
    using t store_view_touch st' by (simp split: option.splits)
  then have l1: "load_session_row st1 i = Inr r"
    using l by (auto simp: store_view_def dest!: view_sessions load_session_row_cong)
  show thesis
    by (rule update_row_change [OF ok u _ l1]) (use row_change_view [OF _ v] that in simp_all)
qed

lemma delete_session_row:
  assumes ok: "rows_ok st" and d: "delete_session x st = Inr (s, st')"
  shows "s = x \<and> row_change st (se_id x) None st'"
proof -
  have ss: "db_sessions st' = filter (\<lambda>q. se_id q \<noteq> se_id x) (db_sessions st)"
    using delete_session_Inr(5,2) [OF d] by (simp add: session_view_def)
  have f: "rows st' j = (case rows st j of None \<Rightarrow> None | Some q \<Rightarrow> if se_id q \<noteq> se_id x then Some q else None)" for j
    using ok unfolding rows_ok_def by (simp add: rows_def ss select_by_filter split: option.split)
  have "rows st' j = ((rows st)(se_id x := None)) j" for j
    unfolding f using rows_key [of st j] by (cases "rows st j") auto
  moreover have "rows_ok st'" using ok by (simp add: rows_ok_def ss distinct_map_filter)
  ultimately show ?thesis using delete_session_Inr(2) [OF d] by (auto simp: row_change_def)
qed

lemma insert_session_row:
  assumes ok: "rows_ok st" and i: "insert_session now r st = Inr (s, st')"
  shows "rows st (ns_id r) = None \<and> row_change st (ns_id r) (Some (new_session_row now r)) st'"
  using i unfolding insert_session_def
proof (elim bind_resultE)
  fix x st1 st2
  assume 1: "insert_session_row (new_session_row now r) st = Inr st1"
    and 2: "(case ns_resumed_from r of None \<Rightarrow> Inr st1
        | Some src \<Rightarrow> insert_resumption_row
            \<lparr>predecessor = src, successor = ns_id r, rs_created_at = now\<rparr> st1) = Inr st2"
    and 3: "(let st3 = insert_entity_audit ''session_created'' (SessionEntity (ns_id r)) st2
        in bind_result (load_session_row st3 (ns_id r)) (\<lambda>s. Inr (s, st3))) = Inr (s, st')"
  have s1: "db_sessions st1 = db_sessions st @ [new_session_row now r]"
    using insert_session_row_Inr(1) [OF 1] by (simp add: session_view_def)
  have s2: "db_sessions st2 = db_sessions st1"
    using 2 by (auto simp: insert_resumption_row_def split: option.splits if_splits)
  have s': "db_sessions st' = db_sessions st @ [new_session_row now r]"
    using 3 s1 s2 by (auto simp: Let_def bind_result_eq_Inr)
  have key: "se_id (new_session_row now r) = ns_id r" by (simp add: new_session_row_def)
  have new: "ns_id r \<notin> se_id ` set (db_sessions st)" using insert_session_row_Inr(2) [OF 1] key by simp
  then have none: "rows st (ns_id r) = None" by (simp add: rows_def select_by_None)
  moreover have "rows st' j = ((rows st)(ns_id r \<mapsto> new_session_row now r)) j" for j
    using none by (auto simp: rows_def s' select_by_append select_by_simps key split: option.split)
  moreover have "rows_ok st'" using ok new key by (simp add: rows_ok_def s')
  ultimately show ?thesis by (auto simp: row_change_def)
qed

section \<open>Commands that leave the Sessions alone\<close>

lemma sessions_bump_workspace: "bump_workspace w st = Inr st1 \<Longrightarrow> db_sessions st1 = db_sessions st"
  by (auto simp: bump_workspace_def split: if_splits)

lemma sessions_bump_project: "bump_project p st = Inr st1 \<Longrightarrow> db_sessions st1 = db_sessions st"
  by (rule bump_project_Inr(3))

lemma sessions_bump_times: "bump_project_times n p st = Inr st1 \<Longrightarrow> db_sessions st1 = db_sessions st"
  using bump_project_times_Inr by blast

lemma sessions_update_worktree:
  "update_worktree i P f st = Inr (c, st1) \<Longrightarrow> db_sessions st1 = db_sessions st"
  by (auto simp: update_worktree_def bind_result_eq_Inr dest!: sessions_bump_project
      split: option.splits if_splits)

lemma sessions_touch [simp]:
  "db_sessions (touch_project now p st) = db_sessions st"
  "db_sessions (touch_owner now w st) = db_sessions st"
  by (simp_all add: touch_project_def touch_owner_def split: option.split)

lemma sessions_insert_rows:
  "insert_worktree_row w st = Inr st1 \<Longrightarrow> db_sessions st1 = db_sessions st"
  "insert_project_row p st = Inr st1 \<Longrightarrow> db_sessions st1 = db_sessions st"
  "delete_project_links q st = Inr st1 \<Longrightarrow> db_sessions st1 = db_sessions st"
  "delete_project_worktrees q st = Inr st1 \<Longrightarrow> db_sessions st1 = db_sessions st"
  "delete_project_row q v st = Inr st1 \<Longrightarrow> db_sessions st1 = db_sessions st"
  unfolding insert_worktree_row_def insert_project_row_def delete_project_links_def
    delete_project_worktrees_def delete_project_row_def
  by (auto dest!: sessions_bump_project sessions_bump_workspace sessions_bump_times split: if_splits)

lemmas sessions_frame = sessions_insert_rows sessions_update_worktree

lemma workspace_commands_frame:
  "insert_workspace now w name st = Inr (x, st') \<Longrightarrow> db_sessions st' = db_sessions st"
  "open_workspace now w st = Inr (y, st') \<Longrightarrow> db_sessions st' = db_sessions st"
  "delete_workspace now e st = Inr (z, st') \<Longrightarrow> db_sessions st' = db_sessions st"
  by (auto simp: insert_workspace_def open_workspace_def delete_workspace_def Let_def bind_result_eq_Inr
      split: if_splits option.splits)

lemma project_commands_frame:
  "insert_project now p w r st = Inr (x, st') \<Longrightarrow> db_sessions st' = db_sessions st"
  "rename_project now p name st = Inr (y, st') \<Longrightarrow> db_sessions st' = db_sessions st"
  "remove_project e st = Inr (z, st') \<Longrightarrow> db_sessions st' = db_sessions st"
proof -
  show "db_sessions st' = db_sessions st" if "insert_project now p w r st = Inr (x, st')"
    using that unfolding insert_project_def
    by (elim bind_resultE) (auto dest!: sessions_frame)
  show "db_sessions st' = db_sessions st" if "rename_project now p name st = Inr (y, st')"
    using that unfolding rename_project_def
    by (elim bind_resultE) (auto simp: bind_result_eq_Inr Let_def split: if_splits)
  show "db_sessions st' = db_sessions st" if "remove_project e st = Inr (z, st')"
    using that unfolding remove_project_def Let_def
    by (elim bind_resultE) (auto simp: bind_result_eq_Inr dest!: sessions_frame split: if_splits)
qed

lemma worktree_commands_frame:
  "insert_worktree now r st = Inr (x, st') \<Longrightarrow> db_sessions st' = db_sessions st"
  "rename_worktree now w name st = Inr (x, st') \<Longrightarrow> db_sessions st' = db_sessions st"
  "mark_worktree_removed now w st = Inr (x, st') \<Longrightarrow> db_sessions st' = db_sessions st"
  "mark_worktree_missing now w st = Inr (x, st') \<Longrightarrow> db_sessions st' = db_sessions st"
proof -
  show "db_sessions st' = db_sessions st" if "insert_worktree now r st = Inr (x, st')"
    using that unfolding insert_worktree_def insert_worktree_record_def Let_def
    by (elim bind_resultE) (auto simp: bind_result_eq_Inr dest!: sessions_frame)
  show "db_sessions st' = db_sessions st" if "rename_worktree now w name st = Inr (x, st')"
    using that unfolding rename_worktree_def Let_def
    by (elim bind_resultE) (auto simp: bind_result_eq_Inr dest!: sessions_frame split: if_splits)
  show "db_sessions st' = db_sessions st" if "mark_worktree_removed now w st = Inr (x, st')"
    using that unfolding mark_worktree_removed_def
    by (elim bind_resultE) (auto simp: bind_result_eq_Inr dest!: sessions_frame split: if_splits)
  show "db_sessions st' = db_sessions st" if "mark_worktree_missing now w st = Inr (x, st')"
    using that unfolding mark_worktree_missing_def Let_def
    by (elim bind_resultE) (auto simp: bind_result_eq_Inr dest!: sessions_frame split: if_splits)
qed

lemma insert_record_frame:
  "insert_worktree_record now r st = Inr (w, st1) \<Longrightarrow> db_sessions st1 = db_sessions st"
  unfolding insert_worktree_record_def Let_def
  by (elim bind_resultE) (auto simp: bind_result_eq_Inr dest!: sessions_frame)

lemma association_commands_frame:
  "set_github_association now p remote st = Inr (x, st') \<Longrightarrow> db_sessions st' = db_sessions st"
  "clear_github_association p st = Inr (c, st') \<Longrightarrow> db_sessions st' = db_sessions st"
  "insert_sourced_worktree now r source st = Inr (y, st') \<Longrightarrow> db_sessions st' = db_sessions st"
proof -
  show "db_sessions st' = db_sessions st" if "set_github_association now p remote st = Inr (x, st')"
    using that unfolding set_github_association_def Let_def
    by (elim bind_resultE) (auto simp: bind_result_eq_Inr dest!: sessions_bump_project split: if_splits)
  show "db_sessions st' = db_sessions st" if "clear_github_association p st = Inr (c, st')"
    using that unfolding clear_github_association_def Let_def
    by (auto simp: bind_result_eq_Inr dest!: sessions_bump_project split: if_splits)
  show "db_sessions st' = db_sessions st" if "insert_sourced_worktree now r source st = Inr (y, st')"
    using that insert_record_frame
    by (auto simp: insert_sourced_worktree_def Let_def bind_result_eq_Inr split: if_splits)
qed

lemma upsert_provider_frame: "upsert_provider p st = Inr (x, st') \<Longrightarrow> db_sessions st' = db_sessions st"
  by (auto simp: upsert_provider_def Let_def bind_result_eq_Inr split: if_splits)

lemma audit_event_frame:
  "insert_audit_event v a o' x st = Inr (y, st') \<Longrightarrow> db_sessions st' = db_sessions st"
  by (auto simp: insert_audit_event_def split: if_splits)

lemma administrative_frame:
  assumes "administrative c" "execute c st = Inr (b, st')"
  shows "db_sessions st' = db_sessions st"
proof (cases c)
  case (AddWorkspace now i name)
  then show ?thesis using assms(2) workspace_commands_frame(1) by (auto simp: commits_Inr simp del: split_paired_Ex)
next
  case (OpenWorkspace now i)
  then show ?thesis using assms(2) workspace_commands_frame(2) by (auto simp: commits_Inr simp del: split_paired_Ex)
next
  case (DeleteWorkspace now x)
  then show ?thesis using assms(2) workspace_commands_frame(3) by (auto simp: commits_Inr simp del: split_paired_Ex)
next
  case (AddProject now p w r)
  then show ?thesis using assms(2) project_commands_frame(1) by (auto simp: commits_Inr simp del: split_paired_Ex)
next
  case (RenameProject now p name)
  then show ?thesis using assms(2) project_commands_frame(2) by (auto simp: commits_Inr simp del: split_paired_Ex)
next
  case (RemoveProject x)
  then show ?thesis using assms(2) project_commands_frame(3) by (auto simp: commits_Inr simp del: split_paired_Ex)
next
  case (UpsertProvider p)
  then show ?thesis using assms(2) upsert_provider_frame by (auto simp: commits_Inr simp del: split_paired_Ex)
next
  case (AddWorktree now r)
  then show ?thesis using assms(2) worktree_commands_frame(1) by (auto simp: commits_Inr simp del: split_paired_Ex)
next
  case (AddSourcedWorktree now r source)
  then show ?thesis using assms(2) association_commands_frame(3) by (auto simp: commits_Inr simp del: split_paired_Ex)
next
  case (SetGitHubAssociation now p remote)
  then show ?thesis using assms(2) association_commands_frame(1) by (auto simp: commits_Inr simp del: split_paired_Ex)
next
  case (ClearGitHubAssociation p)
  then show ?thesis using assms(2) association_commands_frame(2) by (auto simp: bind_result_eq_Inr simp del: split_paired_Ex)
next
  case (RenameWorktree now w name)
  then show ?thesis using assms(2) worktree_commands_frame(2) by (auto simp: commits_Inr simp del: split_paired_Ex)
next
  case (MarkWorktreeRemoved now w)
  then show ?thesis using assms(2) worktree_commands_frame(3) by (auto simp: commits_Inr simp del: split_paired_Ex)
next
  case (MarkWorktreeMissing now w)
  then show ?thesis using assms(2) worktree_commands_frame(4) by (auto simp: commits_Inr simp del: split_paired_Ex)
next
  case (Audit a x y z)
  then show ?thesis using assms(2) audit_event_frame by (auto simp: commits_Inr simp del: split_paired_Ex)
qed (use assms(1) in simp_all)

lemma administrative_rows:
  assumes "administrative c"
  shows "rows (da_store (database_step db c)) = rows (da_store db)
    \<and> rows_ok (da_store (database_step db c)) = rows_ok (da_store db)"
  using administrative_frame [OF assms]
  by (auto simp: database_step_def rows_def rows_ok_def fun_eq_iff split: sum.split)

section \<open>The three views of a Session\<close>

abbreviation store_of :: "daemon \<Rightarrow> store" where
  "store_of d \<equiv> da_store (dm_database d)"

definition in_step :: "session \<Rightarrow> status_machine \<Rightarrow> bool" where
  "in_step s m \<longleftrightarrow> se_status s = m_status m \<and> se_failure_reason s = map_option category_str (m_failure m)"

definition views_agree :: "daemon \<Rightarrow> bool" where
  "views_agree d \<longleftrightarrow> rows_ok (store_of d)
     \<and> (\<forall>i m. map_of (dm_machines d) i = Some m \<longrightarrow> (\<exists>s. rows (store_of d) i = Some s \<and> in_step s m))
     \<and> (\<forall>i g. map_of (dm_managed d) i = Some g \<longrightarrow>
          rows (store_of d) i = Some (mg_record g) \<and> map_of (dm_machines d) i \<noteq> None)"

lemma views_agreeD:
  assumes "views_agree d"
  shows "rows_ok (store_of d)"
    and "map_of (dm_machines d) i = Some m \<Longrightarrow> rows (store_of d) i = Some s \<Longrightarrow> in_step s m"
    and "map_of (dm_managed d) i = Some g \<Longrightarrow> rows (store_of d) i = Some (mg_record g)"
    and "map_of (dm_managed d) i = Some g \<Longrightarrow> \<exists>m. map_of (dm_machines d) i = Some m"
    and "rows (store_of d) i = None \<Longrightarrow> map_of (dm_machines d) i = None \<and> map_of (dm_managed d) i = None"
proof -
  show "rows_ok (store_of d)"
    "map_of (dm_machines d) i = Some m \<Longrightarrow> rows (store_of d) i = Some s \<Longrightarrow> in_step s m"
    "map_of (dm_managed d) i = Some g \<Longrightarrow> rows (store_of d) i = Some (mg_record g)"
    "map_of (dm_managed d) i = Some g \<Longrightarrow> \<exists>m. map_of (dm_machines d) i = Some m"
    using assms by (force simp: views_agree_def)+
  assume none: "rows (store_of d) i = None"
  have "map_of (dm_machines d) i \<noteq> Some m" "map_of (dm_managed d) i \<noteq> Some g" for m g
    using assms none by (force simp: views_agree_def)+
  then show "map_of (dm_machines d) i = None \<and> map_of (dm_managed d) i = None"
    by (metis option.exhaust)
qed

text \<open>What leaves the views as they are, whatever it does to the rest.\<close>

definition noted :: "daemon \<Rightarrow> daemon \<Rightarrow> bool" where
  "noted d d' \<longleftrightarrow> db_sessions (store_of d') = db_sessions (store_of d)
     \<and> dm_managed d' = dm_managed d \<and> dm_machines d' = dm_machines d \<and> dm_claims d' = dm_claims d
     \<and> dm_receiver d' = dm_receiver d \<and> dm_events d' = dm_events d
     \<and> current_revision d' = current_revision d"

lemma noted_refl [simp]: "noted d d"
  by (simp add: noted_def)

lemma noted_trans: "noted d d1 \<Longrightarrow> noted d1 d2 \<Longrightarrow> noted d d2"
  by (simp add: noted_def)

lemma noted_tracking [simp]: "noted d (put_tracking i t d') = noted d d'"
  by (simp add: noted_def put_tracking_def current_revision_def)

lemma views_agree_same:
  assumes "views_agree d" "db_sessions (store_of d') = db_sessions (store_of d)"
    and "map_of (dm_machines d') = map_of (dm_machines d)"
    and "\<And>i. map_option mg_record (map_of (dm_managed d') i) = map_option mg_record (map_of (dm_managed d) i)"
  shows "views_agree d'"
proof -
  have r: "rows (store_of d') = rows (store_of d)" "rows_ok (store_of d') = rows_ok (store_of d)"
    using assms(2) by (simp_all add: rows_def rows_ok_def fun_eq_iff)
  have "\<exists>g'. map_of (dm_managed d) i = Some g' \<and> mg_record g' = mg_record g"
    if "map_of (dm_managed d') i = Some g" for i g
    using assms(4) [of i] that by (cases "map_of (dm_managed d) i") auto
  then show ?thesis using assms(1) unfolding views_agree_def r assms(3) by fastforce
qed

lemma views_agree_noted: "views_agree d \<Longrightarrow> noted d d' \<Longrightarrow> views_agree d'"
  by (rule views_agree_same) (simp_all add: noted_def)

text \<open>A change of one row, with its machine and its managed record.\<close>

lemma views_agree_change:
  assumes agree: "views_agree d" and row: "row_change (store_of d) i (Some s) (store_of d')"
    and machines: "map_of (dm_machines d') = (map_of (dm_machines d))(i := x)"
    and step: "\<And>m. x = Some m \<Longrightarrow> in_step s m"
    and others: "\<And>j. j \<noteq> i \<Longrightarrow> map_of (dm_managed d') j = map_of (dm_managed d) j"
    and managed: "\<And>g. map_of (dm_managed d') i = Some g \<Longrightarrow> mg_record g = s \<and> x \<noteq> None"
  shows "views_agree d'"
proof -
  have r: "rows (store_of d') = (rows (store_of d))(i \<mapsto> s)" "rows_ok (store_of d')"
    using row by (simp_all add: row_change_def)
  have "rows (store_of d') j = Some (mg_record g) \<and> map_of (dm_machines d') j \<noteq> None"
    if "map_of (dm_managed d') j = Some g" for j g
  proof (cases "j = i")
    case True
    then show ?thesis using managed [of g] that by (simp add: r machines)
  next
    case False
    then have g: "map_of (dm_managed d) j = Some g" using others that by simp
    show ?thesis using views_agreeD(3,4) [OF agree g] False by (simp add: r machines)
  qed
  moreover have "\<exists>s'. rows (store_of d') j = Some s' \<and> in_step s' m"
    if "map_of (dm_machines d') j = Some m" for j m
    using that agree step by (cases "j = i") (simp_all add: r machines views_agree_def)
  ultimately show ?thesis using r(2) by (simp add: views_agree_def)
qed

section \<open>The pieces of the handlers\<close>

definition with_store :: "bool \<Rightarrow> store \<Rightarrow> daemon \<Rightarrow> daemon" where
  "with_store advances st d = d\<lparr>dm_database := \<lparr>da_store = st, da_revision =
     (if advances then saturating_add (da_revision (dm_database d)) 1 else da_revision (dm_database d))\<rparr>\<rparr>"

lemma run_command_Inr:
  "run_command b f d = (Inr x, d') \<longleftrightarrow> (\<exists>st. f (store_of d) = Inr (x, st) \<and> d' = with_store b st d)"
  by (auto simp: run_command_def with_store_def split: sum.splits)

lemma run_command_Inl:
  "run_command b f d = (Inl e, d') \<longleftrightarrow> (\<exists>x. f (store_of d) = Inl x \<and> e = DatabaseError x \<and> d' = d)"
  by (auto simp: run_command_def split: sum.splits)

lemma database_session_eq:
  "database_session i d = (Inr s, d') \<longleftrightarrow> load_session_row (store_of d) i = Inr s \<and> d' = d"
  "database_session i d = (Inl e, d') \<longleftrightarrow>
     (\<exists>x. load_session_row (store_of d) i = Inl x \<and> e = DatabaseError x \<and> d' = d)"
  by (auto simp: database_session_def split: sum.splits)

lemma with_store_simps [simp]:
  "store_of (with_store b st d) = st" "dm_managed (with_store b st d) = dm_managed d"
  "dm_machines (with_store b st d) = dm_machines d" "dm_tracking (with_store b st d) = dm_tracking d"
  "dm_claims (with_store b st d) = dm_claims d" "dm_receiver (with_store b st d) = dm_receiver d"
  "dm_events (with_store b st d) = dm_events d"
  "current_revision (with_store True st d) = saturating_add (current_revision d) 1"
  "current_revision (with_store False st d) = current_revision d"
  by (simp_all add: with_store_def current_revision_def)

lemma put_machine_simps [simp]:
  "dm_database (put_machine i m d) = dm_database d" "dm_managed (put_machine i m d) = dm_managed d"
  "map_of (dm_machines (put_machine i m d)) = (map_of (dm_machines d))(i \<mapsto> m)"
  "dm_tracking (put_machine i m d) = dm_tracking d" "dm_claims (put_machine i m d) = dm_claims d"
  "dm_receiver (put_machine i m d) = dm_receiver d" "dm_events (put_machine i m d) = dm_events d"
  by (simp_all add: put_machine_def)

lemma put_tracking_simps [simp]:
  "dm_database (put_tracking i t d) = dm_database d" "dm_managed (put_tracking i t d) = dm_managed d"
  "dm_machines (put_tracking i t d) = dm_machines d" "dm_claims (put_tracking i t d) = dm_claims d"
  "map_of (dm_tracking (put_tracking i t d)) = (map_of (dm_tracking d))(i \<mapsto> t)"
  "dm_receiver (put_tracking i t d) = dm_receiver d" "dm_events (put_tracking i t d) = dm_events d"
  by (simp_all add: put_tracking_def)

lemma put_record_simps [simp]:
  "dm_database (put_record i s d) = dm_database d" "dm_machines (put_record i s d) = dm_machines d"
  "dm_tracking (put_record i s d) = dm_tracking d" "dm_claims (put_record i s d) = dm_claims d"
  "dm_receiver (put_record i s d) = dm_receiver d" "dm_events (put_record i s d) = dm_events d"
  "map_of (dm_managed (put_record i s d)) j =
     (if j = i then map_option (\<lambda>g. g\<lparr>mg_record := s\<rparr>) (map_of (dm_managed d) i) else map_of (dm_managed d) j)"
  by (auto simp: put_record_def split: option.split)

lemma send_event_simps [simp]:
  "dm_database (send_event e d) = dm_database d" "dm_managed (send_event e d) = dm_managed d"
  "dm_machines (send_event e d) = dm_machines d" "dm_tracking (send_event e d) = dm_tracking d"
  "dm_claims (send_event e d) = dm_claims d" "dm_receiver (send_event e d) = dm_receiver d"
  "dm_events (send_event e d) = dm_events d @ [e]"
  by (simp_all add: send_event_def)

lemma coordinate_simps [simp]:
  "dm_database (coordinate p s n d) = dm_database d" "dm_managed (coordinate p s n d) = dm_managed d"
  "dm_machines (coordinate p s n d) = dm_machines d" "dm_tracking (coordinate p s n d) = dm_tracking d"
  "dm_claims (coordinate p s n d) = coordinate_attention_notification p s n (dm_claims d)"
  "dm_receiver (coordinate p s n d) = dm_receiver d" "dm_events (coordinate p s n d) = dm_events d"
  by (simp_all add: coordinate_def)

lemma revoke_credential_simps [simp]:
  "dm_database (revoke_credential i d) = dm_database d" "dm_managed (revoke_credential i d) = dm_managed d"
  "dm_machines (revoke_credential i d) = dm_machines d" "dm_tracking (revoke_credential i d) = dm_tracking d"
  "dm_claims (revoke_credential i d) = dm_claims d" "dm_events (revoke_credential i d) = dm_events d"
  "dm_receiver (revoke_credential i d) = invalidate i (dm_receiver d)"
  by (simp_all add: revoke_credential_def)

lemma current_revision_simps [simp]:
  "current_revision (put_machine i m d) = current_revision d"
  "current_revision (put_tracking i t d) = current_revision d"
  "current_revision (put_record i s d) = current_revision d"
  "current_revision (send_event e d) = current_revision d"
  "current_revision (coordinate p s n d) = current_revision d"
  "current_revision (revoke_credential i d) = current_revision d"
  by (simp_all add: current_revision_def)

lemma audit_daemon_noted: "noted d (snd (audit_daemon a o' s r d))"
  by (auto simp: audit_daemon_def run_command_def noted_def insert_audit_event_def current_revision_def split: sum.split if_splits)

lemma audit_then_fail_noted:
  "noted d (snd (and_then (audit_daemon a o' s r d) (\<lambda>_. fail_with x)))"
  using audit_daemon_noted [of d a o' s r]
  by (cases "audit_daemon a o' s r d") (auto simp: and_then_def fail_with_def split: sum.split)

lemma advance_machine_Inr:
  assumes "advance_machine e t m = Inr (tr, m1)"
  shows "apply_event e t m = (Inr tr, m1) \<and> tr = transition m1"
proof -
  have a: "apply_event e t m = (Inr tr, m1)"
    using assms by (auto simp: advance_machine_def split: prod.splits sum.splits)
  then have "tr = transition m1" by (auto simp: apply_event_def and_then_eq_Inr split: if_splits)
  with a show ?thesis by simp
qed

lemma transition_step:
  "se_status s = tr_status (transition m) \<Longrightarrow> se_failure_reason s = map_option category_str (tr_failure (transition m))
     \<Longrightarrow> in_step s m"
  by (simp add: in_step_def transition_def)

end
