(* ===== verification/Runtime_Handlers.thy ===== *)
theory Runtime_Handlers
  imports Runtime_Invariant
begin

text \<open>
  What every handler of the daemon does to the views of a Session, and that every step keeps them
  in agreement.
\<close>

section \<open>An applied event\<close>

text \<open>The changes an accepted Provider event makes: the row, the machine and the managed record of
  its Session, one coordination of the notification queue, and two broadcasts.\<close>

definition event_applied ::
    "clock \<Rightarrow> session \<Rightarrow> provider_conversation_id option \<Rightarrow> provider_event \<Rightarrow> daemon \<Rightarrow> daemon \<Rightarrow> bool" where
  "event_applied ck p received e d d' \<longleftrightarrow> current_revision d' = saturating_add (current_revision d) 1
   \<and> (\<exists>s m u st'.
     apply_event e (ck_status ck) (session_machine p d) = (Inr (transition m), m)
   \<and> provider_external_id_update (se_external_session_id p) received (started_transition e) = Inr u
   \<and> update_session_status (ck_now ck) (se_id p) (transition m)
       (identity_update_for u (started_transition e)) (store_of d) = Inr (s, st')
   \<and> store_view (store_of d') = store_view st'
   \<and> map_of (dm_machines d') = (map_of (dm_machines d))(se_id p \<mapsto> m)
   \<and> (\<forall>j. map_of (dm_managed d') j = (if j = se_id p
         then map_option (\<lambda>g. g\<lparr>mg_record := s\<rparr>) (map_of (dm_managed d) j) else map_of (dm_managed d) j))
   \<and> dm_claims d' = coordinate_attention_notification (st_attention (se_status p)) s (ck_instant ck) (dm_claims d)
   \<and> dm_events d' = dm_events d @ [ProviderEvent (se_provider_kind p) (se_id p) (se_worktree_id p) e,
       SessionStatusChanged (saturating_add (current_revision d) 1) s])"

lemma sessions_of_view: "store_view st1 = store_view st \<Longrightarrow> db_sessions st1 = db_sessions st"
  by (simp add: store_view_def session_view_def)

lemma row_of_update:
  assumes "rows_ok st" "update_session_status now i (transition m) u st = Inr (s, st')"
  shows "row_change st i (Some s) st'" "in_step s m" "se_status s = m_status m"
  using assms(2)
  by (auto elim!: update_session_status_row [OF assms(1)] simp: in_step_def transition_def)

lemma event_applied_agree:
  assumes agree: "views_agree d" and applied: "event_applied ck p received e d d'"
  shows "views_agree d'"
proof -
  obtain s m u st' where upd: "update_session_status (ck_now ck) (se_id p) (transition m) u (store_of d) = Inr (s, st')"
    and st': "store_view (store_of d') = store_view st'"
    and machines: "map_of (dm_machines d') = (map_of (dm_machines d))(se_id p \<mapsto> m)"
    and managed: "\<And>j. map_of (dm_managed d') j = (if j = se_id p
         then map_option (\<lambda>g. g\<lparr>mg_record := s\<rparr>) (map_of (dm_managed d) j) else map_of (dm_managed d) j)"
    using applied unfolding event_applied_def by blast
  note row = row_of_update [OF views_agreeD(1) [OF agree] upd]
  show ?thesis
    by (rule views_agree_change [OF agree row_change_view [OF row(1) st'] machines])
      (use row(2) in \<open>auto simp: managed split: if_splits\<close>)
qed

section \<open>Hook deliveries\<close>

lemma audit_daemon_ok:
  assumes "audit_outcome_ok (lit o')"
  obtains st' where "audit_daemon a o' i r d = (Inr (), with_store False st' d)"
    "store_view st' = store_view (store_of d)"
  using assms that
  by (simp add: audit_daemon_def run_command_def insert_audit_event_def with_store_def)

lemma audit_outcomes: "audit_outcome_ok (lit ''refused'')" "audit_outcome_ok (lit ''succeeded'')"
    "\<not> audit_outcome_ok (lit ''missing'')"
  by (simp_all add: audit_outcome_ok_def) (simp add: lit_def)

lemma settle_hook_event_result:
  assumes "settle_hook_event ck p e is_start recovers candidate a m s d = (res, d')"
  obtains t where "res = Inr ()" "store_view (store_of d') = store_view (store_of d)"
    "map_of (dm_machines d') = (map_of (dm_machines d))(se_id p \<mapsto> m)"
    "\<forall>j. map_of (dm_managed d') j = (if j = se_id p
         then map_option (\<lambda>g. g\<lparr>mg_record := s\<rparr>) (map_of (dm_managed d) j) else map_of (dm_managed d) j)"
    "dm_claims d' = coordinate_attention_notification (st_attention (se_status p)) s (ck_instant ck) (dm_claims d)"
    "dm_events d' = dm_events d @ [ProviderEvent (se_provider_kind p) (se_id p) (se_worktree_id p) e,
       SessionStatusChanged (current_revision d) s]"
    "map_of (dm_tracking d') = (map_of (dm_tracking d))(se_id p \<mapsto> t)"
    "tk_fingerprints t = tk_fingerprints candidate" "tk_callback_received t"
    "dm_receiver d' = (if e = SessionEnded then invalidate (se_id p) (dm_receiver d) else dm_receiver d)"
    "current_revision d' = current_revision d"
proof -
  let ?t0 = "(record_applied e a candidate)\<lparr>tk_callback_received := True\<rparr>"
  define t where "t = (if is_start \<or> recovers then ?t0\<lparr>tk_session_start_missing := False\<rparr> else ?t0)"
  define d2 where "d2 = put_record (se_id p) s (put_tracking (se_id p) t (put_machine (se_id p) m d))"
  obtain st where audit: "audit_daemon ''provider_lifecycle_recovered'' ''succeeded'' (Some (se_id p)) None d2
      = (Inr (), with_store False st d2)" and st: "store_view st = store_view (store_of d2)"
    by (rule audit_daemon_ok [OF audit_outcomes(2)])
  define d3 where "d3 = (if recovers then with_store False st d2 else d2)"
  have note3: "store_view (store_of d3) = store_view (store_of d)" "dm_machines d3 = dm_machines d2"
    "dm_managed d3 = dm_managed d2" "dm_tracking d3 = dm_tracking d2" "dm_claims d3 = dm_claims d2"
    "dm_events d3 = dm_events d2" "dm_receiver d3 = dm_receiver d2" "current_revision d3 = current_revision d"
    using st by (simp_all add: d3_def) (simp_all add: d2_def)
  have "(if recovers then audit_daemon ''provider_lifecycle_recovered'' ''succeeded'' (Some (se_id p)) None d2
      else done_with d2) = (Inr (), d3)"
    using audit by (simp add: done_with_def d3_def)
  then have d': "res = Inr ()" "d' = send_event (SessionStatusChanged (current_revision d) s)
      (send_event (ProviderEvent (se_provider_kind p) (se_id p) (se_worktree_id p) e)
        (put_record (se_id p) s (coordinate (st_attention (se_status p)) s (ck_instant ck)
          (if e = SessionEnded then revoke_credential (se_id p) d3 else d3))))"
    using assms unfolding settle_hook_event_def Let_def t_def [symmetric] d2_def [symmetric]
    by (simp_all add: done_with_def)
  have "tk_fingerprints t = tk_fingerprints candidate" "tk_callback_received t"
    by (simp_all add: t_def record_applied_def split: provider_event.split)
  then show thesis
    by (intro that [of t]) (auto simp: d' note3, simp_all add: d2_def option.map_comp comp_def)
qed

lemma commit_hook_event_cases:
  assumes c: "commit_hook_event ck p e u is_start recovers candidate d = (res, d')"
    and u: "provider_external_id_update (se_external_session_id p) received (started_transition e) = Inr u"
  obtains (noted) "noted d d'" "dm_tracking d' = dm_tracking d"
  | (applied) t where "res = Inr ()" "event_applied ck p received e d d'"
      "map_of (dm_tracking d') = (map_of (dm_tracking d))(se_id p \<mapsto> t)"
      "tk_fingerprints t = tk_fingerprints candidate" "tk_callback_received t"
      "dm_receiver d' = (if e = SessionEnded then invalidate (se_id p) (dm_receiver d) else dm_receiver d)"
proof (cases "advance_machine e (ck_status ck) (session_machine p d)")
  case (Inl x)
  then have "d' = d" using c by (simp add: commit_hook_event_def fail_with_def)
  then show thesis using noted by simp
next
  case (Inr a)
  obtain tr m where a: "a = (tr, m)" by fastforce
  note adv = advance_machine_Inr [OF Inr [unfolded a]]
  let ?cmd = "update_session_status (ck_now ck) (se_id p) tr (identity_update_for u (started_transition e))"
  show thesis
  proof (cases "?cmd (store_of d)")
    case (Inl x)
    then have "run_command True ?cmd d = (Inl (DatabaseError x), d)" by (simp add: run_command_Inl)
    then have r: "and_then (database_session (se_id p) d) (\<lambda>latest d.
         if se_process_id latest = None \<or> \<not> lifecycle_is_active (st_lifecycle (se_status latest))
         then audit_daemon ''provider_hook_ignored'' ''refused'' (Some (se_id p)) (Some ''late_terminal'') d
         else fail_with (DatabaseError x) d) = (res, d')"
      using c \<open>advance_machine _ _ _ = _\<close> a by (simp add: commit_hook_event_def Let_def)
    obtain st where audit: "audit_daemon ''provider_hook_ignored'' ''refused'' (Some (se_id p)) (Some ''late_terminal'') d
        = (Inr (), with_store False st d)" and st: "store_view st = store_view (store_of d)"
      by (rule audit_daemon_ok [OF audit_outcomes(1)])
    have "d' = d \<or> d' = with_store False st d"
      using r audit by (cases "load_session_row (store_of d) (se_id p)")
        (auto simp: database_session_def fail_with_def split: if_splits)
    then show thesis using noted sessions_of_view [OF st] by (auto simp: noted_def)
  next
    case cmd: (Inr y)
    obtain s st where y: "y = (s, st)" by fastforce
    let ?d1 = "with_store True st d"
    have run: "run_command True ?cmd d = (Inr s, ?d1)" using cmd y by (simp add: run_command_Inr)
    have "settle_hook_event ck p e is_start recovers candidate (st_activity (tr_status tr)) m s ?d1 = (res, d')"
      using c unfolding commit_hook_event_def Let_def Inr a sum.case prod.case run .
    then show thesis
    proof (rule settle_hook_event_result)
      fix t
      assume s: "res = Inr ()" "store_view (store_of d') = store_view (store_of ?d1)"
        "map_of (dm_machines d') = (map_of (dm_machines ?d1))(se_id p \<mapsto> m)"
        "\<forall>j. map_of (dm_managed d') j = (if j = se_id p
           then map_option (\<lambda>g. g\<lparr>mg_record := s\<rparr>) (map_of (dm_managed ?d1) j) else map_of (dm_managed ?d1) j)"
        "dm_claims d' = coordinate_attention_notification (st_attention (se_status p)) s (ck_instant ck) (dm_claims ?d1)"
        "dm_events d' = dm_events ?d1 @ [ProviderEvent (se_provider_kind p) (se_id p) (se_worktree_id p) e,
           SessionStatusChanged (current_revision ?d1) s]"
        "map_of (dm_tracking d') = (map_of (dm_tracking ?d1))(se_id p \<mapsto> t)"
        "tk_fingerprints t = tk_fingerprints candidate" "tk_callback_received t"
        "dm_receiver d' = (if e = SessionEnded then invalidate (se_id p) (dm_receiver ?d1) else dm_receiver ?d1)"
        "current_revision d' = current_revision ?d1"
      have "event_applied ck p received e d d'" unfolding event_applied_def
        using adv u cmd y s(2-6,11)
        by (intro conjI exI [of _ s] exI [of _ m] exI [of _ u] exI [of _ st]) simp_all
      then show thesis using applied [of t] s(1,7-) by simp
    qed
  qed
qed

text \<open>The accepted event: either it is classified away or refused, or it is applied and its
  fingerprint remembered.\<close>

lemma classify_fresh:
  assumes "classify f e turn t = (x, t')"
  shows "f \<in> tk_fingerprints t'" "f \<in> tk_fingerprints t \<longleftrightarrow> x = Some Duplicate"
  using assms by (auto simp: classify_def accept_fingerprint_def close_turn_def Let_def split: if_splits option.splits)

lemma accept_hook_event_cases:
  assumes c: "accept_hook_event ck de p n e d = (res, d')" and p: "se_id p = de_session de"
  obtains (noted) "noted d d'" "map_of (dm_tracking d') = (map_of (dm_tracking d))(se_id p \<mapsto> tracking_entry (se_id p) d)"
  | (applied) t received where "res = Inr ()" "event_applied ck p received e d d'"
      "de_fingerprint de \<notin> tk_fingerprints (tracking_entry (se_id p) d)"
      "fst (classify (de_fingerprint de) e (le_turn n) (tracking_entry (se_id p) d)) = None"
      "map_of (dm_tracking d') = (map_of (dm_tracking d))(se_id p \<mapsto> t)"
      "de_fingerprint de \<in> tk_fingerprints t" "tk_callback_received t"
      "dm_receiver d' = (if e = SessionEnded then invalidate (se_id p) (dm_receiver d) else dm_receiver d)"
      "received = None \<or> received = le_conversation n"
proof -
  note quiet_case = noted and applied_case = applied
  let ?i = "se_id p"
  let ?old = "tracking_entry ?i d"
  let ?d = "put_tracking ?i ?old d"
  obtain x candidate where cl: "classify (de_fingerprint de) e (le_turn n) ?old = (x, candidate)" by fastforce
  let ?start = "de_provider de = Claude \<and> (case e of TurnStarted c \<Rightarrow> c \<noteq> None | _ \<Rightarrow> False)"
  let ?recovers = "de_provider de = Claude \<and> tk_session_start_missing ?old \<and> le_conversation n \<noteq> None"
  let ?received = "if de_provider de = Claude \<and> se_external_session_id p = None \<and> started_transition e = None
     then None else le_conversation n"
  have apl: "event_applied ck p received e ?d d1 \<longleftrightarrow> event_applied ck p received e d d1" for received d1
    by (simp add: event_applied_def session_machine_def current_revision_def)
  show thesis
  proof (cases x)
    case (Some y)
    obtain st where audit: "audit_daemon ''provider_hook_ignored'' ''refused'' (Some ?i)
        (Some (case y of Duplicate \<Rightarrow> ''duplicate'' | Stale \<Rightarrow> ''stale'')) ?d = (Inr (), with_store False st ?d)"
      and st: "store_view st = store_view (store_of ?d)"
      by (rule audit_daemon_ok [OF audit_outcomes(1)])
    have "d' = with_store False st ?d"
      using c cl Some p audit by (simp add: accept_hook_event_def Let_def)
    then show thesis using quiet_case sessions_of_view [OF st] by (simp add: noted_def)
  next
    case None
    show thesis
    proof (cases "provider_external_id_update (se_external_session_id p) ?received (started_transition e)")
      case (Inl y)
      obtain st where audit: "audit_daemon ''provider_hook_refused'' ''refused'' None
          (Some ''external_session_id_changed'') ?d = (Inr (), with_store False st ?d)"
        and st: "store_view st = store_view (store_of ?d)"
        by (rule audit_daemon_ok [OF audit_outcomes(1)])
      have "d' = with_store False st ?d"
        using c cl None Inl p audit by (simp add: accept_hook_event_def Let_def fail_with_def)
      then show thesis using quiet_case sessions_of_view [OF st] by (simp add: noted_def)
    next
      case u: (Inr u)
      have "commit_hook_event ck p e u ?start ?recovers candidate ?d = (res, d')"
        using c cl None u p by (simp add: accept_hook_event_def Let_def)
      from this u show thesis
      proof (cases rule: commit_hook_event_cases)
        case noted
        then show ?thesis using quiet_case by (simp add: noted_def)
      next
        case (applied t)
        show ?thesis
          using classify_fresh [OF cl] applied cl None by (intro applied_case [of ?received t]) (simp_all add: apl)
      qed
    qed
  qed
qed

lemma audit_then_noted:
  assumes "and_then (audit_daemon a ''refused'' i r d) k = (res, d')"
    and k: "\<And>st. store_view st = store_view (store_of d) \<Longrightarrow> snd (k () (with_store False st d)) = with_store False st d"
  shows "noted d d' \<and> dm_tracking d' = dm_tracking d"
proof -
  obtain st where audit: "audit_daemon a ''refused'' i r d = (Inr (), with_store False st d)"
    and st: "store_view st = store_view (store_of d)"
    by (rule audit_daemon_ok [OF audit_outcomes(1)])
  then have "d' = with_store False st d" using assms(1) k [OF st] by (metis and_then_Inr snd_conv)
  then show ?thesis using sessions_of_view [OF st] by (simp add: noted_def)
qed

lemma audit_noted:
  assumes "audit_daemon a ''refused'' i r d = (res, d')"
  shows "noted d d' \<and> dm_tracking d' = dm_tracking d"
  by (rule audit_then_noted [where k = "\<lambda>_. done_with" and res = res, of a i r d])
    (use assms in \<open>simp_all add: done_with_def and_then_def split: sum.split\<close>)

lemma apply_hook_delivery_cases:
  assumes c: "apply_hook_delivery adapt ck de d = (res, d')"
  obtains (noted) "noted d d'" "\<forall>j. tracking_entry j d' = tracking_entry j d"
  | (applied) p n e t received where "res = Inr ()" "load_session_row (store_of d) (de_session de) = Inr p"
      "se_worktree_id p = de_worktree de" "se_provider_kind p = de_provider de"
      "adapt (de_provider de) (de_payload de) = Inr n" "le_event n = Some e"
      "\<not> shadowed_by_transport p e d" "event_applied ck p received e d d'"
      "de_fingerprint de \<notin> tk_fingerprints (tracking_entry (de_session de) d)"
      "fst (classify (de_fingerprint de) e (le_turn n) (tracking_entry (de_session de) d)) = None"
      "map_of (dm_tracking d') = (map_of (dm_tracking d))(de_session de \<mapsto> t)"
      "de_fingerprint de \<in> tk_fingerprints t"
      "dm_receiver d' = (if e = SessionEnded then invalidate (de_session de) (dm_receiver d) else dm_receiver d)"
      "received = None \<or> received = le_conversation n"
      "\<forall>j. j \<noteq> de_session de \<longrightarrow> tracking_entry j d' = tracking_entry j d"
proof (cases "load_session_row (store_of d) (de_session de)")
  case (Inl x)
  then have "d' = d" using c by (simp add: apply_hook_delivery_def database_session_def)
  then show thesis using noted by simp
next
  case p: (Inr p)
  note quiet_case = noted and applied_case = applied
  have quiet: thesis if "noted d d' \<and> dm_tracking d' = dm_tracking d"
    by (rule quiet_case) (use that in \<open>simp_all add: tracking_entry_def\<close>)
  have id: "se_id p = de_session de" using load_rows [OF p] by (rule rows_key)
  note c' = c [unfolded apply_hook_delivery_def Let_def database_session_def p sum.case and_then_Inr]
  show thesis
  proof (cases "se_worktree_id p \<noteq> de_worktree de \<or> se_provider_kind p \<noteq> de_provider de")
    case True
    show thesis
      by (rule quiet, rule audit_then_noted) (use c' True in \<open>simp, simp add: fail_with_def\<close>)
  next
    case same: False
    show thesis
    proof (cases "se_process_id p = None \<or> \<not> lifecycle_is_active (st_lifecycle (se_status p))")
      case True
      show thesis by (rule quiet, rule audit_noted) (use c' same True in simp)
    next
      case active: False
      then obtain pid where live: "se_process_id p = Some pid"
        "lifecycle_is_active (st_lifecycle (se_status p))" by auto
      show thesis
      proof (cases "adapt (de_provider de) (de_payload de)")
        case (Inl x)
        show thesis
          by (rule quiet, rule audit_then_noted) (use c' same live Inl in \<open>simp, simp add: fail_with_def\<close>)
      next
        case n: (Inr n)
        show thesis
        proof (cases "le_event n")
          case None
          show thesis
            by (rule quiet, rule audit_then_noted) (use c' same live n None in \<open>simp, simp add: fail_with_def\<close>)
        next
          case e: (Some e)
          show thesis
          proof (cases "shadowed_by_transport p e d")
            case True
            then have "d' = d" using c' same live n e by (simp add: done_with_def)
            then show thesis using quiet by simp
          next
            case False
            have "accept_hook_event ck de p n e d = (res, d')" using c' same live n e False by simp
            from this id show thesis
            proof (cases rule: accept_hook_event_cases)
              case noted
              have "tracking_entry j d' = tracking_entry j d" for j
                unfolding tracking_entry_def [of j d'] noted(2) by (simp add: tracking_entry_def)
              then show ?thesis using quiet_case noted(1) by blast
            next
              case (applied t received)
              have "tracking_entry j d' = tracking_entry j d" if "j \<noteq> de_session de" for j
                using applied(5) that id by (simp add: tracking_entry_def)
              then show ?thesis using applied p same n e False id
                by (intro applied_case [of p n e received t]) auto
            qed
          qed
        qed
      qed
    qed
  qed
qed

lemma apply_runtime_event_cases:
  assumes c: "apply_runtime_event ck i n d = (res, d')"
  obtains (unchanged) "d' = d"
  | (applied) p e where "load_session_row (store_of d) i = Inr p" "le_event n = Some e"
      "se_provider_kind p = Codex" "event_applied ck p (le_conversation n) e d d'" "dm_receiver d' = dm_receiver d"
proof (cases "load_session_row (store_of d) i")
  case (Inl x)
  then have "d' = d" using c by (simp add: apply_runtime_event_def database_session_def)
  then show thesis using unchanged by simp
next
  case p: (Inr p)
  have id: "se_id p = i" using load_rows [OF p] by (rule rows_key)
  note c' = c [unfolded apply_runtime_event_def Let_def database_session_def p sum.case and_then_Inr]
  show thesis
  proof (cases "(\<not> lifecycle_is_active (st_lifecycle (se_status p)) \<or> se_process_id p = None)
      \<or> se_provider_kind p \<noteq> Codex \<or> le_event n = None")
    case True
    then have "d' = d" using c' by (auto simp: done_with_def fail_with_def split: if_splits)
    then show thesis using unchanged by simp
  next
    case live: False
    then obtain e pid where e: "le_event n = Some e" "se_process_id p = Some pid" by auto
    let ?id = "provider_external_id_update (se_external_session_id p) (le_conversation n) (started_transition e)"
    show thesis
    proof (cases "(\<exists>x. ?id = Inl x) \<or> (\<exists>x. advance_machine e (ck_status ck) (session_machine p d) = Inl x)")
      case True
      then have "d' = d" using c' live e by (auto simp: fail_with_def split: sum.splits prod.splits)
      then show thesis using unchanged by simp
    next
      case False
      then obtain u tr m where u: "?id = Inr u"
        and adv: "advance_machine e (ck_status ck) (session_machine p d) = Inr (tr, m)"
        by (metis sum.exhaust surj_pair)
      let ?cmd = "update_session_status (ck_now ck) i tr (identity_update_for u (started_transition e))"
      show thesis
      proof (cases "?cmd (store_of d)")
        case (Inl x)
        then have "run_command True ?cmd d = (Inl (DatabaseError x), d)" by (simp add: run_command_Inl)
        then have "d' = d" using c' live e u adv by simp
        then show thesis using unchanged by simp
      next
        case (Inr y)
        obtain s st where y: "y = (s, st)" by fastforce
        let ?d1 = "with_store True st d"
        let ?t = "(tracking_entry i (put_machine i m ?d1))\<lparr>tk_callback_received := True\<rparr>"
        have run: "run_command True ?cmd d = (Inr s, ?d1)" using Inr y by (simp add: run_command_Inr)
        have d': "d' = send_event (SessionStatusChanged (current_revision ?d1) s)
            (send_event (ProviderEvent Codex i (se_worktree_id p) e) (put_record i s
              (coordinate (st_attention (se_status p)) s (ck_instant ck)
                (put_tracking i (record_applied e (st_activity (se_status s)) ?t) (put_machine i m ?d1)))))"
          using c' live e u adv run by (simp add: done_with_def)
        have "event_applied ck p (le_conversation n) e d d'" unfolding event_applied_def
          using advance_machine_Inr [OF adv] u Inr y id live
          by (intro conjI exI [of _ s] exI [of _ m] exI [of _ u] exI [of _ st])
            (simp_all add: d')
        then show thesis using applied p e(1) live by (simp add: d')
      qed
    qed
  qed
qed

section \<open>The other handlers\<close>

lemma acknowledge_machine:
  assumes "in_step q m" "st_attention (se_status q) = Some e" "ev_ack e = Pending"
  shows "in_step (q\<lparr>se_status := (se_status q)\<lparr>st_attention := Some (e\<lparr>ev_ack := Acknowledged\<rparr>)\<rparr>\<rparr>)
    (snd (Status_Machine.acknowledge_attention (ev_id e) (ev_reason e) m))"
  using assms by (auto simp: in_step_def Status_Machine.acknowledge_attention_def put_attention_def)

lemma acknowledge_request_agree:
  assumes agree: "views_agree d"
  shows "views_agree (snd (acknowledge_request i ev a d))"
proof (cases "acknowledge_session_attention i ev a (store_of d)")
  case (Inl x)
  then show ?thesis using agree by (simp add: acknowledge_request_def)
next
  case (Inr y)
  obtain r st where y: "y = (r, st)" by fastforce
  show ?thesis
  proof (cases r)
    case None
    then show ?thesis using agree Inr y by (simp add: acknowledge_request_def)
  next
    case (Some s)
    note ack = Inr [unfolded y Some]
    obtain q e where q: "rows (store_of d) i = Some q" "st_attention (se_status q) = Some e" "ev_ack e = Pending"
      and s: "s = q\<lparr>se_status := (se_status q)\<lparr>st_attention := Some (e\<lparr>ev_ack := Acknowledged\<rparr>)\<rparr>\<rparr>"
      and row: "row_change (store_of d) i (Some s) st"
      by (rule acknowledge_row [OF views_agreeD(1) [OF agree] ack])
    let ?d1 = "with_store True st d"
    have id: "se_id s = i" using rows_key [OF q(1)] s by simp
    have att: "st_attention (se_status s) = Some (e\<lparr>ev_ack := Acknowledged\<rparr>)" using s by simp
    let ?d2 = "(put_record i s ?d1)\<lparr>dm_claims := claims_cancel i (dm_claims (put_record i s ?d1))\<rparr>"
    define d3 where "d3 = mirror_attention_acknowledgement s ?d2"
    have d': "snd (acknowledge_request i ev a d) = send_event (SessionStatusChanged (current_revision d3) s) d3"
      unfolding d3_def using ack
      by (simp add: acknowledge_request_def run_command_def with_store_def Let_def done_with_def)
    have mir: "d3 = (case map_of (dm_machines d) i of None \<Rightarrow> ?d2
        | Some m \<Rightarrow> put_machine i (snd (Status_Machine.acknowledge_attention (ev_id e) (ev_reason e) m)) ?d2)"
      unfolding d3_def using att id by (simp add: mirror_attention_acknowledgement_def split: option.split)
    let ?x = "map_option (\<lambda>m. snd (Status_Machine.acknowledge_attention (ev_id e) (ev_reason e) m)) (map_of (dm_machines d) i)"
    have "store_of d3 = st" "map_of (dm_machines d3) = (map_of (dm_machines d))(i := ?x)"
      "\<And>j. map_of (dm_managed d3) j = map_of (dm_managed (put_record i s ?d1)) j"
      unfolding mir by (auto split: option.split)
    note d3 = this
    have "in_step s m'" if "?x = Some m'" for m'
      using that acknowledge_machine [OF views_agreeD(2) [OF agree _ q(1)] q(2,3)] s by auto
    moreover have "?x \<noteq> None" if "map_of (dm_managed d) i = Some g" for g
      using views_agreeD(4) [OF agree that] by auto
    ultimately show ?thesis unfolding d'
      by (intro views_agree_change [OF agree, of i s _ ?x]) (auto simp: d3 row)
  qed
qed

lemma rename_request_agree:
  assumes agree: "views_agree d"
  shows "views_agree (snd (rename_request ck i name d))"
proof (cases "rename_session (ck_now ck) i name (store_of d)")
  case (Inl x)
  then show ?thesis using agree by (simp add: rename_request_def run_command_def)
next
  case (Inr y)
  obtain s st where y: "y = (s, st)" by fastforce
  obtain q n where q: "rows (store_of d) i = Some q" "s = q\<lparr>se_display_name := n, se_last_activity_at := ck_now ck\<rparr>"
    and row: "row_change (store_of d) i (Some s) st"
    by (rule rename_session_row [OF views_agreeD(1) [OF agree] Inr [unfolded y]])
  have "in_step s m" if "map_of (dm_machines d) i = Some m" for m
    using views_agreeD(2) [OF agree that q(1)] q(2) by (simp add: in_step_def)
  moreover have "map_of (dm_machines d) i \<noteq> None" if "map_of (dm_managed d) i = Some g" for g
    using views_agreeD(4) [OF agree that] by auto
  moreover have "run_command True (rename_session (ck_now ck) i name) d = (Inr s, with_store True st d)"
    using Inr y by (simp add: run_command_Inr)
  ultimately show ?thesis
    by (intro views_agree_change [OF agree, of i s _ "map_of (dm_machines d) i"])
      (auto simp: rename_request_def done_with_def row)
qed

lemma views_agree_remove:
  assumes agree: "views_agree d" and row: "row_change (store_of d) i None (store_of d')"
    and machines: "map_of (dm_machines d') = (map_of (dm_machines d))(i := None)"
    and managed: "map_of (dm_managed d') = (map_of (dm_managed d))(i := None)"
  shows "views_agree d'"
  using agree row unfolding views_agree_def row_change_def machines managed by (auto split: if_splits)

lemma delete_request_agree:
  assumes agree: "views_agree d"
  shows "views_agree (snd (delete_request te i expected d))"
proof (cases "load_session_row (store_of d) i")
  case (Inl x)
  then show ?thesis using agree by (simp add: delete_request_def database_session_def)
next
  case s: (Inr s)
  show ?thesis
  proof (cases "deletion_refused te s d \<or> s \<noteq> expected")
    case True
    then show ?thesis using agree s by (auto simp: delete_request_def database_session_def fail_with_def)
  next
    case granted: False
    then have False: "\<not> deletion_refused te s d" "expected = s" by auto
    show ?thesis
    proof (cases "delete_session s (store_of d)")
      case (Inl x)
      then show ?thesis using agree s False
        by (simp add: delete_request_def database_session_def run_command_def)
    next
      case (Inr y)
      obtain x st where y: "y = (x, st)" by fastforce
      have "row_change (store_of d) i None st"
        using delete_session_row [OF views_agreeD(1) [OF agree] Inr [unfolded y]] rows_key [OF load_rows [OF s]]
        by simp
      moreover have "run_command True (delete_session s) d = (Inr x, with_store True st d)"
        using Inr y by (simp add: run_command_Inr)
      ultimately show ?thesis using s False
        by (intro views_agree_remove [OF agree, of i])
          (auto simp: delete_request_def database_session_def done_with_def Let_def)
    qed
  qed
qed

lemma start_failure_agree:
  assumes agree: "views_agree d" and none: "map_of (dm_machines d) i = None" "map_of (dm_managed d) i = None"
  shows "views_agree (persist_session_start_failure ck i reason d)"
proof (cases "finish_session (ck_now ck) i Failed None None (Some reason) (store_of d)")
  case (Inl x)
  then show ?thesis using agree by (simp add: persist_session_start_failure_def run_command_def)
next
  case (Inr y)
  obtain s st where y: "y = (s, st)" by fastforce
  have row: "row_change (store_of d) i (Some s) st"
    using finish_session_row [OF views_agreeD(1) [OF agree] Inr [unfolded y]] by simp
  have "run_command True (finish_session (ck_now ck) i Failed None None (Some reason)) d
      = (Inr s, with_store True st d)"
    using Inr y by (simp add: run_command_Inr)
  then show ?thesis using row none
    by (intro views_agree_change [OF agree, of i s _ None]) (auto simp: persist_session_start_failure_def Let_def)
qed

lemma spawn_agree:
  assumes agree: "views_agree d"
  shows "views_agree (snd (spawn_managed_session describe ck r structured be sp d))"
proof -
  let ?i = "ns_id r"
  have revoke: "views_agree (revoke_credential ?i d1)" if "views_agree d1" for d1
    by (rule views_agree_same [OF that]) simp_all
  show ?thesis
  proof (cases "insert_session (ck_now ck) r (store_of d)")
    case (Inl x)
    then show ?thesis using revoke [OF agree] by (simp add: spawn_managed_session_def run_command_def)
  next
    case (Inr y)
    obtain s0 st where y: "y = (s0, st)" by fastforce
    let ?d = "with_store False st d"
    have ins: "rows (store_of d) ?i = None" "row_change (store_of d) ?i (Some (new_session_row (ck_now ck) r)) st"
      using insert_session_row [OF views_agreeD(1) [OF agree] Inr [unfolded y]] by simp_all
    have none: "map_of (dm_machines d) ?i = None" "map_of (dm_managed d) ?i = None"
      using views_agreeD(5) [OF agree ins(1)] by simp_all
    have a1: "views_agree ?d" using ins(2) none
      by (intro views_agree_change [OF agree, of ?i "new_session_row (ck_now ck) r" _ None]) auto
    have fail: "views_agree (persist_session_start_failure ck ?i x (revoke_credential ?i ?d))" for x
      by (rule start_failure_agree [OF revoke [OF a1]]) (simp_all add: none)
    have run: "run_command False (insert_session (ck_now ck) r) d = (Inr s0, ?d)"
      using Inr y by (simp add: run_command_Inr)
    show ?thesis
    proof (cases "(if structured then be else None)")
      case (Some x)
      then show ?thesis using run fail by (simp add: spawn_managed_session_def Let_def)
    next
      case bridge: None
      show ?thesis
      proof (cases sp)
        case (Inl x)
        then show ?thesis using run bridge fail by (simp add: spawn_managed_session_def Let_def)
      next
        case pid: (Inr pid)
        show ?thesis
        proof (cases "mark_session_running (ck_now ck) ?i pid st")
          case (Inl x)
          then have "run_command True (mark_session_running (ck_now ck) ?i pid) ?d = (Inl (DatabaseError x), ?d)"
            by (simp add: run_command_Inl)
          then show ?thesis using run bridge pid fail by (simp add: spawn_managed_session_def Let_def)
        next
          case (Inr y)
          obtain s st2 where y: "y = (s, st2)" by fastforce
          have row: "se_failure_reason s = None" "row_change st ?i (Some s) st2"
            using mark_session_running_row [of st] views_agreeD(1) [OF a1] Inr y by auto
          have run2: "run_command True (mark_session_running (ck_now ck) ?i pid) ?d
              = (Inr s, with_store True st2 ?d)"
            using Inr y by (simp add: run_command_Inr)
          let ?d2 = "(with_store True st2 ?d)\<lparr>dm_managed := hm_insert ?i \<lparr>mg_record = s, mg_structured = structured,
               mg_completed = False\<rparr> (dm_managed d)\<rparr>"
          have "snd (spawn_managed_session describe ck r structured be sp d)
              = put_machine ?i (status_machine_from_session s) ?d2"
            using run run2 bridge pid none by (simp add: spawn_managed_session_def Let_def)
          moreover have "in_step s (status_machine_from_session s)"
            using row(1) by (simp add: in_step_def status_machine_from_session_def from_persisted_def)
          ultimately show ?thesis using row(2)
            by (intro views_agree_change [OF a1, of ?i s _ "Some (status_machine_from_session s)"]) auto
        qed
      qed
    qed
  qed
qed

lemma apply_process_exit_transition:
  assumes "apply_process_exit shell code stop t m = (Inr tr, m1)"
  shows "tr = transition m1"
  using assms unfolding apply_process_exit_def by (auto simp: and_then_eq_Inr split: if_splits)

lemma complete_managed_agree:
  assumes agree: "views_agree d"
  shows "views_agree (complete_managed i d)"
proof (cases "map_of (dm_managed d) i")
  case None
  then show ?thesis using agree by (simp add: complete_managed_def)
next
  case (Some g)
  then show ?thesis
    by (intro views_agree_same [OF agree]) (auto simp: complete_managed_def)
qed

lemma record_exit_agree:
  assumes agree: "views_agree d"
  shows "views_agree (record_exit ck i exit d)"
proof (cases "\<exists>g. map_of (dm_managed d) i = Some g \<and> \<not> mg_completed g")
  case False
  then show ?thesis using agree by (auto simp: record_exit_def split: option.split)
next
  case True
  then obtain g where g: "map_of (dm_managed d) i = Some g" "\<not> mg_completed g" by blast
  obtain m where m: "map_of (dm_machines d) i = Some m" using views_agreeD(4) [OF agree g(1)] by blast
  let ?d = "d\<lparr>dm_tracking := hm_remove i (dm_tracking d)\<rparr>"
  let ?exit = "apply_process_exit (se_provider_kind (mg_record g) = Shell) (exit_code_of exit)
                     (stop_requested_of exit) (ck_status ck) m"
  have a0: "views_agree ?d" by (rule views_agree_same [OF agree]) simp_all
  obtain r m1 where r: "?exit = (r, m1)" by fastforce
  show ?thesis
  proof (cases r)
    case (Inl x)
    then show ?thesis using g m r complete_managed_agree [OF a0] by (simp add: record_exit_def Let_def)
  next
    case tr: (Inr tr)
    let ?cmd = "finish_session_outcome (ck_now ck) i tr (exit_code_of exit)"
    show ?thesis
    proof (cases "?cmd (store_of d)")
      case (Inl x)
      then have "run_command True ?cmd ?d = (Inl (DatabaseError x), ?d)" by (simp add: run_command_Inl)
      then show ?thesis using g m r tr complete_managed_agree [OF a0] by (simp add: record_exit_def Let_def)
    next
      case (Inr y)
      obtain s st where y: "y = (s, st)" by fastforce
      have row: "row_change (store_of d) i (Some s) st" "se_failure_reason s = map_option category_str (tr_failure tr)"
        "se_status s = tr_status tr"
        using finish_session_row [OF views_agreeD(1) [OF agree]] Inr y
        unfolding finish_session_outcome_def by blast+
      have step: "in_step s m1"
        using apply_process_exit_transition [OF r [unfolded tr]] row(2,3) by (intro transition_step) simp_all
      have run: "run_command True ?cmd ?d = (Inr s, with_store True st ?d)"
        using Inr y by (simp add: run_command_Inr)
      let ?d1 = "put_record i s (coordinate (st_attention (se_status (mg_record g))) s (ck_instant ck)
          (put_machine i m1 (with_store True st ?d)))"
      have "views_agree (send_event (SessionExited (current_revision (with_store True st ?d)) i
            (st_lifecycle (tr_status tr)) (exit_code_of exit))
          (send_event (SessionStatusChanged (current_revision (with_store True st ?d)) s) ?d1))"
        using row(1) step
        by (intro views_agree_change [OF agree, of i s _ "Some m1"]) (auto split: if_splits)
      then show ?thesis
        using g m r tr run complete_managed_agree by (simp add: record_exit_def Let_def)
    qed
  qed
qed

text \<open>The monitor files its audit row with the outcome \<open>missing\<close>, which the store refuses: only the
  tracking changes, and nothing is recorded.\<close>

lemma session_start_timeout_eq:
  "session_start_timeout i d = put_tracking i (let t = tracking_entry i d
     in if tk_callback_received t then t else t\<lparr>tk_session_start_missing := True\<rparr>) d"
  using audit_outcomes(3)
  by (simp add: session_start_timeout_def Let_def audit_daemon_def run_command_def insert_audit_event_def)

lemma session_start_timeout_noted: "noted d (session_start_timeout i d)"
  by (simp add: session_start_timeout_eq)

lemma claim_rounds_frame:
  "dm_database (snd (claim_rounds n c now p d)) = dm_database d
   \<and> dm_machines (snd (claim_rounds n c now p d)) = dm_machines d
   \<and> dm_managed (snd (claim_rounds n c now p d)) = dm_managed d"
proof (induction n arbitrary: d)
  case (Suc n)
  show ?case
    by (cases "claim_at c (now n) (dm_claims d)")
      (use Suc.IH in \<open>auto simp: Let_def split: option.split sum.split\<close>)
qed simp

lemma focus_request_frame:
  "dm_database (snd (focus_request c f d)) = dm_database d
   \<and> dm_machines (snd (focus_request c f d)) = dm_machines d
   \<and> dm_managed (snd (focus_request c f d)) = dm_managed d"
  by (auto simp: focus_request_def Let_def done_with_def and_then_def database_session_def
      split: option.split sum.split prod.split)

lemma hook_delivery_agree:
  assumes agree: "views_agree d"
  shows "views_agree (snd (apply_hook_delivery adapt ck de d))"
proof -
  obtain res d' where c: "apply_hook_delivery adapt ck de d = (res, d')" by fastforce
  then show ?thesis
    by (cases rule: apply_hook_delivery_cases)
      (auto simp: c intro: views_agree_noted [OF agree] event_applied_agree [OF agree])
qed

lemma runtime_event_agree:
  assumes agree: "views_agree d"
  shows "views_agree (snd (apply_runtime_event ck i n d))"
proof -
  obtain res d' where c: "apply_runtime_event ck i n d = (res, d')" by fastforce
  then show ?thesis
    by (cases rule: apply_runtime_event_cases) (auto simp: c agree intro: event_applied_agree [OF agree])
qed

lemma receiver_agree: "views_agree (d\<lparr>dm_receiver := r\<rparr>) = views_agree d"
  by (simp add: views_agree_def)

lemma claims_agree: "views_agree (d\<lparr>dm_claims := c\<rparr>) = views_agree d"
  by (simp add: views_agree_def)

lemma receive_delivery_agree:
  assumes agree: "views_agree d"
  shows "views_agree (receive_delivery en ck d)"
  using agree hook_delivery_agree
  by (auto simp: receive_delivery_def Let_def receiver_agree split: list.split)

lemma daemon_step_agree:
  assumes agree: "views_agree d"
  shows "views_agree (daemon_step en d a)"
proof (cases a)
  case (Administer c)
  have "administrative c \<Longrightarrow> db_sessions (da_store (database_step (dm_database d) c)) = db_sessions (store_of d)"
    using administrative_frame by (auto simp: database_step_def split: sum.split)
  then show ?thesis using Administer agree views_agree_same [OF agree] by simp
next
  case (Claim c now p)
  then show ?thesis using claim_rounds_frame views_agree_same [OF agree]
    by (simp add: claim_attention_notification_def)
next
  case (Focus c f)
  then show ?thesis using focus_request_frame views_agree_same [OF agree] by simp
next
  case (AnnounceTick now)
  then show ?thesis using agree
    by (auto simp: Let_def split_beta claims_agree views_agree_def)
next
  case (StartTimeout i)
  then show ?thesis using views_agree_noted [OF agree session_start_timeout_noted] by simp
next
  case (ProcessExited i)
  then show ?thesis by (intro views_agree_same [OF agree]) simp_all
qed (use agree in \<open>simp_all add: receiver_agree claims_agree receive_delivery_agree runtime_event_agree
    acknowledge_request_agree rename_request_agree delete_request_agree spawn_agree record_exit_agree\<close>)

interpretation runtime: step_invariant "daemon_step en" views_agree for en
  by unfold_locales (rule daemon_step_agree)

end
