(* ===== verification/Runtime_Properties.thy ===== *)
theory Runtime_Properties
  imports Runtime_Handlers
begin

text \<open>
  The properties of the daemon's Session handlers: agreement of the views, exactness of hook
  deliveries, their authenticity from the socket to the store, and notification claims.
\<close>

section \<open>What an event changes\<close>

lemma event_applied_rows:
  assumes ok: "rows_ok (store_of d)" and p: "load_session_row (store_of d) (se_id p) = Inr p"
    and applied: "event_applied ck p received e d d'"
  obtains s m where "apply_event e (ck_status ck) (session_machine p d) = (Inr (transition m), m)"
    "se_process_id p \<noteq> None" "st_lifecycle (se_status p) = Running"
    "db_sessions (store_of d') = map (\<lambda>q. if se_id q = se_id p then s else q) (db_sessions (store_of d))"
    "se_id s = se_id p" "se_worktree_id s = se_worktree_id p" "se_provider_kind s = se_provider_kind p"
    "se_process_id s = se_process_id p" "se_status s = m_status m"
    "se_failure_reason s = map_option category_str (m_failure m)"
    "map_of (dm_machines d') = (map_of (dm_machines d))(se_id p \<mapsto> m)"
    "dm_events d' = dm_events d @ [ProviderEvent (se_provider_kind p) (se_id p) (se_worktree_id p) e,
       SessionStatusChanged (saturating_add (current_revision d) 1) s]"
    "s = p\<lparr>se_external_session_id := se_external_session_id s, se_last_activity_at := ck_now ck,
           se_failure_reason := map_option category_str (m_failure m), se_status := m_status m\<rparr>"
    "se_external_session_id s = se_external_session_id p
     \<or> (\<exists>c. received = Some c \<and> se_external_session_id s = Some (conversation_str c))"
    "dm_claims d' = coordinate_attention_notification (st_attention (se_status p)) s (ck_instant ck) (dm_claims d)"
    "\<forall>j. map_of (dm_managed d') j = (if j = se_id p
       then map_option (\<lambda>g. g\<lparr>mg_record := s\<rparr>) (map_of (dm_managed d) j) else map_of (dm_managed d) j)"
    "current_revision d' = saturating_add (current_revision d) 1"
proof -
  let ?st = "store_of d"
  have revision: "current_revision d' = saturating_add (current_revision d) 1"
    using applied by (simp add: event_applied_def)
  obtain s m u0 st' where m: "apply_event e (ck_status ck) (session_machine p d) = (Inr (transition m), m)"
    and external: "provider_external_id_update (se_external_session_id p) received (started_transition e) = Inr u0"
    and upd0: "update_session_status (ck_now ck) (se_id p) (transition m)
       (identity_update_for u0 (started_transition e)) ?st = Inr (s, st')"
    and claims: "dm_claims d' = coordinate_attention_notification (st_attention (se_status p)) s (ck_instant ck) (dm_claims d)"
    and managed: "\<forall>j. map_of (dm_managed d') j = (if j = se_id p
       then map_option (\<lambda>g. g\<lparr>mg_record := s\<rparr>) (map_of (dm_managed d) j) else map_of (dm_managed d) j)"
    and view: "store_view (store_of d') = store_view st'"
    and machines: "map_of (dm_machines d') = (map_of (dm_machines d))(se_id p \<mapsto> m)"
    and events: "dm_events d' = dm_events d @ [ProviderEvent (se_provider_kind p) (se_id p) (se_worktree_id p) e,
       SessionStatusChanged (saturating_add (current_revision d) 1) s]"
    using applied unfolding event_applied_def by blast
  define u where "u = identity_update_for u0 (started_transition e)"
  have upd: "update_session_status (ck_now ck) (se_id p) (transition m) u ?st = Inr (s, st')"
    using upd0 by (simp add: u_def)
  obtain q where q: "rows ?st (se_id p) = Some q" "accepts_events q"
    and s: "s = q\<lparr>se_external_session_id := (case u of None \<Rightarrow> se_external_session_id q
             | Some u \<Rightarrow> Some (conversation_str (iu_external u))),
           se_last_activity_at := ck_now ck, se_failure_reason := map_option category_str (tr_failure (transition m)),
           se_status := tr_status (transition m)\<rparr>"
    by (rule update_session_status_row [OF ok upd])
  have qp: "q = p" using q(1) load_rows [OF p] by simp
  have rows': "db_sessions (store_of d') = map (\<lambda>r. if se_id r = se_id p then s else r) (db_sessions ?st)"
    using upd
  proof (rule update_session_status_Inr)
    fix st1
    let ?f = "\<lambda>s. s\<lparr>se_external_session_id := (case u of
                           None \<Rightarrow> se_external_session_id s
                         | Some u \<Rightarrow> Some (conversation_str (iu_external u))),
                       se_last_activity_at := ck_now ck,
                       se_failure_reason := map_option category_str (tr_failure (transition m)),
                       se_status := tr_status (transition m)\<rparr>"
    assume up: "update_session (se_id p) accepts_events ?f ?st = Some st1"
      and v: "store_view st' = store_view st1"
    have "db_sessions (store_of d') = db_sessions st1"
      using sessions_of_view [OF view] sessions_of_view [OF v] by simp
    also have "\<dots> = map (\<lambda>r. if se_id r = se_id p \<and> accepts_events r then ?f r else r) (db_sessions ?st)"
      by (simp add: update_session_rows(1) [OF up] update_where_def)
    also have "\<dots> = map (\<lambda>r. if se_id r = se_id p then s else r) (db_sessions ?st)"
    proof (rule map_cong [OF refl])
      fix r assume r: "r \<in> set (db_sessions ?st)"
      show "(if se_id r = se_id p \<and> accepts_events r then ?f r else r) = (if se_id r = se_id p then s else r)"
      proof (cases "se_id r = se_id p")
        case True
        then have "rows ?st (se_id p) = Some r"
          using r ok by (simp add: rows_def rows_ok_def select_by_unique)
        then have rq: "r = q" using q(1) by simp
        show ?thesis unfolding rq using q(2) s True rq by simp
      next
        case False
        then show ?thesis by simp
      qed
    qed
    finally show ?thesis .
  qed
  have "u0 = None \<or> u0 = received" using external
    by (auto simp: provider_external_id_update_def split: option.splits if_splits)
  then have x: "se_external_session_id s = se_external_session_id p
     \<or> (\<exists>c. received = Some c \<and> se_external_session_id s = Some (conversation_str c))"
    by (cases u0) (auto simp: s qp u_def identity_update_for_def)
  show thesis
    by (rule that [OF m _ _ rows' _ _ _ _ _ _ machines events _ x claims managed revision])
      (use q(2) qp s in \<open>simp_all add: accepts_events_def transition_def\<close>)
qed

section \<open>The tables a delivery leaves alone\<close>

text \<open>A handler of an event writes Session rows and appends audit rows; the relation composes along
  the sequence of its calls.\<close>

definition session_frame :: "store \<Rightarrow> store \<Rightarrow> bool" where
  "session_frame st st' \<longleftrightarrow> (\<exists>ss es. st' = st\<lparr>db_sessions := ss, db_audit := db_audit st @ es\<rparr>)"

lemma session_frame_refl [simp]: "session_frame st st"
  unfolding session_frame_def by (intro exI [of _ "db_sessions st"] exI [of _ "[]"]) simp

lemma session_frame_trans: "session_frame st st1 \<Longrightarrow> session_frame st1 st2 \<Longrightarrow> session_frame st st2"
  unfolding session_frame_def by force

lemma session_frame_audit [simp]:
  assumes "session_frame st st1"
  shows "session_frame st (audit e st1)"
proof -
  obtain ss es where "st1 = st\<lparr>db_sessions := ss, db_audit := db_audit st @ es\<rparr>"
    using assms by (auto simp: session_frame_def)
  then show ?thesis
    unfolding session_frame_def by (intro exI [of _ ss] exI [of _ "es @ [e]"]) (simp add: audit_def)
qed

lemma session_frame_entity [simp]: "session_frame st st1 \<Longrightarrow> session_frame st (insert_entity_audit a x st1)"
  by (auto simp: insert_entity_audit_def)

lemma session_frame_rows [simp]: "session_frame st (st\<lparr>db_sessions := ss\<rparr>)"
  unfolding session_frame_def by (intro exI [of _ ss] exI [of _ "[]"]) simp

lemma update_status_frame:
  assumes "update_session_status now i tr u st = Inr (s, st')"
  shows "session_frame st st'"
  using assms
  by (auto simp: update_session_status_def update_session_def Let_def bind_result_eq_Inr
      simp flip: audit_def split: if_splits sum.splits option.splits)

definition framed :: "daemon \<Rightarrow> daemon \<Rightarrow> bool" where
  "framed d d' \<longleftrightarrow> session_frame (store_of d) (store_of d')"

lemma framed_refl [simp]: "framed d d"
  by (simp add: framed_def)

lemma framed_trans: "framed d1 d2 \<Longrightarrow> framed d2 d3 \<Longrightarrow> framed d1 d3"
  unfolding framed_def by (rule session_frame_trans)

lemma framed_and_then:
  assumes "framed d (snd r)" and "\<And>x d1. framed d1 (snd (k x d1))"
  shows "framed d (snd (and_then r k))"
  using assms framed_trans by (cases r; cases "fst r") (fastforce simp: and_then_def)+

lemma framed_pieces [simp]:
  "framed d (put_machine i m d1) = framed d d1" "framed d (put_tracking i t d1) = framed d d1"
  "framed d (put_record i s d1) = framed d d1" "framed d (send_event e d1) = framed d d1"
  "framed d (coordinate a s n d1) = framed d d1" "framed d (revoke_credential i d1) = framed d d1"
  by (simp_all add: framed_def)

lemma framed_ends [simp]:
  "snd (done_with d) = d" "snd (fail_with x d) = d" "snd (database_session i d) = d"
  by (simp_all add: done_with_def fail_with_def database_session_def split: sum.split)

lemma framed_audit [simp]: "framed d (snd (audit_daemon a o' i r d))"
  by (auto simp: audit_daemon_def run_command_def insert_audit_event_def framed_def split: sum.split)

lemma framed_update [simp]: "framed d (snd (run_command b (update_session_status now i tr u) d))"
  using update_status_frame [of now i tr u "store_of d"]
  by (auto simp: run_command_def framed_def split: sum.split)

lemma settle_framed: "framed d (snd (settle_hook_event ck p e b r c a m s d))"
  unfolding settle_hook_event_def Let_def
  by (rule framed_and_then)
    (auto simp del: framed_pieces intro: framed_trans [OF _ framed_audit] simp: framed_pieces)

lemma commit_framed: "framed d (snd (commit_hook_event ck p e u b r c d))"
proof (cases "advance_machine e (ck_status ck) (session_machine p d)")
  case (Inl x)
  then show ?thesis by (simp add: commit_hook_event_def)
next
  case (Inr a)
  obtain tr m where a: "a = (tr, m)" by fastforce
  let ?cmd = "update_session_status (ck_now ck) (se_id p) tr (identity_update_for u (started_transition e))"
  obtain x d1 where run: "run_command True ?cmd d = (x, d1)" by fastforce
  then have d1: "framed d d1" using framed_update [of d True "ck_now ck" "se_id p" tr
      "identity_update_for u (started_transition e)"] by simp
  show ?thesis
  proof (cases x)
    case (Inl y)
    have "framed d1 (snd (commit_hook_event ck p e u b r c d))"
      unfolding commit_hook_event_def Let_def Inr a sum.case prod.case run Inl
      by (rule framed_and_then) simp_all
    then show ?thesis using d1 framed_trans by blast
  next
    case s: (Inr s)
    have "framed d1 (snd (commit_hook_event ck p e u b r c d))"
      unfolding commit_hook_event_def Let_def Inr a sum.case prod.case run s by (rule settle_framed)
    then show ?thesis using d1 framed_trans by blast
  qed
qed

lemma accept_framed: "framed d (snd (accept_hook_event ck de p n e d))"
proof -
  let ?d = "put_tracking (de_session de) (tracking_entry (de_session de) d) d"
  have "framed ?d (snd (accept_hook_event ck de p n e d))"
    unfolding accept_hook_event_def Let_def
    by (auto intro: framed_and_then commit_framed split: prod.split option.split sum.split)
  then show ?thesis by (rule framed_trans [rotated]) simp
qed

lemma delivery_framed: "framed d (snd (apply_hook_delivery adapt ck de d))"
  unfolding apply_hook_delivery_def Let_def
  by (rule framed_and_then)
    (auto intro: framed_and_then accept_framed split: option.split sum.split)

section \<open>Deliveries come from the receiver\<close>

text \<open>What a step of the daemon does to its receiver.\<close>

definition receiver_moves :: "environment \<Rightarrow> daemon \<Rightarrow> daemon_action \<Rightarrow> hook_action list \<Rightarrow> bool" where
  "receiver_moves en d a hs \<longleftrightarrow> dm_receiver (daemon_step en d a)
       = foldl (hook_step (en_parse_uuid en) (en_sha en)) (dm_receiver d) hs
     \<and> (\<forall>h\<in>set hs. a = HookInput h \<or> takes_delivery h \<or> (\<exists>i. h = Invalidate i))"

lemma hook_delivery_receiver:
  "dm_receiver (snd (apply_hook_delivery adapt ck de d)) \<in> {dm_receiver d, invalidate (de_session de) (dm_receiver d)}"
proof -
  obtain res d' where c: "apply_hook_delivery adapt ck de d = (res, d')" by fastforce
  then show ?thesis by (cases rule: apply_hook_delivery_cases) (auto simp: c noted_def)
qed

lemma start_failure_receiver: "dm_receiver (persist_session_start_failure ck i x d) = dm_receiver d"
  by (simp add: persist_session_start_failure_def run_command_def Let_def split: sum.split prod.split)

lemma spawn_receiver:
  "dm_receiver (snd (spawn_managed_session describe ck r structured be sp d))
     \<in> {dm_receiver d, invalidate (ns_id r) (dm_receiver d)}"
proof -
  let ?i = "ns_id r"
  obtain r1 d1 where 1: "run_command False (insert_session (ck_now ck) r) d = (r1, d1)" by fastforce
  then have d1: "dm_receiver d1 = dm_receiver d" by (auto simp: run_command_def split: sum.splits)
  have 2: "dm_receiver (snd (run_command True (mark_session_running (ck_now ck) ?i pid) d1)) = dm_receiver d" for pid
    using d1 by (auto simp: run_command_def split: sum.splits)
  show ?thesis
  proof (cases "r1")
    case (Inl x)
    then show ?thesis using 1 d1 by (simp add: spawn_managed_session_def)
  next
    case (Inr s)
    note 1 = 1 [unfolded Inr]
    show ?thesis
    proof (cases "(if structured then be else None)")
      case (Some x)
      then show ?thesis using 1 d1 by (simp add: spawn_managed_session_def Let_def start_failure_receiver)
    next
      case bridge: None
      show ?thesis
      proof (cases sp)
        case (Inl x)
        then show ?thesis using 1 d1 bridge by (simp add: spawn_managed_session_def Let_def start_failure_receiver)
      next
        case pid: (Inr pid)
        obtain r2 d2 where r2: "run_command True (mark_session_running (ck_now ck) ?i pid) d1 = (r2, d2)" by fastforce
        then have "dm_receiver d2 = dm_receiver d" using 2 [of pid] by simp
        then show ?thesis using 1 bridge pid r2
          by (cases r2) (simp_all add: spawn_managed_session_def Let_def start_failure_receiver)
      qed
    qed
  qed
qed

lemma record_exit_receiver: "dm_receiver (record_exit ck i exit d) = dm_receiver d"
proof (cases "\<forall>g. map_of (dm_managed d) i = Some g \<longrightarrow> mg_completed g")
  case True
  then show ?thesis by (cases "map_of (dm_managed d) i") (simp_all add: record_exit_def)
next
  case False
  then obtain g where g: "map_of (dm_managed d) i = Some g" "\<not> mg_completed g" by blast
  have completed: "dm_receiver (complete_managed i d1) = dm_receiver d1" for d1
    by (simp add: complete_managed_def split: option.split)
  define m where "m = (case map_of (dm_machines d) i of
      None \<Rightarrow> status_machine_from_session (mg_record g) | Some m \<Rightarrow> m)"
  let ?d = "d\<lparr>dm_tracking := hm_remove i (dm_tracking d)\<rparr>"
  obtain r m1 where r: "apply_process_exit (se_provider_kind (mg_record g) = Shell) (exit_code_of exit)
      (stop_requested_of exit) (ck_status ck) m = (r, m1)" by fastforce
  show ?thesis
  proof (cases r)
    case (Inl x)
    show ?thesis using r Inl g by (simp add: record_exit_def Let_def m_def completed)
  next
    case (Inr tr)
    obtain r2 d2 where r2: "run_command True (finish_session_outcome (ck_now ck) i tr (exit_code_of exit)) ?d = (r2, d2)"
      by fastforce
    then have "dm_receiver d2 = dm_receiver d" by (auto simp: run_command_def split: sum.splits)
    then show ?thesis using r Inr g r2
      by (cases r2) (simp_all add: record_exit_def Let_def m_def completed)
  qed
qed

lemma other_receivers:
  "dm_receiver (snd (acknowledge_request i ev a d)) = dm_receiver d"
  "dm_receiver (snd (rename_request ck i name d)) = dm_receiver d"
  "dm_receiver (snd (delete_request te i x d)) \<in> {dm_receiver d, invalidate i (dm_receiver d)}"
  "dm_receiver (snd (focus_request c f d)) = dm_receiver d"
  "dm_receiver (record_exit ck i exit d) = dm_receiver d"
  "dm_receiver (session_start_timeout i d) = dm_receiver d"
proof -
  show "dm_receiver (snd (acknowledge_request i ev a d)) = dm_receiver d"
    by (auto simp: acknowledge_request_def run_command_def Let_def done_with_def
        mirror_attention_acknowledgement_def split: sum.split option.split)
  show "dm_receiver (snd (rename_request ck i name d)) = dm_receiver d"
    by (auto simp: rename_request_def run_command_def done_with_def split: sum.split)
  show "dm_receiver (snd (delete_request te i x d)) \<in> {dm_receiver d, invalidate i (dm_receiver d)}"
    by (auto simp: delete_request_def run_command_def database_session_def done_with_def fail_with_def Let_def
        split: sum.split)
  show "dm_receiver (snd (focus_request c f d)) = dm_receiver d"
    by (auto simp: focus_request_def Let_def done_with_def and_then_def database_session_def
      split: option.split sum.split prod.split)
  show "dm_receiver (record_exit ck i exit d) = dm_receiver d"
    by (rule record_exit_receiver)
  show "dm_receiver (session_start_timeout i d) = dm_receiver d"
    by (simp add: session_start_timeout_eq)
qed

lemma claim_rounds_receiver: "dm_receiver (snd (claim_rounds n c now p d)) = dm_receiver d"
proof (induction n arbitrary: d)
  case (Suc n)
  show ?case
    by (cases "claim_at c (now n) (dm_claims d)")
      (use Suc.IH in \<open>auto simp: Let_def split: option.split sum.split\<close>)
qed simp

lemma daemon_step_receiver: "\<exists>hs. receiver_moves en d a hs"
proof -
  define step where "step = hook_step (en_parse_uuid en) (en_sha en)"
  have step_invalidate: "step r (Invalidate i) = invalidate i r" for r i by (simp add: step_def)
  have stay: "\<exists>hs. receiver_moves en d a hs" if "dm_receiver (daemon_step en d a) = dm_receiver d"
    by (rule exI [of _ "[]"]) (use that in \<open>simp add: receiver_moves_def\<close>)
  have revoke: "\<exists>hs. receiver_moves en d a hs"
    if "dm_receiver (daemon_step en d a) \<in> {dm_receiver d, invalidate i (dm_receiver d)}" for i
  proof (cases "dm_receiver (daemon_step en d a) = dm_receiver d")
    case False
    then show ?thesis
      by (intro exI [of _ "[Invalidate i]"]) (use that in \<open>simp add: receiver_moves_def\<close>)
  qed (rule stay)
  show ?thesis
  proof (cases a)
    case (HookInput h)
    show ?thesis
      by (cases "takes_delivery h")
        (use HookInput in \<open>auto simp: receiver_moves_def intro: exI [of _ "[]"] exI [of _ "[h]"]\<close>)
  next
    case (ReceiveDelivery ck)
    show ?thesis
    proof (cases "hr_queue (dm_receiver d)")
      case Nil
      then show ?thesis by (intro stay) (simp add: ReceiveDelivery receive_delivery_def)
    next
      case (Cons de ds)
      let ?d1 = "d\<lparr>dm_receiver := step (dm_receiver d) TakeDelivery\<rparr>"
      let ?hs = "\<lambda>b. [TakeDelivery] @ (if b then [Invalidate (de_session de)] else []) @ [DropDelivery]"
      obtain b where "dm_receiver (snd (apply_hook_delivery (en_normalize en) ck de ?d1))
          = (if b then invalidate (de_session de) (dm_receiver ?d1) else dm_receiver ?d1)"
        using hook_delivery_receiver [of "en_normalize en" ck de ?d1] by fastforce
      then have "dm_receiver (daemon_step en d a) = foldl step (dm_receiver d) (?hs b)"
        unfolding ReceiveDelivery daemon_step.simps receive_delivery_def Cons list.case Let_def step_def [symmetric]
        by (simp add: step_invalidate)
      then show ?thesis
        by (intro exI [of _ "?hs b"]) (simp add: receiver_moves_def takes_delivery_def step_def [symmetric] del: foldl.simps)
    qed
  next
    case (RuntimeEvent ck i n)
    obtain res d' where c: "apply_runtime_event ck i n d = (res, d')" by fastforce
    then have "dm_receiver d' = dm_receiver d" by (cases rule: apply_runtime_event_cases) auto
    then show ?thesis by (intro stay) (simp add: RuntimeEvent c)
  next
    case (Spawn ck r s be sp)
    show ?thesis by (rule revoke [of "ns_id r"]) (use spawn_receiver in \<open>simp add: Spawn\<close>)
  next
    case (Delete i x)
    show ?thesis by (rule revoke [of i]) (use other_receivers(3) in \<open>simp add: Delete\<close>)
  next
    case (ProcessExited i)
    show ?thesis by (rule revoke [of i]) (simp add: ProcessExited)
  next
    case (AnnounceTick now)
    then show ?thesis by (intro stay) (simp add: Let_def split: prod.split)
  qed (rule stay, simp add: other_receivers claim_rounds_receiver claim_attention_notification_def)+
qed

lemma run_receiver:
  "\<exists>hs. dm_receiver (foldl (daemon_step en) d as)
      = foldl (hook_step (en_parse_uuid en) (en_sha en)) (dm_receiver d) hs
    \<and> (\<forall>h\<in>set hs. HookInput h \<in> set as \<or> takes_delivery h \<or> (\<exists>i. h = Invalidate i))"
proof (induction as rule: rev_induct)
  case Nil
  show ?case by (rule exI [of _ "[]"]) simp
next
  case (snoc a as)
  then obtain hs where hs: "dm_receiver (foldl (daemon_step en) d as)
      = foldl (hook_step (en_parse_uuid en) (en_sha en)) (dm_receiver d) hs"
    "\<forall>h\<in>set hs. HookInput h \<in> set as \<or> takes_delivery h \<or> (\<exists>i. h = Invalidate i)" by blast
  obtain ks where "receiver_moves en (foldl (daemon_step en) d as) a ks" using daemon_step_receiver by blast
  then show ?case using hs
    by (intro exI [of _ "hs @ ks"]) (auto simp: receiver_moves_def)
qed

section \<open>Properties\<close>

lemma run_agrees:
  assumes "distinct (map se_id (db_sessions (da_store db)))"
  shows "views_agree (foldl (daemon_step en) (daemon_start db r) as)"
  by (rule runtime.run_inv) (use assms in \<open>simp add: views_agree_def daemon_start_def rows_ok_def\<close>)

text \<open>C20: however requests, hook events, runtime events, process exits and failed starts interleave,
  the status machine of a Session and the record the daemon serves to clients agree with the row of
  the store.\<close>

theorem session_views_agree:
  assumes "distinct (map se_id (db_sessions (da_store db)))"
    and "d = foldl (daemon_step en) (daemon_start db r) as"
  shows "(map_of (dm_machines d) i = Some m \<longrightarrow>
        (\<exists>s\<in>set (db_sessions (da_store (dm_database d))). se_id s = i \<and> se_status s = m_status m
           \<and> se_failure_reason s = map_option category_str (m_failure m)))
     \<and> (map_of (dm_managed d) i = Some g \<longrightarrow>
        mg_record g \<in> set (db_sessions (da_store (dm_database d))) \<and> se_id (mg_record g) = i
        \<and> map_of (dm_machines d) i \<noteq> None)"
proof -
  have agree: "views_agree d" unfolding assms(2) by (rule run_agrees [OF assms(1)])
  have row: "s \<in> set (db_sessions (store_of d)) \<and> se_id s = i" if "rows (store_of d) i = Some s" for s
    using that by (auto simp: rows_def dest: select_by_SomeD)
  show ?thesis
  proof (intro conjI impI)
    assume m: "map_of (dm_machines d) i = Some m"
    then obtain s where s: "rows (store_of d) i = Some s" using agree unfolding views_agree_def by blast
    show "\<exists>s\<in>set (db_sessions (store_of d)). se_id s = i \<and> se_status s = m_status m
           \<and> se_failure_reason s = map_option category_str (m_failure m)"
      using row [OF s] views_agreeD(2) [OF agree m s] by (auto simp: in_step_def)
  next
    assume g: "map_of (dm_managed d) i = Some g"
    show "mg_record g \<in> set (db_sessions (store_of d))" "se_id (mg_record g) = i"
      "map_of (dm_machines d) i \<noteq> None"
      using row [OF views_agreeD(3) [OF agree g]] views_agreeD(4) [OF agree g] by auto
  qed
qed

text \<open>What a delivery that is not applied does: it appends audit rows and may create the empty
  tracking entry of a Session, which reads like no entry.\<close>

definition only_audited :: "daemon \<Rightarrow> daemon \<Rightarrow> bool" where
  "only_audited d d' \<longleftrightarrow>
     (\<exists>es. dm_database d' = (dm_database d)\<lparr>da_store := (store_of d)\<lparr>db_audit := db_audit (store_of d) @ es\<rparr>\<rparr>)
     \<and> dm_managed d' = dm_managed d \<and> dm_machines d' = dm_machines d \<and> dm_claims d' = dm_claims d
     \<and> dm_receiver d' = dm_receiver d \<and> dm_events d' = dm_events d
     \<and> (\<forall>j. tracking_entry j d' = tracking_entry j d)"

lemma delivery_only_audited:
  assumes c: "apply_hook_delivery adapt ck de d = (res, d')" and noted: "noted d d'"
    and tracking: "\<forall>j. tracking_entry j d' = tracking_entry j d"
  shows "only_audited d d'"
proof -
  have "framed d d'" using delivery_framed [of d adapt ck de] c by simp
  then obtain ss es where st: "store_of d' = (store_of d)\<lparr>db_sessions := ss, db_audit := db_audit (store_of d) @ es\<rparr>"
    by (auto simp: framed_def session_frame_def)
  moreover have "ss = db_sessions (store_of d)" using noted st by (simp add: noted_def)
  ultimately have "store_of d' = (store_of d)\<lparr>db_audit := db_audit (store_of d) @ es\<rparr>"
    by (simp add: store.equality)
  then have "dm_database d' = (dm_database d)\<lparr>da_store := (store_of d)\<lparr>db_audit := db_audit (store_of d) @ es\<rparr>\<rparr>"
    using noted by (simp add: noted_def current_revision_def database.equality)
  then show ?thesis using noted tracking by (auto simp: only_audited_def noted_def)
qed

text \<open>C21: a delivery either changes nothing of the daemon but that it appends audit rows: every other
  table, the revision, the machines, the records, the notification claims, the hook receiver, the
  broadcasts and the tracking read as before. Or it is a new, current event of a live Session of its
  Provider and Worktree; then the store differs in the row of that Session and in appended audit rows
  only, the row in the status, the failure category, the time and the conversation only, the status is
  exactly the transition of the machine of the Session, the revision counts one change, the machine,
  the record, the claim and the tracking of that Session only follow, the credential is revoked exactly
  when the Session ended, and the same delivery, applied in the state it left, changes nothing again
  but the audit rows.\<close>

theorem hook_delivery_is_exact:
  assumes "distinct (map se_id (db_sessions (da_store db)))"
    and "d = foldl (daemon_step en) (daemon_start db r) as"
    and "apply_hook_delivery adapt ck de d = (res, d')"
  shows "only_audited d d' \<or> (\<exists>p s n e m x es.
       p \<in> set (db_sessions (da_store (dm_database d))) \<and> se_id p = de_session de
     \<and> se_worktree_id p = de_worktree de \<and> se_provider_kind p = de_provider de
     \<and> se_process_id p \<noteq> None \<and> st_lifecycle (se_status p) = Running
     \<and> adapt (de_provider de) (de_payload de) = Inr n \<and> le_event n = Some e
     \<and> de_fingerprint de \<notin> tk_fingerprints (tracking_entry (de_session de) d)
     \<and> fst (classify (de_fingerprint de) e (le_turn n) (tracking_entry (de_session de) d)) = None
     \<and> apply_event e (ck_status ck) (session_machine p d) = (Inr (transition m), m)
     \<and> dm_database d' = \<lparr>da_store = (da_store (dm_database d))\<lparr>
           db_sessions := map (\<lambda>q. if se_id q = de_session de then s else q) (db_sessions (da_store (dm_database d))),
           db_audit := db_audit (da_store (dm_database d)) @ es\<rparr>,
         da_revision = saturating_add (da_revision (dm_database d)) 1\<rparr>
     \<and> s = p\<lparr>se_external_session_id := x, se_last_activity_at := ck_now ck,
           se_failure_reason := map_option category_str (m_failure m), se_status := m_status m\<rparr>
     \<and> (x = se_external_session_id p
        \<or> (\<exists>c. le_conversation n = Some c \<and> x = Some (conversation_str c)))
     \<and> map_of (dm_machines d') = (map_of (dm_machines d))(de_session de \<mapsto> m)
     \<and> (\<forall>j. map_of (dm_managed d') j = (if j = de_session de
         then map_option (\<lambda>g. g\<lparr>mg_record := s\<rparr>) (map_of (dm_managed d) j) else map_of (dm_managed d) j))
     \<and> dm_claims d' = coordinate_attention_notification (st_attention (se_status p)) s (ck_instant ck) (dm_claims d)
     \<and> dm_receiver d' = (if e = SessionEnded then invalidate (de_session de) (dm_receiver d) else dm_receiver d)
     \<and> dm_events d' = dm_events d @ [ProviderEvent (de_provider de) (de_session de) (de_worktree de) e,
         SessionStatusChanged (saturating_add (da_revision (dm_database d)) 1) s]
     \<and> (\<forall>j. j \<noteq> de_session de \<longrightarrow> tracking_entry j d' = tracking_entry j d)
     \<and> de_fingerprint de \<in> tk_fingerprints (tracking_entry (de_session de) d')
     \<and> res = Inr () \<and> (\<forall>ck'. only_audited d' (snd (apply_hook_delivery adapt ck' de d'))))"
proof -
  have agree: "views_agree d" unfolding assms(2) by (rule run_agrees [OF assms(1)])
  from assms(3) show ?thesis
  proof (cases rule: apply_hook_delivery_cases)
    case noted
    then show ?thesis using delivery_only_audited [OF assms(3)] by blast
  next
    case (applied p n e t received)
    have p: "p \<in> set (db_sessions (store_of d))" "se_id p = de_session de"
      using load_rows [OF applied(2)] by (auto simp: rows_def dest: select_by_SomeD)
    have seen: "de_fingerprint de \<in> tk_fingerprints (tracking_entry (de_session de) d')"
      using applied(11,12) by (simp add: tracking_entry_def)
    have again: "only_audited d' (snd (apply_hook_delivery adapt ck' de d'))" for ck'
    proof -
      obtain res2 d2 where c: "apply_hook_delivery adapt ck' de d' = (res2, d2)" by fastforce
      from c show ?thesis
        by (cases rule: apply_hook_delivery_cases) (use c seen delivery_only_audited [OF c] in auto)
    qed
    show ?thesis
    proof (rule event_applied_rows [OF views_agreeD(1) [OF agree] applied(2) [folded p(2)] applied(8)], goal_cases)
      case (1 s m)
      obtain ss es where "store_of d' = (store_of d)\<lparr>db_sessions := ss, db_audit := db_audit (store_of d) @ es\<rparr>"
        using delivery_framed [of d adapt ck de] assms(3) by (auto simp: framed_def session_frame_def)
      moreover from this 1(4) have "ss = map (\<lambda>q. if se_id q = de_session de then s else q) (db_sessions (store_of d))"
        by (simp add: p(2))
      ultimately have store: "dm_database d' = \<lparr>da_store = (store_of d)\<lparr>
           db_sessions := map (\<lambda>q. if se_id q = de_session de then s else q) (db_sessions (store_of d)),
           db_audit := db_audit (store_of d) @ es\<rparr>,
         da_revision = saturating_add (da_revision (dm_database d)) 1\<rparr>"
        using 1(17) by (simp add: current_revision_def database.equality)
      have x: "se_external_session_id s = se_external_session_id p
          \<or> (\<exists>c. le_conversation n = Some c \<and> se_external_session_id s = Some (conversation_str c))"
        using 1(14) applied(14) by (metis option.distinct(1))
      show ?case
        by (rule disjI2, rule exI [of _ p], rule exI [of _ s], rule exI [of _ n], rule exI [of _ e],
            rule exI [of _ m], rule exI [of _ "se_external_session_id s"], rule exI [of _ es])
          (intro conjI; use p applied(1,3-6,9,10,13,15) 1(1-3,11-13,15,16) store x seen again
            in \<open>simp add: current_revision_def\<close>)
    qed
  qed
qed

text \<open>C22: a status that the main loop changes on behalf of a hook was asked for: the credential of
  that Session, Worktree and Provider was issued, and a request presented its token.\<close>

theorem hook_changes_are_authentic:
  assumes "distinct (map se_id (db_sessions (da_store db)))"
    and "d = foldl (daemon_step en) (daemon_start db (receiver_bind b n t0)) as"
    and "d' = daemon_step en d (ReceiveDelivery ck)"
    and "s \<in> set (db_sessions (da_store (dm_database d')))" "s \<notin> set (db_sessions (da_store (dm_database d)))"
  shows "\<exists>token now h q supplied.
       HookInput (Hook_Receiver.Register (se_provider_kind s) (se_id s) (se_worktree_id s) token now) \<in> set as
     \<and> HookInput (HeadersRead h) \<in> set as \<and> parse_request (en_parse_uuid en) h = Inr q
     \<and> rq_session q = Some (se_id s) \<and> rq_worktree q = Some (se_worktree_id s)
     \<and> rq_authorization q = Some (lit ''Bearer '' @ supplied) \<and> utf8_bytes supplied = utf8_bytes token"
proof -
  have agree: "views_agree d" unfolding assms(2) by (rule run_agrees [OF assms(1)])
  define step where "step = hook_step (en_parse_uuid en) (en_sha en)"
  obtain de ds where de: "hr_queue (dm_receiver d) = de # ds"
    using assms(3-5) by (cases "hr_queue (dm_receiver d)") (auto simp: receive_delivery_def)
  let ?d1 = "d\<lparr>dm_receiver := step (dm_receiver d) TakeDelivery\<rparr>"
  obtain res d2 where c: "apply_hook_delivery (en_normalize en) ck de ?d1 = (res, d2)" by fastforce
  have rows': "db_sessions (store_of d') = db_sessions (store_of d2)"
    unfolding assms(3) daemon_step.simps receive_delivery_def de list.case Let_def step_def [symmetric] c
    by simp
  have new: "se_id s = de_session de \<and> se_worktree_id s = de_worktree de \<and> se_provider_kind s = de_provider de"
    using c
  proof (cases rule: apply_hook_delivery_cases)
    case noted
    then show ?thesis using assms(4,5) rows' by (simp add: noted_def)
  next
    case (applied p x e t)
    have ok: "rows_ok (store_of ?d1)" using views_agreeD(1) [OF agree] by simp
    have id: "se_id p = de_session de" using load_rows [OF applied(2)] by (rule rows_key)
    have l: "load_session_row (store_of ?d1) (se_id p) = Inr p" unfolding id by (rule applied(2))
    show ?thesis
    proof (rule event_applied_rows [OF ok l applied(8)])
      fix s0
      assume rows2: "db_sessions (store_of d2)
          = map (\<lambda>q. if se_id q = se_id p then s0 else q) (db_sessions (store_of ?d1))"
        and s0: "se_id s0 = se_id p" "se_worktree_id s0 = se_worktree_id p" "se_provider_kind s0 = se_provider_kind p"
      have "s \<in> set (map (\<lambda>q. if se_id q = se_id p then s0 else q) (db_sessions (store_of d)))"
        using assms(4) rows' rows2 by simp
      then have "s = s0" using assms(5) by (auto split: if_splits)
      then show ?thesis using s0 id applied(3,4) by simp
    qed
  qed
  obtain hs where hs: "dm_receiver d = foldl step (receiver_bind b n t0) hs"
    "\<forall>h\<in>set hs. HookInput h \<in> set as \<or> takes_delivery h \<or> (\<exists>i. h = Invalidate i)"
    using run_receiver [of en "daemon_start db (receiver_bind b n t0)" as]
    unfolding assms(2) step_def by (auto simp: daemon_start_def)
  have "de \<in> set (pending (dm_receiver d))" using de by (simp add: pending_def)
  then have "authentic (en_parse_uuid en) hs (de_provider de) (de_session de) (de_worktree de)"
    using history_run [of "en_parse_uuid en" hs "en_sha en" b n t0] unfolding hs(1) step_def history_ok_def by blast
  then obtain token now h q supplied where
    a: "Hook_Receiver.Register (de_provider de) (de_session de) (de_worktree de) token now \<in> set hs"
    "HeadersRead h \<in> set hs" "parse_request (en_parse_uuid en) h = Inr q"
    "rq_session q = Some (de_session de)" "rq_worktree q = Some (de_worktree de)"
    "rq_authorization q = Some (lit ''Bearer '' @ supplied)" "utf8_bytes supplied = utf8_bytes token"
    unfolding authentic_def by blast
  have "HookInput (Hook_Receiver.Register (de_provider de) (de_session de) (de_worktree de) token now) \<in> set as"
    "HookInput (HeadersRead h) \<in> set as"
    using hs(2) a(1,2) by (auto simp: takes_delivery_def)
  then show ?thesis using a(3-) new by auto
qed

text \<open>a notification handed to a client is the pending attention of its Session at that moment,
  under its current name made safe, for a registered client, while nobody looks at that Session.\<close>

theorem claimed_notification_is_current:
  assumes "claim_attention_notification client now preferences d = (Some x, d')"
  shows "(\<exists>s e. load_session_row (da_store (dm_database d')) (nc_session_id x) = Inr s
       \<and> st_attention (se_status s) = Some e \<and> ev_ack e = Pending
       \<and> ev_id e = nc_attention_id x \<and> ev_reason e = nc_reason x
       \<and> nc_session_display_name x = safe_label (se_display_name s))
     \<and> nc_session_id x \<notin> set (hm_values (cl_foreground (dm_claims d')))
     \<and> map_of (cl_watermarks (dm_claims d)) client \<noteq> None
     \<and> db_sessions (da_store (dm_database d')) = db_sessions (da_store (dm_database d))"
proof -
  have "?thesis" if "claim_rounds k client now preferences d = (Some x, d')" for k
    using that
  proof (induction k arbitrary: d)
    case (Suc k)
    obtain r c where r: "claim_at client (now k) (dm_claims d) = (r, c)" by fastforce
    obtain p where p: "r = Some p"
      using Suc.prems r by (cases r) (simp_all add: Let_def)
    have reg: "map_of (cl_watermarks (dm_claims d)) client \<noteq> None"
      using r p by (auto simp: claim_at_def split: option.splits)
    have same: "cl_watermarks c = cl_watermarks (dm_claims d)"
      using r by (auto simp: claim_at_def split: option.splits prod.splits)
    let ?d1 = "d\<lparr>dm_claims := c\<rparr>"
    show ?case
    proof (cases "\<exists>s. load_session_row (store_of d) (pc_session_id p) = Inr s \<and> still_pending p s
        \<and> \<not> list_ex (\<lambda>i. i = pc_session_id p) (hm_values (cl_foreground c))")
      case True
      then obtain s where s: "load_session_row (store_of d) (pc_session_id p) = Inr s" "still_pending p s"
        "\<not> list_ex (\<lambda>i. i = pc_session_id p) (hm_values (cl_foreground c))" by blast
      then have "x = notification_claim_new (pc_session_id p) (se_display_name s) (pc_event p) preferences"
        "d' = ?d1"
        using Suc.prems r p by (simp_all add: Let_def)
      then show ?thesis using s reg
        by (auto simp: notification_claim_new_def still_pending_def list_ex_iff split: option.splits)
    next
      case False
      then have "claim_rounds k client now preferences ?d1 = (Some x, d')"
        using Suc.prems r p by (auto simp: Let_def split: sum.splits if_splits)
      from Suc.IH [OF this] show ?thesis using same by simp
    qed
  qed simp
  then show ?thesis using assms unfolding claim_attention_notification_def by blast
qed

section \<open>Witnesses\<close>

text \<open>One live Claude Session, the request of the receiver's example and an adapter that reads it as a
  submitted prompt.\<close>

definition live_row :: session where
  "live_row = \<lparr>se_id = SessionId 7, se_worktree_id = WorktreeId 3, se_provider_profile_id = None,
     se_provider_kind = Claude, se_display_name = lit ''work'',
     se_status = \<lparr>st_lifecycle = Running, st_activity = NoActivity, st_attention = None\<rparr>,
     se_process_id = Some 42, se_external_session_id = None, se_command = [], se_arguments_json = [],
     se_cwd = [], se_created_at = 0, se_started_at = Some 1, se_ended_at = None, se_last_activity_at = 1,
     se_last_seen_output_sequence = 0, se_exit_code = None, se_failure_reason = None\<rparr>"

definition live_store :: store where
  "live_store = empty_store\<lparr>db_sessions := [live_row]\<rparr>"

definition live_environment :: environment where
  "live_environment = \<lparr>en_normalize = (\<lambda>_ _. Inr \<lparr>le_event = Some PromptSubmitted,
       le_conversation = None, le_turn = None\<rparr>),
     en_parse_uuid = sample_uuid, en_sha = (\<lambda>_. lit ''hash''), en_tree_empty = (\<lambda>_. True),
     en_describe = (\<lambda>_. [])\<rparr>"

definition live_clock :: clock where
  "live_clock = \<lparr>ck_status = 5, ck_now = 6, ck_instant = 7\<rparr>"

abbreviation live_start :: daemon where
  "live_start \<equiv> daemon_start (database_open live_store) (receiver_bind 65536 240 0)"

definition live_daemon :: daemon where
  "live_daemon = foldl (daemon_step live_environment) live_start (map HookInput sample_actions)"

definition working_row :: session where
  "working_row = live_row\<lparr>se_last_activity_at := 6,
     se_status := \<lparr>st_lifecycle = Running, st_activity = Working, st_attention = None\<rparr>\<rparr>"

definition working_machine :: status_machine where
  "working_machine = status_machine_from_session working_row"

lemma hook_inputs_run:
  "\<forall>h\<in>set hs. \<not> takes_delivery h \<Longrightarrow> foldl (daemon_step en) (d\<lparr>dm_receiver := r\<rparr>) (map HookInput hs)
     = d\<lparr>dm_receiver := foldl (hook_step (en_parse_uuid en) (en_sha en)) r hs\<rparr>"
  by (induction hs arbitrary: r) (simp_all del: hook_step.simps)

lemma live_daemon_eq:
  "live_daemon = \<lparr>dm_database = database_open live_store, dm_managed = [], dm_machines = [], dm_tracking = [],
     dm_claims = claims_default, dm_receiver = sample_receiver, dm_events = []\<rparr>"
proof -
  have en: "en_parse_uuid live_environment = sample_uuid" "en_sha live_environment = (\<lambda>_. lit ''hash'')"
    by (simp_all add: live_environment_def)
  have "\<forall>h\<in>set sample_actions. \<not> takes_delivery h" by (simp add: sample_actions_def takes_delivery_def)
  note run = hook_inputs_run [OF this, where en = live_environment and d = live_start and r = "receiver_bind 65536 240 0",
      unfolded en sample_receiver_def [symmetric]]
  have "live_start\<lparr>dm_receiver := receiver_bind 65536 240 0\<rparr> = live_start" by (simp add: daemon_start_def)
  then have "live_daemon = live_start\<lparr>dm_receiver := sample_receiver\<rparr>"
    using run unfolding live_daemon_def by simp
  then show ?thesis by (simp add: daemon_start_def)
qed

lemma live_row_loads: "load_session_row live_store (SessionId 7) = Inr live_row"
  by (simp add: load_session_row_def live_store_def select_by_simps live_row_def session_from_row_def
      validate_def expected_reason_def)

lemma live_machine: "advance_machine PromptSubmitted 5 (status_machine_from_session live_row)
    = Inr (transition working_machine, working_machine)"
  by (simp add: advance_machine_def apply_event_def status_machine_from_session_def from_persisted_def
      live_row_def set_lifecycle_def set_live_condition_def set_activity_def resolve_attention_def
      validated_def validate_def expected_reason_def working_machine_def working_row_def transition_def
      no_remaining_work_def Let_def)

definition updated_store :: store where
  "updated_store = insert_entity_audit ''provider_status_changed'' (SessionEntity (SessionId 7))
     (live_store\<lparr>db_sessions := [working_row]\<rparr>)"

lemma live_update: "update_session_status 6 (SessionId 7) (transition working_machine) None live_store
    = Inr (working_row, updated_store)"
proof -
  have "valid_status (se_status working_row)"
    by (simp add: working_row_def valid_status_def validate_def expected_reason_def)
  then have v: "validate (tr_status (transition working_machine)) = Inr ()"
    by (auto simp: transition_def working_machine_def status_machine_from_session_def from_persisted_def
        valid_status_def)
  have "update_session (SessionId 7) accepts_events
      (\<lambda>s. s\<lparr>se_external_session_id := se_external_session_id s, se_last_activity_at := 6,
             se_failure_reason := map_option category_str (tr_failure (transition working_machine)),
             se_status := tr_status (transition working_machine)\<rparr>) live_store
      = Some (live_store\<lparr>db_sessions := [working_row]\<rparr>)"
    by (simp add: update_session_def live_store_def update_where_def accepts_events_def live_row_def
        working_row_def transition_def working_machine_def status_machine_from_session_def from_persisted_def)
  moreover have "load_session_row (live_store\<lparr>db_sessions := [working_row]\<rparr>) (SessionId 7) = Inr working_row"
    by (simp add: load_session_row_def select_by_simps working_row_def live_row_def session_from_row_def
      validate_def expected_reason_def)
  moreover have "st_lifecycle (tr_status (transition working_machine)) = Running"
    by (simp add: transition_def working_machine_def status_machine_from_session_def from_persisted_def working_row_def)
  ultimately show ?thesis using v
    by (simp add: update_session_status_def updated_store_def Let_def)
qed

lemma live_apply:
  assumes "dm_database d = database_open live_store" "dm_managed d = []" "dm_machines d = []" "dm_tracking d = []"
  shows "db_sessions (store_of (snd (apply_hook_delivery (en_normalize live_environment) live_clock sample_delivery d)))
           = [working_row]
     \<and> map_of (dm_machines (snd (apply_hook_delivery (en_normalize live_environment) live_clock sample_delivery d)))
           (SessionId 7) = Some working_machine
     \<and> fst (apply_hook_delivery (en_normalize live_environment) live_clock sample_delivery d) = Inr ()"
proof -
  let ?d = "put_tracking (SessionId 7) tracking_default d"
  have row: "se_id live_row = SessionId 7" "se_provider_kind live_row = Claude" "se_process_id live_row = Some 42"
    "se_worktree_id live_row = WorktreeId 3" "st_lifecycle (se_status live_row) = Running"
    "se_external_session_id live_row = None" by (simp_all add: live_row_def)
  have de: "de_session sample_delivery = SessionId 7" "de_provider sample_delivery = Claude"
    "de_worktree sample_delivery = WorktreeId 3" by (simp_all add: sample_delivery_def)
  obtain candidate where cl: "classify (de_fingerprint sample_delivery) PromptSubmitted None tracking_default
      = (None, candidate)"
    by (simp add: classify_def accept_fingerprint_def tracking_default_def)
  have st: "store_of ?d = live_store" "session_machine live_row ?d = status_machine_from_session live_row"
    "store_of d = live_store"
    using assms by (simp_all add: database_open_def session_machine_def)
  have run: "run_command True (update_session_status 6 (SessionId 7) (transition working_machine) None) ?d
      = (Inr working_row, with_store True updated_store ?d)"
    using live_update st(1) by (simp add: run_command_Inr)
  obtain res d' where commit: "commit_hook_event live_clock live_row PromptSubmitted None False False candidate ?d = (res, d')"
    by fastforce
  have settle: "settle_hook_event live_clock live_row PromptSubmitted False False candidate
      (st_activity (tr_status (transition working_machine))) working_machine working_row
      (with_store True updated_store ?d) = (res, d')"
    using commit row(1) st(2) live_machine run
    by (simp add: commit_hook_event_def Let_def live_clock_def started_transition_def identity_update_for_def)
  have "res = Inr () \<and> db_sessions (store_of d') = [working_row]
      \<and> map_of (dm_machines d') (SessionId 7) = Some working_machine"
  proof (rule settle_hook_event_result [OF settle])
    assume "res = Inr ()"
      and v: "store_view (store_of d') = store_view (store_of (with_store True updated_store ?d))"
      and m: "map_of (dm_machines d') = (map_of (dm_machines (with_store True updated_store ?d)))(se_id live_row \<mapsto> working_machine)"
    moreover have "db_sessions (store_of d') = db_sessions updated_store" using sessions_of_view [OF v] by simp
    ultimately show ?thesis by (simp add: updated_store_def row(1))
  qed
  moreover have "apply_hook_delivery (en_normalize live_environment) live_clock sample_delivery d = (res, d')"
  proof -
    let ?n = "\<lparr>le_event = Some PromptSubmitted, le_conversation = None, le_turn = None\<rparr>"
    have "tracking_entry (SessionId 7) d = tracking_default" using assms(4) by (simp add: tracking_entry_def)
    then have accept: "accept_hook_event live_clock sample_delivery live_row ?n PromptSubmitted d = (res, d')"
      using commit cl unfolding accept_hook_event_def Let_def de by (simp add: provider_external_id_update_def tracking_default_def)
    have "\<not> shadowed_by_transport live_row PromptSubmitted d" using assms(2) by (simp add: shadowed_by_transport_def)
    then have "(if shadowed_by_transport live_row PromptSubmitted d then done_with d
        else accept_hook_event live_clock sample_delivery live_row ?n PromptSubmitted d) = (res, d')"
      using accept by simp
    moreover have "en_normalize live_environment p x = Inr ?n" for p x by (simp add: live_environment_def)
    ultimately show ?thesis
      unfolding apply_hook_delivery_def Let_def de database_session_def st(3) live_row_loads sum.case
      by (simp add: row lifecycle_is_active_def)
  qed
  ultimately show ?thesis by simp
qed

lemma live_receive:
  "db_sessions (store_of (daemon_step live_environment live_daemon (ReceiveDelivery live_clock))) = [working_row]"
  "map_of (dm_machines (daemon_step live_environment live_daemon (ReceiveDelivery live_clock))) (SessionId 7)
     = Some working_machine"
proof -
  define step where "step = hook_step (en_parse_uuid live_environment) (en_sha live_environment)"
  let ?d = "live_daemon\<lparr>dm_receiver := step (dm_receiver live_daemon) TakeDelivery\<rparr>"
  have q: "hr_queue (dm_receiver live_daemon) = [sample_delivery]"
    by (simp add: live_daemon_eq sample_receiver_eq)
  have "dm_database ?d = database_open live_store" "dm_managed ?d = []" "dm_machines ?d = []" "dm_tracking ?d = []"
    by (simp_all add: live_daemon_eq)
  note a = live_apply [OF this]
  show "db_sessions (store_of (daemon_step live_environment live_daemon (ReceiveDelivery live_clock))) = [working_row]"
    "map_of (dm_machines (daemon_step live_environment live_daemon (ReceiveDelivery live_clock))) (SessionId 7)
     = Some working_machine"
    unfolding daemon_step.simps receive_delivery_def q list.case Let_def step_def [symmetric] using a by simp_all
qed

theorem session_views_agree_witness:
  "\<exists>m (s :: session). map_of (dm_machines (foldl (daemon_step live_environment) live_start
        (map HookInput sample_actions @ [ReceiveDelivery live_clock]))) (SessionId 7) = Some m
     \<and> se_id s = SessionId 7 \<and> se_status s = m_status m"
proof -
  let ?as = "map HookInput sample_actions @ [ReceiveDelivery live_clock]"
  have d: "distinct (map se_id (db_sessions (da_store (database_open live_store))))"
    by (simp add: database_open_def live_store_def)
  have "map_of (dm_machines (foldl (daemon_step live_environment) live_start ?as)) (SessionId 7) = Some working_machine"
    unfolding foldl_append live_daemon_def [symmetric] foldl.simps by (rule live_receive(2))
  with conjunct1 [OF session_views_agree [OF d refl, of live_environment "receiver_bind 65536 240 0" ?as
      "SessionId 7" working_machine]] show ?thesis by blast
qed

theorem hook_delivery_is_exact_witness:
  "\<exists>s (m :: status_machine). db_sessions (da_store (dm_database (snd (apply_hook_delivery (en_normalize live_environment) live_clock
       sample_delivery live_daemon)))) = [s] \<and> se_status s = m_status m \<and> s \<noteq> live_row"
proof -
  have d: "distinct (map se_id (db_sessions (da_store (database_open live_store))))"
    by (simp add: database_open_def live_store_def)
  obtain res d' where c: "apply_hook_delivery (en_normalize live_environment) live_clock sample_delivery live_daemon
      = (res, d')" by fastforce
  have rows': "db_sessions (store_of d') = [working_row]"
    using live_apply [of live_daemon] c by (simp add: live_daemon_eq)
  have ne: "working_row \<noteq> live_row" by (simp add: working_row_def live_row_def)
  have "\<not> only_audited live_daemon d'"
    using rows' ne by (auto simp: only_audited_def live_daemon_eq database_open_def live_store_def)
  with hook_delivery_is_exact [OF d live_daemon_def c]
  obtain p s n e x es and m :: status_machine where
    db: "dm_database d' = \<lparr>da_store = (store_of live_daemon)\<lparr>
           db_sessions := map (\<lambda>q. if se_id q = de_session sample_delivery then s else q) (db_sessions (store_of live_daemon)),
           db_audit := db_audit (store_of live_daemon) @ es\<rparr>,
         da_revision = saturating_add (da_revision (dm_database live_daemon)) 1\<rparr>"
    and s: "s = p\<lparr>se_external_session_id := x, se_last_activity_at := ck_now live_clock,
           se_failure_reason := map_option category_str (m_failure m), se_status := m_status m\<rparr>"
    by (elim disjE exE conjE) (simp, rule that)
  have "db_sessions (store_of d') = [s]"
    using db by (simp add: live_daemon_eq database_open_def live_store_def live_row_def sample_delivery_def)
  moreover have "se_status s = m_status m" using s by simp
  ultimately show ?thesis using rows' ne c by (intro exI [of _ s] exI [of _ m]) simp
qed

theorem hook_changes_are_authentic_witness:
  "\<exists>token now. HookInput (Hook_Receiver.Register Claude (SessionId 7) (WorktreeId 3) token now)
     \<in> set (map HookInput sample_actions)"
proof -
  have d: "distinct (map se_id (db_sessions (da_store (database_open live_store))))"
    by (simp add: database_open_def live_store_def)
  let ?d' = "daemon_step live_environment live_daemon (ReceiveDelivery live_clock)"
  have "db_sessions (store_of ?d') = [working_row]" by (rule live_receive(1))
  moreover have "working_row \<noteq> live_row" by (simp add: working_row_def live_row_def)
  ultimately have "working_row \<in> set (db_sessions (store_of ?d'))"
    "working_row \<notin> set (db_sessions (store_of live_daemon))"
    by (simp_all add: live_daemon_eq database_open_def live_store_def)
  from hook_changes_are_authentic [OF d live_daemon_def refl this] show ?thesis
    by (auto simp: working_row_def live_row_def)
qed

definition asking_event :: attention_event where
  "asking_event = \<lparr>ev_id = AttentionEventId 1, ev_reason = InputRequested, ev_ack = Pending, ev_occurred_at = 4\<rparr>"

definition asking_row :: session where
  "asking_row = live_row\<lparr>se_status := \<lparr>st_lifecycle = Running, st_activity = AwaitingInput,
     st_attention = Some asking_event\<rparr>\<rparr>"

definition asking_daemon :: daemon where
  "asking_daemon = (daemon_start (database_open (live_store\<lparr>db_sessions := [asking_row]\<rparr>)) (receiver_bind 65536 240 0))
     \<lparr>dm_claims := snd (record_at asking_row 10 (claims_register 1 claims_default))\<rparr>"

theorem claimed_notification_is_current_witness:
  "\<exists>x. fst (claim_attention_notification 1 (\<lambda>_. 2000) default_preferences asking_daemon) = Some x
     \<and> nc_session_id x \<notin> set (hm_values (cl_foreground (dm_claims
          (snd (claim_attention_notification 1 (\<lambda>_. 2000) default_preferences asking_daemon)))))"
proof -
  let ?st = "live_store\<lparr>db_sessions := [asking_row]\<rparr>"
  let ?x = "notification_claim_new (SessionId 7) (lit ''work'') asking_event default_preferences"
  let ?p = "\<lparr>pc_sequence = 1, pc_session_id = SessionId 7, pc_event = asking_event, pc_ready_at = 1010,
    pc_announced = False\<rparr>"
  have l: "load_session_row ?st (SessionId 7) = Inr asking_row"
    by (simp add: load_session_row_def select_by_simps asking_row_def asking_event_def live_row_def
        session_from_row_def validate_def expected_reason_def reason_matches_def)
  have c: "dm_claims asking_daemon = \<lparr>cl_sequence = 1, cl_watermarks = [(1, 0)], cl_foreground = [], cl_pending = [?p]\<rparr>"
    by (simp add: asking_daemon_def record_at_def claims_register_def prune_unclaimable_def claims_default_def
        hm_insert_def hm_remove_def hm_values_def claims_cancel_def asking_row_def asking_event_def live_row_def
        saturating_add_def ATTENTION_NOTIFICATION_CLAIM_CAPACITY_def Let_def)
  have s: "store_of asking_daemon = ?st" by (simp add: asking_daemon_def daemon_start_def database_open_def)
  have sp: "still_pending ?p asking_row" "se_display_name asking_row = lit ''work''"
    by (simp_all add: still_pending_def asking_row_def asking_event_def live_row_def)
  have n: "ATTENTION_NOTIFICATION_CLAIM_CAPACITY = Suc 255"
    by (simp add: ATTENTION_NOTIFICATION_CLAIM_CAPACITY_def)
  have "fst (claim_attention_notification 1 (\<lambda>_. 2000) default_preferences asking_daemon) = Some ?x"
    unfolding claim_attention_notification_def n claim_rounds.simps
    by (simp add: c s l sp claim_at_def Let_def hm_values_def)
  then show ?thesis
    using claimed_notification_is_current [of 1 "\<lambda>_. 2000" default_preferences asking_daemon ?x
        "snd (claim_attention_notification 1 (\<lambda>_. 2000) default_preferences asking_daemon)"]
    by (intro exI [of _ ?x]) (metis prod.collapse)
qed

end
