(* ===== verification/Provider_Launch.thy ===== *)
theory Provider_Launch
  imports Text_Tools Status_Machine Domain
begin

text \<open>
  \<open>crates/sylvops-core/src/provider.rs\<close> and the launching half of
  \<open>crates/sylvops-daemon/src/provider.rs\<close>: health and capabilities of Providers, the endpoint a
  Session's hooks report to, and the arguments and environment of a Provider process, for the
  shell, Claude Code and Codex. Paths and operating system strings are texts, the environment of
  the daemon is a list of variables, and the outcome of every file system check is an argument.
  The Unix rules for the environment are the ones modelled.
\<close>

section \<open>Health\<close>

datatype authentication_requirement = NoAuthentication | ExistingLogin

record runtime_capabilities =
  rc_structured_input_events :: bool
  rc_lifecycle_events :: bool
  rc_recoverable_turn_failures :: bool
  rc_remaining_background_work :: bool
  rc_conversation_identity_transitions :: bool

record provider_capabilities =
  cap_interactive :: bool
  cap_task_bootstrap :: bool
  cap_resume :: bool
  cap_status_hooks :: bool
  cap_model_selection :: bool
  cap_effort_selection :: bool
  cap_authentication :: authentication_requirement
  cap_runtime :: "runtime_capabilities option"

record provider_health =
  ph_kind :: provider_kind
  ph_available :: bool
  ph_authenticated :: bool
  ph_executable_path :: "str option"
  ph_version :: "str option"
  ph_diagnostic :: "str option"
  ph_capabilities :: provider_capabilities
  ph_checked_at :: int

fun provider_display_name :: "provider_kind \<Rightarrow> str" where
  "provider_display_name Shell = lit ''Shell''"
| "provider_display_name Codex = lit ''Codex''"
| "provider_display_name Claude = lit ''Claude Code''"
| "provider_display_name Cursor = lit ''Cursor''"
| "provider_display_name Pi = lit ''Pi''"

definition diagnostic_or :: "provider_health \<Rightarrow> str \<Rightarrow> str" where
  "diagnostic_or h fallback = (case ph_diagnostic h of Some d \<Rightarrow> d
     | None \<Rightarrow> lit ''Provider '' @ provider_display_name (ph_kind h) @ fallback)"

definition session_start_error :: "provider_health \<Rightarrow> str option" where
  "session_start_error h =
     (if \<not> cap_interactive (ph_capabilities h)
      then Some (lit ''Provider '' @ provider_display_name (ph_kind h) @ lit '' does not support interactive Sessions.'')
      else if \<not> ph_available h then Some (diagnostic_or h (lit '' is unavailable.''))
      else if cap_authentication (ph_capabilities h) = ExistingLogin \<and> \<not> ph_authenticated h
      then Some (diagnostic_or h (lit '' requires an existing login. Sign in outside SylvOps, then refresh Provider health.''))
      else None)"

definition can_start_interactive_session :: "provider_health \<Rightarrow> bool" where
  "can_start_interactive_session h \<longleftrightarrow> session_start_error h = None"

definition can_start_task_bootstrap :: "provider_health \<Rightarrow> bool" where
  "can_start_task_bootstrap h \<longleftrightarrow> cap_task_bootstrap (ph_capabilities h) \<and> session_start_error h = None"

definition resume_error :: "provider_health \<Rightarrow> str option" where
  "resume_error h =
     (if \<not> cap_resume (ph_capabilities h)
      then Some (lit ''Provider '' @ provider_display_name (ph_kind h) @ lit '' does not support Session resume.'')
      else session_start_error h)"

definition can_resume_session :: "provider_health \<Rightarrow> bool" where
  "can_resume_session h \<longleftrightarrow> resume_error h = None"

definition session_can_resume :: "session \<Rightarrow> session list \<Rightarrow> provider_health list \<Rightarrow> bool" where
  "session_can_resume s sessions providers \<longleftrightarrow>
     session_record_can_resume s sessions
     \<and> (case find (\<lambda>h. ph_kind h = se_provider_kind s) providers of
          None \<Rightarrow> False | Some h \<Rightarrow> can_resume_session h)"

section \<open>The lifecycle endpoint\<close>

definition MAX_PROVIDER_LIFECYCLE_PAYLOAD_SIZE :: nat where "MAX_PROVIDER_LIFECYCLE_PAYLOAD_SIZE = 64 * 1024"
definition MAX_PROVIDER_LIFECYCLE_URL_LENGTH :: nat where "MAX_PROVIDER_LIFECYCLE_URL_LENGTH = 2 * 1024"
definition MIN_PROVIDER_LIFECYCLE_TOKEN_LENGTH :: nat where "MIN_PROVIDER_LIFECYCLE_TOKEN_LENGTH = 32"
definition MAX_PROVIDER_LIFECYCLE_TOKEN_LENGTH :: nat where "MAX_PROVIDER_LIFECYCLE_TOKEN_LENGTH = 512"

text \<open>\<open>parse::<IpAddr>().is_loopback()\<close> of the host of a URL. A URL writes an IPv6 address in brackets,
  which do not parse, so only dotted IPv4 addresses count: four numbers up to 255 without leading
  zeros, the first of them 127.\<close>

definition ipv4_octet :: "str \<Rightarrow> int option" where
  "ipv4_octet s = (if s \<noteq> [] \<and> length s \<le> 3 \<and> list_all is_ascii_digit s
       \<and> (length s = 1 \<or> hd s \<noteq> chr CHR ''0'') \<and> digits_value s < 256
     then Some (digits_value s) else None)"

definition is_loopback_host :: "str \<Rightarrow> bool" where
  "is_loopback_host h = (case map ipv4_octet (split_on (chr CHR ''.'') h) of
       [Some a, Some b, Some c, Some d] \<Rightarrow> a = 127 | _ \<Rightarrow> False)"

record lifecycle_endpoint =
  ep_provider :: provider_kind
  ep_session :: session_id
  ep_worktree :: worktree_id
  ep_url :: str
  ep_bearer_token :: str

definition lifecycle_endpoint_new ::
    "url_parser \<Rightarrow> provider_kind \<Rightarrow> session_id \<Rightarrow> worktree_id \<Rightarrow> str \<Rightarrow> str \<Rightarrow> str + lifecycle_endpoint" where
  "lifecycle_endpoint_new parse_url p i w url token =
     (let invalid = lit ''provider lifecycle endpoint URL is invalid'' in
      if url = [] \<or> byte_len url > MAX_PROVIDER_LIFECYCLE_URL_LENGTH then Inl invalid
      else case parse_url url of
        None \<Rightarrow> Inl invalid
      | Some u \<Rightarrow>
          if ur_scheme u \<noteq> lit ''http''
             \<or> \<not> (case ur_host u of None \<Rightarrow> False | Some h \<Rightarrow> is_loopback_host h)
             \<or> ur_username u \<noteq> [] \<or> ur_password u \<noteq> None \<or> ur_query u \<noteq> None \<or> ur_fragment u \<noteq> None
          then Inl (lit ''provider lifecycle endpoint must be an uncredentialed loopback HTTP URL'')
          else if byte_len token < MIN_PROVIDER_LIFECYCLE_TOKEN_LENGTH
             \<or> byte_len token > MAX_PROVIDER_LIFECYCLE_TOKEN_LENGTH
             \<or> list_ex (\<lambda>c. \<not> is_ascii_graphic c) token
          then Inl (lit ''provider lifecycle endpoint credential is invalid'')
          else Inr \<lparr>ep_provider = p, ep_session = i, ep_worktree = w, ep_url = url, ep_bearer_token = token\<rparr>)"

definition is_bound_to :: "lifecycle_endpoint \<Rightarrow> provider_kind \<Rightarrow> session_id \<Rightarrow> worktree_id \<Rightarrow> bool" where
  "is_bound_to e p i w \<longleftrightarrow> ep_provider e = p \<and> ep_session e = i \<and> ep_worktree e = w"

section \<open>Arguments\<close>

text \<open>\<open>LaunchArguments\<close>: the arguments of a process, of which a prefix may be stored.\<close>

record launch_arguments =
  la_values :: "str list"
  la_persisted_len :: nat

definition persisted_arguments :: "str list \<Rightarrow> launch_arguments" where
  "persisted_arguments values = \<lparr>la_values = values, la_persisted_len = length values\<rparr>"

definition with_transient_tail :: "str list \<Rightarrow> str list \<Rightarrow> launch_arguments" where
  "with_transient_tail stored transient = \<lparr>la_values = stored @ transient, la_persisted_len = length stored\<rparr>"

definition prepend_persisted :: "str list \<Rightarrow> launch_arguments \<Rightarrow> launch_arguments" where
  "prepend_persisted values a =
     a\<lparr>la_persisted_len := la_persisted_len a + length values, la_values := values @ la_values a\<rparr>"

definition persisted_values :: "launch_arguments \<Rightarrow> str list" where
  "persisted_values a = take (la_persisted_len a) (la_values a)"

record launch_spec =
  sp_executable :: str
  sp_arguments :: launch_arguments
  sp_environment :: "(str, str) hash_map"

record runtime_spec =
  rt_launch :: launch_spec
  rt_codex_app_server :: bool
  rt_owned_paths :: "str list"

record launch_context =
  lc_session :: session_id
  lc_worktree :: worktree_id
  lc_cwd :: str
  lc_model :: "str option"
  lc_effort :: "str option"
  lc_initial_prompt :: "str option"
  lc_endpoint :: "lifecycle_endpoint option"

record resume_context =
  rx_session :: session_id
  rx_worktree :: worktree_id
  rx_external_session_id :: provider_conversation_id
  rx_cwd :: str
  rx_model :: "str option"
  rx_effort :: "str option"
  rx_endpoint :: "lifecycle_endpoint option"

section \<open>Checks\<close>

type_synonym 'a provider_result = "str + 'a"

definition validate_selector :: "str option \<Rightarrow> str \<Rightarrow> unit provider_result" where
  "validate_selector v label = refuse_if (case v of None \<Rightarrow> False
     | Some s \<Rightarrow> s = [] \<or> byte_len s > 128 \<or> list_ex is_control s) (lit ''invalid '' @ label @ lit '' selector'')"

definition validate_prompt :: "str option \<Rightarrow> unit provider_result" where
  "validate_prompt v = refuse_if (case v of None \<Rightarrow> False | Some s \<Rightarrow> byte_len s > 64 * 1024 \<or> 0 \<in> set s)
     (lit ''initial prompt exceeds 64 KiB or contains NUL'')"

definition validate_external_id :: "str \<Rightarrow> unit provider_result" where
  "validate_external_id v = refuse_if (v = [] \<or> byte_len v > 200
     \<or> \<not> list_all (\<lambda>c. is_ascii_alphanumeric c \<or> c = chr CHR ''-'' \<or> c = chr CHR ''_'') v)
     (lit ''invalid external session identifier'')"

definition is_claude_model_char :: "nat \<Rightarrow> bool" where
  "is_claude_model_char c \<longleftrightarrow> is_ascii_alphanumeric c \<or> c \<in> set (lit ''-_.:[]'')"

definition validate_claude_model :: "str option \<Rightarrow> unit provider_result" where
  "validate_claude_model v = bind_result (validate_selector v (lit ''Claude model'')) (\<lambda>_.
     refuse_if (case v of None \<Rightarrow> False
       | Some s \<Rightarrow> (s = [] \<or> \<not> is_ascii_alphanumeric (hd s)) \<or> \<not> list_all is_claude_model_char s)
       (lit ''invalid Claude model selector''))"

definition claude_efforts :: "str list" where
  "claude_efforts = [lit ''low'', lit ''medium'', lit ''high'', lit ''xhigh'', lit ''max'']"

definition validate_claude_effort :: "str option \<Rightarrow> unit provider_result" where
  "validate_claude_effort v = refuse_if (case v of None \<Rightarrow> False | Some s \<Rightarrow> s \<notin> set claude_efforts)
     (lit ''invalid Claude effort selector'')"

section \<open>Environment\<close>

type_synonym variables = "(str \<times> str) list"

definition ascii_uppercase :: "str \<Rightarrow> str" where
  "ascii_uppercase s = map (\<lambda>c. if is_ascii_lowercase c then c - 32 else c) s"

definition reviewed_variables :: "str list" where
  "reviewed_variables = map lit [''PATH'', ''HOME'', ''USER'', ''LOGNAME'', ''SHELL'', ''TERM'',
     ''COLORTERM'', ''TMPDIR'', ''LANG'']"

definition environment_allowed :: "str \<Rightarrow> bool" where
  "environment_allowed key \<longleftrightarrow> ascii_uppercase key \<in> set reviewed_variables
     \<or> starts_with (lit ''LC_'') (ascii_uppercase key)"

definition reviewed_environment :: "bool \<Rightarrow> variables \<Rightarrow> (str, str) hash_map" where
  "reviewed_environment codex vars = foldl (\<lambda>e (k, v).
     if environment_allowed k \<or> (codex \<and> ascii_lowercase k = lit ''codex_home'') then hm_insert k v e else e) [] vars"

definition safe_environment ::
    "(uuid \<Rightarrow> str) \<Rightarrow> variables \<Rightarrow> session_id \<Rightarrow> worktree_id \<Rightarrow> bool \<Rightarrow> (str, str) hash_map" where
  "safe_environment show_uuid vars i w codex =
     (let e = hm_insert (lit ''SYLVOPS_WORKTREE_ID'') (show_uuid (worktree_uuid w))
                (hm_insert (lit ''SYLVOPS_SESSION_ID'') (show_uuid (as_uuid i)) (reviewed_environment codex vars))
      in if map_of e (lit ''TERM'') = None then hm_insert (lit ''TERM'') (lit ''xterm-256color'') e else e)"

definition endpoint_environment ::
    "lifecycle_endpoint \<Rightarrow> (str, str) hash_map \<Rightarrow> (str, str) hash_map" where
  "endpoint_environment e m = hm_insert (lit ''SYLVOPS_HOOK_TOKEN'') (ep_bearer_token e)
     (hm_insert (lit ''SYLVOPS_HOOK_ENDPOINT'') (ep_url e) m)"

text \<open>What an adapter takes from the machine: the variables of the daemon, the rendering of a UUID, and
  the outcomes of locating its executable and of revalidating or installing its hook settings.\<close>

record machine =
  mc_variables :: variables
  mc_show_uuid :: "uuid \<Rightarrow> str"

record claude_settings =
  cs_endpoint_url :: str
  cs_revalidated :: "str provider_result"

record claude_adapter =
  ca_settings :: "claude_settings option"
  ca_executable :: "str provider_result"

record codex_adapter =
  cx_hook_directory :: "(str \<times> str) option"
  cx_profile :: "str provider_result"
  cx_executable :: "str provider_result"
  cx_supports_no_daemon :: bool
  cx_supports_remote :: bool

section \<open>Claude Code\<close>

definition managed_launch_context ::
    "machine \<Rightarrow> claude_adapter \<Rightarrow> session_id \<Rightarrow> worktree_id \<Rightarrow> lifecycle_endpoint option \<Rightarrow> bool
       \<Rightarrow> (str \<times> (str, str) hash_map) provider_result" where
  "managed_launch_context mc a i w endpoint resume = (case ca_settings a of
       None \<Rightarrow> Inl (lit ''Claude Code managed settings are unavailable'')
     | Some settings \<Rightarrow>
     case endpoint of
       None \<Rightarrow> Inl (lit ''Claude Code lifecycle endpoint is required for a managed Session'')
     | Some e \<Rightarrow>
     if \<not> is_bound_to e Claude i w
     then Inl (lit ''Claude Code lifecycle endpoint identity does not match the Session'')
     else if ep_url e \<noteq> cs_endpoint_url settings
     then Inl (lit ''Claude Code lifecycle endpoint does not match the daemon settings layer'')
     else bind_result (cs_revalidated settings) (\<lambda>settings_path.
       let env = safe_environment (mc_show_uuid mc) (mc_variables mc) i w resume;
           env = (case map_of (mc_variables mc) (lit ''CLAUDE_CONFIG_DIR'') of
                    None \<Rightarrow> env | Some d \<Rightarrow> hm_insert (lit ''CLAUDE_CONFIG_DIR'') d env)
       in Inr (settings_path, endpoint_environment e env)))"

definition option_pair :: "string \<Rightarrow> str option \<Rightarrow> str list" where
  "option_pair name v = (case v of None \<Rightarrow> [] | Some s \<Rightarrow> [lit name, s])"

definition with_prompt :: "str list \<Rightarrow> str option \<Rightarrow> launch_arguments" where
  "with_prompt arguments prompt = (case prompt of
       None \<Rightarrow> persisted_arguments arguments | Some p \<Rightarrow> with_transient_tail arguments [p])"

definition claude_launch_spec ::
    "machine \<Rightarrow> claude_adapter \<Rightarrow> launch_context \<Rightarrow> launch_spec provider_result" where
  "claude_launch_spec mc a c =
     bind_result (validate_claude_model (lc_model c)) (\<lambda>_.
     bind_result (validate_claude_effort (lc_effort c)) (\<lambda>_.
     bind_result (validate_prompt (lc_initial_prompt c)) (\<lambda>_.
     bind_result (managed_launch_context mc a (lc_session c) (lc_worktree c) (lc_endpoint c) False)
       (\<lambda>(settings_path, env).
     bind_result (ca_executable a) (\<lambda>executable.
       Inr \<lparr>sp_executable = executable,
            sp_arguments = with_prompt ([lit ''--settings'', settings_path]
              @ option_pair ''--model'' (lc_model c) @ option_pair ''--effort'' (lc_effort c)) (lc_initial_prompt c),
            sp_environment = env\<rparr>)))))"

definition claude_resume_spec ::
    "machine \<Rightarrow> claude_adapter \<Rightarrow> resume_context \<Rightarrow> launch_spec provider_result" where
  "claude_resume_spec mc a c =
     bind_result (validate_external_id (conversation_str (rx_external_session_id c))) (\<lambda>_.
     bind_result (managed_launch_context mc a (rx_session c) (rx_worktree c) (rx_endpoint c) True)
       (\<lambda>(settings_path, env).
     bind_result (ca_executable a) (\<lambda>executable.
       Inr \<lparr>sp_executable = executable,
            sp_arguments = persisted_arguments [lit ''--settings'', settings_path, lit ''--resume'',
              conversation_str (rx_external_session_id c)],
            sp_environment = env\<rparr>)))"

section \<open>Codex\<close>

definition effort_pair :: "str option \<Rightarrow> str list" where
  "effort_pair v = (case v of None \<Rightarrow> [] | Some s \<Rightarrow> [lit ''--config'', lit ''model_reasoning_effort='' @ s])"

definition codex_launch_spec ::
    "machine \<Rightarrow> codex_adapter \<Rightarrow> launch_context \<Rightarrow> launch_spec provider_result" where
  "codex_launch_spec mc a c =
     bind_result (validate_selector (lc_model c) (lit ''model'')) (\<lambda>_.
     bind_result (validate_selector (lc_effort c) (lit ''effort'')) (\<lambda>_.
     bind_result (validate_prompt (lc_initial_prompt c)) (\<lambda>_.
     bind_result (cx_executable a) (\<lambda>executable.
       Inr \<lparr>sp_executable = executable,
            sp_arguments = with_prompt ([lit ''--cd'', lc_cwd c]
              @ option_pair ''--model'' (lc_model c) @ effort_pair (lc_effort c)) (lc_initial_prompt c),
            sp_environment = safe_environment (mc_show_uuid mc) (mc_variables mc) (lc_session c) (lc_worktree c) True\<rparr>))))"

definition codex_resume_spec ::
    "machine \<Rightarrow> codex_adapter \<Rightarrow> resume_context \<Rightarrow> launch_spec provider_result" where
  "codex_resume_spec mc a c =
     bind_result (validate_external_id (conversation_str (rx_external_session_id c))) (\<lambda>_.
     bind_result (validate_selector (rx_model c) (lit ''model'')) (\<lambda>_.
     bind_result (validate_selector (rx_effort c) (lit ''effort'')) (\<lambda>_.
     bind_result (cx_executable a) (\<lambda>executable.
       Inr \<lparr>sp_executable = executable,
            sp_arguments = persisted_arguments ([lit ''resume'', conversation_str (rx_external_session_id c), lit ''--cd'', rx_cwd c]
              @ option_pair ''--model'' (rx_model c) @ effort_pair (rx_effort c)),
            sp_environment = safe_environment (mc_show_uuid mc) (mc_variables mc) (rx_session c) (rx_worktree c) True\<rparr>))))"

text \<open>\<open>hook_command\<close>, and the overlay that adds the hook profile and the credential of the Session.\<close>

definition hook_command :: "str \<Rightarrow> str provider_result" where
  "hook_command executable =
     (if list_ex (\<lambda>c. c = 10 \<or> c = 13 \<or> c = 34) executable
      then Inl (lit ''hook relay path contains unsafe characters'')
      else Inr ([34] @ executable @ [34] @ lit '' hook emit''))"

definition configure_lifecycle_overlay ::
    "codex_adapter \<Rightarrow> session_id \<Rightarrow> worktree_id \<Rightarrow> lifecycle_endpoint option \<Rightarrow> launch_spec
       \<Rightarrow> launch_spec provider_result" where
  "configure_lifecycle_overlay a i w endpoint launch = (case cx_hook_directory a of
       None \<Rightarrow> Inr launch
     | Some (relay, directory) \<Rightarrow>
     case endpoint of
       None \<Rightarrow> Inl (lit ''Codex lifecycle endpoint is required for a managed Session'')
     | Some e \<Rightarrow>
     if \<not> is_bound_to e Codex i w
     then Inl (lit ''Codex lifecycle endpoint identity does not match the Session'')
     else bind_result (hook_command relay) (\<lambda>command.
          bind_result (cx_profile a) (\<lambda>profile_name.
       let args = prepend_persisted [lit ''--profile'', profile_name] (sp_arguments launch);
           args = (if cx_supports_no_daemon a then prepend_persisted [lit ''--no-daemon''] args else args)
       in Inr (launch\<lparr>sp_arguments := args,
            sp_environment := endpoint_environment e (sp_environment launch)\<rparr>))))"

section \<open>The registry\<close>

datatype adapter = ShellAdapter str | ClaudeAdapter claude_adapter | CodexAdapter codex_adapter

definition configure_launch :: "machine \<Rightarrow> adapter \<Rightarrow> launch_context \<Rightarrow> runtime_spec provider_result" where
  "configure_launch mc a c = (case a of
       ShellAdapter executable \<Rightarrow>
         Inr \<lparr>rt_launch = \<lparr>sp_executable = executable, sp_arguments = persisted_arguments [],
                sp_environment = safe_environment (mc_show_uuid mc) (mc_variables mc) (lc_session c) (lc_worktree c) False\<rparr>,
              rt_codex_app_server = False, rt_owned_paths = []\<rparr>
     | ClaudeAdapter a \<Rightarrow>
         bind_result (claude_launch_spec mc a c) (\<lambda>launch.
           Inr \<lparr>rt_launch = launch, rt_codex_app_server = False, rt_owned_paths = []\<rparr>)
     | CodexAdapter a \<Rightarrow>
         bind_result (codex_launch_spec mc a c) (\<lambda>launch.
         bind_result (configure_lifecycle_overlay a (lc_session c) (lc_worktree c) (lc_endpoint c) launch) (\<lambda>launch.
           Inr \<lparr>rt_launch = launch, rt_codex_app_server = cx_supports_remote a, rt_owned_paths = []\<rparr>)))"

definition configure_resume ::
    "machine \<Rightarrow> adapter \<Rightarrow> resume_context \<Rightarrow> runtime_spec option provider_result" where
  "configure_resume mc a c = (case a of
       ShellAdapter _ \<Rightarrow> Inr None
     | ClaudeAdapter a \<Rightarrow>
         bind_result (claude_resume_spec mc a c) (\<lambda>launch.
           Inr (Some \<lparr>rt_launch = launch, rt_codex_app_server = False, rt_owned_paths = []\<rparr>))
     | CodexAdapter a \<Rightarrow>
         bind_result (codex_resume_spec mc a c) (\<lambda>launch.
         bind_result (configure_lifecycle_overlay a (rx_session c) (rx_worktree c) (rx_endpoint c) launch) (\<lambda>launch.
           Inr (Some \<lparr>rt_launch = launch, rt_codex_app_server = cx_supports_remote a, rt_owned_paths = []\<rparr>))))"

definition adapter_kind :: "adapter \<Rightarrow> provider_kind" where
  "adapter_kind a = (case a of ShellAdapter _ \<Rightarrow> Shell | ClaudeAdapter _ \<Rightarrow> Claude | CodexAdapter _ \<Rightarrow> Codex)"

definition adapter_lifecycle_events :: "adapter \<Rightarrow> bool" where
  "adapter_lifecycle_events a = (case a of ShellAdapter _ \<Rightarrow> False | _ \<Rightarrow> True)"

type_synonym registry = "provider_kind \<Rightarrow> adapter option"

definition not_enabled :: "provider_kind \<Rightarrow> str" where
  "not_enabled k = lit ''provider '' @ provider_kind_to_string k @ lit '' is not enabled''"

definition registry_launch ::
    "machine \<Rightarrow> registry \<Rightarrow> provider_kind \<Rightarrow> launch_context \<Rightarrow> runtime_spec provider_result" where
  "registry_launch mc reg k c = (case reg k of
       None \<Rightarrow> Inl (not_enabled k) | Some a \<Rightarrow> configure_launch mc a c)"

definition registry_resume ::
    "machine \<Rightarrow> registry \<Rightarrow> provider_kind \<Rightarrow> resume_context \<Rightarrow> runtime_spec provider_result" where
  "registry_resume mc reg k c = (case reg k of
       None \<Rightarrow> Inl (not_enabled k)
     | Some a \<Rightarrow> bind_result (configure_resume mc a c) (\<lambda>spec. case spec of
          None \<Rightarrow> Inl (lit ''provider '' @ provider_kind_to_string k @ lit '' cannot resume'')
        | Some rt \<Rightarrow> Inr rt))"

definition supports_lifecycle_events :: "registry \<Rightarrow> provider_kind \<Rightarrow> bool provider_result" where
  "supports_lifecycle_events reg k = (case reg k of
       None \<Rightarrow> Inl (not_enabled k) | Some a \<Rightarrow> Inr (adapter_lifecycle_events a))"

section \<open>The processes of a Session\<close>

text \<open>\<open>codex_bridge::prepare\<close>: a structured Codex Session gets two processes. The backend is started with
  fixed arguments and the configured environment. The launch of the terminal then is rewritten: it
  connects to the address of the relay, with a token that its environment carries.\<close>

definition CODEX_TOKEN_ENV :: str where "CODEX_TOKEN_ENV = lit ''SYLVOPS_CODEX_REMOTE_TOKEN''"

definition backend_spec :: "launch_spec \<Rightarrow> launch_spec" where
  "backend_spec launch = launch\<lparr>sp_arguments :=
     persisted_arguments [lit ''app-server'', lit ''--listen'', lit ''stdio://'']\<rparr>"

definition bridge_launch :: "str \<Rightarrow> str \<Rightarrow> launch_spec \<Rightarrow> launch_spec" where
  "bridge_launch address token launch =
     (let stored = persisted_values (sp_arguments launch);
          kept = filter (\<lambda>v. v \<noteq> lit ''--no-daemon'') stored;
          transient = drop (length stored) (la_values (sp_arguments launch))
      in launch\<lparr>sp_arguments := prepend_persisted
             [lit ''--remote'', lit ''ws://'' @ address, lit ''--remote-auth-token-env'', CODEX_TOKEN_ENV]
             (with_transient_tail kept transient),
           sp_environment := hm_insert CODEX_TOKEN_ENV token (sp_environment launch)\<rparr>)"

text \<open>What \<open>spawn_managed_session\<close> starts, in that order.\<close>

definition provider_processes :: "str \<Rightarrow> str \<Rightarrow> runtime_spec \<Rightarrow> launch_spec list" where
  "provider_processes address token rt =
     (if rt_codex_app_server rt
      then [backend_spec (rt_launch rt), bridge_launch address token (rt_launch rt)]
      else [rt_launch rt])"

end
