(* ===== verification/Provider_Properties.thy ===== *)
theory Provider_Properties
  imports Provider_Launch
begin

text \<open>
  What a launch discloses: which arguments are stored, which variables of the daemon a Provider
  inherits, and whose credential it is given.
\<close>

section \<open>Stored arguments\<close>

lemma persisted_values_simps [simp]:
  "persisted_values (persisted_arguments xs) = xs"
  "persisted_values (with_transient_tail xs ys) = xs"
  "persisted_values (with_prompt xs p) = xs"
  by (simp_all add: persisted_values_def persisted_arguments_def with_transient_tail_def with_prompt_def
      split: option.split)

lemma persisted_values_prepend [simp]: "persisted_values (prepend_persisted xs a) = xs @ persisted_values a"
  by (simp add: persisted_values_def prepend_persisted_def)

lemma all_values_simps [simp]:
  "la_values (persisted_arguments xs) = xs"
  "la_values (with_prompt xs p) = xs @ (case p of None \<Rightarrow> [] | Some s \<Rightarrow> [s])"
  "la_values (prepend_persisted xs a) = xs @ la_values a"
  "la_values (with_transient_tail xs ys) = xs @ ys"
  by (simp_all add: persisted_arguments_def with_prompt_def with_transient_tail_def prepend_persisted_def
      split: option.split)

text \<open>The three ways a launch is configured.\<close>

lemma overlay_Inr:
  assumes "configure_lifecycle_overlay a i w endpoint launch = Inr launch'"
  obtains (none) "cx_hook_directory a = None" "launch' = launch"
  | (some) e profile relay directory where "cx_hook_directory a = Some (relay, directory)" "endpoint = Some e"
      "is_bound_to e Codex i w" "cx_profile a = Inr profile"
      "sp_executable launch' = sp_executable launch"
      "sp_arguments launch' = (if cx_supports_no_daemon a then prepend_persisted [lit ''--no-daemon''] else id)
         (prepend_persisted [lit ''--profile'', profile] (sp_arguments launch))"
      "sp_environment launch' = endpoint_environment e (sp_environment launch)"
  using assms
  by (cases "cx_supports_no_daemon a")
    (auto simp: configure_lifecycle_overlay_def Let_def bind_result_eq_Inr split: option.splits if_splits)

lemma claude_launch_Inr:
  assumes "claude_launch_spec mc a c = Inr launch"
  obtains settings_path env where
    "managed_launch_context mc a (lc_session c) (lc_worktree c) (lc_endpoint c) False = Inr (settings_path, env)"
    "validate_prompt (lc_initial_prompt c) = Inr ()" "ca_executable a = Inr (sp_executable launch)"
    "sp_arguments launch = with_prompt ([lit ''--settings'', settings_path]
       @ option_pair ''--model'' (lc_model c) @ option_pair ''--effort'' (lc_effort c)) (lc_initial_prompt c)"
    "sp_environment launch = env"
  using assms by (auto simp: claude_launch_spec_def bind_result_eq_Inr)

lemma codex_launch_Inr:
  assumes "codex_launch_spec mc a c = Inr launch"
  shows "validate_prompt (lc_initial_prompt c) = Inr ()" "cx_executable a = Inr (sp_executable launch)"
    "sp_arguments launch = with_prompt ([lit ''--cd'', lc_cwd c]
       @ option_pair ''--model'' (lc_model c) @ effort_pair (lc_effort c)) (lc_initial_prompt c)"
    "sp_environment launch = safe_environment (mc_show_uuid mc) (mc_variables mc) (lc_session c) (lc_worktree c) True"
  using assms by (auto simp: codex_launch_spec_def bind_result_eq_Inr)

lemma managed_context_Inr:
  assumes "managed_launch_context mc a i w endpoint resume = Inr (settings_path, env)"
  obtains settings e where "ca_settings a = Some settings" "endpoint = Some e" "is_bound_to e Claude i w"
    "ep_url e = cs_endpoint_url settings" "cs_revalidated settings = Inr settings_path"
    "env = endpoint_environment e
       (case map_of (mc_variables mc) (lit ''CLAUDE_CONFIG_DIR'') of
          None \<Rightarrow> safe_environment (mc_show_uuid mc) (mc_variables mc) i w resume
        | Some d \<Rightarrow> hm_insert (lit ''CLAUDE_CONFIG_DIR'') d
            (safe_environment (mc_show_uuid mc) (mc_variables mc) i w resume))"
  using assms
  by (auto simp: managed_launch_context_def Let_def bind_result_eq_Inr split: option.splits if_splits)

definition stored_arguments :: "runtime_spec \<Rightarrow> str list" where
  "stored_arguments rt = persisted_values (sp_arguments (rt_launch rt))"

text \<open>The arguments to store, from what is neither prompt nor credential.\<close>

definition public_arguments :: "adapter \<Rightarrow> launch_context \<Rightarrow> str list" where
  "public_arguments a c = (case a of
       ShellAdapter _ \<Rightarrow> []
     | ClaudeAdapter a \<Rightarrow>
         [lit ''--settings'', (case ca_settings a of None \<Rightarrow> [] | Some s \<Rightarrow>
            (case cs_revalidated s of Inl _ \<Rightarrow> [] | Inr p \<Rightarrow> p))]
         @ option_pair ''--model'' (lc_model c) @ option_pair ''--effort'' (lc_effort c)
     | CodexAdapter a \<Rightarrow>
         (if cx_hook_directory a = None then []
          else (if cx_supports_no_daemon a then [lit ''--no-daemon''] else [])
            @ [lit ''--profile'', case cx_profile a of Inl _ \<Rightarrow> [] | Inr p \<Rightarrow> p])
         @ [lit ''--cd'', lc_cwd c] @ option_pair ''--model'' (lc_model c) @ effort_pair (lc_effort c))"

lemma launch_arguments_shape:
  assumes "configure_launch mc a c = Inr rt"
  shows "stored_arguments rt = public_arguments a c"
    "la_values (sp_arguments (rt_launch rt)) = public_arguments a c
       @ (if adapter_kind a = Shell then [] else case lc_initial_prompt c of None \<Rightarrow> [] | Some p \<Rightarrow> [p])"
proof -
  have "stored_arguments rt = public_arguments a c \<and>
    la_values (sp_arguments (rt_launch rt)) = public_arguments a c
       @ (if adapter_kind a = Shell then [] else case lc_initial_prompt c of None \<Rightarrow> [] | Some p \<Rightarrow> [p])"
  proof (cases a)
    case (ShellAdapter x)
    then show ?thesis using assms
      by (auto simp: configure_launch_def stored_arguments_def public_arguments_def adapter_kind_def)
  next
    case (ClaudeAdapter ad)
    then obtain launch where l: "claude_launch_spec mc ad c = Inr launch" and rt: "rt_launch rt = launch"
      using assms by (auto simp: configure_launch_def bind_result_eq_Inr)
    obtain sp env where m: "managed_launch_context mc ad (lc_session c) (lc_worktree c) (lc_endpoint c) False = Inr (sp, env)"
      and args: "sp_arguments launch = with_prompt ([lit ''--settings'', sp]
       @ option_pair ''--model'' (lc_model c) @ option_pair ''--effort'' (lc_effort c)) (lc_initial_prompt c)"
      by (rule claude_launch_Inr [OF l])
    obtain settings where "ca_settings ad = Some settings" "cs_revalidated settings = Inr sp"
      by (rule managed_context_Inr [OF m])
    then show ?thesis
      by (simp add: ClaudeAdapter stored_arguments_def public_arguments_def adapter_kind_def rt args)
  next
    case (CodexAdapter ad)
    then obtain launch launch' where l: "codex_launch_spec mc ad c = Inr launch"
      and o': "configure_lifecycle_overlay ad (lc_session c) (lc_worktree c) (lc_endpoint c) launch = Inr launch'"
      and rt: "rt_launch rt = launch'"
      using assms by (auto simp: configure_launch_def bind_result_eq_Inr)
    show ?thesis using o'
    proof (cases rule: overlay_Inr)
      case none
      then show ?thesis
        by (simp add: CodexAdapter stored_arguments_def public_arguments_def adapter_kind_def rt codex_launch_Inr [OF l])
    next
      case (some e profile relay directory)
      then show ?thesis
        by (simp add: CodexAdapter stored_arguments_def public_arguments_def adapter_kind_def rt codex_launch_Inr [OF l])
    qed
  qed
  then show "stored_arguments rt = public_arguments a c"
    "la_values (sp_arguments (rt_launch rt)) = public_arguments a c
       @ (if adapter_kind a = Shell then [] else case lc_initial_prompt c of None \<Rightarrow> [] | Some p \<Rightarrow> [p])"
    by blast+
qed

text \<open>A resumed Session has no prompt: all of its arguments are stored.\<close>

definition public_resume_arguments :: "adapter \<Rightarrow> resume_context \<Rightarrow> str list" where
  "public_resume_arguments a c = (case a of
       ShellAdapter _ \<Rightarrow> []
     | ClaudeAdapter a \<Rightarrow>
         [lit ''--settings'', (case ca_settings a of None \<Rightarrow> [] | Some s \<Rightarrow>
            (case cs_revalidated s of Inl _ \<Rightarrow> [] | Inr p \<Rightarrow> p)),
          lit ''--resume'', conversation_str (rx_external_session_id c)]
     | CodexAdapter a \<Rightarrow>
         (if cx_hook_directory a = None then []
          else (if cx_supports_no_daemon a then [lit ''--no-daemon''] else [])
            @ [lit ''--profile'', case cx_profile a of Inl _ \<Rightarrow> [] | Inr p \<Rightarrow> p])
         @ [lit ''resume'', conversation_str (rx_external_session_id c), lit ''--cd'', rx_cwd c]
         @ option_pair ''--model'' (rx_model c) @ effort_pair (rx_effort c))"

lemma resume_arguments_shape:
  assumes "configure_resume mc a c = Inr (Some rt)"
  shows "stored_arguments rt = public_resume_arguments a c"
    "la_values (sp_arguments (rt_launch rt)) = public_resume_arguments a c"
proof -
  have "stored_arguments rt = public_resume_arguments a c
    \<and> la_values (sp_arguments (rt_launch rt)) = public_resume_arguments a c"
  proof (cases a)
    case (ShellAdapter x)
    then show ?thesis using assms by (simp add: configure_resume_def)
  next
    case (ClaudeAdapter ad)
    then obtain sp env where m: "managed_launch_context mc ad (rx_session c) (rx_worktree c) (rx_endpoint c) True = Inr (sp, env)"
      and args: "sp_arguments (rt_launch rt) = persisted_arguments [lit ''--settings'', sp, lit ''--resume'',
              conversation_str (rx_external_session_id c)]"
      using assms by (auto simp: configure_resume_def claude_resume_spec_def bind_result_eq_Inr)
    obtain settings where "ca_settings ad = Some settings" "cs_revalidated settings = Inr sp"
      by (rule managed_context_Inr [OF m])
    then show ?thesis by (simp add: ClaudeAdapter stored_arguments_def public_resume_arguments_def args)
  next
    case (CodexAdapter ad)
    then obtain launch launch' where l: "codex_resume_spec mc ad c = Inr launch"
      and o': "configure_lifecycle_overlay ad (rx_session c) (rx_worktree c) (rx_endpoint c) launch = Inr launch'"
      and rt: "rt_launch rt = launch'"
      using assms by (auto simp: configure_resume_def bind_result_eq_Inr)
    have args: "sp_arguments launch = persisted_arguments ([lit ''resume'', conversation_str (rx_external_session_id c),
        lit ''--cd'', rx_cwd c] @ option_pair ''--model'' (rx_model c) @ effort_pair (rx_effort c))"
      using l by (auto simp: codex_resume_spec_def bind_result_eq_Inr)
    show ?thesis using o'
      by (cases rule: overlay_Inr)
        (simp_all add: CodexAdapter stored_arguments_def public_resume_arguments_def rt args)
  qed
  then show "stored_arguments rt = public_resume_arguments a c"
    "la_values (sp_arguments (rt_launch rt)) = public_resume_arguments a c" by blast+
qed

text \<open>The arguments of the processes of a launch, from its stored arguments and its tail.\<close>

lemma process_arguments:
  assumes "la_values (sp_arguments (rt_launch rt)) = persisted_values (sp_arguments (rt_launch rt)) @ tail"
  shows "map (\<lambda>p. la_values (sp_arguments p)) (provider_processes address token rt) =
      (if rt_codex_app_server rt
       then [[lit ''app-server'', lit ''--listen'', lit ''stdio://''],
             [lit ''--remote'', lit ''ws://'' @ address, lit ''--remote-auth-token-env'', CODEX_TOKEN_ENV]
               @ filter (\<lambda>v. v \<noteq> lit ''--no-daemon'') (persisted_values (sp_arguments (rt_launch rt))) @ tail]
       else [persisted_values (sp_arguments (rt_launch rt)) @ tail])"
  by (simp add: provider_processes_def backend_spec_def bridge_launch_def Let_def assms)

text \<open>C26: the arguments that are stored with a new Session depend neither on the prompt nor on the
  credential of its hooks, those of a resumed Session not on that credential. The processes of a new
  Session get exactly these arguments and the prompt, last, where there is one and the Provider is not
  the shell; a structured Codex Session gets a backend with three fixed arguments and a terminal with
  the stored arguments less \<open>--no-daemon\<close> and the prompt, preceded by the address of the relay and the
  name of the variable with its token. A resumed Session gets the same without a prompt. So the prompt
  is no stored argument by construction, and no credential is an argument at all.\<close>

theorem stored_arguments_hold_no_secret:
  assumes "configure_launch mc a c = Inr rt"
    and "configure_launch mc a (c\<lparr>lc_initial_prompt := prompt, lc_endpoint := endpoint\<rparr>) = Inr rt'"
  shows "persisted_values (sp_arguments (rt_launch rt)) = persisted_values (sp_arguments (rt_launch rt'))
     \<and> (let stored = persisted_values (sp_arguments (rt_launch rt));
            tail = (if adapter_kind a = Shell then [] else case lc_initial_prompt c of None \<Rightarrow> [] | Some p \<Rightarrow> [p])
        in map (\<lambda>p. la_values (sp_arguments p)) (provider_processes address token rt) =
             (if rt_codex_app_server rt
              then [[lit ''app-server'', lit ''--listen'', lit ''stdio://''],
                    [lit ''--remote'', lit ''ws://'' @ address, lit ''--remote-auth-token-env'', CODEX_TOKEN_ENV]
                      @ filter (\<lambda>v. v \<noteq> lit ''--no-daemon'') stored @ tail]
              else [stored @ tail]))
     \<and> (\<forall>x rs rs'. configure_resume mc a x = Inr (Some rs) \<longrightarrow>
           configure_resume mc a (x\<lparr>rx_endpoint := endpoint\<rparr>) = Inr (Some rs') \<longrightarrow>
           (let stored = persisted_values (sp_arguments (rt_launch rs))
            in persisted_values (sp_arguments (rt_launch rs')) = stored
             \<and> map (\<lambda>p. la_values (sp_arguments p)) (provider_processes address token rs) =
                 (if rt_codex_app_server rs
                  then [[lit ''app-server'', lit ''--listen'', lit ''stdio://''],
                        [lit ''--remote'', lit ''ws://'' @ address, lit ''--remote-auth-token-env'', CODEX_TOKEN_ENV]
                          @ filter (\<lambda>v. v \<noteq> lit ''--no-daemon'') stored]
                  else [stored])))"
proof -
  have "public_arguments a (c\<lparr>lc_initial_prompt := prompt, lc_endpoint := endpoint\<rparr>) = public_arguments a c"
    by (cases a) (simp_all add: public_arguments_def)
  with launch_arguments_shape(1) [OF assms(1)] launch_arguments_shape(1) [OF assms(2)]
  have "persisted_values (sp_arguments (rt_launch rt)) = persisted_values (sp_arguments (rt_launch rt'))"
    by (simp add: stored_arguments_def)
  moreover have "la_values (sp_arguments (rt_launch rt)) = persisted_values (sp_arguments (rt_launch rt))
      @ (if adapter_kind a = Shell then [] else case lc_initial_prompt c of None \<Rightarrow> [] | Some p \<Rightarrow> [p])"
    using launch_arguments_shape [OF assms(1)] by (simp add: stored_arguments_def)
  note process_arguments [OF this, of address token]
  moreover have "persisted_values (sp_arguments (rt_launch rs')) = persisted_values (sp_arguments (rt_launch rs))
      \<and> la_values (sp_arguments (rt_launch rs)) = persisted_values (sp_arguments (rt_launch rs)) @ []"
    if "configure_resume mc a x = Inr (Some rs)" "configure_resume mc a (x\<lparr>rx_endpoint := endpoint\<rparr>) = Inr (Some rs')"
    for x rs rs'
  proof -
    have "public_resume_arguments a (x\<lparr>rx_endpoint := endpoint\<rparr>) = public_resume_arguments a x"
      by (cases a) (simp_all add: public_resume_arguments_def)
    then show ?thesis using resume_arguments_shape [OF that(1)] resume_arguments_shape(1) [OF that(2)]
      by (simp add: stored_arguments_def)
  qed
  ultimately show ?thesis unfolding Let_def using process_arguments [of _ "[]" address token] by fastforce
qed

section \<open>The environment\<close>

definition owned_variables :: "str list" where
  "owned_variables = map lit [''SYLVOPS_SESSION_ID'', ''SYLVOPS_WORKTREE_ID'', ''TERM'', ''CLAUDE_CONFIG_DIR'',
     ''SYLVOPS_HOOK_ENDPOINT'', ''SYLVOPS_HOOK_TOKEN'']"

lemma reviewed_environment_keys:
  "k \<in> hm_keys (reviewed_environment codex vars) \<Longrightarrow> environment_allowed k \<or> ascii_lowercase k = lit ''codex_home''"
proof -
  let ?f = "\<lambda>e (k, v). if environment_allowed k \<or> (codex \<and> ascii_lowercase k = lit ''codex_home'') then hm_insert k v e else e"
  have "k \<in> hm_keys (foldl ?f e vars) \<Longrightarrow> k \<in> hm_keys e \<or> environment_allowed k \<or> ascii_lowercase k = lit ''codex_home''" for e
    by (induction vars arbitrary: e) (fastforce split: if_splits prod.splits)+
  from this [of "[]"] show "k \<in> hm_keys (reviewed_environment codex vars) \<Longrightarrow> environment_allowed k \<or> ascii_lowercase k = lit ''codex_home''"
    by (simp add: reviewed_environment_def)
qed

lemma token_not_inherited:
  "\<not> environment_allowed (lit ''SYLVOPS_HOOK_TOKEN'')" "ascii_lowercase (lit ''SYLVOPS_HOOK_TOKEN'') \<noteq> lit ''codex_home''"
  by (simp_all add: environment_allowed_def reviewed_variables_def ascii_uppercase_def lit_def starts_with_def
      is_ascii_lowercase_def ascii_lowercase_def ascii_lower_def is_ascii_uppercase_def)

lemma distinct_names:
  "lit ''SYLVOPS_HOOK_TOKEN'' \<noteq> lit ''SYLVOPS_SESSION_ID''" "lit ''SYLVOPS_HOOK_TOKEN'' \<noteq> lit ''SYLVOPS_WORKTREE_ID''"
  "lit ''SYLVOPS_HOOK_TOKEN'' \<noteq> lit ''TERM''" "lit ''SYLVOPS_HOOK_TOKEN'' \<noteq> lit ''CLAUDE_CONFIG_DIR''"
  "lit ''SYLVOPS_HOOK_TOKEN'' \<noteq> lit ''SYLVOPS_HOOK_ENDPOINT''"
  by (simp_all add: lit_def)

lemma safe_environment_keys:
  assumes "k \<in> hm_keys (safe_environment sh vars i w codex)"
  shows "environment_allowed k \<or> ascii_lowercase k = lit ''codex_home'' \<or> k \<in> set owned_variables"
    "k \<noteq> lit ''SYLVOPS_HOOK_TOKEN''"
proof -
  have "k \<in> hm_keys (reviewed_environment codex vars) \<or> k \<in> {lit ''SYLVOPS_SESSION_ID'', lit ''SYLVOPS_WORKTREE_ID'', lit ''TERM''}"
    using assms by (auto simp: safe_environment_def Let_def split: if_splits)
  then show "environment_allowed k \<or> ascii_lowercase k = lit ''codex_home'' \<or> k \<in> set owned_variables"
    "k \<noteq> lit ''SYLVOPS_HOOK_TOKEN''"
    using reviewed_environment_keys token_not_inherited distinct_names by (auto simp: owned_variables_def)
qed

text \<open>The variables of a process and the credential among them.\<close>

definition confined ::
    "provider_kind \<Rightarrow> session_id \<Rightarrow> worktree_id \<Rightarrow> lifecycle_endpoint option \<Rightarrow> (str, str) hash_map \<Rightarrow> bool" where
  "confined p i w endpoint env \<longleftrightarrow>
     (\<forall>k\<in>hm_keys env. environment_allowed k \<or> ascii_lowercase k = lit ''codex_home'' \<or> k \<in> set owned_variables)
     \<and> (\<forall>t. map_of env (lit ''SYLVOPS_HOOK_TOKEN'') = Some t \<longrightarrow>
          (\<exists>e. endpoint = Some e \<and> ep_bearer_token e = t \<and> is_bound_to e p i w))"

lemma confined_safe: "confined p i w endpoint (safe_environment sh vars i w codex)"
  using safe_environment_keys(1) [of _ sh vars i w codex]
    safe_environment_keys(2) [of "lit ''SYLVOPS_HOOK_TOKEN''" sh vars i w codex]
  by (auto simp: confined_def dest!: map_of_Some_hm)

lemma confined_endpoint:
  assumes "confined p i w endpoint env" "is_bound_to e p i w" "endpoint = Some e"
  shows "confined p i w endpoint (endpoint_environment e env)"
  using assms by (auto simp: confined_def endpoint_environment_def owned_variables_def)

lemma confined_config: "confined p i w endpoint env \<Longrightarrow> confined p i w endpoint (hm_insert (lit ''CLAUDE_CONFIG_DIR'') d env)"
  using distinct_names by (auto simp: confined_def owned_variables_def)

lemma managed_context_confined:
  assumes "managed_launch_context mc a i w endpoint resume = Inr (settings_path, env)"
  shows "confined Claude i w endpoint env"
proof (rule managed_context_Inr [OF assms])
  fix settings e
  let ?safe = "safe_environment (mc_show_uuid mc) (mc_variables mc) i w resume"
  assume e: "endpoint = Some e" "is_bound_to e Claude i w"
    and env: "env = endpoint_environment e (case map_of (mc_variables mc) (lit ''CLAUDE_CONFIG_DIR'') of
          None \<Rightarrow> ?safe | Some d \<Rightarrow> hm_insert (lit ''CLAUDE_CONFIG_DIR'') d ?safe)"
  show ?thesis unfolding env
    by (rule confined_endpoint [OF _ e(2,1)]) (auto split: option.split intro: confined_safe confined_config)
qed

lemma overlay_confined:
  assumes "configure_lifecycle_overlay a i w endpoint launch = Inr launch'"
    and "confined Codex i w endpoint (sp_environment launch)"
  shows "confined Codex i w endpoint (sp_environment launch')"
  using assms(1)
proof (cases rule: overlay_Inr)
  case none
  then show ?thesis using assms(2) by simp
next
  case (some e profile relay directory)
  then show ?thesis using confined_endpoint [OF assms(2)] by simp
qed

lemma launch_confined:
  assumes "configure_launch mc a c = Inr rt"
  shows "confined (adapter_kind a) (lc_session c) (lc_worktree c) (lc_endpoint c) (sp_environment (rt_launch rt))"
proof (cases a)
  case (ShellAdapter x)
  then show ?thesis using assms confined_safe by (auto simp: configure_launch_def adapter_kind_def)
next
  case (ClaudeAdapter ad)
  then obtain launch where l: "claude_launch_spec mc ad c = Inr launch" and rt: "rt_launch rt = launch"
    using assms by (auto simp: configure_launch_def bind_result_eq_Inr)
  obtain sp env where m: "managed_launch_context mc ad (lc_session c) (lc_worktree c) (lc_endpoint c) False = Inr (sp, env)"
    and env: "sp_environment launch = env"
    by (rule claude_launch_Inr [OF l])
  show ?thesis using managed_context_confined [OF m] by (simp add: ClaudeAdapter adapter_kind_def rt env)
next
  case (CodexAdapter ad)
  then obtain launch launch' where l: "codex_launch_spec mc ad c = Inr launch"
    and o': "configure_lifecycle_overlay ad (lc_session c) (lc_worktree c) (lc_endpoint c) launch = Inr launch'"
    and rt: "rt_launch rt = launch'"
    using assms by (auto simp: configure_launch_def bind_result_eq_Inr)
  show ?thesis
    using overlay_confined [OF o'] confined_safe by (simp add: CodexAdapter adapter_kind_def rt codex_launch_Inr [OF l])
qed

lemma resume_confined:
  assumes "configure_resume mc a c = Inr (Some rt)"
  shows "confined (adapter_kind a) (rx_session c) (rx_worktree c) (rx_endpoint c) (sp_environment (rt_launch rt))"
proof (cases a)
  case (ClaudeAdapter ad)
  then obtain sp env where "managed_launch_context mc ad (rx_session c) (rx_worktree c) (rx_endpoint c) True = Inr (sp, env)"
    "sp_environment (rt_launch rt) = env"
    using assms by (auto simp: configure_resume_def claude_resume_spec_def bind_result_eq_Inr)
  then show ?thesis using managed_context_confined by (simp add: ClaudeAdapter adapter_kind_def)
next
  case (CodexAdapter ad)
  then obtain launch launch' where l: "codex_resume_spec mc ad c = Inr launch"
    and o': "configure_lifecycle_overlay ad (rx_session c) (rx_worktree c) (rx_endpoint c) launch = Inr launch'"
    and rt: "rt_launch rt = launch'"
    using assms by (auto simp: configure_resume_def bind_result_eq_Inr)
  have "sp_environment launch = safe_environment (mc_show_uuid mc) (mc_variables mc) (rx_session c) (rx_worktree c) True"
    using l by (auto simp: codex_resume_spec_def bind_result_eq_Inr)
  then show ?thesis
    using overlay_confined [OF o'] confined_safe by (simp add: CodexAdapter adapter_kind_def rt)
qed (use assms in \<open>simp add: configure_resume_def\<close>)

lemma codex_token_not_confined:
  assumes "confined p i w endpoint env"
  shows "CODEX_TOKEN_ENV \<notin> hm_keys env"
proof -
  have "\<not> environment_allowed CODEX_TOKEN_ENV" "ascii_lowercase CODEX_TOKEN_ENV \<noteq> lit ''codex_home''"
    "CODEX_TOKEN_ENV \<notin> set owned_variables"
    by (simp_all add: CODEX_TOKEN_ENV_def environment_allowed_def reviewed_variables_def ascii_uppercase_def lit_def
        starts_with_def is_ascii_lowercase_def ascii_lowercase_def ascii_lower_def is_ascii_uppercase_def
        owned_variables_def)
  then show ?thesis using assms by (auto simp: confined_def)
qed

lemma hook_token_name: "lit ''SYLVOPS_HOOK_TOKEN'' \<noteq> CODEX_TOKEN_ENV"
  by (simp add: CODEX_TOKEN_ENV_def lit_def)

lemma process_confined:
  assumes "confined p i w endpoint (sp_environment (rt_launch rt))"
    and "process \<in> set (provider_processes address token rt)"
  shows "(\<forall>k\<in>hm_keys (sp_environment process).
        environment_allowed k \<or> ascii_lowercase k = lit ''codex_home'' \<or> k \<in> set owned_variables
        \<or> k = CODEX_TOKEN_ENV \<and> rt_codex_app_server rt)
     \<and> (\<forall>t. map_of (sp_environment process) (lit ''SYLVOPS_HOOK_TOKEN'') = Some t \<longrightarrow>
          (\<exists>e. endpoint = Some e \<and> ep_bearer_token e = t \<and> is_bound_to e p i w))
     \<and> (\<forall>t. map_of (sp_environment process) CODEX_TOKEN_ENV = Some t \<longrightarrow> t = token)"
proof -
  have env: "sp_environment process = sp_environment (rt_launch rt)
      \<or> rt_codex_app_server rt \<and> sp_environment process = hm_insert CODEX_TOKEN_ENV token (sp_environment (rt_launch rt))"
    using assms(2) by (auto simp: provider_processes_def backend_spec_def bridge_launch_def Let_def split: if_splits)
  have none: "map_of (sp_environment (rt_launch rt)) CODEX_TOKEN_ENV = None"
    using codex_token_not_confined [OF assms(1)] by (metis map_of_Some_hm option.exhaust)
  from env show ?thesis
  proof (elim disjE conjE)
    assume "sp_environment process = sp_environment (rt_launch rt)"
    then show ?thesis using assms(1) none by (auto simp: confined_def)
  next
    assume "rt_codex_app_server rt"
      "sp_environment process = hm_insert CODEX_TOKEN_ENV token (sp_environment (rt_launch rt))"
    then show ?thesis using assms(1) hook_token_name by (auto simp: confined_def)
  qed
qed

text \<open>C27: every process started for a Session, new or resumed, inherits only reviewed variables and the
  ones made for it. The hook credential among them is the one issued for its own Session, Worktree
  and Provider, and only a process of a structured Codex Session has the token of the relay, the one
  that was made for this launch.\<close>

theorem launch_environment_is_confined:
  assumes "configure_launch mc a c = Inr rt \<and> (i, w, endpoint) = (lc_session c, lc_worktree c, lc_endpoint c)
      \<or> configure_resume mc a x = Inr (Some rt) \<and> (i, w, endpoint) = (rx_session x, rx_worktree x, rx_endpoint x)"
    and "process \<in> set (provider_processes address token rt)"
  shows "(\<forall>k\<in>hm_keys (sp_environment process).
        environment_allowed k \<or> ascii_lowercase k = lit ''codex_home'' \<or> k \<in> set owned_variables
        \<or> k = CODEX_TOKEN_ENV \<and> rt_codex_app_server rt)
     \<and> (\<forall>t. map_of (sp_environment process) (lit ''SYLVOPS_HOOK_TOKEN'') = Some t \<longrightarrow>
          (\<exists>e. endpoint = Some e \<and> ep_bearer_token e = t \<and> is_bound_to e (adapter_kind a) i w))
     \<and> (\<forall>t. map_of (sp_environment process) CODEX_TOKEN_ENV = Some t \<longrightarrow> t = token)"
  using assms(1) process_confined [OF launch_confined [of mc a c rt] assms(2)]
    process_confined [OF resume_confined [of mc a x rt] assms(2)]
  by auto

section \<open>Witnesses\<close>

definition sample_machine :: machine where
  "sample_machine = \<lparr>mc_variables = [(lit ''PATH'', lit ''/bin''), (lit ''AWS_SECRET'', lit ''s'')],
     mc_show_uuid = (\<lambda>u. decimal (unat u))\<rparr>"

definition sample_codex :: codex_adapter where
  "sample_codex = \<lparr>cx_hook_directory = Some (lit ''/opt/sylvops'', lit ''/home/u/.codex''),
     cx_profile = Inr (lit ''sylvops-hooks-v1-1''), cx_executable = Inr (lit ''/usr/bin/codex''),
     cx_supports_no_daemon = True, cx_supports_remote = True\<rparr>"

definition sample_endpoint :: lifecycle_endpoint where
  "sample_endpoint = \<lparr>ep_provider = Codex, ep_session = SessionId 7, ep_worktree = WorktreeId 3,
     ep_url = lit ''http://127.0.0.1:1/'', ep_bearer_token = replicate 32 97\<rparr>"

definition sample_launch :: launch_context where
  "sample_launch = \<lparr>lc_session = SessionId 7, lc_worktree = WorktreeId 3, lc_cwd = lit ''/w'', lc_model = None,
     lc_effort = None, lc_initial_prompt = Some (lit ''hello''), lc_endpoint = Some sample_endpoint\<rparr>"

lemma sample_configured:
  assumes "byte_len (lit p) \<le> 64 * 1024" "0 \<notin> set (lit p)"
  obtains rt where "configure_launch sample_machine (CodexAdapter sample_codex)
    (sample_launch\<lparr>lc_initial_prompt := Some (lit p), lc_endpoint := Some sample_endpoint\<rparr>) = Inr rt"
  using assms
  by (simp add: configure_launch_def codex_launch_spec_def sample_launch_def validate_selector_def
      validate_prompt_def refuse_if_def sample_codex_def configure_lifecycle_overlay_def sample_endpoint_def
      is_bound_to_def hook_command_def lit_def Let_def)

theorem stored_arguments_hold_no_secret_witness:
  "\<exists>rt rt'. configure_launch sample_machine (CodexAdapter sample_codex) sample_launch = Inr rt
     \<and> configure_launch sample_machine (CodexAdapter sample_codex)
         (sample_launch\<lparr>lc_initial_prompt := Some (lit ''other''), lc_endpoint := Some sample_endpoint\<rparr>) = Inr rt'
     \<and> persisted_values (sp_arguments (rt_launch rt)) = persisted_values (sp_arguments (rt_launch rt'))"
proof -
  have same: "sample_launch\<lparr>lc_initial_prompt := Some (lit ''hello''), lc_endpoint := Some sample_endpoint\<rparr> = sample_launch"
    by (simp add: sample_launch_def)
  obtain rt where rt: "configure_launch sample_machine (CodexAdapter sample_codex) sample_launch = Inr rt"
    by (rule sample_configured [of "''hello''", unfolded same]) (simp_all add: lit_def utf8_width_def)
  obtain rt' where rt': "configure_launch sample_machine (CodexAdapter sample_codex)
     (sample_launch\<lparr>lc_initial_prompt := Some (lit ''other''), lc_endpoint := Some sample_endpoint\<rparr>) = Inr rt'"
    by (rule sample_configured [of "''other''"]) (simp_all add: lit_def utf8_width_def)
  show ?thesis using rt rt' conjunct1 [OF stored_arguments_hold_no_secret [OF rt rt']] by blast
qed

theorem launch_environment_is_confined_witness:
  "\<exists>rt. configure_launch sample_machine (CodexAdapter sample_codex) sample_launch = Inr rt
     \<and> list_all (\<lambda>p. lit ''AWS_SECRET'' \<notin> hm_keys (sp_environment p))
         (provider_processes (lit ''127.0.0.1:9'') (lit ''t'') rt)"
proof -
  have same: "sample_launch\<lparr>lc_initial_prompt := Some (lit ''hello''), lc_endpoint := Some sample_endpoint\<rparr> = sample_launch"
    by (simp add: sample_launch_def)
  obtain rt where rt: "configure_launch sample_machine (CodexAdapter sample_codex) sample_launch = Inr rt"
    by (rule sample_configured [of "''hello''", unfolded same]) (simp_all add: lit_def utf8_width_def)
  have other: "\<not> environment_allowed (lit ''AWS_SECRET'')" "ascii_lowercase (lit ''AWS_SECRET'') \<noteq> lit ''codex_home''"
    "lit ''AWS_SECRET'' \<notin> set owned_variables" "lit ''AWS_SECRET'' \<noteq> CODEX_TOKEN_ENV"
    by (simp_all add: environment_allowed_def reviewed_variables_def ascii_uppercase_def lit_def starts_with_def
        is_ascii_lowercase_def ascii_lowercase_def ascii_lower_def is_ascii_uppercase_def owned_variables_def
        CODEX_TOKEN_ENV_def)
  have "lit ''AWS_SECRET'' \<notin> hm_keys (sp_environment p)"
    if "p \<in> set (provider_processes (lit ''127.0.0.1:9'') (lit ''t'') rt)" for p
    using conjunct1 [OF launch_environment_is_confined [OF disjI1 [OF conjI [OF rt refl]] that]] other by blast
  then show ?thesis using rt by (auto simp: list_all_iff)
qed

end
