(* ===== verification/Json_Values.thy ===== *)
theory Json_Values
  imports Text_Tools
begin

text \<open>
  The values of \<open>serde_json::Value\<close> and the accessors the program uses on them. An object is the list
  of its members; a number is an integer of 64 bits, or some other number that the code never reads.
  Parsing and printing JSON are parameters of the definitions that need them.
\<close>

datatype json =
    JNull
  | JBool bool
  | JNumber int
  | JFloat str
  | JString str
  | JArray "json list"
  | JObject "(str \<times> json) list"

type_synonym json_parser = "8 word list \<Rightarrow> json option"

text \<open>\<open>get\<close>, and indexing, which yields \<open>Null\<close> for a member that is missing.\<close>

definition json_get :: "string \<Rightarrow> json \<Rightarrow> json option" where
  "json_get name v = (case v of JObject members \<Rightarrow> map_of members (lit name) | _ \<Rightarrow> None)"

definition json_index :: "json \<Rightarrow> string \<Rightarrow> json" where
  "json_index v name = (case json_get name v of None \<Rightarrow> JNull | Some x \<Rightarrow> x)"

definition json_str :: "json \<Rightarrow> str option" where
  "json_str v = (case v of JString s \<Rightarrow> Some s | _ \<Rightarrow> None)"

definition json_array :: "json \<Rightarrow> json list option" where
  "json_array v = (case v of JArray xs \<Rightarrow> Some xs | _ \<Rightarrow> None)"

definition str_field :: "string \<Rightarrow> json \<Rightarrow> str option" where
  "str_field name v = Option.bind (json_get name v) json_str"

text \<open>\<open>v[name] = x\<close>, which adds the member when it is missing.\<close>

definition json_put :: "string \<Rightarrow> json \<Rightarrow> json \<Rightarrow> json" where
  "json_put name x v = (case v of
       JObject members \<Rightarrow> JObject ((lit name, x) # filter (\<lambda>p. fst p \<noteq> lit name) members)
     | JNull \<Rightarrow> JObject [(lit name, x)]
     | _ \<Rightarrow> v)"

definition ok_or :: "'e \<Rightarrow> 'a option \<Rightarrow> 'e + 'a" where
  "ok_or e v = (case v of None \<Rightarrow> Inl e | Some x \<Rightarrow> Inr x)"

lemma ok_or_Inr [simp]: "ok_or e v = Inr x \<longleftrightarrow> v = Some x"
  by (auto simp: ok_or_def split: option.splits)

lemma lit_eq_iff [simp]: "lit a = lit b \<longleftrightarrow> a = b"
  unfolding lit_def by (rule inj_eq) (auto intro!: inj_mapI injI)

end
