(* ===== verification/Provider_Events.thy ===== *)
theory Provider_Events
  imports Session_Runtime Provider_Launch Json_Values
begin

text \<open>
  The normalization half of \<open>crates/sylvops-daemon/src/provider.rs\<close>: how the hook payloads of Claude
  Code and Codex become the events of the status machine. Parsing JSON is the parameter
  \<open>parse_json\<close>.
\<close>

section \<open>Identifiers\<close>

text \<open>The message of a refused identifier is that of \<open>ProviderConversationId::new\<close>.\<close>

definition conversation_id_message :: "conversation_id_error \<Rightarrow> str" where
  "conversation_id_message e = (case e of
       ConversationIdLength \<Rightarrow> lit ''provider conversation ID must be between 1 and 200 characters''
     | ConversationIdCharacters \<Rightarrow> lit ''provider conversation ID contains unsupported characters'')"

definition conversation_id_new :: "str \<Rightarrow> str + provider_conversation_id" where
  "conversation_id_new v = (case conversation_id_try_from v of
       Inl e \<Rightarrow> Inl (conversation_id_message e) | Inr x \<Rightarrow> Inr x)"

section \<open>Claude Code\<close>

definition claude_bounded_identifier :: "json \<Rightarrow> string \<Rightarrow> str provider_result" where
  "claude_bounded_identifier payload name =
     bind_result (ok_or (lit ''Claude Code lifecycle event is missing '' @ lit name) (str_field name payload)) (\<lambda>v.
     bind_result (conversation_id_new v) (\<lambda>x. Inr (conversation_str x)))"

definition claude_remaining_work :: "json \<Rightarrow> remaining_work provider_result" where
  "claude_remaining_work payload =
     bind_result (ok_or (lit ''Claude Code Stop background tasks are invalid'')
       (Option.bind (json_get ''background_tasks'' payload) json_array)) (\<lambda>background.
     bind_result (ok_or (lit ''Claude Code Stop scheduled tasks are invalid'')
       (Option.bind (json_get ''session_crons'' payload) json_array)) (\<lambda>crons.
       Inr \<lparr>active_subagents = list_ex (\<lambda>task. str_field ''type'' task = Some (lit ''subagent'')) background,
            background_tasks = background \<noteq> [], scheduled_tasks = crons \<noteq> []\<rparr>))"

definition claude_failures :: "str list" where
  "claude_failures = map lit [''rate_limit'', ''overloaded'', ''authentication_failed'', ''oauth_org_not_allowed'',
     ''account_on_hold'', ''billing_error'', ''invalid_request'', ''model_not_found'', ''server_error'',
     ''max_output_tokens'', ''cloud_credential_error'', ''unknown'']"

definition claude_failure_category :: "json \<Rightarrow> turn_failure_category provider_result" where
  "claude_failure_category payload =
     bind_result (ok_or (lit ''Claude Code StopFailure category is missing'') (str_field ''error'' payload)) (\<lambda>category.
       case failure_category_try_from (if category \<in> set claude_failures then category else lit ''unknown'') of
         Inl _ \<Rightarrow> Inl (lit ''turn failure category must be a lowercase machine identifier'') | Inr c \<Rightarrow> Inr c)"

definition claude_transition :: "json \<Rightarrow> conversation_transition provider_result" where
  "claude_transition payload = (case str_field ''source'' payload of
       None \<Rightarrow> Inl (lit ''Claude Code SessionStart source is invalid'')
     | Some s \<Rightarrow>
         if s \<in> {lit ''startup'', lit ''compact'', lit ''fork''} then Inr Established
         else if s = lit ''resume'' then Inr Resumed
         else if s = lit ''clear'' then Inr Cleared
         else Inl (lit ''Claude Code SessionStart source is invalid''))"

definition asks_user :: "json \<Rightarrow> bool" where
  "asks_user payload \<longleftrightarrow>
     str_field ''tool_name'' payload \<in> {Some (lit ''AskUserQuestion''), Some (lit ''ExitPlanMode'')}"

definition claude_event :: "json \<Rightarrow> provider_conversation_id \<Rightarrow> str \<Rightarrow> provider_event provider_result" where
  "claude_event payload conversation name =
     (if name = lit ''SessionStart'' then
        bind_result (claude_transition payload) (\<lambda>tr.
          Inr (TurnStarted (Some \<lparr>conv_id = conversation, conv_transition = tr\<rparr>)))
      else if name = lit ''UserPromptSubmit'' then Inr PromptSubmitted
      else if name = lit ''PermissionRequest'' then Inr PermissionRequested
      else if name = lit ''PreToolUse'' \<and> asks_user payload then Inr UserInputRequested
      else if name = lit ''SubagentStart'' then
        bind_result (claude_bounded_identifier payload ''agent_id'') (\<lambda>a. Inr (SubagentStarted a))
      else if name = lit ''SubagentStop'' then
        bind_result (claude_bounded_identifier payload ''agent_id'') (\<lambda>a. Inr (SubagentStopped a))
      else if name = lit ''Stop'' then
        bind_result (claude_remaining_work payload) (\<lambda>w. Inr (TurnStopped w))
      else if name = lit ''StopFailure'' then
        bind_result (claude_failure_category payload) (\<lambda>c. Inr (TurnFailed c))
      else if name = lit ''SessionEnd'' then Inr SessionEnded
      else Inl (lit ''unsupported Claude Code lifecycle event''))"

definition claude_normalize :: "json_parser \<Rightarrow> bytes \<Rightarrow> lifecycle_event provider_result" where
  "claude_normalize parse_json bytes =
     bind_result (ok_or (lit ''Claude Code lifecycle payload is not valid JSON'') (parse_json bytes)) (\<lambda>payload.
     bind_result (ok_or (lit ''Claude Code lifecycle event is missing its session ID'') (str_field ''session_id'' payload)) (\<lambda>i.
     bind_result (conversation_id_new i) (\<lambda>conversation.
     bind_result (ok_or (lit ''Claude Code lifecycle event type is missing'') (str_field ''hook_event_name'' payload)) (\<lambda>name.
     bind_result (claude_event payload conversation name) (\<lambda>e.
       Inr \<lparr>le_event = Some e, le_conversation = Some conversation, le_turn = None\<rparr>)))))"

section \<open>Codex\<close>

definition bounded_payload_field :: "json \<Rightarrow> string \<Rightarrow> str" where
  "bounded_payload_field payload name =
     take 200 (case str_field name payload of None \<Rightarrow> lit ''unknown'' | Some s \<Rightarrow> s)"

definition codex_event :: "json \<Rightarrow> provider_conversation_id option \<Rightarrow> str \<Rightarrow> provider_event provider_result" where
  "codex_event payload conversation name =
     (if name = lit ''SessionStart'' then
        bind_result (ok_or (lit ''Codex SessionStart is missing its session ID'') conversation) (\<lambda>i.
          Inr (TurnStarted (Some \<lparr>conv_id = i, conv_transition = Established\<rparr>)))
      else if name = lit ''SessionEnd'' then Inr SessionEnded
      else if name = lit ''UserPromptSubmit'' then Inr PromptSubmitted
      else if name = lit ''PermissionRequest'' then Inr PermissionCheckStarted
      else if name = lit ''PreToolUse'' then Inr ToolStarted
      else if name = lit ''PostToolUse'' then Inr ToolCompleted
      else if name = lit ''SubagentStart'' then Inr (SubagentStarted (bounded_payload_field payload ''agent_id''))
      else if name = lit ''SubagentStop'' then Inr (SubagentStopped (bounded_payload_field payload ''agent_id''))
      else if name = lit ''Stop'' then Inr (TurnStopped no_remaining_work)
      else if name = lit ''Interrupt'' then Inr TurnInterrupted
      else Inl (lit ''unknown Codex lifecycle event''))"

text \<open>\<open>map(ProviderConversationId::new).transpose()\<close>.\<close>

definition optional_id :: "str option \<Rightarrow> provider_conversation_id option provider_result" where
  "optional_id v = (case v of None \<Rightarrow> Inr None | Some s \<Rightarrow> bind_result (conversation_id_new s) (\<lambda>i. Inr (Some i)))"

definition codex_normalize :: "json_parser \<Rightarrow> bytes \<Rightarrow> lifecycle_event provider_result" where
  "codex_normalize parse_json bytes =
     bind_result (ok_or (lit ''Codex lifecycle payload is not valid JSON'') (parse_json bytes)) (\<lambda>payload.
     bind_result (optional_id (str_field ''session_id'' payload)) (\<lambda>conversation.
     bind_result (optional_id (str_field ''turn_id'' payload)) (\<lambda>turn.
     bind_result (case str_field ''hook_event_name'' payload of
          None \<Rightarrow> Inl (lit ''Codex lifecycle event type is missing'')
        | Some name \<Rightarrow> codex_event payload conversation name) (\<lambda>e.
       Inr \<lparr>le_event = Some e, le_conversation = conversation, le_turn = map_option conversation_str turn\<rparr>))))"

section \<open>The registry\<close>

definition adapter_normalize :: "json_parser \<Rightarrow> adapter \<Rightarrow> bytes \<Rightarrow> lifecycle_event provider_result" where
  "adapter_normalize parse_json a bytes = (case a of
       ShellAdapter _ \<Rightarrow> Inr \<lparr>le_event = None, le_conversation = None, le_turn = None\<rparr>
     | ClaudeAdapter _ \<Rightarrow> claude_normalize parse_json bytes
     | CodexAdapter _ \<Rightarrow> codex_normalize parse_json bytes)"

definition normalize_lifecycle_event :: "json_parser \<Rightarrow> registry \<Rightarrow> normalizer" where
  "normalize_lifecycle_event parse_json reg k bytes = (case reg k of
       None \<Rightarrow> Inl (not_enabled k) | Some a \<Rightarrow> adapter_normalize parse_json a bytes)"

text \<open>The payload is wrapped only within its bound (\<open>ProviderLifecyclePayload::new\<close>).\<close>

definition lifecycle_payload_new :: "bytes \<Rightarrow> bytes provider_result" where
  "lifecycle_payload_new bytes =
     (if length bytes > MAX_PROVIDER_LIFECYCLE_PAYLOAD_SIZE
      then Inl (lit ''provider lifecycle payload is too large'') else Inr bytes)"

section \<open>Properties\<close>

text \<open>The shape of what an adapter returns: identifiers are valid, agents bounded, categories known.\<close>

definition bounded_id :: "provider_conversation_id \<Rightarrow> bool" where
  "bounded_id i \<longleftrightarrow> conversation_id_try_from (conversation_str i) = Inr i"

definition bounded_event :: "provider_event \<Rightarrow> bool" where
  "bounded_event e = (case e of
       TurnStarted (Some c) \<Rightarrow> bounded_id (conv_id c)
     | SubagentStarted a \<Rightarrow> length a \<le> 200
     | SubagentStopped a \<Rightarrow> length a \<le> 200
     | TurnFailed c \<Rightarrow> failure_category_try_from (category_str c) = Inr c
     | _ \<Rightarrow> True)"

definition bounded_lifecycle_event :: "lifecycle_event \<Rightarrow> bool" where
  "bounded_lifecycle_event n \<longleftrightarrow>
     (\<forall>e. le_event n = Some e \<longrightarrow> bounded_event e)
     \<and> (\<forall>i. le_conversation n = Some i \<longrightarrow> bounded_id i)
     \<and> (\<forall>t. le_turn n = Some t \<longrightarrow> bounded_id (ProviderConversationId t))"

lemma conversation_id_new_bounded: "conversation_id_new v = Inr i \<Longrightarrow> bounded_id i \<and> conversation_str i = v"
  by (auto simp: conversation_id_new_def bounded_id_def conversation_id_try_from_def split: if_splits)

lemma bounded_id_length: "bounded_id i \<Longrightarrow> length (conversation_str i) \<le> 200"
  using length_le_byte_len [of "conversation_str i"]
  by (auto simp: bounded_id_def conversation_id_try_from_def MAX_PROVIDER_CONVERSATION_ID_LENGTH_def
      split: if_splits)

lemma failure_category_stable: "failure_category_try_from v = Inr c \<Longrightarrow> failure_category_try_from (category_str c) = Inr c"
  by (auto simp: failure_category_try_from_def split: if_splits)

lemma claude_failure_category_stable:
  assumes "claude_failure_category payload = Inr c"
  shows "failure_category_try_from (category_str c) = Inr c"
proof -
  obtain category where "(case failure_category_try_from (if category \<in> set claude_failures then category else lit ''unknown'') of
           Inl _ \<Rightarrow> Inl (lit ''turn failure category must be a lowercase machine identifier'') | Inr c \<Rightarrow> Inr c)
      = (Inr c :: turn_failure_category provider_result)"
    using assms unfolding claude_failure_category_def by (elim bind_resultE)
  then have "failure_category_try_from (if category \<in> set claude_failures then category else lit ''unknown'') = Inr c"
    by (cases "failure_category_try_from (if category \<in> set claude_failures then category else lit ''unknown'')")
      (simp_all del: if_split)
  then show ?thesis by (rule failure_category_stable)
qed

lemma claude_event_bounded:
  assumes "claude_event payload conversation name = Inr e" "bounded_id conversation"
  shows "bounded_event e"
proof -
  have agent: "length a \<le> 200" if "claude_bounded_identifier payload ''agent_id'' = Inr a" for a
    using that conversation_id_new_bounded bounded_id_length
    by (auto simp: claude_bounded_identifier_def bind_result_eq_Inr)
  show ?thesis using assms agent claude_failure_category_stable
    by (auto simp: claude_event_def bounded_event_def bind_result_eq_Inr split: if_splits)
qed

lemma codex_event_bounded:
  assumes "codex_event payload conversation name = Inr e" "\<And>i. conversation = Some i \<Longrightarrow> bounded_id i"
  shows "bounded_event e"
  using assms
  by (auto simp: codex_event_def bounded_event_def bind_result_eq_Inr bounded_payload_field_def ok_or_def
      split: if_splits option.splits)

lemma optional_id_bounded: "optional_id v = Inr (Some i) \<Longrightarrow> bounded_id i"
  using conversation_id_new_bounded by (auto simp: optional_id_def bind_result_eq_Inr split: option.splits)

text \<open>whatever a hook sends, an event that an adapter makes of it carries valid identities, bounded
  agent names and known failure categories.\<close>

theorem normalized_events_are_bounded:
  assumes "normalize_lifecycle_event parse_json reg k bytes = Inr n"
  shows "bounded_lifecycle_event n"
proof -
  obtain a where a: "reg k = Some a" and n: "adapter_normalize parse_json a bytes = Inr n"
    using assms by (auto simp: normalize_lifecycle_event_def split: option.splits)
  show ?thesis
  proof (cases a)
    case (ShellAdapter x)
    then show ?thesis using n by (auto simp: adapter_normalize_def bounded_lifecycle_event_def)
  next
    case (ClaudeAdapter x)
    then obtain payload i conversation name e where
      "conversation_id_new i = Inr conversation" "claude_event payload conversation name = Inr e"
      "n = \<lparr>le_event = Some e, le_conversation = Some conversation, le_turn = None\<rparr>"
      using n by (auto simp: adapter_normalize_def claude_normalize_def bind_result_eq_Inr)
    then show ?thesis using conversation_id_new_bounded claude_event_bounded
      by (auto simp: bounded_lifecycle_event_def)
  next
    case (CodexAdapter x)
    then obtain payload conversation turn name e where
      c: "optional_id (str_field ''session_id'' payload) = Inr conversation"
      and t: "optional_id (str_field ''turn_id'' payload) = Inr turn"
      and e: "codex_event payload conversation name = Inr e"
      and n: "n = \<lparr>le_event = Some e, le_conversation = conversation, le_turn = map_option conversation_str turn\<rparr>"
      using n by (auto simp: adapter_normalize_def codex_normalize_def bind_result_eq_Inr split: option.splits)
    have "bounded_id i" if "conversation = Some i" for i
      using c that optional_id_bounded by simp
    then have "bounded_event e" using codex_event_bounded [OF e] by blast
    then show ?thesis using c t optional_id_bounded by (auto simp: n bounded_lifecycle_event_def)
  qed
qed

text \<open>Only three events make a Session wait for input, and the hooks of Codex yield none of them.\<close>

lemma activity_put [simp]: "st_activity (m_status (put_attention x m)) = st_activity (m_status m)"
  by (simp add: put_attention_def)

lemma set_attention_activity:
  "st_activity (m_status (snd (set_attention_condition r t b m))) = st_activity (m_status m)"
  by (auto simp: set_attention_condition_def split: option.splits sum.splits)

lemma live_condition_snd_activity:
  "st_activity (m_status (snd (set_live_condition a r t m))) = a"
proof -
  have "st_activity (m_status (snd (and_then r (\<lambda>_ m. validated m)))) = st_activity (m_status (snd r))"
    for r :: "unit machine_result"
    by (cases r; cases "fst r") (auto simp: and_then_def validated_def split: sum.splits)
  then show ?thesis
    by (simp add: set_live_condition_def Let_def set_attention_def set_attention_activity
        resolve_attention_def set_activity_def split: option.split)
qed

lemma only_requests_await_input:
  assumes "e \<notin> {PermissionRequested, UserInputRequested, InputRequestOpened}"
    and "st_activity (m_status (snd (apply_event e t m))) = AwaitingInput"
  shows "st_activity (m_status m) = AwaitingInput"
proof (rule ccontr)
  assume waiting: "st_activity (m_status m) \<noteq> AwaitingInput"
  let ?m = "set_lifecycle Running m"
  have start: "st_activity (m_status (start_subagent x k)) = st_activity (m_status k)" for x k
    by (simp add: start_subagent_def)
  have running: "st_activity (m_status ?m) \<noteq> AwaitingInput"
    using waiting by (simp add: set_lifecycle_def)
  have "snd (and_then r (\<lambda>_ m1. (Inr (transition m1), m1))) = snd r" for r :: "unit machine_result"
    by (cases r; cases "fst r") (auto simp: and_then_def split: sum.splits)
  then have "snd (apply_event e t m) = (if st_lifecycle (m_status m) \<in> {Exited, Failed, Terminated, Disconnected}
      then m else snd (apply_live e t ?m))"
    by (simp add: apply_event_def)
  then have live: "st_activity (m_status (snd (apply_live e t ?m))) = AwaitingInput"
    using assms(2) waiting by (simp split: if_splits)
  have validated: "st_activity (m_status (snd (and_then r (\<lambda>_ m. validated m)))) = st_activity (m_status (snd r))"
    for r :: "unit machine_result"
    by (cases r; cases "fst r") (auto simp: and_then_def validated_def split: sum.splits)
  show False
  proof (cases e)
    case (TurnFailed category)
    then show ?thesis using live
      by (simp add: Let_def validated set_attention_activity set_activity_def)
  qed (use live running assms(1) in
      \<open>auto simp: live_condition_snd_activity start Let_def split: if_splits\<close>)
qed

lemma codex_event_no_request:
  "codex_event payload conversation name \<noteq> Inr PermissionRequested"
  "codex_event payload conversation name \<noteq> Inr UserInputRequested"
  "codex_event payload conversation name \<noteq> Inr InputRequestOpened"
  by (auto simp: codex_event_def bind_result_eq_Inr split: if_splits)

text \<open>No hook of Codex makes a Session wait for input, whatever its payload: only the structured
  transport of the Session does.\<close>

theorem codex_hooks_never_await_input:
  assumes "codex_normalize parse_json bytes = Inr n" and "le_event n = Some e"
    and "st_activity (m_status m) \<noteq> AwaitingInput"
  shows "st_activity (m_status (snd (apply_event e t m))) \<noteq> AwaitingInput"
proof -
  have "e \<notin> {PermissionRequested, UserInputRequested, InputRequestOpened}"
    using assms(1,2)
    by (auto simp: codex_normalize_def bind_result_eq_Inr codex_event_no_request split: option.splits)
  then show ?thesis using only_requests_await_input assms(3) by blast
qed

definition sample_payload :: json where
  "sample_payload = JObject [(lit ''hook_event_name'', JString (lit ''PermissionRequest'')),
     (lit ''session_id'', JString (lit ''c1''))]"

definition sample_codex_event :: lifecycle_event where
  "sample_codex_event = \<lparr>le_event = Some PermissionCheckStarted,
     le_conversation = Some (ProviderConversationId (lit ''c1'')), le_turn = None\<rparr>"

lemma sample_codex_normalized: "codex_normalize (\<lambda>_. Some sample_payload) [] = Inr sample_codex_event"
  by (simp add: codex_normalize_def codex_event_def sample_payload_def sample_codex_event_def ok_or_def
      str_field_def json_get_def json_str_def optional_id_def conversation_id_new_def
      conversation_id_try_from_def lit_def utf8_width_def char_class_defs
      MAX_PROVIDER_CONVERSATION_ID_LENGTH_def)

theorem normalized_events_are_bounded_witness:
  "bounded_lifecycle_event sample_codex_event \<and> le_event sample_codex_event = Some PermissionCheckStarted"
proof -
  have "normalize_lifecycle_event (\<lambda>_. Some sample_payload) (\<lambda>_. Some (CodexAdapter undefined)) Codex []
      = Inr sample_codex_event"
    using sample_codex_normalized by (simp add: normalize_lifecycle_event_def adapter_normalize_def)
  from normalized_events_are_bounded [OF this] show ?thesis by (simp add: sample_codex_event_def)
qed

theorem codex_hooks_never_await_input_witness:
  "st_activity (m_status (snd (apply_event PermissionCheckStarted 1 (machine_new Running)))) \<noteq> AwaitingInput"
proof -
  have "le_event sample_codex_event = Some PermissionCheckStarted" by (simp add: sample_codex_event_def)
  moreover have "st_activity (m_status (machine_new Running)) \<noteq> AwaitingInput" by (simp add: machine_new_def default_status_def)
  ultimately show ?thesis by (rule codex_hooks_never_await_input [OF sample_codex_normalized])
qed

end
