(* ===== verification/Codex_Bridge.thy ===== *)
theory Codex_Bridge
  imports Provider_Events
begin

text \<open>
  \<open>crates/sylvops-daemon/src/codex_bridge.rs\<close>: the relay between the terminal of a structured Codex
  Session and its app server. \<open>InputTracker\<close> reads every message that passes and turns requests for
  input into the events of the status machine; terminal text is never looked at. The transport
  itself (sockets, pipes, timeouts) is not modelled: a step is a whole message in either direction.
\<close>

section \<open>Identifiers\<close>

definition REQUEST_LIMIT :: nat where "REQUEST_LIMIT = 128"
definition REQUEST_ID_LIMIT :: nat where "REQUEST_ID_LIMIT = 4096"

text \<open>Every refusal is the same error.\<close>

datatype refusal = Refused

definition bounded_id :: "json \<Rightarrow> refusal + str" where
  "bounded_id v = (case json_str v of
       None \<Rightarrow> Inl Refused
     | Some s \<Rightarrow> if s = [] \<or> byte_len s > 256 \<or> list_ex is_control s then Inl Refused else Inr s)"

text \<open>A request is known by its identifier written as JSON. Texts and integers are written differently
  and injectively, so the key is the identifier itself.\<close>

definition request_key :: "json \<Rightarrow> refusal + json" where
  "request_key v = (case v of
       JString _ \<Rightarrow> bind_result (bounded_id v) (\<lambda>_. Inr v)
     | JNumber _ \<Rightarrow> Inr v
     | _ \<Rightarrow> Inl Refused)"

section \<open>The tracker\<close>

record input_tracker =
  tr_conversation :: "provider_conversation_id option"
  tr_turn :: "str option"
  tr_pending :: "json set"
  tr_seen_requests :: "json set"
  tr_thread_requests :: "json set"
  tr_question :: "str option"
  tr_pause_request :: "json option"
  tr_pause_id :: "str option"
  tr_pause_sequence :: u64
  tr_answer_request :: "json option"
  tr_question_turn_finished :: bool

definition tracker_default :: input_tracker where
  "tracker_default = \<lparr>tr_conversation = None, tr_turn = None, tr_pending = {}, tr_seen_requests = {},
     tr_thread_requests = {}, tr_question = None, tr_pause_request = None, tr_pause_id = None,
     tr_pause_sequence = 0, tr_answer_request = None, tr_question_turn_finished = False\<rparr>"

type_synonym 'a tracked = "(refusal + 'a) \<times> input_tracker"

definition PAUSE_PREFIX :: str where "PAUSE_PREFIX = lit ''sylvops-input-pause-''"

definition method_of :: "json \<Rightarrow> str option" where
  "method_of message = json_str (json_index message ''method'')"

definition params_of :: "json \<Rightarrow> json" where
  "params_of message = json_index message ''params''"

text \<open>What the terminal sends. A refused message is not forwarded.\<close>

definition starts_work :: "str option \<Rightarrow> bool" where
  "starts_work m \<longleftrightarrow> m \<in> Some ` lit ` {''turn/start'', ''turn/steer'', ''thread/resume'', ''thread/fork''}"

definition answer_question :: "json \<Rightarrow> input_tracker \<Rightarrow> unit tracked" where
  "answer_question message t =
     (if tr_question t \<noteq> None \<and> method_of message = Some (lit ''turn/start'') then
        (case json_array (json_index (params_of message) ''input'') of
           None \<Rightarrow> (Inl Refused, t)
         | Some input \<Rightarrow>
             if input = [] then (Inl Refused, t)
             else case request_key (json_index message ''id'') of
                    Inl e \<Rightarrow> (Inl e, t) | Inr k \<Rightarrow> (Inr (), t\<lparr>tr_answer_request := Some k\<rparr>))
      else (Inr (), t))"

definition note_thread_request :: "json \<Rightarrow> input_tracker \<Rightarrow> unit tracked" where
  "note_thread_request message t =
     (if json_index (params_of message) ''ephemeral'' \<noteq> JBool True
         \<and> method_of message \<in> {Some (lit ''thread/start''), Some (lit ''thread/resume'')} then
        if REQUEST_LIMIT \<le> card (tr_thread_requests t) then (Inl Refused, t)
        else case request_key (json_index message ''id'') of
               Inl e \<Rightarrow> (Inl e, t)
             | Inr k \<Rightarrow> (Inr (), t\<lparr>tr_thread_requests := insert k (tr_thread_requests t)\<rparr>)
      else (Inr (), t))"

definition client_message :: "json \<Rightarrow> input_tracker \<Rightarrow> unit tracked" where
  "client_message message t =
     (if (case json_str (json_index message ''id'') of None \<Rightarrow> False | Some i \<Rightarrow> starts_with PAUSE_PREFIX i)
      then (Inl Refused, t)
      else if tr_pending t \<noteq> {} \<and> starts_work (method_of message) then (Inl Refused, t)
      else and_then (answer_question message t) (\<lambda>_. note_thread_request message))"

text \<open>The answer to the interrupt the daemon sent itself is not forwarded.\<close>

definition consume_private_response :: "json \<Rightarrow> input_tracker \<Rightarrow> refusal + bool" where
  "consume_private_response message t =
     (if (case tr_pause_id t of None \<Rightarrow> False | Some i \<Rightarrow> json_str (json_index message ''id'') = Some i)
      then if json_get ''error'' message \<noteq> None \<and> \<not> tr_question_turn_finished t then Inl Refused else Inr True
      else Inr False)"

definition tracker_event :: "provider_event \<Rightarrow> input_tracker \<Rightarrow> lifecycle_event" where
  "tracker_event e t = \<lparr>le_event = Some e, le_conversation = tr_conversation t, le_turn = tr_turn t\<rparr>"

definition bind_conversation :: "json \<Rightarrow> input_tracker \<Rightarrow> lifecycle_event list tracked" where
  "bind_conversation identity t = (case json_str identity of
       None \<Rightarrow> (Inl Refused, t)
     | Some s \<Rightarrow> (case conversation_id_try_from s of
           Inl _ \<Rightarrow> (Inl Refused, t)
         | Inr i \<Rightarrow> (case tr_conversation t of
               Some current \<Rightarrow> if current = i then (Inr [], t) else (Inl Refused, t)
             | None \<Rightarrow> (let t = t\<lparr>tr_conversation := Some i\<rparr>
                 in (Inr [tracker_event (TurnStarted (Some \<lparr>conv_id = i, conv_transition = Established\<rparr>)) t], t)))))"

text \<open>The arms of \<open>server_message\<close> for the conversation of the Session.\<close>

definition turn_started :: "json \<Rightarrow> input_tracker \<Rightarrow> lifecycle_event list tracked" where
  "turn_started params t =
     (let turn = bounded_id (json_index (json_index params ''turn'') ''id'') in
      if tr_pending t \<noteq> {} then (Inl Refused, t)
      else if tr_question t \<noteq> None then
        (if tr_answer_request t = None then (Inl Refused, t)
         else
           let t = t\<lparr>tr_answer_request := None, tr_question := None, tr_pause_id := None,
                 tr_question_turn_finished := False\<rparr>
           in case turn of
                Inl e \<Rightarrow> (Inl e, t)
              | Inr i \<Rightarrow> (let t = t\<lparr>tr_turn := Some i\<rparr>
                  in (Inr [tracker_event InputRequestsResolved t, tracker_event PromptSubmitted t], t)))
      else case turn of
             Inl e \<Rightarrow> (Inl e, t)
           | Inr i \<Rightarrow> (let t = t\<lparr>tr_turn := Some i\<rparr> in (Inr [tracker_event PromptSubmitted t], t)))"

definition ELICITATION :: str where "ELICITATION = lit ''mcpServer/elicitation/request''"

definition input_methods :: "str list" where
  "input_methods = map lit [''item/commandExecution/requestApproval'', ''item/fileChange/requestApproval'',
     ''item/permissions/requestApproval'', ''item/tool/requestUserInput''] @ [ELICITATION]"

definition input_requested :: "str \<Rightarrow> json \<Rightarrow> input_tracker \<Rightarrow> lifecycle_event list tracked" where
  "input_requested verb message t =
     (if verb \<noteq> ELICITATION \<and> tr_turn t = None then (Inl Refused, t)
      else if (case json_str (json_index (params_of message) ''turnId'') of
                 None \<Rightarrow> False | Some i \<Rightarrow> tr_turn t \<noteq> Some i) then (Inl Refused, t)
      else case request_key (json_index message ''id'') of
        Inl e \<Rightarrow> (Inl e, t)
      | Inr k \<Rightarrow>
          if k \<in> tr_pending t then (Inr [], t)
          else if REQUEST_ID_LIMIT \<le> card (tr_seen_requests t) \<or> k \<in> tr_seen_requests t then (Inl Refused, t)
          else
            let t = t\<lparr>tr_seen_requests := insert k (tr_seen_requests t)\<rparr>
            in if REQUEST_LIMIT \<le> card (tr_pending t) then (Inl Refused, t)
               else let t = t\<lparr>tr_pending := insert k (tr_pending t)\<rparr>
                    in (Inr [tracker_event InputRequestOpened t], t))"

definition request_resolved :: "json \<Rightarrow> input_tracker \<Rightarrow> lifecycle_event list tracked" where
  "request_resolved params t = (case request_key (json_index params ''requestId'') of
       Inl e \<Rightarrow> (Inl e, t)
     | Inr k \<Rightarrow>
         (let t1 = t\<lparr>tr_pending := tr_pending t - {k}\<rparr>
          in (Inr (if k \<in> tr_pending t \<and> tr_pending t1 = {} \<and> tr_question t = None
                   then [tracker_event InputRequestsResolved t1] else []), t1)))"

definition turn_completed :: "json \<Rightarrow> input_tracker \<Rightarrow> lifecycle_event list tracked" where
  "turn_completed params t =
     (let turn = json_index params ''turn''; status = json_str (json_index turn ''status'') in
      if tr_turn t \<noteq> json_str (json_index turn ''id'') then (Inr [], t)
      else
        let t = t\<lparr>tr_pending := {}\<rparr>
        in if tr_question t \<noteq> None \<and> status \<in> {Some (lit ''completed''), Some (lit ''interrupted'')}
           then (Inr [], t\<lparr>tr_question_turn_finished := True\<rparr>)
           else
             let t = t\<lparr>tr_question := None\<rparr>
             in if status = Some (lit ''completed'')
                then (Inr [tracker_event (TurnStopped no_remaining_work) t], t)
                else if status = Some (lit ''interrupted'') then (Inr [tracker_event TurnInterrupted t], t)
                else if status = Some (lit ''failed'')
                then (case failure_category_try_from (lit ''provider_unavailable'') of
                        Inl _ \<Rightarrow> (Inl Refused, t) | Inr c \<Rightarrow> (Inr [tracker_event (TurnFailed c) t], t))
                else (Inl Refused, t))"

definition asks_question :: "json \<Rightarrow> bool" where
  "asks_question params \<longleftrightarrow>
     (let item = json_index params ''item''
      in json_index item ''type'' = JString (lit ''agentMessage'')
         \<and> json_index item ''delivery'' = JString (lit ''async'')
         \<and> (case json_array (json_index item ''questions'') of None \<Rightarrow> False | Some qs \<Rightarrow> qs \<noteq> []))"

definition pause_message :: "str \<Rightarrow> provider_conversation_id \<Rightarrow> str \<Rightarrow> json" where
  "pause_message i conversation turn = JObject [(lit ''id'', JString i),
     (lit ''method'', JString (lit ''turn/interrupt'')),
     (lit ''params'', JObject [(lit ''threadId'', JString (conversation_str conversation)),
        (lit ''turnId'', JString turn)])]"

definition question_asked ::
    "provider_conversation_id \<Rightarrow> json \<Rightarrow> input_tracker \<Rightarrow> lifecycle_event list tracked" where
  "question_asked conversation params t =
     (case bounded_id (json_index (json_index params ''item'') ''id'') of
        Inl e \<Rightarrow> (Inl e, t)
      | Inr item \<Rightarrow>
          if tr_question t = Some item then (Inr [], t)
          else if tr_question t \<noteq> None then (Inl Refused, t)
          else case tr_turn t of
            None \<Rightarrow> (Inl Refused, t)
          | Some turn \<Rightarrow>
              if json_str (json_index params ''turnId'') \<noteq> Some turn then (Inl Refused, t)
              else case checked_add (tr_pause_sequence t) 1 of
                None \<Rightarrow> (Inl Refused, t)
              | Some n \<Rightarrow>
                  let i = PAUSE_PREFIX @ decimal (unat n);
                      t = t\<lparr>tr_pause_sequence := n, tr_pause_request := Some (pause_message i conversation turn),
                            tr_pause_id := Some i, tr_question := Some item, tr_question_turn_finished := False\<rparr>
                  in (Inr [tracker_event InputRequestOpened t], t))"

text \<open>A request that no arm understands is refused; a notification is passed on.\<close>

definition is_request :: "json \<Rightarrow> str \<Rightarrow> bool" where
  "is_request message verb \<longleftrightarrow> json_get ''id'' message \<noteq> None \<and> verb \<noteq> []"

definition unrelated :: "json \<Rightarrow> str \<Rightarrow> input_tracker \<Rightarrow> lifecycle_event list tracked" where
  "unrelated message verb t = (if is_request message verb then (Inl Refused, t) else (Inr [], t))"

definition conversation_message ::
    "provider_conversation_id \<Rightarrow> str \<Rightarrow> json \<Rightarrow> input_tracker \<Rightarrow> lifecycle_event list tracked" where
  "conversation_message conversation verb message t =
     (let params = params_of message in
      if verb = lit ''turn/started'' then turn_started params t
      else if verb \<in> set input_methods then input_requested verb message t
      else if verb = lit ''serverRequest/resolved'' then request_resolved params t
      else if verb = lit ''turn/completed'' then turn_completed params t
      else if verb = lit ''item/completed'' \<and> asks_question params then question_asked conversation params t
      else unrelated message verb t)"

definition other_message :: "json \<Rightarrow> input_tracker \<Rightarrow> lifecycle_event list tracked" where
  "other_message message t =
     (let verb = (case method_of message of None \<Rightarrow> [] | Some m \<Rightarrow> m) in
      if verb = lit ''thread/started'' then (Inr [], t)
      else case tr_conversation t of
             None \<Rightarrow> unrelated message verb t
           | Some conversation \<Rightarrow>
               if json_str (json_index (params_of message) ''threadId'') \<noteq> Some (conversation_str conversation)
               then unrelated message verb t
               else conversation_message conversation verb message t)"

definition server_message :: "json \<Rightarrow> input_tracker \<Rightarrow> lifecycle_event list tracked" where
  "server_message message t =
     (let thread = json_index (json_index (json_index message ''result'') ''thread'') ''id''
      in if json_get ''id'' message \<noteq> None \<and> json_get ''method'' message = None then
           (case request_key (json_index message ''id'') of
              Inl e \<Rightarrow> (Inl e, t)
            | Inr k \<Rightarrow>
                let known = k \<in> tr_thread_requests t;
                    t = t\<lparr>tr_thread_requests := tr_thread_requests t - {k}\<rparr>
                in if known \<and> thread \<noteq> JNull then bind_conversation thread t else other_message message t)
         else other_message message t)"

section \<open>The relay\<close>

text \<open>The loop of \<open>forward\<close> on whole messages: what it writes to the app server and to the terminal,
  and the events it sends, until it ends. A message of the terminal is forwarded as it is.\<close>

record relay =
  ry_tracker :: input_tracker
  ry_to_backend :: "json list"
  ry_to_terminal :: "json list"
  ry_events :: "lifecycle_event list"
  ry_ended :: bool

definition relay_start :: relay where
  "relay_start = \<lparr>ry_tracker = tracker_default, ry_to_backend = [], ry_to_terminal = [], ry_events = [],
     ry_ended = False\<rparr>"

definition waiting_response :: "json \<Rightarrow> json" where
  "waiting_response i = JObject [(lit ''id'', i), (lit ''error'', JObject [(lit ''code'', JNumber (- 32000)),
     (lit ''message'', JString (lit ''The Session is waiting for an answer. Respond to the open prompt before starting other work.''))])]"

definition terminal_message :: "json \<Rightarrow> relay \<Rightarrow> relay" where
  "terminal_message value r =
     (if ry_ended r then r
      else case client_message value (ry_tracker r) of
        (Inl _, t) \<Rightarrow> (case json_get ''id'' value of
             None \<Rightarrow> r\<lparr>ry_ended := True\<rparr>
           | Some i \<Rightarrow> r\<lparr>ry_tracker := t, ry_to_terminal := ry_to_terminal r @ [waiting_response i]\<rparr>)
      | (Inr _, t) \<Rightarrow> r\<lparr>ry_tracker := t, ry_to_backend := ry_to_backend r @ [value]\<rparr>)"

text \<open>A request for user input is made blocking. Assigning a member of parameters that are neither an
  object nor missing panics, which ends the task of the relay.\<close>

definition make_blocking :: "json \<Rightarrow> json option" where
  "make_blocking value =
     (if json_index value ''method'' = JString (lit ''item/tool/requestUserInput'') then
        (case json_index value ''params'' of
           JObject members \<Rightarrow> Some (json_put ''params'' (json_put ''isBlocking'' (JBool True)
               (json_put ''autoResolutionMs'' JNull (JObject members))) value)
         | JNull \<Rightarrow> Some (json_put ''params'' (json_put ''isBlocking'' (JBool True)
               (json_put ''autoResolutionMs'' JNull JNull)) value)
         | _ \<Rightarrow> None)
      else Some value)"

definition backend_message :: "json \<Rightarrow> relay \<Rightarrow> relay" where
  "backend_message value r =
     (if ry_ended r then r
      else case consume_private_response value (ry_tracker r) of
        Inl _ \<Rightarrow> r\<lparr>ry_ended := True\<rparr>
      | Inr private \<Rightarrow>
      if private then r
      else case server_message value (ry_tracker r) of
        (Inl _, t) \<Rightarrow> r\<lparr>ry_tracker := t, ry_ended := True\<rparr>
      | (Inr events, t) \<Rightarrow>
          let pause = (case tr_pause_request t of None \<Rightarrow> [] | Some p \<Rightarrow> [p]);
              r = r\<lparr>ry_tracker := t\<lparr>tr_pause_request := None\<rparr>, ry_events := ry_events r @ events,
                    ry_to_backend := ry_to_backend r @ pause\<rparr>
          in case make_blocking value of
               None \<Rightarrow> r\<lparr>ry_ended := True\<rparr>
             | Some sent \<Rightarrow> r\<lparr>ry_to_terminal := ry_to_terminal r @ [sent]\<rparr>)"

section \<open>The Session behind the relay\<close>

text \<open>The events of the relay wait in their channel until the daemon applies them
  (\<open>apply_runtime_event\<close>); the first that is refused ends the consumer. The hooks of the same Session
  are applied in between; while the Session waits for input, those that are not about subagents are
  dropped (\<open>apply_hook_delivery\<close>). A refused event leaves the status machine as it was.\<close>

record link =
  lk_relay :: relay
  lk_machine :: status_machine
  lk_stopped :: bool

datatype link_input =
    FromTerminal json
  | FromAppServer json
  | EventDelivered int
  | HookDelivered bytes int

definition link_start :: "status_machine \<Rightarrow> link" where
  "link_start m = \<lparr>lk_relay = relay_start, lk_machine = m, lk_stopped = False\<rparr>"

definition deliver_event :: "int \<Rightarrow> link \<Rightarrow> link" where
  "deliver_event now s =
     (if lk_stopped s then s
      else case ry_events (lk_relay s) of
        [] \<Rightarrow> s
      | n # rest \<Rightarrow>
          let s = s\<lparr>lk_relay := (lk_relay s)\<lparr>ry_events := rest\<rparr>\<rparr>
          in case le_event n of
               None \<Rightarrow> s\<lparr>lk_stopped := True\<rparr>
             | Some e \<Rightarrow> (case apply_event e now (lk_machine s) of
                   (Inl _, _) \<Rightarrow> s\<lparr>lk_stopped := True\<rparr>
                 | (Inr _, m) \<Rightarrow> s\<lparr>lk_machine := m\<rparr>))"

definition deliver_hook :: "json_parser \<Rightarrow> bytes \<Rightarrow> int \<Rightarrow> link \<Rightarrow> link" where
  "deliver_hook parse_json payload now s = (case codex_normalize parse_json payload of
       Inl _ \<Rightarrow> s
     | Inr n \<Rightarrow> (case le_event n of
           None \<Rightarrow> s
         | Some e \<Rightarrow>
             if st_activity (m_status (lk_machine s)) = AwaitingInput \<and> \<not> is_subagent_event e then s
             else case apply_event e now (lk_machine s) of
                    (Inl _, _) \<Rightarrow> s | (Inr _, m) \<Rightarrow> s\<lparr>lk_machine := m\<rparr>))"

primrec link_step :: "json_parser \<Rightarrow> link_input \<Rightarrow> link \<Rightarrow> link" where
  "link_step parse_json (FromTerminal v) s = s\<lparr>lk_relay := terminal_message v (lk_relay s)\<rparr>"
| "link_step parse_json (FromAppServer v) s = s\<lparr>lk_relay := backend_message v (lk_relay s)\<rparr>"
| "link_step parse_json (EventDelivered now) s = deliver_event now s"
| "link_step parse_json (HookDelivered payload now) s = deliver_hook parse_json payload now s"

definition link_run :: "json_parser \<Rightarrow> link_input list \<Rightarrow> link \<Rightarrow> link" where
  "link_run parse_json xs s = fold (link_step parse_json) xs s"

section \<open>The tracker\<close>

definition tracker_waiting :: "input_tracker \<Rightarrow> bool" where
  "tracker_waiting t \<longleftrightarrow> tr_pending t \<noteq> {} \<or> tr_question t \<noteq> None"

definition tracker_inv :: "input_tracker \<Rightarrow> bool" where
  "tracker_inv t \<longleftrightarrow>
     (tr_conversation t = None \<longrightarrow> \<not> tracker_waiting t)
     \<and> finite (tr_seen_requests t) \<and> card (tr_seen_requests t) \<le> REQUEST_ID_LIMIT
     \<and> tr_pending t \<subseteq> tr_seen_requests t \<and> card (tr_pending t) \<le> REQUEST_LIMIT
     \<and> finite (tr_thread_requests t) \<and> card (tr_thread_requests t) \<le> REQUEST_LIMIT"

definition transport_event :: "provider_event \<Rightarrow> bool" where
  "transport_event e = (case e of
       InputRequestOpened \<Rightarrow> True | InputRequestsResolved \<Rightarrow> True | PromptSubmitted \<Rightarrow> True | TurnStarted _ \<Rightarrow> True
     | TurnStopped _ \<Rightarrow> True | TurnInterrupted \<Rightarrow> True | TurnFailed _ \<Rightarrow> True | _ \<Rightarrow> False)"

definition opens :: "lifecycle_event \<Rightarrow> bool" where
  "opens n \<longleftrightarrow> le_event n = Some InputRequestOpened"

definition from_transport :: "lifecycle_event \<Rightarrow> bool" where
  "from_transport n \<longleftrightarrow> (case le_event n of None \<Rightarrow> False | Some e \<Rightarrow> transport_event e)"

text \<open>The last of the events says whether the Session waits; without one, nothing changed.\<close>

definition settled_by :: "bool \<Rightarrow> lifecycle_event list \<Rightarrow> bool" where
  "settled_by w events = (if events = [] then w else opens (last events))"

lemma settled_by_Nil [simp]: "settled_by w [] = w"
  by (simp add: settled_by_def)

definition tracks_input :: "input_tracker \<Rightarrow> lifecycle_event list tracked \<Rightarrow> bool" where
  "tracks_input t r \<longleftrightarrow> tracker_inv (snd r)
     \<and> (\<forall>events. fst r = Inr events \<longrightarrow> tracker_waiting (snd r) = settled_by (tracker_waiting t) events
          \<and> list_all from_transport events)"

lemma tracks_refused [simp]: "tracks_input t (Inl e, t') = tracker_inv t'"
  by (simp add: tracks_input_def)

lemma tracks_accepted [simp]:
  "tracks_input t (Inr events, t') \<longleftrightarrow> tracker_inv t' \<and> tracker_waiting t' = settled_by (tracker_waiting t) events
     \<and> list_all from_transport events"
  by (simp add: tracks_input_def)

lemmas tracking = settled_by_def opens_def from_transport_def transport_event_def tracker_event_def tracker_waiting_def

lemma tracker_inv_update [simp]:
  "tracker_inv (t\<lparr>tr_turn := a\<rparr>) = tracker_inv t"
  "tracker_inv (t\<lparr>tr_answer_request := c\<rparr>) = tracker_inv t"
  "tracker_inv (t\<lparr>tr_pause_id := i\<rparr>) = tracker_inv t"
  "tracker_inv (t\<lparr>tr_pause_request := p\<rparr>) = tracker_inv t"
  "tracker_inv (t\<lparr>tr_pause_sequence := n\<rparr>) = tracker_inv t"
  "tracker_inv (t\<lparr>tr_question_turn_finished := b\<rparr>) = tracker_inv t"
  by (simp_all add: tracker_inv_def tracker_waiting_def)

lemma tracker_inv_fewer:
  assumes "tracker_inv t"
  shows "tracker_inv (t\<lparr>tr_pending := tr_pending t - {k}\<rparr>)" "tracker_inv (t\<lparr>tr_pending := {}\<rparr>)"
    "tracker_inv (t\<lparr>tr_question := None\<rparr>)" "tracker_inv (t\<lparr>tr_thread_requests := tr_thread_requests t - {k}\<rparr>)"
    "tracker_inv (t\<lparr>tr_conversation := Some i\<rparr>)"
proof -
  have fin: "finite (tr_pending t)" "finite (tr_thread_requests t)"
    using assms finite_subset by (auto simp: tracker_inv_def)
  then have "card (tr_pending t - {k}) \<le> card (tr_pending t)"
      "card (tr_thread_requests t - {k}) \<le> card (tr_thread_requests t)"
    by (simp_all add: card_Diff1_le)
  then show "tracker_inv (t\<lparr>tr_pending := tr_pending t - {k}\<rparr>)" "tracker_inv (t\<lparr>tr_pending := {}\<rparr>)"
    "tracker_inv (t\<lparr>tr_question := None\<rparr>)" "tracker_inv (t\<lparr>tr_thread_requests := tr_thread_requests t - {k}\<rparr>)"
    "tracker_inv (t\<lparr>tr_conversation := Some i\<rparr>)"
    using assms by (auto simp: tracker_inv_def tracker_waiting_def)
qed

lemma bind_conversation_tracks: "tracker_inv t \<Longrightarrow> tracks_input t (bind_conversation v t)"
  using tracker_inv_fewer(5)
  by (auto simp: bind_conversation_def Let_def tracking tracker_inv_def split: option.split sum.split)

lemma turn_started_tracks: "tracker_inv t \<Longrightarrow> tracks_input t (turn_started params t)"
  using tracker_inv_fewer(3) [of t]
  by (auto simp: turn_started_def Let_def tracking tracker_inv_def split: option.split sum.split)

lemma input_requested_tracks:
  assumes "tracker_inv t" "tr_conversation t \<noteq> None"
  shows "tracks_input t (input_requested verb message t)"
proof -
  have "finite (tr_pending t)" using assms(1) finite_subset by (auto simp: tracker_inv_def)
  then show ?thesis using assms
    by (auto simp: input_requested_def Let_def tracking tracker_inv_def card_insert_if not_le
        split: option.split sum.split)
qed

lemma request_resolved_tracks: "tracker_inv t \<Longrightarrow> tracks_input t (request_resolved params t)"
  using tracker_inv_fewer(1) [of t]
  by (auto simp: request_resolved_def Let_def tracking split: sum.split)

lemma turn_completed_tracks:
  assumes "tracker_inv t" shows "tracks_input t (turn_completed params t)"
proof -
  have "tracker_inv (t\<lparr>tr_pending := {}\<rparr>)" "tracker_inv (t\<lparr>tr_pending := {}, tr_question := None\<rparr>)"
    using assms tracker_inv_fewer(2) tracker_inv_fewer(3) [of "t\<lparr>tr_pending := {}\<rparr>"] by simp_all
  then show ?thesis using assms
    by (auto simp: turn_completed_def Let_def tracking split: sum.split)
qed

lemma question_asked_tracks:
  assumes "tracker_inv t" "tr_conversation t \<noteq> None"
  shows "tracks_input t (question_asked conversation params t)"
  using assms
  by (auto simp: question_asked_def Let_def tracking tracker_inv_def split: option.split sum.split)

lemma unrelated_tracks: "tracker_inv t \<Longrightarrow> tracks_input t (unrelated message verb t)"
  by (simp add: unrelated_def tracking)

lemma server_message_tracks:
  assumes "tracker_inv t" shows "tracks_input t (server_message message t)"
proof -
  have arms: "tracks_input t (conversation_message c verb message t)"
    if "tracker_inv t" "tr_conversation t \<noteq> None" for t c verb
    using that turn_started_tracks input_requested_tracks request_resolved_tracks turn_completed_tracks
      question_asked_tracks unrelated_tracks
    by (simp add: conversation_message_def Let_def)
  have other: "tracks_input t (other_message message t)" if "tracker_inv t" for t
    using that arms [of t] unrelated_tracks [of t]
    by (simp add: other_message_def Let_def split: option.split)
  have fewer: "tracks_input t r" if "tracks_input (t\<lparr>tr_thread_requests := x\<rparr>) r" for x r
    using that by (simp add: tracks_input_def tracker_waiting_def)
  show ?thesis
    using assms other [OF assms] fewer [OF other [OF tracker_inv_fewer(4) [OF assms]]]
      fewer [OF bind_conversation_tracks [OF tracker_inv_fewer(4) [OF assms]]]
    by (simp add: server_message_def Let_def split: sum.split)
qed

lemma client_message_keeps:
  assumes "tracker_inv t"
  shows "tracker_inv (snd (client_message message t)) \<and> tracker_waiting (snd (client_message message t)) = tracker_waiting t"
proof -
  have answer: "tracker_inv (snd (answer_question message t)) \<and> tracker_waiting (snd (answer_question message t)) = tracker_waiting t"
    using assms by (auto simp: answer_question_def tracker_waiting_def split: option.split sum.split)
  have noted: "tracker_inv (snd (note_thread_request message t)) \<and> tracker_waiting (snd (note_thread_request message t)) = tracker_waiting t"
    if "tracker_inv t" for t
    using that by (auto simp: note_thread_request_def tracker_inv_def tracker_waiting_def card_insert_if not_le
        split: sum.split)
  show ?thesis
    using assms answer noted [of "snd (answer_question message t)"]
    by (auto simp: client_message_def and_then_def split: prod.splits sum.splits)
qed

section \<open>The status of the Session\<close>

definition awaits_input :: "status_machine \<Rightarrow> bool" where
  "awaits_input m \<longleftrightarrow> st_activity (m_status m) = AwaitingInput"

definition live_machine :: "status_machine \<Rightarrow> bool" where
  "live_machine m \<longleftrightarrow> st_lifecycle (m_status m) \<notin> {Exited, Failed, Terminated, Disconnected}"

lemma snd_validated: "snd (and_then r (\<lambda>_ m. validated m)) = snd r" for r :: "unit machine_result"
  by (cases r; cases "fst r") (auto simp: and_then_def validated_def)

lemma put_attention_lifecycle [simp]: "st_lifecycle (m_status (put_attention x m)) = st_lifecycle (m_status m)"
  by (simp add: put_attention_def)

lemma set_attention_lifecycle [simp]:
  "st_lifecycle (m_status (snd (set_attention_condition r t b m))) = st_lifecycle (m_status m)"
  by (auto simp: set_attention_condition_def split: option.splits sum.splits)

lemma set_live_condition_lifecycle [simp]:
  "st_lifecycle (m_status (snd (set_live_condition a r t m))) = st_lifecycle (m_status m)"
  by (simp add: set_live_condition_def Let_def snd_validated set_attention_def resolve_attention_def
      set_activity_def split: option.split)

lemma renew_input_status [simp]:
  "st_lifecycle (m_status (snd (renew_input_attention t m))) = st_lifecycle (m_status m)"
  by (simp add: renew_input_attention_def snd_validated set_activity_def)

lemma start_subagent_status [simp]: "m_status (start_subagent a m) = m_status m"
  by (simp add: start_subagent_def)

lemma apply_live_lifecycle:
  "st_lifecycle (m_status (snd (apply_live e t m))) = st_lifecycle (m_status m)"
  by (cases e) (simp_all add: Let_def snd_validated set_activity_def)

lemma apply_event_accepted:
  assumes "apply_event e t m = (Inr tr, m')" "live_machine m"
  shows "apply_live e t (set_lifecycle Running m) = (Inr (), m')" "live_machine m'"
proof -
  show live: "apply_live e t (set_lifecycle Running m) = (Inr (), m')"
    using assms by (auto simp: apply_event_def live_machine_def and_then_def split: prod.splits sum.splits if_splits)
  then show "live_machine m'"
    using apply_live_lifecycle [of e t "set_lifecycle Running m"] by (simp add: live_machine_def set_lifecycle_def)
qed

lemma transport_event_settles:
  assumes "apply_event e t m = (Inr tr, m')" "live_machine m" "transport_event e"
  shows "awaits_input m' = (e = InputRequestOpened)"
proof -
  let ?m = "set_lifecycle Running m"
  have m': "m' = snd (apply_live e t ?m)" and ok: "apply_live e t ?m = (Inr (), m')"
    using apply_event_accepted(1) [OF assms(1,2)] by simp_all
  show ?thesis
  proof (cases e)
    case InputRequestOpened
    have "st_activity (m_status m') = AwaitingInput"
      using ok by (simp add: InputRequestOpened renew_input_attention_def m' snd_validated set_attention_activity
          set_lifecycle_def set_activity_def)
    then show ?thesis by (simp add: awaits_input_def InputRequestOpened)
  qed (use assms(3) in \<open>auto simp: awaits_input_def m' transport_event_def live_condition_snd_activity
        Let_def snd_validated set_attention_activity set_activity_def\<close>)
qed

lemma subagent_event_keeps_waiting:
  assumes "apply_event e t m = (Inr tr, m')" "live_machine m" "is_subagent_event e" "awaits_input m"
  shows "awaits_input m'"
  using apply_event_accepted(1) [OF assms(1,2)] assms(3,4)
  by (cases e) (auto simp: is_subagent_event_def awaits_input_def set_lifecycle_def Let_def)

lemma codex_hook_never_opens:
  assumes "codex_normalize parse_json payload = Inr n" "le_event n = Some e"
  shows "e \<notin> {PermissionRequested, UserInputRequested, InputRequestOpened}"
  using assms by (auto simp: codex_normalize_def bind_result_eq_Inr codex_event_no_request split: option.splits)

lemma deliver_hook_keeps:
  assumes "live_machine (lk_machine s)"
  shows "live_machine (lk_machine (deliver_hook parse_json payload now s))
    \<and> awaits_input (lk_machine (deliver_hook parse_json payload now s)) = awaits_input (lk_machine s)
    \<and> lk_relay (deliver_hook parse_json payload now s) = lk_relay s"
proof -
  have *: "live_machine m' \<and> awaits_input m' = awaits_input (lk_machine s)"
    if n: "codex_normalize parse_json payload = Inr n" "le_event n = Some e"
      and shown: "\<not> (awaits_input (lk_machine s) \<and> \<not> is_subagent_event e)"
      and ok: "apply_event e now (lk_machine s) = (Inr tr, m')" for n e tr m'
  proof (cases "awaits_input (lk_machine s)")
    case True
    then show ?thesis using subagent_event_keeps_waiting [OF ok assms] shown apply_event_accepted(2) [OF ok assms]
      by blast
  next
    case False
    then show ?thesis
      using only_requests_await_input [OF codex_hook_never_opens [OF n], of now "lk_machine s"] ok
        apply_event_accepted(2) [OF ok assms] by (auto simp: awaits_input_def)
  qed
  show ?thesis using assms *
    by (auto simp: deliver_hook_def awaits_input_def split: sum.splits option.splits prod.splits)
qed

section \<open>The link\<close>

definition link_inv :: "link \<Rightarrow> bool" where
  "link_inv s \<longleftrightarrow> tracker_inv (ry_tracker (lk_relay s)) \<and> live_machine (lk_machine s)
     \<and> list_all from_transport (ry_events (lk_relay s))
     \<and> (\<not> ry_ended (lk_relay s) \<and> \<not> lk_stopped s
          \<longrightarrow> tracker_waiting (ry_tracker (lk_relay s)) = settled_by (awaits_input (lk_machine s)) (ry_events (lk_relay s)))"

lemma settled_by_append [simp]: "settled_by w (xs @ ys) = settled_by (settled_by w xs) ys"
  by (simp add: settled_by_def)

lemma terminal_message_inv:
  assumes "link_inv s" shows "link_inv (s\<lparr>lk_relay := terminal_message v (lk_relay s)\<rparr>)"
  using assms client_message_keeps [of "ry_tracker (lk_relay s)" v]
  by (auto simp: link_inv_def terminal_message_def split: prod.splits sum.splits option.splits)

lemma backend_message_inv:
  assumes "link_inv s" shows "link_inv (s\<lparr>lk_relay := backend_message v (lk_relay s)\<rparr>)"
proof -
  have "tracks_input (ry_tracker (lk_relay s)) (server_message v (ry_tracker (lk_relay s)))"
    using assms server_message_tracks by (simp add: link_inv_def)
  moreover have "tracker_waiting (t\<lparr>tr_pause_request := p\<rparr>) = tracker_waiting t" for t p by (simp add: tracker_waiting_def)
  ultimately show ?thesis using assms
    by (auto simp: link_inv_def backend_message_def tracks_input_def Let_def
        split: prod.splits sum.splits option.splits)
qed

lemma deliver_event_inv:
  assumes "link_inv s" shows "link_inv (deliver_event now s)"
proof (cases "lk_stopped s \<or> ry_events (lk_relay s) = []")
  case True
  then show ?thesis using assms by (auto simp: deliver_event_def)
next
  case False
  then obtain n rest where queue: "\<not> lk_stopped s" "ry_events (lk_relay s) = n # rest"
    by (cases "ry_events (lk_relay s)") auto
  then obtain e where e: "le_event n = Some e" "transport_event e"
    using assms by (auto simp: link_inv_def from_transport_def split: option.splits)
  have live: "live_machine (lk_machine s)" using assms by (simp add: link_inv_def)
  show ?thesis
  proof (cases "apply_event e now (lk_machine s)")
    case (Pair r m)
    show ?thesis
    proof (cases r)
      case (Inl x)
      then show ?thesis using assms queue e Pair by (simp add: link_inv_def deliver_event_def)
    next
      case (Inr tr)
      have "settled_by (awaits_input m) rest = settled_by (awaits_input (lk_machine s)) (n # rest)"
        using transport_event_settles [OF Pair [unfolded Inr] live e(2)] e(1) by (simp add: settled_by_def opens_def)
      then show ?thesis
        using assms queue e Pair Inr apply_event_accepted(2) [OF Pair [unfolded Inr] live]
        by (simp add: link_inv_def deliver_event_def)
    qed
  qed
qed

lemma deliver_hook_stopped: "lk_stopped (deliver_hook parse_json payload now s) = lk_stopped s"
  by (auto simp: deliver_hook_def split: sum.splits option.splits prod.splits)

lemma link_step_inv: "link_inv s \<Longrightarrow> link_inv (link_step parse_json x s)"
  using terminal_message_inv backend_message_inv deliver_event_inv
    deliver_hook_keeps [of s] deliver_hook_stopped [of parse_json]
  by (cases x) (simp_all add: link_inv_def)

lemma link_run_inv: "link_inv s \<Longrightarrow> link_inv (link_run parse_json xs s)"
  unfolding link_run_def by (induction xs arbitrary: s) (simp_all add: link_step_inv)

lemma link_start_inv:
  assumes "live_machine m" "\<not> awaits_input m" shows "link_inv (link_start m)"
  using assms by (simp add: link_inv_def link_start_def relay_start_def tracker_inv_def tracker_default_def
      tracker_waiting_def settled_by_def)

end
