(* ===== verification/Bridge_Properties.thy ===== *)
theory Bridge_Properties
  imports Codex_Bridge
begin

text \<open>
  What a Session that is served by the relay of \<open>Codex_Bridge\<close> promises: its activity mirrors the
  prompts that are open, whatever its terminal, its app server and its hooks send and however their
  messages interleave; and what the relay remembers is bounded.
\<close>

lemma link_step_tracker:
  assumes "tracker_inv (ry_tracker (lk_relay s))"
  shows "tracker_inv (ry_tracker (lk_relay (link_step parse_json x s)))"
proof (cases x)
  case (FromTerminal v)
  then show ?thesis using assms client_message_keeps [OF assms, of v]
    by (auto simp: terminal_message_def split: prod.splits sum.splits option.splits)
next
  case (FromAppServer v)
  then show ?thesis using assms server_message_tracks [OF assms, of v]
    by (auto simp: backend_message_def tracks_input_def Let_def split: prod.splits sum.splits option.splits)
next
  case (EventDelivered now)
  then show ?thesis using assms
    by (auto simp: deliver_event_def Let_def split: prod.splits sum.splits option.splits list.splits)
next
  case (HookDelivered payload now)
  then show ?thesis using assms
    by (auto simp: deliver_hook_def split: prod.splits sum.splits option.splits)
qed

lemma link_run_tracker:
  "tracker_inv (ry_tracker (lk_relay s)) \<Longrightarrow> tracker_inv (ry_tracker (lk_relay (link_run parse_json xs s)))"
  unfolding link_run_def by (induction xs arbitrary: s) (simp_all add: link_step_tracker)

text \<open>C28: however the messages of the terminal, those of the app server and the hooks of a structured
  Codex Session interleave, once the events of the relay are applied the Session awaits input exactly
  when a prompt is open, that is, a request without an answer or a question.\<close>

theorem prompts_decide_attention:
  assumes "live_machine m" and "\<not> awaits_input m"
    and "s = link_run parse_json xs (link_start m)"
    and "\<not> ry_ended (lk_relay s)" and "\<not> lk_stopped s" and "ry_events (lk_relay s) = []"
  shows "awaits_input (lk_machine s) \<longleftrightarrow>
    tr_pending (ry_tracker (lk_relay s)) \<noteq> {} \<or> tr_question (ry_tracker (lk_relay s)) \<noteq> None"
proof -
  have "link_inv s" unfolding assms(3) by (rule link_run_inv [OF link_start_inv [OF assms(1,2)]])
  then show ?thesis using assms(4-6) by (auto simp: link_inv_def tracker_waiting_def)
qed

text \<open>C29: whatever the terminal and the app server send, the relay of a Session remembers at most 128
  open requests, 4096 request identifiers and 128 requests for a thread.\<close>

theorem relay_memory_is_bounded:
  "let t = ry_tracker (lk_relay (link_run parse_json xs (link_start m)))
   in card (tr_pending t) \<le> 128 \<and> card (tr_seen_requests t) \<le> 4096 \<and> card (tr_thread_requests t) \<le> 128
      \<and> tr_pending t \<subseteq> tr_seen_requests t"
proof -
  have "tracker_inv (ry_tracker (lk_relay (link_start m)))"
    by (simp add: link_start_def relay_start_def tracker_default_def tracker_inv_def tracker_waiting_def)
  from link_run_tracker [OF this] show ?thesis
    by (simp add: Let_def tracker_inv_def REQUEST_LIMIT_def REQUEST_ID_LIMIT_def)
qed

definition sample_thread_start :: json where
  "sample_thread_start = JObject [(lit ''id'', JNumber 1), (lit ''method'', JString (lit ''thread/start''))]"

definition sample_thread_answer :: json where
  "sample_thread_answer = JObject [(lit ''id'', JNumber 1),
     (lit ''result'', JObject [(lit ''thread'', JObject [(lit ''id'', JString (lit ''c1''))])])]"

definition sample_elicitation :: json where
  "sample_elicitation = JObject [(lit ''id'', JNumber 7), (lit ''method'', JString (lit ''mcpServer/elicitation/request'')),
     (lit ''params'', JObject [(lit ''threadId'', JString (lit ''c1''))])]"

definition sample_link_run :: link where
  "sample_link_run = link_run (\<lambda>_. None)
     [FromTerminal sample_thread_start, FromAppServer sample_thread_answer, FromAppServer sample_elicitation,
      EventDelivered 1, HookDelivered [] 2, EventDelivered 3] (link_start (machine_new Running))"

lemmas json_reading = json_get_def json_index_def json_str_def method_of_def params_of_def request_key_def

lemma sample_terminal:
  "terminal_message sample_thread_start relay_start = \<lparr>ry_tracker = tracker_default\<lparr>tr_thread_requests := {JNumber 1}\<rparr>,
     ry_to_backend = [sample_thread_start], ry_to_terminal = [], ry_events = [], ry_ended = False\<rparr>"
  by (simp add: terminal_message_def client_message_def relay_start_def tracker_default_def sample_thread_start_def
      json_reading and_then_def answer_question_def note_thread_request_def REQUEST_LIMIT_def)

lemma sample_conversation: "conversation_id_try_from (lit ''c1'') = Inr (ProviderConversationId (lit ''c1''))"
  by (simp add: conversation_id_try_from_def lit_def utf8_width_def char_class_defs
      MAX_PROVIDER_CONVERSATION_ID_LENGTH_def)

definition sample_bound :: input_tracker where
  "sample_bound = tracker_default\<lparr>tr_conversation := Some (ProviderConversationId (lit ''c1''))\<rparr>"

definition sample_prompted :: input_tracker where
  "sample_prompted = sample_bound\<lparr>tr_pending := {JNumber 7}, tr_seen_requests := {JNumber 7}\<rparr>"

lemma sample_answered:
  "server_message sample_thread_answer (tracker_default\<lparr>tr_thread_requests := {JNumber 1}\<rparr>)
     = (Inr [tracker_event (TurnStarted (Some \<lparr>conv_id = ProviderConversationId (lit ''c1''),
          conv_transition = Established\<rparr>)) sample_bound], sample_bound)"
  by (simp add: server_message_def sample_thread_answer_def json_reading bind_conversation_def sample_conversation
      sample_bound_def tracker_default_def Let_def)

lemma sample_elicited:
  "server_message sample_elicitation sample_bound = (Inr [tracker_event InputRequestOpened sample_prompted], sample_prompted)"
  by (simp add: server_message_def other_message_def conversation_message_def input_methods_def ELICITATION_def
      input_requested_def sample_elicitation_def json_reading sample_bound_def sample_prompted_def
      tracker_default_def Let_def REQUEST_LIMIT_def REQUEST_ID_LIMIT_def)

lemma sample_unchanged:
  "make_blocking sample_thread_answer = Some sample_thread_answer" "make_blocking sample_elicitation = Some sample_elicitation"
  by (simp_all add: make_blocking_def sample_thread_answer_def sample_elicitation_def json_reading)

lemma sample_relayed:
  "backend_message sample_elicitation (backend_message sample_thread_answer
      (terminal_message sample_thread_start relay_start))
   = \<lparr>ry_tracker = sample_prompted, ry_to_backend = [sample_thread_start],
      ry_to_terminal = [sample_thread_answer, sample_elicitation],
      ry_events = [tracker_event (TurnStarted (Some \<lparr>conv_id = ProviderConversationId (lit ''c1''),
          conv_transition = Established\<rparr>)) sample_bound, tracker_event InputRequestOpened sample_prompted],
      ry_ended = False\<rparr>"
proof -
  have idle: "tr_pause_id tracker_default = None" "tr_pause_id sample_bound = None"
      "tr_pause_request sample_bound = None" "tr_pause_request sample_prompted = None"
      "sample_bound\<lparr>tr_pause_request := None\<rparr> = sample_bound" "sample_prompted\<lparr>tr_pause_request := None\<rparr> = sample_prompted"
    by (simp_all add: sample_bound_def sample_prompted_def tracker_default_def)
  show ?thesis
    unfolding sample_terminal
    by (simp add: backend_message_def sample_answered sample_elicited sample_unchanged
        consume_private_response_def Let_def idle)
qed

definition sample_working :: status_machine where
  "sample_working = (machine_new Running)\<lparr>m_status := default_status\<lparr>st_lifecycle := Running, st_activity := Working\<rparr>\<rparr>"

lemma sample_started:
  "apply_event (TurnStarted c) 1 (machine_new Running) = (Inr (transition sample_working), sample_working)"
  by (simp add: apply_event_def sample_working_def machine_new_def default_status_def set_live_condition_def
      set_lifecycle_def set_activity_def resolve_attention_def validated_def validate_def and_then_def Let_def)

lemma sample_opened: "\<exists>tr m. apply_event InputRequestOpened 3 sample_working = (Inr tr, m)"
  by (simp add: apply_event_def sample_working_def machine_new_def default_status_def renew_input_attention_def
      set_lifecycle_def set_activity_def set_attention_condition_def validated_def validate_def and_then_def Let_def
      next_event_number_def event_id_try_from_def put_attention_def reason_matches_def)

lemma sample_link_facts:
  "\<not> ry_ended (lk_relay sample_link_run) \<and> \<not> lk_stopped sample_link_run
   \<and> ry_events (lk_relay sample_link_run) = [] \<and> tr_pending (ry_tracker (lk_relay sample_link_run)) = {JNumber 7}"
  using sample_opened
  by (auto simp: sample_link_run_def link_run_def link_start_def sample_relayed deliver_event_def
      deliver_hook_def codex_normalize_def bind_result_def ok_or_def Let_def tracker_event_def sample_prompted_def
      sample_started)

theorem prompts_decide_attention_witness:
  "awaits_input (lk_machine sample_link_run)"
proof -
  have "live_machine (machine_new Running)" "\<not> awaits_input (machine_new Running)"
    by (simp_all add: live_machine_def awaits_input_def machine_new_def default_status_def)
  then show ?thesis
    using prompts_decide_attention [OF _ _ sample_link_run_def] sample_link_facts by simp
qed

end
