(* ===== verification/Session_Launch.thy ===== *)
theory Session_Launch
  imports Session_Runtime Provider_Launch
begin

text \<open>
  Starting and resuming Sessions in \<open>crates/sylvops-daemon/src/daemon.rs\<close>: what is checked of a
  Provider, a Worktree and the newest Session of a Conversation before a process is launched, and
  the launch itself, on the handlers of \<open>Session_Runtime\<close> and the adapters of \<open>Provider_Launch\<close>.
\<close>

section \<open>Inputs\<close>

text \<open>What a launch takes from outside: the adapters and the machine, a fresh identity and token, the
  endpoint of the receiver, the health a probe reports, whether the path of a Worktree still is the
  root of its repository, the bridge of a structured Codex Session, and the spawned process.\<close>

record launcher =
  ln_registry :: registry
  ln_machine :: machine
  ln_parse_url :: url_parser
  ln_session :: session_id
  ln_token :: str
  ln_now :: nat
  ln_endpoint_url :: str
  ln_probe :: "provider_kind \<Rightarrow> provider_health provider_result"
  ln_root_verified :: "str \<Rightarrow> bool"
  ln_capabilities_json :: "provider_capabilities \<Rightarrow> str"
  ln_arguments_json :: "str list \<Rightarrow> str provider_result"
  ln_bridge_error :: "runtime_spec \<Rightarrow> str option"
  ln_spawned :: "runtime_spec \<Rightarrow> str + u32"
  ln_describe :: "daemon_error \<Rightarrow> str"
  ln_clock :: clock

definition lift_result :: "'a provider_result \<Rightarrow> daemon \<Rightarrow> 'a daemon_result" where
  "lift_result r d = (case r of Inl e \<Rightarrow> (Inl (ProviderRefused e), d) | Inr x \<Rightarrow> (Inr x, d))"

definition provider_profile_id :: "provider_kind \<Rightarrow> provider_profile_id" where
  "provider_profile_id k = ProviderProfileId (case k of
       Shell \<Rightarrow> 1 | Codex \<Rightarrow> 2 | Claude \<Rightarrow> 3 | Cursor \<Rightarrow> 4 | Pi \<Rightarrow> 5)"

definition health_profile :: "launcher \<Rightarrow> provider_health \<Rightarrow> provider_profile" where
  "health_profile ln h =
     \<lparr>pp_id = provider_profile_id (ph_kind h), pp_kind = ph_kind h,
      pp_display_name = (case ph_kind h of Shell \<Rightarrow> lit ''Plain shell'' | Codex \<Rightarrow> lit ''Codex CLI''
        | Claude \<Rightarrow> lit ''Claude Code'' | other \<Rightarrow> provider_kind_to_string other),
      pp_executable_path = ph_executable_path h, pp_default_model = None, pp_default_effort = None,
      pp_enabled = (ph_kind h \<in> {Shell, Codex, Claude}),
      pp_capabilities_json = ln_capabilities_json ln (ph_capabilities h),
      pp_last_probe_status = Some (if \<not> ph_available h then lit ''unavailable''
        else if ph_authenticated h then lit ''healthy'' else lit ''unauthenticated''),
      pp_last_probe_at = Some (ph_checked_at h)\<rparr>"

definition persist_provider_health :: "launcher \<Rightarrow> provider_health \<Rightarrow> daemon \<Rightarrow> unit daemon_result" where
  "persist_provider_health ln h d =
     and_then (run_command True (upsert_provider (health_profile ln h)) d) (\<lambda>_. done_with)"

definition verified_worktree :: "launcher \<Rightarrow> worktree_id \<Rightarrow> daemon \<Rightarrow> worktree daemon_result" where
  "verified_worktree ln i d = (case load_worktree (da_store (dm_database d)) i of
       Inl e \<Rightarrow> (Inl (DatabaseError e), d)
     | Inr w \<Rightarrow>
         if wt_status w \<noteq> WtActive then (Inl (InvalidSession (lit ''sessions require an active checkout'')), d)
         else if \<not> ln_root_verified ln (wt_canonical_path w)
         then (Inl (InvalidSession (lit ''worktree canonical path changed'')), d)
         else (Inr w, d))"

definition validated_session_name :: "str option \<Rightarrow> provider_kind \<Rightarrow> daemon_error + str" where
  "validated_session_name display_name provider =
     (let name = trim (case display_name of Some n \<Rightarrow> n
            | None \<Rightarrow> (case provider of Shell \<Rightarrow> lit ''Shell'' | Codex \<Rightarrow> lit ''Codex''
                        | other \<Rightarrow> provider_kind_to_string other))
      in if name = [] \<or> length name > 200
         then Inl (InvalidSession (lit ''session name must contain between 1 and 200 characters'')) else Inr name)"

text \<open>\<open>HookCredentials::register\<close>: the endpoint is validated before the credential is inserted.\<close>

definition register_credential ::
    "launcher \<Rightarrow> provider_kind \<Rightarrow> worktree_id \<Rightarrow> daemon \<Rightarrow> lifecycle_endpoint daemon_result" where
  "register_credential ln k w d =
     (case lifecycle_endpoint_new (ln_parse_url ln) k (ln_session ln) w (ln_endpoint_url ln) (ln_token ln) of
        Inl e \<Rightarrow> (Inl (ProviderRefused e), d)
      | Inr endpoint \<Rightarrow> (Inr endpoint,
          d\<lparr>dm_receiver := register k (ln_session ln) w (ln_token ln) (ln_now ln) (dm_receiver d)\<rparr>))"

definition lifecycle_endpoint_for ::
    "launcher \<Rightarrow> provider_kind \<Rightarrow> worktree_id \<Rightarrow> daemon \<Rightarrow> lifecycle_endpoint option daemon_result" where
  "lifecycle_endpoint_for ln k w d =
     and_then (lift_result (supports_lifecycle_events (ln_registry ln) k) d) (\<lambda>supported d.
     if supported then and_then (register_credential ln k w d) (\<lambda>e d. (Inr (Some e), d))
     else (Inr None, d))"

text \<open>From the configuration of the process on, a refusal invalidates the credential again.\<close>

definition launch_configured ::
    "launcher \<Rightarrow> runtime_spec provider_result \<Rightarrow> (str \<Rightarrow> str \<Rightarrow> new_session) \<Rightarrow> daemon \<Rightarrow> session daemon_result" where
  "launch_configured ln spec build d = (case spec of
       Inl e \<Rightarrow> (Inl (ProviderRefused e), revoke_credential (ln_session ln) d)
     | Inr rt \<Rightarrow>
     case ln_arguments_json ln (persisted_values (sp_arguments (rt_launch rt))) of
       Inl e \<Rightarrow> (Inl (ProviderRefused e), revoke_credential (ln_session ln) d)
     | Inr arguments \<Rightarrow>
         spawn_managed_session (ln_describe ln) (ln_clock ln) (build (sp_executable (rt_launch rt)) arguments)
           (rt_codex_app_server rt) (ln_bridge_error ln rt) (ln_spawned ln rt) d)"

section \<open>A new Session\<close>

definition health_refusal :: "provider_kind \<Rightarrow> provider_health \<Rightarrow> bool \<Rightarrow> str option" where
  "health_refusal k h require_task_bootstrap =
     (if require_task_bootstrap \<and> \<not> can_start_task_bootstrap h
      then Some (lit ''provider no longer supports task bootstrap'')
      else if \<not> ph_available h
      then Some (case ph_diagnostic h of Some x \<Rightarrow> x
             | None \<Rightarrow> lit ''provider '' @ provider_kind_to_string k @ lit '' is unavailable'')
      else if cap_authentication (ph_capabilities h) = ExistingLogin \<and> \<not> ph_authenticated h
      then Some (case ph_diagnostic h of Some x \<Rightarrow> x
             | None \<Rightarrow> provider_kind_to_string k @ lit '' is not authenticated; sign in explicitly'')
      else None)"

definition launch_new_session ::
    "launcher \<Rightarrow> worktree \<Rightarrow> provider_kind \<Rightarrow> str option \<Rightarrow> str option \<Rightarrow> str option \<Rightarrow> str option \<Rightarrow> bool
       \<Rightarrow> daemon \<Rightarrow> session daemon_result" where
  "launch_new_session ln w k display_name model effort initial_prompt require_task_bootstrap d =
     and_then (lift_result (ln_probe ln k) d) (\<lambda>h d.
     and_then (persist_provider_health ln h d) (\<lambda>_ d.
     case health_refusal k h require_task_bootstrap of
       Some x \<Rightarrow> (Inl (ProviderRefused x), d)
     | None \<Rightarrow>
     case validated_session_name display_name k of
       Inl e \<Rightarrow> (Inl e, d)
     | Inr name \<Rightarrow>
     and_then (lifecycle_endpoint_for ln k (wt_id w) d) (\<lambda>endpoint d.
     launch_configured ln
       (registry_launch (ln_machine ln) (ln_registry ln) k
          \<lparr>lc_session = ln_session ln, lc_worktree = wt_id w, lc_cwd = wt_canonical_path w,
           lc_model = model, lc_effort = effort, lc_initial_prompt = initial_prompt, lc_endpoint = endpoint\<rparr>)
       (\<lambda>command arguments.
          \<lparr>ns_id = ln_session ln, ns_worktree_id = wt_id w, ns_display_name = name,
           ns_provider_profile_id = Some (provider_profile_id k), ns_provider_kind = k,
           ns_command = command, ns_arguments_json = arguments, ns_cwd = wt_canonical_path w,
           ns_external_session_id = None, ns_resumed_from = None\<rparr>) d)))"

section \<open>Resuming a Conversation\<close>

datatype resume_refusal =
    LifecycleNotTerminal session_lifecycle
  | MissingConversationIdentity
  | ProviderDoesNotSupportResume provider_kind
  | ProviderUnavailable provider_kind
  | ProviderAuthenticationRequired provider_kind
  | ProviderProbeFailed provider_kind
  | WorktreeUnavailable worktree_id
  | WorktreeIdentityMismatch worktree_id
  | LiveSessionUnavailable session_lifecycle

datatype resume_leaf_action =
    AttachLive
  | CreateSuccessor worktree provider_conversation_id
  | Unavailable resume_refusal

datatype resume_outcome = AttachedLiveLeaf | CreatedSuccessor

datatype resume_result =
    ConversationOpened "session_id option" session resume_outcome
  | ConversationUnavailable session resume_refusal

definition provider_resume_refusal :: "provider_kind \<Rightarrow> provider_health \<Rightarrow> resume_refusal option" where
  "provider_resume_refusal k h =
     (if \<not> cap_resume (ph_capabilities h) then Some (ProviderDoesNotSupportResume k)
      else if \<not> cap_interactive (ph_capabilities h) \<or> \<not> ph_available h then Some (ProviderUnavailable k)
      else if cap_authentication (ph_capabilities h) = ExistingLogin \<and> \<not> ph_authenticated h
      then Some (ProviderAuthenticationRequired k) else None)"

definition is_live :: "session_id \<Rightarrow> daemon \<Rightarrow> bool" where
  "is_live i d = (case map_of (dm_managed d) i of None \<Rightarrow> False | Some g \<Rightarrow> \<not> mg_completed g)"

definition inspect_resume_leaf :: "launcher \<Rightarrow> session \<Rightarrow> daemon \<Rightarrow> resume_leaf_action daemon_result" where
  "inspect_resume_leaf ln s d =
     (let l = st_lifecycle (se_status s); k = se_provider_kind s; w = se_worktree_id s in
      if lifecycle_is_active l
      then (Inr (if is_live (se_id s) d then AttachLive else Unavailable (LiveSessionUnavailable l)), d)
      else if \<not> lifecycle_allows_resume l then (Inr (Unavailable (LifecycleNotTerminal l)), d)
      else if k = Shell then (Inr (Unavailable (ProviderDoesNotSupportResume k)), d)
      else case se_external_session_id s of
        None \<Rightarrow> (Inr (Unavailable MissingConversationIdentity), d)
      | Some external \<Rightarrow>
      case conversation_id_try_from external of
        Inl _ \<Rightarrow> (Inl StoredConversationInvalid, d)
      | Inr conversation \<Rightarrow>
      case verified_worktree ln w d of
        (Inl _, d) \<Rightarrow> (Inr (Unavailable (WorktreeUnavailable w)), d)
      | (Inr worktree, d) \<Rightarrow>
      if se_cwd s \<noteq> wt_canonical_path worktree then (Inr (Unavailable (WorktreeIdentityMismatch w)), d)
      else case ln_probe ln k of
        Inl _ \<Rightarrow> (Inr (Unavailable (ProviderProbeFailed k)), d)
      | Inr h \<Rightarrow>
      and_then (persist_provider_health ln h d) (\<lambda>_ d.
      case provider_resume_refusal k h of
        Some reason \<Rightarrow> (Inr (Unavailable reason), d)
      | None \<Rightarrow> (Inr (CreateSuccessor worktree conversation), d)))"

definition launch_resumed_successor ::
    "launcher \<Rightarrow> session \<Rightarrow> worktree \<Rightarrow> provider_conversation_id \<Rightarrow> daemon \<Rightarrow> resume_result daemon_result" where
  "launch_resumed_successor ln source w conversation d =
     (let k = se_provider_kind source in
     and_then (lifecycle_endpoint_for ln k (se_worktree_id source) d) (\<lambda>endpoint d.
     and_then (launch_configured ln
       (registry_resume (ln_machine ln) (ln_registry ln) k
          \<lparr>rx_session = ln_session ln, rx_worktree = se_worktree_id source,
           rx_external_session_id = conversation, rx_cwd = wt_canonical_path w,
           rx_model = None, rx_effort = None, rx_endpoint = endpoint\<rparr>)
       (\<lambda>command arguments.
          \<lparr>ns_id = ln_session ln, ns_worktree_id = se_worktree_id source,
           ns_display_name = se_display_name source,
           ns_provider_profile_id = se_provider_profile_id source, ns_provider_kind = k,
           ns_command = command, ns_arguments_json = arguments, ns_cwd = wt_canonical_path w,
           ns_external_session_id = Some (conversation_str conversation),
           ns_resumed_from = Some (se_id source)\<rparr>) d)
     (\<lambda>running d. (Inr (ConversationOpened (Some (se_id source)) running CreatedSuccessor), d))))"

definition resume_conversation :: "launcher \<Rightarrow> session_id \<Rightarrow> daemon \<Rightarrow> resume_result daemon_result" where
  "resume_conversation ln i d = (case load_lineage_leaf (da_store (dm_database d)) i of
       Inl e \<Rightarrow> (Inl (DatabaseError (LineageRefused e)), d)
     | Inr source \<Rightarrow>
     and_then (inspect_resume_leaf ln source d) (\<lambda>action d. case action of
         AttachLive \<Rightarrow> (Inr (ConversationOpened None source AttachedLiveLeaf), d)
       | CreateSuccessor w conversation \<Rightarrow> launch_resumed_successor ln source w conversation d
       | Unavailable reason \<Rightarrow> (Inr (ConversationUnavailable source reason), d)))"

end
