(* ===== verification/Launch_Properties.thy ===== *)
theory Launch_Properties
  imports Session_Launch Runtime_Handlers Store_Properties
begin

text \<open>
  What starting and resuming Sessions promises (\<open>Session_Launch\<close>): both are runs of the daemon, so
  all that holds of its reachable states holds after them; a resume that finds a reason against it
  leaves the Sessions alone; and one that starts a process continues the newest Session of the
  conversation, of which the new Session is the only successor.
\<close>

section \<open>Effects on the Sessions\<close>

text \<open>What a launch may do before its Session is inserted.\<close>

definition prepared :: "daemon \<Rightarrow> daemon \<Rightarrow> bool" where
  "prepared d d' \<longleftrightarrow> db_sessions (store_of d') = db_sessions (store_of d)
     \<and> db_resumptions (store_of d') = db_resumptions (store_of d)
     \<and> dm_managed d' = dm_managed d \<and> dm_machines d' = dm_machines d
     \<and> (session_inv (store_of d) \<longrightarrow> session_inv (store_of d'))"

lemma prepared_refl [simp]: "prepared d d"
  by (simp add: prepared_def)

lemma prepared_trans: "prepared d d1 \<Longrightarrow> prepared d1 d2 \<Longrightarrow> prepared d d2"
  by (simp add: prepared_def)

lemma prepared_receiver [simp]: "prepared d (d\<lparr>dm_receiver := r\<rparr>)"
  by (simp add: prepared_def)

lemma upsert_provider_sessions:
  assumes "upsert_provider p st = Inr (x, st')"
  shows "db_resumptions st' = db_resumptions st" "session_inv st \<Longrightarrow> session_inv st'"
proof -
  have ids: "pp_id ` set (update_where (\<lambda>q. pp_id q = pp_id p)
      (\<lambda>q. p\<lparr>pp_kind := pp_kind q, pp_display_name := pp_display_name q\<rparr>) ps) = pp_id ` set ps" for ps
    by (rule image_update_where) simp
  have v: "db_sessions st' = db_sessions st" "db_resumptions st' = db_resumptions st" "db_worktrees st' = db_worktrees st"
    and p: "pp_id ` set (db_profiles st) \<subseteq> pp_id ` set (db_profiles st')"
    using assms ids by (auto simp: upsert_provider_def Let_def bind_result_eq_Inr split: if_splits)
  show "db_resumptions st' = db_resumptions st" by (rule v(2))
  assume inv: "session_inv st"
  have "references_ok W P' s" if "references_ok W P s" "P \<subseteq> P'" for W P P' s
    using that by (auto simp: references_ok_def)
  then show "session_inv st'"
    using inv p by (auto simp: session_inv_def sessions_ok_def session_view_def v)
qed

lemma persist_health_prepared: "persist_provider_health ln h d = (r, d') \<Longrightarrow> prepared d d'"
proof (cases "upsert_provider (health_profile ln h) (store_of d)")
  case (Inl e)
  then show "persist_provider_health ln h d = (r, d') \<Longrightarrow> prepared d d'"
    by (auto simp: persist_provider_health_def run_command_def and_then_def done_with_def)
next
  case (Inr y)
  obtain x st where y: "y = (x, st)" by fastforce
  have "prepared d (with_store True st d)"
    using upsert_provider_sessions [OF Inr [unfolded y]] upsert_provider_frame [OF Inr [unfolded y]]
    by (simp add: prepared_def)
  moreover have "run_command True (upsert_provider (health_profile ln h)) d = (Inr x, with_store True st d)"
    using Inr y by (simp add: run_command_Inr)
  ultimately show "persist_provider_health ln h d = (r, d') \<Longrightarrow> prepared d d'"
    by (auto simp: persist_provider_health_def and_then_def done_with_def)
qed

lemma verified_worktree_same: "verified_worktree ln w d = (r, d') \<Longrightarrow> d' = d"
  by (auto simp: verified_worktree_def split: sum.splits if_splits)

lemma verified_worktree_Inr:
  assumes "verified_worktree ln i d = (Inr w, d')"
  shows "load_worktree (store_of d) i = Inr w" "wt_status w = WtActive" "ln_root_verified ln (wt_canonical_path w)"
  using assms by (auto simp: verified_worktree_def split: sum.splits if_splits)

lemma endpoint_prepared: "lifecycle_endpoint_for ln k w d = (r, d') \<Longrightarrow> prepared d d'"
  by (auto simp: lifecycle_endpoint_for_def lift_result_def register_credential_def and_then_def
      split: sum.splits if_splits prod.splits)

definition resumable :: "session \<Rightarrow> worktree \<Rightarrow> provider_conversation_id \<Rightarrow> bool" where
  "resumable s w c \<longleftrightarrow> lifecycle_allows_resume (st_lifecycle (se_status s)) \<and> se_provider_kind s \<noteq> Shell
     \<and> se_external_session_id s = Some (conversation_str c) \<and> se_cwd s = wt_canonical_path w"

definition attachable :: "session \<Rightarrow> daemon \<Rightarrow> bool" where
  "attachable s d \<longleftrightarrow> lifecycle_is_active (st_lifecycle (se_status s)) \<and> is_live (se_id s) d"

lemma inspect_leaf:
  assumes "inspect_resume_leaf ln s d = (Inr a, d')"
  shows "prepared d d'"
    and "a = AttachLive \<Longrightarrow> attachable s d \<and> d' = d"
    and "a = Unavailable reason \<Longrightarrow> \<not> attachable s d"
    and "a = CreateSuccessor w c \<Longrightarrow> resumable s w c \<and> wt_status w = WtActive
           \<and> load_worktree (store_of d) (se_worktree_id s) = Inr w"
proof -
  let ?l = "st_lifecycle (se_status s)"
  have "prepared d d' \<and> (a = AttachLive \<longrightarrow> attachable s d \<and> d' = d)
    \<and> (\<forall>reason. a = Unavailable reason \<longrightarrow> \<not> attachable s d)
    \<and> (\<forall>w c. a = CreateSuccessor w c \<longrightarrow> resumable s w c \<and> wt_status w = WtActive
          \<and> load_worktree (store_of d) (se_worktree_id s) = Inr w)"
  proof (cases "lifecycle_is_active ?l")
    case True
    then show ?thesis using assms by (auto simp: inspect_resume_leaf_def Let_def attachable_def split: if_splits)
  next
    case inactive: False
    then have out: "\<not> attachable s d" by (simp add: attachable_def)
    show ?thesis
    proof (cases "lifecycle_allows_resume ?l \<and> se_provider_kind s \<noteq> Shell \<and> se_external_session_id s \<noteq> None")
      case False
      then show ?thesis using assms inactive out
        by (auto simp: inspect_resume_leaf_def Let_def split: if_splits option.splits)
    next
      case True
      then obtain external where ext: "se_external_session_id s = Some external" by blast
      show ?thesis
      proof (cases "conversation_id_try_from external")
        case (Inl e)
        then show ?thesis using assms inactive True ext by (simp add: inspect_resume_leaf_def Let_def)
      next
        case (Inr c)
        have c: "external = conversation_str c"
          using Inr by (auto simp: conversation_id_try_from_def split: if_splits)
        obtain r d1 where v: "verified_worktree ln (se_worktree_id s) d = (r, d1)" by fastforce
        have d1: "d1 = d" by (rule verified_worktree_same [OF v])
        show ?thesis
        proof (cases r)
          case (Inl e)
          then show ?thesis using assms inactive True ext Inr v d1 out
            by (auto simp: inspect_resume_leaf_def Let_def)
        next
          case w: (Inr w)
          note worktree = verified_worktree_Inr [OF v [unfolded w]]
          show ?thesis
          proof (cases "se_cwd s = wt_canonical_path w")
            case False
            then show ?thesis using assms inactive True ext Inr v w d1 out
              by (auto simp: inspect_resume_leaf_def Let_def)
          next
            case cwd: True
            show ?thesis
            proof (cases "ln_probe ln (se_provider_kind s)")
              case (Inl e)
              then show ?thesis using assms inactive True ext Inr v w d1 out cwd
                by (auto simp: inspect_resume_leaf_def Let_def)
            next
              case h: (Inr h)
              obtain r2 d2 where p: "persist_provider_health ln h d = (r2, d2)" by fastforce
              have "inspect_resume_leaf ln s d = and_then (persist_provider_health ln h d) (\<lambda>_ d.
                  case provider_resume_refusal (se_provider_kind s) h of
                    Some reason \<Rightarrow> (Inr (Unavailable reason), d)
                  | None \<Rightarrow> (Inr (CreateSuccessor w c), d))"
                using inactive True ext Inr v w d1 cwd h by (simp add: inspect_resume_leaf_def Let_def)
              then show ?thesis
                using assms p persist_health_prepared [OF p] out True ext c cwd worktree
                by (cases r2) (auto simp: and_then_def resumable_def split: option.splits)
            qed
          qed
        qed
      qed
    qed
  qed
  then show "prepared d d'" "a = AttachLive \<Longrightarrow> attachable s d \<and> d' = d"
    "a = Unavailable reason \<Longrightarrow> \<not> attachable s d"
    "a = CreateSuccessor w c \<Longrightarrow> resumable s w c \<and> wt_status w = WtActive
           \<and> load_worktree (store_of d) (se_worktree_id s) = Inr w"
    by blast+
qed

section \<open>The new Session\<close>

lemma insert_session_links:
  assumes "insert_session now r st = Inr (s, st')"
  shows "db_resumptions st' = db_resumptions st @ (case ns_resumed_from r of None \<Rightarrow> []
    | Some p \<Rightarrow> [\<lparr>predecessor = p, successor = ns_id r, rs_created_at = now\<rparr>])"
  using assms unfolding insert_session_def
  by (elim bind_resultE) (auto simp: Let_def bind_result_eq_Inr insert_resumption_row_def session_view_def
      dest!: insert_session_row_Inr(1) split: option.splits if_splits)

lemma mark_session_running_exact:
  assumes "rows_ok st" "mark_session_running now i pid st = Inr (s, st')"
  obtains q where "rows st i = Some q" "row_change st i (Some s) st'" "db_resumptions st' = db_resumptions st"
    "s = q\<lparr>se_status := (se_status q)\<lparr>st_lifecycle := Running\<rparr>, se_process_id := Some pid,
           se_started_at := (case se_started_at q of None \<Rightarrow> Some now | t \<Rightarrow> t),
           se_last_activity_at := now, se_failure_reason := None\<rparr>"
  using assms(2)
proof (rule mark_session_running_Inr)
  fix st1
  assume u: "update_session i
            (\<lambda>s. st_lifecycle (se_status s) = Starting \<or> st_lifecycle (se_status s) = Running)
            (\<lambda>s. s\<lparr>se_status := (se_status s)\<lparr>st_lifecycle := Running\<rparr>, se_process_id := Some pid,
                   se_started_at := (case se_started_at s of None \<Rightarrow> Some now | t \<Rightarrow> t),
                   se_last_activity_at := now, se_failure_reason := None\<rparr>) st = Some st1"
    and l: "load_session_row st1 i = Inr s" and v: "store_view st' = store_view st1"
  have "db_resumptions st' = db_resumptions st1" using v by (simp add: store_view_def session_view_def)
  also have "\<dots> = db_resumptions st" using u by (auto simp: update_session_def split: if_splits)
  finally have links: "db_resumptions st' = db_resumptions st" .
  show thesis
    by (rule update_row_change [OF assms(1) u _ l]) (use row_change_view [OF _ v] links that in simp_all)
qed

lemma spawn_running:
  assumes "spawn_managed_session describe ck r structured be sp d = (Inr s, d')" and inv: "session_inv (store_of d)"
  shows "rows (store_of d) (ns_id r) = None" "rows (store_of d') = (rows (store_of d))(ns_id r \<mapsto> s)"
    "se_id s = ns_id r" "st_lifecycle (se_status s) = Running" "session_inv (store_of d')"
    "se_worktree_id s = ns_worktree_id r" "se_provider_kind s = ns_provider_kind r"
    "se_external_session_id s = ns_external_session_id r"
    "db_resumptions (store_of d') = db_resumptions (store_of d) @ (case ns_resumed_from r of None \<Rightarrow> []
       | Some p \<Rightarrow> [\<lparr>predecessor = p, successor = ns_id r, rs_created_at = ck_now ck\<rparr>])"
    "\<And>p. ns_resumed_from r = Some p \<Longrightarrow> check_source r p (store_of d) = Inr ()"
proof -
  let ?i = "ns_id r" and ?now = "ck_now ck"
  obtain s0 st where ins: "insert_session ?now r (store_of d) = Inr (s0, st)"
    using assms(1) by (cases "insert_session ?now r (store_of d)")
      (auto simp: spawn_managed_session_def run_command_def)
  have run: "run_command False (insert_session ?now r) d = (Inr s0, with_store False st d)"
    using ins by (simp add: run_command_Inr)
  obtain pid where pid: "(if structured then be else None) = None" "sp = Inr pid"
    using assms(1) run
    by (cases "if structured then be else None"; cases sp) (auto simp: spawn_managed_session_def Let_def)
  obtain st2 where mark: "mark_session_running ?now ?i pid st = Inr (s, st2)" and st2: "store_of d' = st2"
    using assms(1) run pid
    by (cases "mark_session_running ?now ?i pid st")
      (auto simp: spawn_managed_session_def Let_def run_command_def put_machine_def with_store_def
        split: prod.splits sum.splits if_splits)
  have ok: "rows_ok (store_of d)" using session_invD(1) [OF inv] by (simp add: rows_ok_def)
  note row = insert_session_row [OF ok ins]
  have ok1: "rows_ok st" using row by (simp add: row_change_def)
  obtain q where q: "rows st ?i = Some q" "row_change st ?i (Some s) st2" "db_resumptions st2 = db_resumptions st"
    "s = q\<lparr>se_status := (se_status q)\<lparr>st_lifecycle := Running\<rparr>, se_process_id := Some pid,
           se_started_at := (case se_started_at q of None \<Rightarrow> Some ?now | t \<Rightarrow> t),
           se_last_activity_at := ?now, se_failure_reason := None\<rparr>"
    by (rule mark_session_running_exact [OF ok1 mark])
  have new: "q = new_session_row ?now r" using row q(1) by (simp add: row_change_def)
  show "rows (store_of d) ?i = None" using row by simp
  show "rows (store_of d') = (rows (store_of d))(?i \<mapsto> s)"
    using row q(2) st2 by (simp add: row_change_def)
  show "se_id s = ?i" "st_lifecycle (se_status s) = Running"
    "se_worktree_id s = ns_worktree_id r" "se_provider_kind s = ns_provider_kind r"
    "se_external_session_id s = ns_external_session_id r"
    by (simp_all add: q(4) new new_session_row_def)
  show "session_inv (store_of d')"
    using mark_session_running_inv [OF insert_session_inv [OF inv ins] mark] st2 by simp
  show "db_resumptions (store_of d') = db_resumptions (store_of d) @ (case ns_resumed_from r of None \<Rightarrow> []
       | Some p \<Rightarrow> [\<lparr>predecessor = p, successor = ns_id r, rs_created_at = ?now\<rparr>])"
    using insert_session_links [OF ins] q(3) st2 by simp
  show "check_source r p (store_of d) = Inr ()" if "ns_resumed_from r = Some p" for p
    using ins that by (auto simp: insert_session_def bind_result_eq_Inr)
qed

lemma launch_configured_Inr:
  assumes "launch_configured ln spec build d = (Inr s, d')"
  obtains rt arguments where "spec = Inr rt"
    "spawn_managed_session (ln_describe ln) (ln_clock ln) (build (sp_executable (rt_launch rt)) arguments)
           (rt_codex_app_server rt) (ln_bridge_error ln rt) (ln_spawned ln rt) d = (Inr s, d')"
  using assms by (auto simp: launch_configured_def split: sum.splits)

lemma prepared_rows: "prepared d d' \<Longrightarrow> rows (store_of d') = rows (store_of d)"
  by (simp add: prepared_def rows_def fun_eq_iff)

section \<open>The leaf of the lineage\<close>

abbreviation link_pairs_of :: "store \<Rightarrow> (session_id \<times> session_id) set" where
  "link_pairs_of st \<equiv> (\<lambda>l. (predecessor l, successor l)) ` set (db_resumptions st)"

lemma link_rel_lineage [simp]: "link_rel (lineage_links st) = link_pairs_of st"
proof -
  have "link_rel ls = (\<lambda>l. (predecessor l, successor l)) ` set ls" for ls by (auto simp: link_rel_def)
  then show ?thesis by (simp add: lineage_links_rows image_image)
qed

lemma predecessor_lineage:
  "(\<forall>l\<in>set (lineage_links st). predecessor l \<noteq> j) \<longleftrightarrow> j \<notin> Domain (link_pairs_of st)"
  by (auto simp: lineage_links_rows)

lemma lineage_leaf_iff:
  assumes inv: "session_inv st" and load: "load_lineage st = Inr ls" and s: "q \<in> set (db_sessions st)" "se_id q = i"
  shows "\<exists>leaf \<in> set (db_sessions st). load_lineage_leaf st i = Inr leaf \<and> (i, se_id leaf) \<in> (link_pairs_of st)\<^sup>*
    \<and> se_id leaf \<notin> Domain (link_pairs_of st)"
proof -
  have "session_lookup st i = Some q" using session_lookup_inv [OF inv] s by blast
  from load_leaf_Inr [OF load [unfolded load_lineage_def] this]
  obtain j leaf where "load_lineage_leaf st i = Inr leaf" "session_lookup st j = Some leaf"
     "(i, j) \<in> (link_pairs_of st)\<^sup>*" "j \<notin> Domain (link_pairs_of st)"
    unfolding load_lineage_leaf_def link_rel_lineage predecessor_lineage by blast
  moreover have "leaf \<in> set (db_sessions st)" "se_id leaf = j"
    using calculation(2) session_lookup_inv [OF inv] by blast+
  ultimately show ?thesis by blast
qed

lemma load_lineage_leaf_loads:
  assumes "load_lineage_leaf st i = Inr s"
  shows "\<exists>ls. load_lineage st = Inr ls" "\<exists>q. session_lookup st i = Some q"
  using assms
  by (auto simp: load_lineage_leaf_def load_session_lineage_leaf_def load_lineage_def bind_result_eq_Inr
      load_session_def split: option.splits)

text \<open>The ends of one chain are the same.\<close>

lemma unique_end:
  assumes "single_valued R" "(i, j) \<in> R\<^sup>*" "(i, k) \<in> R\<^sup>*" "j \<notin> Domain R" "k \<notin> Domain R"
  shows "j = k"
  using assms(2,3)
proof (induction rule: converse_rtrancl_induct)
  case base
  then show ?case using assms(4) by (auto elim: converse_rtranclE)
next
  case (step x y)
  then have "(y, k) \<in> R\<^sup>*"
    using assms(1,5) by (metis DomainI converse_rtranclE single_valuedD)
  then show ?case by (rule step.IH)
qed

lemma chain_single_valued: "chain_ok ls \<Longrightarrow> single_valued ((\<lambda>l. (predecessor l, successor l)) ` set ls)"
  by (auto simp: chain_ok_def single_valued_def distinct_map dest: inj_onD)

text \<open>After a resumption of a leaf, what led to it leads to its successor.\<close>

lemma leaf_of_successor:
  assumes inv: "session_inv st" and inv': "session_inv st'"
    and leaf: "load_lineage_leaf st i = Inr s" and cap: "length (db_resumptions st') \<le> MAX_SNAPSHOT_SESSION_LINEAGE_LINKS"
    and links: "db_resumptions st' = db_resumptions st @ [\<lparr>predecessor = se_id s, successor = n, rs_created_at = t\<rparr>]"
    and fresh: "rows st n = None" and r: "rows st' = (rows st)(n \<mapsto> new)"
  shows "load_lineage_leaf st' i = Inr new"
proof -
  obtain ls q where load: "load_lineage st = Inr ls" and q: "q \<in> set (db_sessions st)" "se_id q = i"
    using load_lineage_leaf_loads [OF leaf] session_lookup_inv [OF inv] by blast
  have s: "(i, se_id s) \<in> (link_pairs_of st)\<^sup>*"
    using lineage_leaf_iff [OF inv load q] leaf by auto
  have pairs: "link_pairs_of st' = insert (se_id s, n) (link_pairs_of st)" by (simp add: links)
  then have "(i, n) \<in> (link_pairs_of st')\<^sup>*"
    using s by (metis (no_types, lifting) insertI1 rtrancl.rtrancl_into_rtrancl rtrancl_mono subset_eq subset_insertI)
  moreover have "n \<notin> Domain (link_pairs_of st')"
  proof
    assume "n \<in> Domain (link_pairs_of st')"
    moreover have known: "x \<in> se_id ` set (db_sessions st)" if "x \<in> Domain (link_pairs_of st)" for x
      using that session_invD(5) [OF inv] unfolding link_ok_def by force
    moreover have "se_id s \<in> se_id ` set (db_sessions st)" using lineage_leaf_iff [OF inv load q] leaf by auto
    ultimately have "n \<in> se_id ` set (db_sessions st)" by (auto simp: pairs)
    then show False using fresh by (auto simp: rows_def select_by_None)
  qed
  moreover have "rows st' i \<noteq> None"
  proof -
    have "rows st i = Some q"
      using q select_by_unique [OF session_invD(1) [OF inv]] by (simp add: rows_def)
    then show ?thesis by (simp add: r)
  qed
  then obtain q' where "q' \<in> set (db_sessions st')" "se_id q' = i"
    by (auto simp: rows_def dest: select_by_SomeD)
  from lineage_leaf_iff [OF inv' load_lineage_inv [OF inv' cap] this]
  obtain leaf' where l: "leaf' \<in> set (db_sessions st')" "load_lineage_leaf st' i = Inr leaf'"
    "(i, se_id leaf') \<in> (link_pairs_of st')\<^sup>*" "se_id leaf' \<notin> Domain (link_pairs_of st')" by blast
  have "single_valued (link_pairs_of st')" by (rule chain_single_valued [OF session_invD(4) [OF inv']])
  from unique_end [OF this l(3) _ l(4)] calculation(1,2) have "se_id leaf' = n" by blast
  moreover have "rows st' (se_id leaf') = Some leaf'"
    using l(1) select_by_unique [OF session_invD(1) [OF inv']] by (simp add: rows_def)
  ultimately have "leaf' = new" by (simp add: r)
  then show ?thesis using l(2) by simp
qed

section \<open>Properties\<close>

lemma resume_successor_steps:
  assumes "resume_conversation ln i d = (Inr (ConversationOpened (Some p) s CreatedSuccessor), d')"
  obtains leaf w c d1 rt arguments where "load_lineage_leaf (store_of d) i = Inr leaf" "se_id leaf = p"
    "prepared d d1" "resumable leaf w c" "wt_status w = WtActive"
    "spawn_managed_session (ln_describe ln) (ln_clock ln)
       \<lparr>ns_id = ln_session ln, ns_worktree_id = se_worktree_id leaf, ns_display_name = se_display_name leaf,
        ns_provider_profile_id = se_provider_profile_id leaf, ns_provider_kind = se_provider_kind leaf,
        ns_command = sp_executable (rt_launch rt), ns_arguments_json = arguments, ns_cwd = wt_canonical_path w,
        ns_external_session_id = Some (conversation_str c), ns_resumed_from = Some (se_id leaf)\<rparr>
       (rt_codex_app_server rt) (ln_bridge_error ln rt) (ln_spawned ln rt) d1 = (Inr s, d')"
proof -
  obtain leaf where leaf: "load_lineage_leaf (store_of d) i = Inr leaf"
    using assms by (auto simp: resume_conversation_def split: sum.splits)
  obtain a d0 where a: "inspect_resume_leaf ln leaf d = (Inr a, d0)"
    using assms leaf by (auto simp: resume_conversation_def and_then_def split: prod.splits sum.splits)
  obtain w c where w: "a = CreateSuccessor w c" and launch: "launch_resumed_successor ln leaf w c d0
      = (Inr (ConversationOpened (Some p) s CreatedSuccessor), d')"
    using assms leaf a by (cases a) (auto simp: resume_conversation_def and_then_def)
  obtain e d1 where e: "lifecycle_endpoint_for ln (se_provider_kind leaf) (se_worktree_id leaf) d0 = (Inr e, d1)"
    using launch by (auto simp: launch_resumed_successor_def Let_def and_then_def split: prod.splits sum.splits)
  have "se_id leaf = p"
    using launch e by (auto simp: launch_resumed_successor_def Let_def and_then_def split: prod.splits sum.splits)
  moreover obtain spec where "launch_configured ln spec
       (\<lambda>command arguments.
          \<lparr>ns_id = ln_session ln, ns_worktree_id = se_worktree_id leaf,
           ns_display_name = se_display_name leaf,
           ns_provider_profile_id = se_provider_profile_id leaf, ns_provider_kind = se_provider_kind leaf,
           ns_command = command, ns_arguments_json = arguments, ns_cwd = wt_canonical_path w,
           ns_external_session_id = Some (conversation_str c),
           ns_resumed_from = Some (se_id leaf)\<rparr>) d1 = (Inr s, d')"
    using launch e by (auto simp: launch_resumed_successor_def Let_def and_then_def split: prod.splits sum.splits)
  moreover have "prepared d d1" "resumable leaf w c" "wt_status w = WtActive"
    using inspect_leaf(1,4) [OF a] w endpoint_prepared [OF e] prepared_trans by blast+
  ultimately show thesis using that leaf by (metis (no_types, lifting) launch_configured_Inr)
qed

text \<open>C30: in a store whose Session tables are consistent and hold fewer resumptions than the lineage
  may have, a resume that starts a process continues the newest Session of the conversation: that
  Session had finished and is of a Provider other than the shell; the new one has an unused identity,
  runs, keeps the Worktree, the Provider and the conversation, and no other Session changed. In the
  resulting store the newest Session of the conversation is the new one. (A resume at the capacity is
  not refused; what it does to the lineage is \<open>full_lineage_breaks\<close> below.)\<close>

theorem resume_continues_the_leaf:
  assumes "resume_conversation ln i d = (Inr (ConversationOpened (Some p) s CreatedSuccessor), d')"
    and "session_inv (store_of d)"
    and "length (db_resumptions (store_of d)) < MAX_SNAPSHOT_SESSION_LINEAGE_LINKS"
  shows "\<exists>leaf. load_lineage_leaf (store_of d) i = Inr leaf \<and> se_id leaf = p
    \<and> lifecycle_allows_resume (st_lifecycle (se_status leaf)) \<and> se_provider_kind leaf \<noteq> Shell
    \<and> rows (store_of d) (se_id s) = None \<and> rows (store_of d') = (rows (store_of d))(se_id s \<mapsto> s)
    \<and> st_lifecycle (se_status s) = Running \<and> se_worktree_id s = se_worktree_id leaf
    \<and> se_provider_kind s = se_provider_kind leaf \<and> se_external_session_id s = se_external_session_id leaf
    \<and> load_lineage_leaf (store_of d') i = Inr s"
  using assms(1)
proof (rule resume_successor_steps)
  fix leaf w c d1 rt arguments
  assume leaf: "load_lineage_leaf (store_of d) i = Inr leaf" "se_id leaf = p" and prep: "prepared d d1"
    and res: "resumable leaf w c"
    and spawn: "spawn_managed_session (ln_describe ln) (ln_clock ln)
       \<lparr>ns_id = ln_session ln, ns_worktree_id = se_worktree_id leaf, ns_display_name = se_display_name leaf,
        ns_provider_profile_id = se_provider_profile_id leaf, ns_provider_kind = se_provider_kind leaf,
        ns_command = sp_executable (rt_launch rt), ns_arguments_json = arguments, ns_cwd = wt_canonical_path w,
        ns_external_session_id = Some (conversation_str c), ns_resumed_from = Some (se_id leaf)\<rparr>
       (rt_codex_app_server rt) (ln_bridge_error ln rt) (ln_spawned ln rt) d1 = (Inr s, d')"
  have inv1: "session_inv (store_of d1)" using prep assms(2) by (simp add: prepared_def)
  note run = spawn_running [OF spawn inv1, simplified]
  note rows = prepared_rows [OF prep]
  have links: "db_resumptions (store_of d') = db_resumptions (store_of d)
      @ [\<lparr>predecessor = se_id leaf, successor = se_id s, rs_created_at = ck_now (ln_clock ln)\<rparr>]"
    using run(3,9) prep by (simp add: prepared_def)
  have new: "rows (store_of d) (se_id s) = None" "rows (store_of d') = (rows (store_of d))(se_id s \<mapsto> s)"
    using run(1,2,3) by (simp_all add: rows)
  have "load_lineage_leaf (store_of d') i = Inr s"
    by (rule leaf_of_successor [OF assms(2) run(5) leaf(1) _ links new]) (use assms(3) links in simp)
  then show ?thesis using leaf new res run(4,6,7,8) by (auto simp: resumable_def)
qed

text \<open>a resume that starts no process leaves every Session, every resumption and every live process
  as it was, and answers with the newest Session of the conversation: it is attached exactly when it
  is active and its process is managed.\<close>

theorem resume_without_successor_changes_nothing:
  assumes "resume_conversation ln i d = (Inr r, d')"
    and "\<And>p s. r \<noteq> ConversationOpened (Some p) s CreatedSuccessor"
  shows "\<exists>leaf. load_lineage_leaf (store_of d) i = Inr leaf
    \<and> (if lifecycle_is_active (st_lifecycle (se_status leaf)) \<and> is_live (se_id leaf) d
       then r = ConversationOpened None leaf AttachedLiveLeaf
       else \<exists>reason. r = ConversationUnavailable leaf reason)
    \<and> db_sessions (store_of d') = db_sessions (store_of d)
    \<and> db_resumptions (store_of d') = db_resumptions (store_of d) \<and> dm_managed d' = dm_managed d"
proof -
  obtain leaf where leaf: "load_lineage_leaf (store_of d) i = Inr leaf"
    using assms(1) by (auto simp: resume_conversation_def split: sum.splits)
  obtain a d0 where a: "inspect_resume_leaf ln leaf d = (Inr a, d0)"
    using assms(1) leaf by (auto simp: resume_conversation_def and_then_def split: prod.splits sum.splits)
  show ?thesis
  proof (cases a)
    case AttachLive
    then show ?thesis using assms(1) leaf a inspect_leaf(2) [OF a]
      by (simp add: resume_conversation_def and_then_def attachable_def)
  next
    case (CreateSuccessor w c)
    then show ?thesis using assms leaf a
      by (auto simp: resume_conversation_def launch_resumed_successor_def Let_def and_then_def
          split: prod.splits sum.splits)
  next
    case (Unavailable reason)
    then show ?thesis using assms(1) leaf a inspect_leaf(1,3) [OF a]
      by (auto simp: resume_conversation_def and_then_def attachable_def prepared_def)
  qed
qed

section \<open>Runs\<close>

definition reaches :: "environment \<Rightarrow> daemon \<Rightarrow> daemon \<Rightarrow> bool" where
  "reaches en d d' \<longleftrightarrow> (\<exists>as. d' = foldl (daemon_step en) d as)"

lemma reaches_refl [simp]: "reaches en d d"
  unfolding reaches_def by (rule exI [of _ "[]"]) simp

lemma reaches_trans: "reaches en d d1 \<Longrightarrow> reaches en d1 d2 \<Longrightarrow> reaches en d d2"
  unfolding reaches_def by (metis foldl_append)

lemma reaches_step: "reaches en d (daemon_step en d a)"
  unfolding reaches_def by (rule exI [of _ "[a]"]) simp

lemma reaches_and_then:
  assumes "reaches en d (snd r)" "\<And>x d1. r = (Inr x, d1) \<Longrightarrow> reaches en d1 (snd (f x d1))"
  shows "reaches en d (snd (and_then r f))"
  using assms reaches_trans by (cases r; cases "fst r") (auto simp: and_then_def)

lemma reaches_spawn:
  "en_describe en = describe \<Longrightarrow> reaches en d (snd (spawn_managed_session describe ck r structured be sp d))"
  using reaches_step [of en d "Spawn ck r structured be sp"] by simp

lemma reaches_revoke: "reaches en d (revoke_credential i d)"
  using reaches_step [of en d "ProcessExited i"] by simp

lemma reaches_register: "reaches en d (snd (register_credential ln k w d))"
  using reaches_step [of en d "HookInput (Register k (ln_session ln) w (ln_token ln) (ln_now ln))"]
  by (auto simp: register_credential_def takes_delivery_def split: sum.split)

lemma reaches_health: "reaches en d (snd (persist_provider_health ln h d))"
proof -
  have "snd (persist_provider_health ln h d) = daemon_step en d (Administer (UpsertProvider (health_profile ln h)))"
    by (auto simp: persist_provider_health_def run_command_def and_then_def done_with_def database_step_def
        commits_def bind_result_def split: sum.split)
  then show ?thesis by (metis reaches_step)
qed

lemma reaches_configured:
  "en_describe en = ln_describe ln \<Longrightarrow> reaches en d (snd (launch_configured ln spec build d))"
  by (auto simp: launch_configured_def intro: reaches_revoke reaches_spawn split: sum.split)

lemma reaches_lifted: "reaches en d (snd (lift_result r d))"
  by (simp add: lift_result_def split: sum.split)

lemma reaches_endpoint: "reaches en d (snd (lifecycle_endpoint_for ln k w d))"
  unfolding lifecycle_endpoint_for_def
  by (intro reaches_and_then reaches_lifted) (auto intro!: reaches_and_then reaches_register)

lemma reaches_inspect: "reaches en d (snd (inspect_resume_leaf ln s d))"
proof -
  obtain r where worktree: "verified_worktree ln (se_worktree_id s) d = (r, d)"
    using verified_worktree_same [of ln "se_worktree_id s" d] by (metis prod.exhaust)
  have health: "reaches en d (snd (and_then (persist_provider_health ln h d) (\<lambda>_ d.
      case provider_resume_refusal k h of
        Some reason \<Rightarrow> (Inr (Unavailable reason), d) | None \<Rightarrow> (Inr (CreateSuccessor w c), d))))" for h k w c
    by (intro reaches_and_then reaches_health) (simp split: option.split)
  show ?thesis
    using health by (simp add: inspect_resume_leaf_def Let_def worktree split: option.split sum.split)
qed

lemma reaches_resume:
  assumes "en_describe en = ln_describe ln"
  shows "reaches en d (snd (resume_conversation ln i d))"
proof -
  have successor: "reaches en d (snd (launch_resumed_successor ln source w c d))" for source w c d
    unfolding launch_resumed_successor_def Let_def
    by (intro reaches_and_then reaches_endpoint reaches_configured [OF assms]) simp
  show ?thesis
    unfolding resume_conversation_def
    by (auto intro!: reaches_and_then reaches_inspect successor split: sum.split resume_leaf_action.split)
qed

lemma reaches_launch:
  assumes "en_describe en = ln_describe ln"
  shows "reaches en d (snd (launch_new_session ln w k name model effort prompt bootstrap d))"
  unfolding launch_new_session_def
  by (intro reaches_and_then reaches_lifted reaches_health)
    (auto intro!: reaches_and_then reaches_endpoint reaches_configured [OF assms] split: option.split sum.split)

text \<open>Starting a Session and resuming a conversation are runs of the daemon's own steps, whatever the
  adapters, the machine and the process answer: what holds of every reachable daemon holds after
  them.\<close>

lemma launching_is_a_run:
  "(\<exists>as. snd (resume_conversation ln i d) = foldl (daemon_step (en\<lparr>en_describe := ln_describe ln\<rparr>)) d as)
   \<and> (\<exists>as. snd (launch_new_session ln w k name model effort prompt bootstrap d)
         = foldl (daemon_step (en\<lparr>en_describe := ln_describe ln\<rparr>)) d as)"
  using reaches_resume [of "en\<lparr>en_describe := ln_describe ln\<rparr>" ln d i]
    reaches_launch [of "en\<lparr>en_describe := ln_describe ln\<rparr>" ln d w k name model effort prompt bootstrap]
  by (simp add: reaches_def)

section \<open>The capacity of the lineage\<close>

text \<open>The lineage may hold \<open>MAX_SNAPSHOT_SESSION_LINEAGE_LINKS\<close> resumptions, but a resume does not look at
  how many there are: the next one is committed, and from then on the lineage does not load.\<close>

lemma full_lineage_breaks:
  assumes "insert_session now r st = Inr (s, st')" "ns_resumed_from r = Some p"
    and "length (db_resumptions st) = MAX_SNAPSHOT_SESSION_LINEAGE_LINKS"
  shows "load_lineage st' = Inl LineageCapacity"
proof -
  have "length (lineage_links st') = Suc MAX_SNAPSHOT_SESSION_LINEAGE_LINKS"
    using insert_session_links [OF assms(1)] assms(2,3) by (simp add: lineage_links_rows)
  then show ?thesis by (simp add: load_lineage_def load_session_lineage_def Let_def)
qed

section \<open>Witnesses\<close>

definition finished_row :: session where
  "finished_row = (sample_row 2 Exited None)\<lparr>se_provider_kind := Codex\<rparr>"

definition finished_store :: store where
  "finished_store = sample_store\<lparr>db_sessions := [finished_row], db_resumptions := []\<rparr>"

definition idle_daemon :: daemon where
  "idle_daemon = daemon_start (database_open finished_store) (receiver_bind 65536 240 0)"

definition codex_health :: provider_health where
  "codex_health = \<lparr>ph_kind = Codex, ph_available = True, ph_authenticated = True, ph_executable_path = None,
     ph_version = None, ph_diagnostic = None, ph_capabilities = \<lparr>cap_interactive = True, cap_task_bootstrap = True,
       cap_resume = True, cap_status_hooks = True, cap_model_selection = True, cap_effort_selection = True,
       cap_authentication = ExistingLogin, cap_runtime = None\<rparr>, ph_checked_at = 1\<rparr>"

definition sample_url :: parsed_url where
  "sample_url = \<lparr>ur_scheme = lit ''http'', ur_username = [], ur_password = None, ur_host = Some (lit ''127.0.0.1''),
     ur_port = Some 1, ur_path = lit ''/'', ur_path_segments = None, ur_query = None, ur_fragment = None\<rparr>"

definition sample_launcher :: launcher where
  "sample_launcher = \<lparr>ln_registry = (\<lambda>k. if k = Codex then Some (CodexAdapter \<lparr>cx_hook_directory = None,
       cx_profile = Inl [], cx_executable = Inr (lit ''codex''), cx_supports_no_daemon = False,
       cx_supports_remote = False\<rparr>) else None),
     ln_machine = \<lparr>mc_variables = [], mc_show_uuid = (\<lambda>_. [])\<rparr>, ln_parse_url = (\<lambda>_. Some sample_url),
     ln_session = SessionId 9, ln_token = replicate 32 97, ln_now = 0, ln_endpoint_url = lit ''u'',
     ln_probe = (\<lambda>_. Inr codex_health), ln_root_verified = (\<lambda>_. True), ln_capabilities_json = (\<lambda>_. []),
     ln_arguments_json = (\<lambda>_. Inr []), ln_bridge_error = (\<lambda>_. None), ln_spawned = (\<lambda>_. Inr 42),
     ln_describe = (\<lambda>_. []), ln_clock = \<lparr>ck_status = 5, ck_now = 6, ck_instant = 7\<rparr>\<rparr>"

lemma finished_inv: "session_inv finished_store"
  using sample_names
  by (simp add: session_inv_def sessions_ok_def session_view_def finished_store_def finished_row_def
      sample_store_def chain_ok_def acyclic_def references_ok_def row_ok_def sample_row_def valid_status_def
      validate_def expected_reason_def sample_worktree_def)

lemma finished_leaf: "load_lineage_leaf finished_store (SessionId 2) = Inr finished_row"
proof -
  have load: "load_lineage finished_store = Inr (lineage_links finished_store)"
    by (rule load_lineage_inv [OF finished_inv]) (simp add: finished_store_def)
  have "finished_row \<in> set (db_sessions finished_store)" "se_id finished_row = SessionId 2"
    by (simp_all add: finished_store_def finished_row_def sample_row_def)
  from lineage_leaf_iff [OF finished_inv load this] obtain leaf where
    "leaf \<in> set (db_sessions finished_store)" "load_lineage_leaf finished_store (SessionId 2) = Inr leaf" by blast
  moreover have "set (db_sessions finished_store) = {finished_row}" by (simp add: finished_store_def)
  ultimately show ?thesis by simp
qed

lemma sample_launcher_simps:
  "ln_registry sample_launcher Codex = Some (CodexAdapter \<lparr>cx_hook_directory = None,
       cx_profile = Inl [], cx_executable = Inr (lit ''codex''), cx_supports_no_daemon = False,
       cx_supports_remote = False\<rparr>)"
  "ln_probe sample_launcher k = Inr codex_health" "ln_root_verified sample_launcher x = True"
  "ln_bridge_error sample_launcher rt = None" "ln_spawned sample_launcher rt = Inr 42"
  "ln_arguments_json sample_launcher a = Inr []" "ln_session sample_launcher = SessionId 9"
  by (simp_all add: sample_launcher_def)

definition probed_store :: store where
  "probed_store = finished_store\<lparr>db_profiles := [health_profile sample_launcher codex_health]\<rparr>"

definition probed_daemon :: daemon where
  "probed_daemon = with_store True probed_store idle_daemon"

lemma sample_inspected:
  "inspect_resume_leaf sample_launcher finished_row idle_daemon
     = (Inr (CreateSuccessor sample_worktree (ProviderConversationId (lit ''conversation''))), probed_daemon)"
proof -
  have kind: "st_lifecycle (se_status finished_row) = Exited" "se_provider_kind finished_row = Codex"
    "se_external_session_id finished_row = Some (lit ''conversation'')" "se_cwd finished_row = lit ''/repo''"
    "se_worktree_id finished_row = WorktreeId 1"
    by (simp_all add: finished_row_def sample_row_def)
  have c: "conversation_id_try_from (lit ''conversation'') = Inr (ProviderConversationId (lit ''conversation''))"
    by (simp add: conversation_id_try_from_def lit_def utf8_width_def char_class_defs
        MAX_PROVIDER_CONVERSATION_ID_LENGTH_def)
  have w: "verified_worktree sample_launcher (WorktreeId 1) idle_daemon = (Inr sample_worktree, idle_daemon)"
    by (simp add: verified_worktree_def idle_daemon_def daemon_start_def database_open_def finished_store_def
        sample_store_def load_worktree_def select_by_simps sample_worktree_def sample_launcher_simps)
  have "upsert_provider (health_profile sample_launcher codex_health) finished_store
      = Inr (health_profile sample_launcher codex_health, probed_store)"
  proof -
    have "name_check (lit ''Codex CLI'')" by code_simp
    then have "name_check (pp_display_name (health_profile sample_launcher codex_health))"
      by (simp add: health_profile_def codex_health_def)
    then show ?thesis
      by (simp add: upsert_provider_def probed_store_def finished_store_def sample_store_def load_provider_def
          select_by_simps)
  qed
  then have p: "persist_provider_health sample_launcher codex_health idle_daemon = (Inr (), probed_daemon)"
    by (simp add: persist_provider_health_def run_command_def and_then_def done_with_def probed_daemon_def
        with_store_def idle_daemon_def daemon_start_def database_open_def)
  have h: "provider_resume_refusal Codex codex_health = None"
    by (simp add: provider_resume_refusal_def codex_health_def)
  have path: "wt_canonical_path sample_worktree = lit ''/repo''" by (simp add: sample_worktree_def)
  show ?thesis
    by (simp add: inspect_resume_leaf_def Let_def kind c w p h path sample_launcher_simps and_then_def
        lifecycle_is_active_def lifecycle_allows_resume_def)
qed

definition resumed_record :: new_session where
  "resumed_record = \<lparr>ns_id = SessionId 9, ns_worktree_id = WorktreeId 1, ns_display_name = lit ''work'',
     ns_provider_profile_id = None, ns_provider_kind = Codex, ns_command = lit ''codex'', ns_arguments_json = [],
     ns_cwd = lit ''/repo'', ns_external_session_id = Some (lit ''conversation''),
     ns_resumed_from = Some (SessionId 2)\<rparr>"

lemma sample_inserted:
  "\<exists>s st. insert_session 6 resumed_record probed_store = Inr (s, st)"
proof -
  have "row_ok finished_row" using finished_inv session_invD(2) by (fastforce simp: finished_store_def)
  then have load: "load_session_row probed_store (SessionId 2) = Inr finished_row"
    by (simp add: load_session_row_Inr probed_store_def finished_store_def select_by_simps)
      (simp add: finished_row_def sample_row_def)
  have source: "check_source resumed_record (SessionId 2) probed_store = Inr ()"
    by (simp add: check_source_def load bind_result_def)
      (simp add: resumed_record_def finished_row_def sample_row_def probed_store_def finished_store_def
        lifecycle_allows_resume_def)
  have row: "insert_session_row (new_session_row 6 resumed_record) probed_store
      = Inr (probed_store\<lparr>db_sessions := [finished_row, new_session_row 6 resumed_record],
          db_projects := [sample_project\<lparr>pj_removal_generation := pj_removal_generation sample_project + 1\<rparr>]\<rparr>)"
    using sample_names
    by (simp add: insert_session_row_def new_session_row_def resumed_record_def probed_store_def finished_store_def
        sample_store_def finished_row_def sample_row_def bump_worktree_project_def select_by_simps sample_worktree_def
        bump_project_def sample_project_def project.defs update_where_def MAX_GENERATION_def)
  have link: "insert_resumption_row \<lparr>predecessor = SessionId 2, successor = SessionId 9, rs_created_at = 6\<rparr>
      (probed_store\<lparr>db_sessions := [finished_row, new_session_row 6 resumed_record], db_projects := ps\<rparr>)
      = Inr (probed_store\<lparr>db_sessions := [finished_row, new_session_row 6 resumed_record], db_projects := ps,
          db_resumptions := [\<lparr>predecessor = SessionId 2, successor = SessionId 9, rs_created_at = 6\<rparr>]\<rparr>)" for ps
    by (simp add: insert_resumption_row_def new_session_row_def resumed_record_def probed_store_def finished_store_def
        finished_row_def sample_row_def)
  have ids: "ns_resumed_from resumed_record = Some (SessionId 2)" "ns_id resumed_record = SessionId 9"
    by (simp_all add: resumed_record_def)
  have read: "load_session_row (st\<lparr>db_sessions := [finished_row, new_session_row 6 resumed_record],
      db_projects := ps, db_resumptions := ls\<rparr>) (SessionId 9) = Inr (new_session_row 6 resumed_record)" for st ps ls
    unfolding load_session_row_Inr
    by (simp add: select_by_simps) (simp add: new_session_row_def resumed_record_def finished_row_def sample_row_def)
  show ?thesis
    by (simp add: insert_session_def ids source row link read bind_result_def Let_def)
qed

lemma running_row_ok: "p \<noteq> 0 \<Longrightarrow> row_ok ((new_session_row n r)\<lparr>se_status := (se_status (new_session_row n r))\<lparr>st_lifecycle := Running\<rparr>,
    se_process_id := Some p, se_started_at := a, se_last_activity_at := b, se_failure_reason := None\<rparr>)"
  by (simp add: row_ok_def new_session_row_def starting_status_def valid_status_def validate_def)

lemma started_session_runs:
  assumes "rows_ok st" "rows st i = Some (new_session_row n r)" "pid \<noteq> 0"
  shows "\<exists>s st'. mark_session_running now i pid st = Inr (s, st')"
proof -
  let ?P = "\<lambda>s. st_lifecycle (se_status s) = Starting \<or> st_lifecycle (se_status s) = Running"
  let ?f = "\<lambda>s. s\<lparr>se_status := (se_status s)\<lparr>st_lifecycle := Running\<rparr>, se_process_id := Some pid,
       se_started_at := (case se_started_at s of None \<Rightarrow> Some now | t \<Rightarrow> t),
       se_last_activity_at := now, se_failure_reason := None\<rparr>"
  have start: "?P (new_session_row n r)" by (simp add: new_session_row_def starting_status_def)
  have q: "new_session_row n r \<in> set (db_sessions st)" "se_id (new_session_row n r) = i"
    using assms(2) by (auto simp: rows_def dest: select_by_SomeD)
  then have u: "update_session i ?P ?f st
      = Some (st\<lparr>db_sessions := update_where (\<lambda>s. se_id s = i \<and> ?P s) ?f (db_sessions st)\<rparr>)"
    using start by (auto simp: update_session_def list_ex_iff)
  have "select_by se_id i (update_where (\<lambda>s. se_id s = i \<and> ?P s) ?f (db_sessions st)) = Some (?f (new_session_row n r))"
    using assms(2) q(2) start by (subst select_by_update_where) (auto simp: rows_def)
  then have "load_session_row (st\<lparr>db_sessions := update_where (\<lambda>s. se_id s = i \<and> ?P s) ?f (db_sessions st)\<rparr>) i
      = Inr (?f (new_session_row n r))"
    using running_row_ok [OF assms(3)] by (simp add: load_session_row_Inr)
  then show ?thesis unfolding mark_session_running_def u by (simp add: Let_def bind_result_def)
qed

lemma sample_spawned:
  assumes "store_of d = probed_store"
  shows "\<exists>s d'. spawn_managed_session describe (ln_clock sample_launcher) resumed_record False be (Inr 42) d = (Inr s, d')"
proof -
  have now: "ck_now (ln_clock sample_launcher) = 6" by (simp add: sample_launcher_def)
  obtain s st where ins: "insert_session 6 resumed_record (store_of d) = Inr (s, st)"
    using sample_inserted assms by auto
  have "distinct (map se_id (db_sessions probed_store))" by (simp add: probed_store_def finished_store_def)
  then have "rows_ok (store_of d)" by (simp add: rows_ok_def assms)
  from insert_session_row [OF this ins] have "rows_ok st"
      "rows st (ns_id resumed_record) = Some (new_session_row 6 resumed_record)"
    by (simp_all add: row_change_def)
  from started_session_runs [OF this, of 42 6] obtain s2 st2 where
    mark: "mark_session_running 6 (ns_id resumed_record) 42 st = Inr (s2, st2)" by auto
  have "run_command False (insert_session 6 resumed_record) d = (Inr s, with_store False st d)"
    "run_command True (mark_session_running 6 (ns_id resumed_record) 42) (with_store False st d)
       = (Inr s2, with_store True st2 (with_store False st d))"
    using ins mark by (simp_all add: run_command_Inr)
  then show ?thesis by (simp add: spawn_managed_session_def now Let_def)
qed

lemma sample_resumed:
  "\<exists>s d'. resume_conversation sample_launcher (SessionId 2) idle_daemon
     = (Inr (ConversationOpened (Some (SessionId 2)) s CreatedSuccessor), d')"
proof -
  have st: "store_of idle_daemon = finished_store" "store_of probed_daemon = probed_store"
    by (simp_all add: idle_daemon_def daemon_start_def database_open_def probed_daemon_def)
  have row: "se_provider_kind finished_row = Codex" "se_worktree_id finished_row = WorktreeId 1"
    "se_id finished_row = SessionId 2" "se_display_name finished_row = lit ''work''" "se_provider_profile_id finished_row = None"
    by (simp_all add: finished_row_def sample_row_def)
  have path: "wt_canonical_path sample_worktree = lit ''/repo''" by (simp add: sample_worktree_def)
  have token: "is_loopback_host (lit ''127.0.0.1'')" "byte_len (replicate 32 97) = 32" "\<not> list_ex (\<lambda>c. \<not> is_ascii_graphic c) (replicate 32 97)" by code_simp+
  have byte_len_u: "byte_len (lit ''u'') = 1" "lit ''u'' \<noteq> []" by code_simp+
  have "\<exists>e. lifecycle_endpoint_new (ln_parse_url sample_launcher) Codex (SessionId 9) (WorktreeId 1)
      (ln_endpoint_url sample_launcher) (ln_token sample_launcher) = Inr e"
    by (simp add: lifecycle_endpoint_new_def sample_launcher_def sample_url_def token
        MAX_PROVIDER_LIFECYCLE_URL_LENGTH_def MIN_PROVIDER_LIFECYCLE_TOKEN_LENGTH_def
        MAX_PROVIDER_LIFECYCLE_TOKEN_LENGTH_def Let_def byte_len_u)
  then obtain e where e: "lifecycle_endpoint_new (ln_parse_url sample_launcher) Codex (SessionId 9) (WorktreeId 1)
      (ln_endpoint_url sample_launcher) (ln_token sample_launcher) = Inr e" ..
  define d1 where "d1 = probed_daemon\<lparr>dm_receiver := register Codex (SessionId 9) (WorktreeId 1)
      (ln_token sample_launcher) (ln_now sample_launcher) (dm_receiver probed_daemon)\<rparr>"
  have endpoint: "lifecycle_endpoint_for sample_launcher Codex (WorktreeId 1) probed_daemon = (Inr (Some e), d1)"
    by (simp add: lifecycle_endpoint_for_def supports_lifecycle_events_def sample_launcher_simps
        adapter_lifecycle_events_def lift_result_def and_then_def register_credential_def e d1_def)
  obtain rt where rt: "registry_resume (ln_machine sample_launcher) (ln_registry sample_launcher) Codex
          \<lparr>rx_session = SessionId 9, rx_worktree = WorktreeId 1,
           rx_external_session_id = ProviderConversationId (lit ''conversation''), rx_cwd = lit ''/repo'',
           rx_model = None, rx_effort = None, rx_endpoint = Some e\<rparr> = Inr rt"
      "rt_codex_app_server rt = False" "sp_executable (rt_launch rt) = lit ''codex''"
    by (simp add: registry_resume_def sample_launcher_simps configure_resume_def codex_resume_spec_def
        validate_external_id_def validate_selector_def refuse_if_def configure_lifecycle_overlay_def
        lit_def utf8_width_def char_class_defs bind_result_def)
  have "store_of d1 = probed_store" by (simp add: d1_def st)
  from sample_spawned [OF this] obtain s d' where
    s: "spawn_managed_session (ln_describe sample_launcher) (ln_clock sample_launcher) resumed_record False None (Inr 42) d1 = (Inr s, d')"
    by blast
  show ?thesis
    using s
    by (simp add: resume_conversation_def st finished_leaf sample_inspected and_then_def launch_resumed_successor_def
        Let_def row path sample_launcher_simps endpoint launch_configured_def rt resumed_record_def)
qed

theorem resume_continues_the_leaf_witness:
  "\<exists>s d'. resume_conversation sample_launcher (SessionId 2) idle_daemon
       = (Inr (ConversationOpened (Some (SessionId 2)) s CreatedSuccessor), d')
     \<and> load_lineage_leaf (store_of d') (SessionId 2) = Inr s"
proof -
  have st: "store_of idle_daemon = finished_store" by (simp add: idle_daemon_def daemon_start_def database_open_def)
  have "length (db_resumptions (store_of idle_daemon)) < MAX_SNAPSHOT_SESSION_LINEAGE_LINKS"
    by (simp add: st finished_store_def MAX_SNAPSHOT_SESSION_LINEAGE_LINKS_def)
  then show ?thesis
    using sample_resumed finished_inv resume_continues_the_leaf [of sample_launcher "SessionId 2" idle_daemon "SessionId 2"]
    unfolding st by blast
qed

theorem resume_without_successor_changes_nothing_witness:
  "\<exists>leaf d'. resume_conversation (sample_launcher\<lparr>ln_root_verified := \<lambda>_. False\<rparr>) (SessionId 2) idle_daemon
      = (Inr (ConversationUnavailable leaf (WorktreeUnavailable (WorktreeId 1))), d')
    \<and> db_sessions (store_of d') = db_sessions (store_of idle_daemon)"
proof -
  have st: "store_of idle_daemon = finished_store" by (simp add: idle_daemon_def daemon_start_def database_open_def)
  have row: "st_lifecycle (se_status finished_row) = Exited" "se_provider_kind finished_row = Codex"
    "se_external_session_id finished_row = Some (lit ''conversation'')" "se_worktree_id finished_row = WorktreeId 1"
    by (simp_all add: finished_row_def sample_row_def)
  have c: "conversation_id_try_from (lit ''conversation'') = Inr (ProviderConversationId (lit ''conversation''))"
    by (simp add: conversation_id_try_from_def lit_def utf8_width_def char_class_defs
        MAX_PROVIDER_CONVERSATION_ID_LENGTH_def)
  have w: "\<exists>x. verified_worktree (sample_launcher\<lparr>ln_root_verified := \<lambda>_. False\<rparr>) (WorktreeId 1) idle_daemon = (Inl x, idle_daemon)"
    by (simp add: verified_worktree_def st finished_store_def
        sample_store_def load_worktree_def select_by_simps sample_worktree_def)
  have r: "resume_conversation (sample_launcher\<lparr>ln_root_verified := \<lambda>_. False\<rparr>) (SessionId 2) idle_daemon
      = (Inr (ConversationUnavailable finished_row (WorktreeUnavailable (WorktreeId 1))), idle_daemon)"
    using w by (auto simp: resume_conversation_def st finished_leaf inspect_resume_leaf_def Let_def row c and_then_def
        lifecycle_is_active_def lifecycle_allows_resume_def)
  show ?thesis using resume_without_successor_changes_nothing [OF r] r by auto
qed

end
