(* ===== verification/Upgrade_Release.thy ===== *)
theory Upgrade_Release
  imports Text_Tools
begin

text \<open>
  Application releases (\<open>sylvops-core/src/upgrade.rs\<close>): the metadata of a release, the signed
  envelope it travels in, and the rules by which an installation accepts one. JSON, base64,
  Ed25519, URL and version parsing are parameters (\<open>release_env\<close>); the total order of versions is
  the class \<open>linorder\<close> of the type of parsed versions.
\<close>

section \<open>Data\<close>

type_synonym bytes = "u8 list"

definition RELEASE_SCHEMA_VERSION :: u16 where "RELEASE_SCHEMA_VERSION = 1"
definition MAX_RELEASE_METADATA_BYTES :: nat where "MAX_RELEASE_METADATA_BYTES = 64 * 1024"
definition MAX_RELEASE_NOTES_BYTES :: nat where "MAX_RELEASE_NOTES_BYTES = 32 * 1024"
definition MAX_UPGRADE_PAYLOAD_BYTES :: u64 where
  "MAX_UPGRADE_PAYLOAD_BYTES = 4 * 1024 * 1024 * 1024"
definition MAX_UPGRADE_CLIENT_PROCESSES :: nat where "MAX_UPGRADE_CLIENT_PROCESSES = 128"
definition MAX_UPGRADE_ACTIVE_SESSIONS :: nat where "MAX_UPGRADE_ACTIVE_SESSIONS = 128"
definition MAX_URL_BYTES :: nat where "MAX_URL_BYTES = 2048"

datatype release_platform = Windows | Macos | Linux
datatype release_architecture = X86_64 | Aarch64
datatype installer_kind = WindowsNsis | MacosDmg | LinuxAppImage | LinuxDeb

record release_target =
  rt_platform :: release_platform
  rt_architecture :: release_architecture
  rt_installer :: installer_kind

definition target_is_supported :: "release_target \<Rightarrow> bool" where
  "target_is_supported t \<longleftrightarrow>
     (case (rt_platform t, rt_architecture t, rt_installer t) of
        (Windows, X86_64, WindowsNsis) \<Rightarrow> True
      | (Macos, _, MacosDmg) \<Rightarrow> True
      | (Linux, X86_64, LinuxAppImage) \<Rightarrow> True
      | (Linux, X86_64, LinuxDeb) \<Rightarrow> True
      | _ \<Rightarrow> False)"

record release =
  rl_schema_version :: u16
  rl_minimum_source_version :: str
  rl_target_version :: str
  rl_target :: release_target
  rl_installer_url :: str
  rl_byte_length :: u64
  rl_sha256 :: str
  rl_release_notes_url :: str
  rl_release_notes :: str
  rl_published_at :: int

record signed_release =
  sg_release :: release
  sg_signature :: str

record release_context =
  rc_current_version :: str
  rc_expected_target :: release_target
  rc_now :: int
  rc_oldest_allowed :: int
  rc_newest_seen :: "int option"

datatype release_error =
    Malformed | OversizedMetadata | OversizedReleaseNotes | UnsupportedSchema | InvalidSignature
  | WrongTarget | InvalidLength | InvalidDigest | InvalidUrl | InvalidVersion
  | UnsupportedSourceVersion | CurrentVersion | Downgrade | StalePublication | ReplayedPublication

text \<open>
  The libraries: \<open>serde_json\<close> in both directions, the standard base64 alphabet, the 64 bytes of
  an Ed25519 signature and its verification under the embedded key, \<open>Url::parse\<close> and
  \<open>Version::parse\<close>.
\<close>

record 'v release_env =
  re_parse_envelope :: "bytes \<Rightarrow> signed_release option"
  re_signed_bytes :: "release \<Rightarrow> bytes option"
  re_base64 :: "str \<Rightarrow> bytes option"
  re_signature :: "bytes \<Rightarrow> bytes option"
  re_verifies :: "bytes \<Rightarrow> bytes \<Rightarrow> bool"
  re_url :: url_parser
  re_version :: "str \<Rightarrow> 'v option"

section \<open>Acceptance\<close>

text \<open>\<open>i64\<close> values are integers within these bounds; \<open>saturating_add\<close> clamps to them.\<close>

definition I64_MAX :: int where "I64_MAX = 2 ^ 63 - 1"
definition I64_MIN :: int where "I64_MIN = - (2 ^ 63)"

definition i64_saturating_add :: "int \<Rightarrow> int \<Rightarrow> int" where
  "i64_saturating_add a b = max I64_MIN (min I64_MAX (a + b))"

definition validate_release_url :: "url_parser \<Rightarrow> str \<Rightarrow> release_error + unit" where
  "validate_release_url parse v =
     (if byte_len v > MAX_URL_BYTES then Inl InvalidUrl
      else case parse v of
        None \<Rightarrow> Inl InvalidUrl
      | Some u \<Rightarrow>
          refuse_if (ur_scheme u \<noteq> lit ''https'' \<or> ur_host u = None \<or> ur_username u \<noteq> []
            \<or> ur_password u \<noteq> None \<or> ur_query u \<noteq> None \<or> ur_fragment u \<noteq> None) InvalidUrl)"

text \<open>\<open>is_ascii_hexdigit() && !is_ascii_uppercase()\<close> on every byte: a character outside ASCII has
  only bytes outside it, so the test on characters is the test on bytes.\<close>

definition is_digest :: "str \<Rightarrow> bool" where
  "is_digest s \<longleftrightarrow> byte_len s = 64
     \<and> list_all (\<lambda>c. is_ascii_hexdigit c \<and> \<not> is_ascii_uppercase c) s"

definition parsed_version :: "(str \<Rightarrow> 'v option) \<Rightarrow> str \<Rightarrow> release_error + 'v" where
  "parsed_version parse s = (case parse s of None \<Rightarrow> Inl InvalidVersion | Some v \<Rightarrow> Inr v)"

definition compare_versions :: "(str \<Rightarrow> ('v::linorder) option) \<Rightarrow> release_context \<Rightarrow> release \<Rightarrow> release_error + unit" where
  "compare_versions parse c r =
     bind_result (parsed_version parse (rc_current_version c)) (\<lambda>current.
     bind_result (parsed_version parse (rl_minimum_source_version r)) (\<lambda>minimum.
     bind_result (parsed_version parse (rl_target_version r)) (\<lambda>target.
       if current < minimum then Inl UnsupportedSourceVersion
       else if target = current then Inl CurrentVersion
       else if target < current then Inl Downgrade
       else Inr ())))"

definition validate_release :: "('v::linorder) release_env \<Rightarrow> release_context \<Rightarrow> release \<Rightarrow> release_error + unit" where
  "validate_release env c r =
     (if rl_schema_version r \<noteq> RELEASE_SCHEMA_VERSION then Inl UnsupportedSchema
      else if \<not> target_is_supported (rl_target r) \<or> rl_target r \<noteq> rc_expected_target c then Inl WrongTarget
      else if rl_byte_length r = 0 \<or> rl_byte_length r > MAX_UPGRADE_PAYLOAD_BYTES then Inl InvalidLength
      else if \<not> is_digest (rl_sha256 r) then Inl InvalidDigest
      else
        bind_result (validate_release_url (re_url env) (rl_installer_url r)) (\<lambda>_.
        bind_result (validate_release_url (re_url env) (rl_release_notes_url r)) (\<lambda>_.
          if byte_len (rl_release_notes r) > MAX_RELEASE_NOTES_BYTES then Inl OversizedReleaseNotes
          else if rl_published_at r < rc_oldest_allowed c
                  \<or> rl_published_at r > i64_saturating_add (rc_now c) 300 then Inl StalePublication
          else if (case rc_newest_seen c of None \<Rightarrow> False | Some seen \<Rightarrow> rl_published_at r < seen)
            then Inl ReplayedPublication
          else compare_versions (re_version env) c r)))"

definition decode_and_verify :: "('v, 'm) release_env_scheme \<Rightarrow> bytes \<Rightarrow> release_error + signed_release" where
  "decode_and_verify env bs =
     (if length bs > MAX_RELEASE_METADATA_BYTES then Inl OversizedMetadata
      else case re_parse_envelope env bs of
        None \<Rightarrow> Inl Malformed
      | Some e \<Rightarrow>
          (case Option.bind (re_base64 env (sg_signature e)) (re_signature env) of
             None \<Rightarrow> Inl InvalidSignature
           | Some s \<Rightarrow>
               (case re_signed_bytes env (sg_release e) of
                  None \<Rightarrow> Inl Malformed
                | Some m \<Rightarrow> if re_verifies env m s then Inr e else Inl InvalidSignature)))"

definition decode_and_validate ::
    "('v::linorder) release_env \<Rightarrow> release_context \<Rightarrow> bytes \<Rightarrow> release_error + release" where
  "decode_and_validate env c bs =
     bind_result (decode_and_verify env bs) (\<lambda>e.
     bind_result (validate_release env c (sg_release e)) (\<lambda>_. Inr (sg_release e)))"

definition decode_and_validate_for_publication ::
    "('v::linorder) release_env \<Rightarrow> release_context \<Rightarrow> bytes \<Rightarrow> release_error + release" where
  "decode_and_validate_for_publication env c bs =
     bind_result (decode_and_verify env bs) (\<lambda>e.
       case validate_release env c (sg_release e) of
         Inr _ \<Rightarrow> Inr (sg_release e)
       | Inl CurrentVersion \<Rightarrow> Inr (sg_release e)
       | Inl error \<Rightarrow> Inl error)"

section \<open>Where releases are published\<close>

text \<open>\<open>current_release_target\<close> on a build: the operating system, the architecture and whether the
  process runs from an AppImage.\<close>

fun current_release_target :: "release_platform \<Rightarrow> release_architecture \<Rightarrow> bool \<Rightarrow> release_target option" where
  "current_release_target Windows X86_64 _ =
     Some \<lparr>rt_platform = Windows, rt_architecture = X86_64, rt_installer = WindowsNsis\<rparr>"
| "current_release_target Macos a _ =
     Some \<lparr>rt_platform = Macos, rt_architecture = a, rt_installer = MacosDmg\<rparr>"
| "current_release_target Linux X86_64 appimage =
     Some \<lparr>rt_platform = Linux, rt_architecture = X86_64,
           rt_installer = (if appimage then LinuxAppImage else LinuxDeb)\<rparr>"
| "current_release_target _ _ _ = None"

definition manifest_url :: "release_target \<Rightarrow> str" where
  "manifest_url t =
     (let suffix = (case rt_installer t of
          WindowsNsis \<Rightarrow> lit ''windows-x86_64-nsis''
        | MacosDmg \<Rightarrow> (if rt_architecture t = X86_64 then lit ''macos-x86_64-dmg'' else lit ''macos-aarch64-dmg'')
        | LinuxAppImage \<Rightarrow> lit ''linux-x86_64-appimage''
        | LinuxDeb \<Rightarrow> lit ''linux-x86_64-deb'')
      in lit ''https://github.com/devemit/sylvops/releases/latest/download/sylvops-update-''
           @ suffix @ lit ''.json'')"

section \<open>What acceptance implies\<close>

text \<open>A release an installation may install: its own platform, a bounded payload with a digest, and
  strictly newer than the running version, which is at least the minimum it upgrades from.\<close>

definition upgrade_for :: "('v::linorder) release_env \<Rightarrow> str \<Rightarrow> release_target \<Rightarrow> release \<Rightarrow> bool" where
  "upgrade_for env current target r \<longleftrightarrow>
     target_is_supported (rl_target r) \<and> rl_target r = target
     \<and> 0 < unat (rl_byte_length r) \<and> unat (rl_byte_length r) \<le> unat MAX_UPGRADE_PAYLOAD_BYTES
     \<and> is_digest (rl_sha256 r)
     \<and> (\<exists>v lo w. re_version env current = Some v \<and> re_version env (rl_minimum_source_version r) = Some lo
          \<and> re_version env (rl_target_version r) = Some w \<and> lo \<le> v \<and> v < w)"

lemma parsed_version_eq_Inr [simp]: "parsed_version parse s = Inr v \<longleftrightarrow> parse s = Some v"
  by (simp add: parsed_version_def split: option.split)

lemma compare_versions_Inr:
  "compare_versions parse c r = Inr u \<longleftrightarrow>
     (\<exists>v lo w. parse (rc_current_version c) = Some v \<and> parse (rl_minimum_source_version r) = Some lo
        \<and> parse (rl_target_version r) = Some w \<and> lo \<le> v \<and> v < w)"
proof (cases "parse (rc_current_version c)"; cases "parse (rl_minimum_source_version r)";
    cases "parse (rl_target_version r)")
  fix v lo w
  assume "parse (rc_current_version c) = Some v" "parse (rl_minimum_source_version r) = Some lo"
    "parse (rl_target_version r) = Some w"
  moreover have "lo \<le> v \<and> v < w \<longleftrightarrow> \<not> v < lo \<and> w \<noteq> v \<and> \<not> w < v" by auto
  ultimately show ?thesis by (simp add: compare_versions_def parsed_version_def)
qed (simp_all add: compare_versions_def parsed_version_def)

lemma compare_versions_current:
  "compare_versions parse c r = Inl CurrentVersion \<Longrightarrow>
     \<exists>v. parse (rc_current_version c) = Some v \<and> parse (rl_target_version r) = Some v"
  by (auto simp: compare_versions_def parsed_version_def bind_result_def
      split: option.splits sum.splits if_splits)

text \<open>What every accepted publication satisfies, whatever its version.\<close>

definition publication_ok :: "('v, 'm) release_env_scheme \<Rightarrow> release_context \<Rightarrow> release \<Rightarrow> bool" where
  "publication_ok env c r \<longleftrightarrow>
     rl_schema_version r = RELEASE_SCHEMA_VERSION
     \<and> target_is_supported (rl_target r) \<and> rl_target r = rc_expected_target c
     \<and> rl_byte_length r \<noteq> 0 \<and> rl_byte_length r \<le> MAX_UPGRADE_PAYLOAD_BYTES
     \<and> is_digest (rl_sha256 r)
     \<and> validate_release_url (re_url env) (rl_installer_url r) = Inr ()
     \<and> validate_release_url (re_url env) (rl_release_notes_url r) = Inr ()
     \<and> byte_len (rl_release_notes r) \<le> MAX_RELEASE_NOTES_BYTES
     \<and> rc_oldest_allowed c \<le> rl_published_at r
     \<and> rl_published_at r \<le> i64_saturating_add (rc_now c) 300
     \<and> (\<forall>seen. rc_newest_seen c = Some seen \<longrightarrow> seen \<le> rl_published_at r)"

lemma validate_release_url_error: "validate_release_url p u = Inl e \<Longrightarrow> e = InvalidUrl"
  by (auto simp: validate_release_url_def split: if_splits option.splits)

lemma validate_release_ok:
  "publication_ok env c r \<Longrightarrow> validate_release env c r = compare_versions (re_version env) c r"
  by (auto simp: publication_ok_def validate_release_def not_less split: option.split)

lemma validate_release_bad:
  assumes "\<not> publication_ok env c r"
  shows "\<exists>e. validate_release env c r = Inl e \<and> e \<noteq> CurrentVersion"
  using assms
  by (cases "validate_release_url (re_url env) (rl_installer_url r)";
      cases "validate_release_url (re_url env) (rl_release_notes_url r)")
    (auto simp: publication_ok_def validate_release_def not_less not_le
      dest: validate_release_url_error split: option.splits)

lemma validate_release_Inr:
  "validate_release env c r = Inr u \<longleftrightarrow>
     publication_ok env c r \<and> compare_versions (re_version env) c r = Inr u"
  using validate_release_ok [of env c r] validate_release_bad [of env c r] by (cases "publication_ok env c r") auto

lemma decode_and_validate_Inr:
  "decode_and_validate env c bs = Inr r \<longleftrightarrow>
     (\<exists>e. decode_and_verify env bs = Inr e \<and> sg_release e = r \<and> publication_ok env c r
        \<and> upgrade_for env (rc_current_version c) (rc_expected_target c) r)"
  by (auto simp: decode_and_validate_def bind_result_eq_Inr validate_release_Inr compare_versions_Inr
      upgrade_for_def publication_ok_def word_le_nat_alt word_less_nat_alt unat_gt_0)

lemma decode_for_publication_Inr:
  "decode_and_validate_for_publication env c bs = Inr r \<Longrightarrow>
     \<exists>e. decode_and_verify env bs = Inr e \<and> sg_release e = r \<and> publication_ok env c r
        \<and> (upgrade_for env (rc_current_version c) (rc_expected_target c) r
           \<or> (\<exists>v. re_version env (rc_current_version c) = Some v \<and> re_version env (rl_target_version r) = Some v))"
proof -
  assume ok: "decode_and_validate_for_publication env c bs = Inr r"
  then obtain e where e: "decode_and_verify env bs = Inr e"
    and k: "(case validate_release env c (sg_release e) of
              Inr _ \<Rightarrow> Inr (sg_release e) | Inl CurrentVersion \<Rightarrow> Inr (sg_release e)
            | Inl error \<Rightarrow> Inl error) = Inr r"
    unfolding decode_and_validate_for_publication_def by (rule bind_resultE)
  have rv: "sg_release e = r \<and> (validate_release env c r = Inr () \<or> validate_release env c r = Inl CurrentVersion)"
  proof (cases "validate_release env c (sg_release e)")
    case (Inl x)
    then show ?thesis using k by (cases x) simp_all
  next
    case (Inr u)
    then show ?thesis using k by simp
  qed
  then have r: "sg_release e = r"
    and v: "validate_release env c r = Inr () \<or> validate_release env c r = Inl CurrentVersion" by auto
  have pub: "publication_ok env c r"
  proof (rule ccontr)
    assume "\<not> ?thesis"
    from validate_release_bad [OF this] show False using v by auto
  qed
  then have cmp: "compare_versions (re_version env) c r = Inr () \<or>
      compare_versions (re_version env) c r = Inl CurrentVersion"
    using v by (simp add: validate_release_ok)
  then show ?thesis
  proof
    assume "compare_versions (re_version env) c r = Inr ()"
    then have "decode_and_validate env c bs = Inr r"
      using pub e r by (simp add: decode_and_validate_def validate_release_ok)
    then show ?thesis by (auto simp: decode_and_validate_Inr)
  next
    assume "compare_versions (re_version env) c r = Inl CurrentVersion"
    then show ?thesis using e r pub compare_versions_current by blast
  qed
qed

end
