(* ===== verification/Upgrade_Coordinator.thy ===== *)
theory Upgrade_Coordinator
  imports Upgrade_Release
begin

text \<open>
  The upgrade coordinator of the daemon (\<open>sylvops-daemon/src/upgrade.rs\<close>): the bounded HTTP source,
  the files of the staging directory with every way an operation on them can fail, the publication
  watermark, and the operations that check for, download, recover and prepare an upgrade.
  An operation runs alone: the requests that reach it hold the application mutation lease.
\<close>

section \<open>Errors\<close>

datatype upgrade_error =
    NoAvailableRelease | NoStagedRelease | Cancelled | UnsafeStagingPath | LengthMismatch
  | DigestMismatch | InvalidPublicationWatermark | PublicationWatermarkPersistence
  | Validation release_error | Io | OutcomeMismatch | ReleaseService str

definition validated_by :: "release_error + 'a \<Rightarrow> upgrade_error + 'a" where
  "validated_by r = (case r of Inl e \<Rightarrow> Inl (Validation e) | Inr x \<Rightarrow> Inr x)"

section \<open>The HTTP release source\<close>

definition ALLOWED_RELEASE_HOSTS :: "str list" where
  "ALLOWED_RELEASE_HOSTS = [lit ''github.com'', lit ''objects.githubusercontent.com'',
     lit ''release-assets.githubusercontent.com'']"

definition MAX_REDIRECTS :: nat where "MAX_REDIRECTS = 5"

definition port_or_known_default :: "parsed_url \<Rightarrow> u16 option" where
  "port_or_known_default u =
     (case ur_port u of Some p \<Rightarrow> Some p
      | None \<Rightarrow> if ur_scheme u \<in> {lit ''https'', lit ''wss''} then Some 443
                else if ur_scheme u \<in> {lit ''http'', lit ''ws''} then Some 80
                else if ur_scheme u = lit ''ftp'' then Some 21 else None)"

definition is_allowed_release_url :: "parsed_url \<Rightarrow> bool" where
  "is_allowed_release_url u \<longleftrightarrow>
     ur_scheme u = lit ''https'' \<and> ur_username u = [] \<and> ur_password u = None
     \<and> port_or_known_default u = Some 443
     \<and> (case ur_host u of None \<Rightarrow> False | Some h \<Rightarrow> h \<in> set ALLOWED_RELEASE_HOSTS)"

datatype redirect_action = FollowRedirect | StopRedirect | FailRedirect

definition redirect_policy :: "nat \<Rightarrow> parsed_url \<Rightarrow> redirect_action" where
  "redirect_policy previous u =
     (if previous \<ge> MAX_REDIRECTS then FailRedirect
      else if is_allowed_release_url u then FollowRedirect else StopRedirect)"

definition release_source_github :: "url_parser \<Rightarrow> str \<Rightarrow> upgrade_error + str" where
  "release_source_github parse metadata_url =
     (case parse metadata_url of
        None \<Rightarrow> Inl (ReleaseService (lit ''release endpoint is invalid''))
      | Some u \<Rightarrow> if \<not> is_allowed_release_url u
          then Inl (ReleaseService (lit ''release endpoint is outside the allowed GitHub origin''))
          else Inr metadata_url)"

text \<open>A response: its status, its \<open>Content-Length\<close> when it has one, and the chunks of its body;
  \<open>None\<close> is a failed transfer.\<close>

datatype http_response = Response (hr_status: u16) (hr_length: "u64 option") (hr_body: "bytes option list")

definition is_success :: "u16 \<Rightarrow> bool" where "is_success s \<longleftrightarrow> 200 \<le> s \<and> s < 300"

fun collect_body :: "u64 \<Rightarrow> bytes \<Rightarrow> bytes option list \<Rightarrow> upgrade_error + bytes" where
  "collect_body limit bs [] = Inr bs"
| "collect_body limit bs (None # cs) = Inl (ReleaseService (lit ''release transfer failed''))"
| "collect_body limit bs (Some c # cs) =
     (if length bs + length c > unat limit
      then Inl (ReleaseService (lit ''release response exceeds its byte limit''))
      else collect_body limit (bs @ c) cs)"

definition bounded_response :: "u64 \<Rightarrow> http_response \<Rightarrow> upgrade_error + bytes" where
  "bounded_response limit r =
     (if \<not> is_success (hr_status r)
      then Inl (ReleaseService (lit ''release service returned HTTP '' @ decimal (unat (hr_status r))))
      else if (case hr_length r of None \<Rightarrow> False | Some n \<Rightarrow> n > limit)
      then Inl (ReleaseService (lit ''release response exceeds its byte limit''))
      else collect_body limit [] (hr_body r))"

definition fetch_metadata :: "http_response option \<Rightarrow> upgrade_error + bytes" where
  "fetch_metadata r =
     (case r of None \<Rightarrow> Inl (ReleaseService (lit ''release metadata request failed''))
      | Some r \<Rightarrow> bounded_response (of_nat MAX_RELEASE_METADATA_BYTES) r)"

section \<open>The staging directory\<close>

text \<open>
  The files the coordinator keeps under its staging root, each absent, regular, or a link with what
  the file behind it holds. Every operation on the directory takes the next outcome of
  \<open>dk_outcomes\<close> (\<open>Works\<close> when none is left): it may fail without effect, or part way, leaving the
  given bytes. A process that dies is one whose later operations all fail.
\<close>

datatype staged_file = PayloadPartial | PayloadStaged | ReleasePartial | ReleaseJson | WatermarkFile
datatype entry = Regular bytes | Link "bytes option"
datatype io_outcome = Works | Fails | Partly bytes

record disk =
  dk_entries :: "staged_file \<Rightarrow> entry option"
  dk_outcomes :: "io_outcome list"
  dk_root_link :: bool
  dk_root_canonical :: bool

definition contents :: "staged_file \<Rightarrow> disk \<Rightarrow> bytes option" where
  "contents f d = (case dk_entries d f of
       None \<Rightarrow> None | Some (Regular b) \<Rightarrow> Some b | Some (Link b) \<Rightarrow> b)"

definition set_entry :: "staged_file \<Rightarrow> entry option \<Rightarrow> disk \<Rightarrow> disk" where
  "set_entry f e d = d\<lparr>dk_entries := (dk_entries d)(f := e)\<rparr>"

text \<open>Opening a file for writing follows a link.\<close>

definition store_bytes :: "staged_file \<Rightarrow> bytes \<Rightarrow> disk \<Rightarrow> disk" where
  "store_bytes f b d = set_entry f
     (case dk_entries d f of Some (Link _) \<Rightarrow> Some (Link (Some b)) | _ \<Rightarrow> Some (Regular b)) d"

definition next_outcome :: "disk \<Rightarrow> io_outcome" where
  "next_outcome d = (case dk_outcomes d of [] \<Rightarrow> Works | x # _ \<Rightarrow> x)"

definition later :: "disk \<Rightarrow> disk" where
  "later d = d\<lparr>dk_outcomes := tl (dk_outcomes d)\<rparr>"

type_synonym 'a io = "disk \<Rightarrow> (upgrade_error + 'a) \<times> disk"

definition io_step :: "unit io" where
  "io_step d = ((if next_outcome d = Works then Inr () else Inl Io), later d)"

definition prepare_staging_root :: "bool \<Rightarrow> unit io" where
  "prepare_staging_root require_canonical d =
     and_then (io_step d) (\<lambda>_ d.
       ((if dk_root_link d \<or> (require_canonical \<and> \<not> dk_root_canonical d)
         then Inl UnsafeStagingPath else Inr ()), d))"

definition remove_file_if_present :: "staged_file \<Rightarrow> unit io" where
  "remove_file_if_present f d =
     (if next_outcome d = Works then (Inr (), set_entry f None (later d)) else (Inl Io, later d))"

definition try_exists :: "staged_file \<Rightarrow> bool io" where
  "try_exists f d =
     (if next_outcome d = Works then (Inr (contents f d \<noteq> None), later d) else (Inl Io, later d))"

definition read_file :: "staged_file \<Rightarrow> bytes io" where
  "read_file f d =
     (case (next_outcome d, contents f d) of
        (Works, Some b) \<Rightarrow> (Inr b, later d)
      | _ \<Rightarrow> (Inl Io, later d))"

definition write_file :: "staged_file \<Rightarrow> bytes \<Rightarrow> unit io" where
  "write_file f b d =
     (case next_outcome d of
        Works \<Rightarrow> (Inr (), store_bytes f b (later d))
      | Fails \<Rightarrow> (Inl Io, later d)
      | Partly p \<Rightarrow> (Inl Io, store_bytes f p (later d)))"

definition rename_file :: "staged_file \<Rightarrow> staged_file \<Rightarrow> unit io" where
  "rename_file a b d =
     (if next_outcome d = Works \<and> dk_entries d a \<noteq> None
      then (Inr (), set_entry a None (set_entry b (dk_entries d a) (later d)))
      else (Inl Io, later d))"

text \<open>\<open>atomic_file::write\<close>: a temporary file renamed over the target. A failure after the renaming
  (the directory cannot be synchronized) is reported although the target was replaced.\<close>

definition atomic_write :: "staged_file \<Rightarrow> bytes \<Rightarrow> unit io" where
  "atomic_write f b d =
     (case next_outcome d of
        Works \<Rightarrow> (Inr (), set_entry f (Some (Regular b)) (later d))
      | Fails \<Rightarrow> (Inl PublicationWatermarkPersistence, later d)
      | Partly _ \<Rightarrow> (Inl PublicationWatermarkPersistence, set_entry f (Some (Regular b)) (later d)))"

definition read_bounded_file :: "staged_file \<Rightarrow> nat \<Rightarrow> bytes io" where
  "read_bounded_file f limit d =
     (case dk_entries d f of
        Some (Link _) \<Rightarrow> (if next_outcome d = Works then (Inl UnsafeStagingPath, later d) else (Inl Io, later d))
      | _ \<Rightarrow> and_then (read_file f d) (\<lambda>b d.
          ((if length b > limit then Inl (Validation OversizedMetadata) else Inr b), d)))"

definition remove_all :: "staged_file list \<Rightarrow> disk \<Rightarrow> disk" where
  "remove_all fs d = foldl (\<lambda>d f. snd (remove_file_if_present f d)) d fs"

section \<open>Payloads\<close>

text \<open>What the transfer of a payload sees next: a chunk, a failure, or the cancellation.\<close>

datatype payload_event = Chunk bytes | TransferFails | CancelObserved

fun payload_loop :: "u64 \<Rightarrow> u64 \<Rightarrow> bytes \<Rightarrow> payload_event list \<Rightarrow> unit io" where
  "payload_loop limit received written [] d = io_step d"
| "payload_loop limit received written (CancelObserved # es) d = (Inl Cancelled, d)"
| "payload_loop limit received written (TransferFails # es) d =
     (Inl (ReleaseService (lit ''payload transfer failed'')), d)"
| "payload_loop limit received written (Chunk c # es) d =
     (if length c \<ge> 2 ^ 64 then (Inl (ReleaseService (lit ''payload chunk is oversized'')), d)
      else case checked_add received (of_nat (length c)) of
        None \<Rightarrow> (Inl (ReleaseService (lit ''payload is oversized'')), d)
      | Some n \<Rightarrow>
          if n > limit then (Inl (ReleaseService (lit ''payload is oversized'')), d)
          else and_then (write_file PayloadPartial (written @ c) d)
                 (\<lambda>_. payload_loop limit n (written @ c) es))"

definition write_payload_response :: "u64 \<Rightarrow> payload_event list \<Rightarrow> unit io" where
  "write_payload_response limit es d =
     and_then (write_file PayloadPartial [] d) (\<lambda>_. payload_loop limit 0 [] es)"

datatype payload_response =
    RequestFails | RequestCancelled | PayloadResponse u16 "u64 option" "payload_event list"

definition download_payload :: "url_parser \<Rightarrow> str \<Rightarrow> u64 \<Rightarrow> payload_response \<Rightarrow> unit io" where
  "download_payload parse url limit r d =
     (case parse url of
        None \<Rightarrow> (Inl (ReleaseService (lit ''payload URL is invalid'')), d)
      | Some u \<Rightarrow>
          if \<not> is_allowed_release_url u
          then (Inl (ReleaseService (lit ''payload URL is outside the allowed GitHub origin'')), d)
          else case r of
            RequestFails \<Rightarrow> (Inl (ReleaseService (lit ''payload request failed'')), d)
          | RequestCancelled \<Rightarrow> (Inl Cancelled, d)
          | PayloadResponse status len es \<Rightarrow>
              if \<not> is_success status \<or> (case len of None \<Rightarrow> False | Some n \<Rightarrow> n > limit)
              then (Inl (ReleaseService (lit ''payload response was refused'')), d)
              else write_payload_response limit es d)"

text \<open>\<open>verify_payload\<close> reads blocks of 64 KiB and stops as soon as the file is longer than announced.
  The SHA-256 digest in hexadecimal is a parameter.\<close>

fun verify_loop :: "u64 \<Rightarrow> u64 \<Rightarrow> bytes \<Rightarrow> bytes list \<Rightarrow> upgrade_error + u64 \<times> bytes" where
  "verify_loop limit n digested [] = Inr (n, digested)"
| "verify_loop limit n digested (b # bs) =
     (case checked_add n (of_nat (length b)) of
        None \<Rightarrow> Inl LengthMismatch
      | Some m \<Rightarrow> if m > limit then Inl LengthMismatch else verify_loop limit m (digested @ b) bs)"

function read_blocks :: "bytes \<Rightarrow> bytes list" where
  "read_blocks b = (if b = [] then [] else take 65536 b # read_blocks (drop 65536 b))"
  by pat_completeness auto
termination by (relation "measure length") auto

declare read_blocks.simps [simp del]

definition verify_bytes :: "(bytes \<Rightarrow> str) \<Rightarrow> release \<Rightarrow> bytes \<Rightarrow> upgrade_error + unit" where
  "verify_bytes sha256 r b =
     bind_result (verify_loop (rl_byte_length r) 0 [] (read_blocks b)) (\<lambda>(n, digested).
       if n \<noteq> rl_byte_length r then Inl LengthMismatch
       else refuse_if (sha256 digested \<noteq> rl_sha256 r) DigestMismatch)"

definition verify_payload :: "(bytes \<Rightarrow> str) \<Rightarrow> staged_file \<Rightarrow> release \<Rightarrow> unit io" where
  "verify_payload sha256 f r d = and_then (read_file f d) (\<lambda>b d. (verify_bytes sha256 r b, d))"

section \<open>The coordinator\<close>

text \<open>\<open>UpgradeStatus::Failed\<close> (\<open>UpgradeFailed\<close>) is never set by the coordinator. The payload of a \<open>StagedUpgrade\<close> is
  always \<open>payload.staged\<close> under the staging root.\<close>

datatype upgrade_status =
    Idle | UpToDate str | Available release | Downloading release | Staged release
  | Installing release | Installed str | RolledBack str | UpgradeFailed str

datatype native_outcome = OutcomeInstalled | OutcomeRolledBack

datatype install_disposition = Blocked "(uuid \<times> str) list" | Prepared str

record 'v upgrade_config =
  uc_env :: "'v release_env"
  uc_context :: release_context
  uc_bound :: bool
  uc_sha256 :: "bytes \<Rightarrow> str"
  uc_package_version :: str

record coordinator =
  co_available :: "release option"
  co_metadata :: "bytes option"
  co_staged :: "release option"
  co_status :: upgrade_status
  co_disk :: disk

type_synonym 'a upgrade_op = "coordinator \<Rightarrow> (upgrade_error + 'a) \<times> coordinator"

text \<open>\<open>new\<close>, also what a restarted daemon starts from: the files stay.\<close>

definition coordinator_new :: "disk \<Rightarrow> coordinator" where
  "coordinator_new d =
     \<lparr>co_available = None, co_metadata = None, co_staged = None, co_status = Idle, co_disk = d\<rparr>"

definition on_disk :: "'a io \<Rightarrow> 'a upgrade_op" where
  "on_disk f w = (case f (co_disk w) of (r, d) \<Rightarrow> (r, w\<lparr>co_disk := d\<rparr>))"

text \<open>\<open>validation\<close> moved forward by the seconds since the coordinator was created.\<close>

definition aged_context :: "release_context \<Rightarrow> nat \<Rightarrow> release_context" where
  "aged_context c seconds =
     (let elapsed = (if int seconds \<le> I64_MAX then int seconds else I64_MAX) in
      c\<lparr>rc_now := i64_saturating_add (rc_now c) elapsed,
        rc_oldest_allowed := i64_saturating_add (rc_oldest_allowed c) elapsed\<rparr>)"

subsection \<open>The publication watermark\<close>

definition MAX_PUBLICATION_WATERMARK_BYTES :: nat where "MAX_PUBLICATION_WATERMARK_BYTES = 32"

definition i64_text :: "int \<Rightarrow> str" where
  "i64_text v = (if v < 0 then lit ''-'' @ decimal (nat (- v)) else decimal (nat v))"

text \<open>\<open>parse::<i64>\<close>: an optional sign, at least one digit, within the bounds.\<close>

definition parse_i64 :: "str \<Rightarrow> int option" where
  "parse_i64 s =
     (let negative = starts_with (lit ''-'') s;
          digits = (if negative \<or> starts_with (lit ''+'') s then tl s else s);
          v = (if negative then - digits_value digits else digits_value digits)
      in if digits = [] \<or> \<not> list_all is_ascii_digit digits \<or> v < I64_MIN \<or> v > I64_MAX
         then None else Some v)"

text \<open>Text that is not ASCII has no number in it, whether or not it is UTF-8: reading the bytes as
  characters decides the same texts.\<close>

definition parse_watermark :: "bytes \<Rightarrow> int option" where
  "parse_watermark b = Option.bind (parse_i64 (map unat b)) (\<lambda>v. if v \<ge> 0 then Some v else None)"

definition read_publication_watermark :: "int option io" where
  "read_publication_watermark d =
     and_then (try_exists WatermarkFile d) (\<lambda>exists d.
       if \<not> exists then (Inr None, d)
       else and_then (read_bounded_file WatermarkFile MAX_PUBLICATION_WATERMARK_BYTES d) (\<lambda>b d.
         (case parse_watermark b of
            None \<Rightarrow> (Inl InvalidPublicationWatermark, d)
          | Some v \<Rightarrow> (Inr (Some v), d))))"

definition persist_publication_watermark :: "bool \<Rightarrow> int \<Rightarrow> unit io" where
  "persist_publication_watermark bound v d =
     and_then (prepare_staging_root bound d) (\<lambda>_.
       atomic_write WatermarkFile (utf8_bytes (i64_text v)))"

definition newest_watermark :: "int option \<Rightarrow> int option \<Rightarrow> int option" where
  "newest_watermark a b =
     (case (a, b) of (Some l, Some r) \<Rightarrow> Some (max l r) | (Some l, None) \<Rightarrow> Some l | (None, w) \<Rightarrow> w)"

subsection \<open>Checking\<close>

definition check_for_update ::
    "('v::linorder) upgrade_config \<Rightarrow> nat \<Rightarrow> http_response option \<Rightarrow> release option upgrade_op" where
  "check_for_update g seconds response w =
     and_then (fetch_metadata response, w) (\<lambda>bytes w.
     and_then (on_disk read_publication_watermark w) (\<lambda>persisted w.
       let c = (aged_context (uc_context g) seconds)
                 \<lparr>rc_newest_seen := newest_watermark (map_option rl_published_at (co_available w)) persisted\<rparr> in
     and_then (validated_by (decode_and_validate_for_publication (uc_env g) c bytes), w) (\<lambda>r w.
     and_then (on_disk (persist_publication_watermark (uc_bound g) (rl_published_at r)) w) (\<lambda>_ w.
       if rl_target_version r = rc_current_version c
       then (Inr None, w\<lparr>co_available := None, co_metadata := None, co_staged := None,
                         co_status := UpToDate (rc_current_version c)\<rparr>)
       else (Inr (Some r), w\<lparr>co_available := Some r, co_metadata := Some bytes, co_staged := None,
                             co_status := Available r\<rparr>)))))"

subsection \<open>Downloading\<close>

definition stage_files ::
    "'v upgrade_config \<Rightarrow> release \<Rightarrow> bytes \<Rightarrow> payload_response \<Rightarrow> bool \<Rightarrow> unit io" where
  "stage_files g r metadata response cancelled d =
     and_then (prepare_staging_root (uc_bound g) d) (\<lambda>_ d.
     and_then (remove_file_if_present PayloadPartial d) (\<lambda>_ d.
     and_then (remove_file_if_present ReleasePartial d) (\<lambda>_ d.
     and_then (download_payload (re_url (uc_env g)) (rl_installer_url r)
                 (min (rl_byte_length r) MAX_UPGRADE_PAYLOAD_BYTES) response d) (\<lambda>_ d.
     if cancelled then (Inl Cancelled, d) else
     and_then (verify_payload (uc_sha256 g) PayloadPartial r d) (\<lambda>_ d.
     and_then (write_file ReleasePartial metadata d) (\<lambda>_ d.
     and_then (remove_file_if_present PayloadStaged d) (\<lambda>_ d.
     and_then (remove_file_if_present ReleaseJson d) (\<lambda>_ d.
     and_then (rename_file PayloadPartial PayloadStaged d) (\<lambda>_ d.
       case rename_file ReleasePartial ReleaseJson d of
         (Inl e, d) \<Rightarrow> (Inl e, remove_all [PayloadStaged] d)
       | (Inr _, d) \<Rightarrow> (Inr (), d))))))))))"

definition all_staging_files :: "staged_file list" where
  "all_staging_files = [PayloadPartial, ReleasePartial, PayloadStaged, ReleaseJson]"

text \<open>The two booleans are what the flag of \<open>cancel_download\<close> reads after the transfer and after
  the staging.\<close>

definition download_upgrade ::
    "'v upgrade_config \<Rightarrow> payload_response \<Rightarrow> bool \<Rightarrow> bool \<Rightarrow> release upgrade_op" where
  "download_upgrade g response cancelled1 cancelled2 w =
     (case (co_available w, co_metadata w) of
        (Some r, Some metadata) \<Rightarrow>
          (let w = w\<lparr>co_status := Downloading r\<rparr>;
               abandon = (\<lambda>d. w\<lparr>co_disk := remove_all all_staging_files d, co_staged := None,
                                co_status := Available r\<rparr>)
           in case stage_files g r metadata response cancelled1 (co_disk w) of
                (Inl e, d) \<Rightarrow> (Inl e, abandon d)
              | (Inr _, d) \<Rightarrow>
                  if cancelled2 then (Inl Cancelled, abandon d)
                  else (Inr r, w\<lparr>co_disk := d, co_staged := Some r, co_status := Staged r\<rparr>))
      | _ \<Rightarrow> (Inl NoAvailableRelease, w))"

subsection \<open>Recovering after a restart\<close>

definition recover_files :: "('v::linorder) upgrade_config \<Rightarrow> nat \<Rightarrow> (bytes \<times> release) io" where
  "recover_files g seconds d =
     and_then (read_bounded_file ReleaseJson MAX_RELEASE_METADATA_BYTES d) (\<lambda>bytes d.
     and_then (validated_by (decode_and_validate (uc_env g) (aged_context (uc_context g) seconds) bytes), d) (\<lambda>r d.
     and_then (verify_payload (uc_sha256 g) PayloadStaged r d) (\<lambda>_ d. (Inr (bytes, r), d))))"

text \<open>\<open>!exists(metadata)? || !exists(payload)?\<close>: the second file is not looked at when the first is
  missing.\<close>

definition both_exist :: "bool io" where
  "both_exist d =
     and_then (try_exists ReleaseJson d) (\<lambda>a d.
       if a then try_exists PayloadStaged d else (Inr False, d))"

definition recover_staged :: "('v::linorder) upgrade_config \<Rightarrow> nat \<Rightarrow> bool upgrade_op" where
  "recover_staged g seconds w =
     and_then (on_disk (prepare_staging_root (uc_bound g)) w) (\<lambda>_ w.
     and_then (on_disk (remove_file_if_present PayloadPartial) w) (\<lambda>_ w.
     and_then (on_disk (remove_file_if_present ReleasePartial) w) (\<lambda>_ w.
     and_then (on_disk both_exist w) (\<lambda>present w.
       if \<not> present then
         and_then (on_disk (remove_file_if_present ReleaseJson) w) (\<lambda>_ w.
         and_then (on_disk (remove_file_if_present PayloadStaged) w) (\<lambda>_ w. (Inr False, w)))
       else case recover_files g seconds (co_disk w) of
         (Inl e, d) \<Rightarrow> (Inl e, w\<lparr>co_disk := remove_all [ReleaseJson, PayloadStaged] d\<rparr>)
       | (Inr (bytes, r), d) \<Rightarrow>
           (Inr True, w\<lparr>co_disk := d, co_available := Some r, co_metadata := Some bytes,
                        co_staged := Some r, co_status := Staged r\<rparr>)))))"

subsection \<open>Installing\<close>

definition prepare_install :: "'v upgrade_config \<Rightarrow> (uuid \<times> str) list \<Rightarrow> bool \<Rightarrow> install_disposition upgrade_op" where
  "prepare_install g active override_confirmed w =
     (if active \<noteq> [] \<and> \<not> override_confirmed then (Inr (Blocked active), w)
      else case co_staged w of
        None \<Rightarrow> (Inl NoStagedRelease, w)
      | Some r \<Rightarrow>
          and_then (on_disk (verify_payload (uc_sha256 g) PayloadStaged r) w) (\<lambda>_ w.
            (Inr (Prepared (rl_target_version r)), w\<lparr>co_status := Installing r\<rparr>)))"

definition cancel_prepared_install :: "coordinator \<Rightarrow> coordinator" where
  "cancel_prepared_install w =
     (case (co_status w, co_staged w) of
        (Installing _, Some r) \<Rightarrow> w\<lparr>co_status := Staged r\<rparr>
      | _ \<Rightarrow> w)"

definition already_recorded :: "upgrade_status \<Rightarrow> str \<Rightarrow> native_outcome \<Rightarrow> bool" where
  "already_recorded status version outcome \<longleftrightarrow>
     (case (status, outcome) of
        (Installed v, OutcomeInstalled) \<Rightarrow> v = version
      | (RolledBack v, OutcomeRolledBack) \<Rightarrow> v = version
      | _ \<Rightarrow> False)"

definition record_outcome :: "'v upgrade_config \<Rightarrow> str \<Rightarrow> native_outcome \<Rightarrow> unit upgrade_op" where
  "record_outcome g version outcome w =
     (if already_recorded (co_status w) version outcome then (Inr (), w)
      else
        let status =
          (if outcome = OutcomeInstalled \<and> version = uc_package_version g then Some (Installed version)
           else if outcome = OutcomeRolledBack \<and> map_option rl_target_version (co_staged w) = Some version
           then Some (RolledBack version) else None)
        in case status of
             None \<Rightarrow> (Inl OutcomeMismatch, w)
           | Some s \<Rightarrow>
               (let w = w\<lparr>co_status := s, co_available := None, co_metadata := None, co_staged := None\<rparr> in
                and_then (on_disk (remove_file_if_present ReleaseJson) w) (\<lambda>_ w.
                  on_disk (remove_file_if_present PayloadStaged) w)))"

end
