(* ===== verification/Upgrade_Files.thy ===== *)
theory Upgrade_Files
  imports Upgrade_Coordinator
begin

text \<open>
  Facts about the operations on the staging directory: the block-wise verification of a payload is
  the comparison of its length and digest, and the locale \<open>disk_frame\<close> shows once which
  properties of the disk each operation of the coordinator keeps.
\<close>

section \<open>Payload verification\<close>

lemma read_blocks_simps [simp]:
  "read_blocks [] = []" "b \<noteq> [] \<Longrightarrow> read_blocks b = take 65536 b # read_blocks (drop 65536 b)"
  by (subst read_blocks.simps, simp)+

lemma concat_read_blocks: "concat (read_blocks b) = b"
proof (induction b rule: read_blocks.induct)
  case (1 b)
  then show ?case by (cases "b = []") simp_all
qed

lemma unat_u64: "n < 2 ^ 64 \<Longrightarrow> unat (of_nat n :: u64) = n"
  by (simp add: unat_of_nat take_bit_nat_eq_self)

lemma unat_u64_le: "n \<le> unat (m :: u64) \<Longrightarrow> unat (of_nat n :: u64) = n"
proof (rule unat_u64)
  assume "n \<le> unat m"
  also have "unat m < 2 ^ LENGTH(64)" by (rule unsigned_less)
  finally show "n < 2 ^ 64" by simp
qed

lemma verify_loop_iff:
  assumes "unat n + length (concat bs) < 2 ^ 64 \<or> unat n \<le> unat limit" "\<forall>b\<in>set bs. length b < 2 ^ 64"
    "unat n = length a" "unat n \<le> unat limit"
  shows "verify_loop limit n a bs =
    (if length a + length (concat bs) \<le> unat limit
     then Inr (of_nat (length a + length (concat bs)), a @ concat bs) else Inl LengthMismatch)"
  using assms
proof (induction bs arbitrary: n a)
  case Nil
  then show ?case by (simp add: word_unat_eq_iff unat_u64_le)
next
  case (Cons b bs)
  have len: "unat (of_nat (length b) :: u64) = length b" using Cons.prems(2) by (simp add: unat_u64)
  show ?case
  proof (cases "checked_add n (of_nat (length b) :: u64)")
    case None
    then have "unat n + length b \<ge> 2 ^ 64" by (simp add: checked_add_def len split: if_splits)
    moreover have "unat limit < 2 ^ 64" using unsigned_less [of limit] by simp
    ultimately have "unat limit < length a + length (concat (b # bs))" using Cons.prems(3) by simp
    then show ?thesis using None by simp
  next
    case (Some m)
    then have m: "unat m = length (a @ b)" using checked_add_Some [OF Some] len Cons.prems(3) by simp
    show ?thesis
    proof (cases "limit < m")
      case True
      then show ?thesis using Some m by (simp add: word_less_nat_alt)
    next
      case False
      then have "unat m \<le> unat limit" by (simp add: word_less_nat_alt)
      then have "verify_loop limit m (a @ b) bs =
          (if length (a @ b) + length (concat bs) \<le> unat limit
           then Inr (of_nat (length (a @ b) + length (concat bs)), (a @ b) @ concat bs) else Inl LengthMismatch)"
        using Cons.prems(2) m by (intro Cons.IH) simp_all
      then show ?thesis using Some False by (simp add: ac_simps)
    qed
  qed
qed

lemma read_blocks_bounded: "c \<in> set (read_blocks b) \<Longrightarrow> length c < 2 ^ 64"
proof (induction b rule: read_blocks.induct)
  case (1 b)
  show ?case
  proof (cases "b = []")
    case False
    then have "c = take 65536 b \<or> c \<in> set (read_blocks (drop 65536 b))" using "1.prems" by simp
    then show ?thesis using "1.IH" [OF False] by auto
  qed (use "1.prems" in simp)
qed

text \<open>The block-wise verification is the comparison of length and digest.\<close>

lemma verify_bytes_iff:
  "verify_bytes sha256 r b =
     (if length b \<noteq> unat (rl_byte_length r) then Inl LengthMismatch
      else if sha256 b \<noteq> rl_sha256 r then Inl DigestMismatch else Inr ())"
proof -
  have loop: "verify_loop (rl_byte_length r) 0 [] (read_blocks b) =
      (if length b \<le> unat (rl_byte_length r) then Inr (of_nat (length b), b) else Inl LengthMismatch)"
    using verify_loop_iff [of 0 "read_blocks b" "rl_byte_length r" "[]"] read_blocks_bounded [of _ b]
    by (simp add: concat_read_blocks)
  have "of_nat (length b) = rl_byte_length r \<longleftrightarrow> length b = unat (rl_byte_length r)"
    if "length b \<le> unat (rl_byte_length r)"
    using unat_u64_le [OF that] by (auto simp: word_unat_eq_iff)
  then show ?thesis by (auto simp: verify_bytes_def loop refuse_if_def)
qed

lemma verify_payload_Inr:
  "verify_payload sha256 f r d = (Inr u, d') \<Longrightarrow>
     d' = later d \<and> (\<exists>b. contents f d = Some b \<and> length b = unat (rl_byte_length r) \<and> sha256 b = rl_sha256 r)"
  by (auto simp: verify_payload_def read_file_def and_then_def verify_bytes_iff
      split: io_outcome.splits option.splits sum.splits prod.splits if_splits)

section \<open>The disk\<close>

lemma disk_simps [simp]:
  "dk_entries (later d) = dk_entries d" "contents f (later d) = contents f d"
  "dk_entries (set_entry f e d) = (dk_entries d)(f := e)"
  "dk_outcomes (set_entry f e d) = dk_outcomes d"
  "dk_outcomes (store_bytes f b d) = dk_outcomes d"
  "dk_outcomes (later d) = tl (dk_outcomes d)"
  "dk_root_link (later d) = dk_root_link d" "dk_root_canonical (later d) = dk_root_canonical d"
  "dk_root_link (set_entry f e d) = dk_root_link d" "dk_root_canonical (set_entry f e d) = dk_root_canonical d"
  "dk_root_link (store_bytes f b d) = dk_root_link d" "dk_root_canonical (store_bytes f b d) = dk_root_canonical d"
  by (simp_all add: later_def contents_def set_entry_def store_bytes_def)

lemma store_bytes_other [simp]: "f \<noteq> g \<Longrightarrow> dk_entries (store_bytes f b d) g = dk_entries d g"
  by (simp add: store_bytes_def)

lemma contents_store [simp]: "contents f (store_bytes f b d) = Some b"
  by (auto simp: contents_def store_bytes_def split: option.splits entry.splits)

lemmas io_defs = io_step_def prepare_staging_root_def remove_file_if_present_def try_exists_def
  read_file_def write_file_def rename_file_def read_bounded_file_def verify_payload_def

text \<open>
  A property of the disk that outcomes passing by and changes of the files in \<open>touched\<close> keep is
  kept by every operation that changes no other file. It is used for the contents of a file the
  operation leaves alone, for a disk on which nothing fails, and for the kind of the root.
\<close>

definition preserves :: "(disk \<Rightarrow> bool) \<Rightarrow> 'a io \<Rightarrow> bool" where
  "preserves P op \<longleftrightarrow> (\<forall>d. P d \<longrightarrow> P (snd (op d)))"

lemma preservesI: "(\<And>d. P d \<Longrightarrow> P (snd (op d))) \<Longrightarrow> preserves P op"
  by (simp add: preserves_def)

lemma preservesD: "preserves P op \<Longrightarrow> P d \<Longrightarrow> P (snd (op d))"
  by (simp add: preserves_def)

lemma preserves_and_then:
  assumes "preserves P op" "\<And>x. preserves P (k x)"
  shows "preserves P (\<lambda>d. and_then (op d) k)"
proof (rule preservesI)
  fix d assume "P d"
  then show "P (snd (and_then (op d) k))"
    using preservesD [OF assms(1), of d] assms(2)
    by (cases "op d"; cases "fst (op d)") (auto simp: preserves_def)
qed

lemma preserves_result: "preserves P (\<lambda>d. (r d, d))"
  by (simp add: preserves_def)

lemma preserves_if: "preserves P a \<Longrightarrow> preserves P b \<Longrightarrow> preserves P (\<lambda>d. if c then a d else b d)"
  by (simp add: preserves_def)

lemma preserves_case_option:
  "preserves P a \<Longrightarrow> (\<And>x. preserves P (b x)) \<Longrightarrow> preserves P (\<lambda>d. case o' of None \<Rightarrow> a d | Some x \<Rightarrow> b x d)"
  by (simp add: preserves_def split: option.split)

locale disk_frame =
  fixes P :: "disk \<Rightarrow> bool" and touched :: "staged_file set"
  assumes frame_later: "P d \<Longrightarrow> P (later d)"
    and frame_set: "P d \<Longrightarrow> f \<in> touched \<Longrightarrow> P (set_entry f e d)"
begin

lemma frame_store: "P d \<Longrightarrow> f \<in> touched \<Longrightarrow> P (store_bytes f b d)"
  by (simp add: store_bytes_def frame_set)

lemma frame_io_step: "preserves P io_step"
  by (simp add: preserves_def io_step_def frame_later)

lemma frame_prepare: "preserves P (prepare_staging_root c)"
  unfolding prepare_staging_root_def [abs_def] by (intro preserves_and_then frame_io_step preserves_result)

lemma frame_exists: "preserves P (try_exists f)"
  by (simp add: preserves_def try_exists_def frame_later)

lemma frame_read: "preserves P (read_file f)"
  by (auto simp: preserves_def read_file_def frame_later split: io_outcome.split option.split)

lemma frame_remove: "f \<in> touched \<Longrightarrow> preserves P (remove_file_if_present f)"
  by (simp add: preserves_def remove_file_if_present_def frame_later frame_set)

lemma frame_write: "f \<in> touched \<Longrightarrow> preserves P (write_file f b)"
  by (auto simp: preserves_def write_file_def frame_later frame_store split: io_outcome.split)

lemma frame_rename: "f \<in> touched \<Longrightarrow> h \<in> touched \<Longrightarrow> preserves P (rename_file f h)"
  by (simp add: preserves_def rename_file_def frame_later frame_set)

lemma frame_atomic: "f \<in> touched \<Longrightarrow> preserves P (atomic_write f b)"
  by (auto simp: preserves_def atomic_write_def frame_later frame_set split: io_outcome.split)

lemma frame_bounded: "preserves P (read_bounded_file f n)"
proof -
  have "preserves P (\<lambda>d. and_then (read_file f d) (\<lambda>b d. (r b, d)))" for r :: "bytes \<Rightarrow> upgrade_error + bytes"
    by (intro preserves_and_then frame_read preserves_result)
  then show ?thesis
    by (auto simp: preserves_def read_bounded_file_def frame_later split: option.split entry.split)
qed

lemma frame_verify: "preserves P (verify_payload s f r)"
  unfolding verify_payload_def [abs_def] by (intro preserves_and_then frame_read preserves_result)

lemma frame_payload_loop: "PayloadPartial \<in> touched \<Longrightarrow> preserves P (payload_loop limit n a es)"
proof (induction es arbitrary: n a)
  case Nil
  then show ?case using frame_io_step by (simp add: preserves_def)
next
  case (Cons e es)
  show ?case
  proof (cases e)
    case (Chunk c)
    have rest: "preserves P (\<lambda>d. and_then (write_file PayloadPartial (a @ c) d) (\<lambda>_. payload_loop limit m (a @ c) es))" for m
      using Cons by (intro preserves_and_then frame_write) auto
    show ?thesis
      by (rule preservesI) (use rest in \<open>auto simp: Chunk preserves_def split: option.split\<close>)
  qed (simp_all add: preserves_def)
qed

lemma frame_download: "PayloadPartial \<in> touched \<Longrightarrow> preserves P (download_payload p u limit r)"
proof -
  assume f: "PayloadPartial \<in> touched"
  have "preserves P (write_payload_response limit es)" for es
    unfolding write_payload_response_def [abs_def]
    using f by (intro preserves_and_then frame_write frame_payload_loop)
  then show ?thesis
    by (auto simp: preserves_def download_payload_def split: option.split payload_response.split)
qed

lemma frame_remove_all: "set fs \<subseteq> touched \<Longrightarrow> P d \<Longrightarrow> P (remove_all fs d)"
  by (induction fs arbitrary: d) (auto simp: remove_all_def dest: preservesD [OF frame_remove])

lemma frame_stage:
  assumes "set all_staging_files \<subseteq> touched"
  shows "preserves P (stage_files g r m resp c)"
proof -
  have last: "preserves P (\<lambda>d. case rename_file ReleasePartial ReleaseJson d of
         (Inl e, d) \<Rightarrow> (Inl e, remove_all [PayloadStaged] d) | (Inr _, d) \<Rightarrow> (Inr (), d))"
  proof (rule preservesI)
    fix d assume "P d"
    then have "P (snd (rename_file ReleasePartial ReleaseJson d))"
      using assms by (auto intro: preservesD [OF frame_rename] simp: all_staging_files_def)
    then show "P (snd (case rename_file ReleasePartial ReleaseJson d of
         (Inl e, d) \<Rightarrow> (Inl e, remove_all [PayloadStaged] d) | (Inr _, d) \<Rightarrow> (Inr (), d)))"
      using assms by (auto intro!: frame_remove_all simp: all_staging_files_def split: prod.splits sum.splits)
  qed
  show ?thesis
    unfolding stage_files_def [abs_def] using assms
    by (intro preserves_and_then preserves_if frame_prepare frame_remove frame_write frame_rename frame_download
        frame_verify last preserves_result)
      (auto simp: all_staging_files_def)
qed

lemma frame_recover_files: "preserves P (recover_files g n)"
  unfolding recover_files_def [abs_def]
  by (intro preserves_and_then frame_bounded frame_verify preserves_result)

lemma frame_both_exist: "preserves P both_exist"
  unfolding both_exist_def [abs_def] by (intro preserves_and_then preserves_if frame_exists preserves_result)

lemma frame_read_watermark: "preserves P read_publication_watermark"
  unfolding read_publication_watermark_def [abs_def]
  by (intro preserves_and_then preserves_if preserves_case_option frame_exists frame_bounded preserves_result)

text \<open>The same at the level of the coordinator.\<close>

lemma frame_on_disk: "preserves P op \<Longrightarrow> P (co_disk w) \<Longrightarrow> P (co_disk (snd (on_disk op w)))"
  by (simp add: preserves_def on_disk_def split_beta)

lemma frame_and_then:
  "P (co_disk (snd r)) \<Longrightarrow> (\<And>x u. P (co_disk u) \<Longrightarrow> P (co_disk (snd (k x u)))) \<Longrightarrow> P (co_disk (snd (and_then r k)))"
  by (cases r; cases "fst r") auto

lemma frame_download_upgrade:
  assumes "set all_staging_files \<subseteq> touched" "P (co_disk w)"
  shows "P (co_disk (snd (download_upgrade g resp a b w)))"
proof -
  have "P (snd (stage_files g r m resp a (co_disk w)))" for r m
    by (rule preservesD [OF frame_stage [OF assms(1)] assms(2)])
  then show ?thesis using assms
    by (auto simp: download_upgrade_def Let_def intro!: frame_remove_all split: option.split prod.splits sum.splits)
      (metis snd_conv)+
qed

lemma frame_recover:
  assumes "set all_staging_files \<subseteq> touched" "P (co_disk w)"
  shows "P (co_disk (snd (recover_staged g n w)))"
proof -
  have touched: "PayloadPartial \<in> touched" "ReleasePartial \<in> touched" "PayloadStaged \<in> touched" "ReleaseJson \<in> touched"
    using assms(1) by (auto simp: all_staging_files_def)
  have recover: "P (snd (recover_files g n d))" if "P d" for d
    by (rule preservesD [OF frame_recover_files that])
  have last: "P (co_disk (snd (case recover_files g n (co_disk u) of
         (Inl e, d) \<Rightarrow> (Inl e, u\<lparr>co_disk := remove_all [ReleaseJson, PayloadStaged] d\<rparr>)
       | (Inr (bytes, r), d) \<Rightarrow>
           (Inr True, u\<lparr>co_disk := d, co_available := Some r, co_metadata := Some bytes,
                        co_staged := Some r, co_status := Staged r\<rparr>))))" if "P (co_disk u)" for u
    using recover [OF that] touched by (auto intro!: frame_remove_all split: prod.split sum.split)
  show ?thesis
    unfolding recover_staged_def using assms(2) touched
    by (auto intro!: frame_and_then frame_on_disk frame_prepare frame_remove frame_both_exist last)
qed

lemma frame_prepare_install: "P (co_disk w) \<Longrightarrow> P (co_disk (snd (prepare_install g active c w)))"
  unfolding prepare_install_def
  by (auto intro!: frame_and_then frame_on_disk frame_verify split: option.split)

lemma frame_record:
  assumes "set all_staging_files \<subseteq> touched" "P (co_disk w)"
  shows "P (co_disk (snd (record_outcome g v outcome w)))"
proof -
  have "PayloadStaged \<in> touched" "ReleaseJson \<in> touched" using assms(1) by (auto simp: all_staging_files_def)
  then show ?thesis
    unfolding record_outcome_def Let_def using assms(2)
    by (auto intro!: frame_and_then frame_on_disk frame_remove)
qed

end

definition working :: "disk \<Rightarrow> bool" where
  "working d \<longleftrightarrow> (\<forall>x\<in>set (dk_outcomes d). x = Works)"

lemma working_next: "working d \<Longrightarrow> next_outcome d = Works"
  by (cases "dk_outcomes d") (auto simp: working_def next_outcome_def)

lemma working_later: "working d \<Longrightarrow> working (later d)"
  by (cases "dk_outcomes d") (auto simp: working_def)

interpretation same_entry: disk_frame "\<lambda>d. dk_entries d f = e" "- {f}" for f e
  by unfold_locales auto

interpretation works_on: disk_frame working UNIV
proof unfold_locales
  show "working (later d)" if "working d" for d using that by (rule working_later)
  show "working (set_entry f e d)" if "working d" for d f e using that by (simp add: working_def)
qed

interpretation same_root: disk_frame "\<lambda>d. (dk_root_link d, dk_root_canonical d) = k" UNIV for k
  by unfold_locales auto

end
