(* ===== verification/Upgrade_Properties.thy ===== *)
theory Upgrade_Properties
  imports Upgrade_Files
begin

text \<open>
  What the upgrade coordinator guarantees: the accepted, staged and installing release agree with
  the status in every reachable state and are signed and strictly newer than the running version,
  whatever happens to the files; installation verifies the payload it hands over; the publication
  watermark never decreases; a failed download leaves nothing behind; a staged upgrade survives a
  restart.
\<close>

section \<open>The watermark\<close>

lemma unat_utf8_ascii: "list_all (\<lambda>c. c < 0x80) s \<Longrightarrow> map unat (utf8_bytes s) = s"
proof (induction s)
  case (Cons c s)
  then have "unat (of_nat c :: u8) = c" by (simp add: unat_of_nat take_bit_nat_eq_self)
  then show ?case using Cons by (simp add: utf8_bytes_def utf8_char_def)
qed (simp add: utf8_bytes_def)

lemma parse_watermark_text:
  assumes "0 \<le> v" "v \<le> I64_MAX"
  shows "parse_watermark (utf8_bytes (i64_text v)) = Some v"
proof -
  let ?s = "decimal (nat v)"
  have digits: "list_all is_ascii_digit ?s" using decimal_digits [of "nat v"] by (simp add: list_all_iff)
  have bytes: "map unat (utf8_bytes ?s) = ?s"
    by (rule unat_utf8_ascii, rule list.pred_mono_strong [OF digits]) (simp add: is_ascii_digit_def)
  obtain c cs where s: "?s = c # cs" using decimal_not_Nil [of "nat v"] by (cases ?s) blast+
  have "is_ascii_digit c" using digits s by simp
  then have sign: "\<not> starts_with (lit ''-'') ?s" "\<not> starts_with (lit ''+'') ?s"
    by (auto simp: s lit_def is_ascii_digit_def)
  show ?thesis
    using assms digits sign
    by (simp add: parse_watermark_def i64_text_def bytes parse_i64_def I64_MIN_def)
qed

definition mark :: "coordinator \<Rightarrow> int option" where
  "mark w = Option.bind (contents WatermarkFile (co_disk w)) parse_watermark"

lemma mark_eqI: "dk_entries (co_disk w') WatermarkFile = dk_entries (co_disk w) WatermarkFile \<Longrightarrow> mark w' = mark w"
  by (simp add: mark_def contents_def)

lemma on_disk_world [simp]:
  "co_available (snd (on_disk op w)) = co_available w" "co_metadata (snd (on_disk op w)) = co_metadata w"
  "co_staged (snd (on_disk op w)) = co_staged w" "co_status (snd (on_disk op w)) = co_status w"
  by (simp_all add: on_disk_def split_beta)

lemma read_watermark_exact:
  "read_publication_watermark d = (Inr p, d') \<Longrightarrow>
     p = Option.bind (contents WatermarkFile d) parse_watermark \<and> (contents WatermarkFile d \<noteq> None \<longrightarrow> p \<noteq> None)
     \<and> dk_entries d' = dk_entries d"
  by (auto simp: read_publication_watermark_def io_defs and_then_def contents_def
      split: io_outcome.splits option.splits sum.splits prod.splits if_splits entry.splits) metis

lemma persist_watermark_cases:
  assumes "persist_publication_watermark c v d = (r, d')"
  shows "dk_entries d' = dk_entries d \<and> r \<noteq> Inr () \<or>
    dk_entries d' = (dk_entries d)(WatermarkFile := Some (Regular (utf8_bytes (i64_text v))))"
  using assms
  by (auto simp: persist_publication_watermark_def prepare_staging_root_def io_step_def atomic_write_def and_then_def
      split: io_outcome.splits sum.splits prod.splits if_splits)

text \<open>Where a check can end: refused before anything is written, or at the persistence of an accepted
  publication that is at least the watermark.\<close>

definition check_context :: "'v upgrade_config \<Rightarrow> nat \<Rightarrow> coordinator \<Rightarrow> int option \<Rightarrow> release_context" where
  "check_context g n w p = (aged_context (uc_context g) n)
     \<lparr>rc_newest_seen := newest_watermark (map_option rl_published_at (co_available w)) p\<rparr>"

lemma check_cases:
  assumes "check_for_update g n resp w = (x, w')"
  obtains (refused) e where "x = Inl e" "dk_entries (co_disk w') = dk_entries (co_disk w)"
      "co_available w' = co_available w" "co_metadata w' = co_metadata w" "co_staged w' = co_staged w"
      "co_status w' = co_status w"
  | (accepted) bytes p d r y d'' where
      "read_publication_watermark (co_disk w) = (Inr p, d)"
      "decode_and_validate_for_publication (uc_env g) (check_context g n w p) bytes = Inr r"
      "persist_publication_watermark (uc_bound g) (rl_published_at r) d = (y, d'')"
      "(x, w') = (case y of Inl e \<Rightarrow> (Inl e, w\<lparr>co_disk := d''\<rparr>)
         | Inr _ \<Rightarrow>
           (if rl_target_version r = rc_current_version (uc_context g)
            then (Inr None, w\<lparr>co_disk := d'', co_available := None, co_metadata := None, co_staged := None,
                             co_status := UpToDate (rc_current_version (uc_context g))\<rparr>)
            else (Inr (Some r), w\<lparr>co_disk := d'', co_available := Some r, co_metadata := Some bytes,
                                  co_staged := None, co_status := Available r\<rparr>)))"
proof (cases "fetch_metadata resp")
  case (Inl e)
  then show ?thesis using assms refused [of e] by (auto simp: check_for_update_def)
next
  case (Inr bytes)
  obtain rp d where rp: "read_publication_watermark (co_disk w) = (rp, d)" by force
  have d: "dk_entries d = dk_entries (co_disk w)"
  proof
    fix f
    have "dk_entries (snd (read_publication_watermark (co_disk w))) f = dk_entries (co_disk w) f"
      by (rule preservesD [OF same_entry.frame_read_watermark refl])
    then show "dk_entries d f = dk_entries (co_disk w) f" using rp by simp
  qed
  show ?thesis
  proof (cases rp)
    case (Inl e)
    then show ?thesis using assms refused [of e] Inr rp d by (auto simp: check_for_update_def on_disk_def)
  next
    case p: (Inr p)
    let ?dec = "decode_and_validate_for_publication (uc_env g) (check_context g n w p) bytes"
    show ?thesis
    proof (cases ?dec)
      case (Inl e)
      then show ?thesis using assms refused [of "Validation e"] Inr rp p d
        by (auto simp: check_for_update_def on_disk_def check_context_def validated_by_def)
    next
      case r: (Inr r)
      obtain y d'' where y: "persist_publication_watermark (uc_bound g) (rl_published_at r) d = (y, d'')" by force
      show ?thesis
        by (rule accepted [OF rp [unfolded p] r y])
          (use assms Inr rp p r y in \<open>cases y; auto simp: check_for_update_def on_disk_def check_context_def
             validated_by_def aged_context_def Let_def split: if_splits\<close>)
    qed
  qed
qed


section \<open>Runs\<close>

text \<open>The operations in any order, with restarts, and with files changed behind the coordinator.\<close>

datatype upgrade_event =
    Check nat "http_response option"
  | Download payload_response bool bool
  | Recover nat
  | Prepare "(uuid \<times> str) list" bool
  | CancelPrepared
  | Record str native_outcome
  | Restart
  | ReplaceFiles disk

fun upgrade_step :: "('v::linorder) upgrade_config \<Rightarrow> coordinator \<Rightarrow> upgrade_event \<Rightarrow> coordinator" where
  "upgrade_step g w (Check n r) = snd (check_for_update g n r w)"
| "upgrade_step g w (Download r a b) = snd (download_upgrade g r a b w)"
| "upgrade_step g w (Recover n) = snd (recover_staged g n w)"
| "upgrade_step g w (Prepare active c) = snd (prepare_install g active c w)"
| "upgrade_step g w CancelPrepared = cancel_prepared_install w"
| "upgrade_step g w (Record v outcome) = snd (record_outcome g v outcome w)"
| "upgrade_step g w Restart = coordinator_new (co_disk w)"
| "upgrade_step g w (ReplaceFiles d) = w\<lparr>co_disk := d\<rparr>"

definition replaces_files :: "upgrade_event \<Rightarrow> bool" where
  "replaces_files ev \<longleftrightarrow> (case ev of ReplaceFiles _ \<Rightarrow> True | _ \<Rightarrow> False)"

subsection \<open>Status and releases agree\<close>

definition genuine :: "('v::linorder) upgrade_config \<Rightarrow> bytes \<Rightarrow> release \<Rightarrow> bool" where
  "genuine g b r \<longleftrightarrow> (\<exists>e. decode_and_verify (uc_env g) b = Inr e \<and> sg_release e = r)
     \<and> upgrade_for (uc_env g) (rc_current_version (uc_context g)) (rc_expected_target (uc_context g)) r"

fun status_agrees :: "upgrade_status \<Rightarrow> release option \<Rightarrow> release option \<Rightarrow> bool" where
  "status_agrees (Available r) available staged \<longleftrightarrow> available = Some r \<and> staged = None"
| "status_agrees (Staged r) available staged \<longleftrightarrow> available = Some r \<and> staged = Some r"
| "status_agrees (Installing r) available staged \<longleftrightarrow> available = Some r \<and> staged = Some r"
| "status_agrees (Downloading r) available staged \<longleftrightarrow> False"
| "status_agrees (UpgradeFailed m) available staged \<longleftrightarrow> False"
| "status_agrees _ available staged \<longleftrightarrow> available = None \<and> staged = None"

definition upgrade_inv :: "('v::linorder) upgrade_config \<Rightarrow> coordinator \<Rightarrow> bool" where
  "upgrade_inv g w \<longleftrightarrow>
     status_agrees (co_status w) (co_available w) (co_staged w)
     \<and> (case (co_available w, co_metadata w) of
          (None, None) \<Rightarrow> True
        | (Some r, Some b) \<Rightarrow> genuine g b r
        | _ \<Rightarrow> False)"

text \<open>\<open>Version::parse\<close> accepts one spelling of a version: printing a parsed version gives the text
  back.\<close>

definition version_spelling :: "('v::linorder) upgrade_config \<Rightarrow> bool" where
  "version_spelling g \<longleftrightarrow>
     (\<forall>a b v. re_version (uc_env g) a = Some v \<longrightarrow> re_version (uc_env g) b = Some v \<longrightarrow> a = b)"

lemma upgrade_inv_cong:
  "co_available w' = co_available w \<Longrightarrow> co_metadata w' = co_metadata w \<Longrightarrow> co_staged w' = co_staged w
     \<Longrightarrow> co_status w' = co_status w \<Longrightarrow> upgrade_inv g w' = upgrade_inv g w"
  by (simp add: upgrade_inv_def)

lemma upgrade_inv_disk [simp]: "upgrade_inv g (w\<lparr>co_disk := d\<rparr>) = upgrade_inv g w"
  by (rule upgrade_inv_cong) simp_all

lemma upgrade_inv_new: "upgrade_inv g (coordinator_new d)"
  by (simp add: upgrade_inv_def coordinator_new_def)

lemma check_context_simps [simp]:
  "rc_current_version (check_context g n w p) = rc_current_version (uc_context g)"
  "rc_expected_target (check_context g n w p) = rc_expected_target (uc_context g)"
  "rc_newest_seen (check_context g n w p) = newest_watermark (map_option rl_published_at (co_available w)) p"
  "rc_current_version (aged_context c n) = rc_current_version c"
  "rc_expected_target (aged_context c n) = rc_expected_target c"
  by (simp_all add: check_context_def aged_context_def Let_def)

lemma check_inv:
  assumes "version_spelling g" "upgrade_inv g w"
  shows "upgrade_inv g (snd (check_for_update g n resp w))"
proof -
  obtain x w' where res: "check_for_update g n resp w = (x, w')" by force
  from res show ?thesis
  proof (cases rule: check_cases)
    case (refused e)
    then show ?thesis using assms(2) upgrade_inv_cong [of w' w g] res by simp
  next
    case (accepted bytes p d r y d'')
    from decode_for_publication_Inr [OF accepted(2)]
    have "rl_target_version r \<noteq> rc_current_version (uc_context g) \<Longrightarrow> genuine g bytes r"
      using assms(1) by (auto simp: genuine_def version_spelling_def)
    then show ?thesis using accepted(4) res assms(2)
      by (cases y; cases "rl_target_version r = rc_current_version (uc_context g)")
        (simp_all, simp_all add: upgrade_inv_def)
  qed
qed

lemma download_inv: "upgrade_inv g w \<Longrightarrow> upgrade_inv g (snd (download_upgrade g r a b w))"
  by (auto simp: upgrade_inv_def download_upgrade_def Let_def split: option.splits sum.splits prod.splits)

text \<open>What a recovery may have done to a coordinator, whatever its disk.\<close>

definition recovery_of :: "('v::linorder) upgrade_config \<Rightarrow> nat \<Rightarrow> coordinator \<Rightarrow> (upgrade_error + bool) \<times> coordinator \<Rightarrow> bool" where
  "recovery_of g n w result \<longleftrightarrow>
     fst result \<noteq> Inr True \<and> (\<exists>d. snd result = w\<lparr>co_disk := d\<rparr>)
     \<or> (\<exists>d b r d'. fst result = Inr True \<and> recover_files g n d = (Inr (b, r), d')
          \<and> snd result = w\<lparr>co_disk := d', co_available := Some r, co_metadata := Some b,
                            co_staged := Some r, co_status := Staged r\<rparr>)"

lemma recovery_of_disk [simp]: "recovery_of g n (w\<lparr>co_disk := d\<rparr>) = recovery_of g n w"
  by (rule ext) (simp add: recovery_of_def)

lemma recovery_of_bind:
  assumes "\<And>x d. recovery_of g n w (k x (w\<lparr>co_disk := d\<rparr>))"
  shows "recovery_of g n w (and_then (on_disk op w) k)"
proof (cases "op (co_disk w)")
  case (Pair x d)
  show ?thesis
  proof (cases x)
    case (Inl e)
    have "recovery_of g n w (Inl e, w\<lparr>co_disk := d\<rparr>)" by (auto simp: recovery_of_def)
    then show ?thesis using Pair Inl by (simp add: on_disk_def)
  next
    case (Inr y)
    then show ?thesis using Pair assms [of y d] by (simp add: on_disk_def)
  qed
qed

lemma recover_staged_recovery: "recovery_of g n w (recover_staged g n w)"
proof -
  have keep: "recovery_of g n w (Inr False, w\<lparr>co_disk := d\<rparr>)" "recovery_of g n w (Inl e, w\<lparr>co_disk := d\<rparr>)" for e d
    by (auto simp: recovery_of_def)
  have files: "recovery_of g n w (case recover_files g n dc of
         (Inl e, d) \<Rightarrow> (Inl e, w\<lparr>co_disk := dc, co_disk := remove_all [ReleaseJson, PayloadStaged] d\<rparr>)
       | (Inr (bytes, r), d) \<Rightarrow>
           (Inr True, w\<lparr>co_disk := dc, co_disk := d, co_available := Some r, co_metadata := Some bytes,
                        co_staged := Some r, co_status := Staged r\<rparr>))" for dc
  proof (cases "recover_files g n dc")
    case (Pair x d)
    show ?thesis
    proof (cases x)
      case (Inr br)
      obtain b r where "br = (b, r)" by force
      then show ?thesis using Pair Inr by (auto simp: recovery_of_def)
    qed (use Pair keep in simp)
  qed
  note bind = recovery_of_bind [where w = "w\<lparr>co_disk := d\<rparr>" for d, simplified]
  show ?thesis
    unfolding recover_staged_def
    by (intro recovery_of_bind) (auto intro!: bind keep(1) files)
qed

lemma recover_cases:
  assumes "recover_staged g n w = (x, w')"
  obtains (kept) d where "w' = w\<lparr>co_disk := d\<rparr>" "x \<noteq> Inr True"
  | (recovered) d b r d' where "x = Inr True" "recover_files g n d = (Inr (b, r), d')"
      "w' = w\<lparr>co_disk := d', co_available := Some r, co_metadata := Some b, co_staged := Some r, co_status := Staged r\<rparr>"
  using recover_staged_recovery [of g n w] assms by (auto simp: recovery_of_def)

lemma validated_by_Inr [simp]: "validated_by r = Inr x \<longleftrightarrow> r = Inr x"
  by (simp add: validated_by_def split: sum.split)

lemma recover_files_Inr:
  assumes "recover_files g n d = (Inr (b, r), d')"
  shows "decode_and_validate (uc_env g) (aged_context (uc_context g) n) b = Inr r"
    "\<exists>p. contents PayloadStaged d' = Some p \<and> length p = unat (rl_byte_length r) \<and> uc_sha256 g p = rl_sha256 r"
    "contents ReleaseJson d' = Some b"
    "dk_entries d' = dk_entries d"
proof -
  have "dk_entries (snd (recover_files g n d)) f = dk_entries d f" for f
    by (rule preservesD [OF same_entry.frame_recover_files refl])
  then have keep: "dk_entries d' = dk_entries d" using assms by auto
  from assms obtain d1 where b: "read_bounded_file ReleaseJson MAX_RELEASE_METADATA_BYTES d = (Inr b, d1)"
    and r: "decode_and_validate (uc_env g) (aged_context (uc_context g) n) b = Inr r"
    and v: "verify_payload (uc_sha256 g) PayloadStaged r d1 = (Inr (), d')"
    by (auto simp: recover_files_def and_then_eq_Inr)
  show "decode_and_validate (uc_env g) (aged_context (uc_context g) n) b = Inr r" by (rule r)
  show "dk_entries d' = dk_entries d" by (rule keep)
  from verify_payload_Inr [OF v]
  show "\<exists>p. contents PayloadStaged d' = Some p \<and> length p = unat (rl_byte_length r) \<and> uc_sha256 g p = rl_sha256 r"
    by simp
  have "contents ReleaseJson d = Some b"
    using b by (auto simp: read_bounded_file_def read_file_def and_then_def contents_def
        split: option.splits entry.splits io_outcome.splits sum.splits prod.splits if_splits)
  then show "contents ReleaseJson d' = Some b" by (simp add: contents_def keep)
qed

lemma recover_inv: "upgrade_inv g w \<Longrightarrow> upgrade_inv g (snd (recover_staged g n w))"
proof -
  assume inv: "upgrade_inv g w"
  obtain x w' where res: "recover_staged g n w = (x, w')" by force
  from res show ?thesis
  proof (cases rule: recover_cases)
    case (kept d)
    then show ?thesis using inv res by simp
  next
    case (recovered d b r d')
    from recover_files_Inr(1) [OF recovered(2)] have "genuine g b r"
      by (auto simp: decode_and_validate_Inr genuine_def)
    then show ?thesis using res recovered by (simp add: upgrade_inv_def)
  qed
qed

lemma prepare_cases:
  assumes "prepare_install g active c w = (x, w')"
  shows "(\<exists>d. w' = w\<lparr>co_disk := d\<rparr>) \<and> (\<forall>v. x \<noteq> Inr (Prepared v)) \<or>
    (\<exists>r d. co_staged w = Some r \<and> verify_payload (uc_sha256 g) PayloadStaged r (co_disk w) = (Inr (), d)
       \<and> w' = w\<lparr>co_disk := d, co_status := Installing r\<rparr> \<and> x = Inr (Prepared (rl_target_version r))
       \<and> (active \<noteq> [] \<longrightarrow> c))"
proof -
  have "\<exists>d. w = w\<lparr>co_disk := d\<rparr>" by (rule exI [of _ "co_disk w"]) simp
  then show ?thesis using assms
    by (auto simp: prepare_install_def on_disk_def and_then_def split: if_splits option.splits prod.splits sum.splits)
qed

lemma prepare_inv: "upgrade_inv g w \<Longrightarrow> upgrade_inv g (snd (prepare_install g active c w))"
proof -
  assume inv: "upgrade_inv g w"
  obtain x w' where res: "prepare_install g active c w = (x, w')" by force
  have "upgrade_inv g (w\<lparr>co_disk := d, co_status := Installing r\<rparr>)" if "co_staged w = Some r" for r d
    using inv that by (cases "co_status w") (auto simp: upgrade_inv_def split: option.splits)
  then show ?thesis using prepare_cases [OF res] inv res by auto
qed

lemma cancel_prepared_inv: "upgrade_inv g w \<Longrightarrow> upgrade_inv g (cancel_prepared_install w)"
  by (auto simp: cancel_prepared_install_def upgrade_inv_def split: upgrade_status.split option.split)

lemma record_outcome_inv: "upgrade_inv g w \<Longrightarrow> upgrade_inv g (snd (record_outcome g v outcome w))"
proof -
  assume inv: "upgrade_inv g w"
  have cleared: "upgrade_inv g (snd (and_then (on_disk f u) (\<lambda>_ w. on_disk h w)))"
    if "co_status u = Installed v \<or> co_status u = RolledBack v"
      "co_available u = None" "co_metadata u = None" "co_staged u = None" for u and f h :: "unit io"
    using that by (auto simp: upgrade_inv_def on_disk_def and_then_def split: prod.splits sum.splits)
  show ?thesis using inv cleared by (auto simp: record_outcome_def Let_def)
qed

lemma upgrade_step_inv: "version_spelling g \<Longrightarrow> upgrade_inv g w \<Longrightarrow> upgrade_inv g (upgrade_step g w ev)"
  by (cases ev) (simp_all add: check_inv download_inv recover_inv prepare_inv cancel_prepared_inv record_outcome_inv upgrade_inv_new)


text \<open>The invariant through the locale of invariants of step functions.\<close>

interpretation upgrades: step_invariant "upgrade_step g" "\<lambda>w. version_spelling g \<longrightarrow> upgrade_inv g w" for g
  by unfold_locales (simp add: upgrade_step_inv)

section \<open>The watermark of a run\<close>

lemma newest_watermark_ge: "newest_watermark a (Some m) = Some s \<Longrightarrow> m \<le> s"
  by (auto simp: newest_watermark_def split: option.splits)

lemma newest_watermark_Some: "\<exists>s. newest_watermark a (Some m) = Some s"
  by (auto simp: newest_watermark_def split: option.splits)

lemma accepted_not_replayed:
  assumes "read_publication_watermark (co_disk w) = (Inr p, d)" "mark w = Some m"
    "decode_and_validate_for_publication (uc_env g) (check_context g n w p) bytes = Inr r"
  shows "m \<le> rl_published_at r" "rl_published_at r \<le> I64_MAX"
proof -
  have p: "p = Some m" using read_watermark_exact [OF assms(1)] assms(2) by (simp add: mark_def)
  from decode_for_publication_Inr [OF assms(3)] have ok: "publication_ok (uc_env g) (check_context g n w p) r" by blast
  obtain s where "newest_watermark (map_option rl_published_at (co_available w)) p = Some s" "m \<le> s"
    using newest_watermark_Some newest_watermark_ge unfolding p by metis
  then show "m \<le> rl_published_at r" using ok by (auto simp: publication_ok_def)
  show "rl_published_at r \<le> I64_MAX" using ok
    by (auto simp: publication_ok_def i64_saturating_add_def I64_MAX_def I64_MIN_def)
qed

lemma mark_nonneg: "mark w = Some m \<Longrightarrow> 0 \<le> m"
  by (auto simp: mark_def parse_watermark_def bind_eq_Some_conv split: if_splits)

lemma mark_of_text:
  "dk_entries (co_disk w) WatermarkFile = Some (Regular (utf8_bytes (i64_text v))) \<Longrightarrow> 0 \<le> v \<Longrightarrow> v \<le> I64_MAX
     \<Longrightarrow> mark w = Some v"
  by (simp add: mark_def contents_def parse_watermark_text)

lemma check_mark:
  assumes res: "check_for_update g n resp w = (x, w')" and m: "mark w = Some m"
  shows "(\<exists>m'. mark w' = Some m' \<and> m \<le> m') \<and> (\<forall>r. x = Inr (Some r) \<longrightarrow> mark w' = Some (rl_published_at r) \<and> m \<le> rl_published_at r)"
  using res
proof (cases rule: check_cases)
  case (refused e)
  then have "mark w' = mark w" by (intro mark_eqI) simp
  then show ?thesis using m refused(1) by simp
next
  case (accepted bytes p d r y d'')
  note bounds = accepted_not_replayed [OF accepted(1) m accepted(2)]
  have pos: "0 \<le> rl_published_at r" using bounds(1) mark_nonneg [OF m] by simp
  have same: "dk_entries d = dk_entries (co_disk w)" using read_watermark_exact [OF accepted(1)] by simp
  have disk: "co_disk w' = d''" using accepted(4) by (auto split: sum.splits if_splits)
  from persist_watermark_cases [OF accepted(3)] show ?thesis
  proof (elim disjE conjE)
    assume same': "dk_entries d'' = dk_entries d" and "y \<noteq> Inr ()"
    then obtain e where "y = Inl e" by (cases y) auto
    then have "x = Inl e" using accepted(4) by simp
    moreover have "mark w' = mark w" using same same' disk by (intro mark_eqI) simp
    ultimately show ?thesis using m by simp
  next
    assume "dk_entries d'' = (dk_entries d)(WatermarkFile := Some (Regular (utf8_bytes (i64_text (rl_published_at r)))))"
    then have "mark w' = Some (rl_published_at r)"
      using pos bounds(2) disk by (intro mark_of_text) simp_all
    moreover have "x \<noteq> Inr (Some r')" if "r' \<noteq> r" for r'
      using accepted(4) that by (cases y; cases "rl_target_version r = rc_current_version (uc_context g)") simp_all
    ultimately show ?thesis using bounds(1) by metis
  qed
qed

lemma step_mark:
  assumes "\<not> replaces_files ev" "mark w = Some m"
  shows "\<exists>m'. mark (upgrade_step g w ev) = Some m' \<and> m \<le> m'"
proof -
  have files: "set all_staging_files \<subseteq> - {WatermarkFile}" by (auto simp: all_staging_files_def)
  note frames = same_entry.frame_download_upgrade [OF files refl] same_entry.frame_recover [OF files refl]
    same_entry.frame_prepare_install [OF refl] same_entry.frame_record [OF files refl]
  have keep: ?thesis if "mark (upgrade_step g w ev) = mark w" using that assms(2) by simp
  show ?thesis
  proof (cases ev)
    case (Check n resp)
    obtain x w' where res: "check_for_update g n resp w = (x, w')" by force
    then show ?thesis using check_mark [OF res assms(2)] Check by simp
  next
    case (Download r a b)
    then show ?thesis by (intro keep, simp only: upgrade_step.simps, intro mark_eqI frames(1))
  next
    case (Recover n)
    then show ?thesis by (intro keep, simp only: upgrade_step.simps, intro mark_eqI frames(2))
  next
    case (Prepare active c)
    then show ?thesis by (intro keep, simp only: upgrade_step.simps, intro mark_eqI frames(3))
  next
    case (Record v outcome)
    then show ?thesis by (intro keep, simp only: upgrade_step.simps, intro mark_eqI frames(4))
  next
    case CancelPrepared
    then show ?thesis
      by (intro keep, simp, intro mark_eqI)
        (simp add: cancel_prepared_install_def split: upgrade_status.split option.split)
  next
    case Restart
    then show ?thesis by (intro keep) (simp add: mark_def coordinator_new_def)
  qed (use assms(1) in \<open>simp_all add: replaces_files_def\<close>)
qed

lemma run_mark:
  "\<forall>ev\<in>set evs. \<not> replaces_files ev \<Longrightarrow> mark w = Some m \<Longrightarrow>
     \<exists>m'. mark (foldl (upgrade_step g) w evs) = Some m' \<and> m \<le> m'"
proof (induction evs arbitrary: w m)
  case (Cons ev evs)
  then obtain m1 where "mark (upgrade_step g w ev) = Some m1" "m \<le> m1" using step_mark [of ev w m g] by auto
  then show ?case using Cons.IH [of "upgrade_step g w ev" m1] Cons.prems(1) by fastforce
qed simp

section \<open>What a download leaves\<close>

text \<open>On a disk where nothing fails the operations do what they are for.\<close>

lemma working_set: "working d \<Longrightarrow> working (set_entry f e d)"
  by (simp add: working_def)

lemma working_ops:
  assumes "working d"
  shows "\<not> dk_root_link d \<Longrightarrow> (c \<longrightarrow> dk_root_canonical d) \<Longrightarrow> prepare_staging_root c d = (Inr (), later d)"
    "remove_file_if_present f d = (Inr (), set_entry f None (later d))"
    "try_exists f d = (Inr (contents f d \<noteq> None), later d)"
    "contents f d = Some b \<Longrightarrow> read_file f d = (Inr b, later d)"
    "dk_entries d f = Some (Regular b) \<Longrightarrow> length b \<le> k \<Longrightarrow> read_bounded_file f k d = (Inr b, later d)"
  using working_next [OF assms] by (auto simp: io_defs contents_def)

lemma contents_set_other [simp]: "f \<noteq> h \<Longrightarrow> contents f (set_entry h e d) = contents f d"
  by (simp add: contents_def)

lemma recover_working:
  assumes "working d" "\<not> dk_root_link d" "uc_bound g \<longrightarrow> dk_root_canonical d"
    "dk_entries d ReleaseJson = Some (Regular m)" "length m \<le> MAX_RELEASE_METADATA_BYTES"
    "decode_and_validate (uc_env g) (aged_context (uc_context g) n) m = Inr r"
    "contents PayloadStaged d = Some p" "length p = unat (rl_byte_length r)" "uc_sha256 g p = rl_sha256 r"
  shows "\<exists>d'. recover_staged g n (coordinator_new d)
     = (Inr True, \<lparr>co_available = Some r, co_metadata = Some m, co_staged = Some r, co_status = Staged r, co_disk = d'\<rparr>)"
proof -
  note works = working_later working_set working_ops
  have json: "contents ReleaseJson d = Some m" using assms(4) by (simp add: contents_def)
  have files: "\<exists>d'. recover_files g n u = (Inr (m, r), d')"
    if "working u" "dk_entries u ReleaseJson = Some (Regular m)" "contents PayloadStaged u = Some p" for u
    using that assms(5,6,8,9)
    by (simp add: recover_files_def works validated_by_def verify_payload_def verify_bytes_iff)
  let ?u = "later (later (set_entry ReleasePartial None (later (set_entry PayloadPartial None (later (later d))))))"
  obtain d' where d': "recover_files g n ?u = (Inr (m, r), d')"
    using files [of ?u] assms(1,4,7) by (auto simp: works)
  have "recover_staged g n (coordinator_new d)
     = (Inr True, \<lparr>co_available = Some r, co_metadata = Some m, co_staged = Some r, co_status = Staged r, co_disk = d'\<rparr>)"
    using assms(1-3,7) json d'
    by (simp add: recover_staged_def coordinator_new_def on_disk_def works both_exist_def)
  then show ?thesis by blast
qed

lemma download_Inr_root:
  assumes "stage_files g r m resp c d = (Inr u, d')"
  shows "dk_root_link d' = dk_root_link d" "dk_root_canonical d' = dk_root_canonical d"
    "\<not> dk_root_link d" "uc_bound g \<Longrightarrow> dk_root_canonical d"
proof -
  have "(dk_root_link (snd (stage_files g r m resp c d)), dk_root_canonical (snd (stage_files g r m resp c d)))
      = (dk_root_link d, dk_root_canonical d)"
    by (rule preservesD [OF same_root.frame_stage refl]) simp
  then show "dk_root_link d' = dk_root_link d" "dk_root_canonical d' = dk_root_canonical d"
    using assms by simp_all
  from assms obtain d1 x where "prepare_staging_root (uc_bound g) d = (Inr x, d1)"
    by (auto simp: stage_files_def and_then_eq_Inr)
  then show "\<not> dk_root_link d" "uc_bound g \<Longrightarrow> dk_root_canonical d"
    by (auto simp: prepare_staging_root_def io_step_def and_then_def split: if_splits)
qed

lemma staged_metadata_Inr:
  "(case rename_file f h d of (Inl e, d) \<Rightarrow> (Inl e, k d) | (Inr _, d) \<Rightarrow> (Inr (), d)) = (Inr u, d')
     \<longleftrightarrow> rename_file f h d = (Inr (), d')"
  by (auto split: prod.splits sum.splits)

lemma stage_files_Inr:
  assumes "stage_files g r m resp c d = (Inr u, d')"
  obtains p where "contents PayloadStaged d' = Some p" "length p = unat (rl_byte_length r)"
    "uc_sha256 g p = rl_sha256 r" "dk_entries d' ReleaseJson = Some (Regular m)" "\<not> c"
proof -
  from assms obtain d1 d2 d3 d4 d5 d6 d7 d8 d9 where
    rp: "remove_file_if_present ReleasePartial d1 = (Inr (), d2)" and
    dl: "download_payload (re_url (uc_env g)) (rl_installer_url r) (min (rl_byte_length r) MAX_UPGRADE_PAYLOAD_BYTES) resp d2
           = (Inr (), d3)" and
    c: "\<not> c" and vp: "verify_payload (uc_sha256 g) PayloadPartial r d3 = (Inr (), d4)" and
    wf: "write_file ReleasePartial m d4 = (Inr (), d5)" and
    r1: "remove_file_if_present PayloadStaged d5 = (Inr (), d6)" and
    r2: "remove_file_if_present ReleaseJson d6 = (Inr (), d7)" and
    rn: "rename_file PayloadPartial PayloadStaged d7 = (Inr (), d8)" and
    rn2: "rename_file ReleasePartial ReleaseJson d8 = (Inr (), d9)" and d': "d' = d9"
    by (auto simp: stage_files_def and_then_eq_Inr staged_metadata_Inr split: if_splits)
  from verify_payload_Inr [OF vp] obtain p where p: "contents PayloadPartial d3 = Some p"
    "length p = unat (rl_byte_length r)" "uc_sha256 g p = rl_sha256 r" and d4: "d4 = later d3" by blast
  have "dk_entries (snd (download_payload (re_url (uc_env g)) (rl_installer_url r) (min (rl_byte_length r) MAX_UPGRADE_PAYLOAD_BYTES) resp d2)) ReleasePartial
      = dk_entries d2 ReleasePartial"
    by (rule preservesD [OF same_entry.frame_download refl]) simp
  then have "dk_entries d3 ReleasePartial = None"
    using rp dl by (auto simp: remove_file_if_present_def split: if_splits)
  then have d5: "dk_entries d5 = (dk_entries d3)(ReleasePartial := Some (Regular m))"
    using wf d4 by (auto simp: write_file_def store_bytes_def split: io_outcome.splits)
  have d7: "dk_entries d7 = (dk_entries d5)(PayloadStaged := None, ReleaseJson := None)"
    using r1 r2 by (auto simp: remove_file_if_present_def split: if_splits)
  have d8: "dk_entries d8 = (dk_entries d7)(PayloadStaged := dk_entries d7 PayloadPartial, PayloadPartial := None)"
    using rn by (auto simp: rename_file_def split: if_splits)
  have d9: "dk_entries d9 = (dk_entries d8)(ReleaseJson := dk_entries d8 ReleasePartial, ReleasePartial := None)"
    using rn2 by (auto simp: rename_file_def split: if_splits)
  have "contents PayloadStaged d' = Some p"
    using p(1) by (simp add: d' contents_def d9 d8 d7 d5)
  moreover have "dk_entries d' ReleaseJson = Some (Regular m)" by (simp add: d' d9 d8 d7 d5)
  ultimately show ?thesis using that p c by blast
qed

lemma download_upgrade_Inr:
  assumes "download_upgrade g resp a b w = (Inr r, w')"
  obtains m d where "co_available w = Some r" "co_metadata w = Some m"
    "stage_files g r m resp a (co_disk w) = (Inr (), d)"
    "w' = w\<lparr>co_disk := d, co_staged := Some r, co_status := Staged r\<rparr>"
  using assms
  by (auto simp: download_upgrade_def Let_def split: option.splits prod.splits sum.splits if_splits)

lemma download_upgrade_Inl:
  assumes "download_upgrade g resp a b w = (Inl e, w')" "co_available w = Some r" "co_metadata w = Some m"
  shows "w' = w\<lparr>co_disk := remove_all all_staging_files (snd (stage_files g r m resp a (co_disk w))),
               co_staged := None, co_status := Available r\<rparr>"
  using assms by (auto simp: download_upgrade_def Let_def split: prod.splits sum.splits if_splits)

lemma remove_all_works: "working d \<Longrightarrow> f \<in> set fs \<Longrightarrow> dk_entries (remove_all fs d) f = None"
proof (induction fs arbitrary: d)
  case (Cons h fs)
  have step: "remove_all (h # fs) d = remove_all fs (set_entry h None (later d))"
    using working_next [OF Cons.prems(1)] by (simp add: remove_all_def remove_file_if_present_def)
  have work: "working (set_entry h None (later d))"
    using Cons.prems(1) by (intro works_on.frame_set works_on.frame_later) auto
  show ?case
  proof (cases "f \<in> set fs")
    case True
    then show ?thesis using Cons.IH [OF work] by (simp add: step)
  next
    case False
    then have "dk_entries (remove_all fs (set_entry h None (later d))) f = dk_entries (set_entry h None (later d)) f"
      by (intro same_entry.frame_remove_all [OF _ refl]) auto
    then show ?thesis using Cons.prems(2) False by (simp add: step)
  qed
qed simp

section \<open>Properties\<close>

text \<open>C31: An upgrade is handed to the installer only when it is genuine and intact. Whatever sequence of
  checks, downloads, recoveries, cancellations, outcomes and restarts came before, with files of the
  staging directory replaced at any point and any operation on them failing: when preparing an
  installation succeeds, the payload on disk has the length and the digest that some metadata signed
  by the embedded key announces for it, the release is for this platform and strictly newer than the
  running version, and active Sessions were either absent or overridden.\<close>

theorem installs_only_verified_upgrades:
  assumes spelling: "version_spelling g"
    and prepared: "prepare_install g active confirmed (foldl (upgrade_step g) (coordinator_new d) evs)
                     = (Inr (Prepared v), w)"
  shows "\<exists>r m e p. co_status w = Installing r \<and> v = rl_target_version r
     \<and> decode_and_verify (uc_env g) m = Inr e \<and> sg_release e = r
     \<and> upgrade_for (uc_env g) (rc_current_version (uc_context g)) (rc_expected_target (uc_context g)) r
     \<and> contents PayloadStaged (co_disk w) = Some p
     \<and> length p = unat (rl_byte_length r) \<and> uc_sha256 g p = rl_sha256 r
     \<and> (active = [] \<or> confirmed)"
proof -
  let ?w = "foldl (upgrade_step g) (coordinator_new d) evs"
  have inv: "upgrade_inv g ?w"
    using upgrades.run_inv [of g "coordinator_new d" evs] spelling by (simp add: upgrade_inv_new)
  from prepare_cases [OF prepared] obtain r d' where r: "co_staged ?w = Some r"
    "verify_payload (uc_sha256 g) PayloadStaged r (co_disk ?w) = (Inr (), d')"
    "w = ?w\<lparr>co_disk := d', co_status := Installing r\<rparr>" "v = rl_target_version r" "active \<noteq> [] \<longrightarrow> confirmed"
    by auto
  have "co_available ?w = Some r" using inv r(1) by (cases "co_status ?w") (auto simp: upgrade_inv_def)
  then obtain m where "genuine g m r" using inv by (auto simp: upgrade_inv_def split: option.splits)
  then show ?thesis using verify_payload_Inr [OF r(2)] r(3-5)
    by (auto simp: genuine_def)
qed


text \<open>C32: The publication watermark never decreases and no replay is accepted. In any run that does not
  replace files behind the coordinator (operations on them may still fail), a readable watermark stays
  readable and never decreases, across restarts; and a check that offers a release leaves its publication
  time as the watermark, at least the former one.\<close>

theorem watermark_never_decreases:
  assumes "\<forall>ev\<in>set evs. \<not> replaces_files ev" "mark w = Some m"
  shows "\<exists>m'. mark (foldl (upgrade_step g) w evs) = Some m' \<and> m \<le> m'
     \<and> (\<forall>n resp r w'. check_for_update g n resp (foldl (upgrade_step g) w evs) = (Inr (Some r), w')
          \<longrightarrow> mark w' = Some (rl_published_at r) \<and> m' \<le> rl_published_at r)"
proof -
  obtain m' where "mark (foldl (upgrade_step g) w evs) = Some m'" "m \<le> m'"
    using run_mark [OF assms] by blast
  then show ?thesis using check_mark by blast
qed

text \<open>C33: A download that fails or is cancelled stages nothing, the release stays available with its
  metadata, and the publication watermark is untouched, whichever operations on the files fail. When
  none of them fails, none of the staging files is left behind: neither the partial nor a formerly
  staged payload or metadata.\<close>

theorem failed_download_leaves_nothing:
  assumes "co_available w = Some r" "co_metadata w = Some m"
    and "download_upgrade g resp a b w = (Inl e, w')"
  shows "co_staged w' = None \<and> co_status w' = Available r \<and> co_available w' = Some r \<and> co_metadata w' = Some m
    \<and> dk_entries (co_disk w') WatermarkFile = dk_entries (co_disk w) WatermarkFile
    \<and> (working (co_disk w) \<longrightarrow> (\<forall>f\<in>set all_staging_files. dk_entries (co_disk w') f = None))"
proof -
  note w' = download_upgrade_Inl [OF assms(3,1,2)]
  have "\<forall>f\<in>set all_staging_files. dk_entries (co_disk w') f = None" if "working (co_disk w)"
  proof -
    have "working (snd (stage_files g r m resp a (co_disk w)))"
      by (rule preservesD [OF works_on.frame_stage that]) simp
    then show ?thesis using remove_all_works by (simp add: w')
  qed
  moreover have "dk_entries (co_disk (snd (download_upgrade g resp a b w))) WatermarkFile = dk_entries (co_disk w) WatermarkFile"
    by (rule same_entry.frame_download_upgrade [OF _ refl]) (auto simp: all_staging_files_def)
  ultimately show ?thesis using assms by (simp add: w')
qed

text \<open>C34: A staged upgrade survives a restart. When a download has succeeded and the operations on its
  files succeed after the restart, recovering restores exactly that release as staged and available, with
  the same metadata, provided its publication is still inside the acceptance window.\<close>

theorem staged_upgrade_survives_restart:
  assumes spelling: "version_spelling g"
    and staged: "download_upgrade g resp False False (foldl (upgrade_step g) (coordinator_new d) evs) = (Inr r, w)"
    and works: "working (co_disk w)"
    and window: "publication_ok (uc_env g) (aged_context (uc_context g) n) r"
  shows "\<exists>w'. recover_staged g n (coordinator_new (co_disk w)) = (Inr True, w')
     \<and> co_staged w' = Some r \<and> co_available w' = Some r \<and> co_status w' = Staged r
     \<and> co_metadata w' = co_metadata w"
proof -
  let ?u = "foldl (upgrade_step g) (coordinator_new d) evs" and ?w = "coordinator_new (co_disk w)"
  have inv: "upgrade_inv g ?u"
    using upgrades.run_inv [of g "coordinator_new d" evs] spelling by (simp add: upgrade_inv_new)
  from download_upgrade_Inr [OF staged] obtain m d' where m: "co_available ?u = Some r" "co_metadata ?u = Some m"
    "stage_files g r m resp False (co_disk ?u) = (Inr (), d')"
    "w = ?u\<lparr>co_disk := d', co_staged := Some r, co_status := Staged r\<rparr>" .
  have gen: "genuine g m r" using inv m(1,2) by (simp add: upgrade_inv_def)
  obtain p where p: "contents PayloadStaged d' = Some p" "length p = unat (rl_byte_length r)"
    "uc_sha256 g p = rl_sha256 r" and json: "dk_entries d' ReleaseJson = Some (Regular m)"
    using stage_files_Inr [OF m(3)] .
  have root: "\<not> dk_root_link d'" "uc_bound g \<Longrightarrow> dk_root_canonical d'"
    using download_Inr_root [OF m(3)] by auto
  have accepted: "decode_and_validate (uc_env g) (aged_context (uc_context g) n) m = Inr r"
    using gen window by (auto simp: genuine_def decode_and_validate_Inr)
  have short: "length m \<le> MAX_RELEASE_METADATA_BYTES"
    using gen by (auto simp: genuine_def decode_and_verify_def split: if_splits)
  have d': "co_disk w = d'" and meta: "co_metadata w = Some m" using m(2) by (simp_all add: m(4))
  from recover_working [OF works [unfolded d'] root(1) _ json short accepted p] root(2) obtain d2
    where "recover_staged g n ?w = (Inr True, \<lparr>co_available = Some r, co_metadata = Some m, co_staged = Some r,
      co_status = Staged r, co_disk = d2\<rparr>)" by (auto simp: d')
  then show ?thesis by (auto simp: meta)
qed


section \<open>A concrete installation\<close>

definition sample_target :: release_target where
  "sample_target = \<lparr>rt_platform = Linux, rt_architecture = X86_64, rt_installer = LinuxDeb\<rparr>"

definition sample_release :: "nat \<Rightarrow> int \<Rightarrow> release" where
  "sample_release version published =
     \<lparr>rl_schema_version = 1, rl_minimum_source_version = [1], rl_target_version = [version],
      rl_target = sample_target, rl_installer_url = [], rl_byte_length = 1, rl_sha256 = replicate 64 48,
      rl_release_notes_url = [], rl_release_notes = [], rl_published_at = published\<rparr>"

text \<open>Envelopes of one byte select one of two releases; a version is one character, in its order.\<close>

definition sample_release_env :: "nat release_env" where
  "sample_release_env =
     \<lparr>re_parse_envelope = (\<lambda>b. Some \<lparr>sg_release = (if b = [1] then sample_release 2 100 else sample_release 3 200),
                                       sg_signature = []\<rparr>),
      re_signed_bytes = (\<lambda>_. Some []), re_base64 = (\<lambda>_. Some []), re_signature = Some,
      re_verifies = (\<lambda>_ _. True),
      re_url = (\<lambda>_. Some \<lparr>ur_scheme = lit ''https'', ur_username = [], ur_password = None,
                          ur_host = Some (lit ''github.com''), ur_port = None, ur_path = [],
                          ur_path_segments = None, ur_query = None, ur_fragment = None\<rparr>),
      re_version = (\<lambda>s. case s of [c] \<Rightarrow> Some c | _ \<Rightarrow> None)\<rparr>"

definition sample_config :: "nat upgrade_config" where
  "sample_config =
     \<lparr>uc_env = sample_release_env,
      uc_context = \<lparr>rc_current_version = [1], rc_expected_target = sample_target, rc_now = 1000,
                    rc_oldest_allowed = 0, rc_newest_seen = None\<rparr>,
      uc_bound = True, uc_sha256 = (\<lambda>_. replicate 64 48), uc_package_version = [1]\<rparr>"

definition sample_files :: disk where
  "sample_files = \<lparr>dk_entries = (\<lambda>_. None), dk_outcomes = [], dk_root_link = False, dk_root_canonical = True\<rparr>"

definition published_check :: "u8 \<Rightarrow> upgrade_event" where
  "published_check b = Check 0 (Some (Response 200 None [Some [b]]))"

definition sample_download :: payload_response where
  "sample_download = PayloadResponse 200 (Some 1) [Chunk [7]]"

lemma sample_spelling: "version_spelling sample_config"
  by (auto simp: version_spelling_def sample_config_def sample_release_env_def split: list.splits)


lemma byte_len_replicate: "byte_len (replicate n c) = n * utf8_width c"
  by (induction n) simp_all

lemma sample_release_simps [simp]:
  "rl_target_version (sample_release v p) = [v]" "rl_published_at (sample_release v p) = p"
  "rl_byte_length (sample_release v p) = 1" "rl_sha256 (sample_release v p) = replicate 64 48"
  by (simp_all add: sample_release_def)

lemma sample_url: "validate_release_url (re_url sample_release_env) [] = Inr ()"
  by (simp add: validate_release_url_def sample_release_env_def)

lemma sample_publication:
  assumes "rc_expected_target c = sample_target" "rc_oldest_allowed c \<le> p" "p \<le> i64_saturating_add (rc_now c) 300"
    "\<forall>s. rc_newest_seen c = Some s \<longrightarrow> s \<le> p"
  shows "publication_ok sample_release_env c (sample_release v p)"
  using assms
  by (simp add: publication_ok_def sample_release_def sample_target_def target_is_supported_def sample_url
      RELEASE_SCHEMA_VERSION_def MAX_UPGRADE_PAYLOAD_BYTES_def is_digest_def byte_len_replicate utf8_width_def
      list_all_iff is_ascii_hexdigit_def is_ascii_digit_def is_ascii_uppercase_def)

lemma sample_validates:
  assumes "publication_ok sample_release_env c (sample_release v p)" "rc_current_version c = [1]" "1 < v"
  shows "validate_release sample_release_env c (sample_release v p) = Inr ()"
  using validate_release_ok [OF assms(1)] assms(2,3)
  by (simp add: compare_versions_Inr) (simp add: sample_release_def sample_release_env_def)

definition sample_offer :: "u8 \<Rightarrow> release" where
  "sample_offer b = (if b = 1 then sample_release 2 100 else sample_release 3 200)"

lemma sample_envelope:
  "decode_and_verify sample_release_env [b] = Inr \<lparr>sg_release = sample_offer b, sg_signature = []\<rparr>"
  by (simp add: decode_and_verify_def sample_release_env_def sample_offer_def MAX_RELEASE_METADATA_BYTES_def)

lemma sample_watermark: "length (utf8_bytes (i64_text 100)) \<le> MAX_PUBLICATION_WATERMARK_BYTES"
  "length (utf8_bytes (i64_text 200)) \<le> MAX_PUBLICATION_WATERMARK_BYTES"
  by code_simp+

lemma sample_fetch: "fetch_metadata (Some (Response 200 None [Some [b]])) = Inr [b]"
  by (simp add: fetch_metadata_def bounded_response_def is_success_def MAX_RELEASE_METADATA_BYTES_def unat_u64)

lemma sample_context [simp]:
  "uc_env sample_config = sample_release_env" "rc_current_version (uc_context sample_config) = [1]"
  "rc_expected_target (uc_context sample_config) = sample_target" "uc_bound sample_config"
  "uc_sha256 sample_config p = replicate 64 48"
  "rc_now (aged_context (uc_context sample_config) 0) = 1000"
  "rc_oldest_allowed (aged_context (uc_context sample_config) 0) = 0"
  "rc_newest_seen (aged_context (uc_context sample_config) 0) = None"
  by (simp_all add: sample_config_def aged_context_def i64_saturating_add_def I64_MAX_def I64_MIN_def)

text \<open>A check on a directory where nothing fails, with a watermark below the offered publication.\<close>

definition with_mark :: "int \<Rightarrow> disk \<Rightarrow> disk" where
  "with_mark v d = set_entry WatermarkFile (Some (Regular (utf8_bytes (i64_text v)))) d"

lemma sample_check:
  assumes "read_publication_watermark (co_disk w) = (Inr p, d)" "dk_outcomes d = []" "\<not> dk_root_link d" "dk_root_canonical d"
    "\<forall>s. newest_watermark (map_option rl_published_at (co_available w)) p = Some s \<longrightarrow> s \<le> rl_published_at (sample_offer b)"
  shows "check_for_update sample_config 0 (Some (Response 200 None [Some [b]])) w =
    (Inr (Some (sample_offer b)), w\<lparr>co_disk := with_mark (rl_published_at (sample_offer b)) (later (later d)),
       co_available := Some (sample_offer b), co_metadata := Some [b], co_staged := None,
       co_status := Available (sample_offer b)\<rparr>)"
proof -
  let ?c = "check_context sample_config 0 w p"
  have c: "rc_now ?c = 1000" "rc_oldest_allowed ?c = 0" by (simp_all add: check_context_def)
  have "publication_ok sample_release_env ?c (sample_offer b)"
    using assms(5) by (auto simp: sample_offer_def c i64_saturating_add_def I64_MAX_def I64_MIN_def intro!: sample_publication)
  then have "validate_release sample_release_env ?c (sample_offer b) = Inr ()"
    by (auto simp: sample_offer_def intro!: sample_validates)
  then have dec: "decode_and_validate_for_publication sample_release_env ?c [b] = Inr (sample_offer b)"
    by (simp add: decode_and_validate_for_publication_def sample_envelope)
  have "persist_publication_watermark True v d = (Inr (), with_mark v (later (later d)))" for v
    using assms(2-4) by (simp add: persist_publication_watermark_def prepare_staging_root_def io_step_def
        atomic_write_def next_outcome_def with_mark_def later_def)
  then show ?thesis
    using assms(1) dec by (simp add: check_for_update_def sample_fetch on_disk_def check_context_def validated_by_def
        sample_offer_def Let_def)
qed


lemma quiet_ops:
  assumes "dk_outcomes d = []"
  shows "later d = d" "next_outcome d = Works" "working d"
  using assms by (simp_all add: later_def next_outcome_def working_def)

lemma quiet_set [simp]: "dk_outcomes d = [] \<Longrightarrow> later (set_entry f e d) = set_entry f e d"
  by (simp add: later_def)

lemma quiet_next [simp]: "dk_outcomes d = [] \<Longrightarrow> next_outcome (set_entry f e d) = Works"
  by (simp add: next_outcome_def)

lemma sample_stage:
  assumes "dk_outcomes d = []" "\<not> dk_root_link d" "dk_root_canonical d"
  shows "\<exists>d'. stage_files sample_config (sample_offer 1) [1] sample_download False d = (Inr (), d')
     \<and> dk_outcomes d' = [] \<and> dk_entries d' WatermarkFile = dk_entries d WatermarkFile"
proof -
  note quiet = quiet_ops [OF assms(1)]
  let ?d = "set_entry ReleasePartial None (set_entry PayloadPartial None d)"
  let ?p = "set_entry PayloadPartial (Some (Regular [7])) (set_entry PayloadPartial (Some (Regular [])) ?d)"
  have "write_payload_response 1 [Chunk [7]] ?d = (Inr (), ?p)"
    using assms by (simp add: write_payload_response_def write_file_def store_bytes_def quiet checked_add_def io_step_def)
  moreover have "re_url sample_release_env u =
      Some \<lparr>ur_scheme = lit ''https'', ur_username = [], ur_password = None, ur_host = Some (lit ''github.com''),
        ur_port = None, ur_path = [], ur_path_segments = None, ur_query = None, ur_fragment = None\<rparr>" for u
    by (simp add: sample_release_env_def)
  ultimately have "download_payload (re_url sample_release_env) (rl_installer_url (sample_offer 1))
      (min (rl_byte_length (sample_offer 1)) MAX_UPGRADE_PAYLOAD_BYTES) sample_download ?d = (Inr (), ?p)"
    by (simp add: download_payload_def sample_download_def is_allowed_release_url_def port_or_known_default_def
        ALLOWED_RELEASE_HOSTS_def is_success_def sample_offer_def MAX_UPGRADE_PAYLOAD_BYTES_def min_def)
  moreover have "verify_payload (uc_sha256 sample_config) PayloadPartial (sample_offer 1) ?p = (Inr (), ?p)"
    using assms by (simp add: verify_payload_def read_file_def contents_def verify_bytes_iff sample_offer_def)
  ultimately show ?thesis
    using assms by (simp add: stage_files_def prepare_staging_root_def io_step_def quiet remove_file_if_present_def
        write_file_def store_bytes_def rename_file_def)
qed

lemma sample_checked:
  "upgrade_step sample_config (coordinator_new sample_files) (published_check 1) =
    \<lparr>co_available = Some (sample_offer 1), co_metadata = Some [1], co_staged = None,
     co_status = Available (sample_offer 1), co_disk = with_mark 100 sample_files\<rparr>"
proof -
  have quiet: "dk_outcomes sample_files = []" by (simp add: sample_files_def)
  have "read_publication_watermark sample_files = (Inr None, sample_files)"
    by (simp add: read_publication_watermark_def try_exists_def quiet_ops [OF quiet])
      (simp add: contents_def sample_files_def)
  then show ?thesis
    using sample_check [of "coordinator_new sample_files" None sample_files 1] quiet_ops [OF quiet]
    by (simp add: published_check_def coordinator_new_def newest_watermark_def sample_offer_def)
      (simp add: sample_files_def)
qed

lemma sample_downloaded:
  obtains d p where "dk_outcomes d = []" "dk_entries d WatermarkFile = Some (Regular (utf8_bytes (i64_text 100)))"
    "dk_entries d ReleaseJson = Some (Regular [1])" "contents PayloadStaged d = Some p" "length p = 1"
    "\<not> dk_root_link d" "dk_root_canonical d"
    "download_upgrade sample_config sample_download False False
         (foldl (upgrade_step sample_config) (coordinator_new sample_files) [published_check 1])
       = (Inr (sample_offer 1),
          \<lparr>co_available = Some (sample_offer 1), co_metadata = Some [1], co_staged = Some (sample_offer 1),
           co_status = Staged (sample_offer 1), co_disk = d\<rparr>)"
proof -
  let ?d = "with_mark 100 sample_files"
  have d: "dk_outcomes ?d = []" "\<not> dk_root_link ?d" "dk_root_canonical ?d"
    "dk_entries ?d WatermarkFile = Some (Regular (utf8_bytes (i64_text 100)))"
    by (simp_all add: with_mark_def) (simp_all add: sample_files_def)
  obtain d' where d': "stage_files sample_config (sample_offer 1) [1] sample_download False ?d = (Inr (), d')"
    "dk_outcomes d' = []" "dk_entries d' WatermarkFile = dk_entries ?d WatermarkFile"
    using sample_stage [OF d(1-3)] by blast
  note root = download_Inr_root(1,2) [OF d'(1)]
  obtain p where p: "contents PayloadStaged d' = Some p" "length p = unat (rl_byte_length (sample_offer 1))"
    "dk_entries d' ReleaseJson = Some (Regular [1])" using stage_files_Inr [OF d'(1)] by metis
  show ?thesis
    by (rule that [of d' p]) (use d d' p root in \<open>simp_all add: sample_checked download_upgrade_def sample_offer_def\<close>)
qed

text \<open>A superseded release can be offered again after a restart: recovery does not consult the
  watermark, and a check that offers a newer release forgets the staged one without removing its
  files. A run in which this happens:\<close>

lemma superseded_stage_is_recovered:
  "\<exists>w. foldl (upgrade_step sample_config) (coordinator_new sample_files)
       [published_check 1, Download sample_download False False, published_check 2, Restart, Recover 0] = w
     \<and> mark w = Some 200 \<and> co_status w = Staged (sample_offer 1) \<and> rl_published_at (sample_offer 1) = 100"
proof -
  obtain d p where d: "dk_outcomes d = []" "dk_entries d WatermarkFile = Some (Regular (utf8_bytes (i64_text 100)))"
    "dk_entries d ReleaseJson = Some (Regular [1])" "contents PayloadStaged d = Some p" "length p = 1"
    "\<not> dk_root_link d" "dk_root_canonical d"
    and staged: "download_upgrade sample_config sample_download False False
         (foldl (upgrade_step sample_config) (coordinator_new sample_files) [published_check 1])
       = (Inr (sample_offer 1),
          \<lparr>co_available = Some (sample_offer 1), co_metadata = Some [1], co_staged = Some (sample_offer 1),
           co_status = Staged (sample_offer 1), co_disk = d\<rparr>)"
    by (rule sample_downloaded)
  let ?w = "\<lparr>co_available = Some (sample_offer 1), co_metadata = Some [1], co_staged = Some (sample_offer 1),
           co_status = Staged (sample_offer 1), co_disk = d\<rparr>"
  have "read_publication_watermark d = (Inr (Some 100), d)"
    using d(1,2) sample_watermark(1) parse_watermark_text [of 100]
    by (simp add: quiet_ops [OF d(1)] read_publication_watermark_def try_exists_def read_bounded_file_def read_file_def contents_def I64_MAX_def)
  then have checked: "co_disk (snd (check_for_update sample_config 0 (Some (Response 200 None [Some [2]])) ?w)) = with_mark 200 d"
    using sample_check [of ?w "Some 100" d 2] d(1,6,7) quiet_ops [OF d(1)]
    by (simp add: newest_watermark_def sample_offer_def)
  have "decode_and_validate sample_release_env (aged_context (uc_context sample_config) 0) [1] = Inr (sample_offer 1)"
    by (auto simp: decode_and_validate_def sample_envelope sample_offer_def i64_saturating_add_def I64_MAX_def I64_MIN_def
        intro!: sample_validates sample_publication bind_result_eq_Inr [THEN iffD2])
  then obtain d' where d': "recover_staged sample_config 0 (coordinator_new (with_mark 200 d))
      = (Inr True, \<lparr>co_available = Some (sample_offer 1), co_metadata = Some [1], co_staged = Some (sample_offer 1),
           co_status = Staged (sample_offer 1), co_disk = d'\<rparr>)"
    using recover_working [of "with_mark 200 d" sample_config "[1]" 0 "sample_offer 1" p] d
    by (auto simp: with_mark_def working_def MAX_RELEASE_METADATA_BYTES_def sample_offer_def)
  let ?v = "coordinator_new (with_mark 200 d)"
  have files: "set all_staging_files \<subseteq> - {WatermarkFile}" by (auto simp: all_staging_files_def)
  have "mark ?v = Some 200"
    by (rule mark_of_text) (simp_all add: coordinator_new_def with_mark_def I64_MAX_def)
  moreover have "mark (snd (recover_staged sample_config 0 ?v)) = mark ?v"
    by (rule mark_eqI, rule same_entry.frame_recover [OF files refl])
  ultimately show ?thesis
    using staged checked d' by (simp add: published_check_def sample_offer_def)
qed

section \<open>The properties apply\<close>

theorem installs_only_verified_upgrades_witness:
  "\<exists>w v. prepare_install sample_config [] False
       (foldl (upgrade_step sample_config) (coordinator_new sample_files)
          [published_check 1, Download sample_download False False]) = (Inr (Prepared v), w)
     \<and> (\<exists>r p. co_status w = Installing r \<and> v = rl_target_version r
          \<and> contents PayloadStaged (co_disk w) = Some p \<and> length p = unat (rl_byte_length r))"
proof -
  let ?evs = "[published_check 1, Download sample_download False False]"
  obtain d p where d: "dk_outcomes d = []" "contents PayloadStaged d = Some p" "length p = 1"
    and staged: "download_upgrade sample_config sample_download False False
         (foldl (upgrade_step sample_config) (coordinator_new sample_files) [published_check 1])
       = (Inr (sample_offer 1),
          \<lparr>co_available = Some (sample_offer 1), co_metadata = Some [1], co_staged = Some (sample_offer 1),
           co_status = Staged (sample_offer 1), co_disk = d\<rparr>)"
    by (rule sample_downloaded)
  have "\<exists>w. prepare_install sample_config [] False (foldl (upgrade_step sample_config) (coordinator_new sample_files) ?evs)
      = (Inr (Prepared [2]), w)"
    using staged d quiet_ops [OF d(1)]
    by (simp add: prepare_install_def on_disk_def verify_payload_def read_file_def verify_bytes_iff sample_offer_def)
  then obtain w where w: "prepare_install sample_config [] False
      (foldl (upgrade_step sample_config) (coordinator_new sample_files) ?evs) = (Inr (Prepared [2]), w)" by blast
  from installs_only_verified_upgrades [OF sample_spelling w] w show ?thesis by blast
qed

theorem watermark_never_decreases_witness:
  "mark (upgrade_step sample_config (coordinator_new sample_files) (published_check 1)) = Some 100
     \<and> (\<exists>m. mark (foldl (upgrade_step sample_config)
          (upgrade_step sample_config (coordinator_new sample_files) (published_check 1))
          [Download sample_download False False, published_check 2, Restart, Recover 0]) = Some m \<and> 100 \<le> m)"
proof -
  let ?w = "upgrade_step sample_config (coordinator_new sample_files) (published_check 1)"
  have m: "mark ?w = Some 100"
    by (rule mark_of_text) (simp_all add: sample_checked with_mark_def I64_MAX_def)
  have "\<forall>ev\<in>set [Download sample_download False False, published_check 2, Restart, Recover 0]. \<not> replaces_files ev"
    by (simp add: replaces_files_def published_check_def)
  from watermark_never_decreases [OF this m, of sample_config] m show ?thesis by blast
qed

theorem failed_download_leaves_nothing_witness:
  "\<exists>w. download_upgrade sample_config RequestFails False False
       (foldl (upgrade_step sample_config) (coordinator_new sample_files) [published_check 1])
     = (Inl (ReleaseService (lit ''payload request failed'')), w)
     \<and> dk_entries (co_disk w) PayloadPartial = None \<and> co_status w = Available (sample_offer 1)"
proof -
  let ?u = "foldl (upgrade_step sample_config) (coordinator_new sample_files) [published_check 1]"
  have quiet: "dk_outcomes (co_disk ?u) = []" and root: "\<not> dk_root_link (co_disk ?u)" "dk_root_canonical (co_disk ?u)"
    by (simp_all add: sample_checked with_mark_def) (simp_all add: sample_files_def)
  have url: "is_allowed_release_url u" if "re_url sample_release_env v = Some u" for u v
    using that by (auto simp: sample_release_env_def is_allowed_release_url_def port_or_known_default_def ALLOWED_RELEASE_HOSTS_def)
  obtain u where u: "re_url sample_release_env (rl_installer_url (sample_offer 1)) = Some u"
    by (simp add: sample_release_env_def)
  have "\<exists>d'. stage_files sample_config (sample_offer 1) [1] RequestFails False d
      = (Inl (ReleaseService (lit ''payload request failed'')), d')"
    if "dk_outcomes d = []" "\<not> dk_root_link d" "dk_root_canonical d" for d
    using that u url [OF u]
    by (simp add: quiet_ops [OF that(1)] stage_files_def prepare_staging_root_def io_step_def remove_file_if_present_def download_payload_def)
  from this [OF quiet root] obtain w where w: "download_upgrade sample_config RequestFails False False ?u
      = (Inl (ReleaseService (lit ''payload request failed'')), w)"
    by (auto simp: download_upgrade_def sample_checked)
  have "co_available ?u = Some (sample_offer 1)" "co_metadata ?u = Some [1]" by (simp_all add: sample_checked)
  note props = failed_download_leaves_nothing [OF this w]
  show ?thesis using w props quiet_ops(3) [OF quiet] by (auto simp: all_staging_files_def)
qed

theorem staged_upgrade_survives_restart_witness:
  "\<exists>w w'. download_upgrade sample_config sample_download False False
       (foldl (upgrade_step sample_config) (coordinator_new sample_files) [published_check 1]) = (Inr (sample_offer 1), w)
     \<and> recover_staged sample_config 0 (coordinator_new (co_disk w)) = (Inr True, w') \<and> co_status w' = Staged (sample_offer 1)"
proof -
  obtain d p where d: "dk_outcomes d = []"
    and staged: "download_upgrade sample_config sample_download False False
         (foldl (upgrade_step sample_config) (coordinator_new sample_files) [published_check 1])
       = (Inr (sample_offer 1),
          \<lparr>co_available = Some (sample_offer 1), co_metadata = Some [1], co_staged = Some (sample_offer 1),
           co_status = Staged (sample_offer 1), co_disk = d\<rparr>)"
    by (rule sample_downloaded)
  have "publication_ok (uc_env sample_config) (aged_context (uc_context sample_config) 0) (sample_offer 1)"
    by (auto simp: sample_offer_def i64_saturating_add_def I64_MAX_def I64_MIN_def intro!: sample_publication)
  from staged_upgrade_survives_restart [OF sample_spelling staged _ this] quiet_ops(3) [OF d] staged
  show ?thesis by auto
qed

end
