(* ===== verification/Upgrade_Install.thy ===== *)
theory Upgrade_Install
  imports Upgrade_Properties Session_State
begin

text \<open>
  The installation request of the daemon (\<open>daemon.rs\<close>, \<open>ClientRequest::InstallUpdate\<close>), which runs
  while the lifecycle of the daemon is quiesced: the confirmation of the active Sessions, the
  preparation by the upgrade coordinator, stopping the Sessions, and the handoff to the detached
  helper. What the Sessions, the clients, the helper and the connection answer are arguments.
\<close>

datatype install_error = LifecycleRefusal str | UpgradeRefusal upgrade_error | StopFailure

text \<open>
  \<open>ir_stops\<close> tells for each Session whether its actor answered the stop request and whether it was
  reaped before the deadline; \<open>ir_clients\<close> are the process identifiers of the connected clients
  (\<open>None\<close> is a poisoned registry); \<open>ir_quiesced\<close> whether the other clients left in time, \<open>ir_launched\<close>
  whether the helper started, \<open>ir_answered\<close> whether the response reached the connection.
\<close>

record install_request =
  ir_confirmed :: "uuid list"
  ir_requesting :: u32
  ir_client :: u32
  ir_sessions :: "(uuid \<times> str \<times> session_lifecycle) list"
  ir_stops :: "uuid \<Rightarrow> bool"
  ir_reaped :: bool
  ir_clients :: "u32 list option"
  ir_quiesced :: bool
  ir_launched :: bool
  ir_answered :: bool

record install_effects =
  ie_stopped :: "uuid list"
  ie_handoff :: "(release \<times> u32 list) option"
  ie_shutdown :: bool

definition no_effects :: install_effects where
  "no_effects = \<lparr>ie_stopped = [], ie_handoff = None, ie_shutdown = False\<rparr>"

definition active_sessions :: "(uuid \<times> str \<times> session_lifecycle) list \<Rightarrow> (uuid \<times> str) list" where
  "active_sessions ss = sort_key fst (map (\<lambda>(i, n, _). (i, n)) (filter (\<lambda>(_, _, l). lifecycle_is_active l) ss))"

definition override_confirmed :: "uuid list \<Rightarrow> (uuid \<times> str) list \<Rightarrow> bool" where
  "override_confirmed confirmed active \<longleftrightarrow>
     active \<noteq> [] \<and> card (set confirmed) = length confirmed \<and> set confirmed = fst ` set active"

text \<open>Sessions are stopped one after the other until one does not answer.\<close>

fun stop_sessions :: "(uuid \<Rightarrow> bool) \<Rightarrow> uuid list \<Rightarrow> uuid list \<times> bool" where
  "stop_sessions stops [] = ([], True)"
| "stop_sessions stops (s # ss) =
     (if stops s then (case stop_sessions stops ss of (stopped, ok) \<Rightarrow> (s # stopped, ok)) else ([s], False))"

type_synonym install_outcome = "(install_error + install_disposition) \<times> coordinator \<times> install_effects"

text \<open>The part after the Sessions have stopped: \<open>wait_for_other_client_processes\<close>, the launch, the
  response and the shutdown.\<close>

definition hand_off :: "install_request \<Rightarrow> install_disposition \<Rightarrow> uuid list \<Rightarrow> coordinator \<Rightarrow> install_outcome" where
  "hand_off q disposition stopped w =
     (let eff = no_effects\<lparr>ie_stopped := stopped\<rparr>;
          cancelled = (\<lambda>e. (Inl e, cancel_prepared_install w, eff))
      in case co_status w of
           Installing r \<Rightarrow>
             (case ir_clients q of
                None \<Rightarrow> (Inl (LifecycleRefusal (lit ''client process registry is unavailable'')), w, eff)
              | Some clients \<Rightarrow>
                  if length clients > MAX_UPGRADE_CLIENT_PROCESSES
                  then cancelled (LifecycleRefusal (lit ''too many connected applications to coordinate an upgrade''))
                  else if \<not> ir_quiesced q
                  then cancelled (LifecycleRefusal (lit ''connected applications did not quiesce for the upgrade''))
                  else if \<not> ir_launched q
                  then cancelled (LifecycleRefusal (lit ''could not start upgrade helper''))
                  else let eff = eff\<lparr>ie_handoff := Some (r, clients)\<rparr> in
                    if ir_answered q then (Inr disposition, w, eff\<lparr>ie_shutdown := True\<rparr>)
                    else (Inl (LifecycleRefusal (lit ''connection closed'')), w, eff))
         | _ \<Rightarrow> (Inl (LifecycleRefusal (lit ''upgrade handoff lost its verified release'')), w, eff))"

text \<open>From \<open>prepare_install\<close> on.\<close>

definition install_prepared ::
    "'v upgrade_config \<Rightarrow> install_request \<Rightarrow> (uuid \<times> str) list \<Rightarrow> bool \<Rightarrow> coordinator \<Rightarrow> install_outcome" where
  "install_prepared g q active confirmed w =
     (case prepare_install g active confirmed w of
        (Inl e, w) \<Rightarrow> (Inl (UpgradeRefusal e), w, no_effects)
      | (Inr (Blocked sessions), w) \<Rightarrow> (Inr (Blocked sessions), w, no_effects)
      | (Inr (Prepared v), w) \<Rightarrow>
          (if confirmed then
             (case stop_sessions (ir_stops q) (map fst active) of
                (stopped, ok) \<Rightarrow>
                  if ok \<and> ir_reaped q then hand_off q (Prepared v) stopped w
                  else (Inl StopFailure, cancel_prepared_install w, no_effects\<lparr>ie_stopped := stopped\<rparr>))
           else hand_off q (Prepared v) [] w))"

definition install_update :: "'v upgrade_config \<Rightarrow> install_request \<Rightarrow> coordinator \<Rightarrow> install_outcome" where
  "install_update g q w =
     (let refuse = (\<lambda>e. (Inl (LifecycleRefusal e), w, no_effects));
          active = active_sessions (ir_sessions q) in
      if ir_requesting q \<noteq> ir_client q
      then refuse (lit ''upgrade request process ID does not match its authenticated client'')
      else if length (ir_confirmed q) > MAX_UPGRADE_ACTIVE_SESSIONS
      then refuse (lit ''active-session upgrade confirmation is oversized'')
      else if length active > MAX_UPGRADE_ACTIVE_SESSIONS
      then refuse (lit ''too many active sessions to coordinate an upgrade'')
      else install_prepared g q active (override_confirmed (ir_confirmed q) active) w)"

section \<open>Consent\<close>

lemma stop_sessions_all: "stop_sessions stops ss = (stopped, True) \<Longrightarrow> stopped = ss \<and> (\<forall>s\<in>set ss. stops s)"
  by (induction ss arbitrary: stopped) (auto split: if_splits prod.splits)

lemma set_active_sessions:
  "fst ` set (active_sessions ss) = {i. \<exists>n l. (i, n, l) \<in> set ss \<and> lifecycle_is_active l}"
  by (force simp: active_sessions_def)

lemma hand_off_handoff:
  assumes "hand_off q x stopped w = (result, w', eff)" "ie_handoff eff = Some (r, clients)"
  shows "co_status w = Installing r \<and> w' = w \<and> ie_stopped eff = stopped \<and> ir_clients q = Some clients
    \<and> length clients \<le> MAX_UPGRADE_CLIENT_PROCESSES \<and> ir_quiesced q"
  using assms
  by (auto simp: hand_off_def no_effects_def Let_def not_less split: upgrade_status.splits option.splits if_splits)

lemma install_update_guards:
  "install_update g q w = (result, w', eff) \<Longrightarrow>
     w' = w \<and> eff = no_effects
     \<or> ir_requesting q = ir_client q
        \<and> install_prepared g q (active_sessions (ir_sessions q))
            (override_confirmed (ir_confirmed q) (active_sessions (ir_sessions q))) w = (result, w', eff)"
  unfolding install_update_def Let_def by (simp split: if_splits)

lemma install_prepared_cases:
  assumes run: "install_prepared g q active confirmed w = (result, w', eff)"
  obtains (unprepared) d where "w' = w\<lparr>co_disk := d\<rparr>" "eff = no_effects"
  | (stopping) w1 v stopped where "prepare_install g active confirmed w = (Inr (Prepared v), w1)"
      "w' = cancel_prepared_install w1" "eff = no_effects\<lparr>ie_stopped := stopped\<rparr>"
  | (handing) w1 v where "prepare_install g active confirmed w = (Inr (Prepared v), w1)"
      "active = [] \<or> confirmed \<and> ir_reaped q"
      "hand_off q (Prepared v) (map fst active) w1 = (result, w', eff)"
proof -
  obtain x w1 where prep: "prepare_install g active confirmed w = (x, w1)" by force
  show ?thesis
  proof (cases "\<exists>v. x = Inr (Prepared v)")
    case False
    then obtain d where d: "w1 = w\<lparr>co_disk := d\<rparr>" using prepare_cases [OF prep] by auto
    have "w' = w1 \<and> eff = no_effects"
    proof (cases x)
      case (Inr y)
      then show ?thesis using run prep False by (cases y) (simp_all add: install_prepared_def)
    qed (use run prep in \<open>simp add: install_prepared_def\<close>)
    then show ?thesis using d unprepared by simp
  next
    case True
    then obtain v where v: "x = Inr (Prepared v)" by blast
    have consent: "active \<noteq> [] \<longrightarrow> confirmed" using prepare_cases [OF prep] v by auto
    obtain stopped ok where stop: "stop_sessions (ir_stops q) (map fst active) = (stopped, ok)" by force
    show ?thesis
    proof (cases "confirmed \<and> \<not> (ok \<and> ir_reaped q)")
      case True
      then show ?thesis using run prep v stop stopping [of v w1 stopped]
        by (auto simp: install_prepared_def split: if_splits)
    next
      case False
      have "hand_off q (Prepared v) (map fst active) w1 = (result, w', eff)"
      proof (cases confirmed)
        case True
        then have "ok" "ir_reaped q" using False by auto
        then show ?thesis using run prep v stop True stop_sessions_all [of "ir_stops q" "map fst active" stopped]
          by (simp add: install_prepared_def)
      next
        case no: False
        then have "active = []" using consent by blast
        then show ?thesis using run prep v no by (simp add: install_prepared_def)
      qed
      then show ?thesis using prep v False consent handing [of v w1] by blast
    qed
  qed
qed

text \<open>C35: An upgrade is handed to the detached helper only with the consent of everyone it ends. Take a
  request that arrives in any state reached by checks, downloads, recoveries, cancellations, outcomes
  and restarts in which no installation is in progress already. A handoff means: the requester is the
  client it claims to be; every active Session was named exactly once in the confirmation, with no
  other name in it, and has been stopped and reaped; the other clients have left; the release is
  announced by metadata with a valid signature of the embedded key, is for this platform and strictly
  newer, and the staged payload has the length and digest it announces. The daemon shuts down only
  after a handoff. A request that is refused or fails before the handoff leaves the former status, so
  that the staged upgrade can be installed later (unless the registry of clients is poisoned).\<close>

theorem install_handoff_is_consented:
  assumes spelling: "version_spelling g"
    and before: "w = foldl (upgrade_step g) (coordinator_new d) evs" "\<forall>r. co_status w \<noteq> Installing r"
    and result: "install_update g q w = (result, w', eff)"
  shows "(\<forall>r clients. ie_handoff eff = Some (r, clients) \<longrightarrow>
      ir_requesting q = ir_client q
      \<and> set (ie_stopped eff) = {i. \<exists>n l. (i, n, l) \<in> set (ir_sessions q) \<and> lifecycle_is_active l}
      \<and> (ie_stopped eff \<noteq> [] \<longrightarrow> set (ir_confirmed q) = set (ie_stopped eff) \<and> distinct (ir_confirmed q) \<and> ir_reaped q)
      \<and> length clients \<le> MAX_UPGRADE_CLIENT_PROCESSES \<and> ir_quiesced q
      \<and> (\<exists>m e. decode_and_verify (uc_env g) m = Inr e \<and> sg_release e = r)
      \<and> upgrade_for (uc_env g) (rc_current_version (uc_context g)) (rc_expected_target (uc_context g)) r
      \<and> (\<exists>p. contents PayloadStaged (co_disk w') = Some p \<and> length p = unat (rl_byte_length r) \<and> uc_sha256 g p = rl_sha256 r))
    \<and> (ie_shutdown eff \<longrightarrow> ie_handoff eff \<noteq> None)
    \<and> (ie_handoff eff = None \<longrightarrow> ir_clients q \<noteq> None \<longrightarrow> co_status w' = co_status w \<and> co_staged w' = co_staged w)"
proof -
  have inv: "upgrade_inv g w"
    using upgrades.run_inv [of g "coordinator_new d" evs] spelling before(1) by (simp add: upgrade_inv_new)
  let ?active = "active_sessions (ir_sessions q)"
  have prepared: "\<exists>r. co_staged w = Some r \<and> co_status w = Staged r \<and> co_staged w1 = Some r \<and> co_status w1 = Installing r
      \<and> (\<exists>m e. decode_and_verify (uc_env g) m = Inr e \<and> sg_release e = r)
      \<and> upgrade_for (uc_env g) (rc_current_version (uc_context g)) (rc_expected_target (uc_context g)) r
      \<and> (\<exists>p. contents PayloadStaged (co_disk w1) = Some p \<and> length p = unat (rl_byte_length r) \<and> uc_sha256 g p = rl_sha256 r)"
    if prep: "prepare_install g active c w = (Inr (Prepared v), w1)" for active c v w1
  proof -
    from prepare_cases [OF prep] obtain r d' where r: "co_staged w = Some r"
      "verify_payload (uc_sha256 g) PayloadStaged r (co_disk w) = (Inr (), d')"
      "w1 = w\<lparr>co_disk := d', co_status := Installing r\<rparr>" by auto
    have "co_status w = Staged r \<and> co_available w = Some r"
      using inv r(1) before(2) by (cases "co_status w") (auto simp: upgrade_inv_def)
    moreover from this obtain m where "genuine g m r" using inv by (auto simp: upgrade_inv_def split: option.splits)
    ultimately show ?thesis using r verify_payload_Inr [OF r(2)] by (auto simp: genuine_def)
  qed
  from install_update_guards [OF result] consider "w' = w" "eff = no_effects"
    | "ir_requesting q = ir_client q"
      "install_prepared g q ?active (override_confirmed (ir_confirmed q) ?active) w = (result, w', eff)" by blast
  then show ?thesis
  proof cases
    case 1
    then show ?thesis by (simp add: no_effects_def)
  next
    case 2
    from 2(2) show ?thesis
    proof (cases rule: install_prepared_cases)
    case (unprepared d)
    then show ?thesis by (simp add: no_effects_def)
  next
    case (stopping w1 v stopped)
    then show ?thesis using prepared [OF stopping(1)] by (auto simp: no_effects_def cancel_prepared_install_def)
  next
    case (handing w1 v)
    from prepared [OF handing(1)] obtain r where r: "co_staged w = Some r" "co_status w = Staged r"
      "co_staged w1 = Some r" "co_status w1 = Installing r"
      "(\<exists>m e. decode_and_verify (uc_env g) m = Inr e \<and> sg_release e = r)" "upgrade_for (uc_env g) (rc_current_version (uc_context g)) (rc_expected_target (uc_context g)) r"
      "\<exists>p. contents PayloadStaged (co_disk w1) = Some p \<and> length p = unat (rl_byte_length r) \<and> uc_sha256 g p = rl_sha256 r"
      by blast
    have quiet: "ie_handoff eff = None \<Longrightarrow> ir_clients q \<noteq> None \<Longrightarrow> co_status w' = Staged r \<and> co_staged w' = Some r"
      using handing(3) r(3,4)
      by (auto simp: hand_off_def no_effects_def Let_def cancel_prepared_install_def split: option.splits if_splits)
    have shut: "ie_shutdown eff \<Longrightarrow> ie_handoff eff \<noteq> None"
      using handing(3) r(4) by (auto simp: hand_off_def no_effects_def Let_def split: option.splits if_splits)
    have given: "ir_requesting q = ir_client q
      \<and> set (ie_stopped eff) = {i. \<exists>n l. (i, n, l) \<in> set (ir_sessions q) \<and> lifecycle_is_active l}
      \<and> (ie_stopped eff \<noteq> [] \<longrightarrow> set (ir_confirmed q) = set (ie_stopped eff) \<and> distinct (ir_confirmed q) \<and> ir_reaped q)
      \<and> length clients \<le> MAX_UPGRADE_CLIENT_PROCESSES \<and> ir_quiesced q
      \<and> (\<exists>m e. decode_and_verify (uc_env g) m = Inr e \<and> sg_release e = r')
      \<and> upgrade_for (uc_env g) (rc_current_version (uc_context g)) (rc_expected_target (uc_context g)) r'
      \<and> (\<exists>p. contents PayloadStaged (co_disk w') = Some p \<and> length p = unat (rl_byte_length r') \<and> uc_sha256 g p = rl_sha256 r')"
      if "ie_handoff eff = Some (r', clients)" for r' clients
    proof -
      note off = hand_off_handoff [OF handing(3) that]
      have "r' = r" using off r(4) by simp
      moreover have "ie_stopped eff \<noteq> [] \<longrightarrow> set (ir_confirmed q) = set (ie_stopped eff) \<and> distinct (ir_confirmed q) \<and> ir_reaped q"
        using handing(2) off by (auto simp: override_confirmed_def card_distinct)
      moreover have "set (ie_stopped eff) = {i. \<exists>n l. (i, n, l) \<in> set (ir_sessions q) \<and> lifecycle_is_active l}"
        using off set_active_sessions [of "ir_sessions q"] by simp
      ultimately show ?thesis using off 2(1) r(5,6,7) by simp
    qed
    show ?thesis using given quiet shut r(1,2) by auto
    qed
  qed
qed


definition sample_install :: install_request where
  "sample_install =
     \<lparr>ir_confirmed = [5], ir_requesting = 9, ir_client = 9,
      ir_sessions = [(6, lit ''done'', Exited), (5, lit ''main'', Running)],
      ir_stops = (\<lambda>_. True), ir_reaped = True, ir_clients = Some [9], ir_quiesced = True,
      ir_launched = True, ir_answered = True\<rparr>"

theorem install_handoff_is_consented_witness:
  "\<exists>w' eff. install_update sample_config sample_install
       (foldl (upgrade_step sample_config) (coordinator_new sample_files)
          [published_check 1, Download sample_download False False]) = (Inr (Prepared [2]), w', eff)
     \<and> ie_handoff eff = Some (sample_offer 1, [9]) \<and> ie_shutdown eff
     \<and> set (ie_stopped eff) = {i. \<exists>n l. (i, n, l) \<in> set (ir_sessions sample_install) \<and> lifecycle_is_active l}"
proof -
  let ?w = "foldl (upgrade_step sample_config) (coordinator_new sample_files)
          [published_check 1, Download sample_download False False]"
  obtain d p where d: "dk_outcomes d = []" "contents PayloadStaged d = Some p" "length p = 1"
    and staged: "download_upgrade sample_config sample_download False False
         (foldl (upgrade_step sample_config) (coordinator_new sample_files) [published_check 1])
       = (Inr (sample_offer 1),
          \<lparr>co_available = Some (sample_offer 1), co_metadata = Some [1], co_staged = Some (sample_offer 1),
           co_status = Staged (sample_offer 1), co_disk = d\<rparr>)"
    by (rule sample_downloaded)
  let ?s = "\<lparr>co_available = Some (sample_offer 1), co_metadata = Some [1], co_staged = Some (sample_offer 1),
           co_status = Staged (sample_offer 1), co_disk = d\<rparr>"
  have w: "?w = ?s" using staged by simp
  have active: "active_sessions (ir_sessions sample_install) = [(5, lit ''main'')]"
    by (simp add: active_sessions_def sample_install_def lifecycle_is_active_def)
  have "prepare_install sample_config [(5, lit ''main'')] True ?s
      = (Inr (Prepared [2]), ?s\<lparr>co_status := Installing (sample_offer 1)\<rparr>)"
    using d by (simp add: prepare_install_def on_disk_def verify_payload_def read_file_def verify_bytes_iff
        sample_offer_def quiet_ops [OF d(1)])
  then obtain w' eff where res: "install_update sample_config sample_install ?s = (Inr (Prepared [2]), w', eff)"
    and off: "ie_handoff eff = Some (sample_offer 1, [9])" "ie_shutdown eff"
    by (simp add: install_update_def active Let_def)
      (simp add: install_prepared_def sample_install_def override_confirmed_def hand_off_def no_effects_def
        MAX_UPGRADE_ACTIVE_SESSIONS_def MAX_UPGRADE_CLIENT_PROCESSES_def)
  have "\<forall>r. co_status ?s \<noteq> Installing r" by simp
  from install_handoff_is_consented [OF sample_spelling w [symmetric] this res] off
  have "set (ie_stopped eff) = {i. \<exists>n l. (i, n, l) \<in> set (ir_sessions sample_install) \<and> lifecycle_is_active l}"
    by blast
  then show ?thesis using res off w by auto
qed

end
