(* ===== verification/Change_Diff.thy ===== *)
theory Change_Diff
  imports Text_Tools
begin

text \<open>
  The diffs clients review (\<open>sylvops-core/src/diff.rs\<close> and the data of \<open>changes.rs\<close>): the
  classification of unified-diff lines, keys of changed files, the bounded parsing of a patch into
  numbered lines, and the alignment of removed and added lines into rows.
\<close>

definition MAX_FILE_BYTES :: nat where "MAX_FILE_BYTES = 256 * 1024"
definition MAX_DIFF_LINES :: nat where "MAX_DIFF_LINES = 4000"
definition MAX_LINE_BYTES :: nat where "MAX_LINE_BYTES = 8 * 1024"

section \<open>Classification\<close>

datatype diff_line_kind = FileHeader | Metadata | HunkHeader | Addition | Deletion | Context | Notice

definition strip_cr :: "str \<Rightarrow> str" where
  "strip_cr s = (case strip_suffix [13] s of None \<Rightarrow> s | Some t \<Rightarrow> t)"

definition classify_line :: "str \<Rightarrow> diff_line_kind" where
  "classify_line line =
     (if starts_with (lit ''diff --git '') line \<or> starts_with (lit ''--- '') line \<or> starts_with (lit ''+++ '') line
      then FileHeader
      else if starts_with [chr CHR ''@'', chr CHR ''@''] line then HunkHeader
      else if starts_with (lit ''+'') line then Addition
      else if starts_with (lit ''-'') line then Deletion
      else if starts_with (lit '' '') line \<or> line = [] then Context
      else if starts_with (chr (CHR 0x5C) # lit '' No newline at end of file'') line
              \<or> starts_with (lit ''['') line \<and> ends_with (lit '']'') line then Notice
      else Metadata)"

text \<open>The lines of a diff with their roles; the line ending is clipped off.\<close>

definition diff_lines :: "str \<Rightarrow> (diff_line_kind \<times> str) list" where
  "diff_lines d = map (\<lambda>l. let l = strip_cr l in (classify_line l, l)) (split_on 10 d)"

section \<open>Keys of changed files\<close>

datatype change_group = Unstaged | StagedGroup | Untracked

text \<open>Paths are the bytes of Git.\<close>

record change_key =
  ck_group :: change_group
  ck_path :: "nat list"

definition change_key_valid :: "change_key \<Rightarrow> bool" where
  "change_key_valid k \<longleftrightarrow>
     ck_path k \<noteq> [] \<and> length (ck_path k) \<le> 4096
     \<and> 0 \<notin> set (ck_path k) \<and> of_char (CHR 0x5C) \<notin> set (ck_path k) \<and> of_char (CHR '':'') \<notin> set (ck_path k)
     \<and> list_all (\<lambda>p. p \<noteq> [] \<and> p \<noteq> lit ''.'' \<and> p \<noteq> lit ''..'' \<and> ascii_lowercase p \<noteq> lit ''.git'')
         (split_on (chr CHR ''/'') (ck_path k))"

section \<open>Patches\<close>

record change_line =
  ch_kind :: diff_line_kind
  ch_text :: str
  ch_old :: "u32 option"
  ch_new :: "u32 option"

record file_change =
  fc_worktree :: uuid
  fc_key :: change_key
  fc_lines :: "change_line list"
  fc_additions :: nat
  fc_deletions :: nat
  fc_truncated :: bool
  fc_notice :: "str option"

text \<open>\<open>char::escape_default\<close> of a control character.\<close>

function hex_digits :: "nat \<Rightarrow> str" where
  "hex_digits n =
     (let d = (if n mod 16 < 10 then 48 + n mod 16 else 87 + n mod 16)
      in if n < 16 then [d] else hex_digits (n div 16) @ [d])"
  by pat_completeness auto
termination by (relation "measure id") auto

declare hex_digits.simps [simp del]

definition escape_control :: "nat \<Rightarrow> str" where
  "escape_control c =
     (if c = 9 then [chr (CHR 0x5C), chr CHR ''t'']
      else if c = 13 then [chr (CHR 0x5C), chr CHR ''r'']
      else if c = 10 then [chr (CHR 0x5C), chr CHR ''n'']
      else [chr (CHR 0x5C), chr CHR ''u'', chr (CHR 0x7B)] @ hex_digits c @ [chr (CHR 0x7D)])"

definition safe_text :: "str \<Rightarrow> str" where
  "safe_text s = concat (map (\<lambda>c. if is_control c \<and> c \<noteq> 9 then escape_control c else [c]) s)"

definition split_terminator :: "nat \<Rightarrow> str \<Rightarrow> str list" where
  "split_terminator c s = (let ps = split_on c s in if last ps = [] then butlast ps else ps)"

function split_whitespace :: "str \<Rightarrow> str list" where
  "split_whitespace s =
     (case dropWhile is_whitespace s of
        [] \<Rightarrow> []
      | c # cs \<Rightarrow> takeWhile (\<lambda>c. \<not> is_whitespace c) (c # cs)
                 # split_whitespace (dropWhile (\<lambda>c. \<not> is_whitespace c) (c # cs)))"
  by pat_completeness auto
termination
proof (relation "measure length")
  fix s c cs
  assume rest: "dropWhile is_whitespace s = c # cs"
  then have "\<not> is_whitespace c" using hd_dropWhile [of is_whitespace s] by simp
  moreover have "length cs < length s" using length_dropWhile_le [of is_whitespace s] rest by simp
  ultimately show "(dropWhile (\<lambda>c. \<not> is_whitespace c) (c # cs), s) \<in> measure length"
    using length_dropWhile_le [of "\<lambda>c. \<not> is_whitespace c" cs] by simp
qed simp

declare split_whitespace.simps [simp del]

definition parse_u32 :: "str \<Rightarrow> u32 option" where
  "parse_u32 s =
     (let digits = (case s of c # cs \<Rightarrow> if c = of_char CHR ''+'' then cs else s | [] \<Rightarrow> [])
      in if digits = [] \<or> \<not> list_all is_ascii_digit digits then None
         else if digits_value digits < 2 ^ 32 then Some (of_int (digits_value digits)) else None)"

text \<open>\<open>range.get(1..)\<close> is \<open>None\<close> inside a character.\<close>

definition parse_range :: "str \<Rightarrow> u32 option" where
  "parse_range field =
     (case field of
        [] \<Rightarrow> None
      | c # cs \<Rightarrow> if utf8_width c = 1 then parse_u32 (hd (split_on (chr CHR '','') cs)) else None)"

text \<open>
  The loop of \<open>from_patch\<close>. The counters are \<open>u32\<close> and wrap, as they do in the release profile; an
  arithmetic check would panic at the last line number.
\<close>

record patch_state =
  pt_lines :: "change_line list"
  pt_additions :: nat
  pt_deletions :: nat
  pt_truncated :: bool
  pt_old :: u32
  pt_new :: u32
  pt_in_hunk :: bool
  pt_budget :: nat

definition hunk_position :: "str \<Rightarrow> u32 \<times> u32" where
  "hunk_position raw =
     (let fields = split_whitespace raw;
          field = (\<lambda>i. if i < length fields then parse_range (fields ! i) else None);
          number = (\<lambda>n. case n of None \<Rightarrow> 0 | Some x \<Rightarrow> x)
      in (number (field 1), number (field 2)))"

text \<open>The kind of a line and the position after a possible header.\<close>

definition line_role :: "str \<Rightarrow> patch_state \<Rightarrow> diff_line_kind \<times> patch_state" where
  "line_role raw st =
     (let st = (if starts_with (lit ''diff --git '') raw then st\<lparr>pt_in_hunk := False\<rparr> else st);
          kind = classify_line (strip_cr raw)
      in if starts_with [chr CHR ''@'', chr CHR ''@'', chr CHR '' ''] raw
         then (kind, st\<lparr>pt_old := fst (hunk_position raw), pt_new := snd (hunk_position raw), pt_in_hunk := True\<rparr>)
         else if pt_in_hunk st
         then ((case raw of
                  c # _ \<Rightarrow> if c = chr CHR ''+'' then Addition else if c = chr CHR ''-'' then Deletion
                          else if c = chr CHR '' '' then Context else Notice
                | [] \<Rightarrow> Notice), st)
         else (kind, st))"

definition number_line :: "diff_line_kind \<Rightarrow> patch_state \<Rightarrow> (u32 option \<times> u32 option) \<times> patch_state" where
  "number_line kind st =
     (if \<not> pt_in_hunk st then ((None, None), st)
      else case kind of
        Addition \<Rightarrow> ((None, Some (pt_new st)),
                     st\<lparr>pt_additions := pt_additions st + 1, pt_new := pt_new st + 1\<rparr>)
      | Deletion \<Rightarrow> ((Some (pt_old st), None),
                     st\<lparr>pt_deletions := pt_deletions st + 1, pt_old := pt_old st + 1\<rparr>)
      | Context \<Rightarrow> ((Some (pt_old st), Some (pt_new st)),
                    st\<lparr>pt_old := pt_old st + 1, pt_new := pt_new st + 1\<rparr>)
      | _ \<Rightarrow> ((None, None), st))"

definition bounded_text :: "str \<Rightarrow> nat \<Rightarrow> str \<times> bool" where
  "bounded_text raw budget =
     (let clipped = fitting_prefix MAX_LINE_BYTES raw;
          safe = safe_text clipped;
          text = fitting_prefix (min MAX_LINE_BYTES budget) safe
      in (text, clipped \<noteq> raw \<or> text \<noteq> safe))"

text \<open>\<open>Inl\<close> ends the loop.\<close>

definition patch_line :: "str \<Rightarrow> patch_state \<Rightarrow> patch_state + patch_state" where
  "patch_line line st =
     (if length (pt_lines st) = MAX_DIFF_LINES then Inl (st\<lparr>pt_truncated := True\<rparr>)
      else
        let raw = strip_cr line;
            (kind, st) = line_role raw st;
            ((old, new), st) = number_line kind st;
            (text, clipped) = bounded_text raw (pt_budget st);
            st = (if clipped then st\<lparr>pt_truncated := True\<rparr> else st)
        in if pt_budget st = 0 then Inl (st\<lparr>pt_truncated := True\<rparr>)
           else Inr (st\<lparr>pt_budget := pt_budget st - byte_len text,
                        pt_lines := pt_lines st @ [\<lparr>ch_kind = kind, ch_text = text, ch_old = old, ch_new = new\<rparr>]\<rparr>))"

fun patch_loop :: "str list \<Rightarrow> patch_state \<Rightarrow> patch_state" where
  "patch_loop [] st = st"
| "patch_loop (l # ls) st = (case patch_line l st of Inl st \<Rightarrow> st | Inr st \<Rightarrow> patch_loop ls st)"

definition from_patch :: "uuid \<Rightarrow> change_key \<Rightarrow> str \<Rightarrow> bool \<Rightarrow> file_change" where
  "from_patch worktree key patch truncated =
     (let st = patch_loop (split_terminator 10 patch)
        \<lparr>pt_lines = [], pt_additions = 0, pt_deletions = 0, pt_truncated = truncated,
         pt_old = 0, pt_new = 0, pt_in_hunk = False, pt_budget = MAX_FILE_BYTES\<rparr>
      in \<lparr>fc_worktree = worktree, fc_key = key, fc_lines = pt_lines st, fc_additions = pt_additions st,
          fc_deletions = pt_deletions st, fc_truncated = pt_truncated st, fc_notice = None\<rparr>)"

definition file_metadata :: "uuid \<Rightarrow> change_key \<Rightarrow> str \<Rightarrow> file_change" where
  "file_metadata worktree key notice =
     \<lparr>fc_worktree = worktree, fc_key = key, fc_lines = [], fc_additions = 0, fc_deletions = 0,
      fc_truncated = False, fc_notice = Some notice\<rparr>"

section \<open>Rows\<close>

definition is_change :: "diff_line_kind \<Rightarrow> bool" where
  "is_change k \<longleftrightarrow> k = Deletion \<or> k = Addition"

text \<open>The inner loop collects a block of changes from a position on.\<close>

function change_block :: "change_line list \<Rightarrow> nat \<Rightarrow> nat list \<Rightarrow> nat list \<Rightarrow> nat \<times> nat list \<times> nat list" where
  "change_block ls i left right =
     (if i < length ls \<and> is_change (ch_kind (ls ! i))
      then (if ch_kind (ls ! i) = Deletion then change_block ls (i + 1) (left @ [i]) right
            else change_block ls (i + 1) left (right @ [i]))
      else (i, left, right))"
  by pat_completeness auto
termination by (relation "measure (\<lambda>(ls, i, _, _). length ls - i)") auto

declare change_block.simps [simp del]

definition get_at :: "'a list \<Rightarrow> nat \<Rightarrow> 'a option" where
  "get_at xs n = (if n < length xs then Some (xs ! n) else None)"

definition pair_rows :: "nat list \<Rightarrow> nat list \<Rightarrow> (nat option \<times> nat option) list" where
  "pair_rows left right = map (\<lambda>n. (get_at left n, get_at right n)) [0..<max (length left) (length right)]"

lemma change_block_advances: "change_block ls i l r = (j, l', r') \<Longrightarrow> i \<le> j"
proof (induction ls i l r rule: change_block.induct)
  case (1 ls i l r)
  then show ?case by (simp (no_asm_use) add: change_block.simps [of ls i l r] split: if_splits) fastforce+
qed

lemma change_block_fst: "i \<le> fst (change_block ls i l r)"
  using change_block_advances [of ls i l r] by (metis prod.collapse)

lemma change_block_progress:
  assumes "i < length ls" "is_change (ch_kind (ls ! i))"
  shows "i < fst (change_block ls i [] [])"
  using assms change_block_fst [of "i + 1" ls "[i]" "[]"] change_block_fst [of "i + 1" ls "[]" "[i]"]
  by (simp add: change_block.simps [of ls i])

function split_rows_from :: "change_line list \<Rightarrow> nat \<Rightarrow> (nat option \<times> nat option) list" where
  "split_rows_from ls i =
     (if i < length ls then
        if is_change (ch_kind (ls ! i)) then
          (case change_block ls i [] [] of (j, left, right) \<Rightarrow> pair_rows left right @ split_rows_from ls j)
        else (Some i, Some i) # split_rows_from ls (i + 1)
      else [])"
  by pat_completeness auto
termination
proof (relation "measure (\<lambda>(ls, i). length ls - i)", goal_cases)
  case 2
  then show ?case
    using change_block_progress by (auto intro!: diff_less_mono2) (metis fst_conv)
qed auto

declare split_rows_from.simps [simp del]

definition split_rows :: "file_change \<Rightarrow> (nat option \<times> nat option) list" where
  "split_rows f = split_rows_from (fc_lines f) 0"

end
