(* ===== verification/Git_Output.thy ===== *)
theory Git_Output
  imports GitHub_Work Change_Diff "HOL-Library.List_Lexorder" "HOL-Library.Product_Lexorder"
begin

text \<open>
  What the daemon reads from Git (\<open>sylvops-daemon/src/git.rs\<close> and \<open>git/changes.rs\<close>): UTF-8 decoding
  of its bounded output, Unix paths, the porcelain status records with their rename pairs, the
  default branch a remote advertises, and the validation of names before they become arguments.
  Bytes are natural numbers below 256, as in the keys of changed files.
\<close>

section \<open>UTF-8\<close>

text \<open>Decoding takes one character or one maximal ill-formed sequence at a time:
  \<open>str::from_utf8\<close> refuses the second, \<open>from_utf8_lossy\<close> replaces it.\<close>

definition continuation :: "nat \<Rightarrow> bool" where
  "continuation b \<longleftrightarrow> 128 \<le> b \<and> b < 192"

definition second_byte :: "nat \<Rightarrow> nat \<Rightarrow> bool" where
  "second_byte lead b \<longleftrightarrow>
     (if lead = 0xE0 then 0xA0 \<le> b \<and> b < 192 else if lead = 0xED then 128 \<le> b \<and> b < 0xA0
      else if lead = 0xF0 then 0x90 \<le> b \<and> b < 192 else if lead = 0xF4 then 128 \<le> b \<and> b < 0x90
      else continuation b)"

fun take_continuations :: "nat \<Rightarrow> nat \<Rightarrow> nat list \<Rightarrow> nat option \<times> nat list" where
  "take_continuations 0 c bs = (Some c, bs)"
| "take_continuations (Suc k) c [] = (None, [])"
| "take_continuations (Suc k) c (b # bs) =
     (if continuation b then take_continuations k (64 * c + (b - 128)) bs else (None, b # bs))"

definition utf8_step :: "nat \<Rightarrow> nat list \<Rightarrow> nat option \<times> nat list" where
  "utf8_step b bs =
     (if b < 128 then (Some b, bs)
      else if 0xC2 \<le> b \<and> b \<le> 0xDF then take_continuations 1 (b - 0xC0) bs
      else if 0xE0 \<le> b \<and> b \<le> 0xF4 then
        (case bs of [] \<Rightarrow> (None, [])
         | d # ds \<Rightarrow> if \<not> second_byte b d then (None, bs)
             else if b < 0xF0 then take_continuations 1 (64 * (b - 0xE0) + (d - 128)) ds
             else take_continuations 2 (64 * (b - 0xF0) + (d - 128)) ds)
      else (None, bs))"

lemma take_continuations_shrinks: "length (snd (take_continuations k c bs)) \<le> length bs"
  by (induction k c bs rule: take_continuations.induct) auto

lemma utf8_step_shrinks: "length (snd (utf8_step b bs)) \<le> length bs"
  unfolding utf8_step_def
  by (auto split: list.split intro: take_continuations_shrinks le_SucI)

function utf8_decode :: "nat list \<Rightarrow> nat option list" where
  "utf8_decode [] = []"
| "utf8_decode (b # bs) = (let (c, rest) = utf8_step b bs in c # utf8_decode rest)"
  by pat_completeness auto
termination
proof (relation "measure length")
  fix b :: nat and bs x c rest
  assume "x = utf8_step b bs" "(c, rest) = x"
  then have "rest = snd (utf8_step b bs)" by (metis snd_conv)
  then show "(rest, b # bs) \<in> measure length" using utf8_step_shrinks [of b bs] by simp
qed simp

definition from_utf8 :: "nat list \<Rightarrow> str option" where
  "from_utf8 bs = (if None \<in> set (utf8_decode bs) then None else Some (map the (utf8_decode bs)))"

definition from_utf8_lossy :: "nat list \<Rightarrow> str" where
  "from_utf8_lossy bs = map (\<lambda>c. case c of None \<Rightarrow> 0xFFFD | Some x \<Rightarrow> x) (utf8_decode bs)"

text \<open>The bytes of a text.\<close>

definition as_bytes :: "str \<Rightarrow> nat list" where
  "as_bytes s = map unat (utf8_bytes s)"

text \<open>\<open>str::lines\<close>: what precedes each line feed, without a trailing carriage return, and the rest
  when it is not empty.\<close>

definition text_lines :: "str \<Rightarrow> str list" where
  "text_lines s = (let ps = split_on 10 s
     in map strip_cr (butlast ps) @ (if last ps = [] then [] else [last ps]))"

section \<open>Paths\<close>

text \<open>A Unix path compares by its components: repeated separators and inner \<open>.\<close> do not count.\<close>

datatype path = Path (is_absolute: bool) (components: "nat list list")

definition path_of_bytes :: "nat list \<Rightarrow> path" where
  "path_of_bytes bs =
     (let pieces = split_on (chr CHR ''/'') bs; absolute = (hd pieces = [] \<and> bs \<noteq> []);
          kept = filter (\<lambda>p. p \<noteq> [] \<and> p \<noteq> lit ''.'') pieces
      in Path absolute (if \<not> absolute \<and> hd pieces = lit ''.'' then lit ''.'' # kept else kept))"

definition path_of :: "str \<Rightarrow> path" where
  "path_of s = path_of_bytes (as_bytes s)"

definition path_join :: "path \<Rightarrow> path \<Rightarrow> path" where
  "path_join p q =
     (if is_absolute q then q
      else if \<not> is_absolute p \<and> components p = [] then q
      else Path (is_absolute p)
             (components p @ (case components q of [] \<Rightarrow> []
                | c # cs \<Rightarrow> if c = lit ''.'' then cs else c # cs)))"

definition parent :: "path \<Rightarrow> path option" where
  "parent p = (if components p = [] then None else Some (Path (is_absolute p) (butlast (components p))))"

definition path_bytes :: "path \<Rightarrow> nat list" where
  "path_bytes p = (if is_absolute p then chr CHR ''/'' # join (lit ''/'') (components p)
     else join (lit ''/'') (components p))"

definition file_name :: "path \<Rightarrow> nat list option" where
  "file_name p = (if components p = [] \<or> last (components p) \<in> {lit ''.'', lit ''..''} then None
     else Some (last (components p)))"

section \<open>Names\<close>

datatype git_error = GitError str

definition validate_branch_name :: "str \<Rightarrow> git_error + unit" where
  "validate_branch_name branch =
     refuse_if (branch = [] \<or> byte_len branch > 1024 \<or> starts_with (lit ''-'') branch
       \<or> contains (lit ''..'') branch \<or> list_ex is_control branch)
       (GitError (lit ''invalid or unsafe branch name''))"

definition validate_base_ref :: "str \<Rightarrow> git_error + unit" where
  "validate_base_ref base_ref =
     refuse_if (base_ref = [] \<or> byte_len base_ref > 1024 \<or> starts_with (lit ''-'') base_ref
       \<or> list_ex is_control base_ref)
       (GitError (lit ''invalid or unsafe base ref''))"

definition validate_display_name :: "str \<Rightarrow> git_error + str" where
  "validate_display_name v =
     (let v = trim v in
      if v = [] \<or> length v > 200 \<or> list_ex is_control v
      then Inl (GitError (lit ''worktree name must contain 1 to 200 non-control characters''))
      else Inr v)"

section \<open>Output\<close>

definition OUTPUT_LIMIT :: nat where "OUTPUT_LIMIT = 64 * 1024"
definition DIFF_LIMIT :: nat where "DIFF_LIMIT = 512 * 1024"

definition read_bounded :: "nat list \<Rightarrow> git_error + nat list" where
  "read_bounded bytes =
     (if length (take (OUTPUT_LIMIT + 1) bytes) > OUTPUT_LIMIT
      then Inl (GitError (lit ''Git output exceeded 64 KiB'')) else Inr (take (OUTPUT_LIMIT + 1) bytes))"

definition read_capped :: "nat list \<Rightarrow> nat \<Rightarrow> nat list \<times> bool" where
  "read_capped bytes limit =
     (let kept = take (limit + 1) bytes; truncated = length kept > limit
      in (if truncated then take limit kept else kept, truncated))"

definition output_text :: "nat list \<Rightarrow> git_error + str" where
  "output_text bytes = (case from_utf8 bytes of
       None \<Rightarrow> Inl (GitError (lit ''Git returned non-UTF-8 metadata'')) | Some s \<Rightarrow> Inr s)"

definition path_text :: "path \<Rightarrow> git_error + str" where
  "path_text p = (case from_utf8 (path_bytes p) of
       None \<Rightarrow> Inl (GitError (lit ''repository path is not valid Unicode'')) | Some s \<Rightarrow> Inr s)"

definition safe_message :: "nat list \<Rightarrow> str" where
  "safe_message message = take 512 (trim (from_utf8_lossy message))"

section \<open>Remote URLs\<close>

text \<open>The bytes before the first occurrence of a pattern.\<close>

fun split_at :: "str \<Rightarrow> str \<Rightarrow> (str \<times> str) option" where
  "split_at p [] = (if p = [] then Some ([], []) else None)"
| "split_at p (c # s) = (if starts_with p (c # s) then Some ([], c # s)
     else map_option (\<lambda>(a, b). (c # a, b)) (split_at p s))"

definition after_userinfo :: "str \<Rightarrow> str" where
  "after_userinfo s = (case rsplit_once (chr CHR ''@'') s of None \<Rightarrow> s | Some (_, host) \<Rightarrow> host)"

definition sanitize_remote_url :: "str \<Rightarrow> str" where
  "sanitize_remote_url given =
     (let remote = trim (takeWhile (\<lambda>c. c \<noteq> chr CHR ''?'' \<and> c \<noteq> chr (CHR 0x23)) given) in
      case split_at (lit ''://'') remote of
        None \<Rightarrow> take 4096 (after_userinfo remote)
      | Some (scheme, rest) \<Rightarrow>
          let after = drop 3 rest;
              authority = takeWhile (\<lambda>c. c \<noteq> chr CHR ''/'') after;
              tail = dropWhile (\<lambda>c. c \<noteq> chr CHR ''/'') after
          in take 4096 (scheme @ lit ''://'' @ after_userinfo authority @ tail))"

section \<open>Default branches\<close>

text \<open>What \<open>ls-remote --symref\<close> answers: the branch \<open>HEAD\<close> points to and its commit.\<close>

definition TAB_HEAD :: str where "TAB_HEAD = 9 # lit ''HEAD''"

fun find_map :: "('a \<Rightarrow> 'b option) \<Rightarrow> 'a list \<Rightarrow> 'b option" where
  "find_map f [] = None"
| "find_map f (x # xs) = (case f x of None \<Rightarrow> find_map f xs | Some y \<Rightarrow> Some y)"

definition symref_branch :: "str \<Rightarrow> str option" where
  "symref_branch l = Option.bind (strip_prefix (lit ''ref: refs/heads/'') l) (strip_suffix TAB_HEAD)"

definition advertised_commit :: "str \<Rightarrow> str option" where
  "advertised_commit l = Option.bind (strip_suffix TAB_HEAD l)
     (\<lambda>v. if byte_len v \<in> {40, 64} \<and> list_all is_ascii_hexdigit v then Some v else None)"

definition parse_remote_default_head :: "nat list \<Rightarrow> git_error + str \<times> str" where
  "parse_remote_default_head bytes =
     (case from_utf8 bytes of
        None \<Rightarrow> Inl (GitError (lit ''Remote default branch response is invalid.''))
      | Some answer \<Rightarrow> (case find_map symref_branch (text_lines answer) of
          None \<Rightarrow> Inl (GitError (lit ''Remote has no default branch. Choose a custom local ref instead.''))
        | Some branch \<Rightarrow> bind_result (validate_branch_name branch) (\<lambda>_.
            case find_map advertised_commit (text_lines answer) of
              None \<Rightarrow> Inl (GitError (lit ''Remote default branch has no valid commit.''))
            | Some commit \<Rightarrow> Inr (branch, ascii_lowercase commit))))"

section \<open>Status records\<close>

text \<open>\<open>status --porcelain=v1 -z\<close>: two status letters, a space and a path; the record of a rename or a
  copy is followed by the old path.\<close>

definition is_rename :: "nat list \<Rightarrow> bool" where
  "is_rename r \<longleftrightarrow> length r \<ge> 2 \<and> (chr CHR ''R'' \<in> set (take 2 r) \<or> chr CHR ''C'' \<in> set (take 2 r))"

definition status_records :: "nat list \<Rightarrow> nat list list" where
  "status_records bytes = filter (\<lambda>r. r \<noteq> []) (split_on 0 bytes)"

function count_records :: "nat list list \<Rightarrow> u32 \<times> u32 \<times> u32 \<Rightarrow> u32 \<times> u32 \<times> u32" where
  "count_records [] counts = counts"
| "count_records (r # rs) (tr, un, ig) =
     (if starts_with (lit ''??'') r then count_records rs (tr, saturating_add un 1, ig)
      else if starts_with (lit ''!!'') r then count_records rs (tr, un, saturating_add ig 1)
      else count_records (if is_rename r then drop 1 rs else rs)
             (saturating_add tr 1, un, ig))"
  by pat_completeness auto
termination by (relation "measure (length \<circ> fst)") auto

definition count_status_entries :: "nat list \<Rightarrow> u32 \<times> u32 \<times> u32" where
  "count_status_entries bytes = count_records (status_records bytes) (0, 0, 0)"

text \<open>The display of a path: control characters escaped, cut with an ellipsis within the limit.\<close>

fun shown_path :: "nat \<Rightarrow> str \<Rightarrow> str" where
  "shown_path used [] = []"
| "shown_path used (c # s) =
     (let escaped = (if is_control c then escape_control c else [c]) in
      if used + byte_len escaped > MAX_WORKTREE_BLOCKING_PATH_BYTES - 3 then lit ''...''
      else escaped @ shown_path (used + byte_len escaped) s)"

definition blocking_kind_of :: "nat list \<Rightarrow> blocking_kind" where
  "blocking_kind_of r =
     (if starts_with (lit ''?? '') r then Domain.Untracked
      else if starts_with (lit ''!! '') r then Domain.Ignored else Domain.Tracked)"

function blocking_records :: "blocking_path list \<Rightarrow> nat list list \<Rightarrow> blocking_path list" where
  "blocking_records paths [] = paths"
| "blocking_records paths (r # rs) =
     (if length paths = MAX_WORKTREE_BLOCKING_PATHS then paths
      else if length r < 3 then blocking_records paths rs
      else blocking_records
             (paths @ [\<lparr>bp_kind = blocking_kind_of r, bp_path = shown_path 0 (from_utf8_lossy (drop 3 r))\<rparr>])
             (if is_rename r then drop 1 rs else rs))"
  by pat_completeness auto
termination by (relation "measure (length \<circ> snd)") auto

definition blocking_status_paths :: "nat list \<Rightarrow> blocking_path list" where
  "blocking_status_paths bytes = blocking_records [] (status_records bytes)"

text \<open>What the client accepts of a sample.\<close>

definition blocking_sample_valid :: "blocking_path list \<Rightarrow> bool" where
  "blocking_sample_valid ps \<longleftrightarrow> deserialize_worktree_blocking_paths ps = Inr ps"

section \<open>Facts\<close>

lemma blocking_sample_valid_iff:
  "blocking_sample_valid ps \<longleftrightarrow> length ps \<le> MAX_WORKTREE_BLOCKING_PATHS
     \<and> list_all (\<lambda>b. byte_len (bp_path b) \<le> MAX_WORKTREE_BLOCKING_PATH_BYTES
                    \<and> list_all (\<lambda>c. \<not> is_control c) (bp_path b)) ps"
  unfolding blocking_sample_valid_def deserialize_worktree_blocking_paths_def list_all_iff list_ex_iff
  by (simp split: if_splits) (meson linorder_not_less)

lemma hex_digits_are_printable: "list_all (\<lambda>c. \<not> is_control c \<and> c < 0x80) (hex_digits n)"
  by (induction n rule: hex_digits.induct) (subst hex_digits.simps, auto simp: Let_def is_control_def)

lemma escape_control_printable: "list_all (\<lambda>c. \<not> is_control c \<and> c < 0x80) (escape_control c)"
  using hex_digits_are_printable [of c]
  by (auto simp: escape_control_def is_control_def list_all_iff)

lemma shown_path_bounded:
  "used \<le> MAX_WORKTREE_BLOCKING_PATH_BYTES - 3 \<Longrightarrow>
   used + byte_len (shown_path used s) \<le> MAX_WORKTREE_BLOCKING_PATH_BYTES"
proof (induction used s rule: shown_path.induct)
  case (1 used)
  then show ?case by (simp add: MAX_WORKTREE_BLOCKING_PATH_BYTES_def)
next
  case (2 used c s)
  define e where "e = (if is_control c then escape_control c else [c])"
  show ?case
  proof (cases "used + byte_len e > MAX_WORKTREE_BLOCKING_PATH_BYTES - 3")
    case True
    then show ?thesis using 2(2)
      by (simp add: Let_def e_def [symmetric] lit_def utf8_width_def MAX_WORKTREE_BLOCKING_PATH_BYTES_def)
  next
    case False
    then have "used + byte_len e + byte_len (shown_path (used + byte_len e) s)
      \<le> MAX_WORKTREE_BLOCKING_PATH_BYTES"
      using 2(1) [of e] by (simp add: e_def)
    then show ?thesis using False by (simp add: Let_def e_def [symmetric] add.assoc)
  qed
qed

lemma shown_path_printable: "list_all (\<lambda>c. \<not> is_control c) (shown_path used s)"
proof (induction used s rule: shown_path.induct)
  case (2 used c s)
  define e where "e = (if is_control c then escape_control c else [c])"
  have "list_all (\<lambda>c. \<not> is_control c) e"
    using escape_control_printable [of c] by (auto simp: e_def list_all_iff)
  moreover have "list_all (\<lambda>c. \<not> is_control c) (lit ''...'')" by (simp add: lit_def is_control_def)
  ultimately show ?case using 2 [of e] by (simp add: Let_def e_def [symmetric])
qed simp

lemma blocking_records_valid:
  "blocking_sample_valid paths \<Longrightarrow> blocking_sample_valid (blocking_records paths rs)"
proof (induction paths rs rule: blocking_records.induct)
  case (2 paths r rs)
  let ?p = "\<lparr>bp_kind = blocking_kind_of r, bp_path = shown_path 0 (from_utf8_lossy (drop 3 r))\<rparr>"
  have "length paths \<noteq> MAX_WORKTREE_BLOCKING_PATHS \<Longrightarrow> blocking_sample_valid (paths @ [?p])"
    using 2(3) shown_path_bounded [of 0 "from_utf8_lossy (drop 3 r)"]
    by (simp add: blocking_sample_valid_iff shown_path_printable)
  then show ?case using 2 by simp
qed simp

end
