(* ===== verification/Git_Worktrees.thy ===== *)
theory Git_Worktrees
  imports Git_Output
begin

text \<open>
  The repositories and managed worktrees of the daemon (\<open>sylvops-daemon/src/git.rs\<close>). Git, the file
  system, the rendering of identities and SHA-256 are parameters (\<open>git_env\<close>): running a command may
  change the world it runs in, looking at a path does not. Every operation here is the sequence of
  commands and checks of the code.
\<close>

section \<open>The environment\<close>

datatype git_arg = Arg str | PathArg path | HooksArg path

datatype git_run =
    LaunchFailed str | RunFailed str | RunTimedOut
  | Exited bool "nat list" "nat list"

record 'w git_env =
  ge_run :: "path \<Rightarrow> git_arg list \<Rightarrow> 'w \<Rightarrow> git_run \<times> 'w"
  ge_canonicalize :: "path \<Rightarrow> 'w \<Rightarrow> str + path"
  ge_symlink :: "path \<Rightarrow> 'w \<Rightarrow> str + bool"
  ge_create_dirs :: "path \<Rightarrow> 'w \<Rightarrow> (str + unit) \<times> 'w"
  ge_id_text :: "uuid \<Rightarrow> str"
  ge_sha256 :: "nat list \<Rightarrow> nat list"

record git_output =
  go_success :: bool
  go_stdout :: "nat list"
  go_stderr :: "nat list"

type_synonym ('w, 'a) git_op = "'w \<Rightarrow> (git_error + 'a) \<times> 'w"

definition git_fail :: "str \<Rightarrow> git_error + 'a" where
  "git_fail message = Inl (GitError message)"

definition run_git_os :: "'w git_env \<Rightarrow> path \<Rightarrow> git_arg list \<Rightarrow> ('w, git_output) git_op" where
  "run_git_os env cwd arguments w =
     (let (run, w') = ge_run env cwd arguments w in
      (case run of
         LaunchFailed e \<Rightarrow> git_fail (lit ''failed to launch Git: '' @ e)
       | RunFailed e \<Rightarrow> git_fail e
       | RunTimedOut \<Rightarrow> git_fail (lit ''Git command timed out'')
       | Exited success out err \<Rightarrow>
           bind_result (read_bounded out) (\<lambda>stdout.
           bind_result (read_bounded err) (\<lambda>stderr.
             Inr \<lparr>go_success = success, go_stdout = stdout, go_stderr = stderr\<rparr>)), w'))"

definition run_git :: "'w git_env \<Rightarrow> path \<Rightarrow> str list \<Rightarrow> ('w, git_output) git_op" where
  "run_git env cwd arguments = run_git_os env cwd (map Arg arguments)"

definition run_git_mutation ::
    "'w git_env \<Rightarrow> path \<Rightarrow> path \<Rightarrow> git_arg list \<Rightarrow> ('w, git_output) git_op" where
  "run_git_mutation env cwd hooks arguments =
     run_git_os env cwd (Arg (lit ''-c'') # HooksArg hooks # arguments)"

definition required_git :: "'w git_env \<Rightarrow> path \<Rightarrow> str list \<Rightarrow> str \<Rightarrow> ('w, str) git_op" where
  "required_git env cwd arguments operation w =
     and_then (run_git env cwd arguments w) (\<lambda>out w.
       (if \<not> go_success out
        then git_fail (lit ''failed to '' @ operation @ lit '': '' @ safe_message (go_stderr out))
        else bind_result (output_text (go_stdout out)) (\<lambda>s. Inr (trim s)), w))"

definition optional_git :: "'w git_env \<Rightarrow> path \<Rightarrow> str list \<Rightarrow> ('w, str option) git_op" where
  "optional_git env cwd arguments w =
     and_then (run_git env cwd arguments w) (\<lambda>out w.
       (if \<not> go_success out then Inr None
        else bind_result (output_text (go_stdout out)) (\<lambda>s.
          Inr (if trim s = [] then None else Some (trim s))), w))"

definition mapped_err :: "str \<Rightarrow> str + 'a \<Rightarrow> git_error + 'a" where
  "mapped_err context r = (case r of Inl e \<Rightarrow> git_fail (context @ lit '': '' @ e) | Inr x \<Rightarrow> Inr x)"

definition reject_link :: "'w git_env \<Rightarrow> path \<Rightarrow> 'w \<Rightarrow> git_error + unit" where
  "reject_link env p w = (case ge_symlink env p w of
       Inl e \<Rightarrow> git_fail e
     | Inr link \<Rightarrow> if link then git_fail (lit ''managed path is a symbolic link: '' @ from_utf8_lossy (path_bytes p))
         else Inr ())"

definition path_exists :: "'w git_env \<Rightarrow> path \<Rightarrow> 'w \<Rightarrow> bool" where
  "path_exists env p w \<longleftrightarrow> is_ok (ge_symlink env p w)"

section \<open>Identity checks\<close>

definition canonical_registered_path :: "'w git_env \<Rightarrow> str \<Rightarrow> 'w \<Rightarrow> git_error + path" where
  "canonical_registered_path env registered w =
     bind_result (mapped_err (lit ''registered path is unavailable'') (ge_canonicalize env (path_of registered) w))
       (\<lambda>canonical. if canonical \<noteq> path_of registered
          then git_fail (lit ''registered canonical path identity changed'') else Inr canonical)"

definition ensure_direct_child :: "path \<Rightarrow> path \<Rightarrow> git_error + unit" where
  "ensure_direct_child expected child =
     (if parent child \<noteq> Some expected
      then git_fail (lit ''managed path escaped its expected parent'') else Inr ())"

definition verify_repository_root :: "'w git_env \<Rightarrow> path \<Rightarrow> ('w, unit) git_op" where
  "verify_repository_root env p w =
     and_then (mapped_err (lit ''cannot canonicalize repository root'') (ge_canonicalize env p w), w)
     (\<lambda>canonical w. and_then (run_git env canonical [lit ''rev-parse'', lit ''--show-toplevel''] w)
     (\<lambda>out w. (if \<not> go_success out
         then git_fail (lit ''registered checkout is no longer a Git repository'')
         else bind_result (output_text (go_stdout out)) (\<lambda>s.
           bind_result (mapped_err (lit ''cannot canonicalize reported Git root'')
               (ge_canonicalize env (path_of (trim s)) w)) (\<lambda>reported.
             if reported \<noteq> canonical
             then git_fail (lit ''registered checkout is no longer the checkout root'') else Inr ())), w)))"

definition common_git_directory :: "'w git_env \<Rightarrow> path \<Rightarrow> ('w, path) git_op" where
  "common_git_directory env cwd w =
     and_then (required_git env cwd [lit ''rev-parse'', lit ''--git-common-dir''] (lit ''resolve common Git directory'') w)
     (\<lambda>v w. (mapped_err (lit ''cannot canonicalize common Git directory'')
        (ge_canonicalize env (path_join cwd (path_of v)) w), w))"

definition verify_common_repository :: "'w git_env \<Rightarrow> path \<Rightarrow> path \<Rightarrow> ('w, unit) git_op" where
  "verify_common_repository env repository checkout w =
     and_then (common_git_directory env repository w) (\<lambda>a w.
     and_then (common_git_directory env checkout w) (\<lambda>b w.
       (if a \<noteq> b then git_fail (lit ''worktree does not belong to the registered repository'') else Inr (), w)))"

definition worktree_fields :: "nat list \<Rightarrow> str list" where
  "worktree_fields bytes = List.map_filter
     (\<lambda>field. Option.bind (strip_prefix (lit ''worktree '') field) from_utf8)
     (concat (map (split_on 10) (split_on 0 bytes)))"

definition ensure_worktree_registered :: "'w git_env \<Rightarrow> path \<Rightarrow> path \<Rightarrow> ('w, unit) git_op" where
  "ensure_worktree_registered env repository checkout w =
     and_then (run_git env repository
         [lit ''worktree'', lit ''list'', lit ''--porcelain'', lit ''-z''] w) (\<lambda>out w.
       (if \<not> go_success out
        then git_fail (lit ''failed to refresh Git worktree list: '' @ safe_message (go_stderr out))
        else if list_ex (\<lambda>p. ge_canonicalize env (path_of p) w = Inr checkout) (worktree_fields (go_stdout out))
        then Inr () else git_fail (lit ''managed checkout is absent from Git's worktree list''), w))"

definition current_branch :: "'w git_env \<Rightarrow> path \<Rightarrow> ('w, str option) git_op" where
  "current_branch env cwd =
     optional_git env cwd [lit ''symbolic-ref'', lit ''--quiet'', lit ''--short'', lit ''HEAD'']"

definition verify_managed_worktree_identity ::
    "'w git_env \<Rightarrow> project \<Rightarrow> worktree \<Rightarrow> ('w, unit) git_op" where
  "verify_managed_worktree_identity env p t w =
     and_then (refuse_if (wt_project_id t \<noteq> pj_id p \<or> wt_is_root_checkout t \<or> wt_status t \<noteq> WtActive)
         (GitError (lit ''managed worktree identity is invalid'')), w) (\<lambda>_ w.
     and_then (canonical_registered_path env (pj_canonical_repository_path p) w, w) (\<lambda>repository w.
     and_then (canonical_registered_path env (wt_canonical_path t) w, w) (\<lambda>checkout w.
     and_then (verify_repository_root env repository w) (\<lambda>_ w.
     and_then (verify_repository_root env checkout w) (\<lambda>_ w.
     and_then (verify_common_repository env repository checkout w) (\<lambda>_ w.
     and_then (ensure_worktree_registered env repository checkout w) (\<lambda>_ w.
     and_then (current_branch env checkout w) (\<lambda>branch w.
       (refuse_if (branch \<noteq> wt_branch t)
         (GitError (lit ''managed worktree branch identity changed'')), w)))))))))"

section \<open>Inspection\<close>

text \<open>The token binds a confirmation to a state: the digest of identity, path, commit, branch and
  status, separated by zero bytes.\<close>

definition token_input :: "'w git_env \<Rightarrow> worktree_id \<Rightarrow> str \<Rightarrow> str \<Rightarrow> str option \<Rightarrow> nat list \<Rightarrow> nat list" where
  "token_input env i canonical head branch status =
     as_bytes (ge_id_text env (worktree_uuid i)) @ [0] @ as_bytes canonical @ [0] @ as_bytes head @ [0]
     @ as_bytes (case branch of None \<Rightarrow> [] | Some b \<Rightarrow> b) @ [0] @ status"

definition hex_byte :: "nat \<Rightarrow> str" where
  "hex_byte b = [if b div 16 < 10 then 48 + b div 16 else 87 + b div 16,
                 if b mod 16 < 10 then 48 + b mod 16 else 87 + b mod 16]"

definition hex_digest :: "nat list \<Rightarrow> str" where
  "hex_digest bytes = concat (map hex_byte bytes)"

definition state_token :: "'w git_env \<Rightarrow> worktree_id \<Rightarrow> str \<Rightarrow> str \<Rightarrow> str option \<Rightarrow> nat list \<Rightarrow> str" where
  "state_token env i canonical head branch status =
     hex_digest (ge_sha256 env (token_input env i canonical head branch status))"

record git_state =
  gs_worktree_id :: worktree_id
  gs_head_commit :: str
  gs_branch :: "str option"
  gs_tracked_changes :: u32
  gs_untracked_files :: u32
  gs_ignored_files :: u32
  gs_blocking_paths :: "blocking_path list"
  gs_blocking_paths_truncated :: bool
  gs_clean :: bool
  gs_removal_confirmation_token :: "str option"

definition status_state ::
    "'w git_env \<Rightarrow> worktree \<Rightarrow> str \<Rightarrow> str option \<Rightarrow> nat list \<Rightarrow> git_state" where
  "status_state env t head branch stdout =
     (let (tr, un, ig) = count_status_entries stdout; blocking = blocking_status_paths stdout;
          clean = (stdout = []) in
      \<lparr>gs_worktree_id = wt_id t, gs_head_commit = head, gs_branch = branch, gs_tracked_changes = tr,
       gs_untracked_files = un, gs_ignored_files = ig, gs_blocking_paths = blocking,
       gs_blocking_paths_truncated = (unat tr + unat un + unat ig > length blocking), gs_clean = clean,
       gs_removal_confirmation_token =
         (if clean then Some (state_token env (wt_id t) (wt_canonical_path t) head branch stdout) else None)\<rparr>)"

definition STATUS_ARGUMENTS :: "str list" where
  "STATUS_ARGUMENTS = [lit ''status'', lit ''--porcelain=v1'', lit ''-z'', lit ''--untracked-files=all'',
     lit ''--ignored=matching'']"

definition inspect_worktree :: "'w git_env \<Rightarrow> worktree \<Rightarrow> ('w, git_state) git_op" where
  "inspect_worktree env t w =
     and_then (refuse_if (wt_status t \<noteq> WtActive) (GitError (lit ''worktree is not active'')), w) (\<lambda>_ w.
     and_then (canonical_registered_path env (wt_canonical_path t) w, w) (\<lambda>p w.
     and_then (verify_repository_root env p w) (\<lambda>_ w.
     and_then (required_git env p [lit ''rev-parse'', lit ''HEAD''] (lit ''resolve worktree HEAD'') w) (\<lambda>head w.
     and_then (current_branch env p w) (\<lambda>branch w.
     and_then (run_git env p STATUS_ARGUMENTS w) (\<lambda>out w.
       (if \<not> go_success out
        then git_fail (lit ''failed to inspect worktree: '' @ safe_message (go_stderr out))
        else Inr (status_state env t head branch (go_stdout out)), w)))))))"

section \<open>Removal\<close>

definition project_directory_of :: "'w git_env \<Rightarrow> project \<Rightarrow> path \<Rightarrow> path" where
  "project_directory_of env p root = path_join root (path_of (ge_id_text env (project_uuid (pj_id p))))"

definition disabled_hooks :: "path \<Rightarrow> path" where
  "disabled_hooks root = path_join root (path_of (lit ''.disabled-hooks''))"

definition remove_arguments :: "path \<Rightarrow> git_arg list" where
  "remove_arguments p = [Arg (lit ''worktree''), Arg (lit ''remove''), Arg (lit ''--''), PathArg p]"

definition dirty_message :: "git_state \<Rightarrow> str" where
  "dirty_message s = lit ''worktree is not empty of changes (tracked '' @ decimal (unat (gs_tracked_changes s))
     @ lit '', untracked '' @ decimal (unat (gs_untracked_files s))
     @ lit '', ignored '' @ decimal (unat (gs_ignored_files s)) @ lit '')''"

definition remove_managed_worktree ::
    "'w git_env \<Rightarrow> project \<Rightarrow> worktree \<Rightarrow> path \<Rightarrow> str \<Rightarrow> ('w, unit) git_op" where
  "remove_managed_worktree env p t root token w =
     and_then (refuse_if (wt_is_root_checkout t \<or> wt_status t \<noteq> WtActive)
         (GitError (lit ''only active managed worktrees can be removed'')), w) (\<lambda>_ w.
     and_then (canonical_registered_path env (pj_canonical_repository_path p) w, w) (\<lambda>repository w.
     and_then (canonical_registered_path env (wt_canonical_path t) w, w) (\<lambda>checkout w.
     and_then (mapped_err (lit ''cannot verify project worktree root'')
         (ge_canonicalize env (project_directory_of env p root) w), w) (\<lambda>directory w.
     and_then (ensure_direct_child root directory, w) (\<lambda>_ w.
     and_then (refuse_if (parent checkout \<noteq> Some directory)
         (GitError (lit ''worktree is outside its managed project directory'')), w) (\<lambda>_ w.
     and_then (reject_link env checkout w, w) (\<lambda>_ w.
     and_then (verify_common_repository env repository checkout w) (\<lambda>_ w.
     and_then (ensure_worktree_registered env repository checkout w) (\<lambda>_ w.
     and_then (inspect_worktree env t w) (\<lambda>s w.
     and_then (refuse_if (gs_branch s \<noteq> wt_branch t)
         (GitError (lit ''worktree branch identity changed after registration'')), w) (\<lambda>_ w.
     and_then (refuse_if (\<not> gs_clean s) (GitError (dirty_message s)), w) (\<lambda>_ w.
     and_then (refuse_if (gs_removal_confirmation_token s \<noteq> Some token)
         (GitError (lit ''worktree state changed after confirmation'')), w) (\<lambda>_ w.
     and_then (run_git_mutation env repository (disabled_hooks root) (remove_arguments checkout) w) (\<lambda>out w.
       (if \<not> go_success out
        then git_fail (lit ''failed to remove worktree without force: '' @ safe_message (go_stderr out))
        else if path_exists env checkout w
        then git_fail (lit ''Git reported success but the worktree path still exists'')
        else Inr (), w)))))))))))))))"

end
