(* ===== verification/Git_Bases.thy ===== *)
theory Git_Bases
  imports Git_Worktrees Workspace_Store
begin

text \<open>
  The rest of \<open>sylvops-daemon/src/git.rs\<close>: registering a repository, discovering worktrees and
  remotes, resolving the base of a new worktree, and creating it.
\<close>

section \<open>Repositories\<close>

definition repository_name_of :: "path \<Rightarrow> str" where
  "repository_name_of root =
     take 200 (case Option.bind (file_name root) from_utf8 of
         None \<Rightarrow> lit ''repository'' | Some n \<Rightarrow> if n = [] then lit ''repository'' else n)"

definition inspect_repository ::
    "'w git_env \<Rightarrow> workspace_id \<Rightarrow> path \<Rightarrow> ('w, registration) git_op" where
  "inspect_repository env ws supplied_path w =
     and_then (mapped_err (lit ''cannot canonicalize repository path'') (ge_canonicalize env supplied_path w), w)
       (\<lambda>supplied w.
     and_then (run_git env supplied [lit ''rev-parse'', lit ''--show-toplevel''] w) (\<lambda>out w.
     and_then (if \<not> go_success out
         then git_fail (lit ''path is not a Git repository: '' @ safe_message (go_stderr out))
         else bind_result (output_text (go_stdout out)) (\<lambda>s.
           mapped_err (lit ''cannot canonicalize Git root'') (ge_canonicalize env (path_of (trim s)) w)), w) (\<lambda>root w.
     and_then (path_text root, w) (\<lambda>canonical w.
     and_then (current_branch env root w) (\<lambda>branch w.
     and_then (optional_git env root
         [lit ''symbolic-ref'', lit ''--quiet'', lit ''--short'', lit ''refs/remotes/origin/HEAD''] w) (\<lambda>remote_head w.
     and_then (optional_git env root [lit ''config'', lit ''--get'', lit ''remote.origin.url''] w) (\<lambda>remote w.
     and_then (required_git env root [lit ''rev-parse'', lit ''HEAD''] (lit ''resolve HEAD'') w) (\<lambda>base_commit w.
       (Inr \<lparr>rg_workspace_id = ws, rg_name = repository_name_of root, rg_repository_path = canonical,
             rg_canonical_repository_path = canonical,
             rg_default_branch = (case Option.bind remote_head (strip_prefix (lit ''origin/'')) of
                 None \<Rightarrow> branch | Some b \<Rightarrow> Some b),
             rg_remote_url = map_option sanitize_remote_url remote,
             rg_branch = branch, rg_base_commit = base_commit\<rparr>, w)))))))))"

text \<open>\<open>sort\<close> then \<open>dedup\<close>; an undecodable or unavailable path is skipped.\<close>

fun dedup :: "'a list \<Rightarrow> 'a list" where
  "dedup (x # y # xs) = (if x = y then dedup (x # xs) else x # dedup (y # xs))"
| "dedup xs = xs"

definition discover_worktree_paths :: "'w git_env \<Rightarrow> project \<Rightarrow> ('w, str list) git_op" where
  "discover_worktree_paths env p w =
     and_then (canonical_registered_path env (pj_canonical_repository_path p) w, w) (\<lambda>repository w.
     and_then (run_git env repository
         [lit ''worktree'', lit ''list'', lit ''--porcelain'', lit ''-z''] w) (\<lambda>out w.
       (if \<not> go_success out
        then git_fail (lit ''failed to discover worktrees: '' @ safe_message (go_stderr out))
        else Inr (dedup (sort (List.map_filter
               (\<lambda>f. case ge_canonicalize env (path_of f) w of Inl _ \<Rightarrow> None
                  | Inr canonical \<Rightarrow> (case path_text canonical of Inl _ \<Rightarrow> None | Inr s \<Rightarrow> Some s))
               (worktree_fields (go_stdout out))))), w)))"

section \<open>Remotes\<close>

definition MAX_GITHUB_REMOTES :: nat where "MAX_GITHUB_REMOTES = 64"
definition MAX_URLS_PER_REMOTE :: nat where "MAX_URLS_PER_REMOTE = 16"

text \<open>The distinct GitHub identities among the URLs of a remote, in order.\<close>

definition remote_identities :: "url_parser \<Rightarrow> str list \<Rightarrow> repository_identity list" where
  "remote_identities parse_url urls =
     foldl (\<lambda>seen url. case parse_github_remote parse_url url of
         Inl _ \<Rightarrow> seen | Inr identity \<Rightarrow> if identity \<in> set seen then seen else seen @ [identity])
       [] (take MAX_URLS_PER_REMOTE urls)"

fun read_remotes ::
    "'w git_env \<Rightarrow> url_parser \<Rightarrow> path \<Rightarrow> str list \<Rightarrow> github_remote list \<Rightarrow> ('w, github_remote list) git_op" where
  "read_remotes env parse_url repository [] found w = (Inr found, w)"
| "read_remotes env parse_url repository (n # ns) found w =
     (case git_remote_name_new n of
        Inl _ \<Rightarrow> read_remotes env parse_url repository ns found w
      | Inr name \<Rightarrow>
          and_then (run_git env repository
              [lit ''remote'', lit ''get-url'', lit ''--all'', remote_name_str name] w) (\<lambda>urls w.
            if \<not> go_success urls then read_remotes env parse_url repository ns found w
            else and_then (output_text (go_stdout urls), w) (\<lambda>s w.
              case remote_identities parse_url (text_lines s) of
                [r] \<Rightarrow> read_remotes env parse_url repository ns
                         (found @ [\<lparr>gr_name = name, gr_repository = r\<rparr>]) w
              | _ \<Rightarrow> read_remotes env parse_url repository ns found w)))"

definition github_remotes :: "'w git_env \<Rightarrow> url_parser \<Rightarrow> project \<Rightarrow> ('w, github_remote list) git_op" where
  "github_remotes env parse_url p w =
     (let repository = path_of (pj_canonical_repository_path p) in
      and_then (run_git env repository [lit ''remote''] w) (\<lambda>listed w.
      and_then (if \<not> go_success listed then git_fail (lit ''cannot list repository remotes'')
                else output_text (go_stdout listed), w) (\<lambda>s w.
      and_then (read_remotes env parse_url repository (take MAX_GITHUB_REMOTES (text_lines s)) [] w) (\<lambda>found w.
        (Inr (sort_key (\<lambda>r. remote_name_str (gr_name r)) found), w)))))"

section \<open>Bases\<close>

fun collect_names :: "str list \<Rightarrow> git_error + git_remote_name list" where
  "collect_names [] = Inr []"
| "collect_names (n # ns) = (case git_remote_name_new n of
       Inl _ \<Rightarrow> git_fail (lit ''Repository contains an invalid remote name.'')
     | Inr name \<Rightarrow> bind_result (collect_names ns) (\<lambda>names. Inr (name # names)))"

definition choose_remote :: "git_remote_name option \<Rightarrow> git_remote_name list \<Rightarrow> git_error + git_remote_name" where
  "choose_remote requested names =
     (case requested of
        Some r \<Rightarrow> if r \<in> set names then Inr r else git_fail (lit ''The selected remote no longer exists.'')
      | None \<Rightarrow> (case find (\<lambda>n. remote_name_str n = lit ''origin'') names of
          Some origin \<Rightarrow> Inr origin
        | None \<Rightarrow> (case names of
            [] \<Rightarrow> git_fail (lit ''No remote exists. Choose Current checkout or a custom local ref instead.'')
          | [n] \<Rightarrow> Inr n
          | _ \<Rightarrow> git_fail (lit ''Choose a remote for Latest default branch: ''
                  @ join (lit '', '') (map remote_name_str names)))))"

definition select_base_remote ::
    "'w git_env \<Rightarrow> path \<Rightarrow> git_remote_name option \<Rightarrow> ('w, git_remote_name) git_op" where
  "select_base_remote env repository requested w =
     and_then (required_git env repository [lit ''remote''] (lit ''list Git remotes'') w) (\<lambda>s w.
       (bind_result (collect_names (text_lines s)) (choose_remote requested), w))"

definition REMOTE_PROTOCOLS :: "str list" where
  "REMOTE_PROTOCOLS = [lit ''https'', lit ''http'', lit ''ssh'', lit ''git'', lit ''file'']"

definition run_remote_git :: "'w git_env \<Rightarrow> path \<Rightarrow> path \<Rightarrow> str list \<Rightarrow> ('w, nat list) git_op" where
  "run_remote_git env repository hooks arguments w =
     and_then (run_git_mutation env repository hooks
         ([Arg (lit ''-c''), Arg (lit ''protocol.allow=never'')]
          @ concat (map (\<lambda>p. [Arg (lit ''-c''), Arg (lit ''protocol.'' @ p @ lit ''.allow=always'')]) REMOTE_PROTOCOLS)
          @ map Arg arguments) w) (\<lambda>out w.
       (if \<not> go_success out
        then git_fail (lit ''Could not fetch the latest default branch. Check the remote, network, and Git authentication; retry or explicitly select a local base.'')
        else Inr (go_stdout out), w))"

record resolved_base =
  rb_reference :: str
  rb_commit :: str
  rb_selection :: worktree_base_selection

definition commit_expression :: "str \<Rightarrow> str" where
  "commit_expression reference = reference @ [chr CHR ''^'', chr (CHR 0x7B)] @ lit ''commit'' @ [chr (CHR 0x7D)]"

definition resolve_commit :: "'w git_env \<Rightarrow> path \<Rightarrow> str \<Rightarrow> str \<Rightarrow> ('w, str) git_op" where
  "resolve_commit env repository reference =
     required_git env repository
       [lit ''rev-parse'', lit ''--verify'', lit ''--end-of-options'', commit_expression reference]"

definition resolve_local_base :: "'w git_env \<Rightarrow> path \<Rightarrow> str \<Rightarrow> ('w, resolved_base) git_op" where
  "resolve_local_base env repository reference w =
     and_then (validate_base_ref reference, w) (\<lambda>_ w.
     and_then (resolve_commit env repository reference (lit ''resolve worktree base'') w) (\<lambda>commit w.
     and_then (if reference = lit ''HEAD''
               then and_then (current_branch env repository w) (\<lambda>b w.
                      (Inr (case b of None \<Rightarrow> lit ''HEAD'' | Some b \<Rightarrow> b), w))
               else (Inr reference, w)) (\<lambda>display w.
       (Inr \<lparr>rb_reference = display, rb_commit = commit, rb_selection = LocalRef reference\<rparr>, w))))"

definition remote_branch :: "str \<Rightarrow> str \<Rightarrow> str" where
  "remote_branch remote branch = lit ''refs/remotes/'' @ remote @ lit ''/'' @ branch"

definition resolve_default_base ::
    "'w git_env \<Rightarrow> path \<Rightarrow> path \<Rightarrow> git_remote_name option \<Rightarrow> ('w, resolved_base) git_op" where
  "resolve_default_base env repository root requested w =
     and_then (select_base_remote env repository requested w) (\<lambda>remote w.
     and_then (run_remote_git env repository (disabled_hooks root)
         [lit ''ls-remote'', lit ''--symref'', lit ''--'', remote_name_str remote, lit ''HEAD''] w) (\<lambda>out w.
     and_then (parse_remote_default_head out, w) (\<lambda>(branch, advertised) w.
     and_then (run_remote_git env repository (disabled_hooks root)
         [lit ''fetch'', lit ''--no-tags'', lit ''--no-recurse-submodules'', lit ''--no-write-fetch-head'', lit ''--'',
          remote_name_str remote,
          lit ''+refs/heads/'' @ branch @ lit '':'' @ remote_branch (remote_name_str remote) branch] w) (\<lambda>_ w.
     and_then (resolve_commit env repository (remote_branch (remote_name_str remote) branch)
         (lit ''resolve fetched default branch'') w) (\<lambda>commit w.
       (if commit \<noteq> advertised
        then git_fail (lit ''The remote branch moved while fetching. Retry to preview its latest commit.'')
        else Inr \<lparr>rb_reference = remote_name_str remote @ lit ''/'' @ branch, rb_commit = commit,
                  rb_selection = LatestDefaultBranch (Some remote)\<rparr>, w))))))"

definition resolve_worktree_base ::
    "'w git_env \<Rightarrow> project \<Rightarrow> path \<Rightarrow> worktree_base_selection \<Rightarrow> ('w, resolved_base) git_op" where
  "resolve_worktree_base env p root selection w =
     and_then (canonical_registered_path env (pj_canonical_repository_path p) w, w) (\<lambda>repository w.
     and_then (verify_repository_root env repository w) (\<lambda>_ w.
       case selection of
         LocalRef reference \<Rightarrow> resolve_local_base env repository reference w
       | LatestDefaultBranch remote \<Rightarrow> resolve_default_base env repository root remote w))"

section \<open>Creation\<close>

definition validate_branch_with_git :: "'w git_env \<Rightarrow> path \<Rightarrow> str \<Rightarrow> ('w, unit) git_op" where
  "validate_branch_with_git env repository branch w =
     and_then (run_git env repository [lit ''check-ref-format'', lit ''--branch'', branch] w) (\<lambda>out w.
       (if go_success out then Inr ()
        else git_fail (lit ''invalid branch name: '' @ safe_message (go_stderr out)), w))"

definition show_branch :: "'w git_env \<Rightarrow> path \<Rightarrow> str \<Rightarrow> ('w, bool) git_op" where
  "show_branch env repository branch w =
     and_then (run_git env repository
         [lit ''show-ref'', lit ''--verify'', lit ''--quiet'', lit ''refs/heads/'' @ branch] w) (\<lambda>out w.
       (Inr (go_success out), w))"

definition branch_exists :: "'w git_env \<Rightarrow> project \<Rightarrow> str \<Rightarrow> ('w, bool) git_op" where
  "branch_exists env p branch w =
     and_then (validate_branch_name branch, w) (\<lambda>_ w.
     and_then (canonical_registered_path env (pj_canonical_repository_path p) w, w) (\<lambda>repository w.
     and_then (verify_repository_root env repository w) (\<lambda>_ w.
     and_then (validate_branch_with_git env repository branch w) (\<lambda>_ w.
       show_branch env repository branch w))))"

text \<open>The directory of the project below the managed root, created, not a link, and a direct child.\<close>

definition project_directory :: "'w git_env \<Rightarrow> project \<Rightarrow> path \<Rightarrow> ('w, path) git_op" where
  "project_directory env p root w =
     (let directory = project_directory_of env p root in
      and_then (case ge_create_dirs env directory w of (r, w') \<Rightarrow>
         (mapped_err (lit ''cannot create project worktree root'') r, w')) (\<lambda>_ w.
      and_then (reject_link env directory w, w) (\<lambda>_ w.
      and_then (mapped_err (lit ''cannot verify project worktree root'') (ge_canonicalize env directory w), w) (\<lambda>canonical w.
      and_then (ensure_direct_child root canonical, w) (\<lambda>_ w. (Inr canonical, w))))))"

definition add_arguments :: "str \<Rightarrow> path \<Rightarrow> str \<Rightarrow> git_arg list" where
  "add_arguments branch destination commit =
     [Arg (lit ''worktree''), Arg (lit ''add''), Arg (lit ''-b''), Arg branch, PathArg destination, Arg commit]"

text \<open>What is verified of the new checkout: its place, its repository and its commit.\<close>

definition verify_new_worktree ::
    "'w git_env \<Rightarrow> path \<Rightarrow> path \<Rightarrow> path \<Rightarrow> str \<Rightarrow> ('w, str) git_op" where
  "verify_new_worktree env repository directory destination base_commit w =
     and_then (reject_link env destination w, w) (\<lambda>_ w.
     and_then (mapped_err (lit ''cannot verify new worktree'') (ge_canonicalize env destination w), w) (\<lambda>canonical w.
     and_then (refuse_if (parent canonical \<noteq> Some directory)
         (GitError (lit ''new worktree escaped its managed project directory'')), w) (\<lambda>_ w.
     and_then (verify_repository_root env canonical w) (\<lambda>_ w.
     and_then (verify_common_repository env repository canonical w) (\<lambda>_ w.
     and_then (required_git env canonical [lit ''rev-parse'', lit ''HEAD''] (lit ''verify worktree HEAD'') w) (\<lambda>commit w.
     and_then (refuse_if (commit \<noteq> base_commit)
         (GitError (lit ''new worktree HEAD does not match the resolved base commit'')), w) (\<lambda>_ w.
       (path_text canonical, w))))))))"

definition create_managed_worktree ::
    "'w git_env \<Rightarrow> project \<Rightarrow> path \<Rightarrow> worktree_id \<Rightarrow> str option \<Rightarrow> str \<Rightarrow> str option \<Rightarrow> ('w, new_worktree) git_op" where
  "create_managed_worktree env p root i chosen branch base w =
     and_then (validate_branch_name branch, w) (\<lambda>_ w.
     and_then (validate_display_name (case chosen of None \<Rightarrow> branch | Some n \<Rightarrow> n), w) (\<lambda>display w.
     and_then (canonical_registered_path env (pj_canonical_repository_path p) w, w) (\<lambda>repository w.
     and_then (verify_repository_root env repository w) (\<lambda>_ w.
     and_then (validate_branch_with_git env repository branch w) (\<lambda>_ w.
     and_then (show_branch env repository branch w) (\<lambda>present w.
     and_then (refuse_if present (GitError (lit ''branch '' @ [chr (CHR 0x27)] @ branch @ [chr (CHR 0x27)] @ lit '' already exists'')), w) (\<lambda>_ w.
     let base_ref = (case base of None \<Rightarrow> lit ''HEAD'' | Some b \<Rightarrow> b) in
     and_then (validate_base_ref base_ref, w) (\<lambda>_ w.
     and_then (resolve_commit env repository base_ref (lit ''resolve worktree base'') w) (\<lambda>base_commit w.
     and_then (project_directory env p root w) (\<lambda>directory w.
     let destination = path_join directory (path_of (ge_id_text env (worktree_uuid i))) in
     and_then (refuse_if (path_exists env destination w)
         (GitError (lit ''managed worktree destination already exists'')), w) (\<lambda>_ w.
     and_then (run_git_mutation env repository (disabled_hooks root) (add_arguments branch destination base_commit) w) (\<lambda>out w.
     and_then (refuse_if (\<not> go_success out)
         (GitError (lit ''failed to create worktree: '' @ safe_message (go_stderr out))), w) (\<lambda>_ w.
     and_then (verify_new_worktree env repository directory destination base_commit w) (\<lambda>canonical w.
       (Inr \<lparr>nw_id = i, nw_project_id = pj_id p, nw_name = display, nw_path = canonical,
             nw_canonical_path = canonical, nw_branch = branch, nw_base_ref = base_ref,
             nw_base_commit = base_commit\<rparr>, w)))))))))))))))"

end
