(* ===== verification/Git_Decoding.thy ===== *)
theory Git_Decoding
  imports Git_Output
begin

text \<open>
  Decoding inverts encoding: every text is read back from its bytes, every decoded character is a
  Unicode scalar value, and so texts are equal when their bytes are.
\<close>

definition scalar :: "nat \<Rightarrow> bool" where
  "scalar c \<longleftrightarrow> c < 0xD800 \<or> 0xE000 \<le> c \<and> c < 0x110000"

lemma utf8_decode_Cons: "utf8_step b bs = (c, rest) \<Longrightarrow> utf8_decode (b # bs) = c # utf8_decode rest"
  by simp

lemma unat_small: "n < 256 \<Longrightarrow> unat (of_nat n :: 8 word) = n"
  by (simp add: unat_of_nat)

lemma take_continuation: "b < 64 \<Longrightarrow>
  take_continuations (Suc k) c ((0x80 + b) # bs) = take_continuations k (64 * c + b) bs"
  by (simp add: continuation_def)

lemma decode_two: assumes c: "0x80 \<le> c" "c < 0x800"
  shows "utf8_step (0xC0 + c div 64) ((0x80 + c mod 64) # rest) = (Some c, rest)"
proof -
  obtain a b where ab: "a = c div 64" "b = c mod 64" by simp
  have parts: "64 * a + b = c" unfolding ab by simp
  have small: "2 \<le> a" "a < 32" "b < 64" using c by (auto simp: ab)
  have "utf8_step (0xC0 + a) ((0x80 + b) # rest)
    = take_continuations (Suc 0) (0xC0 + a - 0xC0) ((0x80 + b) # rest)"
    using small(1,2) unfolding utf8_step_def One_nat_def by (simp del: take_continuations.simps)
  also have "\<dots> = (Some c, rest)" unfolding take_continuation [OF small(3)] using parts by simp
  finally show ?thesis unfolding ab .
qed

lemma decode_three: assumes c: "0x800 \<le> c" "c < 0x10000" "scalar c"
  shows "utf8_step (0xE0 + c div 4096) ((0x80 + c div 64 mod 64) # (0x80 + c mod 64) # rest) = (Some c, rest)"
proof -
  obtain a b d where abd: "a = c div 4096" "b = c div 64 mod 64" "d = c mod 64" by simp
  have "c div 4096 = c div 64 div 64" by (simp add: div_mult2_eq [symmetric])
  then have parts: "64 * (64 * a + b) + d = c" unfolding abd by simp
  have small: "a < 16" "b < 64" "d < 64" using c(2) by (auto simp: abd)
  have "a = 0 \<Longrightarrow> 32 \<le> b" using c(1) parts small by simp
  moreover have "a = 13 \<Longrightarrow> b < 32" using c(3) parts small by (auto simp: scalar_def)
  ultimately have second: "second_byte (0xE0 + a) (0x80 + b)"
    using small unfolding second_byte_def continuation_def by auto
  have "utf8_step (0xE0 + a) ((0x80 + b) # (0x80 + d) # rest)
    = take_continuations (Suc 0) (64 * a + b) ((0x80 + d) # rest)"
    using small(1) second unfolding utf8_step_def One_nat_def by (simp del: take_continuations.simps)
  also have "\<dots> = (Some c, rest)" unfolding take_continuation [OF small(3)] using parts by simp
  finally show ?thesis unfolding abd .
qed

lemma decode_four: assumes c: "0x10000 \<le> c" "c < 0x110000"
  shows "utf8_step (0xF0 + c div 262144)
    ((0x80 + c div 4096 mod 64) # (0x80 + c div 64 mod 64) # (0x80 + c mod 64) # rest) = (Some c, rest)"
proof -
  obtain a b d e where abd: "a = c div 262144" "b = c div 4096 mod 64" "d = c div 64 mod 64" "e = c mod 64"
    by simp
  have "c div 4096 = c div 64 div 64" "c div 262144 = c div 64 div 64 div 64"
    by (simp_all add: div_mult2_eq [symmetric])
  then have parts: "64 * (64 * (64 * a + b) + d) + e = c" unfolding abd by simp
  have small: "a < 5" "b < 64" "d < 64" "e < 64" using c(2) by (auto simp: abd)
  have "a = 0 \<Longrightarrow> 16 \<le> b" using c(1) parts small by simp
  moreover have "a = 4 \<Longrightarrow> b < 16" using c(2) parts small by simp
  ultimately have second: "second_byte (0xF0 + a) (0x80 + b)"
    using small unfolding second_byte_def continuation_def by auto
  have "utf8_step (0xF0 + a) ((0x80 + b) # (0x80 + d) # (0x80 + e) # rest)
    = take_continuations (Suc (Suc 0)) (64 * a + b) ((0x80 + d) # (0x80 + e) # rest)"
    using small(1) second unfolding utf8_step_def numeral_2_eq_2 by (simp del: take_continuations.simps)
  also have "\<dots> = (Some c, rest)"
    unfolding take_continuation [OF small(3)] take_continuation [OF small(4)] using parts by simp
  finally show ?thesis unfolding abd .
qed

lemma as_bytes_Cons: "as_bytes (c # s) = map unat (utf8_char c) @ as_bytes s"
  by (simp add: as_bytes_def utf8_bytes_def)

lemma decode_char: assumes "scalar c"
  shows "utf8_decode (map unat (utf8_char c) @ bs) = Some c # utf8_decode bs"
proof -
  consider "c < 0x80" | "0x80 \<le> c" "c < 0x800" | "0x800 \<le> c" "c < 0x10000" | "0x10000 \<le> c" "c < 0x110000"
    using assms by (fastforce simp: scalar_def)
  then show ?thesis
  proof cases
    case 1
    then have "utf8_char c = [of_nat c]" by (simp add: utf8_char_def)
    then show ?thesis using 1 by (simp add: unat_small utf8_step_def)
  next
    case 2
    then have "map unat (utf8_char c) = [0xC0 + c div 64, 0x80 + c mod 64]"
      unfolding utf8_char_def by (simp del: of_nat_add add: unat_small)
    then show ?thesis using utf8_decode_Cons [OF decode_two [OF 2]] by (simp del: utf8_decode.simps)
  next
    case 3
    then have "map unat (utf8_char c) = [0xE0 + c div 4096, 0x80 + c div 64 mod 64, 0x80 + c mod 64]"
      unfolding utf8_char_def by (simp del: of_nat_add add: unat_small)
    then show ?thesis using utf8_decode_Cons [OF decode_three [OF 3 assms]] by (simp del: utf8_decode.simps)
  next
    case 4
    then have "map unat (utf8_char c) =
        [0xF0 + c div 262144, 0x80 + c div 4096 mod 64, 0x80 + c div 64 mod 64, 0x80 + c mod 64]"
      unfolding utf8_char_def by (simp del: of_nat_add add: unat_small)
    then show ?thesis using utf8_decode_Cons [OF decode_four [OF 4]] by (simp del: utf8_decode.simps)
  qed
qed

lemma decode_encode: "list_all scalar s \<Longrightarrow> utf8_decode (as_bytes s) = map Some s"
proof (induction s)
  case Nil
  then show ?case by (simp add: as_bytes_def utf8_bytes_def)
next
  case (Cons c s)
  then show ?case by (simp add: as_bytes_Cons decode_char del: utf8_decode.simps)
qed

lemma from_utf8_as_bytes: "list_all scalar s \<Longrightarrow> from_utf8 (as_bytes s) = Some s"
proof -
  assume "list_all scalar s"
  then have decoded: "utf8_decode (as_bytes s) = map Some s" by (rule decode_encode)
  have "None \<notin> set (map Some s)" "map the (map Some s) = s" by (simp_all add: comp_def image_iff)
  then show ?thesis unfolding from_utf8_def decoded by simp
qed

lemma as_bytes_inj: "list_all scalar s \<Longrightarrow> list_all scalar t \<Longrightarrow> as_bytes s = as_bytes t \<Longrightarrow> s = t"
  by (metis from_utf8_as_bytes option.inject)

lemma take_continuations_bounds:
  "take_continuations k c bs = (Some x, r) \<Longrightarrow> c * 64 ^ k \<le> x \<and> x < (c + 1) * 64 ^ k"
proof (induction k c bs rule: take_continuations.induct)
  case (3 k c b bs)
  then have b: "continuation b" and step: "take_continuations k (64 * c + (b - 128)) bs = (Some x, r)"
    by (auto split: if_splits)
  let ?c = "64 * c + (b - 128)"
  have bounds: "?c * 64 ^ k \<le> x" "x < (?c + 1) * 64 ^ k" using 3(1) [OF b step] by auto
  have "64 * c \<le> ?c" "?c + 1 \<le> 64 * (c + 1)" using b by (auto simp: continuation_def)
  then have "64 * c * 64 ^ k \<le> ?c * 64 ^ k" "(?c + 1) * 64 ^ k \<le> 64 * (c + 1) * 64 ^ k"
    by (simp_all only: mult_le_mono1)
  moreover have "c * 64 ^ Suc k = 64 * c * 64 ^ k" "(c + 1) * 64 ^ Suc k = 64 * (c + 1) * 64 ^ k"
    by (simp_all add: algebra_simps)
  ultimately show ?case using bounds by linarith
qed auto

lemma utf8_step_scalar: assumes "utf8_step b bs = (Some c, rest)"
  shows "scalar c"
proof -
  consider (one) "c < 128" | (two) "b \<le> 0xDF" "take_continuations 1 (b - 0xC0) bs = (Some c, rest)"
    | (three) d ds where "0xE0 \<le> b" "b < 0xF0" "second_byte b d"
        "take_continuations 1 (64 * (b - 0xE0) + (d - 128)) ds = (Some c, rest)"
    | (four) d ds where "0xF0 \<le> b" "b \<le> 0xF4" "second_byte b d"
        "take_continuations 2 (64 * (b - 0xF0) + (d - 128)) ds = (Some c, rest)"
    using assms unfolding utf8_step_def
    by (auto split: if_splits list.splits simp del: take_continuations.simps)
  then show ?thesis
  proof cases
    case one
    then show ?thesis by (simp add: scalar_def)
  next
    case two
    have "b - 0xC0 \<le> 31" using two(1) by simp
    then show ?thesis using take_continuations_bounds [OF two(2)] by (simp add: scalar_def)
  next
    case three
    define u where "u = 64 * (b - 0xE0) + (d - 128)"
    have u: "u * 64 \<le> c" "c < (u + 1) * 64"
      using take_continuations_bounds [OF three(4)] by (simp_all add: u_def)
    have "u < 1024" "u < 864 \<or> 896 \<le> u"
      using three(1-3) by (auto simp: u_def second_byte_def continuation_def split: if_splits)
    then show ?thesis using u unfolding scalar_def by auto
  next
    case four
    define u where "u = 64 * (b - 0xF0) + (d - 128)"
    have u: "u * 4096 \<le> c" "c < (u + 1) * 4096"
      using take_continuations_bounds [OF four(4)] by (simp_all add: u_def)
    have "16 \<le> u" "u < 272"
      using four(1-3) by (auto simp: u_def second_byte_def continuation_def split: if_splits)
    then show ?thesis using u unfolding scalar_def by auto
  qed
qed

lemma utf8_decode_scalar: "Some c \<in> set (utf8_decode bs) \<Longrightarrow> scalar c"
proof (induction bs rule: utf8_decode.induct)
  case (2 b bs)
  obtain x rest where step: "utf8_step b bs = (x, rest)" by (cases "utf8_step b bs")
  have "Some c = x \<or> Some c \<in> set (utf8_decode rest)"
    using 2(2) unfolding utf8_decode_Cons [OF step] by auto
  then show ?case using 2(1) [OF step [symmetric] refl] utf8_step_scalar step by auto
qed simp

lemma from_utf8_scalar: "from_utf8 bs = Some s \<Longrightarrow> list_all scalar s"
proof -
  assume s: "from_utf8 bs = Some s"
  then have valid: "None \<notin> set (utf8_decode bs)" and "s = map the (utf8_decode bs)"
    by (auto simp: from_utf8_def split: if_splits)
  then have "Some c \<in> set (utf8_decode bs)" if "c \<in> set s" for c
    using that by (auto simp: image_iff) (metis option.exhaust option.sel)
  then show ?thesis using utf8_decode_scalar by (auto simp: list_all_iff)
qed

end
