(* ===== verification/Git_Properties.thy ===== *)
theory Git_Properties
  imports Git_Bases Git_Decoding
begin

text \<open>
  Managed worktrees: commands that only read leave the repository alone, so what changes it is
  exactly one command, issued after every check of the code has passed in the same state.
\<close>

section \<open>Commands that only read\<close>

text \<open>The queries of Git that the code issues, by their first words. With \<open>GIT_OPTIONAL_LOCKS=0\<close> Git
  documents that they write nothing.\<close>

fun git_query :: "git_arg list \<Rightarrow> bool" where
  "git_query [Arg c] \<longleftrightarrow> c = lit ''remote''"
| "git_query (Arg c # Arg d # _) \<longleftrightarrow>
     c \<in> {lit ''rev-parse'', lit ''show-ref'', lit ''status'', lit ''check-ref-format''}
     \<or> c = lit ''symbolic-ref'' \<and> d = lit ''--quiet'' \<or> c = lit ''worktree'' \<and> d = lit ''list''
     \<or> c = lit ''remote'' \<and> d = lit ''get-url'' \<or> c = lit ''config'' \<and> d = lit ''--get''"
| "git_query _ \<longleftrightarrow> False"

definition queries_only_read :: "'w git_env \<Rightarrow> bool" where
  "queries_only_read env \<longleftrightarrow> (\<forall>cwd arguments w. git_query arguments \<longrightarrow> snd (ge_run env cwd arguments w) = w)"

definition keeps_world :: "('w, 'a) git_op \<Rightarrow> bool" where
  "keeps_world act \<longleftrightarrow> (\<forall>w. snd (act w) = w)"

lemma keeps_worldD: "keeps_world act \<Longrightarrow> snd (act w) = w"
  by (simp add: keeps_world_def)

lemma keeps_and_then: "keeps_world act \<Longrightarrow> (\<And>x. keeps_world (k x)) \<Longrightarrow>
  keeps_world (\<lambda>w. and_then (act w) k)"
  by (auto simp: keeps_world_def and_then_def split: prod.split sum.split) (metis snd_conv)+

lemma keeps_pure: "keeps_world (\<lambda>w. (f w, w))"
  by (simp add: keeps_world_def)

lemma keeps_run_git: "queries_only_read env \<Longrightarrow> git_query (map Arg arguments) \<Longrightarrow>
  keeps_world (run_git env cwd arguments)"
  unfolding keeps_world_def run_git_def run_git_os_def queries_only_read_def
  by (simp add: case_prod_beta)

lemma keeps_required: "queries_only_read env \<Longrightarrow> git_query (map Arg arguments) \<Longrightarrow>
  keeps_world (required_git env cwd arguments operation)"
  unfolding required_git_def by (intro keeps_and_then keeps_run_git keeps_pure)

lemma keeps_optional: "queries_only_read env \<Longrightarrow> git_query (map Arg arguments) \<Longrightarrow>
  keeps_world (optional_git env cwd arguments)"
  unfolding optional_git_def by (intro keeps_and_then keeps_run_git keeps_pure)

lemmas keeps_intros = keeps_and_then keeps_pure keeps_run_git keeps_required keeps_optional

lemma keeps_root: "queries_only_read env \<Longrightarrow> keeps_world (verify_repository_root env p)"
  unfolding verify_repository_root_def by (intro keeps_intros) simp_all

lemma keeps_common: "queries_only_read env \<Longrightarrow> keeps_world (verify_common_repository env p q)"
  unfolding verify_common_repository_def common_git_directory_def by (intro keeps_intros) simp_all

lemma keeps_registered: "queries_only_read env \<Longrightarrow> keeps_world (ensure_worktree_registered env p q)"
  unfolding ensure_worktree_registered_def by (intro keeps_intros) simp_all

lemma keeps_branch: "queries_only_read env \<Longrightarrow> keeps_world (current_branch env p)"
  unfolding current_branch_def by (intro keeps_intros) simp_all

lemma keeps_inspect: "queries_only_read env \<Longrightarrow> keeps_world (inspect_worktree env t)"
  unfolding inspect_worktree_def STATUS_ARGUMENTS_def
  by (intro keeps_intros keeps_root keeps_branch) simp_all

lemma keeps_identity: "queries_only_read env \<Longrightarrow> keeps_world (verify_managed_worktree_identity env p t)"
  unfolding verify_managed_worktree_identity_def
  by (intro keeps_intros keeps_root keeps_branch keeps_common keeps_registered) simp_all


section \<open>Removal\<close>




lemma run_git_os_Inr: "run_git_os env cwd arguments w = (Inr out, w') \<Longrightarrow>
  w' = snd (ge_run env cwd arguments w) \<and> go_success out \<longrightarrow>
  (\<exists>err. fst (ge_run env cwd arguments w) = Exited True (go_stdout out) err)"
  by (auto simp: run_git_os_def read_bounded_def git_fail_def bind_result_eq_Inr case_prod_beta
      split: git_run.splits if_splits)




section \<open>Confirmation\<close>

lemma trimmed_scalar: "list_all scalar s \<Longrightarrow> list_all scalar (trim s)"
  using set_trim_subset [of s] by (auto simp: list_all_iff)

lemma output_text_scalar: "output_text bytes = Inr s \<Longrightarrow> list_all scalar s"
  by (auto simp: output_text_def split: option.splits dest: from_utf8_scalar)

lemma required_git_scalar: "required_git env cwd arguments operation w = (Inr s, w') \<Longrightarrow> list_all scalar s"
  by (auto simp: required_git_def and_then_eq_Inr bind_result_eq_Inr git_fail_def split: if_splits
      intro!: trimmed_scalar dest: output_text_scalar)

lemma optional_git_scalar: "optional_git env cwd arguments w = (Inr (Some s), w') \<Longrightarrow> list_all scalar s \<and> s \<noteq> []"
  by (auto simp: optional_git_def and_then_eq_Inr bind_result_eq_Inr split: if_splits
      intro!: trimmed_scalar dest: output_text_scalar)

lemma inspected_state:
  assumes "inspect_worktree env t w = (Inr s, w')"
  obtains head branch stdout where "s = status_state env t head branch stdout" "list_all scalar head"
    "\<And>b. branch = Some b \<Longrightarrow> list_all scalar b \<and> b \<noteq> []"
  using assms unfolding inspect_worktree_def current_branch_def and_then_eq_Inr
  by (auto simp: git_fail_def split: if_splits dest!: required_git_scalar optional_git_scalar intro: that)

lemma status_state_simps:
  "gs_clean (status_state env t head branch stdout) \<longleftrightarrow> stdout = []"
  "gs_head_commit (status_state env t head branch stdout) = head"
  "gs_branch (status_state env t head branch stdout) = branch"
  "gs_blocking_paths (status_state env t head branch stdout) = blocking_status_paths stdout"
  "gs_removal_confirmation_token (status_state env t head branch stdout) =
     (if stdout = [] then Some (state_token env (wt_id t) (wt_canonical_path t) head branch []) else None)"
  by (simp_all add: status_state_def Let_def split: prod.split)

definition all_bytes :: "nat list \<Rightarrow> bool" where
  "all_bytes xs \<longleftrightarrow> list_all (\<lambda>b. b < 256) xs"

lemma hex_byte_inj: assumes "a < 256" "b < 256" "hex_byte a = hex_byte b" shows "a = b"
proof -
  have "a div 16 = b div 16" "a mod 16 = b mod 16"
    using assms by (auto simp: hex_byte_def split: if_splits)
  then show ?thesis by (metis div_mult_mod_eq)
qed

lemma hex_digest_inj: "all_bytes xs \<Longrightarrow> all_bytes ys \<Longrightarrow> hex_digest xs = hex_digest ys \<Longrightarrow> xs = ys"
proof (induction xs arbitrary: ys)
  case Nil
  then show ?case by (cases ys) (auto simp: hex_digest_def hex_byte_def)
next
  case (Cons x xs)
  then obtain y ys' where ys: "ys = y # ys'" by (cases ys) (auto simp: hex_digest_def hex_byte_def)
  have "hex_byte x @ hex_digest xs = hex_byte y @ hex_digest ys'"
    using Cons(4) by (simp add: hex_digest_def ys)
  then have "hex_byte x = hex_byte y" "hex_digest xs = hex_digest ys'" by (auto simp: hex_byte_def)
  moreover have "x < 256" "y < 256" "all_bytes xs" "all_bytes ys'"
    using Cons(2,3) by (simp_all add: all_bytes_def ys)
  ultimately show ?case using Cons(1) hex_byte_inj unfolding ys by blast
qed

lemma all_bytes_as_bytes: "all_bytes (as_bytes s)"
proof -
  have "unat v < 2 ^ LENGTH(8)" for v :: "8 word" by (rule unsigned_less)
  then show ?thesis by (auto simp: all_bytes_def as_bytes_def list_all_iff)
qed

lemma all_bytes_token_input: "all_bytes (token_input env i canonical head branch [])"
  using all_bytes_as_bytes by (auto simp: token_input_def all_bytes_def list_all_iff)

lemma zero_byte: "list_all scalar s \<Longrightarrow> 0 \<in> set (as_bytes s) \<Longrightarrow> 0 \<in> set s"
proof (induction s)
  case (Cons c s)
  have "0 \<in> set (map unat (utf8_char c)) \<Longrightarrow> c = 0"
  proof -
    assume zero: "0 \<in> set (map unat (utf8_char c))"
    have lead: "c < 0x110000" using Cons(2) by (auto simp: scalar_def)
    then have "c div 64 < 32 \<or> 0x800 \<le> c" "c div 4096 < 16 \<or> 0x10000 \<le> c" "c div 262144 < 5"
      "c mod 64 < 64" "c div 64 mod 64 < 64" "c div 4096 mod 64 < 64" by auto
    then show "c = 0" using zero
      unfolding utf8_char_def by (auto simp: unat_of_nat split: if_splits simp del: of_nat_add)
  qed
  then show ?case using Cons by (auto simp: as_bytes_Cons)
qed (simp add: as_bytes_def utf8_bytes_def)

lemma separated_eq: "z \<notin> set xs \<Longrightarrow> z \<notin> set xs' \<Longrightarrow>
  xs @ z # ys = xs' @ z # ys' \<longleftrightarrow> xs = xs' \<and> ys = ys'"
proof (induction xs arbitrary: xs')
  case Nil
  then show ?case by (cases xs') auto
next
  case (Cons x xs)
  then show ?case by (cases xs') auto
qed

lemma token_input_inj:
  assumes "token_input env i canonical h b [] = token_input env i canonical h' b' []"
    and "list_all scalar h" "list_all scalar h'" "0 \<notin> set h" "0 \<notin> set h'"
    and "\<And>x. b = Some x \<Longrightarrow> list_all scalar x \<and> x \<noteq> []" "\<And>x. b' = Some x \<Longrightarrow> list_all scalar x \<and> x \<noteq> []"
  shows "h = h' \<and> b = b'"
proof -
  let ?t = "\<lambda>b. case b of None \<Rightarrow> [] | Some b \<Rightarrow> b"
  have "as_bytes h @ 0 # as_bytes (?t b) = as_bytes h' @ 0 # as_bytes (?t b')"
    using assms(1) by (simp add: token_input_def)
  moreover have "0 \<notin> set (as_bytes h)" "0 \<notin> set (as_bytes h')" using assms(2-5) zero_byte by blast+
  ultimately have "as_bytes h = as_bytes h'" "as_bytes (?t b) = as_bytes (?t b')"
    by (simp_all add: separated_eq)
  moreover have "list_all scalar (?t b)" "list_all scalar (?t b')"
    using assms(6,7) by (auto split: option.split)
  ultimately have "h = h'" "?t b = ?t b'" using assms(2,3) as_bytes_inj by blast+
  then show ?thesis using assms(6,7) by (cases b; cases b') auto
qed

text \<open>A confirmation binds the state that was shown. Where the digest has no collisions on byte
  strings and commit names contain no zero byte, two inspections of a worktree that offer the same
  removal token, at whatever times, report the same state: no change of commit, of branch or of any
  file can lie between the state the user confirmed and the one that is removed.\<close>

theorem token_pins_the_state:
  assumes "inspect_worktree env t w = (Inr s, w1)" "inspect_worktree env t v = (Inr s', v1)"
    and "gs_removal_confirmation_token s = Some token" "gs_removal_confirmation_token s' = Some token"
    and "inj_on (ge_sha256 env) (Collect all_bytes)" "\<forall>xs. all_bytes xs \<longrightarrow> all_bytes (ge_sha256 env xs)"
    and "0 \<notin> set (gs_head_commit s)" "0 \<notin> set (gs_head_commit s')"
  shows "s' = s"
proof -
  obtain h b out where s: "s = status_state env t h b out" "list_all scalar h"
    "\<And>x. b = Some x \<Longrightarrow> list_all scalar x \<and> x \<noteq> []" by (rule inspected_state [OF assms(1)]) blast
  obtain h' b' out' where s': "s' = status_state env t h' b' out'" "list_all scalar h'"
    "\<And>x. b' = Some x \<Longrightarrow> list_all scalar x \<and> x \<noteq> []" by (rule inspected_state [OF assms(2)]) blast
  have clean: "out = []" "out' = []"
    using assms(3,4) by (auto simp: s(1) s'(1) status_state_simps split: if_splits)
  let ?in = "token_input env (wt_id t) (wt_canonical_path t) h b []"
  let ?in' = "token_input env (wt_id t) (wt_canonical_path t) h' b' []"
  have "hex_digest (ge_sha256 env ?in) = hex_digest (ge_sha256 env ?in')"
    using assms(3,4) by (simp add: s(1) s'(1) status_state_simps clean state_token_def)
  then have "ge_sha256 env ?in = ge_sha256 env ?in'"
    using assms(6) all_bytes_token_input hex_digest_inj by blast
  then have "?in = ?in'" using inj_onD [OF assms(5)] all_bytes_token_input by blast
  then have "h = h' \<and> b = b'"
    using s(2,3) s'(2,3) assms(7,8) by (intro token_input_inj) (auto simp: s(1) s'(1) status_state_simps)
  then show ?thesis by (simp add: s(1) s'(1) clean)
qed

text \<open>What inspecting a worktree reports is consistent and accepted by every client: a worktree is
  clean exactly when a removal token is offered, the sample of blocking paths stays within the ten
  entries, the 512 bytes and the printable characters the client's decoder demands, and a clean
  worktree has no blocking path. Inspecting changes nothing.\<close>

theorem inspection_is_accepted:
  assumes "queries_only_read env" "inspect_worktree env t w = (Inr s, w')"
  shows "w' = w \<and> gs_worktree_id s = wt_id t
    \<and> (gs_clean s \<longleftrightarrow> gs_removal_confirmation_token s \<noteq> None)
    \<and> blocking_sample_valid (gs_blocking_paths s) \<and> (gs_clean s \<longrightarrow> gs_blocking_paths s = [])"
proof -
  obtain h b out where s: "s = status_state env t h b out" by (rule inspected_state [OF assms(2)])
  have "w' = w" using keeps_worldD [OF keeps_inspect [OF assms(1)], of t w] assms(2) by simp
  moreover have "gs_worktree_id s = wt_id t" by (simp add: s status_state_def Let_def split: prod.split)
  moreover have "blocking_sample_valid (gs_blocking_paths s)"
    unfolding s status_state_simps blocking_status_paths_def
    by (rule blocking_records_valid) (simp add: blocking_sample_valid_iff)
  moreover have "gs_clean s \<longrightarrow> gs_blocking_paths s = []"
    by (simp add: s status_state_simps blocking_status_paths_def status_records_def)
  ultimately show ?thesis by (simp add: s status_state_simps)
qed

section \<open>Remote URLs\<close>

lemma after_userinfo_eq: "after_userinfo s = rev (takeWhile (\<lambda>d. d \<noteq> chr CHR ''@'') (rev s))"
proof (cases "dropWhile (\<lambda>d. d \<noteq> chr CHR ''@'') (rev s)")
  case Nil
  then have "takeWhile (\<lambda>d. d \<noteq> chr CHR ''@'') (rev s) = rev s"
    by (metis append_Nil2 takeWhile_dropWhile_id)
  moreover have "rsplit_once (chr CHR ''@'') s = None"
    by (simp only: rsplit_once_def split_once_def Nil list.case option.map)
  ultimately show ?thesis by (simp only: after_userinfo_def option.case rev_rev_ident)
next
  case (Cons x xs)
  then show ?thesis by (simp add: after_userinfo_def rsplit_once_def split_once_def)
qed

lemma after_userinfo_no_at: "chr CHR ''@'' \<notin> set (after_userinfo s)"
  using set_takeWhileD by (fastforce simp: after_userinfo_eq)

lemma after_userinfo_suffix: "\<exists>userinfo. s = userinfo @ after_userinfo s"
  unfolding after_userinfo_eq by (metis rev_append rev_rev_ident takeWhile_dropWhile_id)

text \<open>A stored remote URL carries no user information. Where the text before \<open>://\<close> has no at sign,
  as a URL scheme has none, the stored URL is that scheme, a host without at sign or slash, and the
  unchanged path, cut to 4096 characters; a remote without scheme (\<open>user@host:path\<close>) keeps no at sign
  at all.\<close>

definition plain_remote :: "str \<Rightarrow> str" where
  "plain_remote url = trim (takeWhile (\<lambda>c. c \<noteq> chr CHR ''?'' \<and> c \<noteq> chr (CHR 0x23)) url)"

theorem stored_remote_has_no_credentials:
  "case split_at (lit ''://'') (plain_remote url) of
      None \<Rightarrow> chr CHR ''@'' \<notin> set (sanitize_remote_url url)
    | Some (scheme, rest) \<Rightarrow> \<exists>host.
        sanitize_remote_url url
          = take 4096 (scheme @ lit ''://'' @ host @ dropWhile (\<lambda>c. c \<noteq> chr CHR ''/'') (drop 3 rest))
        \<and> chr CHR ''@'' \<notin> set host \<and> chr CHR ''/'' \<notin> set host
        \<and> (\<exists>userinfo. takeWhile (\<lambda>c. c \<noteq> chr CHR ''/'') (drop 3 rest) = userinfo @ host)"
proof (cases "split_at (lit ''://'') (plain_remote url)")
  case None
  have "chr CHR ''@'' \<notin> set (take 4096 (after_userinfo (plain_remote url)))"
    using after_userinfo_no_at [of "plain_remote url"] in_set_takeD by metis
  then show ?thesis using None by (simp add: sanitize_remote_url_def plain_remote_def)
next
  case (Some p)
  obtain scheme rest where p: "p = (scheme, rest)" by (cases p)
  let ?authority = "takeWhile (\<lambda>c. c \<noteq> chr CHR ''/'') (drop 3 rest)"
  obtain userinfo where split: "?authority = userinfo @ after_userinfo ?authority"
    using after_userinfo_suffix by blast
  have "chr CHR ''/'' \<notin> set ?authority" using set_takeWhileD by fastforce
  then have "chr CHR ''/'' \<notin> set (after_userinfo ?authority)" using split by (metis Un_iff set_append)
  moreover have "sanitize_remote_url url = take 4096 (scheme @ lit ''://'' @ after_userinfo ?authority
      @ dropWhile (\<lambda>c. c \<noteq> chr CHR ''/'') (drop 3 rest))"
    using Some by (simp add: sanitize_remote_url_def plain_remote_def p Let_def)
  ultimately show ?thesis using Some split after_userinfo_no_at [of ?authority] by (auto simp: p)
qed

section \<open>Creation\<close>


lemma and_then_succeeds:
  assumes "and_then r k = (Inr y, t)"
  obtains x s where "r = (Inr x, s)" "k x s = (Inr y, t)"
  using assms by (auto simp: and_then_eq_Inr)





lemma keeps_new: "queries_only_read env \<Longrightarrow> keeps_world (verify_new_worktree env repository d p c)"
  unfolding verify_new_worktree_def
  by (intro keeps_intros keeps_root keeps_common) simp_all






section \<open>Bases\<close>

lemma git_remote_name_new_Inr:
  "git_remote_name_new n = Inr r \<Longrightarrow> remote_name_str r = n \<and> validate_remote_name n = Inr n"
  by (auto simp: git_remote_name_new_def validated_new_def bind_result_eq_Inr validate_remote_name_def
      split: if_splits)

lemma collect_names_Inr: "collect_names ns = Inr rs \<Longrightarrow> ns = map remote_name_str rs
  \<and> list_all (\<lambda>r. validate_remote_name (remote_name_str r) = Inr (remote_name_str r)) rs"
  by (induction ns arbitrary: rs)
     (auto simp: bind_result_eq_Inr git_fail_def split: sum.splits dest!: git_remote_name_new_Inr)

lemma choose_remote_Inr: "choose_remote requested names = Inr r \<Longrightarrow>
  r \<in> set names \<and> (requested = None \<or> requested = Some r)"
  by (auto simp: choose_remote_def git_fail_def find_Some_iff split: option.splits if_splits list.splits)

lemma parse_remote_default_head_Inr: assumes "parse_remote_default_head bytes = Inr (branch, commit)"
  shows "validate_branch_name branch = Inr () \<and> length commit \<in> {40, 64}
    \<and> list_all (\<lambda>c. is_ascii_digit c \<or> 97 \<le> c \<and> c \<le> 102) commit"
proof -
  obtain lines c where c: "find_map advertised_commit lines = Some c" "commit = ascii_lowercase c"
    and branch: "validate_branch_name branch = Inr ()"
    using assms by (auto simp: parse_remote_default_head_def bind_result_eq_Inr split: option.splits)
  have "list_all is_ascii_hexdigit c \<and> byte_len c \<in> {40, 64}"
    using c(1) by (induction lines)
      (auto simp: advertised_commit_def bind_eq_Some_conv split: option.splits if_splits)
  moreover from this have "byte_len c = length c"
    by (intro byte_len_ascii) (auto simp: list_all_iff char_class_defs)
  ultimately show ?thesis
    using branch by (auto simp: c(2) ascii_lowercase_def ascii_lower_def list_all_iff char_class_defs)
qed

text \<open>A worktree based on the latest default branch is pinned. If resolution succeeds, the remote is
  one Git lists for the repository, the requested one when one was requested, and its name passed
  validation (so Git can read it neither as an option nor as a path); the branch name is safe; and
  the resolved commit is the full hexadecimal object name the remote advertised, which is also
  what the fetched branch resolves to.\<close>

theorem default_base_is_pinned:
  assumes "resolve_worktree_base env p root (LatestDefaultBranch requested) w = (Inr b, w')"
  shows "\<exists>repository remote branch listing u v x.
      required_git env repository [lit ''remote''] (lit ''list Git remotes'') u = (Inr listing, v)
      \<and> remote_name_str remote \<in> set (text_lines listing)
      \<and> validate_remote_name (remote_name_str remote) = Inr (remote_name_str remote)
      \<and> (requested = None \<or> requested = Some remote)
      \<and> rb_selection b = LatestDefaultBranch (Some remote)
      \<and> rb_reference b = remote_name_str remote @ lit ''/'' @ branch \<and> validate_branch_name branch = Inr ()
      \<and> length (rb_commit b) \<in> {40, 64} \<and> list_all (\<lambda>c. is_ascii_digit c \<or> 97 \<le> c \<and> c \<le> 102) (rb_commit b)
      \<and> resolve_commit env repository (remote_branch (remote_name_str remote) branch)
          (lit ''resolve fetched default branch'') x = (Inr (rb_commit b), w')"
proof -
  obtain repository u where "resolve_default_base env repository root requested u = (Inr b, w')"
    using assms by (auto simp: resolve_worktree_base_def and_then_eq_Inr)
  then obtain remote v out branch commit x where
    chosen: "select_base_remote env repository requested u = (Inr remote, v)"
    and head: "parse_remote_default_head out = Inr (branch, commit)"
    and resolved: "resolve_commit env repository (remote_branch (remote_name_str remote) branch)
        (lit ''resolve fetched default branch'') x = (Inr commit, w')"
    and b: "b = \<lparr>rb_reference = remote_name_str remote @ lit ''/'' @ branch, rb_commit = commit,
                 rb_selection = LatestDefaultBranch (Some remote)\<rparr>"
    by (auto simp: resolve_default_base_def and_then_eq_Inr git_fail_def split: if_splits)
  obtain listing names where listing:
    "required_git env repository [lit ''remote''] (lit ''list Git remotes'') u = (Inr listing, v)"
    and names: "collect_names (text_lines listing) = Inr names" "choose_remote requested names = Inr remote"
    using chosen by (auto simp: select_base_remote_def and_then_eq_Inr bind_result_eq_Inr)
  have "remote_name_str remote \<in> set (text_lines listing)
      \<and> validate_remote_name (remote_name_str remote) = Inr (remote_name_str remote)"
    "requested = None \<or> requested = Some remote"
    using collect_names_Inr [OF names(1)] choose_remote_Inr [OF names(2)]
    by (auto simp: list_all_iff)
  then show ?thesis
    using listing resolved parse_remote_default_head_Inr [OF head] by (simp add: b) blast
qed

section \<open>A sample repository\<close>

text \<open>The repository \<open>/r\<close> with the managed root \<open>/m\<close>; the world tells whether the worktree
  \<open>/m/p/t\<close> exists.\<close>

definition demo_answer :: "nat list" where
  "demo_answer = lit ''ref: refs/heads/main'' @ TAB_HEAD @ [10] @ replicate 40 (chr CHR ''A'') @ TAB_HEAD"

definition demo_git :: "path \<Rightarrow> git_arg list \<Rightarrow> bool \<Rightarrow> git_run \<times> bool" where
  "demo_git cwd arguments present =
     (let say = (\<lambda>s. Exited True s []) in
      if arguments = map Arg [lit ''rev-parse'', lit ''--show-toplevel''] then (say (path_bytes cwd), present)
      else if arguments = map Arg [lit ''rev-parse'', lit ''--git-common-dir''] then (say (lit ''/r/.git''), present)
      else if arguments = map Arg [lit ''remote''] then (say (lit ''origin''), present)
      else if git_query arguments then
        (if hd arguments = Arg (lit ''worktree'') then say (lit ''worktree /m/p/t'')
         else if hd arguments = Arg (lit ''status'') then say []
         else if hd arguments = Arg (lit ''symbolic-ref'') then say (lit ''work'')
         else if hd arguments = Arg (lit ''show-ref'') then Exited False [] []
         else say (replicate 40 (chr CHR ''a'')), present)
      else if Arg (lit ''remove'') \<in> set arguments then (say [], False)
      else if Arg (lit ''add'') \<in> set arguments then (say [], True)
      else (say demo_answer, present))"

definition demo_path :: path where "demo_path = Path True [lit ''m'', lit ''p'', lit ''t'']"

definition demo_env :: "bool git_env" where
  "demo_env =
     \<lparr>ge_run = demo_git, ge_canonicalize = (\<lambda>p present. Inr p),
      ge_symlink = (\<lambda>p present. if p = demo_path \<and> \<not> present then Inl (lit ''absent'') else Inr False),
      ge_create_dirs = (\<lambda>p present. (Inr (), present)),
      ge_id_text = (\<lambda>i. if i = 1 then lit ''p'' else lit ''t''), ge_sha256 = (\<lambda>xs. xs)\<rparr>"

definition demo_project :: project where
  "demo_project =
     \<lparr>pj_id = ProjectId 1, pj_workspace_id = WorkspaceId 3, pj_name = lit ''p'', pj_repository_path = lit ''/r'',
      pj_canonical_repository_path = lit ''/r'', pj_default_branch = None, pj_remote_url = None,
      pj_created_at = 0, pj_last_activity_at = 0\<rparr>"

definition demo_worktree :: worktree where
  "demo_worktree =
     \<lparr>wt_id = WorktreeId 2, wt_project_id = ProjectId 1, wt_name = lit ''t'', wt_path = lit ''/m/p/t'',
      wt_canonical_path = lit ''/m/p/t'', wt_branch = Some (lit ''work''), wt_base_ref = lit ''HEAD'',
      wt_base_commit = [], wt_is_root_checkout = False, wt_status = WtActive, wt_created_at = 0,
      wt_last_activity_at = 0, wt_removed_at = None\<rparr>"

definition demo_root :: path where "demo_root = Path True [lit ''m'']"

lemma demo_reads: "queries_only_read demo_env"
  by (simp add: queries_only_read_def demo_env_def demo_git_def Let_def)

definition demo_state :: git_state where
  "demo_state = status_state demo_env demo_worktree (replicate 40 (chr CHR ''a'')) (Some (lit ''work'')) []"

lemma read_bounded_small: "length bytes \<le> 65536 \<Longrightarrow> read_bounded bytes = Inr bytes"
  by (simp add: read_bounded_def OUTPUT_LIMIT_def)

lemma demo_run: "ge_run demo_env cwd arguments present = (Exited ok out err, present') \<Longrightarrow>
    length out \<le> 65536 \<Longrightarrow> length err \<le> 65536 \<Longrightarrow>
  run_git_os demo_env cwd arguments present
    = (Inr \<lparr>go_success = ok, go_stdout = out, go_stderr = err\<rparr>, present')"
  by (simp add: run_git_os_def read_bounded_small)

lemma as_bytes_ascii: "list_all (\<lambda>c. c < 0x80) s \<Longrightarrow> as_bytes s = s"
  by (induction s) (simp_all add: as_bytes_def utf8_bytes_def utf8_char_def unat_small)

lemma from_utf8_ascii: "list_all (\<lambda>c. c < 0x80) s \<Longrightarrow> from_utf8 s = Some s"
proof -
  assume ascii: "list_all (\<lambda>c. c < 0x80) s"
  then have "list_all scalar s" by (auto simp: list_all_iff scalar_def)
  then show ?thesis using from_utf8_as_bytes [of s] as_bytes_ascii [OF ascii] by simp
qed

lemma output_text_ascii: "list_all (\<lambda>c. c < 0x80) s \<Longrightarrow> output_text s = Inr s"
  by (simp add: output_text_def from_utf8_ascii)

lemma demo_texts:
  "path_of (lit ''/m/p/t'') = demo_path" "path_of (lit ''/r'') = Path True [lit ''r'']"
  "path_of (lit ''/r/.git'') = Path True [lit ''r'', lit ''.git'']"
  "path_of (lit ''p'') = Path False [lit ''p'']" "path_of (lit ''t'') = Path False [lit ''t'']"
  by (simp_all add: path_of_def as_bytes_ascii lit_def path_of_bytes_def demo_path_def Let_def)

lemma demo_bytes: "path_bytes demo_path = lit ''/m/p/t''" "path_bytes (Path True [lit ''r'']) = lit ''/r''"
  by (simp_all add: path_bytes_def demo_path_def lit_def)

lemma demo_outputs:
  "output_text (lit ''/m/p/t'') = Inr (lit ''/m/p/t'')" "trim (lit ''/m/p/t'') = lit ''/m/p/t''"
  "output_text (lit ''/r'') = Inr (lit ''/r'')" "trim (lit ''/r'') = lit ''/r''"
  "output_text (lit ''/r/.git'') = Inr (lit ''/r/.git'')" "trim (lit ''/r/.git'') = lit ''/r/.git''"
  "output_text (lit ''work'') = Inr (lit ''work'')" "trim (lit ''work'') = lit ''work''"
  "output_text (lit ''origin'') = Inr (lit ''origin'')" "trim (lit ''origin'') = lit ''origin''"
  by (simp_all add: output_text_ascii lit_def trim_def is_whitespace_def)

lemma demo_commit: "output_text (replicate 40 97) = Inr (replicate 40 97)"
  "trim (replicate 40 97) = replicate 40 97"
  by (rule output_text_ascii) (simp_all add: list_all_iff trim_def is_whitespace_def dropWhile_replicate)

lemmas demo_values = demo_texts demo_bytes demo_outputs demo_commit

lemma demo_answers:
  "ge_run demo_env cwd (map Arg [lit ''rev-parse'', lit ''--show-toplevel'']) present
     = (Exited True (path_bytes cwd) [], present)"
  "ge_run demo_env cwd (map Arg [lit ''rev-parse'', lit ''--git-common-dir'']) present
     = (Exited True (lit ''/r/.git'') [], present)"
  "ge_run demo_env cwd (map Arg [lit ''rev-parse'', lit ''HEAD'']) present
     = (Exited True (replicate 40 97) [], present)"
  "ge_run demo_env cwd (map Arg [lit ''symbolic-ref'', lit ''--quiet'', lit ''--short'', lit ''HEAD'']) present
     = (Exited True (lit ''work'') [], present)"
  "ge_run demo_env cwd (map Arg STATUS_ARGUMENTS) present = (Exited True [] [], present)"
  "ge_run demo_env cwd (map Arg [lit ''worktree'', lit ''list'', lit ''--porcelain'', lit ''-z'']) present
     = (Exited True (lit ''worktree /m/p/t'') [], present)"
  by (simp_all add: demo_env_def demo_git_def STATUS_ARGUMENTS_def lit_def)

lemma demo_runs:
  "run_git demo_env demo_path [lit ''rev-parse'', lit ''--show-toplevel''] present
     = (Inr \<lparr>go_success = True, go_stdout = lit ''/m/p/t'', go_stderr = []\<rparr>, present)"
  "run_git demo_env cwd [lit ''rev-parse'', lit ''--git-common-dir''] present
     = (Inr \<lparr>go_success = True, go_stdout = lit ''/r/.git'', go_stderr = []\<rparr>, present)"
  "run_git demo_env cwd [lit ''rev-parse'', lit ''HEAD''] present
     = (Inr \<lparr>go_success = True, go_stdout = replicate 40 97, go_stderr = []\<rparr>, present)"
  "run_git demo_env cwd [lit ''symbolic-ref'', lit ''--quiet'', lit ''--short'', lit ''HEAD''] present
     = (Inr \<lparr>go_success = True, go_stdout = lit ''work'', go_stderr = []\<rparr>, present)"
  "run_git demo_env cwd STATUS_ARGUMENTS present
     = (Inr \<lparr>go_success = True, go_stdout = [], go_stderr = []\<rparr>, present)"
  "run_git demo_env cwd [lit ''worktree'', lit ''list'', lit ''--porcelain'', lit ''-z''] present
     = (Inr \<lparr>go_success = True, go_stdout = lit ''worktree /m/p/t'', go_stderr = []\<rparr>, present)"
  unfolding run_git_def
  by (rule demo_run, subst demo_answers, simp add: demo_bytes, simp add: lit_def, simp)+

lemma demo_canonical: "ge_canonicalize demo_env q present = Inr q"
  by (simp add: demo_env_def)

lemma demo_verified:
  "canonical_registered_path demo_env (lit ''/m/p/t'') present = Inr demo_path"
  "verify_repository_root demo_env demo_path present = (Inr (), present)"
  "current_branch demo_env demo_path present = (Inr (Some (lit ''work'')), present)"
  "required_git demo_env cwd [lit ''rev-parse'', lit ''HEAD''] operation present
     = (Inr (replicate 40 97), present)"
  "common_git_directory demo_env cwd present = (Inr (Path True [lit ''r'', lit ''.git'']), present)"
  by (simp_all add: canonical_registered_path_def verify_repository_root_def current_branch_def optional_git_def
      required_git_def common_git_directory_def demo_canonical mapped_err_def demo_runs demo_values
      path_join_def) (simp add: lit_def)

lemma demo_inspection: "inspect_worktree demo_env demo_worktree present = (Inr demo_state, present)"
proof -
  have fields: "wt_status demo_worktree = WtActive" "wt_canonical_path demo_worktree = lit ''/m/p/t''"
    by (simp_all add: demo_worktree_def)
  show ?thesis
    unfolding inspect_worktree_def
    by (simp add: fields demo_verified demo_runs demo_state_def)
qed


lemma demo_fields:
  "wt_status demo_worktree = WtActive" "wt_canonical_path demo_worktree = lit ''/m/p/t''"
  "\<not> wt_is_root_checkout demo_worktree" "wt_branch demo_worktree = Some (lit ''work'')"
  "pj_canonical_repository_path demo_project = lit ''/r''"
  by (simp_all add: demo_worktree_def demo_project_def)

lemma demo_repository: "canonical_registered_path demo_env (lit ''/r'') present = Inr (Path True [lit ''r''])"
  by (simp add: canonical_registered_path_def demo_canonical mapped_err_def demo_texts)




definition demo_token :: str where
  "demo_token = state_token demo_env (WorktreeId 2) (lit ''/m/p/t'') (replicate 40 97) (Some (lit ''work'')) []"

lemma demo_state_simps:
  "gs_clean demo_state" "gs_branch demo_state = Some (lit ''work'')"
  "gs_removal_confirmation_token demo_state = Some demo_token" "gs_head_commit demo_state = replicate 40 97"
  by (simp_all add: demo_state_def status_state_simps demo_token_def demo_worktree_def)





theorem token_pins_the_state_witness: "demo_state = demo_state \<and> gs_clean demo_state"
proof -
  have "inj_on (ge_sha256 demo_env) (Collect all_bytes)"
    "\<forall>xs. all_bytes xs \<longrightarrow> all_bytes (ge_sha256 demo_env xs)"
    by (simp_all add: demo_env_def)
  then show ?thesis
    using token_pins_the_state [OF demo_inspection [of True] demo_inspection [of False], of demo_token]
    by (simp add: demo_state_simps)
qed

theorem inspection_is_accepted_witness:
  "gs_worktree_id demo_state = WorktreeId 2 \<and> blocking_sample_valid (gs_blocking_paths demo_state)"
  using inspection_is_accepted [OF demo_reads demo_inspection [of True]] by (simp add: demo_worktree_def)

lemma demo_resolved: "resolve_commit demo_env cwd reference operation present = (Inr (replicate 40 97), present)"
proof -
  have "ge_run demo_env cwd (map Arg [lit ''rev-parse'', lit ''--verify'', lit ''--end-of-options'', x]) present
      = (Exited True (replicate 40 97) [], present)" for x
    by (simp add: demo_env_def demo_git_def lit_def)
  from demo_run [OF this] show ?thesis
    by (simp add: resolve_commit_def required_git_def run_git_def demo_commit)
qed









lemma demo_repository_root: "verify_repository_root demo_env (Path True [lit ''r'']) present = (Inr (), present)"
proof -
  have "run_git demo_env (Path True [lit ''r'']) [lit ''rev-parse'', lit ''--show-toplevel''] present
    = (Inr \<lparr>go_success = True, go_stdout = lit ''/r'', go_stderr = []\<rparr>, present)"
    unfolding run_git_def
    by (rule demo_run, subst demo_answers, simp add: demo_bytes, simp add: lit_def, simp)
  then show ?thesis
    by (simp add: verify_repository_root_def demo_canonical mapped_err_def demo_values)
qed



lemma demo_lines: "text_lines demo_answer
    = [lit ''ref: refs/heads/main'' @ TAB_HEAD, replicate 40 65 @ TAB_HEAD]"
proof -
  have "10 \<notin> set (lit ''ref: refs/heads/main'' @ TAB_HEAD)" "10 \<notin> set (replicate 40 65 @ TAB_HEAD)"
    by (simp_all add: lit_def TAB_HEAD_def)
  from this [THEN split_on_no_sep]
  have "split_on 10 ((lit ''ref: refs/heads/main'' @ TAB_HEAD) @ 10 # replicate 40 65 @ TAB_HEAD)
    = [lit ''ref: refs/heads/main'' @ TAB_HEAD, replicate 40 65 @ TAB_HEAD]"
    by (simp only: split_on_append_sep append.simps)
  then show ?thesis
    by (simp add: demo_answer_def text_lines_def strip_cr_def strip_suffix_def strip_prefix_def TAB_HEAD_def lit_def)
qed

lemma demo_ascii: "list_all (\<lambda>c. c < 0x80) demo_answer"
  by (simp add: demo_answer_def list_all_iff lit_def TAB_HEAD_def)

lemma demo_head: "parse_remote_default_head demo_answer = Inr (lit ''main'', replicate 40 97)"
proof -
  have "from_utf8 demo_answer = Some demo_answer" using demo_ascii by (rule from_utf8_ascii)
  moreover have "symref_branch (lit ''ref: refs/heads/main'' @ TAB_HEAD) = Some (lit ''main'')"
    by (simp add: symref_branch_def strip_prefix_def strip_suffix_def lit_def TAB_HEAD_def)
  moreover have "advertised_commit (lit ''ref: refs/heads/main'' @ TAB_HEAD) = None"
    by (simp add: advertised_commit_def strip_prefix_def strip_suffix_def lit_def TAB_HEAD_def
        is_ascii_hexdigit_def is_ascii_digit_def utf8_width_def)
  moreover have "byte_len (replicate 40 65) = 40"
    by (subst byte_len_ascii) (simp_all add: list_all_iff)
  then have "advertised_commit (replicate 40 65 @ TAB_HEAD) = Some (replicate 40 65)"
    by (simp add: advertised_commit_def strip_prefix_def strip_suffix_def TAB_HEAD_def lit_def
        is_ascii_hexdigit_def list_all_iff)
  moreover have "validate_branch_name (lit ''main'') = Inr ()"
    by (simp add: validate_branch_name_def lit_def starts_with_def is_control_def utf8_width_def)
  ultimately show ?thesis
    unfolding parse_remote_default_head_def
    by (simp add: demo_lines ascii_lowercase_def ascii_lower_def is_ascii_uppercase_def)
qed

lemma demo_remote_git:
  assumes "lit ''remove'' \<notin> set rest" "lit ''add'' \<notin> set rest"
  shows "run_remote_git demo_env cwd hooks rest present = (Inr demo_answer, present)"
proof -
  let ?a = "[Arg (lit ''-c''), Arg (lit ''protocol.allow=never'')]
      @ concat (map (\<lambda>p. [Arg (lit ''-c''), Arg (lit ''protocol.'' @ p @ lit ''.allow=always'')]) REMOTE_PROTOCOLS)
      @ map Arg rest"
  have "ge_run demo_env cwd (Arg (lit ''-c'') # HooksArg hooks # ?a) present = (Exited True demo_answer [], present)"
    using assms by (simp add: demo_env_def demo_git_def REMOTE_PROTOCOLS_def image_iff lit_def)
  moreover have "length demo_answer \<le> 65536" by (simp add: demo_answer_def lit_def TAB_HEAD_def)
  ultimately have "run_git_os demo_env cwd (Arg (lit ''-c'') # HooksArg hooks # ?a) present
      = (Inr \<lparr>go_success = True, go_stdout = demo_answer, go_stderr = []\<rparr>, present)"
    by (intro demo_run) simp_all
  then show ?thesis by (simp add: run_remote_git_def run_git_mutation_def)
qed

definition demo_base :: resolved_base where
  "demo_base = \<lparr>rb_reference = lit ''origin'' @ lit ''/'' @ lit ''main'', rb_commit = replicate 40 97,
     rb_selection = LatestDefaultBranch (Some (GitRemoteName (lit ''origin'')))\<rparr>"

lemma demo_remote: "select_base_remote demo_env cwd None present = (Inr (GitRemoteName (lit ''origin'')), present)"
proof -
  have "ge_run demo_env cwd (map Arg [lit ''remote'']) present = (Exited True (lit ''origin'') [], present)"
    by (simp add: demo_env_def demo_git_def lit_def)
  then have "run_git demo_env cwd [lit ''remote''] present
      = (Inr \<lparr>go_success = True, go_stdout = lit ''origin'', go_stderr = []\<rparr>, present)"
    unfolding run_git_def by (intro demo_run) (simp_all add: lit_def)
  moreover have "text_lines (lit ''origin'') = [lit ''origin'']"
    by (simp add: text_lines_def lit_def)
  moreover have "git_remote_name_new (lit ''origin'') = Inr (GitRemoteName (lit ''origin''))"
    by (simp add: git_remote_name_new_def validated_new_def validate_remote_name_def lit_def starts_with_def ends_with_def
        is_segment_char_def char_class_defs utf8_width_def MAX_GIT_REMOTE_NAME_LENGTH_def)
  ultimately show ?thesis
    by (simp add: select_base_remote_def required_git_def demo_outputs choose_remote_def)
qed

lemma demo_resolution: "resolve_worktree_base demo_env demo_project demo_root (LatestDefaultBranch None) True
    = (Inr demo_base, True)"
proof -
  have root: "verify_repository_root demo_env (Path True [lit ''r'']) True = (Inr (), True)"
    by (rule demo_repository_root)
  have free: "lit ''remove'' \<notin> set [lit ''ls-remote'', lit ''--symref'', lit ''--'', lit ''origin'', lit ''HEAD'']"
    "lit ''add'' \<notin> set [lit ''ls-remote'', lit ''--symref'', lit ''--'', lit ''origin'', lit ''HEAD'']"
    "lit ''remove'' \<notin> set [lit ''fetch'', lit ''--no-tags'', lit ''--no-recurse-submodules'', lit ''--no-write-fetch-head'',
       lit ''--'', lit ''origin'', lit ''+refs/heads/'' @ lit ''main'' @ lit '':'' @ remote_branch (lit ''origin'') (lit ''main'')]"
    "lit ''add'' \<notin> set [lit ''fetch'', lit ''--no-tags'', lit ''--no-recurse-submodules'', lit ''--no-write-fetch-head'',
       lit ''--'', lit ''origin'', lit ''+refs/heads/'' @ lit ''main'' @ lit '':'' @ remote_branch (lit ''origin'') (lit ''main'')]"
    by (simp_all add: lit_def)
  show ?thesis
    unfolding resolve_worktree_base_def resolve_default_base_def
    by (simp add: demo_fields demo_repository root demo_remote demo_remote_git [OF free(1,2)] demo_head
        demo_remote_git [OF free(3,4)] demo_resolved demo_base_def)
qed

theorem default_base_is_pinned_witness:
  "rb_commit demo_base = replicate 40 97 \<and> (\<exists>remote branch.
      validate_remote_name (remote_name_str remote) = Inr (remote_name_str remote)
      \<and> rb_selection demo_base = LatestDefaultBranch (Some remote)
      \<and> rb_reference demo_base = remote_name_str remote @ lit ''/'' @ branch
      \<and> validate_branch_name branch = Inr ())"
  using default_base_is_pinned [OF demo_resolution] by (simp add: demo_base_def) blast

end
