(* ===== verification/Change_Properties.thy ===== *)
theory Change_Properties
  imports Change_Diff
begin

text \<open>
  Parsed patches: rows show every line once and in order on each side, texts are bounded and free
  of control characters, and line numbers count without gaps inside a hunk.
\<close>

section \<open>Rows\<close>

definition lefts :: "(nat option \<times> nat option) list \<Rightarrow> nat list" where
  "lefts rows = List.map_filter fst rows"

definition rights :: "(nat option \<times> nat option) list \<Rightarrow> nat list" where
  "rights rows = List.map_filter snd rows"

lemma columns_simps [simp]:
  "lefts [] = []" "rights [] = []"
  "lefts (r # rows) = (case fst r of None \<Rightarrow> lefts rows | Some i \<Rightarrow> i # lefts rows)"
  "rights (r # rows) = (case snd r of None \<Rightarrow> rights rows | Some i \<Rightarrow> i # rights rows)"
  "lefts (rows @ rows') = lefts rows @ lefts rows'" "rights (rows @ rows') = rights rows @ rights rows'"
  by (simp_all add: lefts_def rights_def List.map_filter_def split: option.split)

lemma map_filter_get_at:
  assumes "length xs \<le> n"
  shows "List.map_filter (get_at xs) [0..<n] = xs"
proof -
  have "[0..<n] = [0..<length xs] @ [length xs..<n]" using assms by (metis le_add_diff_inverse plus_nat.add_0 upt_add_eq_append zero_le)
  moreover have "filter (\<lambda>i. get_at xs i \<noteq> None) [0..<length xs] = [0..<length xs]"
    "filter (\<lambda>i. get_at xs i \<noteq> None) [length xs..<n] = []"
    by (auto simp: get_at_def filter_empty_conv intro!: filter_True)
  moreover have "map (the \<circ> get_at xs) [0..<length xs] = map (nth xs) [0..<length xs]"
    by (rule map_cong) (simp_all add: get_at_def)
  ultimately show ?thesis by (simp add: List.map_filter_def map_nth)
qed

lemma pair_rows_columns [simp]: "lefts (pair_rows l r) = l" "rights (pair_rows l r) = r"
proof -
  have "lefts (map (\<lambda>n. (f n, g n)) ns) = List.map_filter f ns" "rights (map (\<lambda>n. (f n, g n)) ns) = List.map_filter g ns"
    for f g :: "nat \<Rightarrow> nat option" and ns
    by (simp_all add: lefts_def rights_def List.map_filter_def comp_def filter_map)
  then show "lefts (pair_rows l r) = l" "rights (pair_rows l r) = r"
    by (simp_all add: pair_rows_def map_filter_get_at)
qed

lemma change_block_spec:
  "change_block ls i l r = (j, l', r') \<Longrightarrow> i \<le> length ls \<Longrightarrow>
     i \<le> j \<and> j \<le> length ls \<and> (\<forall>k. i \<le> k \<and> k < j \<longrightarrow> is_change (ch_kind (ls ! k)))
     \<and> l' = l @ filter (\<lambda>k. ch_kind (ls ! k) = Deletion) [i..<j]
     \<and> r' = r @ filter (\<lambda>k. ch_kind (ls ! k) \<noteq> Deletion) [i..<j]"
proof (induction ls i l r rule: change_block.induct)
  case (1 ls i l r)
  show ?case
  proof (cases "i < length ls \<and> is_change (ch_kind (ls ! i))")
    case False
    then show ?thesis using "1.prems" by (auto simp: change_block.simps [of ls i])
  next
    case True
    let ?del = "ch_kind (ls ! i) = Deletion"
    have run: "change_block ls (i + 1) (if ?del then l @ [i] else l) (if ?del then r else r @ [i]) = (j, l', r')"
      using "1.prems"(1) True by (auto simp: change_block.simps [of ls i] split: if_splits)
    have rest: "i + 1 \<le> j \<and> j \<le> length ls \<and> (\<forall>k. i + 1 \<le> k \<and> k < j \<longrightarrow> is_change (ch_kind (ls ! k)))
     \<and> l' = (if ?del then l @ [i] else l) @ filter (\<lambda>k. ch_kind (ls ! k) = Deletion) [i + 1..<j]
     \<and> r' = (if ?del then r else r @ [i]) @ filter (\<lambda>k. ch_kind (ls ! k) \<noteq> Deletion) [i + 1..<j]"
    proof (cases ?del)
      case True
      then show ?thesis using "1.IH"(1) [OF \<open>i < length ls \<and> is_change (ch_kind (ls ! i))\<close> True] run
          \<open>i < length ls \<and> is_change (ch_kind (ls ! i))\<close> by simp
    next
      case False
      then show ?thesis using "1.IH"(2) [OF \<open>i < length ls \<and> is_change (ch_kind (ls ! i))\<close> False] run
          \<open>i < length ls \<and> is_change (ch_kind (ls ! i))\<close> by simp
    qed
    then have "[i..<j] = i # [i + 1..<j]" by (simp add: upt_conv_Cons)
    moreover have "\<forall>k. i \<le> k \<and> k < j \<longrightarrow> is_change (ch_kind (ls ! k))"
      using rest True by (metis Suc_eq_plus1 le_antisym not_less_eq_eq)
    ultimately show ?thesis using rest by auto
  qed
qed

text \<open>A row pairs a line with itself, or a removed with an added line of the same block of changes.\<close>

definition row_aligned :: "change_line list \<Rightarrow> nat option \<times> nat option \<Rightarrow> bool" where
  "row_aligned ls row \<longleftrightarrow>
     (case row of
        (Some i, Some j) \<Rightarrow>
          (if i = j then \<not> is_change (ch_kind (ls ! i))
           else ch_kind (ls ! i) = Deletion \<and> ch_kind (ls ! j) = Addition
                \<and> (\<forall>k. min i j \<le> k \<and> k \<le> max i j \<longrightarrow> is_change (ch_kind (ls ! k))))
      | (Some i, None) \<Rightarrow> ch_kind (ls ! i) = Deletion
      | (None, Some j) \<Rightarrow> ch_kind (ls ! j) = Addition
      | (None, None) \<Rightarrow> False)"

lemma get_at_Some: "get_at xs n = Some x \<Longrightarrow> x \<in> set xs"
  by (auto simp: get_at_def split: if_splits)

lemma pair_rows_aligned:
  assumes "\<forall>k. i \<le> k \<and> k < j \<longrightarrow> is_change (ch_kind (ls ! k))"
    "l = filter (\<lambda>k. ch_kind (ls ! k) = Deletion) [i..<j]" "r = filter (\<lambda>k. ch_kind (ls ! k) \<noteq> Deletion) [i..<j]"
  shows "list_all (row_aligned ls) (pair_rows l r)"
proof -
  have "row_aligned ls (get_at l n, get_at r n)" if n: "n < max (length l) (length r)" for n
  proof (cases "get_at l n"; cases "get_at r n")
    assume "get_at l n = None" "get_at r n = None"
    then show ?thesis using n by (auto simp: get_at_def split: if_splits)
  next
    fix b assume "get_at l n = None" "get_at r n = Some b"
    then show ?thesis using get_at_Some [of r n b] assms by (auto simp: row_aligned_def is_change_def)
  next
    fix a assume "get_at l n = Some a" "get_at r n = None"
    then show ?thesis using get_at_Some [of l n a] assms by (auto simp: row_aligned_def)
  next
    fix a b assume ab: "get_at l n = Some a" "get_at r n = Some b"
    then have "i \<le> a" "a < j" "ch_kind (ls ! a) = Deletion" "i \<le> b" "b < j" "ch_kind (ls ! b) \<noteq> Deletion"
      using get_at_Some [of l n a] get_at_Some [of r n b] assms(2,3) by auto
    moreover from this have "ch_kind (ls ! b) = Addition" using assms(1) by (auto simp: is_change_def)
    ultimately show ?thesis using ab assms(1) by (auto simp: row_aligned_def min_def max_def split: if_splits)
  qed
  then show ?thesis by (auto simp: pair_rows_def list_all_iff)
qed

lemma split_rows_from_spec:
  "i \<le> length ls \<Longrightarrow>
     lefts (split_rows_from ls i) = filter (\<lambda>k. ch_kind (ls ! k) \<noteq> Addition) [i..<length ls]
     \<and> rights (split_rows_from ls i) = filter (\<lambda>k. ch_kind (ls ! k) \<noteq> Deletion) [i..<length ls]
     \<and> list_all (row_aligned ls) (split_rows_from ls i)"
proof (induction ls i rule: split_rows_from.induct)
  case (1 ls i)
  show ?case
  proof (cases "i < length ls")
    case False
    then have "split_rows_from ls i = []" by (subst split_rows_from.simps) simp
    then show ?thesis using False "1.prems" by simp
  next
    case True
    show ?thesis
    proof (cases "is_change (ch_kind (ls ! i))")
      case False
      have "[i..<length ls] = i # [i + 1..<length ls]" using True by (simp add: upt_conv_Cons)
      then show ?thesis using "1.IH"(2) [OF True False] True False
        by (auto simp: split_rows_from.simps [of ls i] is_change_def row_aligned_def)
    next
      case change: True
      obtain j l r where block: "change_block ls i [] [] = (j, l, r)" by (cases "change_block ls i [] []")
      from change_block_spec [OF block] True have j: "i \<le> j" "j \<le> length ls"
        "\<forall>k. i \<le> k \<and> k < j \<longrightarrow> is_change (ch_kind (ls ! k))"
        "l = filter (\<lambda>k. ch_kind (ls ! k) = Deletion) [i..<j]" "r = filter (\<lambda>k. ch_kind (ls ! k) \<noteq> Deletion) [i..<j]"
        by auto
      have split: "[i..<length ls] = [i..<j] @ [j..<length ls]" using j(1,2) by (metis le_add_diff_inverse upt_add_eq_append)
      have left: "l = filter (\<lambda>k. ch_kind (ls ! k) \<noteq> Addition) [i..<j]"
        unfolding j(4) using j(3) by (intro filter_cong) (auto simp: is_change_def)
      note rest = "1.IH"(1) [OF True change block [symmetric] refl j(2)]
      show ?thesis using rest pair_rows_aligned [OF j(3-5)] True change
        by (simp add: split_rows_from.simps [of ls i] block split left [symmetric] j(5) [symmetric])
    qed
  qed
qed

text \<open>C36: The rows of a side-by-side review show every line exactly once and in order: the left column
  is all lines but the added ones, the right column all lines but the removed ones, an unchanged line
  stands beside itself, and a removed line stands beside an added one only inside one block of
  changes.\<close>

theorem split_rows_exact:
  "lefts (split_rows f) = filter (\<lambda>i. ch_kind (fc_lines f ! i) \<noteq> Addition) [0..<length (fc_lines f)]
   \<and> rights (split_rows f) = filter (\<lambda>i. ch_kind (fc_lines f ! i) \<noteq> Deletion) [0..<length (fc_lines f)]
   \<and> list_all (row_aligned (fc_lines f)) (split_rows f)"
  unfolding split_rows_def by (rule split_rows_from_spec) simp

section \<open>Bounds of a parsed patch\<close>

definition printable :: "str \<Rightarrow> bool" where
  "printable s \<longleftrightarrow> list_all (\<lambda>c. \<not> is_control c \<or> c = 9) s"

lemma hex_digits_printable: "list_all (\<lambda>c. \<not> is_control c) (hex_digits n)"
proof (induction n rule: hex_digits.induct)
  case (1 n)
  then show ?case by (subst hex_digits.simps) (auto simp: Let_def is_control_def)
qed

lemma escape_printable: "list_all (\<lambda>c. \<not> is_control c) (escape_control c)"
  using hex_digits_printable [of c] by (simp add: escape_control_def) (simp add: is_control_def)

lemma safe_text_printable: "printable (safe_text s)"
  using escape_printable by (fastforce simp: printable_def safe_text_def list_all_iff)

lemma fitting_prefix_printable: "printable s \<Longrightarrow> printable (fitting_prefix n s)"
  using set_fitting_prefix [of n s] by (auto simp: printable_def list_all_iff)

lemma bounded_text_facts:
  assumes "bounded_text raw budget = (body, clipped)"
  shows "byte_len body \<le> MAX_LINE_BYTES" "byte_len body \<le> budget" "printable body"
  using assms fitting_prefix_bound [of "min MAX_LINE_BYTES budget" "safe_text (fitting_prefix MAX_LINE_BYTES raw)"]
    fitting_prefix_printable [OF safe_text_printable]
  by (auto simp: bounded_text_def Let_def)

definition text_bytes :: "change_line list \<Rightarrow> nat" where
  "text_bytes ls = sum_list (map (\<lambda>l. byte_len (ch_text l)) ls)"

definition patch_bounded :: "patch_state \<Rightarrow> bool" where
  "patch_bounded st \<longleftrightarrow>
     length (pt_lines st) \<le> MAX_DIFF_LINES
     \<and> text_bytes (pt_lines st) + pt_budget st \<le> MAX_FILE_BYTES
     \<and> list_all (\<lambda>l. byte_len (ch_text l) \<le> MAX_LINE_BYTES \<and> printable (ch_text l)) (pt_lines st)"

lemma line_role_keeps:
  "line_role raw st = (k, st') \<Longrightarrow> pt_lines st' = pt_lines st \<and> pt_budget st' = pt_budget st"
  by (auto simp: line_role_def Let_def split: if_splits)

lemma number_line_keeps:
  "number_line k st = (ns, st') \<Longrightarrow> pt_lines st' = pt_lines st \<and> pt_budget st' = pt_budget st"
  by (auto simp: number_line_def split: if_splits diff_line_kind.splits)

text \<open>One step of the loop: either it ends with the lines it had, or it adds one line.\<close>

lemma patch_line_cases:
  assumes "patch_line l st = res"
  obtains (ended) st' where "res = Inl st'" "pt_lines st' = pt_lines st"
  | (added) kind st1 old new st2 body clipped st' where
      "res = Inr st'" "length (pt_lines st) \<noteq> MAX_DIFF_LINES" "line_role (strip_cr l) st = (kind, st1)"
      "number_line kind st1 = ((old, new), st2)" "bounded_text (strip_cr l) (pt_budget st) = (body, clipped)"
      "pt_lines st' = pt_lines st @ [\<lparr>ch_kind = kind, ch_text = body, ch_old = old, ch_new = new\<rparr>]"
      "pt_budget st' = pt_budget st - byte_len body" "pt_old st' = pt_old st2" "pt_new st' = pt_new st2"
      "pt_in_hunk st' = pt_in_hunk st2"
proof (cases "length (pt_lines st) = MAX_DIFF_LINES")
  case True
  then show ?thesis using assms ended [of "st\<lparr>pt_truncated := True\<rparr>"] by (simp add: patch_line_def)
next
  case False
  obtain kind st1 where role: "line_role (strip_cr l) st = (kind, st1)" by force
  obtain old new st2 where num: "number_line kind st1 = ((old, new), st2)" by (metis prod.collapse)
  have keep: "pt_lines st2 = pt_lines st" "pt_budget st2 = pt_budget st"
    using line_role_keeps [OF role] number_line_keeps [OF num] by simp_all
  obtain body clipped where body: "bounded_text (strip_cr l) (pt_budget st) = (body, clipped)" by force
  let ?t = "if clipped then st2\<lparr>pt_truncated := True\<rparr> else st2"
  have res: "res = (if pt_budget st = 0 then Inl (?t\<lparr>pt_truncated := True\<rparr>)
      else Inr (?t\<lparr>pt_budget := pt_budget st - byte_len body,
          pt_lines := pt_lines st @ [\<lparr>ch_kind = kind, ch_text = body, ch_old = old, ch_new = new\<rparr>]\<rparr>))"
    using assms False role num body keep by (cases clipped) (auto simp: patch_line_def Let_def)
  show ?thesis
  proof (cases "pt_budget st = 0")
    case True
    then show ?thesis using res keep ended [of "?t\<lparr>pt_truncated := True\<rparr>"] by simp
  next
    case pos: False
    show ?thesis
      by (rule added [OF _ False role num body, of "?t\<lparr>pt_budget := pt_budget st - byte_len body,
          pt_lines := pt_lines st @ [\<lparr>ch_kind = kind, ch_text = body, ch_old = old, ch_new = new\<rparr>]\<rparr>"])
        (use res pos in simp_all)
  qed
qed

lemma patch_loop_induct:
  assumes "P (pt_lines st) (pt_budget st) (pt_old st) (pt_new st) (pt_in_hunk st)"
    and "\<And>l st st'. P (pt_lines st) (pt_budget st) (pt_old st) (pt_new st) (pt_in_hunk st) \<Longrightarrow> patch_line l st = Inr st'
           \<Longrightarrow> P (pt_lines st') (pt_budget st') (pt_old st') (pt_new st') (pt_in_hunk st')"
  shows "\<exists>b o' n h. P (pt_lines (patch_loop ls st)) b o' n h"
  using assms(1)
proof (induction ls arbitrary: st)
  case (Cons l ls)
  show ?case
  proof (cases "patch_line l st")
    case (Inl st')
    from patch_line_cases [OF Inl] have "pt_lines st' = pt_lines st" by cases auto
    then show ?thesis using Cons.prems Inl by auto
  next
    case (Inr st')
    then show ?thesis using Cons.IH [OF assms(2) [OF Cons.prems Inr]] by simp
  qed
qed auto


definition patch_start :: "bool \<Rightarrow> patch_state" where
  "patch_start truncated = \<lparr>pt_lines = [], pt_additions = 0, pt_deletions = 0, pt_truncated = truncated,
     pt_old = 0, pt_new = 0, pt_in_hunk = False, pt_budget = MAX_FILE_BYTES\<rparr>"

lemma from_patch_lines: "fc_lines (from_patch w k p t) = pt_lines (patch_loop (split_terminator 10 p) (patch_start t))"
  by (simp add: from_patch_def patch_start_def Let_def)

text \<open>C37: Parsing a patch is bounded and safe to print, whatever the patch: at most 4000 lines, at most
  8 KiB per line and 256 KiB altogether, and no control character but the tab, so that no text of a
  repository reaches a terminal as an escape sequence.\<close>

theorem parsed_patch_is_bounded:
  "length (fc_lines (from_patch w k p t)) \<le> 4000
   \<and> text_bytes (fc_lines (from_patch w k p t)) \<le> 256 * 1024
   \<and> list_all (\<lambda>l. byte_len (ch_text l) \<le> 8 * 1024 \<and> printable (ch_text l)) (fc_lines (from_patch w k p t))"
proof -
  let ?P = "\<lambda>ls b (_::u32) (_::u32) (_::bool). length ls \<le> MAX_DIFF_LINES \<and> text_bytes ls + b \<le> MAX_FILE_BYTES
     \<and> list_all (\<lambda>l. byte_len (ch_text l) \<le> MAX_LINE_BYTES \<and> printable (ch_text l)) ls"
  have "\<exists>b o' n h. ?P (pt_lines (patch_loop ls (patch_start t))) b o' n h" for ls
  proof (rule patch_loop_induct)
    show "?P (pt_lines (patch_start t)) (pt_budget (patch_start t)) (pt_old (patch_start t)) (pt_new (patch_start t)) (pt_in_hunk (patch_start t))"
      by (simp add: patch_start_def text_bytes_def)
  next
    fix l st st'
    assume inv: "?P (pt_lines st) (pt_budget st) (pt_old st) (pt_new st) (pt_in_hunk st)" and step: "patch_line l st = Inr st'"
    from step show "?P (pt_lines st') (pt_budget st') (pt_old st') (pt_new st') (pt_in_hunk st')"
    proof (cases rule: patch_line_cases)
      case (added kind st1 old new st2 body clipped st'')
      then show ?thesis using inv bounded_text_facts [OF added(5)] by (simp add: text_bytes_def)
    qed simp
  qed
  from this [of "split_terminator 10 p"] show ?thesis
    by (auto simp: from_patch_lines MAX_DIFF_LINES_def MAX_FILE_BYTES_def MAX_LINE_BYTES_def)
qed

section \<open>Line numbers\<close>

definition news :: "change_line list \<Rightarrow> u32 list" where "news ls = List.map_filter ch_new ls"
definition olds :: "change_line list \<Rightarrow> u32 list" where "olds ls = List.map_filter ch_old ls"

text \<open>The \<open>m\<close> numbers before \<open>e\<close>, wrapping around.\<close>

definition counting_to :: "u32 \<Rightarrow> nat \<Rightarrow> u32 list" where
  "counting_to e m = map (\<lambda>n. e - of_nat m + of_nat n) [0..<m]"

definition header_free :: "change_line list \<Rightarrow> bool" where
  "header_free ls \<longleftrightarrow> list_all (\<lambda>l. ch_kind l \<noteq> HunkHeader) ls"

lemma counting_to_Suc: "counting_to (e + 1) (Suc m) = counting_to e m @ [e]"
  by (simp add: counting_to_def)

definition numbers_end :: "change_line list \<Rightarrow> u32 \<Rightarrow> u32 \<Rightarrow> bool" where
  "numbers_end ls o' n \<longleftrightarrow>
     (\<forall>pre seg. ls = pre @ seg \<longrightarrow> header_free seg \<longrightarrow>
        olds seg = counting_to o' (length (olds seg)) \<and> news seg = counting_to n (length (news seg)))"

definition consecutive :: "u32 list \<Rightarrow> bool" where
  "consecutive ns \<longleftrightarrow> (\<exists>e. ns = counting_to e (length ns))"

definition numbers_run :: "change_line list \<Rightarrow> bool" where
  "numbers_run ls \<longleftrightarrow>
     (\<forall>pre seg post. ls = pre @ seg @ post \<longrightarrow> header_free seg \<longrightarrow> consecutive (olds seg) \<and> consecutive (news seg))"

lemma numbers_append [simp]:
  "news (ls @ [l]) = news ls @ (case ch_new l of None \<Rightarrow> [] | Some n \<Rightarrow> [n])"
  "olds (ls @ [l]) = olds ls @ (case ch_old l of None \<Rightarrow> [] | Some n \<Rightarrow> [n])"
  "header_free (ls @ [l]) \<longleftrightarrow> header_free ls \<and> ch_kind l \<noteq> HunkHeader"
  "news [] = []" "olds [] = []" "header_free []"
  by (auto simp: news_def olds_def header_free_def List.map_filter_def split: option.split)

lemma numbers_end_snoc:
  assumes "ch_kind l \<noteq> HunkHeader \<Longrightarrow> numbers_end ls o1 n1"
    and "ch_kind l \<noteq> HunkHeader \<Longrightarrow> (case ch_old l of None \<Rightarrow> o' = o1 | Some x \<Rightarrow> x = o1 \<and> o' = o1 + 1)
      \<and> (case ch_new l of None \<Rightarrow> n = n1 | Some x \<Rightarrow> x = n1 \<and> n = n1 + 1)"
  shows "numbers_end (ls @ [l]) o' n"
  unfolding numbers_end_def
proof (intro allI impI)
  fix pre seg
  assume split: "ls @ [l] = pre @ seg" and free: "header_free seg"
  show "olds seg = counting_to o' (length (olds seg)) \<and> news seg = counting_to n (length (news seg))"
  proof (cases seg rule: rev_cases)
    case Nil
    then show ?thesis by (simp add: counting_to_def)
  next
    case (snoc seg' x)
    then have x: "x = l" "ls = pre @ seg'" using split by auto
    then have kind: "ch_kind l \<noteq> HunkHeader" and free': "header_free seg'" using free snoc by auto
    have "olds seg' = counting_to o1 (length (olds seg'))" "news seg' = counting_to n1 (length (news seg'))"
      using assms(1) [OF kind] x(2) free' unfolding numbers_end_def by blast+
    then show ?thesis using assms(2) [OF kind] counting_to_Suc [of o1 "length (olds seg')"] counting_to_Suc [of n1 "length (news seg')"]
      by (auto simp: snoc x(1) split: option.splits)
  qed
qed

lemma numbers_run_snoc:
  assumes "numbers_run ls" "numbers_end (ls @ [l]) o' n"
  shows "numbers_run (ls @ [l])"
  unfolding numbers_run_def
proof (intro allI impI)
  fix pre seg post
  assume split: "ls @ [l] = pre @ seg @ post" and free: "header_free seg"
  show "consecutive (olds seg) \<and> consecutive (news seg)"
  proof (cases post rule: rev_cases)
    case Nil
    then show ?thesis using assms(2) split free unfolding numbers_end_def consecutive_def by auto
  next
    case (snoc post' x)
    then have "ls = pre @ seg @ post'" using split by auto
    then show ?thesis using assms(1) free unfolding numbers_run_def by blast
  qed
qed

lemma strip_cr_prefix:
  assumes "starts_with p s" "13 \<notin> set p"
  shows "starts_with p (strip_cr s)"
proof -
  obtain v where s: "s = p @ v" using assms(1) by (auto simp: starts_with_iff)
  show ?thesis
  proof (cases "strip_suffix [13] s")
    case (Some u)
    then have u: "p @ v = u @ [13]" using s by (simp add: strip_suffix_Some)
    then obtain v' where "v = v' @ [13]" using assms(2) by (cases v rule: rev_cases) auto
    then have "u = p @ v'" using u by simp
    then show ?thesis using Some by (simp add: strip_cr_def)
  qed (simp add: strip_cr_def s)
qed

lemma hunk_header_kind:
  assumes "starts_with [64, 64, 32] raw"
  shows "classify_line (strip_cr raw) = HunkHeader"
proof -
  obtain rest where raw: "raw = 64 # 64 # 32 # rest" using assms by (auto simp: starts_with_iff)
  have "starts_with [64, 64, 32] (strip_cr raw)" by (rule strip_cr_prefix [OF assms]) simp
  then show ?thesis by (auto simp: classify_line_def starts_with_iff lit_def)
qed

lemma role_numbers:
  assumes "line_role raw st = (kind, st1)" "number_line kind st1 = ((old, new), st2)" "kind \<noteq> HunkHeader"
  shows "(case old of None \<Rightarrow> pt_old st2 = pt_old st | Some x \<Rightarrow> x = pt_old st \<and> pt_old st2 = pt_old st + 1)
      \<and> (case new of None \<Rightarrow> pt_new st2 = pt_new st | Some x \<Rightarrow> x = pt_new st \<and> pt_new st2 = pt_new st + 1)"
proof -
  have "\<not> starts_with [64, 64, 32] raw"
    using assms(1,3) hunk_header_kind [of raw] by (auto simp: line_role_def Let_def)
  then have "pt_old st1 = pt_old st" "pt_new st1 = pt_new st"
    using assms(1) by (auto simp: line_role_def Let_def split: if_splits)
  then show ?thesis using assms(2) by (auto simp: number_line_def split: if_splits diff_line_kind.splits)
qed

text \<open>Line numbers count without gaps: among consecutive lines of a parsed patch with no hunk header
  between them, the line numbers shown on the old side are consecutive, and so are those on the new
  side (modulo the width of the counters), whatever lines without a number stand between.\<close>

theorem line_numbers_are_consecutive:
  "numbers_run (fc_lines (from_patch w k p t))"
proof -
  let ?P = "\<lambda>ls (_::nat) o' n (_::bool). numbers_run ls \<and> numbers_end ls o' n"
  have "\<exists>b o' n h. ?P (pt_lines (patch_loop ls (patch_start t))) b o' n h" for ls
  proof (rule patch_loop_induct)
    show "?P (pt_lines (patch_start t)) (pt_budget (patch_start t)) (pt_old (patch_start t)) (pt_new (patch_start t)) (pt_in_hunk (patch_start t))"
      by (simp add: patch_start_def numbers_run_def numbers_end_def counting_to_def consecutive_def)
  next
    fix l st st'
    assume inv: "?P (pt_lines st) (pt_budget st) (pt_old st) (pt_new st) (pt_in_hunk st)" and step: "patch_line l st = Inr st'"
    from step show "?P (pt_lines st') (pt_budget st') (pt_old st') (pt_new st') (pt_in_hunk st')"
    proof (cases rule: patch_line_cases)
      case (added kind st1 old new st2 body clipped st'')
      have "numbers_end (pt_lines st') (pt_old st') (pt_new st')"
        using added inv role_numbers [OF added(3,4)]
        by (auto intro!: numbers_end_snoc [of _ _ "pt_old st" "pt_new st"])
      then show ?thesis using numbers_run_snoc inv added(1,6) by auto
    qed simp
  qed
  then show ?thesis by (auto simp: from_patch_lines)
qed

end
