(* ===== verification/Change_Review.thy ===== *)
theory Change_Review
  imports Change_Properties
begin

text \<open>
  The review of local changes in the clients: the state every client keeps
  (\<open>ReviewState\<close> of \<open>sylvops-core/src/changes.rs\<close>), and the pane of the terminal user interface that
  drives it with keys and with the answers of the daemon (\<open>sylvops-tui/src/changes.rs\<close>). The rendering
  of a path, lower case and the syntax tokens are parameters.
\<close>

section \<open>The shared state\<close>

datatype change_status =
    Modified | Added | Deleted | Renamed | Copied | TypeChanged | Conflicted | UntrackedFile

record changed_file =
  cf_key :: change_key
  cf_status :: change_status
  cf_old_path :: "nat list option"

record checkout_changes =
  cc_worktree :: uuid
  cc_files :: "changed_file list"
  cc_truncated :: bool

record 't review_state =
  rv_checkout :: "uuid option"
  rv_files :: "changed_file list"
  rv_selected :: "change_key option"
  rv_file :: "file_change option"
  rv_syntax :: "'t list list"
  rv_filter :: str
  rv_search :: str
  rv_collapsed :: "change_group \<Rightarrow> bool"
  rv_paused :: bool
  rv_split :: bool
  rv_detail :: bool
  rv_file_focus :: bool
  rv_scroll :: nat
  rv_horizontal :: nat
  rv_truncated :: bool
  rv_error :: "str option"
  rv_generation :: u64
  rv_updated :: bool

definition review_default :: "'t review_state" where
  "review_default =
     \<lparr>rv_checkout = None, rv_files = [], rv_selected = None, rv_file = None, rv_syntax = [], rv_filter = [],
      rv_search = [], rv_collapsed = (\<lambda>_. False), rv_paused = False, rv_split = False, rv_detail = False,
      rv_file_focus = False, rv_scroll = 0, rv_horizontal = 0, rv_truncated = False, rv_error = None,
      rv_generation = 0, rv_updated = False\<rparr>"

text \<open>The display of a path and lower case.\<close>

record review_text =
  rx_display :: "nat list \<Rightarrow> str"
  rx_lower :: "str \<Rightarrow> str"

definition review_enter :: "uuid \<Rightarrow> 't review_state \<Rightarrow> 't review_state" where
  "review_enter checkout s =
     (if rv_checkout s \<noteq> Some checkout
      then review_default\<lparr>rv_checkout := Some checkout, rv_generation := rv_generation s + 1, rv_file_focus := True\<rparr>
      else s)"

definition review_visible :: "review_text \<Rightarrow> 't review_state \<Rightarrow> changed_file list" where
  "review_visible x s =
     (let query = rx_lower x (rv_filter s)
      in filter (\<lambda>f. \<not> rv_collapsed s (ck_group (cf_key f))
                     \<and> contains query (rx_lower x (rx_display x (ck_path (cf_key f))))) (rv_files s))"

definition review_select :: "change_key option \<Rightarrow> 't review_state \<Rightarrow> 't review_state" where
  "review_select key s =
     (if rv_selected s \<noteq> key
      then s\<lparr>rv_selected := key, rv_file := None, rv_syntax := [], rv_scroll := 0, rv_horizontal := 0,
             rv_generation := rv_generation s + 1\<rparr>
      else s)"

fun position :: "('a \<Rightarrow> bool) \<Rightarrow> 'a list \<Rightarrow> nat option" where
  "position p [] = None"
| "position p (x # xs) = (if p x then Some 0 else map_option Suc (position p xs))"

definition selected_position :: "review_text \<Rightarrow> 't review_state \<Rightarrow> nat" where
  "selected_position x s =
     (case position (\<lambda>f. Some (cf_key f) = rv_selected s) (review_visible x s) of None \<Rightarrow> 0 | Some i \<Rightarrow> i)"

definition review_apply_list :: "review_text \<Rightarrow> checkout_changes \<Rightarrow> 't review_state \<Rightarrow> 't review_state" where
  "review_apply_list x l s =
     (if Some (cc_worktree l) \<noteq> rv_checkout s then s
      else
        let pos = selected_position x s;
            s = s\<lparr>rv_files := cc_files l, rv_truncated := cc_truncated l\<rparr>;
            files = review_visible x s;
            s = (if \<not> list_ex (\<lambda>f. Some (cf_key f) = rv_selected s) files
                 then review_select (map_option cf_key (get_at files (min pos (length files - 1)))) s
                 else s)
        in s\<lparr>rv_error := None\<rparr>)"

text \<open>\<open>saturating_add_signed\<close>; the results below are bounded from above by the length of a list.\<close>

definition add_signed :: "nat \<Rightarrow> int \<Rightarrow> nat" where
  "add_signed n d = nat (int n + d)"

definition review_move_file :: "review_text \<Rightarrow> int \<Rightarrow> 't review_state \<Rightarrow> 't review_state" where
  "review_move_file x delta s =
     (let files = review_visible x s;
          next_index = min (add_signed (selected_position x s) delta) (length files - 1)
      in review_select (map_option cf_key (get_at files next_index)) s)"

text \<open>The distance of a line from the anchor: on the new side when both have a number there, else on the
  old side.\<close>

definition number_distance :: "u32 option \<Rightarrow> u32 option \<Rightarrow> nat option" where
  "number_distance a b = (case (a, b) of
       (Some m, Some n) \<Rightarrow> Some (if unat m \<le> unat n then unat n - unat m else unat m - unat n)
     | _ \<Rightarrow> None)"

definition anchor_distance :: "u32 option \<times> u32 option \<Rightarrow> change_line \<Rightarrow> nat option" where
  "anchor_distance anchor l =
     (case number_distance (snd anchor) (ch_new l) of
        Some d \<Rightarrow> Some d | None \<Rightarrow> number_distance (fst anchor) (ch_old l))"

text \<open>\<open>min()\<close> of the pairs of distance and index: the first of the nearest lines.\<close>

fun nearest :: "(change_line \<Rightarrow> nat option) \<Rightarrow> nat \<Rightarrow> change_line list \<Rightarrow> (nat \<times> nat) option" where
  "nearest dist i [] = None"
| "nearest dist i (l # ls) =
     (case (dist l, nearest dist (i + 1) ls) of
        (None, best) \<Rightarrow> best
      | (Some d, None) \<Rightarrow> Some (d, i)
      | (Some d, Some (d', j)) \<Rightarrow> if d \<le> d' then Some (d, i) else Some (d', j))"

definition review_apply_prepared :: "file_change \<Rightarrow> 't list list \<Rightarrow> 't review_state \<Rightarrow> 't review_state" where
  "review_apply_prepared f syntax s =
     (if Some (fc_worktree f) \<noteq> rv_checkout s \<or> Some (fc_key f) \<noteq> rv_selected s then s
      else
        let anchor = map_option (\<lambda>l. (ch_old l, ch_new l))
                       (Option.bind (rv_file s) (\<lambda>old. get_at (fc_lines old) (rv_scroll s)));
            updated = (case rv_file s of None \<Rightarrow> False | Some old \<Rightarrow> old \<noteq> f);
            shown = (if rv_file s \<noteq> Some f then syntax else rv_syntax s);
            scroll = (case anchor of None \<Rightarrow> rv_scroll s
                      | Some a \<Rightarrow> (case nearest (anchor_distance a) 0 (fc_lines f) of
                                     None \<Rightarrow> rv_scroll s | Some (_, i) \<Rightarrow> i))
        in s\<lparr>rv_updated := updated, rv_syntax := shown, rv_scroll := min scroll (length (fc_lines f) - 1),
             rv_file := Some f, rv_error := None\<rparr>)"

definition positions_of :: "(change_line \<Rightarrow> bool) \<Rightarrow> 't review_state \<Rightarrow> nat list" where
  "positions_of p s =
     (case rv_file s of None \<Rightarrow> [] | Some f \<Rightarrow> filter (\<lambda>i. p (fc_lines f ! i)) [0..<length (fc_lines f)])"

definition review_matches :: "review_text \<Rightarrow> 't review_state \<Rightarrow> nat list" where
  "review_matches x s =
     (if rv_search s = [] then []
      else let needle = rx_lower x (rv_search s)
           in positions_of (\<lambda>l. contains needle (rx_lower x (ch_text l))) s)"

definition or_else :: "'a option \<Rightarrow> 'a option \<Rightarrow> 'a option" where
  "or_else a b = (case a of None \<Rightarrow> b | Some _ \<Rightarrow> a)"

definition first_of :: "'a list \<Rightarrow> 'a option" where
  "first_of xs = (case xs of [] \<Rightarrow> None | y # _ \<Rightarrow> Some y)"

definition review_jump :: "review_text \<Rightarrow> bool \<Rightarrow> bool \<Rightarrow> 't review_state \<Rightarrow> 't review_state" where
  "review_jump x forward search s =
     (let positions = (if search then review_matches x s else positions_of (\<lambda>l. ch_kind l = HunkHeader) s);
          target = (if forward
                    then or_else (find (\<lambda>i. i > rv_scroll s) positions) (first_of positions)
                    else or_else (find (\<lambda>i. i < rv_scroll s) (rev positions)) (first_of (rev positions)))
      in case target of None \<Rightarrow> s | Some i \<Rightarrow> s\<lparr>rv_scroll := i\<rparr>)"

section \<open>The pane of the terminal user interface\<close>

datatype focus_zone = ExplorerFocus | MainFocus

text \<open>A request in flight: its checkout, the generation it was made in, and whether it asks for a
  file.\<close>

record pending_request =
  pr_checkout :: uuid
  pr_generation :: u64
  pr_file :: bool

record 't review_pane =
  rp_focus :: focus_zone
  rp_state :: "'t review_state"
  rp_pending :: "pending_request option"
  rp_last_refresh :: "nat option"
  rp_refresh :: bool
  rp_load_file :: bool
  rp_editing :: "bool option"
  rp_updated_at :: "nat option"
  rp_discard :: bool

definition pane_default :: "'t review_pane" where
  "pane_default =
     \<lparr>rp_focus = ExplorerFocus, rp_state = review_default, rp_pending = None, rp_last_refresh = None,
      rp_refresh = False, rp_load_file = False, rp_editing = None, rp_updated_at = None, rp_discard = False\<rparr>"

datatype review_action =
    Move int | SelectIndex nat | OpenFile | Back | Pane | Pause | Refresh | Filter | Search
  | Character nat | Erase | Finish | Jump bool bool | Horizontal int | Group change_group | Wheel int bool

definition last_line :: "'t review_state \<Rightarrow> nat" where
  "last_line s = (case rv_file s of None \<Rightarrow> 0 | Some f \<Rightarrow> length (fc_lines f) - 1)"

definition scroll_by :: "int \<Rightarrow> 't review_state \<Rightarrow> 't review_state" where
  "scroll_by delta s = s\<lparr>rv_scroll := min (add_signed (rv_scroll s) delta) (last_line s)\<rparr>"

text \<open>\<open>String::pop\<close> and the guarded \<open>push\<close>.\<close>

definition pushed :: "nat \<Rightarrow> str \<Rightarrow> str" where
  "pushed c v = (if byte_len v < 256 \<and> \<not> is_control c then v @ [c] else v)"

definition edit_text :: "bool \<Rightarrow> (str \<Rightarrow> str) \<Rightarrow> 't review_state \<Rightarrow> 't review_state" where
  "edit_text search f s =
     (if search then s\<lparr>rv_search := f (rv_search s)\<rparr> else s\<lparr>rv_filter := f (rv_filter s)\<rparr>)"

definition review_move :: "review_text \<Rightarrow> int \<Rightarrow> 't review_pane \<Rightarrow> 't review_pane" where
  "review_move x delta p =
     (if rv_file_focus (rp_state p)
      then p\<lparr>rp_state := review_move_file x delta (rp_state p), rp_load_file := True\<rparr>
      else p\<lparr>rp_state := scroll_by delta (rp_state p)\<rparr>)"

fun review_act :: "review_text \<Rightarrow> review_action \<Rightarrow> 't review_pane \<Rightarrow> 't review_pane" where
  "review_act x (Wheel delta files) p =
     review_move x delta (p\<lparr>rp_state := (rp_state p)\<lparr>rv_file_focus := files\<rparr>\<rparr>)"
| "review_act x (Move delta) p = review_move x delta p"
| "review_act x (SelectIndex i) p =
     (let s = review_select (map_option cf_key (get_at (review_visible x (rp_state p)) i)) (rp_state p)
      in p\<lparr>rp_state := s\<lparr>rv_detail := True, rv_file_focus := False\<rparr>, rp_load_file := True, rp_focus := MainFocus\<rparr>)"
| "review_act x OpenFile p =
     p\<lparr>rp_state := (rp_state p)\<lparr>rv_detail := True, rv_file_focus := False\<rparr>, rp_load_file := True\<rparr>"
| "review_act x Back p =
     (if rv_detail (rp_state p)
      then p\<lparr>rp_state := (rp_state p)\<lparr>rv_detail := False, rv_file_focus := True\<rparr>\<rparr>
      else p\<lparr>rp_focus := ExplorerFocus\<rparr>)"
| "review_act x Pane p =
     (let s = rp_state p in
      if rv_file_focus s then p\<lparr>rp_state := s\<lparr>rv_file_focus := False, rv_detail := True\<rparr>\<rparr>
      else p\<lparr>rp_state := s\<lparr>rv_file_focus := True, rv_detail := False\<rparr>\<rparr>)"
| "review_act x Pause p =
     (let s = rp_state p in
      if rv_paused s then p\<lparr>rp_state := s\<lparr>rv_paused := False\<rparr>, rp_discard := False, rp_refresh := True\<rparr>
      else p\<lparr>rp_state := s\<lparr>rv_paused := True\<rparr>, rp_discard := rp_pending p \<noteq> None, rp_load_file := False\<rparr>)"
| "review_act x Refresh p = p\<lparr>rp_discard := False, rp_refresh := True\<rparr>"
| "review_act x Filter p = p\<lparr>rp_editing := Some False\<rparr>"
| "review_act x Search p = p\<lparr>rp_editing := Some True\<rparr>"
| "review_act x (Character c) p =
     (case rp_editing p of None \<Rightarrow> p
      | Some search \<Rightarrow> p\<lparr>rp_state := edit_text search (pushed c) (rp_state p)\<rparr>)"
| "review_act x Erase p =
     (case rp_editing p of None \<Rightarrow> p
      | Some search \<Rightarrow> p\<lparr>rp_state := edit_text search butlast (rp_state p)\<rparr>)"
| "review_act x Finish p =
     (let p = (if rp_editing p = Some False
               then p\<lparr>rp_state := review_select (map_option cf_key (first_of (review_visible x (rp_state p)))) (rp_state p),
                      rp_load_file := True\<rparr>
               else p)
      in p\<lparr>rp_editing := None\<rparr>)"
| "review_act x (Jump forward search) p =
     p\<lparr>rp_state := (review_jump x forward search (rp_state p))\<lparr>rv_file_focus := False, rv_detail := True\<rparr>\<rparr>"
| "review_act x (Horizontal delta) p =
     p\<lparr>rp_state := (rp_state p)\<lparr>rv_horizontal := min (add_signed (rv_horizontal (rp_state p)) delta) 8192\<rparr>\<rparr>"
| "review_act x (Group g) p =
     p\<lparr>rp_state := (rp_state p)\<lparr>rv_collapsed := (rv_collapsed (rp_state p))(g := \<not> rv_collapsed (rp_state p) g)\<rparr>\<rparr>"

text \<open>\<open>update\<close> moves the focus to the main area first.\<close>

definition review_update :: "review_text \<Rightarrow> review_action \<Rightarrow> 't review_pane \<Rightarrow> 't review_pane" where
  "review_update x a p = review_act x a (p\<lparr>rp_focus := MainFocus\<rparr>)"

subsection \<open>The request cycle\<close>

datatype 't review_reply =
    ListReply checkout_changes | FileReply file_change "'t list list" | ErrorReply str | OtherReply

datatype review_query = LoadFileChange uuid change_key | ListCheckoutChanges uuid

definition list_retry :: str where
  "list_retry = lit ''Cannot refresh changes. Check daemon health and press R to retry.''"

text \<open>The settled answer of a pending request.\<close>

definition settle_reply ::
    "review_text \<Rightarrow> nat \<Rightarrow> uuid option \<Rightarrow> pending_request \<Rightarrow> 't review_reply \<Rightarrow> 't review_pane \<Rightarrow> 't review_pane" where
  "settle_reply x now selected q reply p =
     (let s = rp_state p in
      if Some (pr_checkout q) = rv_checkout s \<and> rv_generation s = pr_generation q
         \<and> selected = Some (pr_checkout q)
      then (case reply of
              ListReply l \<Rightarrow>
                (if \<not> pr_file q then p\<lparr>rp_state := review_apply_list x l s, rp_load_file := True\<rparr>
                 else p\<lparr>rp_state := s\<lparr>rv_error := Some list_retry\<rparr>\<rparr>)
            | FileReply f syntax \<Rightarrow>
                (if pr_file q
                 then let s = review_apply_prepared f syntax s
                      in p\<lparr>rp_state := s, rp_updated_at := (if rv_updated s then Some now else rp_updated_at p)\<rparr>
                 else p\<lparr>rp_state := s\<lparr>rv_error := Some list_retry\<rparr>\<rparr>)
            | ErrorReply m \<Rightarrow>
                p\<lparr>rp_state := s\<lparr>rv_error := Some (take 512 (filter (\<lambda>c. \<not> is_control c) m))\<rparr>\<rparr>
            | OtherReply \<Rightarrow> p\<lparr>rp_state := s\<lparr>rv_error := Some list_retry\<rparr>\<rparr>)
      else p\<lparr>rp_load_file := True\<rparr>)"

text \<open>What is asked next: the selected file when one is to be loaded, else the list when it is due.\<close>

definition next_request :: "nat \<Rightarrow> uuid \<Rightarrow> 't review_pane \<Rightarrow> (bool \<times> review_query) option \<times> 't review_pane" where
  "next_request now worktree p =
     (if rp_load_file p
      then (map_option (\<lambda>k. (True, LoadFileChange worktree k)) (rv_selected (rp_state p)), p\<lparr>rp_load_file := False\<rparr>)
      else if rp_refresh p
           \<or> \<not> rv_paused (rp_state p)
              \<and> (case rp_last_refresh p of None \<Rightarrow> True | Some t \<Rightarrow> now - t \<ge> 2000)
      then (Some (False, ListCheckoutChanges worktree), p\<lparr>rp_refresh := False, rp_last_refresh := Some now\<rparr>)
      else (None, p))"

text \<open>\<open>poll\<close>: \<open>visible\<close> is the Changes tab in navigation, \<open>reply\<close> what the pending request has answered
  by now. The result tells whether to redraw and which request was sent. It first enters a newly
  selected checkout, then settles the answer, then sends the next request when none is pending.\<close>

definition enters_checkout :: "bool \<Rightarrow> uuid option \<Rightarrow> 't review_pane \<Rightarrow> bool" where
  "enters_checkout visible selected p \<longleftrightarrow>
     visible \<and> selected \<noteq> None \<and> rv_checkout (rp_state p) \<noteq> selected"

definition enter_selected :: "bool \<Rightarrow> uuid option \<Rightarrow> 't review_pane \<Rightarrow> 't review_pane" where
  "enter_selected visible selected p =
     (if enters_checkout visible selected p
      then p\<lparr>rp_state := review_enter (the selected) (rp_state p), rp_refresh := True\<rparr> else p)"

definition send_next ::
    "nat \<Rightarrow> bool \<Rightarrow> uuid option \<Rightarrow> bool \<Rightarrow> 't review_pane \<Rightarrow> bool \<times> review_query option \<times> 't review_pane" where
  "send_next now visible selected dirty p =
     (case selected of
        Some w \<Rightarrow>
          (if visible \<and> rp_pending p = None then
             (case next_request now w p of
                (Some (file, q), p) \<Rightarrow>
                  (True, Some q, p\<lparr>rp_pending := Some \<lparr>pr_checkout = w,
                     pr_generation = rv_generation (rp_state p), pr_file = file\<rparr>\<rparr>)
              | (None, p) \<Rightarrow> (dirty, None, p))
           else (dirty, None, p))
      | None \<Rightarrow> (dirty, None, p))"

definition review_poll ::
    "review_text \<Rightarrow> nat \<Rightarrow> bool \<Rightarrow> uuid option \<Rightarrow> 't review_reply option \<Rightarrow> 't review_pane
       \<Rightarrow> bool \<times> review_query option \<times> 't review_pane" where
  "review_poll x now visible selected reply p =
     (let entered = enter_selected visible selected p in
      case (rp_pending entered, reply) of
        (Some q, Some r) \<Rightarrow>
          (let p = entered\<lparr>rp_pending := None\<rparr> in
           if rp_discard p then (True, None, p\<lparr>rp_discard := False\<rparr>)
           else send_next now visible selected True (settle_reply x now selected q r p))
      | _ \<Rightarrow> send_next now visible selected (enters_checkout visible selected p) entered)"

section \<open>The review shows the selection\<close>

definition review_inv :: "'t review_state \<Rightarrow> bool" where
  "review_inv s \<longleftrightarrow>
     pred_option (\<lambda>f. rv_checkout s = Some (fc_worktree f) \<and> rv_selected s = Some (fc_key f)) (rv_file s)
     \<and> rv_scroll s \<le> last_line s \<and> rv_horizontal s \<le> 8192
     \<and> byte_len (rv_filter s) < 260 \<and> byte_len (rv_search s) < 260"

lemma review_inv_default [simp]: "review_inv review_default"
  by (simp add: review_inv_def review_default_def last_line_def)

lemma enter_inv: "review_inv s \<Longrightarrow> review_inv (review_enter w s)"
  by (auto simp: review_inv_def review_enter_def review_default_def last_line_def)

lemma select_inv: "review_inv s \<Longrightarrow> review_inv (review_select k s)"
  by (auto simp: review_inv_def review_select_def last_line_def)

lemma select_inv_iff_files: "review_inv (s\<lparr>rv_files := fs, rv_truncated := b\<rparr>) = review_inv s"
  by (simp add: review_inv_def last_line_def)

lemma review_inv_presentation [simp]:
  "review_inv (s\<lparr>rv_error := e\<rparr>) = review_inv s" "review_inv (s\<lparr>rv_detail := b\<rparr>) = review_inv s"
  "review_inv (s\<lparr>rv_file_focus := b\<rparr>) = review_inv s" "review_inv (s\<lparr>rv_paused := b\<rparr>) = review_inv s"
  "review_inv (s\<lparr>rv_collapsed := c\<rparr>) = review_inv s"
  by (simp_all add: review_inv_def last_line_def)

lemma apply_list_inv: "review_inv s \<Longrightarrow> review_inv (review_apply_list x l s)"
  by (simp add: review_apply_list_def Let_def select_inv select_inv_iff_files)

lemma apply_prepared_inv: "review_inv s \<Longrightarrow> review_inv (review_apply_prepared f syn s)"
  by (auto simp: review_apply_prepared_def Let_def review_inv_def last_line_def)

lemma move_file_inv: "review_inv s \<Longrightarrow> review_inv (review_move_file x d s)"
  by (simp add: review_move_file_def Let_def select_inv)

lemma scroll_inv: "review_inv s \<Longrightarrow> review_inv (scroll_by d s)"
  by (simp add: scroll_by_def review_inv_def last_line_def)

lemma positions_bound: "i \<in> set (positions_of q s) \<Longrightarrow> i \<le> last_line s"
  by (auto simp: positions_of_def last_line_def split: option.splits)

lemma or_else_Some: "or_else a b = Some i \<Longrightarrow> a = Some i \<or> b = Some i"
  by (auto simp: or_else_def split: option.splits)

lemma first_of_in: "first_of xs = Some i \<Longrightarrow> i \<in> set xs"
  by (auto simp: first_of_def split: list.splits)

lemma find_in: "find q xs = Some i \<Longrightarrow> i \<in> set xs"
  by (auto simp: find_Some_iff)

lemma jump_inv: "review_inv s \<Longrightarrow> review_inv (review_jump x forward search s)"
proof -
  assume inv: "review_inv s"
  have set_scroll: "review_inv (s\<lparr>rv_scroll := i\<rparr>)" if "i \<le> last_line s" for i
    using inv that by (simp add: review_inv_def last_line_def)
  have bound: "i \<le> last_line s" if "i \<in> set (if search then review_matches x s else positions_of (\<lambda>l. ch_kind l = HunkHeader) s)" for i
    using that positions_bound by (auto simp: review_matches_def Let_def split: if_splits)
  show ?thesis
    using inv set_scroll bound
    by (auto simp: review_jump_def Let_def split: option.split dest!: or_else_Some dest: first_of_in find_in)
qed

lemma pushed_bound: "byte_len v < 260 \<Longrightarrow> byte_len (pushed c v) < 260"
  using utf8_width_bounds(2) [of c] by (simp add: pushed_def)

lemma byte_len_butlast: "byte_len (butlast v) \<le> byte_len v"
  by (cases v rule: rev_cases) simp_all

lemma edit_inv:
  assumes "review_inv s" "\<And>v. byte_len v < 260 \<Longrightarrow> byte_len (f v) < 260"
  shows "review_inv (edit_text search f s)"
  using assms by (simp add: review_inv_def edit_text_def last_line_def)

lemma review_move_inv: "review_inv (rp_state p) \<Longrightarrow> review_inv (rp_state (review_move x d p))"
  by (simp add: review_move_def move_file_inv scroll_inv)

lemma act_inv:
  assumes "review_inv (rp_state p)"
  shows "review_inv (rp_state (review_act x a p))"
proof (cases a)
  case (Horizontal d)
  then show ?thesis using assms by (simp add: review_inv_def last_line_def)
next
  case (Character c)
  then show ?thesis using assms by (auto simp: edit_inv pushed_bound split: option.split)
next
  case Erase
  have "byte_len (butlast v) < 260" if "byte_len v < 260" for v using byte_len_butlast [of v] that by simp
  then show ?thesis using assms Erase by (auto simp: edit_inv split: option.split)
qed (use assms in \<open>simp_all add: Let_def review_move_inv select_inv jump_inv\<close>)

lemma settle_inv: "review_inv (rp_state p) \<Longrightarrow> review_inv (rp_state (settle_reply x now sel q r p))"
  by (auto simp: settle_reply_def Let_def apply_list_inv apply_prepared_inv split: review_reply.split)

lemma next_request_state: "next_request now w p = (q, p') \<Longrightarrow> rp_state p' = rp_state p"
  by (auto simp: next_request_def split: if_splits)

lemma send_next_state: "rp_state (snd (snd (send_next now v sel d p))) = rp_state p"
  by (auto simp: send_next_def dest: next_request_state split: option.split prod.split)

lemma poll_inv:
  assumes "review_inv (rp_state p)"
  shows "review_inv (rp_state (snd (snd (review_poll x now v sel r p))))"
proof -
  let ?e = "enter_selected v sel p"
  have entered: "review_inv (rp_state ?e)" using assms by (simp add: enter_selected_def enter_inv)
  show ?thesis
  proof (cases "rp_pending ?e"; cases r)
    fix q reply assume "rp_pending ?e = Some q" "r = Some reply"
    then show ?thesis using entered settle_inv [of "?e\<lparr>rp_pending := None\<rparr>"]
      by (simp add: review_poll_def Let_def send_next_state)
  qed (use entered in \<open>simp_all add: review_poll_def Let_def send_next_state\<close>)
qed

datatype 't review_input =
    UserAction review_action
  | Poll nat bool "uuid option" "'t review_reply option"

fun review_step :: "review_text \<Rightarrow> 't review_pane \<Rightarrow> 't review_input \<Rightarrow> 't review_pane" where
  "review_step x p (UserAction a) = review_update x a p"
| "review_step x p (Poll now v sel r) = snd (snd (review_poll x now v sel r p))"

interpretation reviews: step_invariant "review_step x" "\<lambda>p. review_inv (rp_state p)" for x
proof unfold_locales
  fix p :: "'a review_pane" and i :: "'a review_input"
  assume inv: "review_inv (rp_state p)"
  show "review_inv (rp_state (review_step x p i))"
  proof (cases i)
    case (UserAction a)
    then show ?thesis using inv act_inv [of "p\<lparr>rp_focus := MainFocus\<rparr>"] by (simp add: review_update_def)
  next
    case (Poll now v sel r)
    then show ?thesis using poll_inv [OF inv] by simp
  qed
qed

text \<open>C38: The review never shows a file that is not selected. After any sequence of keys, wheel
  movements and polls, whatever the daemon answers and in whatever order relative to the keys: a shown
  file belongs to the current checkout and is the selected one, the scroll position is a line of it, the
  horizontal position stays within its limit, and the filter and the search text stay bounded.\<close>

theorem review_shows_the_selection:
  "review_inv (rp_state (foldl (review_step x) pane_default inputs))"
  using reviews.run_inv [of pane_default x inputs] by (simp add: pane_default_def)

text \<open>A refreshed list keeps the selection while it is visible and moves it to a visible file
  otherwise: when a list for the current checkout is applied, the selected file is afterwards among the
  visible files, or nothing is visible and nothing selected; the shown file, the scroll position and the
  generation change only if the selection had to move.\<close>

theorem refreshed_list_keeps_the_selection:
  assumes "rv_checkout s = Some (cc_worktree l)"
  shows "(let s' = review_apply_list x l s in
     (if review_visible x s' = [] then rv_selected s' = None
      else list_ex (\<lambda>f. Some (cf_key f) = rv_selected s') (review_visible x s'))
     \<and> (rv_selected s' = rv_selected s \<longrightarrow>
          rv_file s' = rv_file s \<and> rv_scroll s' = rv_scroll s \<and> rv_generation s' = rv_generation s)
     \<and> (rv_selected s' \<noteq> rv_selected s \<longrightarrow> rv_file s' = None \<and> rv_scroll s' = 0 \<and> rv_generation s' = rv_generation s + 1))"
proof -
  let ?t = "s\<lparr>rv_files := cc_files l, rv_truncated := cc_truncated l\<rparr>"
  let ?files = "review_visible x ?t"
  let ?key = "map_option cf_key (get_at ?files (min (selected_position x s) (length ?files - 1)))"
  have visible: "review_visible x (review_select k t) = review_visible x t"
    "review_visible x (t\<lparr>rv_error := None\<rparr>) = review_visible x t" for k t
    by (simp_all add: review_visible_def review_select_def)
  have moved: "rv_selected (review_select k t) = k"
    "rv_file (review_select k t) = (if rv_selected t = k then rv_file t else None)"
    "rv_scroll (review_select k t) = (if rv_selected t = k then rv_scroll t else 0)"
    "rv_generation (review_select k t) = (if rv_selected t = k then rv_generation t else rv_generation t + 1)" for k t
    by (simp_all add: review_select_def)
  show ?thesis
  proof (cases "list_ex (\<lambda>f. Some (cf_key f) = rv_selected s) ?files")
    case True
    then have "?files \<noteq> []" by auto
    then show ?thesis using assms True by (simp add: review_apply_list_def Let_def visible)
  next
    case False
    have applied: "review_apply_list x l s = (review_select ?key ?t)\<lparr>rv_error := None\<rparr>"
      using assms False by (simp add: review_apply_list_def Let_def)
    show ?thesis
    proof (cases "?files = []")
      case True
      then have "?key = None" by (simp add: get_at_def)
      then show ?thesis using True by (simp add: applied visible moved)
    next
      case some: False
      let ?i = "min (selected_position x s) (length ?files - 1)"
      have i: "?i < length ?files" using some by (cases ?files) auto
      then have key: "?key = Some (cf_key (?files ! ?i))" by (simp add: get_at_def)
      have there: "list_ex (\<lambda>f. Some (cf_key f) = Some (cf_key (?files ! ?i))) ?files"
        using i by (auto simp: list_ex_iff)
      have "list_ex (\<lambda>f. Some (cf_key f) = ?key) ?files" unfolding key by (rule there)
      moreover have "rv_selected s \<noteq> ?key"
      proof
        assume "rv_selected s = ?key"
        then have "rv_selected s = Some (cf_key (?files ! ?i))" using key by (rule trans)
        then show False using False there by simp
      qed
      ultimately show ?thesis using some by (simp add: applied visible moved)
    qed
  qed
qed


theorem refreshed_list_keeps_the_selection_witness:
  "(let s' = review_apply_list \<lparr>rx_display = id, rx_lower = id\<rparr>
       \<lparr>cc_worktree = 7, cc_files = [\<lparr>cf_key = \<lparr>ck_group = Unstaged, ck_path = [97]\<rparr>, cf_status = Modified, cf_old_path = None\<rparr>],
        cc_truncated = False\<rparr> (review_enter 7 review_default :: unit review_state)
    in rv_selected s' = Some \<lparr>ck_group = Unstaged, ck_path = [97]\<rparr> \<and> rv_generation s' = 2)"
proof -
  let ?x = "\<lparr>rx_display = id, rx_lower = id\<rparr>"
  let ?k = "\<lparr>ck_group = Unstaged, ck_path = [97]\<rparr>"
  let ?l = "\<lparr>cc_worktree = 7, cc_files = [\<lparr>cf_key = ?k, cf_status = Modified, cf_old_path = None\<rparr>], cc_truncated = False\<rparr>"
  let ?s = "review_enter 7 review_default :: unit review_state"
  have s: "rv_checkout ?s = Some 7" "rv_selected ?s = None" "rv_generation ?s = 1"
    by (simp_all add: review_enter_def review_default_def)
  have vis: "review_visible ?x (review_apply_list ?x ?l ?s) = cc_files ?l"
    by (simp add: review_apply_list_def review_visible_def review_select_def review_enter_def review_default_def
        get_at_def selected_position_def Let_def)
  have "rv_checkout ?s = Some (cc_worktree ?l)" using s(1) by simp
  note props = refreshed_list_keeps_the_selection [OF this, of ?x, unfolded Let_def]
  define r where "r = review_apply_list ?x ?l ?s"
  have "rv_selected r = Some ?k" using props vis unfolding r_def [symmetric] by simp
  then show ?thesis using props s(2,3) unfolding r_def [symmetric] Let_def by simp
qed

end
