(* ===== verification/Git_Changes.thy ===== *)
theory Git_Changes
  imports Git_Worktrees Change_Review "HOL-Library.Product_Lexorder"
begin

text \<open>
  The local changes of a checkout as the daemon reads them (\<open>sylvops-daemon/src/git/changes.rs\<close>): the
  bounded capture of Git's output, the parsing of the status records into a list of changed files, and
  the loading of one file's change. The kinds of file system nodes, the opening of an untracked file
  below the checkout without following links, and Git are parameters.
\<close>

definition STATUS_LIMIT :: nat where "STATUS_LIMIT = 4 * 1024 * 1024"
definition MAX_CHANGE_FILES :: nat where "MAX_CHANGE_FILES = 2000"
definition PATH_BUDGET :: nat where "PATH_BUDGET = 96 * 1024"

section \<open>The environment\<close>

datatype node_kind = NodeMissing | NodeUnreadable | NodeLink | NodeFile | NodeDirectory | NodeSpecial

datatype capture_run =
    CaptureNotLaunched | CaptureReadFailed | CaptureWaitFailed | CaptureTimedOut
  | Captured bool "nat list list"

record 'w review_env =
  vn_git :: "'w git_env"
  vn_node :: "path \<Rightarrow> 'w \<Rightarrow> node_kind"
  vn_capture :: "path \<Rightarrow> git_arg list \<Rightarrow> 'w \<Rightarrow> capture_run \<times> 'w"
  vn_read_file :: "path \<Rightarrow> path \<Rightarrow> 'w \<Rightarrow> nat list option"

text \<open>The loop over the chunks the pipe delivers.\<close>

fun capture_loop :: "nat \<Rightarrow> nat list list \<Rightarrow> nat list \<times> bool \<Rightarrow> nat list \<times> bool" where
  "capture_loop limit [] (out, truncated) = (out, truncated)"
| "capture_loop limit (chunk # chunks) (out, truncated) =
     (let retained = min (length chunk) (limit - length out) in
      capture_loop limit chunks (out @ take retained chunk, truncated \<or> retained < length chunk))"

definition capture :: "'w review_env \<Rightarrow> path \<Rightarrow> git_arg list \<Rightarrow> nat \<Rightarrow> ('w, nat list \<times> bool) git_op" where
  "capture env root arguments limit w =
     (case vn_capture env root arguments w of (run, w') \<Rightarrow>
        (case run of
           CaptureNotLaunched \<Rightarrow> git_fail (lit ''cannot launch Git review'')
         | CaptureReadFailed \<Rightarrow> git_fail (lit ''cannot read Git review'')
         | CaptureWaitFailed \<Rightarrow> git_fail (lit ''Git review failed'')
         | CaptureTimedOut \<Rightarrow> git_fail (lit ''Git review timed out'')
         | Captured success chunks \<Rightarrow>
             if \<not> success
             then git_fail (lit ''cannot read checkout changes; refresh or check repository health'')
             else Inr (capture_loop limit chunks ([], False)), w'))"

definition review_root :: "'w review_env \<Rightarrow> worktree \<Rightarrow> ('w, path) git_op" where
  "review_root env t w =
     and_then (refuse_if (wt_status t \<noteq> WtActive) (GitError (lit ''checkout is not active'')), w) (\<lambda>_ w.
     and_then (canonical_registered_path (vn_git env) (wt_canonical_path t) w, w) (\<lambda>p w.
     and_then (verify_repository_root (vn_git env) p w) (\<lambda>_ w. (Inr p, w))))"

section \<open>Status\<close>

definition change_status_of :: "nat \<Rightarrow> change_status option" where
  "change_status_of code =
     (if code = chr CHR ''M'' then Some Modified else if code = chr CHR ''A'' then Some Added
      else if code = chr CHR ''D'' then Some Deleted else if code = chr CHR ''R'' then Some Renamed
      else if code = chr CHR ''C'' then Some Copied else if code = chr CHR ''T'' then Some TypeChanged
      else if code = chr CHR ''U'' then Some Conflicted else if code = chr CHR ''?'' then Some UntrackedFile
      else None)"

definition is_conflict :: "nat list \<Rightarrow> bool" where
  "is_conflict r \<longleftrightarrow> chr CHR ''U'' \<in> set (take 2 r) \<or> take 2 r = lit ''AA'' \<or> take 2 r = lit ''DD''"

definition record_groups :: "nat list \<Rightarrow> (change_group \<times> nat) list" where
  "record_groups r =
     (if take 2 r = lit ''??'' then [(Change_Diff.Untracked, chr CHR ''?'')]
      else if is_conflict r then [(Unstaged, chr CHR ''U'')]
      else [(Unstaged, r ! 1), (StagedGroup, r ! 0)])"

record status_scan =
  sc_files :: "changed_file list"
  sc_budget :: nat
  sc_truncated :: bool

fun add_groups :: "nat list \<Rightarrow> nat list option \<Rightarrow> (change_group \<times> nat) list \<Rightarrow> status_scan
    \<Rightarrow> git_error + status_scan" where
  "add_groups p old [] s = Inr s"
| "add_groups p old ((g, code) # groups) s =
     (if code = 32 then add_groups p old groups s
      else case change_status_of code of
        None \<Rightarrow> git_fail (lit ''unknown Git status'')
      | Some status \<Rightarrow>
          (let size = length p + (case old of None \<Rightarrow> 0 | Some o' \<Rightarrow> length o');
               key = \<lparr>ck_group = g, ck_path = p\<rparr> in
           if length (sc_files s) = MAX_CHANGE_FILES \<or> size > sc_budget s
           then add_groups p old groups (s\<lparr>sc_truncated := True\<rparr>)
           else if \<not> change_key_valid key then add_groups p old groups (s\<lparr>sc_truncated := True\<rparr>)
           else add_groups p old groups
                  (s\<lparr>sc_budget := sc_budget s - size,
                     sc_files := sc_files s @ [\<lparr>cf_key = key, cf_status = status,
                       cf_old_path = (if code \<in> {chr CHR ''R'', chr CHR ''C''} then old else None)\<rparr>]\<rparr>)))"

text \<open>The loop over the records; the last record of a cut answer is incomplete and dropped.\<close>

fun scan_status :: "bool \<Rightarrow> nat list list \<Rightarrow> status_scan \<Rightarrow> git_error + status_scan" where
  "scan_status partial [] s = Inr s"
| "scan_status partial (r # rs) s =
     (if r = [] then scan_status partial rs s
      else if length r < 4 \<or> r ! 2 \<noteq> 32 then git_fail (lit ''malformed Git status'')
      else if is_rename r then
        (case rs of
           [] \<Rightarrow> git_fail (lit ''incomplete Git rename'')
         | old # rest \<Rightarrow> if partial \<and> rest = [] then Inr s
             else bind_result (add_groups (drop 3 r) (Some old) (record_groups r) s) (scan_status partial rest))
      else if partial \<and> rs = [] then Inr s
      else bind_result (add_groups (drop 3 r) None (record_groups r) s) (scan_status partial rs))"

fun group_rank :: "change_group \<Rightarrow> nat" where
  "group_rank Unstaged = 0" | "group_rank StagedGroup = 1" | "group_rank Change_Diff.Untracked = 2"

definition file_order :: "changed_file \<Rightarrow> nat \<times> nat list" where
  "file_order f = (group_rank (ck_group (cf_key f)), ck_path (cf_key f))"

definition ends_complete :: "nat list \<Rightarrow> bool" where
  "ends_complete bytes \<longleftrightarrow> bytes \<noteq> [] \<and> last bytes = 0"

definition parse_status :: "worktree_id \<Rightarrow> nat list \<Rightarrow> bool \<Rightarrow> git_error + checkout_changes" where
  "parse_status i bytes truncated =
     (if bytes \<noteq> [] \<and> \<not> ends_complete bytes \<and> \<not> truncated then git_fail (lit ''incomplete Git status'')
      else bind_result (scan_status (\<not> ends_complete bytes \<and> truncated) (split_on 0 bytes)
             \<lparr>sc_files = [], sc_budget = PATH_BUDGET, sc_truncated = truncated\<rparr>) (\<lambda>s.
        Inr \<lparr>cc_worktree = worktree_uuid i, cc_files = sort_key file_order (sc_files s),
             cc_truncated = sc_truncated s\<rparr>))"

definition CHANGES_ARGUMENTS :: "git_arg list" where
  "CHANGES_ARGUMENTS = map Arg [lit ''status'', lit ''--porcelain=v1'', lit ''-z'', lit ''--untracked-files=all'',
     lit ''--ignore-submodules=none'']"

definition list_checkout_changes :: "'w review_env \<Rightarrow> worktree \<Rightarrow> ('w, checkout_changes) git_op" where
  "list_checkout_changes env t w =
     and_then (review_root env t w) (\<lambda>p w.
     and_then (capture env p CHANGES_ARGUMENTS STATUS_LIMIT w) (\<lambda>(bytes, truncated) w.
       (parse_status (wt_id t) bytes truncated, w)))"

section \<open>One file\<close>

definition metadata_only :: "str \<Rightarrow> bool" where
  "metadata_only l \<longleftrightarrow> starts_with (lit ''Binary files '') l
     \<or> list_ex (\<lambda>p. starts_with p l)
         [lit ''old mode '', lit ''new mode '', lit ''new file mode '', lit ''deleted file mode '', lit ''index '']
       \<and> (ends_with (lit ''120000'') l \<or> ends_with (lit ''160000'') l)"

definition relative_path :: "nat list \<Rightarrow> git_error + path" where
  "relative_path bytes =
     (if \<not> change_key_valid \<lparr>ck_group = Change_Diff.Untracked, ck_path = bytes\<rparr>
      then git_fail (lit ''invalid relative path'') else Inr (path_of_bytes bytes))"

text \<open>Descending to the file, one component at a time: \<open>Inl\<close> stops the review with an error or a
  notice, \<open>Inr\<close> is the last path looked at.\<close>

datatype review_stop = StopError git_error | StopNotice str

fun descend :: "'w review_env \<Rightarrow> path \<Rightarrow> nat list list \<Rightarrow> 'w \<Rightarrow> review_stop + path" where
  "descend env current [] w = Inr current"
| "descend env current (part # parts) w =
     (let next_path = path_join current (Path False [part]) in
      case vn_node env next_path w of
        NodeMissing \<Rightarrow> Inr next_path
      | NodeUnreadable \<Rightarrow> Inl (StopError (GitError (lit ''cannot inspect change path'')))
      | NodeLink \<Rightarrow> Inl (StopNotice (lit ''Symlink or special file: text preview unavailable.''))
      | NodeSpecial \<Rightarrow> Inl (StopNotice (lit ''Symlink or special file: text preview unavailable.''))
      | _ \<Rightarrow> descend env next_path parts w)"

definition undecodable :: "nat list \<Rightarrow> bool \<Rightarrow> bool" where
  "undecodable bytes truncated \<longleftrightarrow> 0 \<in> set bytes \<or> from_utf8 bytes = None \<and> \<not> truncated"

definition BINARY_NOTICE :: str where
  "BINARY_NOTICE = lit ''Binary or unsupported text encoding: preview unavailable.''"

definition untracked_patch :: "str \<Rightarrow> str" where
  "untracked_patch s =
     [chr CHR ''@'', chr CHR ''@''] @ lit '' -0,0 +1,'' @ decimal (length (text_lines s)) @ lit '' ''
     @ [chr CHR ''@'', chr CHR ''@'', 10]
     @ concat (map (\<lambda>l. chr CHR ''+'' # l @ [10]) (split_terminator 10 s))
     @ (if s \<noteq> [] \<and> last s \<noteq> 10 then chr (CHR 0x5C) # lit '' No newline at end of file'' @ [10] else [])"

definition untracked_file :: "'w review_env \<Rightarrow> path \<Rightarrow> path \<Rightarrow> uuid \<Rightarrow> change_key \<Rightarrow> 'w \<Rightarrow> git_error + file_change" where
  "untracked_file env root relative i key w =
     (case vn_read_file env root relative w of
        None \<Rightarrow> git_fail (lit ''file unavailable; refresh Changes'')
      | Some content \<Rightarrow>
          (let bytes = take (MAX_FILE_BYTES + 1) content; truncated = length bytes > MAX_FILE_BYTES;
               bytes = take MAX_FILE_BYTES bytes in
           if undecodable bytes truncated then Inr (file_metadata i key BINARY_NOTICE)
           else Inr (from_patch i key (untracked_patch (from_utf8_lossy bytes)) truncated)))"

definition diff_arguments :: "change_group \<Rightarrow> path \<Rightarrow> path option \<Rightarrow> git_arg list" where
  "diff_arguments g relative old =
     map Arg [lit ''--literal-pathspecs'', lit ''diff'', lit ''--no-ext-diff'', lit ''--no-textconv'', lit ''--no-color'',
       lit ''--find-renames=50%'', lit ''--unified=3'']
     @ (if g = StagedGroup then [Arg (lit ''--cached'')] else [])
     @ [Arg (lit ''--''), PathArg relative] @ (case old of None \<Rightarrow> [] | Some p \<Rightarrow> [PathArg p])"

definition tracked_file ::
    "'w review_env \<Rightarrow> path \<Rightarrow> path \<Rightarrow> uuid \<Rightarrow> changed_file \<Rightarrow> ('w, file_change) git_op" where
  "tracked_file env root relative i entry w =
     and_then (case cf_old_path entry of
         None \<Rightarrow> Inr None | Some old \<Rightarrow> bind_result (relative_path old) (\<lambda>p. Inr (Some p)), w) (\<lambda>old w.
     and_then (capture env root (diff_arguments (ck_group (cf_key entry)) relative old) MAX_FILE_BYTES w)
       (\<lambda>(bytes, truncated) w.
       (if undecodable bytes truncated then Inr (file_metadata i (cf_key entry) BINARY_NOTICE)
        else if list_ex metadata_only (text_lines (from_utf8_lossy bytes))
        then Inr (file_metadata i (cf_key entry)
               (lit ''Binary, symlink, or submodule change: text preview unavailable.''))
        else Inr (from_patch i (cf_key entry) (from_utf8_lossy bytes) truncated), w)))"

definition load_file_change :: "'w review_env \<Rightarrow> worktree \<Rightarrow> change_key \<Rightarrow> ('w, file_change) git_op" where
  "load_file_change env t key w =
     (let i = worktree_uuid (wt_id t) in
      and_then (refuse_if (\<not> change_key_valid key) (GitError (lit ''invalid change path'')), w) (\<lambda>_ w.
      and_then (review_root env t w) (\<lambda>root w.
      and_then (list_checkout_changes env t w) (\<lambda>listed w.
      and_then (case find (\<lambda>f. cf_key f = key) (cc_files listed) of
          None \<Rightarrow> git_fail (lit ''file changed or is no longer listed; refresh Changes'') | Some f \<Rightarrow> Inr f, w) (\<lambda>entry w.
      and_then (relative_path (ck_path key), w) (\<lambda>relative w.
        case descend env root (components relative) w of
          Inl (StopError e) \<Rightarrow> (Inl e, w)
        | Inl (StopNotice notice) \<Rightarrow> (Inr (file_metadata i key notice), w)
        | Inr current \<Rightarrow>
            if vn_node env current w = NodeDirectory
            then (Inr (file_metadata i key (lit ''Submodule or directory: text preview unavailable.'')), w)
            else if cf_status entry = Conflicted
            then (Inr (file_metadata i key
                    (lit ''Unresolved merge conflict. Resolve it in your editor before reviewing a regular diff.'')), w)
            else if ck_group key = Change_Diff.Untracked
            then (untracked_file env root relative i key w, w)
            else tracked_file env root relative i entry w))))))"

end
