(* ===== verification/Git_Review.thy ===== *)
theory Git_Review
  imports Git_Changes Git_Properties
begin

text \<open>
  What a listing of local changes shows: captured output is the longest prefix of Git's that fits its
  limit, a listing stays within its bounds, and one that is not marked as truncated leaves nothing out.
\<close>

section \<open>Capture\<close>

lemma capture_loop_take: "length out \<le> limit \<Longrightarrow>
  capture_loop limit chunks (out, truncated)
    = (take limit (out @ concat chunks), truncated \<or> length (out @ concat chunks) > limit)"
proof (induction limit chunks "(out, truncated)" arbitrary: out truncated rule: capture_loop.induct)
  case (2 limit chunk chunks out truncated)
  define retained where "retained = min (length chunk) (limit - length out)"
  have fits: "length (out @ take retained chunk) \<le> limit" using 2(2) by (simp add: retained_def)
  have "capture_loop limit (chunk # chunks) (out, truncated)
    = capture_loop limit chunks (out @ take retained chunk, truncated \<or> retained < length chunk)"
    by (simp add: retained_def Let_def)
  also have "\<dots> = (take limit ((out @ take retained chunk) @ concat chunks),
      (truncated \<or> retained < length chunk) \<or> length ((out @ take retained chunk) @ concat chunks) > limit)"
    by (rule 2(1) [OF retained_def fits])
  also have "\<dots> = (take limit (out @ concat (chunk # chunks)),
      truncated \<or> length (out @ concat (chunk # chunks)) > limit)"
  proof (cases "length chunk \<le> limit - length out")
    case True
    then show ?thesis by (simp add: retained_def)
  next
    case False
    then have "limit < length out + length chunk" "length out \<le> limit" using 2(2) by linarith+
    then show ?thesis by (auto simp: retained_def min_def)
  qed
  finally show ?case .
qed simp

section \<open>Listings\<close>

text \<open>The entries the records of a status answer stand for, without any bound.\<close>

definition group_entries :: "nat list \<Rightarrow> nat list option \<Rightarrow> (change_group \<times> nat) list \<Rightarrow> changed_file list" where
  "group_entries p old gs = List.map_filter (\<lambda>(g, code).
     if code = 32 then None
     else map_option (\<lambda>status. \<lparr>cf_key = \<lparr>ck_group = g, ck_path = p\<rparr>, cf_status = status,
            cf_old_path = (if code \<in> {chr CHR ''R'', chr CHR ''C''} then old else None)\<rparr>)
          (change_status_of code)) gs"

fun listed_entries :: "nat list list \<Rightarrow> changed_file list" where
  "listed_entries [] = []"
| "listed_entries (r # rs) =
     (if r = [] then listed_entries rs
      else if is_rename r then
        (case rs of [] \<Rightarrow> [] | old # rest \<Rightarrow>
           group_entries (drop 3 r) (Some old) (record_groups r) @ listed_entries rest)
      else group_entries (drop 3 r) None (record_groups r) @ listed_entries rs)"

definition path_bytes_total :: "changed_file list \<Rightarrow> nat" where
  "path_bytes_total fs = sum_list (map (\<lambda>f. length (ck_path (cf_key f))) fs)"

definition scan_ok :: "status_scan \<Rightarrow> bool" where
  "scan_ok s \<longleftrightarrow> length (sc_files s) \<le> MAX_CHANGE_FILES \<and> path_bytes_total (sc_files s) + sc_budget s \<le> PATH_BUDGET
     \<and> list_all (\<lambda>f. change_key_valid (cf_key f)) (sc_files s)"

definition scan_added :: "status_scan \<Rightarrow> changed_file list \<Rightarrow> status_scan \<Rightarrow> bool" where
  "scan_added s fs s' \<longleftrightarrow> (scan_ok s \<longrightarrow> scan_ok s')
     \<and> (\<not> sc_truncated s' \<longrightarrow> \<not> sc_truncated s \<and> sc_files s' = sc_files s @ fs)"

lemma scan_added_refl: "scan_added s [] s"
  by (simp add: scan_added_def)

lemma scan_added_trans: "scan_added s fs s' \<Longrightarrow> scan_added s' gs s'' \<Longrightarrow> scan_added s (fs @ gs) s''"
  by (auto simp: scan_added_def)

lemma scan_added_truncated: "scan_added (s\<lparr>sc_truncated := True\<rparr>) fs s' \<Longrightarrow> scan_added s gs s'"
  by (auto simp: scan_added_def scan_ok_def)

lemma scan_added_file:
  assumes "change_key_valid (cf_key f)" "length (ck_path (cf_key f)) \<le> cost" "cost \<le> sc_budget s"
    and "length (sc_files s) \<noteq> MAX_CHANGE_FILES"
  shows "scan_added s [f] (s\<lparr>sc_budget := sc_budget s - cost, sc_files := sc_files s @ [f]\<rparr>)"
  using assms by (auto simp: scan_added_def scan_ok_def path_bytes_total_def)

lemma add_groups_added: "add_groups p old gs s = Inr s' \<Longrightarrow> scan_added s (group_entries p old gs) s'"
proof (induction gs arbitrary: s)
  case Nil
  then show ?case by (simp add: group_entries_def List.map_filter_def scan_added_refl)
next
  case (Cons gc gs)
  obtain g code where gc: "gc = (g, code)" by (cases gc)
  note run = Cons(2) [unfolded gc]
  have "scan_added s (group_entries p old ((g, code) # gs)) s'"
  proof (cases "code = 32")
    case True
    then show ?thesis using Cons(1) run by (simp add: group_entries_def List.map_filter_def)
  next
    case False
    obtain status where status: "change_status_of code = Some status"
      using run False by (auto simp: git_fail_def split: option.splits)
    define cost where "cost = length p + (case old of None \<Rightarrow> 0 | Some o' \<Rightarrow> length o')"
    define f where "f = \<lparr>cf_key = \<lparr>ck_group = g, ck_path = p\<rparr>, cf_status = status,
      cf_old_path = (if code \<in> {chr CHR ''R'', chr CHR ''C''} then old else None)\<rparr>"
    have entries: "group_entries p old ((g, code) # gs) = [f] @ group_entries p old gs"
      using False status by (simp add: group_entries_def List.map_filter_def f_def)
    show ?thesis
    proof (cases "length (sc_files s) = MAX_CHANGE_FILES \<or> cost > sc_budget s \<or> \<not> change_key_valid (cf_key f)")
      case True
      then have "add_groups p old gs (s\<lparr>sc_truncated := True\<rparr>) = Inr s'"
        using run False status by (auto simp: Let_def cost_def f_def split: if_splits)
      then show ?thesis by (rule scan_added_truncated [OF Cons(1)])
    next
      case stays: False
      let ?s = "s\<lparr>sc_budget := sc_budget s - cost, sc_files := sc_files s @ [f]\<rparr>"
      have "add_groups p old gs ?s = Inr s'"
        using run False status stays by (simp add: Let_def cost_def f_def)
      then have "scan_added ?s (group_entries p old gs) s'"
        by (rule Cons(1))
      moreover have "scan_added s [f] ?s"
        by (rule scan_added_file) (use stays in \<open>auto simp: f_def cost_def\<close>)
      ultimately show ?thesis unfolding entries using scan_added_trans by blast
    qed
  qed
  then show ?case by (simp add: gc)
qed

lemma add_groups_truncated: "add_groups p old gs s = Inr s' \<Longrightarrow> sc_truncated s \<Longrightarrow> sc_truncated s'"
  using add_groups_added [of p old gs s s'] by (auto simp: scan_added_def)


text \<open>The ways a run over the records goes on after its first record.\<close>

lemma scan_status_consE:
  assumes "scan_status partial (r # rs) s = Inr s'"
  obtains (empty) "r = []" "scan_status partial rs s = Inr s'"
  | (cut_short) "partial" "s' = s"
  | (rename) old rest s1 where "r \<noteq> []" "is_rename r" "rs = old # rest"
      "add_groups (drop 3 r) (Some old) (record_groups r) s = Inr s1" "scan_status partial rest s1 = Inr s'"
  | (plain) s1 where "r \<noteq> []" "\<not> is_rename r"
      "add_groups (drop 3 r) None (record_groups r) s = Inr s1" "scan_status partial rs s1 = Inr s'"
  using assms by (auto simp only: scan_status.simps git_fail_def bind_result_eq_Inr sum.simps split: if_splits list.splits)

lemma scan_status_added:
  "scan_status partial rs s = Inr s' \<Longrightarrow>
     (scan_ok s \<longrightarrow> scan_ok s') \<and> (sc_truncated s \<longrightarrow> sc_truncated s') \<and> (\<not> partial \<longrightarrow> scan_added s (listed_entries rs) s')"
proof (induction "length rs" arbitrary: rs s rule: less_induct)
  case less
  show ?case
  proof (cases rs)
    case Nil
    then show ?thesis using less(2) by (simp add: scan_added_refl)
  next
    case (Cons r tail)
    show ?thesis
      using less(2) [unfolded Cons]
    proof (cases rule: scan_status_consE)
      case empty
      have "(scan_ok s \<longrightarrow> scan_ok s') \<and> (sc_truncated s \<longrightarrow> sc_truncated s')
          \<and> (\<not> partial \<longrightarrow> scan_added s (listed_entries tail) s')"
        by (rule less(1)) (simp_all add: Cons empty(2))
      then show ?thesis by (simp add: Cons empty(1))
    next
      case cut_short
      then show ?thesis by simp
    next
      case (rename old rest s1)
      have "(scan_ok s1 \<longrightarrow> scan_ok s') \<and> (sc_truncated s1 \<longrightarrow> sc_truncated s')
          \<and> (\<not> partial \<longrightarrow> scan_added s1 (listed_entries rest) s')"
        by (rule less(1)) (simp_all add: Cons rename(3,5))
      moreover have "listed_entries rs
          = group_entries (drop 3 r) (Some old) (record_groups r) @ listed_entries rest"
        by (simp add: Cons rename(1-3))
      ultimately show ?thesis
        using add_groups_added [OF rename(4)] add_groups_truncated [OF rename(4)]
        by (metis scan_added_def scan_added_trans)
    next
      case (plain s1)
      have "(scan_ok s1 \<longrightarrow> scan_ok s') \<and> (sc_truncated s1 \<longrightarrow> sc_truncated s')
          \<and> (\<not> partial \<longrightarrow> scan_added s1 (listed_entries tail) s')"
        by (rule less(1)) (simp_all add: Cons plain(4))
      moreover have "listed_entries rs
          = group_entries (drop 3 r) None (record_groups r) @ listed_entries tail"
        by (simp add: Cons plain(1,2))
      ultimately show ?thesis
        using add_groups_added [OF plain(3)] add_groups_truncated [OF plain(3)]
        by (metis scan_added_def scan_added_trans)
    qed
  qed
qed

text \<open>A listing stays within its bounds, its keys are valid, and when it is not marked as truncated it
  is exactly what the records of one complete status answer stand for, in the order of the pane.\<close>

theorem listing_is_exact:
  assumes "parse_status i bytes truncated = Inr c"
  shows "length (cc_files c) \<le> MAX_CHANGE_FILES \<and> path_bytes_total (cc_files c) \<le> PATH_BUDGET
    \<and> list_all (\<lambda>f. change_key_valid (cf_key f)) (cc_files c) \<and> sorted (map file_order (cc_files c))
    \<and> (\<not> cc_truncated c \<longrightarrow> \<not> truncated \<and> cc_files c = sort_key file_order (listed_entries (split_on 0 bytes)))"
proof -
  let ?s = "\<lparr>sc_files = [], sc_budget = PATH_BUDGET, sc_truncated = truncated\<rparr>"
  have "bind_result (scan_status (\<not> ends_complete bytes \<and> truncated) (split_on 0 bytes) ?s) (\<lambda>s.
        Inr \<lparr>cc_worktree = worktree_uuid i, cc_files = sort_key file_order (sc_files s),
             cc_truncated = sc_truncated s\<rparr>) = Inr c"
    using assms unfolding parse_status_def git_fail_def by (simp only: sum.simps split: if_splits)
  then obtain s where s: "scan_status (\<not> ends_complete bytes \<and> truncated) (split_on 0 bytes) ?s = Inr s"
    and made: "c = \<lparr>cc_worktree = worktree_uuid i, cc_files = sort_key file_order (sc_files s),
             cc_truncated = sc_truncated s\<rparr>"
    by (elim bind_resultE) (simp only: sum.inject)
  have c: "cc_files c = sort_key file_order (sc_files s)" "cc_truncated c = sc_truncated s"
    by (simp_all add: made)
  note added = scan_status_added [OF s]
  have "scan_ok ?s" by (simp add: scan_ok_def path_bytes_total_def)
  then have ok: "scan_ok s" using added by blast
  have exact: "\<not> truncated \<and> sc_files s = listed_entries (split_on 0 bytes)" if "\<not> sc_truncated s"
  proof -
    have "\<not> truncated"
    proof
      assume truncated
      then have "sc_truncated s" using added by simp
      then show False using that by blast
    qed
    then show ?thesis using added that by (auto simp: scan_added_def)
  qed
  have "path_bytes_total (sort_key file_order fs) = path_bytes_total fs" for fs
    unfolding path_bytes_total_def by (subst (1 2) sum_mset_sum_list [symmetric]) (simp add: mset_map)
  then have "path_bytes_total (cc_files c) \<le> PATH_BUDGET" using ok by (simp add: c scan_ok_def)
  moreover have "length (cc_files c) \<le> MAX_CHANGE_FILES" using ok by (simp add: c scan_ok_def)
  moreover have "list_all (\<lambda>f. change_key_valid (cf_key f)) (cc_files c)"
    using ok by (simp add: c scan_ok_def list_all_iff)
  moreover have "sorted (map file_order (cc_files c))" by (simp add: c)
  moreover have "\<not> cc_truncated c \<longrightarrow> \<not> truncated \<and> cc_files c = sort_key file_order (listed_entries (split_on 0 bytes))"
    using exact by (simp add: c)
  ultimately show ?thesis by blast
qed

text \<open>A status answer that is cut inside the first three bytes of a record is refused as malformed
  instead of being listed as truncated.\<close>

lemma cut_record_is_refused:
  assumes "r \<noteq> []" "length r < 4" "0 \<notin> set r"
  shows "parse_status i r True = Inl (GitError (lit ''malformed Git status''))"
  using assms by (simp add: parse_status_def split_on_no_sep git_fail_def)

end
