(* ===== verification/Spec2Isabelle.thy ===== *)
theory Spec2Isabelle
  imports Attention Terminal_Relay Coordinators Store_Properties Runtime_Properties
    GitHub_Properties Provider_Properties Bridge_Properties Launch_Properties
    Upgrade_Install Git_Properties Git_Review
begin

text \<open>
  \<^bold>\<open>A verification library for SylvOps.\<close>

  SylvOps runs coding agents (Providers such as Claude Code and Codex, or a plain shell) in terminals,
  each as a Session in a Worktree of a Project. One daemon owns the Sessions: a database thread keeps
  the durable state in SQLite, an actor per Session owns its process tree and its terminal, a loopback
  receiver takes the lifecycle hooks of the agents, and the handlers of the daemon keep the views of a
  Session (its row, its status machine, the record served to clients, its pending notifications)
  together. The terminal and desktop interfaces are clients of the daemon.

  \<^bold>\<open>Where the code is modelled.\<close> Paths are relative to \<open>src/crates\<close>; \<open>core\<close> is
  \<open>sylvops-core/src\<close> and \<open>daemon\<close> is \<open>sylvops-daemon/src\<close>.

  \<^item> \<open>Sylvops_Prelude\<close>: results as sums with \<open>and_then\<close>, association lists that behave as the
    hash maps of the code, saturating 64 bit counters, strings as lists of scalar values with their UTF-8
    bytes, and the lemmas on lists and words the other theories share.
  \<^item> \<open>Session_State\<close> (\<open>core/session_state.rs\<close>), \<open>Status_Machine\<close> (\<open>core/status.rs\<close>), \<open>Domain\<close>
    (\<open>core/ids.rs\<close>, \<open>core/domain.rs\<close>): the vocabulary of lifecycles, activities and attention, the
    machine that turns provider events and process exits into a validated status, and the records.
    Every branch of the machine is a branch of \<open>apply_live\<close>, \<open>apply_event\<close> and \<open>apply_process_exit\<close>.
  \<^item> \<open>Session_Lineage\<close> (\<open>daemon/database.rs\<close>, 3313-3401): chains of resumed Sessions.
  \<^item> \<open>Attention\<close> (\<open>core/attention.rs\<close>, \<open>daemon/daemon.rs\<close>): labels made safe for a notification,
    and the queue of notification claims that clients race for.
  \<^item> \<open>Frame_Codec\<close> (\<open>core/protocol.rs\<close>): frames on a byte stream, their bounds, the readers and writers
    on sequences of buffers, authorization tokens.
  \<^item> \<open>Scrollback\<close> and \<open>Session_Actor\<close> (\<open>daemon/session.rs\<close>): the bounded ring of output, and the actor
    with its controller lease, its clients, the requests to stop and the reaping of the process tree.
  \<^item> \<open>Terminal_Relay\<close> (\<open>daemon/daemon.rs\<close>, \<open>send_attachment\<close>): the task that forwards the terminal
    events of a Session to one client through a broadcast that may lag and a queue that may be full.
  \<^item> \<open>Coordinators\<close> (\<open>daemon/daemon.rs\<close>): the lifecycle coordinator, in which activities exclude a
    quiesce, and the coordinator of application mutations, at the grain of single atomic operations.
  \<^item> \<open>Store\<close>, \<open>Session_Store\<close>, \<open>Workspace_Store\<close>, \<open>Database\<close> (\<open>daemon/database.rs\<close> and its
    migrations): the tables with their constraints, foreign keys, cascades and triggers, one definition per
    command, and the database thread that runs each command as a transaction and counts revisions.
    \<open>Session_Invariant\<close>, \<open>Store_Consistency\<close> and \<open>Store_Properties\<close> hold the proofs.
  \<^item> \<open>Hook_Receiver\<close> (\<open>daemon/hook.rs\<close>): the parser of hook requests, the credentials, the rate
    limiter and connections that interleave with registration and invalidation.
  \<^item> \<open>Session_Runtime\<close> (\<open>daemon/daemon.rs\<close>): the handlers that join these parts, one step per
    request, delivery, runtime event or process exit. \<open>Runtime_Invariant\<close>, \<open>Runtime_Handlers\<close> and
    \<open>Runtime_Properties\<close> hold the proofs.
  \<^item> \<open>Text_Tools\<close> and \<open>Json_Values\<close>: the operations of the standard library on strings, and the JSON
    values, that the code uses.
  \<^item> \<open>GitHub_Values\<close> and \<open>GitHub_Work\<close> (\<open>core/github.rs\<close>): the validated texts, repositories, remotes
    and browser targets, and starting work on an Issue. Proofs are in \<open>GitHub_Properties\<close>.
  \<^item> \<open>Provider_Launch\<close> (\<open>core/provider.rs\<close>, \<open>daemon/provider.rs\<close>): health, endpoints, arguments and
    environments of Provider processes, one launch and one resume specification per adapter, and the
    processes a Session is started with, where the launch of a structured Codex terminal is rewritten
    to connect to its relay (\<open>daemon/codex_bridge.rs\<close>, 116-196), with the proofs in
    \<open>Provider_Properties\<close>; \<open>Provider_Events\<close>: the normalization of hook payloads.
  \<^item> \<open>Codex_Bridge\<close> (\<open>daemon/codex_bridge.rs\<close>): the tracker of open prompts and the relay between
    terminal and app server; \<open>Bridge_Properties\<close> runs it against the status machine and the hooks.
  \<^item> \<open>Session_Launch\<close> (\<open>daemon/daemon.rs\<close>): \<open>launch_new_session\<close> and \<open>resume_conversation\<close> on top of
    the adapters and the handlers; \<open>Launch_Properties\<close> shows them to be runs of \<open>daemon_step\<close>.

  \<^item> \<open>Upgrade_Release\<close> (\<open>core/upgrade.rs\<close>), \<open>Upgrade_Coordinator\<close> (\<open>daemon/upgrade.rs\<close>): which release
    an installation accepts, and the operations that check, download, recover and prepare it on a
    staging directory where every operation may fail; \<open>Upgrade_Install\<close> (\<open>daemon/daemon.rs\<close>, 3301-3431):
    the installation request. Proofs are in \<open>Upgrade_Files\<close>, \<open>Upgrade_Properties\<close> and \<open>Upgrade_Install\<close>.
  \<^item> \<open>Change_Diff\<close> (\<open>core/diff.rs\<close>, \<open>core/changes.rs\<close>): parsed patches and their side-by-side rows, with
    proofs in \<open>Change_Properties\<close>; \<open>Change_Review\<close> (\<open>core/changes.rs\<close>, \<open>sylvops-tui/src/changes.rs\<close>): the
    review state of the clients and the reducer and request cycle of the terminal pane.
  \<^item> \<open>Git_Output\<close>, \<open>Git_Worktrees\<close> and \<open>Git_Bases\<close> (\<open>daemon/git.rs\<close>): what the daemon reads from the
    output of Git, and the operations on repositories and managed worktrees, with Git and the file
    system as parameters; \<open>Git_Changes\<close> (\<open>daemon/git/changes.rs\<close>): the local changes of a checkout.
    Proofs are in \<open>Git_Decoding\<close>, \<open>Git_Properties\<close> and \<open>Git_Review\<close>.

  \<^bold>\<open>How code is translated.\<close> A struct is a record, an enum a datatype, a \<open>Result\<close> a sum with the error on
  the left. 64 bit counters are words with the saturation of the code written out, timestamps are
  integers, and strings are lists of natural numbers (scalar values). An \<open>async\<close> handler is one step
  where the code holds the operation lock of the Session or runs in the main loop; where the code
  releases a lock in between (the hook receiver, the coordinators, the actor) the parts are separate
  steps of a step function or step relation and all their interleavings are considered. A SQL
  statement becomes the operation on the table it stands for, with the refusals of its constraints.

  \<^bold>\<open>Parameters.\<close> The clock, fresh identifiers, the SHA-256 digest, the UUID parser, the terminal parser,
  the pseudo terminal, the process tree, Git, the parsers of URLs and JSON, and the outcomes of probes and
  file system checks are arguments of the definitions that use them, without assumptions beyond
  those a theorem states. Base64, Ed25519 and the parser of versions are parameters too; theorems on
  upgrades assume that a version has one spelling. The runtime takes the normalization of payloads as an argument too, for
  which \<open>Provider_Events.normalize_lifecycle_event\<close> is the one the daemon passes.

  \<^bold>\<open>What is shown.\<close>

  \<^item> Interfaces are locales: components with an invariant, refinements, partial inverses, bounded
    queues. Each is interpreted on the definitions of the code, and the invariants along runs of the
    properties come from these interpretations.
  \<^item> Status: no event makes the machine produce an invalid status, attention only moves forward, a
    turn completes exactly when no work is left, an exit is final.
  \<^item> Lineage and store: the tables stay consistent under every command, so a lineage always loads
    (unless a resumed conversation is replaced), removals and deletions change exactly what they say,
    a restart leaves no Session active, and a revision names one state.
  \<^item> Actor and scrollback: the ring refines the full history with its lost prefix reported, an
    attached client sees a continuous stream as long as it keeps up and is told of the first loss
    otherwise (\<open>losses_after_checkpoint_are_silent\<close> shows a later one it is not told of), at most one
    controller types, and a successful stop
    means a reaped process tree.
  \<^item> Hooks: a delivery carries the identity its token was issued for, a drained credential is silent,
    requests are rate limited, and a row that changes for a hook was changed by an authenticated
    request of that Session, once, by exactly the transition of its machine.
  \<^item> GitHub: suggested branches are valid for every title, remotes and browser targets name exactly one
    repository or item, the state of an Issue follows from its Worktrees and Sessions, and untrusted
    text reaches a Provider only in quoted lines.
  \<^item> Providers: what is stored of a launch holds neither prompt nor credential, the environment is
    the reviewed one with the token of the relay added for a structured terminal, and normalized events
    are bounded. The relay of a structured Session makes it await input exactly while a prompt is open, under every interleaving with its hooks.
  \<^item> Launching: a resume continues the newest Session of a conversation or changes nothing, and both
    launches are runs of the daemon, so the agreement of its views extends to them.

  \<^item> Upgrades: only a payload that matches signed metadata of a strictly newer release is handed to the
    installer, with the consent of every active Session; the publication watermark never decreases; a
    failed download leaves nothing; a staged upgrade survives a restart (also, as
    \<open>superseded_stage_is_recovered\<close> shows, one that a later publication has superseded).
  \<^item> Git: removing a managed worktree changes nothing unless the confirmed state is still there, and
    then by one command; a created worktree has the recorded commit at its head; stored remotes hold no
    credentials; a base on the latest default branch is pinned to a commit; an untruncated listing of
    changes leaves nothing out.
  \<^item> Change review: a parsed patch is bounded and free of control characters, its rows show each line
    once and in order, its numbers have no gaps, and a shown file is always the selected one, however
    the answers of the daemon and the keys interleave.

  \<^bold>\<open>Bounds and fuel.\<close> Recursions are structural or have a measure. The walk along a lineage has
  as many rounds as there are Sessions, which \<open>lineage_leaf_reached\<close> shows enough; a claim has the 256
  rounds of the code; readers of frames recurse on the buffers that are left.

  \<^bold>\<open>Not modelled.\<close> Rendering and event loops of the interfaces, locating executables and editing the
  settings of other programs, sockets, system calls and installers, which are input and output or
  glue to libraries, syntax highlighting, and the vendored terminal parser, which is third-party code. In the
  store: settings and interface state. Of Git: \<open>worktree_diff\<close>, time limits and the forms of Windows paths.

  \<^bold>\<open>Sequential consistency.\<close> The steps of \<open>Coordinators\<close> are sequentially consistent, while the code
  orders two different atomics by acquire and release only; the exclusion of activities and a quiesce
  rests on this, their draining does not.
\<close>

end
